(* ===== verification/Prelude.thy ===== *)
theory Prelude
  imports Main "HOL-Library.Word"
begin

text \<open>
  The shared vocabulary of the development: results and transactions as values, the part of
  Go's \<^verbatim>\<open>strings\<close> and \<^verbatim>\<open>strconv\<close> packages the sources call, and the generic
  lemmas the component theories use.

  A Go \<^verbatim>\<open>string\<close> or \<^verbatim>\<open>[]byte\<close> is a \<^typ>\<open>string\<close>, a list of bytes, so
  \<^const>\<open>length\<close> is Go's \<^verbatim>\<open>len\<close>. A \<^verbatim>\<open>time.Time\<close> is the number of
  nanoseconds since Go's zero time, an \<^typ>\<open>int\<close>, so \<^verbatim>\<open>IsZero\<close> is equality
  with 0. A function that returns \<^verbatim>\<open>(T, error)\<close> returns \<open>'e + 'a\<close>.
\<close>

named_theorems go_strings \<open>Go string literals, unfolded to compare them\<close>
named_theorems monad_inv \<open>what a successful bind gives\<close>

type_synonym time = int
type_synonym duration = int

definition Microsecond :: duration where "Microsecond = 1000"
definition Second :: duration where "Second = 1000000000"
definition Minute :: duration where "Minute = 60 * Second"
definition Hour :: duration where "Hour = 60 * Minute"

lemmas duration_defs = Microsecond_def Second_def Minute_def Hour_def

text \<open>\<^verbatim>\<open>Time.Sub\<close> saturates at the ends of the 64-bit \<^verbatim>\<open>Duration\<close>.\<close>

definition Sub :: "time \<Rightarrow> time \<Rightarrow> duration" where
  "Sub t u = max (- (2 ^ 63)) (min (2 ^ 63 - 1) (t - u))"

lemma Sub_le: "0 \<le> d \<Longrightarrow> d < 2 ^ 63 - 1 \<Longrightarrow> Sub t u \<le> d \<longleftrightarrow> t - u \<le> d"
  by (auto simp: Sub_def)

section \<open>Results\<close>

text \<open>\<open>bindR\<close> is Go's \<^verbatim>\<open>x, err := m; if err != nil { return err }\<close>.\<close>

definition bindR :: "'e + 'a \<Rightarrow> ('a \<Rightarrow> 'e + 'b) \<Rightarrow> 'e + 'b" where
  "bindR m f = (case m of Inl e \<Rightarrow> Inl e | Inr x \<Rightarrow> f x)"

text \<open>\<open>checkR c e\<close> is the early return \<^verbatim>\<open>if c { return e }\<close>.\<close>

definition checkR :: "bool \<Rightarrow> 'e \<Rightarrow> ('e + 'b) \<Rightarrow> 'e + 'b" where
  "checkR c e k = (if c then Inl e else k)"

text \<open>\<open>failR\<close> runs a function that returns only an \<^verbatim>\<open>error\<close> (\<open>None\<close> for nil).\<close>

definition failR :: "'e option \<Rightarrow> ('e + 'b) \<Rightarrow> 'e + 'b" where
  "failR m k = (case m of Some e \<Rightarrow> Inl e | None \<Rightarrow> k)"

lemma bindR_simps [simp]: "bindR (Inl e) f = Inl e" "bindR (Inr x) f = f x"
  by (simp_all add: bindR_def)

lemma checkR_simps [simp]: "checkR True e k = Inl e" "checkR False e k = k"
  by (simp_all add: checkR_def)

lemma failR_simps [simp]: "failR (Some e) k = Inl e" "failR None k = k"
  by (simp_all add: failR_def)

lemma bindR_Inr [monad_inv]: "bindR m f = Inr y \<longleftrightarrow> (\<exists>x. m = Inr x \<and> f x = Inr y)"
  by (cases m) auto

lemma bindR_Inl: "bindR m f = Inl e \<longleftrightarrow> m = Inl e \<or> (\<exists>x. m = Inr x \<and> f x = Inl e)"
  by (cases m) auto

lemma checkR_Inr [monad_inv]: "checkR c e k = Inr y \<longleftrightarrow> \<not> c \<and> k = Inr y"
  by (simp add: checkR_def)

lemma checkR_Inl: "checkR c e k = Inl e' \<longleftrightarrow> (c \<and> e' = e) \<or> (\<not> c \<and> k = Inl e')"
  by (auto simp: checkR_def)

lemma failR_Inr [monad_inv]: "failR m k = Inr y \<longleftrightarrow> m = None \<and> k = Inr y"
  by (cases m) auto

lemma failR_Inl: "failR m k = Inl e \<longleftrightarrow> m = Some e \<or> (m = None \<and> k = Inl e)"
  by (cases m) auto

section \<open>Transactions\<close>

text \<open>
  A function that runs inside a database transaction takes the tables and returns either an
  error, after which the transaction is rolled back, or its result and the changed tables.
\<close>

type_synonym ('e, 's, 'a) tx = "'s \<Rightarrow> 'e + 'a \<times> 's"

definition returnT :: "'a \<Rightarrow> ('e, 's, 'a) tx" where
  "returnT x = (\<lambda>s. Inr (x, s))"

definition bindT :: "('e, 's, 'a) tx \<Rightarrow> ('a \<Rightarrow> ('e, 's, 'b) tx) \<Rightarrow> ('e, 's, 'b) tx" where
  "bindT m f = (\<lambda>s. case m s of Inl e \<Rightarrow> Inl e | Inr (x, s') \<Rightarrow> f x s')"

definition failT :: "'e \<Rightarrow> ('e, 's, 'a) tx" where
  "failT e = (\<lambda>s. Inl e)"

definition checkT :: "bool \<Rightarrow> 'e \<Rightarrow> ('e, 's, 'b) tx \<Rightarrow> ('e, 's, 'b) tx" where
  "checkT c e k = (if c then failT e else k)"

text \<open>\<open>readT\<close> runs a query that does not change the tables.\<close>

definition readT :: "('s \<Rightarrow> 'e + 'a) \<Rightarrow> ('e, 's, 'a) tx" where
  "readT q = (\<lambda>s. case q s of Inl e \<Rightarrow> Inl e | Inr x \<Rightarrow> Inr (x, s))"

definition liftT :: "'e + 'a \<Rightarrow> ('e, 's, 'a) tx" where
  "liftT r = readT (\<lambda>_. r)"

text \<open>\<open>runT\<close> commits on success and rolls back on an error.\<close>

definition runT :: "('e, 's, 'a) tx \<Rightarrow> 's \<Rightarrow> ('e + 'a) \<times> 's" where
  "runT m s = (case m s of Inl e \<Rightarrow> (Inl e, s) | Inr (x, s') \<Rightarrow> (Inr x, s'))"

lemma returnT_Inr [monad_inv]: "returnT x s = Inr r \<longleftrightarrow> r = (x, s)"
  by (auto simp: returnT_def)

lemma bindT_Inr [monad_inv]:
  "bindT m f s = Inr r \<longleftrightarrow> (\<exists>x s'. m s = Inr (x, s') \<and> f x s' = Inr r)"
  by (auto simp: bindT_def split: sum.splits)

lemma bindT_Inl:
  "bindT m f s = Inl e \<longleftrightarrow> m s = Inl e \<or> (\<exists>x s'. m s = Inr (x, s') \<and> f x s' = Inl e)"
  by (auto simp: bindT_def split: sum.splits)

lemma failT_Inr [monad_inv]: "failT e s = Inr r \<longleftrightarrow> False"
  by (simp add: failT_def)

lemma checkT_Inr [monad_inv]: "checkT c e k s = Inr r \<longleftrightarrow> \<not> c \<and> k s = Inr r"
  by (simp add: checkT_def failT_def)

lemma readT_Inr [monad_inv]: "readT q s = Inr r \<longleftrightarrow> (\<exists>x. q s = Inr x \<and> r = (x, s))"
  by (auto simp: readT_def split: sum.splits)

lemma liftT_Inr [monad_inv]: "liftT q s = Inr r \<longleftrightarrow> (\<exists>x. q = Inr x \<and> r = (x, s))"
  by (simp add: liftT_def readT_Inr)

lemma runT_Inl: "runT m s = (Inl e, s') \<longleftrightarrow> m s = Inl e \<and> s' = s"
  by (auto simp: runT_def split: sum.splits)

lemma runT_Inr: "runT m s = (Inr x, s') \<longleftrightarrow> m s = Inr (x, s')"
  by (auto simp: runT_def split: sum.splits)

text \<open>A transaction keeps an invariant when every step of it does.\<close>

definition keepsT :: "('s \<Rightarrow> bool) \<Rightarrow> ('e, 's, 'a) tx \<Rightarrow> bool" where
  "keepsT I m \<longleftrightarrow> (\<forall>s x s'. I s \<longrightarrow> m s = Inr (x, s') \<longrightarrow> I s')"

lemma keepsT_I: "(\<And>s x s'. I s \<Longrightarrow> m s = Inr (x, s') \<Longrightarrow> I s') \<Longrightarrow> keepsT I m"
  by (auto simp: keepsT_def)

lemma keepsT_D: "keepsT I m \<Longrightarrow> I s \<Longrightarrow> m s = Inr (x, s') \<Longrightarrow> I s'"
  by (auto simp: keepsT_def)

lemma keepsT_return [intro]: "keepsT I (returnT x)"
  by (auto simp: keepsT_def returnT_def)

lemma keepsT_fail [intro]: "keepsT I (failT e)"
  by (auto simp: keepsT_def failT_def)

lemma keepsT_read [intro]: "keepsT I (readT q)"
  by (auto simp: keepsT_def readT_Inr)

lemma keepsT_lift [intro]: "keepsT I (liftT r)"
  by (auto simp: liftT_def)

lemma keepsT_bind [intro]:
  "keepsT I m \<Longrightarrow> (\<And>x. keepsT I (f x)) \<Longrightarrow> keepsT I (bindT m f)"
  unfolding keepsT_def by (metis bindT_Inr)

lemma keepsT_check [intro]: "keepsT I k \<Longrightarrow> keepsT I (checkT c e k)"
  by (auto simp: checkT_def)

lemma runT_keeps: "keepsT I m \<Longrightarrow> I s \<Longrightarrow> I (snd (runT m s))"
  by (auto simp: runT_def split: sum.splits dest: keepsT_D)

section \<open>Go's strings package\<close>

definition HasPrefix :: "string \<Rightarrow> string \<Rightarrow> bool" where
  "HasPrefix s p \<longleftrightarrow> take (length p) s = p"

definition HasSuffix :: "string \<Rightarrow> string \<Rightarrow> bool" where
  "HasSuffix s p \<longleftrightarrow> HasPrefix (rev s) (rev p)"

definition TrimPrefix :: "string \<Rightarrow> string \<Rightarrow> string" where
  "TrimPrefix s p = (if HasPrefix s p then drop (length p) s else s)"

fun Contains :: "string \<Rightarrow> string \<Rightarrow> bool" where
  "Contains [] sub \<longleftrightarrow> sub = []"
| "Contains (c # s) sub \<longleftrightarrow> HasPrefix (c # s) sub \<or> Contains s sub"

text \<open>\<^verbatim>\<open>strings.Split\<close> on a one-byte separator.\<close>

fun Split :: "string \<Rightarrow> char \<Rightarrow> string list" where
  "Split [] c = [[]]"
| "Split (x # s) c =
     (if x = c then [] # Split s c
      else case Split s c of p # ps \<Rightarrow> (x # p) # ps | [] \<Rightarrow> [[x]])"

fun Join :: "string list \<Rightarrow> string \<Rightarrow> string" where
  "Join [] sep = []"
| "Join [s] sep = s"
| "Join (s # t # ss) sep = s @ sep @ Join (t # ss) sep"

text \<open>
  The UTF-8 encodings of the code points \<^verbatim>\<open>unicode.IsSpace\<close> accepts. A UTF-8 sequence
  is found at either end of a string by comparing bytes, so trimming works on bytes.
\<close>

definition space_runes :: "string list" where
  "space_runes =
     [[CHR 0x09], [CHR 0x0A], [CHR 0x0B], [CHR 0x0C], [CHR 0x0D], [CHR 0x20],
      [CHR 0xC2, CHR 0x85], [CHR 0xC2, CHR 0xA0], [CHR 0xE1, CHR 0x9A, CHR 0x80]] @
     map (\<lambda>k. [CHR 0xE2, CHR 0x80, char_of k]) ([0x80 ..< 0x8B] @ [0xA8, 0xA9, 0xAF :: nat]) @
     [[CHR 0xE2, CHR 0x81, CHR 0x9F], [CHR 0xE3, CHR 0x80, CHR 0x80]]"

function trim_with :: "string list \<Rightarrow> string \<Rightarrow> string" where
  "trim_with ws s =
     (case find (\<lambda>w. w \<noteq> [] \<and> HasPrefix s w) ws of
        None \<Rightarrow> s | Some w \<Rightarrow> trim_with ws (drop (length w) s))"
  by pat_completeness auto
termination
proof (relation "measure (\<lambda>(ws, s). length s)")
  fix ws s and w :: string
  assume "find (\<lambda>w. w \<noteq> [] \<and> HasPrefix s w) ws = Some w"
  then have "w \<noteq> []" "take (length w) s = w"
    by (auto simp: find_Some_iff HasPrefix_def)
  then have "0 < length w" "s \<noteq> []" by auto
  then show "((ws, drop (length w) s), ws, s) \<in> measure (\<lambda>(ws, s). length s)"
    by simp
qed simp

declare trim_with.simps [simp del]

definition TrimSpace :: "string \<Rightarrow> string" where
  "TrimSpace s = rev (trim_with (map rev space_runes) (rev (trim_with space_runes s)))"

definition ascii_upper :: "char \<Rightarrow> char" where
  "ascii_upper c = (let n = of_char c :: nat in
     if 97 \<le> n \<and> n \<le> 122 then char_of (n - 32) else c)"

definition ascii_lower :: "char \<Rightarrow> char" where
  "ascii_lower c = (let n = of_char c :: nat in
     if 65 \<le> n \<and> n \<le> 90 then char_of (n + 32) else c)"

text \<open>
  \<^verbatim>\<open>ToUpper\<close> and \<^verbatim>\<open>ToLower\<close> on ASCII and on the only code points outside ASCII
  whose case mapping is an ASCII letter (U+0131 and U+017F upwards, U+0130 and U+212A
  downwards). Other bytes are left as they are: the callers compare the result with ASCII
  names, which no other code point can produce.
\<close>

fun ToUpper :: "string \<Rightarrow> string" where
  "ToUpper [] = []"
| "ToUpper (a # b # s) =
     (if a = CHR 0xC4 \<and> b = CHR 0xB1 then CHR ''I'' # ToUpper s
      else if a = CHR 0xC5 \<and> b = CHR 0xBF then CHR ''S'' # ToUpper s
      else ascii_upper a # ToUpper (b # s))"
| "ToUpper [a] = [ascii_upper a]"

fun ToLower :: "string \<Rightarrow> string" where
  "ToLower [] = []"
| "ToLower (a # s) =
     (if a = CHR 0xC4 \<and> HasPrefix s [CHR 0xB0] then CHR ''i'' # ToLower (drop 1 s)
      else if a = CHR 0xE2 \<and> HasPrefix s [CHR 0x84, CHR 0xAA] then CHR ''k'' # ToLower (drop 2 s)
      else ascii_lower a # ToLower s)"

text \<open>\<^verbatim>\<open>strings.EqualFold\<close> against an ASCII name without the letters k and s, where
  simple folding is ASCII folding.\<close>

definition EqualFold :: "string \<Rightarrow> string \<Rightarrow> bool" where
  "EqualFold a b \<longleftrightarrow> map ascii_lower a = map ascii_lower b"

section \<open>Decimal numerals\<close>

fun digit_char :: "nat \<Rightarrow> char" where
  "digit_char n = char_of (48 + n)"

fun nat_digits :: "nat \<Rightarrow> string" where
  "nat_digits n = (if n < 10 then [digit_char n] else nat_digits (n div 10) @ [digit_char (n mod 10)])"

declare nat_digits.simps [simp del]

text \<open>\<^verbatim>\<open>strconv.Itoa\<close> and \<^verbatim>\<open>%d\<close>.\<close>

definition Itoa :: "int \<Rightarrow> string" where
  "Itoa i = (if i < 0 then CHR ''-'' # nat_digits (nat (- i)) else nat_digits (nat i))"

text \<open>\<^verbatim>\<open>%03d\<close>, for a number that is not negative.\<close>

definition pad3 :: "nat \<Rightarrow> string" where
  "pad3 n = (let d = nat_digits n in replicate (3 - length d) CHR ''0'' @ d)"

definition digit_value :: "char \<Rightarrow> nat" where
  "digit_value c = of_char c - 48"

definition digits_value :: "string \<Rightarrow> nat" where
  "digits_value s = foldl (\<lambda>n c. 10 * n + digit_value c) 0 s"

definition is_digit :: "char \<Rightarrow> bool" where
  "is_digit c \<longleftrightarrow> 48 \<le> (of_char c :: nat) \<and> (of_char c :: nat) \<le> 57"

lemma digit_value_char [simp]: "n < 10 \<Longrightarrow> digit_value (digit_char n) = n"
  by (simp add: digit_value_def)

lemma is_digit_char [simp]: "n < 10 \<Longrightarrow> is_digit (digit_char n)"
  by (simp add: is_digit_def)

lemma digits_value_snoc: "digits_value (s @ [c]) = 10 * digits_value s + digit_value c"
  by (simp add: digits_value_def)

lemma digits_value_nat_digits [simp]: "digits_value (nat_digits n) = n"
proof (induction n rule: nat_digits.induct)
  case (1 n)
  show ?case
  proof (cases "n < 10")
    case True
    then show ?thesis
      by (subst nat_digits.simps) (simp add: digits_value_def del: digit_char.simps)
  next
    case False
    then show ?thesis
      using "1.IH" by (subst nat_digits.simps) (simp add: digits_value_snoc del: digit_char.simps)
  qed
qed

lemma nat_digits_inj [simp]: "nat_digits m = nat_digits n \<longleftrightarrow> m = n"
  by (metis digits_value_nat_digits)

lemma nat_digits_all: "list_all is_digit (nat_digits n)"
proof (induction n rule: nat_digits.induct)
  case (1 n)
  then show ?case
    by (subst nat_digits.simps) (simp del: digit_char.simps)
qed

lemma nat_digits_nonempty [simp]: "nat_digits n \<noteq> []"
  by (subst nat_digits.simps) simp

lemma nat_digits_no_minus: "CHR ''-'' \<notin> set (nat_digits n)"
  using nat_digits_all [of n] by (auto simp: list_all_iff is_digit_def)

lemma Itoa_inj [simp]: "Itoa i = Itoa j \<longleftrightarrow> i = j"
proof
  assume eq: "Itoa i = Itoa j"
  have sign: "i < 0 \<longleftrightarrow> j < 0"
  proof (rule ccontr)
    assume "\<not> (i < 0 \<longleftrightarrow> j < 0)"
    with eq have "CHR ''-'' \<in> set (nat_digits (nat j)) \<or> CHR ''-'' \<in> set (nat_digits (nat i))"
      by (auto simp: Itoa_def split: if_splits) (metis list.set_intros(1))+
    then show False by (auto simp: nat_digits_no_minus)
  qed
  with eq show "i = j" by (auto simp: Itoa_def split: if_splits)
qed simp

section \<open>Lists and maps\<close>

lemma HasPrefix_append [simp]: "HasPrefix (p @ s) p"
  by (simp add: HasPrefix_def)

lemma HasPrefix_iff: "HasPrefix s p \<longleftrightarrow> (\<exists>t. s = p @ t)"
  unfolding HasPrefix_def by (metis append_eq_conv_conj)

text \<open>Trimming leaves a string that starts and ends with a printable ASCII character alone.\<close>

definition graphic :: "char \<Rightarrow> bool" where
  "graphic c \<longleftrightarrow> 32 < (of_char c :: nat) \<and> (of_char c :: nat) < 127"

lemma trim_with_id: "\<forall>w \<in> set ws. w \<noteq> [] \<longrightarrow> hd w \<noteq> hd s \<Longrightarrow> s \<noteq> [] \<Longrightarrow> trim_with ws s = s"
proof -
  assume a: "\<forall>w \<in> set ws. w \<noteq> [] \<longrightarrow> hd w \<noteq> hd s" "s \<noteq> []"
  then have "find (\<lambda>w. w \<noteq> [] \<and> HasPrefix s w) ws = None"
    by (auto simp: find_None_iff HasPrefix_iff)
  then show ?thesis by (subst trim_with.simps) simp
qed

lemma trim_with_Nil [simp]: "trim_with ws [] = []"
proof -
  have "find (\<lambda>w. w \<noteq> [] \<and> HasPrefix [] w) ws = None"
    by (auto simp: find_None_iff HasPrefix_iff)
  then show ?thesis by (subst trim_with.simps) simp
qed

lemma space_runes_ends:
  "list_all (\<lambda>w. w \<noteq> [] \<and> \<not> graphic (hd w) \<and> \<not> graphic (last w)) space_runes"
  by code_simp

lemma TrimSpace_Nil [simp]: "TrimSpace [] = []"
  by (simp add: TrimSpace_def)

lemma TrimSpace_id: "s \<noteq> [] \<Longrightarrow> graphic (hd s) \<Longrightarrow> graphic (last s) \<Longrightarrow> TrimSpace s = s"
proof -
  assume a: "s \<noteq> []" "graphic (hd s)" "graphic (last s)"
  have 1: "trim_with space_runes s = s"
    using a space_runes_ends by (intro trim_with_id) (auto simp: list_all_iff)
  have 2: "trim_with (map rev space_runes) (rev s) = rev s"
    using a space_runes_ends by (intro trim_with_id) (auto simp: list_all_iff hd_rev)
  show ?thesis by (simp add: TrimSpace_def 1 2)
qed

lemma Split_nonempty [simp]: "Split s c \<noteq> []"
  by (cases s) (auto split: list.splits)

lemma Split_no_sep: "p \<in> set (Split s c) \<Longrightarrow> c \<notin> set p"
proof (induction s arbitrary: p)
  case (Cons x s)
  then show ?case
    by (fastforce split: list.splits if_splits)
qed simp

lemma Join_Split: "Join (Split s c) [c] = s"
proof (induction s)
  case (Cons x s)
  show ?case
  proof (cases "x = c")
    case True
    obtain p ps where sp: "Split s c = p # ps" by (cases "Split s c") auto
    with Cons True show ?thesis by simp
  next
    case False
    obtain p ps where sp: "Split s c = p # ps" by (cases "Split s c") auto
    with Cons False show ?thesis by (cases ps) auto
  qed
qed simp

lemma map_of_None_iff: "map_of xs k = None \<longleftrightarrow> k \<notin> fst ` set xs"
  by (rule map_of_eq_None_iff)

end
