(* ===== verification/Errors.thy ===== *)
theory Errors
  imports Prelude
begin

text \<open>
  The structured error model of \<^verbatim>\<open>internal/platform/errors\<close>: the kinds, the error
  values and how a chain of wrapped errors maps to a kind, a code and an HTTP status. The
  client-facing message and the details of an error are not modelled; its kind, code,
  operation and cause are.
\<close>

(*src internal/platform/errors/errors.go:23-36#Kind*)
datatype kind =
    KindInvalid | KindUnauthorized | KindForbidden | KindNotFound | KindConflict
  | KindPrecondition | KindExhausted | KindInternal | KindUnavailable | KindTimeout
  | KindTampered | KindUnprocessable

text \<open>
  An \<^verbatim>\<open>error\<close> is a platform error, a \<^verbatim>\<open>fmt.Errorf\<close> value with a
  \<^verbatim>\<open>%w\<close> cause, or a plain \<^verbatim>\<open>errors.New\<close> value.
\<close>

(*src internal/platform/errors/errors.go:39-46#Error*)
datatype go_error =
    PlatformError (err_kind: kind) (err_op: string) (err_code: string) (err_cause: "go_error option")
  | WrappedError string go_error
  | PlainError string

type_synonym 'a result = "go_error + 'a"

(*src internal/platform/errors/errors.go#E*)
definition E :: "string \<Rightarrow> kind \<Rightarrow> string \<Rightarrow> go_error" where
  "E op k code = PlatformError k op code None"

(*src internal/platform/errors/errors.go#Wrap*)
definition Wrap :: "go_error \<Rightarrow> string \<Rightarrow> kind \<Rightarrow> string \<Rightarrow> go_error" where
  "Wrap err op k code = PlatformError k op code (Some err)"

(*src internal/platform/errors/errors.go#Error.Unwrap*)
definition Unwrap :: "go_error \<Rightarrow> go_error option" where
  "Unwrap e = (case e of PlatformError _ _ _ c \<Rightarrow> c | WrappedError _ c \<Rightarrow> Some c | PlainError _ \<Rightarrow> None)"

(*src internal/platform/errors/errors.go#Invalid*)
definition Invalid :: "string \<Rightarrow> string \<Rightarrow> go_error" where "Invalid op code = E op KindInvalid code"
(*src internal/platform/errors/errors.go#NotFound*)
definition NotFound :: "string \<Rightarrow> string \<Rightarrow> go_error" where "NotFound op code = E op KindNotFound code"
(*src internal/platform/errors/errors.go#Forbidden*)
definition Forbidden :: "string \<Rightarrow> string \<Rightarrow> go_error" where "Forbidden op code = E op KindForbidden code"
(*src internal/platform/errors/errors.go#Unauthorized*)
definition Unauthorized :: "string \<Rightarrow> string \<Rightarrow> go_error" where
  "Unauthorized op code = E op KindUnauthorized code"
(*src internal/platform/errors/errors.go#Conflict*)
definition Conflict :: "string \<Rightarrow> string \<Rightarrow> go_error" where "Conflict op code = E op KindConflict code"
(*src internal/platform/errors/errors.go#Precondition*)
definition Precondition :: "string \<Rightarrow> string \<Rightarrow> go_error" where
  "Precondition op code = E op KindPrecondition code"
(*src internal/platform/errors/errors.go#Exhausted*)
definition Exhausted :: "string \<Rightarrow> string \<Rightarrow> go_error" where "Exhausted op code = E op KindExhausted code"
(*src internal/platform/errors/errors.go#Internal*)
definition Internal :: "string \<Rightarrow> string \<Rightarrow> go_error" where "Internal op code = E op KindInternal code"
(*src internal/platform/errors/errors.go#Unavailable*)
definition Unavailable :: "string \<Rightarrow> string \<Rightarrow> go_error" where
  "Unavailable op code = E op KindUnavailable code"
(*src internal/platform/errors/errors.go#Tampered*)
definition Tampered :: "string \<Rightarrow> string \<Rightarrow> go_error" where "Tampered op code = E op KindTampered code"

lemmas error_defs = E_def Wrap_def Invalid_def NotFound_def Forbidden_def Unauthorized_def
  Conflict_def Precondition_def Exhausted_def Internal_def Unavailable_def Tampered_def

text \<open>\<^verbatim>\<open>errors.As(err, &e)\<close>: the first platform error of the chain.\<close>

fun as_platform :: "go_error \<Rightarrow> go_error option" where
  "as_platform (PlatformError k op c w) = Some (PlatformError k op c w)"
| "as_platform (WrappedError _ e) = as_platform e"
| "as_platform (PlainError _) = None"

text \<open>\<^verbatim>\<open>KindOf(nil)\<close> is the empty kind, here \<open>None\<close>.\<close>

(*src internal/platform/errors/errors.go#KindOf*)
definition KindOf :: "go_error option \<Rightarrow> kind option" where
  "KindOf err = (case err of None \<Rightarrow> None
     | Some e \<Rightarrow> (case as_platform e of Some p \<Rightarrow> Some (err_kind p) | None \<Rightarrow> Some KindInternal))"

(*src internal/platform/errors/errors.go#CodeOf*)
definition CodeOf :: "go_error option \<Rightarrow> string" where
  "CodeOf err = (case Option.bind err as_platform of
       Some p \<Rightarrow> if err_code p \<noteq> '''' then err_code p else ''internal.error''
     | None \<Rightarrow> ''internal.error'')"

(*src internal/platform/errors/errors.go#HTTPStatus*)
definition HTTPStatus :: "go_error option \<Rightarrow> int" where
  "HTTPStatus err = (case KindOf err of
       Some KindInvalid \<Rightarrow> 400 | Some KindUnauthorized \<Rightarrow> 401 | Some KindForbidden \<Rightarrow> 403
     | Some KindNotFound \<Rightarrow> 404 | Some KindConflict \<Rightarrow> 409 | Some KindPrecondition \<Rightarrow> 412
     | Some KindUnprocessable \<Rightarrow> 422 | Some KindExhausted \<Rightarrow> 429 | Some KindUnavailable \<Rightarrow> 503
     | Some KindTimeout \<Rightarrow> 504 | Some KindTampered \<Rightarrow> 500 | _ \<Rightarrow> 500)"

(*src internal/platform/errors/errors.go#Retryable*)
definition Retryable :: "go_error option \<Rightarrow> bool" where
  "Retryable err = (KindOf err \<in> {Some KindUnavailable, Some KindTimeout, Some KindExhausted})"

section \<open>Properties\<close>

lemma KindOf_platform [simp]: "KindOf (Some (PlatformError k op c w)) = Some k"
  by (simp add: KindOf_def)

lemma KindOf_wrapped [simp]: "KindOf (Some (WrappedError m e)) = KindOf (Some e)"
  by (simp add: KindOf_def)

lemma as_platform_kind: "as_platform e = Some p \<Longrightarrow> KindOf (Some e) = Some (err_kind p)"
  by (simp add: KindOf_def)

text \<open>A retryable error is a 429, 503 or 504 and the other way round.\<close>

lemma retryable_status: "Retryable err \<longleftrightarrow> HTTPStatus err \<in> {429, 503, 504}"
  by (simp add: Retryable_def HTTPStatus_def split: option.split kind.split)

end
