(* ===== verification/Types.thy ===== *)
theory Types
  imports Errors
begin

text \<open>
  The value objects of \<^verbatim>\<open>internal/platform/types\<close>: identifiers and their shapes, the
  artifact taxonomy, link types, origins and statuses, generator kinds, content hashes and
  references. Go's string types stay strings, so a value that is not one of the declared
  constants can occur wherever it can in the code, and the validity predicates decide.
\<close>

type_synonym TenantID = string
type_synonym ProjectID = string
type_synonym PrincipalID = string
type_synonym ArtifactID = string
type_synonym LinkID = string
type_synonym ArtifactType = string
type_synonym LinkType = string
type_synonym LinkOrigin = string
type_synonym LinkStatus = string
type_synonym GeneratorKind = string
type_synonym ContentHash = string
type_synonym IsolationMode = string

section \<open>Identifiers\<close>

definition lower_letter :: "char \<Rightarrow> bool" where
  "lower_letter c \<longleftrightarrow> 97 \<le> (of_char c :: nat) \<and> (of_char c :: nat) \<le> 122"

definition upper_letter :: "char \<Rightarrow> bool" where
  "upper_letter c \<longleftrightarrow> 65 \<le> (of_char c :: nat) \<and> (of_char c :: nat) \<le> 90"

definition lower_hex :: "char \<Rightarrow> bool" where
  "lower_hex c \<longleftrightarrow> is_digit c \<or> (97 \<le> (of_char c :: nat) \<and> (of_char c :: nat) \<le> 102)"

(*src internal/platform/types/types.go#uuidRE*)
definition uuidRE :: "string \<Rightarrow> bool" where
  "uuidRE s \<longleftrightarrow> length s = 36 \<and>
     list_all (\<lambda>(i, c). if i \<in> {8, 13, 18, 23} then c = CHR ''-'' else lower_hex c)
       (zip [0 ..< 36] s)"

(*src internal/platform/types/types.go#slugRE*)
definition slugRE :: "string \<Rightarrow> bool" where
  "slugRE s \<longleftrightarrow> 3 \<le> length s \<and> length s \<le> 40 \<and> lower_letter (hd s) \<and>
     list_all (\<lambda>c. lower_letter c \<or> is_digit c \<or> c = CHR ''-'') (tl s)"

(*src internal/platform/types/types.go#projectKeyRE*)
definition projectKeyRE :: "string \<Rightarrow> bool" where
  "projectKeyRE s \<longleftrightarrow> 2 \<le> length s \<and> length s \<le> 10 \<and> upper_letter (hd s) \<and>
     list_all (\<lambda>c. upper_letter c \<or> is_digit c) (tl s)"

text \<open>
  \<^verbatim>\<open>^[A-Z][A-Z0-9]*(-[A-Za-z0-9]+)+$\<close>: the hyphen is in none of the classes, so the
  groups are the parts between hyphens.
\<close>

(*src internal/platform/types/types.go#artifactIDRE*)
definition artifactIDRE :: "string \<Rightarrow> bool" where
  "artifactIDRE s = (case Split s CHR ''-'' of
       h # p # ps \<Rightarrow>
         h \<noteq> [] \<and> upper_letter (hd h) \<and> list_all (\<lambda>c. upper_letter c \<or> is_digit c) (tl h) \<and>
         list_all (\<lambda>q. q \<noteq> [] \<and>
           list_all (\<lambda>c. upper_letter c \<or> lower_letter c \<or> is_digit c) q) (p # ps)
     | _ \<Rightarrow> False)"

(*src internal/platform/types/types.go:42-43#Empty*)
definition Empty :: "string \<Rightarrow> bool" where "Empty t \<longleftrightarrow> t = ''''"

(*src internal/platform/types/types.go#ParseTenantID*)
definition ParseTenantID :: "string \<Rightarrow> TenantID result" where
  "ParseTenantID s = checkR (\<not> uuidRE s) (PlainError ''invalid tenant id'') (Inr s)"

(*src internal/platform/types/types.go#ParseProjectID*)
definition ParseProjectID :: "string \<Rightarrow> ProjectID result" where
  "ParseProjectID s = checkR (\<not> uuidRE s) (PlainError ''invalid project id'') (Inr s)"

(*src internal/platform/types/types.go#ParsePrincipalID*)
definition ParsePrincipalID :: "string \<Rightarrow> PrincipalID result" where
  "ParsePrincipalID s = checkR (\<not> uuidRE s) (PlainError ''invalid principal id'') (Inr s)"

(*src internal/platform/types/types.go#ValidateSlug*)
definition ValidateSlug :: "string \<Rightarrow> go_error option" where
  "ValidateSlug s = (if \<not> slugRE s then Some (PlainError ''invalid slug'') else None)"

(*src internal/platform/types/types.go#ValidateProjectKey*)
definition ValidateProjectKey :: "string \<Rightarrow> go_error option" where
  "ValidateProjectKey s = (if \<not> projectKeyRE s then Some (PlainError ''invalid project key'') else None)"

(*src internal/platform/types/types.go#ParseArtifactID*)
definition ParseArtifactID :: "string \<Rightarrow> ArtifactID result" where
  "ParseArtifactID s =
     checkR (length s > 120) (PlainError ''artifact id exceeds 120 characters'') (
     checkR (\<not> artifactIDRE s) (PlainError ''invalid artifact id'') (
     Inr s))"

section \<open>Artifact taxonomy\<close>

definition ArtifactRequirement :: ArtifactType where "ArtifactRequirement = ''REQUIREMENT''"
definition ArtifactPRD :: ArtifactType where "ArtifactPRD = ''PRD''"
definition ArtifactSpecification :: ArtifactType where "ArtifactSpecification = ''SPECIFICATION''"
definition ArtifactBPMNProcess :: ArtifactType where "ArtifactBPMNProcess = ''BPMN_PROCESS''"
definition ArtifactArchitecture :: ArtifactType where "ArtifactArchitecture = ''ARCHITECTURE''"
definition ArtifactAPIContract :: ArtifactType where "ArtifactAPIContract = ''API_CONTRACT''"
definition ArtifactDataModel :: ArtifactType where "ArtifactDataModel = ''DATA_MODEL''"
definition ArtifactSequence :: ArtifactType where "ArtifactSequence = ''SEQUENCE''"
definition ArtifactStateMachine :: ArtifactType where "ArtifactStateMachine = ''STATE_MACHINE''"
definition ArtifactCodeUnit :: ArtifactType where "ArtifactCodeUnit = ''CODE_UNIT''"
definition ArtifactTestCase :: ArtifactType where "ArtifactTestCase = ''TEST_CASE''"
definition ArtifactPipelineDef :: ArtifactType where "ArtifactPipelineDef = ''PIPELINE_DEF''"
definition ArtifactDeployment :: ArtifactType where "ArtifactDeployment = ''DEPLOYMENT''"
definition ArtifactPolicy :: ArtifactType where "ArtifactPolicy = ''POLICY''"
definition ArtifactEvidence :: ArtifactType where "ArtifactEvidence = ''EVIDENCE''"
definition ArtifactPrompt :: ArtifactType where "ArtifactPrompt = ''PROMPT''"

lemmas artifact_type_defs [go_strings] =
  ArtifactRequirement_def ArtifactPRD_def ArtifactSpecification_def ArtifactBPMNProcess_def
  ArtifactArchitecture_def ArtifactAPIContract_def ArtifactDataModel_def ArtifactSequence_def
  ArtifactStateMachine_def ArtifactCodeUnit_def ArtifactTestCase_def ArtifactPipelineDef_def
  ArtifactDeployment_def ArtifactPolicy_def ArtifactEvidence_def ArtifactPrompt_def

record artifact_type_info =
  ti_prefix :: string
  ti_contentSchema :: string
  ti_requiresFourEyes :: bool

(*src internal/platform/types/types.go:131-153#artifactTypes*)
definition artifactTypes :: "(ArtifactType \<times> artifact_type_info) list" where
  "artifactTypes =
    [(ArtifactRequirement,   \<lparr>ti_prefix = ''REQ'', ti_contentSchema = ''specforge.requirement.v1'', ti_requiresFourEyes = False\<rparr>),
     (ArtifactPRD,           \<lparr>ti_prefix = ''PRD'', ti_contentSchema = ''specforge.prd.v1'', ti_requiresFourEyes = True\<rparr>),
     (ArtifactSpecification, \<lparr>ti_prefix = ''SPEC'', ti_contentSchema = ''specforge.spec.v1'', ti_requiresFourEyes = False\<rparr>),
     (ArtifactBPMNProcess,   \<lparr>ti_prefix = ''BPMN'', ti_contentSchema = ''specforge.bpmn.v1'', ti_requiresFourEyes = False\<rparr>),
     (ArtifactArchitecture,  \<lparr>ti_prefix = ''ARCH'', ti_contentSchema = ''specforge.architecture.v1'', ti_requiresFourEyes = True\<rparr>),
     (ArtifactAPIContract,   \<lparr>ti_prefix = ''API'', ti_contentSchema = ''specforge.api.v1'', ti_requiresFourEyes = False\<rparr>),
     (ArtifactDataModel,     \<lparr>ti_prefix = ''DATA'', ti_contentSchema = ''specforge.datamodel.v1'', ti_requiresFourEyes = False\<rparr>),
     (ArtifactSequence,      \<lparr>ti_prefix = ''SEQ'', ti_contentSchema = ''specforge.sequence.v1'', ti_requiresFourEyes = False\<rparr>),
     (ArtifactStateMachine,  \<lparr>ti_prefix = ''FSM'', ti_contentSchema = ''specforge.statemachine.v1'', ti_requiresFourEyes = False\<rparr>),
     (ArtifactCodeUnit,      \<lparr>ti_prefix = ''CODE'', ti_contentSchema = ''specforge.codeunit.v1'', ti_requiresFourEyes = False\<rparr>),
     (ArtifactTestCase,      \<lparr>ti_prefix = ''TEST'', ti_contentSchema = ''specforge.testcase.v1'', ti_requiresFourEyes = False\<rparr>),
     (ArtifactPipelineDef,   \<lparr>ti_prefix = ''PIPE'', ti_contentSchema = ''specforge.pipeline.v1'', ti_requiresFourEyes = False\<rparr>),
     (ArtifactDeployment,    \<lparr>ti_prefix = ''DEP'', ti_contentSchema = ''specforge.deployment.v1'', ti_requiresFourEyes = False\<rparr>),
     (ArtifactPolicy,        \<lparr>ti_prefix = ''POL'', ti_contentSchema = ''specforge.policy.v1'', ti_requiresFourEyes = True\<rparr>),
     (ArtifactEvidence,      \<lparr>ti_prefix = ''EVD'', ti_contentSchema = ''specforge.evidence.v1'', ti_requiresFourEyes = False\<rparr>),
     (ArtifactPrompt,        \<lparr>ti_prefix = ''PRM'', ti_contentSchema = ''specforge.prompt.v1'', ti_requiresFourEyes = False\<rparr>)]"

text \<open>A missing key of a Go map reads as the zero value.\<close>

definition type_info :: "ArtifactType \<Rightarrow> artifact_type_info" where
  "type_info t = (case map_of artifactTypes t of Some i \<Rightarrow> i
     | None \<Rightarrow> \<lparr>ti_prefix = '''', ti_contentSchema = '''', ti_requiresFourEyes = False\<rparr>)"

(*src internal/platform/types/types.go#ArtifactType.Valid*)
definition ArtifactType_Valid :: "ArtifactType \<Rightarrow> bool" where
  "ArtifactType_Valid t \<longleftrightarrow> map_of artifactTypes t \<noteq> None"

(*src internal/platform/types/types.go#ArtifactType.Prefix*)
definition Prefix :: "ArtifactType \<Rightarrow> string" where "Prefix t = ti_prefix (type_info t)"

(*src internal/platform/types/types.go#ArtifactType.DefaultContentSchema*)
definition DefaultContentSchema :: "ArtifactType \<Rightarrow> string" where
  "DefaultContentSchema t = ti_contentSchema (type_info t)"

(*src internal/platform/types/types.go#ArtifactType.RequiresFourEyes*)
definition RequiresFourEyes :: "ArtifactType \<Rightarrow> bool" where
  "RequiresFourEyes t = ti_requiresFourEyes (type_info t)"

(*src internal/platform/types/types.go#ParseArtifactType*)
definition ParseArtifactType :: "string \<Rightarrow> ArtifactType result" where
  "ParseArtifactType s = (let t = ToUpper (TrimSpace s) in
     checkR (\<not> ArtifactType_Valid t) (PlainError ''unknown artifact type'') (Inr t))"

section \<open>Trace links\<close>

definition LinkDerivedFrom :: LinkType where "LinkDerivedFrom = ''DERIVED_FROM''"
definition LinkSatisfies :: LinkType where "LinkSatisfies = ''SATISFIES''"
definition LinkImplements :: LinkType where "LinkImplements = ''IMPLEMENTS''"
definition LinkRepresentedBy :: LinkType where "LinkRepresentedBy = ''REPRESENTED_BY''"
definition LinkVerifies :: LinkType where "LinkVerifies = ''VERIFIES''"
definition LinkRealizedBy :: LinkType where "LinkRealizedBy = ''REALIZED_BY''"
definition LinkDeploys :: LinkType where "LinkDeploys = ''DEPLOYS''"
definition LinkContains :: LinkType where "LinkContains = ''CONTAINS''"
definition LinkDependsOn :: LinkType where "LinkDependsOn = ''DEPENDS_ON''"
definition LinkSupersedes :: LinkType where "LinkSupersedes = ''SUPERSEDES''"
definition LinkGoverns :: LinkType where "LinkGoverns = ''GOVERNS''"
definition LinkEvidences :: LinkType where "LinkEvidences = ''EVIDENCES''"
definition LinkConflictsWith :: LinkType where "LinkConflictsWith = ''CONFLICTS_WITH''"

lemmas link_type_defs [go_strings] =
  LinkDerivedFrom_def LinkSatisfies_def LinkImplements_def LinkRepresentedBy_def
  LinkVerifies_def LinkRealizedBy_def LinkDeploys_def LinkContains_def LinkDependsOn_def
  LinkSupersedes_def LinkGoverns_def LinkEvidences_def LinkConflictsWith_def

(*src internal/platform/types/types.go:210-224#linkInverse*)
definition linkInverse :: "(LinkType \<times> string) list" where
  "linkInverse =
    [(LinkDerivedFrom, ''DERIVES''), (LinkSatisfies, ''SATISFIED_BY''),
     (LinkImplements, ''IMPLEMENTED_BY''), (LinkRepresentedBy, ''REPRESENTS''),
     (LinkVerifies, ''VERIFIED_BY''), (LinkRealizedBy, ''REALIZES''),
     (LinkDeploys, ''DEPLOYED_BY''), (LinkContains, ''CONTAINED_BY''),
     (LinkDependsOn, ''DEPENDED_ON_BY''), (LinkSupersedes, ''SUPERSEDED_BY''),
     (LinkGoverns, ''GOVERNED_BY''), (LinkEvidences, ''EVIDENCED_BY''),
     (LinkConflictsWith, ''CONFLICTS_WITH'')]"

(*src internal/platform/types/types.go#LinkType.Valid*)
definition LinkType_Valid :: "LinkType \<Rightarrow> bool" where
  "LinkType_Valid l \<longleftrightarrow> map_of linkInverse l \<noteq> None"

(*src internal/platform/types/types.go#LinkType.Inverse*)
definition Inverse :: "LinkType \<Rightarrow> string" where
  "Inverse l = (case map_of linkInverse l of Some s \<Rightarrow> s | None \<Rightarrow> '''')"

(*src internal/platform/types/types.go#LinkType.Symmetric*)
definition Symmetric :: "LinkType \<Rightarrow> bool" where "Symmetric l \<longleftrightarrow> l = LinkConflictsWith"

(*src internal/platform/types/types.go#ParseLinkType*)
definition ParseLinkType :: "string \<Rightarrow> LinkType result" where
  "ParseLinkType s = (let t = ToUpper (TrimSpace s) in
     checkR (\<not> LinkType_Valid t) (PlainError ''unknown link type'') (Inr t))"

definition OriginHuman :: LinkOrigin where "OriginHuman = ''HUMAN''"
definition OriginAnalyzer :: LinkOrigin where "OriginAnalyzer = ''ANALYZER''"
definition OriginLLMProposed :: LinkOrigin where "OriginLLMProposed = ''LLM_PROPOSED''"

lemmas origin_defs [go_strings] = OriginHuman_def OriginAnalyzer_def OriginLLMProposed_def

(*src internal/platform/types/types.go#LinkOrigin.Valid*)
definition LinkOrigin_Valid :: "LinkOrigin \<Rightarrow> bool" where
  "LinkOrigin_Valid o' \<longleftrightarrow> o' = OriginHuman \<or> o' = OriginAnalyzer \<or> o' = OriginLLMProposed"

(*src internal/platform/types/types.go#LinkOrigin.RequiresDisposition*)
definition RequiresDisposition :: "LinkOrigin \<Rightarrow> bool" where
  "RequiresDisposition o' \<longleftrightarrow> o' = OriginLLMProposed"

definition LinkProposed :: LinkStatus where "LinkProposed = ''PROPOSED''"
definition LinkAccepted :: LinkStatus where "LinkAccepted = ''ACCEPTED''"
definition LinkRejected :: LinkStatus where "LinkRejected = ''REJECTED''"
definition LinkStale :: LinkStatus where "LinkStale = ''STALE''"

lemmas link_status_defs [go_strings] =
  LinkProposed_def LinkAccepted_def LinkRejected_def LinkStale_def

lemma link_status_distinct [simp]:
  "LinkProposed \<noteq> LinkAccepted" "LinkAccepted \<noteq> LinkProposed" "LinkProposed \<noteq> LinkRejected"
  "LinkRejected \<noteq> LinkProposed" "LinkProposed \<noteq> LinkStale" "LinkStale \<noteq> LinkProposed"
  "LinkAccepted \<noteq> LinkRejected" "LinkRejected \<noteq> LinkAccepted" "LinkAccepted \<noteq> LinkStale"
  "LinkStale \<noteq> LinkAccepted" "LinkRejected \<noteq> LinkStale" "LinkStale \<noteq> LinkRejected"
  by (simp_all add: link_status_defs)

lemma origin_distinct [simp]:
  "OriginHuman \<noteq> OriginAnalyzer" "OriginAnalyzer \<noteq> OriginHuman" "OriginHuman \<noteq> OriginLLMProposed"
  "OriginLLMProposed \<noteq> OriginHuman" "OriginAnalyzer \<noteq> OriginLLMProposed"
  "OriginLLMProposed \<noteq> OriginAnalyzer"
  by (simp_all add: origin_defs)

section \<open>Provenance, isolation, content hashes\<close>

definition GeneratedByUser :: GeneratorKind where "GeneratedByUser = ''USER''"
definition GeneratedByAnalyzer :: GeneratorKind where "GeneratedByAnalyzer = ''ANALYZER''"
definition GeneratedByInference :: GeneratorKind where "GeneratedByInference = ''INFERENCE''"
definition GeneratedByImport :: GeneratorKind where "GeneratedByImport = ''IMPORT''"

lemmas generator_defs [go_strings] =
  GeneratedByUser_def GeneratedByAnalyzer_def GeneratedByInference_def GeneratedByImport_def

(*src internal/platform/types/types.go#GeneratorKind.Valid*)
definition GeneratorKind_Valid :: "GeneratorKind \<Rightarrow> bool" where
  "GeneratorKind_Valid k \<longleftrightarrow>
     k = GeneratedByUser \<or> k = GeneratedByAnalyzer \<or> k = GeneratedByInference \<or> k = GeneratedByImport"

(*src internal/platform/types/types.go#GeneratorKind.IsAI*)
definition IsAI :: "GeneratorKind \<Rightarrow> bool" where "IsAI k \<longleftrightarrow> k = GeneratedByInference"

(*src internal/platform/types/types.go#IsolationMode.Valid*)
definition IsolationMode_Valid :: "IsolationMode \<Rightarrow> bool" where
  "IsolationMode_Valid m \<longleftrightarrow> m = ''shared'' \<or> m = ''dedicated_schema'' \<or> m = ''single_tenant''"

(*src internal/platform/types/types.go#Severity.Weight*)
definition Weight :: "string \<Rightarrow> int" where
  "Weight s = (if s = ''CRITICAL'' then 8 else if s = ''HIGH'' then 4
     else if s = ''MEDIUM'' then 2 else if s = ''LOW'' then 1 else 0)"

(*src internal/platform/types/types.go#ContentHash.Valid*)
definition ContentHash_Valid :: "ContentHash \<Rightarrow> bool" where
  "ContentHash_Valid h \<longleftrightarrow>
     HasPrefix h ''sha256:'' \<and> length h = 71 \<and> list_all lower_hex (drop 7 h)"

(*src internal/platform/types/types.go#ContentHash.HexOnly*)
definition HexOnly :: "ContentHash \<Rightarrow> string" where "HexOnly h = TrimPrefix h ''sha256:''"

(*src internal/platform/types/types.go#ContentHash.Short*)
definition Short :: "ContentHash \<Rightarrow> string" where
  "Short h = (if length h > 19 then take 19 h else h)"

(*src internal/platform/types/types.go#ParseContentHash*)
definition ParseContentHash :: "string \<Rightarrow> ContentHash result" where
  "ParseContentHash s = checkR (\<not> ContentHash_Valid s) (PlainError ''invalid content hash'') (Inr s)"

(*src internal/platform/types/types.go#ArtifactRef*)
record ArtifactRef =
  ref_ArtifactID :: ArtifactID
  ref_Version :: int

(*src internal/platform/types/types.go#ArtifactRef.String*)
definition ArtifactRef_String :: "ArtifactRef \<Rightarrow> string" where
  "ArtifactRef_String r = ref_ArtifactID r @ ''@v'' @ Itoa (ref_Version r)"

(*src internal/platform/types/types.go#ArtifactRef.Zero*)
definition ArtifactRef_Zero :: "ArtifactRef \<Rightarrow> bool" where
  "ArtifactRef_Zero r \<longleftrightarrow> ref_ArtifactID r = ''''"

text \<open>\<^verbatim>\<open>Truncate\<close> rounds down to a multiple of the duration since the zero time.\<close>

(*src internal/platform/types/types.go#NormalizeTime*)
definition NormalizeTime :: "time \<Rightarrow> time" where "NormalizeTime t = t - t mod Microsecond"

section \<open>Properties\<close>

lemma NormalizeTime_idem [simp]: "NormalizeTime (NormalizeTime t) = NormalizeTime t"
  by (simp add: NormalizeTime_def Microsecond_def mod_diff_left_eq mod_diff_right_eq)

lemma NormalizeTime_bounds: "NormalizeTime t \<le> t" "t < NormalizeTime t + Microsecond"
  by (auto simp: NormalizeTime_def Microsecond_def)

lemma uuid_no_quote: "uuidRE s \<Longrightarrow> CHR 0x27 \<notin> set s"
proof
  assume u: "uuidRE s" and q: "CHR 0x27 \<in> set s"
  then obtain i where "i < 36" "s ! i = CHR 0x27"
    by (auto simp: uuidRE_def in_set_conv_nth)
  with u have "(i, CHR 0x27) \<in> set (zip [0 ..< 36] s)"
    by (auto simp: uuidRE_def in_set_zip intro!: exI [of _ i])
  with u show False
    by (auto simp: uuidRE_def list_all_iff lower_hex_def is_digit_def split: if_splits)
qed

lemma ArtifactType_Valid_cases:
  "ArtifactType_Valid t \<longleftrightarrow> t \<in> set (map fst artifactTypes)"
  by (simp add: ArtifactType_Valid_def map_of_eq_None_iff)

lemma ParseArtifactID_Inr: "ParseArtifactID s = Inr a \<longleftrightarrow> a = s \<and> length s \<le> 120 \<and> artifactIDRE s"
  by (auto simp: ParseArtifactID_def checkR_Inr)

text \<open>The identifier prefixes of the artifact types are pairwise distinct, and so are the
  names of the reverse traversals.\<close>

lemma prefixes_distinct: "distinct (map (ti_prefix \<circ> snd) artifactTypes)"
  by (simp add: artifactTypes_def)

lemma link_inverse_distinct: "distinct (map snd linkInverse)" "distinct (map fst linkInverse)"
  by (simp_all add: linkInverse_def link_type_defs)

end
