(* ===== verification/Fsm.thy ===== *)
theory Fsm
  imports Types
begin

text \<open>
  The state machine engine of \<^verbatim>\<open>internal/platform/fsm\<close>: transition tables, their
  validation (\<^verbatim>\<open>Build\<close>) and the execution of one transition (\<^verbatim>\<open>Fire\<close>).
  A state and an event are strings. A guard returns an optional error; an effect mutates its
  subject, so it returns the changed subject beside its optional error. The problems
  \<^verbatim>\<open>Build\<close> reports are constructors in place of messages, in the order they are found
  (the source sorts the rendered messages).
\<close>

section \<open>Tables and machines\<close>

type_synonym State = string
type_synonym Event = string
type_synonym 'a Guard = "'a \<Rightarrow> go_error option"
type_synonym 'a Effect = "'a \<Rightarrow> go_error option \<times> 'a"

(*src internal/platform/fsm/fsm.go#Transition*)
record 'a Transition =
  tr_From :: "State list"
  tr_Event :: Event
  tr_To :: State
  tr_Permission :: string
  tr_Guards :: "'a Guard list"
  tr_Effects :: "'a Effect list"
  tr_EmitEvent :: string
  tr_AuditAction :: string

(*src internal/platform/fsm/fsm.go#Definition*)
record 'a Definition =
  def_Name :: string
  def_Initial :: State
  def_States :: "State list"
  def_Terminal :: "State list"
  def_Transitions :: "'a Transition list"

(*src internal/platform/fsm/fsm.go#Machine*)
record 'a Machine =
  m_name :: string
  m_initial :: State
  m_transitions :: "'a Transition list"
  m_index :: "((State \<times> Event) \<times> 'a Transition) list"
  m_states :: "State list"
  m_terminal :: "State list"

datatype problem =
    NoEvent nat | UndeclaredTarget Event State | NoSources Event | NoAudit Event
  | UndeclaredSource Event State | LeavesTerminal Event State | DuplicateTransition State Event
  | UnreachableState State | DeadEnd State

datatype build_error =
    NameRequired | InitialRequired | TerminalUndeclared State | InitialUndeclared State
  | Problems "problem list"

section \<open>Build\<close>

text \<open>The loop over the source states of one transition.\<close>

(*src internal/platform/fsm/fsm.go:147-161#Build*)
fun build_froms ::
  "State list \<Rightarrow> State list \<Rightarrow> 'a Transition \<Rightarrow> State list \<Rightarrow>
   problem list \<times> ((State \<times> Event) \<times> 'a Transition) list \<Rightarrow>
   problem list \<times> ((State \<times> Event) \<times> 'a Transition) list" where
  "build_froms states terminal t [] acc = acc"
| "build_froms states terminal t (f # fs) (ps, idx) =
     (if f \<notin> set states
      then build_froms states terminal t fs (ps @ [UndeclaredSource (tr_Event t) f], idx)
      else
        (let ps1 = (if f \<in> set terminal then ps @ [LeavesTerminal (tr_Event t) f] else ps) in
         if map_of idx (f, tr_Event t) \<noteq> None
         then build_froms states terminal t fs (ps1 @ [DuplicateTransition f (tr_Event t)], idx)
         else build_froms states terminal t fs (ps1, ((f, tr_Event t), t) # idx)))"

text \<open>The checks of one transition before its source states are read.\<close>

(*src internal/platform/fsm/fsm.go:136-146#Build*)
definition transition_problems :: "State list \<Rightarrow> 'a Transition \<Rightarrow> problem list" where
  "transition_problems states t =
     (if tr_To t \<notin> set states then [UndeclaredTarget (tr_Event t) (tr_To t)] else []) @
     (if tr_From t = [] then [NoSources (tr_Event t)] else []) @
     (if tr_AuditAction t = '''' then [NoAudit (tr_Event t)] else [])"

text \<open>The loop over the transitions.\<close>

(*src internal/platform/fsm/fsm.go:130-162#Build*)
fun build_transitions ::
  "State list \<Rightarrow> State list \<Rightarrow> nat \<Rightarrow> 'a Transition list \<Rightarrow>
   problem list \<times> ((State \<times> Event) \<times> 'a Transition) list \<Rightarrow>
   problem list \<times> ((State \<times> Event) \<times> 'a Transition) list" where
  "build_transitions states terminal i [] acc = acc"
| "build_transitions states terminal i (t # ts) (ps, idx) =
     (if tr_Event t = '''' then build_transitions states terminal (Suc i) ts (ps @ [NoEvent i], idx)
      else
        (let ps1 = ps @ transition_problems states t
         in build_transitions states terminal (Suc i) ts
              (build_froms states terminal t (tr_From t) (ps1, idx))))"

(*src internal/platform/fsm/fsm.go:167-182#Build*)
definition reach_problems :: "'a Definition \<Rightarrow> problem list" where
  "reach_problems def =
     concat (map (\<lambda>s.
       (if s \<noteq> def_Initial def \<and> (\<forall>t \<in> set (def_Transitions def). tr_To t \<noteq> s)
        then [UnreachableState s] else []) @
       (if s \<notin> set (def_Terminal def) \<and> (\<forall>t \<in> set (def_Transitions def). s \<notin> set (tr_From t))
        then [DeadEnd s] else [])) (remdups (def_States def)))"

(*src internal/platform/fsm/fsm.go#Build*)
definition Build :: "'a Definition \<Rightarrow> build_error + 'a Machine" where
  "Build def =
     checkR (def_Name def = '''') NameRequired (
     checkR (def_Initial def = '''') InitialRequired (
     case find (\<lambda>s. s \<notin> set (def_States def)) (def_Terminal def) of
       Some s \<Rightarrow> Inl (TerminalUndeclared s)
     | None \<Rightarrow>
         checkR (def_Initial def \<notin> set (def_States def)) (InitialUndeclared (def_Initial def)) (
         let (ps, idx) = build_transitions (def_States def) (def_Terminal def) 0
                           (def_Transitions def) ([], []);
             problems = ps @ reach_problems def
         in checkR (problems \<noteq> []) (Problems problems)
              (Inr \<lparr>m_name = def_Name def, m_initial = def_Initial def,
                    m_transitions = def_Transitions def, m_index = idx,
                    m_states = def_States def, m_terminal = def_Terminal def\<rparr>))))"

section \<open>Queries and Fire\<close>

(*src internal/platform/fsm/fsm.go#Machine.IsTerminal*)
definition IsTerminal :: "'a Machine \<Rightarrow> State \<Rightarrow> bool" where
  "IsTerminal m s \<longleftrightarrow> s \<in> set (m_terminal m)"

(*src internal/platform/fsm/fsm.go#Machine.Lookup*)
definition Lookup :: "'a Machine \<Rightarrow> State \<Rightarrow> Event \<Rightarrow> 'a Transition option" where
  "Lookup m from ev = map_of (m_index m) (from, ev)"

(*src internal/platform/fsm/fsm.go#Machine.Can*)
definition Can :: "'a Machine \<Rightarrow> State \<Rightarrow> Event \<Rightarrow> bool" where
  "Can m from ev \<longleftrightarrow> Lookup m from ev \<noteq> None"

text \<open>The events available from a state (the source sorts the same list by name).\<close>

(*src internal/platform/fsm/fsm.go#Machine.Allowed*)
definition Allowed :: "'a Machine \<Rightarrow> State \<Rightarrow> Event list" where
  "Allowed m from = map (snd \<circ> fst) (filter (\<lambda>(k, t). fst k = from) (m_index m))"

(*src internal/platform/fsm/fsm.go#Outcome*)
record Outcome =
  out_From :: State
  out_To :: State
  out_Event :: Event
  out_EmitEvent :: string
  out_AuditAction :: string
  out_Permission :: string

(*src internal/platform/fsm/fsm.go:292-296#Machine.Fire*)
fun run_guards :: "'a Guard list \<Rightarrow> 'a \<Rightarrow> go_error option" where
  "run_guards [] subj = None"
| "run_guards (g # gs) subj =
     (case g subj of Some e \<Rightarrow> Some (WrappedError ''fsm: guard'' e) | None \<Rightarrow> run_guards gs subj)"

(*src internal/platform/fsm/fsm.go:298-302#Machine.Fire*)
fun run_effects :: "'a Effect list \<Rightarrow> 'a \<Rightarrow> go_error option \<times> 'a" where
  "run_effects [] subj = (None, subj)"
| "run_effects (e # es) subj =
     (case e subj of (Some err, subj') \<Rightarrow> (Some (WrappedError ''fsm: effect'' err), subj')
                   | (None, subj') \<Rightarrow> run_effects es subj')"

(*src internal/platform/fsm/fsm.go:286-290#Machine.Fire*)
definition check_permission :: "(string \<Rightarrow> go_error option) option \<Rightarrow> string \<Rightarrow> go_error option" where
  "check_permission chk perm =
     (if perm \<noteq> '''' then (case chk of Some c \<Rightarrow> c perm | None \<Rightarrow> None) else None)"

text \<open>
  \<^verbatim>\<open>Fire\<close> returns the outcome or the error, and the subject as the call leaves it. A nil
  checker is \<open>None\<close>.
\<close>

(*src internal/platform/fsm/fsm.go#Machine.Fire*)
definition Fire ::
  "'a Machine \<Rightarrow> State \<Rightarrow> Event \<Rightarrow> 'a \<Rightarrow> (string \<Rightarrow> go_error option) option \<Rightarrow>
   Outcome result \<times> 'a" where
  "Fire m from ev subj chk =
     (if from \<notin> set (m_states m) then (Inl (Invalid ''fsm.Fire'' ''fsm.unknown_state''), subj)
      else case Lookup m from ev of
        None \<Rightarrow> (Inl (Precondition ''fsm.Fire'' ''fsm.illegal_transition''), subj)
      | Some t \<Rightarrow>
          (case check_permission chk (tr_Permission t) of
             Some e \<Rightarrow> (Inl e, subj)
           | None \<Rightarrow>
               (case run_guards (tr_Guards t) subj of
                  Some e \<Rightarrow> (Inl e, subj)
                | None \<Rightarrow>
                    (case run_effects (tr_Effects t) subj of
                       (Some e, subj') \<Rightarrow> (Inl e, subj')
                     | (None, subj') \<Rightarrow>
                         (Inr \<lparr>out_From = from, out_To = tr_To t, out_Event = ev,
                               out_EmitEvent = tr_EmitEvent t, out_AuditAction = tr_AuditAction t,
                               out_Permission = tr_Permission t\<rparr>, subj')))))"

text \<open>A transition literal without effects.\<close>

definition plain_transition :: "State list \<Rightarrow> Event \<Rightarrow> State \<Rightarrow> string \<Rightarrow> 'a Guard list \<Rightarrow> string \<Rightarrow> string \<Rightarrow> 'a Transition" where
  "plain_transition from ev to perm guards emit aud =
     \<lparr>tr_From = from, tr_Event = ev, tr_To = to, tr_Permission = perm, tr_Guards = guards,
      tr_Effects = [], tr_EmitEvent = emit, tr_AuditAction = aud\<rparr>"

section \<open>What Build guarantees\<close>

text \<open>The specification of a valid table: what \<^verbatim>\<open>Build\<close> checks, stated over the table.\<close>

definition wf_table :: "'a Definition \<Rightarrow> bool" where
  "wf_table def \<longleftrightarrow>
     def_Name def \<noteq> '''' \<and> def_Initial def \<noteq> '''' \<and>
     set (def_Terminal def) \<subseteq> set (def_States def) \<and> def_Initial def \<in> set (def_States def) \<and>
     (\<forall>t \<in> set (def_Transitions def).
        tr_Event t \<noteq> '''' \<and> tr_To t \<in> set (def_States def) \<and> tr_From t \<noteq> [] \<and>
        tr_AuditAction t \<noteq> '''' \<and>
        set (tr_From t) \<subseteq> set (def_States def) - set (def_Terminal def)) \<and>
     distinct (concat (map (\<lambda>t. map (\<lambda>f. (f, tr_Event t)) (tr_From t)) (def_Transitions def))) \<and>
     (\<forall>s \<in> set (def_States def).
        (s = def_Initial def \<or> (\<exists>t \<in> set (def_Transitions def). tr_To t = s)) \<and>
        (s \<in> set (def_Terminal def) \<or> (\<exists>t \<in> set (def_Transitions def). s \<in> set (tr_From t))))"

text \<open>The keys a transition, and a table, contribute to the index.\<close>

abbreviation keys_of :: "'a Transition \<Rightarrow> (State \<times> Event) list" where
  "keys_of t \<equiv> map (\<lambda>f. (f, tr_Event t)) (tr_From t)"

definition table_index :: "'a Transition list \<Rightarrow> ((State \<times> Event) \<times> 'a Transition) list" where
  "table_index ts = concat (map (\<lambda>t. map (\<lambda>k. (k, t)) (keys_of t)) ts)"

lemma build_froms_problems_mono:
  "set ps \<subseteq> set (fst (build_froms S T t fs (ps, idx)))"
proof (induction fs arbitrary: ps idx)
  case (Cons f fs)
  have step: "set ps \<subseteq> set (fst (build_froms S T t fs (ps @ qs, i)))" for qs i
    using Cons [of "ps @ qs" i] by simp
  show ?case
    using step [of "[]"] step [of "[_]"] step [of "[_, _]"] by (simp add: Let_def)
qed simp

lemma build_froms_ok:
  "build_froms S T t fs ([], idx) = ([], idx') \<longleftrightarrow>
     set fs \<subseteq> set S - set T \<and> distinct fs \<and>
     (\<forall>f \<in> set fs. (f, tr_Event t) \<notin> fst ` set idx) \<and>
     idx' = rev (map (\<lambda>f. ((f, tr_Event t), t)) fs) @ idx"
proof (induction fs arbitrary: idx)
  case Nil
  then show ?case by auto
next
  case (Cons f fs)
  have no: "build_froms S T t fs (p # ps, i) \<noteq> ([], idx')" for p ps i
    using build_froms_problems_mono [of "p # ps" S T t fs i] by auto
  show ?case
  proof (cases "f \<in> set S \<and> f \<notin> set T \<and> (f, tr_Event t) \<notin> fst ` set idx")
    case True
    then show ?thesis
      using Cons [of "((f, tr_Event t), t) # idx"]
      by (auto simp: map_of_eq_None_iff)
  next
    case False
    then show ?thesis
      using no by (auto simp: Let_def map_of_eq_None_iff)
  qed
qed

lemma build_transitions_problems_mono:
  "set ps \<subseteq> set (fst (build_transitions S T i ts (ps, idx)))"
proof (induction ts arbitrary: i ps idx)
  case (Cons t ts)
  let ?ps1 = "ps @ transition_problems S t"
  obtain ps2 idx2 where b: "build_froms S T t (tr_From t) (?ps1, idx) = (ps2, idx2)"
    by (cases "build_froms S T t (tr_From t) (?ps1, idx)")
  have "set ps \<subseteq> set ps2"
    using build_froms_problems_mono [of ?ps1 S T t "tr_From t" idx] b by auto
  then show ?case
    using Cons [of "ps @ [NoEvent i]" "Suc i" idx] Cons [of ps2 "Suc i" idx2] b by auto
qed simp

text \<open>One transition passes the checks of the loop.\<close>

definition ok_transition :: "State list \<Rightarrow> State list \<Rightarrow> 'a Transition \<Rightarrow> bool" where
  "ok_transition S T t \<longleftrightarrow>
     tr_Event t \<noteq> '''' \<and> tr_To t \<in> set S \<and> tr_From t \<noteq> [] \<and> tr_AuditAction t \<noteq> '''' \<and>
     set (tr_From t) \<subseteq> set S - set T"

lemma build_transitions_nonempty:
  "ps \<noteq> [] \<Longrightarrow> build_transitions S T i ts (ps, idx) \<noteq> ([], idx')"
  using build_transitions_problems_mono [of ps S T i ts idx] by auto

lemma transition_problems_Nil:
  "transition_problems S t = [] \<longleftrightarrow> tr_To t \<in> set S \<and> tr_From t \<noteq> [] \<and> tr_AuditAction t \<noteq> ''''"
  by (auto simp: transition_problems_def)

lemma build_transitions_step:
  "build_transitions S T i (t # ts) ([], idx) = ([], idx') \<longleftrightarrow>
     ok_transition S T t \<and> distinct (tr_From t) \<and>
     (\<forall>f \<in> set (tr_From t). (f, tr_Event t) \<notin> fst ` set idx) \<and>
     build_transitions S T (Suc i) ts
       ([], rev (map (\<lambda>f. ((f, tr_Event t), t)) (tr_From t)) @ idx) = ([], idx')"
proof -
  let ?ps1 = "transition_problems S t"
  obtain ps2 idx2 where b: "build_froms S T t (tr_From t) (?ps1, idx) = (ps2, idx2)"
    by (cases "build_froms S T t (tr_From t) (?ps1, idx)")
  have ps: "ps2 = [] \<Longrightarrow> ?ps1 = []"
    using build_froms_problems_mono [of ?ps1 S T t "tr_From t" idx] b by auto
  let ?idx1 = "rev (map (\<lambda>f. ((f, tr_Event t), t)) (tr_From t)) @ idx"
  let ?C = "set (tr_From t) \<subseteq> set S - set T \<and> distinct (tr_From t) \<and>
      (\<forall>f \<in> set (tr_From t). (f, tr_Event t) \<notin> fst ` set idx)"
  have good: "ps2 = [] \<longleftrightarrow> ?ps1 = [] \<and> ?C" and idx2: "ps2 = [] \<Longrightarrow> idx2 = ?idx1"
  proof -
    have 1: "?ps1 = [] \<and> ?C \<and> idx2 = ?idx1" if "ps2 = []"
      using b ps [OF that] build_froms_ok [of S T t "tr_From t" idx idx2] that by simp
    have 2: "ps2 = []" if "?ps1 = []" ?C
      using b that build_froms_ok [of S T t "tr_From t" idx ?idx1] by simp
    show "ps2 = [] \<longleftrightarrow> ?ps1 = [] \<and> ?C" using 1 2 by blast
    show "ps2 = [] \<Longrightarrow> idx2 = ?idx1" using 1 by blast
  qed
  have lhs: "build_transitions S T i (t # ts) ([], idx) =
      (if tr_Event t = '''' then build_transitions S T (Suc i) ts ([NoEvent i], idx)
       else build_transitions S T (Suc i) ts (ps2, idx2))"
    using b by simp
  have ok: "ok_transition S T t \<and> distinct (tr_From t) \<and>
      (\<forall>f \<in> set (tr_From t). (f, tr_Event t) \<notin> fst ` set idx)
      \<longleftrightarrow> tr_Event t \<noteq> '''' \<and> ps2 = []"
    unfolding good ok_transition_def transition_problems_Nil by blast
  show ?thesis
  proof (cases "tr_Event t \<noteq> '''' \<and> ps2 = []")
    case True
    with ok lhs idx2 show ?thesis by simp
  next
    case False
    then have "build_transitions S T i (t # ts) ([], idx) \<noteq> ([], idx')"
      using lhs by (auto simp: build_transitions_nonempty)
    with ok False show ?thesis by blast
  qed
qed

lemma table_index_simps [simp]:
  "table_index [] = []"
  "table_index (t # ts) = map (\<lambda>f. ((f, tr_Event t), t)) (tr_From t) @ table_index ts"
  by (simp_all add: table_index_def)

lemma fst_table_index: "map fst (table_index ts) = concat (map keys_of ts)"
  by (induction ts) auto

lemma build_transitions_ok:
  "build_transitions S T i ts ([], idx) = ([], idx') \<longleftrightarrow>
     (\<forall>t \<in> set ts. ok_transition S T t) \<and> distinct (concat (map keys_of ts)) \<and>
     set (concat (map keys_of ts)) \<inter> fst ` set idx = {} \<and>
     idx' = rev (table_index ts) @ idx"
proof (induction ts arbitrary: i idx)
  case Nil
  then show ?case by auto
next
  case (Cons t ts)
  have k: "fst ` set (rev (map (\<lambda>f. ((f, tr_Event t), t)) (tr_From t)) @ idx)
      = set (keys_of t) \<union> fst ` set idx"
    by (simp add: image_Un image_image)
  have d: "distinct (keys_of t) \<longleftrightarrow> distinct (tr_From t)"
    by (simp add: distinct_map inj_on_def)
  have q: "(\<forall>f \<in> set (tr_From t). (f, tr_Event t) \<notin> fst ` set idx)
      \<longleftrightarrow> set (keys_of t) \<inter> fst ` set idx = {}"
    by auto
  show ?case
    unfolding build_transitions_step Cons k q d [symmetric]
    by (simp only: list.map concat.simps distinct_append set_append list.set table_index_simps
        rev_append append_assoc) blast
qed

lemma reach_problems_Nil:
  "reach_problems def = [] \<longleftrightarrow>
     (\<forall>s \<in> set (def_States def).
        (s = def_Initial def \<or> (\<exists>t \<in> set (def_Transitions def). tr_To t = s)) \<and>
        (s \<in> set (def_Terminal def) \<or> (\<exists>t \<in> set (def_Transitions def). s \<in> set (tr_From t))))"
  by (auto simp: reach_problems_def)

definition machine_of :: "'a Definition \<Rightarrow> 'a Machine" where
  "machine_of def =
     \<lparr>m_name = def_Name def, m_initial = def_Initial def, m_transitions = def_Transitions def,
      m_index = rev (table_index (def_Transitions def)), m_states = def_States def,
      m_terminal = def_Terminal def\<rparr>"

lemma find_undeclared_None:
  "find (\<lambda>s. s \<notin> A) xs = None \<longleftrightarrow> set xs \<subseteq> A"
  by (auto simp: find_None_iff)

lemma Build_split:
  "Build def = Inr m \<longleftrightarrow>
     def_Name def \<noteq> '''' \<and> def_Initial def \<noteq> '''' \<and>
     set (def_Terminal def) \<subseteq> set (def_States def) \<and> def_Initial def \<in> set (def_States def) \<and>
     build_transitions (def_States def) (def_Terminal def) 0 (def_Transitions def) ([], [])
       = ([], m_index m) \<and>
     reach_problems def = [] \<and> m = (machine_of def)\<lparr>m_index := m_index m\<rparr>"
proof -
  obtain ps idx where b: "build_transitions (def_States def) (def_Terminal def) 0
      (def_Transitions def) ([], []) = (ps, idx)"
    by fastforce
  show ?thesis
    unfolding Build_def b
    by (cases "find (\<lambda>s. s \<notin> set (def_States def)) (def_Terminal def)")
       (auto simp: checkR_Inr machine_of_def find_undeclared_None [symmetric])
qed

lemma Build_iff: "Build def = Inr m \<longleftrightarrow> wf_table def \<and> m = machine_of def"
proof -
  have t: "(\<forall>t \<in> set (def_Transitions def). ok_transition (def_States def) (def_Terminal def) t)
    \<longleftrightarrow> (\<forall>t \<in> set (def_Transitions def).
        tr_Event t \<noteq> '''' \<and> tr_To t \<in> set (def_States def) \<and> tr_From t \<noteq> [] \<and>
        tr_AuditAction t \<noteq> '''' \<and>
        set (tr_From t) \<subseteq> set (def_States def) - set (def_Terminal def))"
    by (simp add: ok_transition_def)
  have m: "m_index m = rev (table_index (def_Transitions def)) \<and>
      m = (machine_of def)\<lparr>m_index := m_index m\<rparr> \<longleftrightarrow> m = machine_of def"
    by (auto simp: machine_of_def)
  show ?thesis
    unfolding Build_split build_transitions_ok reach_problems_Nil wf_table_def t [symmetric]
    using m by (simp add: fst_table_index) blast
qed

text \<open>C21: \<^verbatim>\<open>fsm.Build\<close> accepts exactly the well-formed transition tables (declared and
  named states, events and audit actions present, no exit from a terminal state, at most one
  transition per state and event, every state but the initial one the target of a transition,
  every state that is not terminal with an exit), and the machine it returns is the table's.\<close>

theorem Build_iff_wf_table: "Build def = Inr m \<longleftrightarrow> wf_table def \<and> m = machine_of def"
  by (rule Build_iff)

section \<open>The interface of a built machine\<close>

text \<open>
  The modules that own a lifecycle build their machine at start-up and fire events on it. What
  they rely on is that the machine was built: the locale states that once, and each module
  interprets it for its own table.
\<close>

inductive fsm_reach :: "'a Machine \<Rightarrow> State \<Rightarrow> bool" for m :: "'a Machine" where
  start: "fsm_reach m (m_initial m)"
| move: "fsm_reach m s \<Longrightarrow> Lookup m s ev = Some t \<Longrightarrow> fsm_reach m (tr_To t)"

lemma distinct_keys_lookup:
  "distinct (concat (map keys_of ts)) \<Longrightarrow>
   map_of (rev (table_index ts)) (f, e) = Some t \<longleftrightarrow> t \<in> set ts \<and> f \<in> set (tr_From t) \<and> tr_Event t = e"
proof -
  assume d: "distinct (concat (map keys_of ts))"
  then have "distinct (map fst (rev (table_index ts)))"
    by (simp add: fst_table_index rev_map [symmetric])
  then have "map_of (rev (table_index ts)) (f, e) = Some t \<longleftrightarrow> ((f, e), t) \<in> set (table_index ts)"
    by (simp add: map_of_eq_Some_iff)
  also have "\<dots> \<longleftrightarrow> t \<in> set ts \<and> f \<in> set (tr_From t) \<and> tr_Event t = e"
    by (auto simp: table_index_def)
  finally show ?thesis .
qed

lemma Fire_Inr_iff:
  "Fire m s e subj chk = (Inr out, subj') \<longleftrightarrow>
     s \<in> set (m_states m) \<and> (\<exists>t. Lookup m s e = Some t \<and>
       check_permission chk (tr_Permission t) = None \<and> run_guards (tr_Guards t) subj = None \<and>
       run_effects (tr_Effects t) subj = (None, subj') \<and>
       out = \<lparr>out_From = s, out_To = tr_To t, out_Event = e, out_EmitEvent = tr_EmitEvent t,
              out_AuditAction = tr_AuditAction t, out_Permission = tr_Permission t\<rparr>)"
  unfolding Fire_def by (auto split: option.splits prod.splits)

lemma run_guards_None: "run_guards gs subj = None \<longleftrightarrow> (\<forall>g \<in> set gs. g subj = None)"
  by (induction gs) (auto split: option.splits)

locale lifecycle =
  fixes def :: "'a Definition" and m :: "'a Machine"
  assumes built: "Build def = Inr m"
begin

lemma wf: "wf_table def" and machine: "m = machine_of def"
  using built by (simp_all add: Build_iff)

lemma states: "m_states m = def_States def" "m_terminal m = def_Terminal def"
  "m_initial m = def_Initial def" "m_transitions m = def_Transitions def"
  by (simp_all add: machine machine_of_def)

lemma lookup_iff:
  "Lookup m f e = Some t \<longleftrightarrow> t \<in> set (def_Transitions def) \<and> f \<in> set (tr_From t) \<and> tr_Event t = e"
  using wf by (simp add: Lookup_def machine machine_of_def wf_table_def distinct_keys_lookup)

lemma lookup_declared:
  assumes "Lookup m f e = Some t"
  shows "f \<in> set (def_States def)" "f \<notin> set (def_Terminal def)" "tr_To t \<in> set (def_States def)"
    "tr_AuditAction t \<noteq> ''''"
  using assms wf by (auto simp: lookup_iff wf_table_def)

lemma terminal_no_lookup: "IsTerminal m s \<Longrightarrow> Lookup m s e = None"
  using lookup_declared(2) by (cases "Lookup m s e") (auto simp: IsTerminal_def states)

lemma terminal_refuses:
  "IsTerminal m s \<Longrightarrow> Fire m s e subj chk =
     (Inl (Precondition ''fsm.Fire'' ''fsm.illegal_transition''), subj)"
  using wf terminal_no_lookup [of s e] by (auto simp: Fire_def states IsTerminal_def wf_table_def)

lemma reach_declared: "fsm_reach m s \<Longrightarrow> s \<in> set (def_States def)"
proof (induction rule: fsm_reach.induct)
  case start
  then show ?case using wf by (simp add: states wf_table_def)
next
  case (move s ev t)
  then show ?case by (simp add: lookup_declared)
qed

lemma fire_ok_iff:
  "Fire m s e subj chk = (Inr out, subj') \<longleftrightarrow>
     (\<exists>t \<in> set (def_Transitions def). s \<in> set (tr_From t) \<and> tr_Event t = e \<and>
        check_permission chk (tr_Permission t) = None \<and>
        (\<forall>g \<in> set (tr_Guards t). g subj = None) \<and>
        run_effects (tr_Effects t) subj = (None, subj') \<and>
        out = \<lparr>out_From = s, out_To = tr_To t, out_Event = e, out_EmitEvent = tr_EmitEvent t,
               out_AuditAction = tr_AuditAction t, out_Permission = tr_Permission t\<rparr>)"
  unfolding Fire_Inr_iff run_guards_None
  using lookup_iff [of s e] lookup_declared(1) [of s e] by (auto simp: states)

end

text \<open>A run of the engine: the events are fired one after the other and the lifecycle state
  follows the outcomes; a refused event leaves it where it was.\<close>

fun fire_all ::
  "'a Machine \<Rightarrow> State \<Rightarrow> 'a \<Rightarrow> (Event \<times> (string \<Rightarrow> go_error option) option) list \<Rightarrow> State" where
  "fire_all m s subj [] = s"
| "fire_all m s subj ((e, chk) # es) =
     (case Fire m s e subj chk of
        (Inr out, subj') \<Rightarrow> fire_all m (out_To out) subj' es
      | (Inl _, subj') \<Rightarrow> fire_all m s subj' es)"

context lifecycle begin

lemma fire_moves:
  assumes "fsm_reach m s" and "Fire m s e subj chk = (Inr out, subj')"
  shows "fsm_reach m (out_To out)"
proof -
  from assms(2) obtain t where "t \<in> set (def_Transitions def)" "s \<in> set (tr_From t)"
    "tr_Event t = e" "out_To out = tr_To t"
    by (auto simp: fire_ok_iff)
  with assms(1) show ?thesis
    using fsm_reach.move [of m s e t] by (simp add: lookup_iff)
qed

lemma fire_all_reach: "fsm_reach m s \<Longrightarrow> fsm_reach m (fire_all m s subj es)"
proof (induction es arbitrary: s subj)
  case (Cons c es)
  obtain e chk where c: "c = (e, chk)" by (cases c)
  show ?case
    using Cons fire_moves [of s e subj chk] unfolding c
    by (cases "Fire m s e subj chk") (auto split: sum.splits)
qed simp

lemma fire_all_terminal: "IsTerminal m s \<Longrightarrow> fire_all m s subj es = s"
  by (induction es arbitrary: subj) (auto simp: terminal_refuses)

end

section \<open>Fire on any machine\<close>

text \<open>An event refused because the state is unknown, the transition is not declared, the
  permission is denied or a guard fails leaves the subject unchanged: \<^verbatim>\<open>Fire\<close> changes the
  subject only after the permission check and every guard of the declared transition passed.\<close>

theorem Fire_mutates_only_after_checks:
  "snd (Fire m s e subj chk) = subj \<or>
    (\<exists>t. Lookup m s e = Some t \<and> s \<in> set (m_states m) \<and>
         check_permission chk (tr_Permission t) = None \<and> run_guards (tr_Guards t) subj = None \<and>
         snd (Fire m s e subj chk) = snd (run_effects (tr_Effects t) subj))"
  by (auto simp: Fire_def split: option.split prod.split)

end
