(* ===== verification/Permissions.thy ===== *)
theory Permissions
  imports Types "HOL-Library.List_Lexorder" "HOL-Library.Char_ord"
begin

unbundle bit_operations_syntax

text \<open>
  \<^verbatim>\<open>internal/platform/authz/permissions.go\<close>: the permission constants, their names
  and the permission bitset. A permission is a 16-bit word, a set is the array of
  \<^verbatim>\<open>setWords\<close> 64-bit words the source keeps, and membership is the source's bit test. The
  locale \<open>perm_set\<close> states what the rest of the authorization code relies on, and the bitset
  is its interpretation.
\<close>

section \<open>Permission constants\<close>

type_synonym Permission = "16 word"

(*src internal/platform/authz/permissions.go:24-24#permInvalid*)
definition permInvalid :: Permission where "permInvalid = 0"
(*src internal/platform/authz/permissions.go:27-27#TenantRead*)
definition TenantRead :: Permission where "TenantRead = 1"
(*src internal/platform/authz/permissions.go:28-28#TenantCreate*)
definition TenantCreate :: Permission where "TenantCreate = 2"
(*src internal/platform/authz/permissions.go:29-29#TenantUpdate*)
definition TenantUpdate :: Permission where "TenantUpdate = 3"
(*src internal/platform/authz/permissions.go:30-30#TenantSuspend*)
definition TenantSuspend :: Permission where "TenantSuspend = 4"
(*src internal/platform/authz/permissions.go:31-31#TenantPurge*)
definition TenantPurge :: Permission where "TenantPurge = 5"
(*src internal/platform/authz/permissions.go:34-34#ProjectCreate*)
definition ProjectCreate :: Permission where "ProjectCreate = 6"
(*src internal/platform/authz/permissions.go:35-35#ProjectRead*)
definition ProjectRead :: Permission where "ProjectRead = 7"
(*src internal/platform/authz/permissions.go:36-36#ProjectUpdate*)
definition ProjectUpdate :: Permission where "ProjectUpdate = 8"
(*src internal/platform/authz/permissions.go:37-37#ProjectArchive*)
definition ProjectArchive :: Permission where "ProjectArchive = 9"
(*src internal/platform/authz/permissions.go:40-40#PrincipalRead*)
definition PrincipalRead :: Permission where "PrincipalRead = 10"
(*src internal/platform/authz/permissions.go:41-41#PrincipalInvite*)
definition PrincipalInvite :: Permission where "PrincipalInvite = 11"
(*src internal/platform/authz/permissions.go:42-42#RoleAssign*)
definition RoleAssign :: Permission where "RoleAssign = 12"
(*src internal/platform/authz/permissions.go:43-43#APIKeyCreate*)
definition APIKeyCreate :: Permission where "APIKeyCreate = 13"
(*src internal/platform/authz/permissions.go:44-44#APIKeyRevoke*)
definition APIKeyRevoke :: Permission where "APIKeyRevoke = 14"
(*src internal/platform/authz/permissions.go:45-45#IdPMappingRead*)
definition IdPMappingRead :: Permission where "IdPMappingRead = 15"
(*src internal/platform/authz/permissions.go:46-46#IdPMappingUpdate*)
definition IdPMappingUpdate :: Permission where "IdPMappingUpdate = 16"
(*src internal/platform/authz/permissions.go:49-49#ArtifactCreate*)
definition ArtifactCreate :: Permission where "ArtifactCreate = 17"
(*src internal/platform/authz/permissions.go:50-50#ArtifactRead*)
definition ArtifactRead :: Permission where "ArtifactRead = 18"
(*src internal/platform/authz/permissions.go:51-51#ArtifactEdit*)
definition ArtifactEdit :: Permission where "ArtifactEdit = 19"
(*src internal/platform/authz/permissions.go:52-52#ArtifactSubmit*)
definition ArtifactSubmit :: Permission where "ArtifactSubmit = 20"
(*src internal/platform/authz/permissions.go:53-53#ArtifactReview*)
definition ArtifactReview :: Permission where "ArtifactReview = 21"
(*src internal/platform/authz/permissions.go:54-54#ArtifactApprove*)
definition ArtifactApprove :: Permission where "ArtifactApprove = 22"
(*src internal/platform/authz/permissions.go:55-55#ArtifactFreeze*)
definition ArtifactFreeze :: Permission where "ArtifactFreeze = 23"
(*src internal/platform/authz/permissions.go:56-56#ArtifactDelete*)
definition ArtifactDelete :: Permission where "ArtifactDelete = 24"
(*src internal/platform/authz/permissions.go:59-59#LinkCreate*)
definition LinkCreate :: Permission where "LinkCreate = 25"
(*src internal/platform/authz/permissions.go:60-60#LinkRead*)
definition LinkRead :: Permission where "LinkRead = 26"
(*src internal/platform/authz/permissions.go:61-61#LinkAccept*)
definition LinkAccept :: Permission where "LinkAccept = 27"
(*src internal/platform/authz/permissions.go:62-62#LinkReject*)
definition LinkReject :: Permission where "LinkReject = 28"
(*src internal/platform/authz/permissions.go:65-65#PRDDiscovery*)
definition PRDDiscovery :: Permission where "PRDDiscovery = 29"
(*src internal/platform/authz/permissions.go:66-66#PRDUpload*)
definition PRDUpload :: Permission where "PRDUpload = 30"
(*src internal/platform/authz/permissions.go:67-67#PRDApprove*)
definition PRDApprove :: Permission where "PRDApprove = 31"
(*src internal/platform/authz/permissions.go:70-70#SpecGenerate*)
definition SpecGenerate :: Permission where "SpecGenerate = 32"
(*src internal/platform/authz/permissions.go:71-71#SpecApprove*)
definition SpecApprove :: Permission where "SpecApprove = 33"
(*src internal/platform/authz/permissions.go:72-72#ModelGenerate*)
definition ModelGenerate :: Permission where "ModelGenerate = 34"
(*src internal/platform/authz/permissions.go:73-73#ModelEdit*)
definition ModelEdit :: Permission where "ModelEdit = 35"
(*src internal/platform/authz/permissions.go:76-76#CodeGenerate*)
definition CodeGenerate :: Permission where "CodeGenerate = 36"
(*src internal/platform/authz/permissions.go:77-77#CodeRead*)
definition CodeRead :: Permission where "CodeRead = 37"
(*src internal/platform/authz/permissions.go:78-78#RepoConnect*)
definition RepoConnect :: Permission where "RepoConnect = 38"
(*src internal/platform/authz/permissions.go:79-79#RepoIngest*)
definition RepoIngest :: Permission where "RepoIngest = 39"
(*src internal/platform/authz/permissions.go:82-82#SyncRun*)
definition SyncRun :: Permission where "SyncRun = 40"
(*src internal/platform/authz/permissions.go:83-83#ProposalSubmit*)
definition ProposalSubmit :: Permission where "ProposalSubmit = 41"
(*src internal/platform/authz/permissions.go:84-84#ProposalApprove*)
definition ProposalApprove :: Permission where "ProposalApprove = 42"
(*src internal/platform/authz/permissions.go:87-87#GateEvaluate*)
definition GateEvaluate :: Permission where "GateEvaluate = 43"
(*src internal/platform/authz/permissions.go:88-88#PolicyRead*)
definition PolicyRead :: Permission where "PolicyRead = 44"
(*src internal/platform/authz/permissions.go:89-89#PolicyUpdate*)
definition PolicyUpdate :: Permission where "PolicyUpdate = 45"
(*src internal/platform/authz/permissions.go:90-90#ExceptionRequest*)
definition ExceptionRequest :: Permission where "ExceptionRequest = 46"
(*src internal/platform/authz/permissions.go:91-91#ExceptionGrant*)
definition ExceptionGrant :: Permission where "ExceptionGrant = 47"
(*src internal/platform/authz/permissions.go:92-92#DispositionRecord*)
definition DispositionRecord :: Permission where "DispositionRecord = 48"
(*src internal/platform/authz/permissions.go:93-93#DesignAuthorityDecide*)
definition DesignAuthorityDecide :: Permission where "DesignAuthorityDecide = 49"
(*src internal/platform/authz/permissions.go:96-96#PipelineRead*)
definition PipelineRead :: Permission where "PipelineRead = 50"
(*src internal/platform/authz/permissions.go:97-97#PipelineTrigger*)
definition PipelineTrigger :: Permission where "PipelineTrigger = 51"
(*src internal/platform/authz/permissions.go:98-98#PipelineApprove*)
definition PipelineApprove :: Permission where "PipelineApprove = 52"
(*src internal/platform/authz/permissions.go:99-99#DeploymentRead*)
definition DeploymentRead :: Permission where "DeploymentRead = 53"
(*src internal/platform/authz/permissions.go:100-100#DeploymentApprove*)
definition DeploymentApprove :: Permission where "DeploymentApprove = 54"
(*src internal/platform/authz/permissions.go:101-101#DeploymentRollback*)
definition DeploymentRollback :: Permission where "DeploymentRollback = 55"
(*src internal/platform/authz/permissions.go:104-104#RuntimeRead*)
definition RuntimeRead :: Permission where "RuntimeRead = 56"
(*src internal/platform/authz/permissions.go:105-105#IncidentAck*)
definition IncidentAck :: Permission where "IncidentAck = 57"
(*src internal/platform/authz/permissions.go:106-106#IncidentManage*)
definition IncidentManage :: Permission where "IncidentManage = 58"
(*src internal/platform/authz/permissions.go:107-107#EscalationManage*)
definition EscalationManage :: Permission where "EscalationManage = 59"
(*src internal/platform/authz/permissions.go:110-110#ScanRun*)
definition ScanRun :: Permission where "ScanRun = 60"
(*src internal/platform/authz/permissions.go:111-111#FindingRead*)
definition FindingRead :: Permission where "FindingRead = 61"
(*src internal/platform/authz/permissions.go:112-112#FindingSuppress*)
definition FindingSuppress :: Permission where "FindingSuppress = 62"
(*src internal/platform/authz/permissions.go:115-115#AIInvoke*)
definition AIInvoke :: Permission where "AIInvoke = 63"
(*src internal/platform/authz/permissions.go:116-116#AIConfig*)
definition AIConfig :: Permission where "AIConfig = 64"
(*src internal/platform/authz/permissions.go:117-117#PromptRead*)
definition PromptRead :: Permission where "PromptRead = 65"
(*src internal/platform/authz/permissions.go:118-118#PromptPublish*)
definition PromptPublish :: Permission where "PromptPublish = 66"
(*src internal/platform/authz/permissions.go:119-119#GuardrailConfig*)
definition GuardrailConfig :: Permission where "GuardrailConfig = 67"
(*src internal/platform/authz/permissions.go:122-122#AuditRead*)
definition AuditRead :: Permission where "AuditRead = 68"
(*src internal/platform/authz/permissions.go:123-123#AuditExport*)
definition AuditExport :: Permission where "AuditExport = 69"
(*src internal/platform/authz/permissions.go:125-125#permMax*)
definition permMax :: Permission where "permMax = 70"

lemmas permission_defs =
  permInvalid_def TenantRead_def TenantCreate_def TenantUpdate_def TenantSuspend_def
  TenantPurge_def ProjectCreate_def ProjectRead_def ProjectUpdate_def ProjectArchive_def
  PrincipalRead_def PrincipalInvite_def RoleAssign_def APIKeyCreate_def APIKeyRevoke_def
  IdPMappingRead_def IdPMappingUpdate_def ArtifactCreate_def ArtifactRead_def ArtifactEdit_def
  ArtifactSubmit_def ArtifactReview_def ArtifactApprove_def ArtifactFreeze_def ArtifactDelete_def
  LinkCreate_def LinkRead_def LinkAccept_def LinkReject_def PRDDiscovery_def
  PRDUpload_def PRDApprove_def SpecGenerate_def SpecApprove_def ModelGenerate_def
  ModelEdit_def CodeGenerate_def CodeRead_def RepoConnect_def RepoIngest_def
  SyncRun_def ProposalSubmit_def ProposalApprove_def GateEvaluate_def PolicyRead_def
  PolicyUpdate_def ExceptionRequest_def ExceptionGrant_def DispositionRecord_def DesignAuthorityDecide_def
  PipelineRead_def PipelineTrigger_def PipelineApprove_def DeploymentRead_def DeploymentApprove_def
  DeploymentRollback_def RuntimeRead_def IncidentAck_def IncidentManage_def EscalationManage_def
  ScanRun_def FindingRead_def FindingSuppress_def AIInvoke_def AIConfig_def
  PromptRead_def PromptPublish_def GuardrailConfig_def AuditRead_def AuditExport_def
  permMax_def

(*src internal/platform/authz/permissions.go:128-198#permissionNames*)
definition permissionNames :: "(Permission \<times> string) list" where
  "permissionNames =
    [(TenantRead, ''tenant:read''),
     (TenantCreate, ''tenant:create''),
     (TenantUpdate, ''tenant:update''),
     (TenantSuspend, ''tenant:suspend''),
     (TenantPurge, ''tenant:purge''),
     (ProjectCreate, ''project:create''),
     (ProjectRead, ''project:read''),
     (ProjectUpdate, ''project:update''),
     (ProjectArchive, ''project:archive''),
     (PrincipalRead, ''principal:read''),
     (PrincipalInvite, ''principal:invite''),
     (RoleAssign, ''role:assign''),
     (APIKeyCreate, ''apikey:create''),
     (APIKeyRevoke, ''apikey:revoke''),
     (IdPMappingRead, ''idpmapping:read''),
     (IdPMappingUpdate, ''idpmapping:update''),
     (ArtifactCreate, ''artifact:create''),
     (ArtifactRead, ''artifact:read''),
     (ArtifactEdit, ''artifact:edit''),
     (ArtifactSubmit, ''artifact:submit''),
     (ArtifactReview, ''artifact:review''),
     (ArtifactApprove, ''artifact:approve''),
     (ArtifactFreeze, ''artifact:freeze''),
     (ArtifactDelete, ''artifact:delete''),
     (LinkCreate, ''link:create''),
     (LinkRead, ''link:read''),
     (LinkAccept, ''link:accept''),
     (LinkReject, ''link:reject''),
     (PRDDiscovery, ''prd:discovery''),
     (PRDUpload, ''prd:upload''),
     (PRDApprove, ''prd:approve''),
     (SpecGenerate, ''spec:generate''),
     (SpecApprove, ''spec:approve''),
     (ModelGenerate, ''model:generate''),
     (ModelEdit, ''model:edit''),
     (CodeGenerate, ''code:generate''),
     (CodeRead, ''code:read''),
     (RepoConnect, ''repo:connect''),
     (RepoIngest, ''repo:ingest''),
     (SyncRun, ''sync:run''),
     (ProposalSubmit, ''proposal:submit''),
     (ProposalApprove, ''proposal:approve''),
     (GateEvaluate, ''gate:evaluate''),
     (PolicyRead, ''policy:read''),
     (PolicyUpdate, ''policy:update''),
     (ExceptionRequest, ''exception:request''),
     (ExceptionGrant, ''exception:grant''),
     (DispositionRecord, ''disposition:record''),
     (DesignAuthorityDecide, ''designauthority:decide''),
     (PipelineRead, ''pipeline:read''),
     (PipelineTrigger, ''pipeline:trigger''),
     (PipelineApprove, ''pipeline:approve''),
     (DeploymentRead, ''deployment:read''),
     (DeploymentApprove, ''deployment:approve''),
     (DeploymentRollback, ''deployment:rollback''),
     (RuntimeRead, ''runtime:read''),
     (IncidentAck, ''incident:ack''),
     (IncidentManage, ''incident:manage''),
     (EscalationManage, ''escalation:manage''),
     (ScanRun, ''scan:run''),
     (FindingRead, ''finding:read''),
     (FindingSuppress, ''finding:suppress''),
     (AIInvoke, ''ai:invoke''),
     (AIConfig, ''ai:config''),
     (PromptRead, ''prompt:read''),
     (PromptPublish, ''prompt:publish''),
     (GuardrailConfig, ''guardrail:config''),
     (AuditRead, ''audit:read''),
     (AuditExport, ''audit:export'')]"

section \<open>The bitset\<close>

(*src internal/platform/authz/permissions.go#setWords*)
definition setWords :: nat where "setWords = (unat permMax + 63) div 64"

(*src internal/platform/authz/permissions.go#Set*)
record Set = bits :: "64 word list"

definition zeroSet :: Set where "zeroSet = \<lparr>bits = replicate setWords 0\<rparr>"

text \<open>The guard \<^verbatim>\<open>p == permInvalid || p >= permMax\<close> of \<^verbatim>\<open>add\<close> and \<^verbatim>\<open>Has\<close>, negated.\<close>

definition known :: "Permission \<Rightarrow> bool" where
  "known p \<longleftrightarrow> \<not> (p = permInvalid \<or> p \<ge> permMax)"

(*src internal/platform/authz/permissions.go#Set.add*)
definition add :: "Set \<Rightarrow> Permission \<Rightarrow> Set" where
  "add s p = (if \<not> known p then s
     else let i = unat p div 64
          in s\<lparr>bits := (bits s)[i := bits s ! i OR push_bit (unat p mod 64) 1]\<rparr>)"

(*src internal/platform/authz/permissions.go#Set.Has*)
definition Has :: "Set \<Rightarrow> Permission \<Rightarrow> bool" where
  "Has s p = (if \<not> known p then False
     else (bits s ! (unat p div 64)) AND push_bit (unat p mod 64) 1 \<noteq> 0)"

(*src internal/platform/authz/permissions.go#NewSet*)
definition NewSet :: "Permission list \<Rightarrow> Set" where "NewSet perms = foldl add zeroSet perms"

(*src internal/platform/authz/permissions.go#Set.HasAll*)
definition HasAll :: "Set \<Rightarrow> Permission list \<Rightarrow> bool" where "HasAll s ps = list_all (Has s) ps"

(*src internal/platform/authz/permissions.go#Set.HasAny*)
definition HasAny :: "Set \<Rightarrow> Permission list \<Rightarrow> bool" where "HasAny s ps = list_ex (Has s) ps"

(*src internal/platform/authz/permissions.go#Set.Union*)
definition Union :: "Set \<Rightarrow> Set \<Rightarrow> Set" where
  "Union s other = \<lparr>bits = map2 (OR) (bits s) (bits other)\<rparr>"

(*src internal/platform/authz/permissions.go#Set.Intersect*)
definition Intersect :: "Set \<Rightarrow> Set \<Rightarrow> Set" where
  "Intersect s other = \<lparr>bits = map2 (AND) (bits s) (bits other)\<rparr>"

(*src internal/platform/authz/permissions.go#Set.Without*)
definition Without :: "Set \<Rightarrow> Set \<Rightarrow> Set" where
  "Without s other = \<lparr>bits = map2 (\<lambda>a b. a AND NOT b) (bits s) (bits other)\<rparr>"

(*src internal/platform/authz/permissions.go#Set.Empty*)
definition Set_Empty :: "Set \<Rightarrow> bool" where "Set_Empty s = list_all (\<lambda>w. w = 0) (bits s)"

section \<open>Names\<close>

(*src internal/platform/authz/permissions.go#Permission.String*)
definition Permission_String :: "Permission \<Rightarrow> string" where
  "Permission_String p = (case map_of permissionNames p of
       Some n \<Rightarrow> n | None \<Rightarrow> ''permission('' @ Itoa (uint p) @ '')'')"

text \<open>The map of names is inverted once, so a name is looked up in the inverted list.\<close>

(*src internal/platform/authz/permissions.go#permissionByName*)
definition permissionByName :: "(string \<times> Permission) list" where
  "permissionByName = map (\<lambda>(p, n). (n, p)) permissionNames"

(*src internal/platform/authz/permissions.go#ParsePermission*)
definition ParsePermission :: "string \<Rightarrow> Permission result" where
  "ParsePermission s = (case map_of permissionByName (TrimSpace s) of
       None \<Rightarrow> Inl (PlainError ''unknown permission'') | Some p \<Rightarrow> Inr p)"

(*src internal/platform/authz/permissions.go#AllPermissions*)
definition AllPermissions :: "string list" where "AllPermissions = sort (map snd permissionNames)"

definition all_permissions :: "Permission list" where
  "all_permissions = map word_of_nat [1 ..< unat permMax]"

(*src internal/platform/authz/permissions.go#Set.Names*)
definition Names :: "Set \<Rightarrow> string list" where
  "Names s = sort (map Permission_String (filter (Has s) all_permissions))"

(*src internal/platform/authz/permissions.go:348-355#FromNames*)
fun from_names :: "string list \<Rightarrow> Set \<times> string list \<Rightarrow> Set \<times> string list" where
  "from_names [] acc = acc"
| "from_names (n # ns) (s, unknown) =
     (case ParsePermission n of
        Inl _ \<Rightarrow> from_names ns (s, unknown @ [n])
      | Inr p \<Rightarrow> from_names ns (add s p, unknown))"

(*src internal/platform/authz/permissions.go#FromNames*)
definition FromNames :: "string list \<Rightarrow> Set result" where
  "FromNames names = (let (s, unknown) = from_names names (zeroSet, []) in
     checkR (unknown \<noteq> []) (PlainError ''unknown permissions'') (Inr s))"

section \<open>Sensitive actions\<close>

(*src internal/platform/authz/permissions.go#approvalPermissions*)
definition approvalList :: "Permission list" where
  "approvalList =
     [ArtifactApprove, PRDApprove, SpecApprove, ProposalApprove,
      ExceptionGrant, DesignAuthorityDecide, DeploymentApprove,
      PipelineApprove, FindingSuppress, PolicyUpdate, TenantPurge,
      APIKeyCreate, RoleAssign, PromptPublish, GuardrailConfig]"

(*src internal/platform/authz/permissions.go#approvalPermissions*)
definition approvalPermissions :: Set where "approvalPermissions = NewSet approvalList"

(*src internal/platform/authz/permissions.go#IsApprovalPermission*)
definition IsApprovalPermission :: "Permission \<Rightarrow> bool" where
  "IsApprovalPermission p = Has approvalPermissions p"

(*src internal/platform/authz/permissions.go#ApprovalPermissionNames*)
definition ApprovalPermissionNames :: "string list" where
  "ApprovalPermissionNames = Names approvalPermissions"

(*src internal/platform/authz/permissions.go#RequiresStepUp*)
definition RequiresStepUp :: "Permission \<Rightarrow> bool" where
  "RequiresStepUp p = Has approvalPermissions p"

section \<open>The contract of a permission set\<close>

text \<open>
  What the role tables and the evaluator rely on: membership after each set operation. The
  representation only appears through an invariant the operations keep.
\<close>

locale perm_set =
  fixes invar :: "'s \<Rightarrow> bool"
    and empty_set :: 's
    and has :: "'s \<Rightarrow> 'p \<Rightarrow> bool"
    and ins :: "'s \<Rightarrow> 'p \<Rightarrow> 's"
    and uni :: "'s \<Rightarrow> 's \<Rightarrow> 's"
    and without :: "'s \<Rightarrow> 's \<Rightarrow> 's"
    and valid :: "'p \<Rightarrow> bool"
  assumes invar_empty: "invar empty_set"
    and invar_ins: "invar s \<Longrightarrow> invar (ins s p)"
    and invar_uni: "invar s \<Longrightarrow> invar t \<Longrightarrow> invar (uni s t)"
    and invar_without: "invar s \<Longrightarrow> invar t \<Longrightarrow> invar (without s t)"
    and has_valid: "has s p \<Longrightarrow> valid p"
    and has_empty: "\<not> has empty_set p"
    and has_ins: "invar s \<Longrightarrow> has (ins s p) q \<longleftrightarrow> has s q \<or> (q = p \<and> valid p)"
    and has_uni: "invar s \<Longrightarrow> invar t \<Longrightarrow> has (uni s t) p \<longleftrightarrow> has s p \<or> has t p"
    and has_without: "invar s \<Longrightarrow> invar t \<Longrightarrow> has (without s t) p \<longleftrightarrow> has s p \<and> \<not> has t p"
begin

lemma invar_foldl_ins: "invar s \<Longrightarrow> invar (foldl ins s ps)"
  by (induction ps arbitrary: s) (auto simp: invar_ins)

lemma has_foldl_ins:
  "invar s \<Longrightarrow> has (foldl ins s ps) q \<longleftrightarrow> has s q \<or> (q \<in> set ps \<and> valid q)"
  by (induction ps arbitrary: s) (auto simp: has_ins invar_ins)

lemma invar_foldl_uni: "invar s \<Longrightarrow> \<forall>t \<in> set ts. invar t \<Longrightarrow> invar (foldl uni s ts)"
  by (induction ts arbitrary: s) (auto simp: invar_uni)

lemma has_foldl_uni:
  "invar s \<Longrightarrow> \<forall>t \<in> set ts. invar t \<Longrightarrow>
   has (foldl uni s ts) q \<longleftrightarrow> has s q \<or> (\<exists>t \<in> set ts. has t q)"
  by (induction ts arbitrary: s) (auto simp: has_uni invar_uni)

end

text \<open>The bitset: an array of the right length whose stray bits are clear.\<close>

definition wf_set :: "Set \<Rightarrow> bool" where "wf_set s \<longleftrightarrow> length (bits s) = setWords"

lemma setWords_val [simp]: "setWords = 2"
  by (simp add: setWords_def permMax_def)

lemma known_unat: "known p \<longleftrightarrow> 0 < unat p \<and> unat p < 70"
  by (auto simp: known_def permInvalid_def permMax_def word_le_nat_alt unat_gt_0 not_le)

lemma known_index: "known p \<Longrightarrow> unat p div 64 < 2"
  by (simp add: known_unat div_less_iff_less_mult)

lemma Has_bit: "Has s p \<longleftrightarrow> known p \<and> bit (bits s ! (unat p div 64)) (unat p mod 64)"
  by (simp add: Has_def bit_iff_and_push_bit_not_eq_0)

lemma perm_eq_iff: "p = q \<longleftrightarrow> unat p div 64 = unat q div 64 \<and> unat p mod 64 = unat q mod 64"
  by (metis div_mult_mod_eq word_unat_eq_iff)

lemma Has_add: "wf_set s \<Longrightarrow> Has (add s p) q \<longleftrightarrow> Has s q \<or> (q = p \<and> known p)"
proof (cases "known p \<and> known q")
  case True
  assume wf: "wf_set s"
  have idx: "unat p div 64 < length (bits s)" "unat q div 64 < length (bits s)"
    using True wf by (auto simp: known_index wf_set_def)
  have b: "bit (push_bit (unat p mod 64) 1 :: 64 word) (unat q mod 64) \<longleftrightarrow> unat q mod 64 = unat p mod 64"
    by (auto simp: push_bit_eq_mult bit_exp_iff)
  show ?thesis
    using True idx b by (auto simp: Has_bit add_def Let_def nth_list_update bit_or_iff perm_eq_iff)
qed (auto simp: Has_bit add_def Let_def)

lemma Has_zero: "\<not> Has zeroSet p"
  by (auto simp: Has_bit zeroSet_def known_index)

lemma Has_map2:
  assumes "wf_set s" "wf_set t"
    and f: "\<And>a b n. n < 64 \<Longrightarrow> bit (f a b :: 64 word) n \<longleftrightarrow> F (bit a n) (bit b n)"
  shows "Has \<lparr>bits = map2 f (bits s) (bits t)\<rparr> p \<longleftrightarrow>
    known p \<and> F (bit (bits s ! (unat p div 64)) (unat p mod 64)) (bit (bits t ! (unat p div 64)) (unat p mod 64))"
  using assms by (auto simp: Has_bit wf_set_def known_index)

interpretation pset: perm_set wf_set zeroSet Has add Union Without known
proof
  fix s t :: Set and p q :: Permission
  show "wf_set zeroSet" by (simp add: wf_set_def zeroSet_def)
  show "wf_set s \<Longrightarrow> wf_set (add s p)" by (simp add: wf_set_def add_def Let_def)
  show "Has s p \<Longrightarrow> known p" by (simp add: Has_bit)
  show "\<not> Has zeroSet p" by (rule Has_zero)
  show "wf_set s \<Longrightarrow> Has (add s p) q \<longleftrightarrow> Has s q \<or> (q = p \<and> known p)" by (rule Has_add)
  assume wf: "wf_set s" "wf_set t"
  show "wf_set (Union s t)" "wf_set (Without s t)"
    using wf by (simp_all add: wf_set_def Union_def Without_def)
  show "Has (Union s t) p \<longleftrightarrow> Has s p \<or> Has t p"
    unfolding Union_def
    by (subst Has_map2 [OF wf, where F = "\<lambda>a b. a \<or> b"]) (auto simp: bit_or_iff Has_bit)
  show "Has (Without s t) p \<longleftrightarrow> Has s p \<and> \<not> Has t p"
    unfolding Without_def
    by (subst Has_map2 [OF wf, where F = "\<lambda>a b. a \<and> \<not> b"])
       (auto simp: bit_and_iff bit_not_iff Has_bit)
qed

lemma Has_Intersect: "wf_set s \<Longrightarrow> wf_set t \<Longrightarrow> Has (Intersect s t) p \<longleftrightarrow> Has s p \<and> Has t p"
  unfolding Intersect_def
  by (subst Has_map2 [where F = "\<lambda>a b. a \<and> b"]) (auto simp: bit_and_iff Has_bit)

lemma wf_NewSet [simp]: "wf_set (NewSet ps)"
  by (simp add: NewSet_def pset.invar_foldl_ins pset.invar_empty)

lemma Has_NewSet: "Has (NewSet ps) p \<longleftrightarrow> p \<in> set ps \<and> known p"
  by (simp add: NewSet_def pset.has_foldl_ins pset.invar_empty pset.has_empty)

lemma wf_approval [simp]: "wf_set approvalPermissions"
  by (simp add: approvalPermissions_def)

lemma approval_list_known: "list_all known approvalList"
  by (simp add: approvalList_def known_def permission_defs)

lemma IsApprovalPermission_iff: "IsApprovalPermission p \<longleftrightarrow> p \<in> set approvalList"
  using approval_list_known
  by (auto simp: IsApprovalPermission_def approvalPermissions_def Has_NewSet list_all_iff)

lemma RequiresStepUp_iff: "RequiresStepUp p \<longleftrightarrow> IsApprovalPermission p"
  by (simp add: RequiresStepUp_def IsApprovalPermission_def)

section \<open>Names round trip\<close>

text \<open>The bits outside the permission range are clear.\<close>

definition clean_set :: "Set \<Rightarrow> bool" where
  "clean_set s \<longleftrightarrow> wf_set s \<and>
     (\<forall>i < 2. \<forall>n < 64. bit (bits s ! i) n \<longrightarrow> 0 < 64 * i + n \<and> 64 * i + n < 70)"

lemma unat_small: "k < 70 \<Longrightarrow> unat (word_of_nat k :: Permission) = k"
  by (simp add: unat_of_nat)

lemma clean_bit:
  assumes "clean_set s" "i < 2" "n < 64"
  shows "bit (bits s ! i) n \<longleftrightarrow> 64 * i + n < 70 \<and> Has s (word_of_nat (64 * i + n))"
proof -
  have "0 < 64 * i + n \<and> 64 * i + n < 70" if "bit (bits s ! i) n"
    using assms that by (auto simp: clean_set_def)
  moreover obtain k where k: "64 * i + n = k" by simp
  moreover from k assms(3) have "k div 64 = i" "k mod 64 = n" by auto
  ultimately show ?thesis unfolding k by (auto simp: Has_bit known_unat unat_small)
qed

lemma clean_set_eqI:
  assumes "clean_set s" "clean_set t" "\<And>p. Has s p \<longleftrightarrow> Has t p"
  shows "s = t"
proof -
  have "bits s = bits t"
  proof (rule nth_equalityI)
    show "length (bits s) = length (bits t)"
      using assms(1,2) by (simp add: clean_set_def wf_set_def)
    fix i assume "i < length (bits s)"
    then have i: "i < 2" using assms(1) by (simp add: clean_set_def wf_set_def)
    show "bits s ! i = bits t ! i"
    proof (rule bit_word_eqI)
      fix n assume "n < LENGTH(64)"
      then show "bit (bits s ! i) n = bit (bits t ! i) n"
        using clean_bit [OF assms(1) i] clean_bit [OF assms(2) i] assms(3) by simp
    qed
  qed
  then show ?thesis by simp
qed

lemma clean_zero: "clean_set zeroSet"
  by (auto simp: clean_set_def wf_set_def zeroSet_def less_2_cases_iff)

lemma clean_add: "clean_set s \<Longrightarrow> clean_set (add s p)"
proof (cases "known p")
  case True
  assume c: "clean_set s"
  have wf: "wf_set (add s p)" using c by (simp add: clean_set_def pset.invar_ins)
  show ?thesis unfolding clean_set_def
  proof (intro conjI allI impI wf)
    fix i n :: nat
    assume i: "i < 2" and n: "n < 64" and b: "bit (bits (add s p) ! i) n"
    have "bit (bits s ! i) n \<or> (i = unat p div 64 \<and> n = unat p mod 64)"
      using b i n c True
      by (cases "i = unat p div 64") (auto simp: add_def Let_def clean_set_def wf_set_def
          bit_or_iff push_bit_eq_mult bit_exp_iff)
    then have "bit (bits s ! i) n \<or> 64 * i + n = unat p" by auto
    then show "0 < 64 * i + n" "64 * i + n < 70"
      using c i n True unfolding clean_set_def known_unat by metis+
  qed
qed (simp add: add_def)

lemma clean_foldl_add: "clean_set s \<Longrightarrow> clean_set (foldl add s ps)"
  by (induction ps arbitrary: s) (auto simp: clean_add)

lemma permission_names_keys: "set (map fst permissionNames) = {p. known p}"
proof -
  have "map fst permissionNames = all_permissions" by code_simp
  moreover have "set all_permissions = {p. known p}"
  proof -
    have "p \<in> set all_permissions \<longleftrightarrow> known p" for p
    proof
      assume "p \<in> set all_permissions"
      then obtain k where "p = word_of_nat k" "1 \<le> k" "k < 70"
        by (auto simp: all_permissions_def permMax_def)
      then show "known p" by (simp add: known_unat unat_small)
    next
      assume "known p"
      then have "p = word_of_nat (unat p)" "1 \<le> unat p" "unat p < 70" by (auto simp: known_unat)
      then show "p \<in> set all_permissions"
        unfolding all_permissions_def permMax_def by (auto intro!: image_eqI [of _ _ "unat p"])
    qed
    then show ?thesis by blast
  qed
  ultimately show ?thesis by simp
qed

lemma set_all_permissions: "set all_permissions = {p. known p}"
proof -
  have "map fst permissionNames = all_permissions" by code_simp
  then show ?thesis using permission_names_keys by simp
qed

lemma permission_names_distinct:
  "distinct (map fst permissionNames)" "distinct (map snd permissionNames)"
  by code_simp+

lemma permission_names_trimmed: "list_all (\<lambda>(p, n). TrimSpace n = n) permissionNames"
proof -
  have "list_all (\<lambda>(p, n). n \<noteq> [] \<and> graphic (hd n) \<and> graphic (last n)) permissionNames"
    by code_simp
  then show ?thesis by (auto simp: list_all_iff intro!: TrimSpace_id)
qed

lemma Parse_String: "known p \<Longrightarrow> ParsePermission (Permission_String p) = Inr p"
proof -
  assume "known p"
  then have "p \<in> fst ` set permissionNames" using permission_names_keys by simp
  then obtain n where n: "(p, n) \<in> set permissionNames" by auto
  then have s: "Permission_String p = n"
    using permission_names_distinct(1) by (simp add: Permission_String_def)
  have t: "TrimSpace n = n"
    using n permission_names_trimmed by (auto simp: list_all_iff)
  have "map fst permissionByName = map snd permissionNames"
    by (simp add: permissionByName_def comp_def case_prod_beta)
  then have "distinct (map fst permissionByName)" by (simp only: permission_names_distinct(2))
  moreover have "(n, p) \<in> set permissionByName" using n by (force simp: permissionByName_def)
  ultimately have "map_of permissionByName n = Some p" by simp
  with s t show ?thesis by (simp add: ParsePermission_def)
qed

lemma from_names_strings:
  "list_all (\<lambda>n. \<exists>p. ParsePermission n = Inr p) ns \<Longrightarrow>
   from_names ns (s, u) = (foldl add s (map (\<lambda>n. projr (ParsePermission n)) ns), u)"
  by (induction ns arbitrary: s) auto

text \<open>Rendering a permission set as names and reading the names back gives the same set:
  \<^verbatim>\<open>FromNames(s.Names())\<close> is \<open>s\<close>, without an error, for every set with no stray bits.\<close>

theorem FromNames_Names: "clean_set s \<Longrightarrow> FromNames (Names s) = Inr s"
proof -
  assume c: "clean_set s"
  let ?ps = "filter (Has s) all_permissions"
  have mem: "n \<in> set (Names s) \<Longrightarrow> \<exists>p. known p \<and> Has s p \<and> n = Permission_String p" for n
    using set_all_permissions by (auto simp: Names_def)
  have parse: "n \<in> set (Names s) \<Longrightarrow> \<exists>p. ParsePermission n = Inr p" for n
    using mem [of n] Parse_String by auto
  let ?qs = "map (\<lambda>n. projr (ParsePermission n)) (Names s)"
  have qs: "set ?qs = {p. Has s p}"
  proof
    show "set ?qs \<subseteq> {p. Has s p}" using mem Parse_String by fastforce
    show "{p. Has s p} \<subseteq> set ?qs"
    proof clarify
      fix p assume h: "Has s p"
      then have k: "known p" by (rule pset.has_valid)
      with h have "Permission_String p \<in> set (Names s)"
        using set_all_permissions by (auto simp: Names_def)
      then show "p \<in> set ?qs" using Parse_String [OF k] by (force simp: image_iff)
    qed
  qed
  have "foldl add zeroSet ?qs = s"
  proof (rule clean_set_eqI)
    show "clean_set (foldl add zeroSet ?qs)" by (rule clean_foldl_add [OF clean_zero])
    show "clean_set s" by (rule c)
    fix p show "Has (foldl add zeroSet ?qs) p = Has s p"
      using qs pset.has_valid [of s p]
      by (auto simp: pset.has_foldl_ins pset.invar_empty pset.has_empty)
  qed
  then show ?thesis
    using parse by (simp add: FromNames_def from_names_strings list_all_iff)
qed

theorem FromNames_Names_witness:
  "FromNames (Names (NewSet [ArtifactRead, AuditExport])) = Inr (NewSet [ArtifactRead, AuditExport])"
  using FromNames_Names [of "NewSet [ArtifactRead, AuditExport]"]
    clean_foldl_add [OF clean_zero, of "[ArtifactRead, AuditExport]"]
  by (simp add: NewSet_def)

end
