(* ===== verification/Roles.thy ===== *)
theory Roles
  imports Permissions
begin

text \<open>
  \<^verbatim>\<open>internal/platform/authz/roles.go\<close>: the role matrix, the permission set of each role
  and the resolution of grants in a project scope.
\<close>

type_synonym Role = string

(*src internal/platform/authz/roles.go:13-13#RolePlatformAdmin*)
definition RolePlatformAdmin :: Role where "RolePlatformAdmin = ''platform_admin''"
(*src internal/platform/authz/roles.go:14-14#RoleTenantAdmin*)
definition RoleTenantAdmin :: Role where "RoleTenantAdmin = ''tenant_admin''"
(*src internal/platform/authz/roles.go:15-15#RoleProductOwner*)
definition RoleProductOwner :: Role where "RoleProductOwner = ''product_owner''"
(*src internal/platform/authz/roles.go:16-16#RoleBusinessAnalyst*)
definition RoleBusinessAnalyst :: Role where "RoleBusinessAnalyst = ''business_analyst''"
(*src internal/platform/authz/roles.go:17-17#RoleArchitect*)
definition RoleArchitect :: Role where "RoleArchitect = ''architect''"
(*src internal/platform/authz/roles.go:18-18#RoleDeveloper*)
definition RoleDeveloper :: Role where "RoleDeveloper = ''developer''"
(*src internal/platform/authz/roles.go:19-19#RoleQA*)
definition RoleQA :: Role where "RoleQA = ''qa''"
(*src internal/platform/authz/roles.go:20-20#RoleDevOps*)
definition RoleDevOps :: Role where "RoleDevOps = ''devops''"
(*src internal/platform/authz/roles.go:21-21#RoleSecurity*)
definition RoleSecurity :: Role where "RoleSecurity = ''security''"
(*src internal/platform/authz/roles.go:22-22#RoleCompliance*)
definition RoleCompliance :: Role where "RoleCompliance = ''compliance''"
(*src internal/platform/authz/roles.go:23-23#RoleAuditor*)
definition RoleAuditor :: Role where "RoleAuditor = ''auditor''"
(*src internal/platform/authz/roles.go:24-24#RoleViewer*)
definition RoleViewer :: Role where "RoleViewer = ''viewer''"

lemmas role_defs [go_strings] =
  RolePlatformAdmin_def RoleTenantAdmin_def RoleProductOwner_def RoleBusinessAnalyst_def
  RoleArchitect_def RoleDeveloper_def RoleQA_def RoleDevOps_def RoleSecurity_def
  RoleCompliance_def RoleAuditor_def RoleViewer_def

(*src internal/platform/authz/roles.go:28-31#readOnlyBase*)
definition readOnlyBase :: "Permission list" where
  "readOnlyBase =
     [TenantRead, ProjectRead, ArtifactRead, LinkRead,
      PipelineRead, DeploymentRead, RuntimeRead, PolicyRead, PromptRead]"

(*src internal/platform/authz/roles.go:40-121#rolePermissions*)
definition rolePermissions :: "(Role \<times> Permission list) list" where
  "rolePermissions =
    [(RolePlatformAdmin, [TenantRead, TenantCreate, TenantUpdate, TenantSuspend, TenantPurge, PrincipalRead,
        RuntimeRead, PolicyRead, AuditRead]),
     (RoleTenantAdmin, readOnlyBase @ [TenantUpdate, ProjectCreate, ProjectUpdate, ProjectArchive, PrincipalRead,
        PrincipalInvite, RoleAssign, APIKeyCreate, APIKeyRevoke, IdPMappingRead,
        IdPMappingUpdate, RepoConnect, ExceptionRequest, AIConfig, PromptPublish, AuditRead]),
     (RoleProductOwner, readOnlyBase @ [ProjectCreate, ProjectUpdate, ArtifactCreate, ArtifactEdit, ArtifactSubmit,
        ArtifactReview, ArtifactApprove, LinkCreate, LinkAccept, LinkReject, PRDDiscovery,
        PRDUpload, PRDApprove, SpecGenerate, SpecApprove, ProposalApprove, GateEvaluate,
        ExceptionRequest, AIInvoke, FindingRead]),
     (RoleBusinessAnalyst, readOnlyBase @ [ArtifactCreate, ArtifactEdit, ArtifactSubmit, ArtifactReview, LinkCreate, PRDDiscovery,
        PRDUpload, SpecGenerate, ModelGenerate, ModelEdit, ProposalSubmit, GateEvaluate,
        ExceptionRequest, AIInvoke]),
     (RoleArchitect, readOnlyBase @ [ProjectUpdate, ArtifactCreate, ArtifactEdit, ArtifactSubmit, ArtifactReview,
        ArtifactApprove, ArtifactFreeze, LinkCreate, LinkAccept, LinkReject, SpecGenerate,
        SpecApprove, ModelGenerate, ModelEdit, CodeGenerate, CodeRead, RepoConnect, RepoIngest,
        SyncRun, ProposalSubmit, ProposalApprove, GateEvaluate, ExceptionRequest,
        ExceptionGrant, DispositionRecord, DesignAuthorityDecide, DeploymentApprove,
        FindingRead, AIInvoke, PromptPublish, AuditRead]),
     (RoleDeveloper, readOnlyBase @ [ArtifactCreate, ArtifactEdit, ArtifactSubmit, LinkCreate, CodeGenerate, CodeRead,
        RepoConnect, RepoIngest, SyncRun, ProposalSubmit, GateEvaluate, ExceptionRequest,
        PipelineTrigger, FindingRead, AIInvoke, PromptPublish]),
     (RoleQA, readOnlyBase @ [ArtifactCreate, ArtifactEdit, ArtifactSubmit, ArtifactReview, LinkCreate, CodeRead,
        ProposalSubmit, GateEvaluate, ExceptionRequest, ScanRun, FindingRead]),
     (RoleDevOps, readOnlyBase @ [RepoConnect, CodeRead, PipelineTrigger, PipelineApprove, DeploymentApprove,
        DeploymentRollback, IncidentAck, IncidentManage, EscalationManage, GateEvaluate,
        ExceptionRequest, ScanRun, FindingRead]),
     (RoleSecurity, readOnlyBase @ [ArtifactReview, CodeRead, LinkRead, GateEvaluate, ExceptionRequest, ExceptionGrant,
        DispositionRecord, DesignAuthorityDecide, ProposalApprove, DeploymentApprove, ScanRun,
        FindingRead, FindingSuppress, AIConfig, GuardrailConfig, PromptPublish, IncidentAck,
        IncidentManage, AuditRead]),
     (RoleCompliance, readOnlyBase @ [ArtifactReview, GateEvaluate, ExceptionRequest, ExceptionGrant, DispositionRecord,
        DesignAuthorityDecide, ProposalApprove, DeploymentApprove, FindingRead, FindingSuppress,
        AuditRead, AuditExport]),
     (RoleAuditor, readOnlyBase @ [PrincipalRead, CodeRead, FindingRead, AuditRead, AuditExport]),
     (RoleViewer, readOnlyBase @ [])]"

text \<open>A role that is not in the map has the zero set.\<close>

(*src internal/platform/authz/roles.go:124-130#roleSets*)
definition roleSets :: "Role \<Rightarrow> Set" where
  "roleSets r = (case map_of rolePermissions r of Some ps \<Rightarrow> NewSet ps | None \<Rightarrow> zeroSet)"

(*src internal/platform/authz/roles.go#AllRoles*)
definition AllRoles :: "Role list" where "AllRoles = sort (map fst rolePermissions)"

(*src internal/platform/authz/roles.go#Role.Valid*)
definition Role_Valid :: "Role \<Rightarrow> bool" where "Role_Valid r \<longleftrightarrow> map_of rolePermissions r \<noteq> None"

(*src internal/platform/authz/roles.go#ParseRole*)
definition ParseRole :: "string \<Rightarrow> Role result" where
  "ParseRole s = (let r = ToLower (TrimSpace s) in
     checkR (\<not> Role_Valid r) (PlainError ''unknown role'') (Inr r))"

(*src internal/platform/authz/roles.go#Role.PermissionNames*)
definition PermissionNames :: "Role \<Rightarrow> string list" where "PermissionNames r = Names (roleSets r)"

(*src internal/platform/authz/roles.go#SetForRoles*)
definition SetForRoles :: "Role list \<Rightarrow> Set" where
  "SetForRoles roles = foldl (\<lambda>s r. Union s (roleSets r)) zeroSet roles"

(*src internal/platform/authz/roles.go#ServiceAccountSet*)
definition ServiceAccountSet :: "Set \<Rightarrow> Set" where
  "ServiceAccountSet s = Without s approvalPermissions"

(*src internal/platform/authz/roles.go#Grant*)
record Grant =
  gr_Role :: Role
  gr_ProjectID :: string

(*src internal/platform/authz/roles.go:188-193#Resolve*)
fun resolve_from :: "Set \<Rightarrow> Grant list \<Rightarrow> string \<Rightarrow> Set" where
  "resolve_from s [] projectID = s"
| "resolve_from s (g # gs) projectID =
     (if gr_ProjectID g \<noteq> '''' \<and> gr_ProjectID g \<noteq> projectID then resolve_from s gs projectID
      else resolve_from (Union s (roleSets (gr_Role g))) gs projectID)"

(*src internal/platform/authz/roles.go#Resolve*)
definition Resolve :: "Grant list \<Rightarrow> string \<Rightarrow> Set" where
  "Resolve grants projectID = resolve_from zeroSet grants projectID"

section \<open>Properties\<close>

lemma wf_roleSets [simp]: "wf_set (roleSets r)"
  by (simp add: roleSets_def pset.invar_empty split: option.split)

lemma role_lists_known: "list_all (\<lambda>(r, ps). list_all known ps) rolePermissions"
  by (simp add: rolePermissions_def readOnlyBase_def known_unat permission_defs)

text \<open>The permissions of a role, as the table lists them.\<close>

definition role_perms :: "Role \<Rightarrow> Permission list" where
  "role_perms r = (case map_of rolePermissions r of Some ps \<Rightarrow> ps | None \<Rightarrow> [])"

lemma Has_roleSets: "Has (roleSets r) p \<longleftrightarrow> p \<in> set (role_perms r)"
proof (cases "map_of rolePermissions r")
  case None
  then show ?thesis by (simp add: roleSets_def role_perms_def pset.has_empty)
next
  case (Some ps)
  then have "(r, ps) \<in> set rolePermissions" by (rule map_of_SomeD)
  then have "list_all known ps"
    using role_lists_known by (auto simp: list_all_iff)
  with Some show ?thesis
    by (auto simp: roleSets_def role_perms_def Has_NewSet list_all_iff)
qed

lemma resolve_from_has:
  "wf_set s \<Longrightarrow> wf_set (resolve_from s gs pid) \<and>
   (Has (resolve_from s gs pid) p \<longleftrightarrow>
     Has s p \<or> (\<exists>g \<in> set gs. (gr_ProjectID g = '''' \<or> gr_ProjectID g = pid) \<and>
                              p \<in> set (role_perms (gr_Role g))))"
  by (induction gs arbitrary: s) (auto simp: pset.has_uni pset.invar_uni Has_roleSets)

lemma wf_Resolve [simp]: "wf_set (Resolve gs pid)"
  by (simp add: Resolve_def resolve_from_has pset.invar_empty)

lemma Has_Resolve:
  "Has (Resolve gs pid) p \<longleftrightarrow>
     (\<exists>g \<in> set gs. (gr_ProjectID g = '''' \<or> gr_ProjectID g = pid) \<and>
                   p \<in> set (role_perms (gr_Role g)))"
  by (simp add: Resolve_def resolve_from_has pset.invar_empty pset.has_empty)

lemma Has_ServiceAccountSet: "wf_set s \<Longrightarrow> Has (ServiceAccountSet s) p \<longleftrightarrow> Has s p \<and> \<not> IsApprovalPermission p"
  by (simp add: ServiceAccountSet_def pset.has_without IsApprovalPermission_def)

lemma role_perms_valid:
  "p \<in> set (role_perms r) \<longleftrightarrow> Role_Valid r \<and> p \<in> set (the (map_of rolePermissions r))"
  by (cases "map_of rolePermissions r") (simp_all add: role_perms_def Role_Valid_def)

text \<open>C33: The effective permissions \<^verbatim>\<open>Resolve\<close> computes as unions of bitsets are exactly
  those of the roles granted tenant-wide or for the project asked about: a grant for another
  project adds nothing, and no permission appears from elsewhere.\<close>

theorem Resolve_exact:
  "Has (Resolve gs pid) p \<longleftrightarrow>
     (\<exists>g \<in> set gs. (gr_ProjectID g = '''' \<or> gr_ProjectID g = pid) \<and> Role_Valid (gr_Role g) \<and>
                   p \<in> set (the (map_of rolePermissions (gr_Role g))))"
  unfolding Has_Resolve role_perms_valid ..

end
