(* ===== verification/Abac.thy ===== *)
theory Abac
  imports Roles
begin

text \<open>
  \<^verbatim>\<open>internal/platform/authz/abac.go\<close>: principals, resources, the segregation-of-duties
  rules and the evaluator. The clock is an argument of the evaluator. Every rule of the source's
  table has an \<^verbatim>\<open>Applies\<close> function, so the nil test of the loop is not modelled.
\<close>

section \<open>Principals and resources\<close>

type_synonym PrincipalKind = string

(*src internal/platform/authz/abac.go#KindUser*)
definition KindUser :: PrincipalKind where "KindUser = ''USER''"
(*src internal/platform/authz/abac.go#KindServiceAccount*)
definition KindServiceAccount :: PrincipalKind where "KindServiceAccount = ''SERVICE_ACCOUNT''"
(*src internal/platform/authz/abac.go#KindSystem*)
definition KindSystem :: PrincipalKind where "KindSystem = ''SYSTEM''"

lemmas principal_kind_defs [go_strings] = KindUser_def KindServiceAccount_def KindSystem_def

(*src internal/platform/authz/abac.go#Principal*)
record Principal =
  pr_ID :: PrincipalID
  pr_Kind :: PrincipalKind
  pr_TenantID :: TenantID
  pr_Subject :: string
  pr_Issuer :: string
  pr_Display :: string
  pr_Email :: string
  pr_Grants :: "Grant list"
  pr_Permissions :: Set
  pr_AuthTime :: time
  pr_AMR :: "string list"
  pr_BreakGlass :: bool
  pr_OnBehalfOf :: "PrincipalID option"
  pr_DesignAuthority :: bool

(*src internal/platform/authz/abac.go#Principal.HasMFA*)
definition HasMFA :: "Principal \<Rightarrow> bool" where
  "HasMFA p = list_ex (\<lambda>m. ToLower m \<in>
     {''mfa'', ''otp'', ''hwk'', ''swk'', ''sms'', ''tel'', ''face'', ''fpt'', ''iris'', ''pin'', ''user''})
     (pr_AMR p)"

(*src internal/platform/authz/abac.go#Principal.IsMachine*)
definition IsMachine :: "Principal \<Rightarrow> bool" where
  "IsMachine p \<longleftrightarrow> pr_Kind p = KindServiceAccount \<or> pr_Kind p = KindSystem"

text \<open>A value of \<^verbatim>\<open>map[string]any\<close>: the rules only ask whether it is a string.\<close>

datatype attribute = AttrString string | AttrOther

(*src internal/platform/authz/abac.go#Resource*)
record Resource =
  res_Type :: string
  res_ID :: string
  res_TenantID :: TenantID
  res_ProjectID :: string
  res_CreatedBy :: PrincipalID
  res_Contributors :: "PrincipalID list"
  res_RequestedBy :: PrincipalID
  res_ArtifactType :: ArtifactType
  res_Attributes :: "string \<Rightarrow> attribute option"

text \<open>\<^verbatim>\<open>env, _ := res.Attributes[k].(string)\<close>.\<close>

definition attr_string :: "Resource \<Rightarrow> string \<Rightarrow> string" where
  "attr_string res k = (case res_Attributes res k of Some (AttrString s) \<Rightarrow> s | _ \<Rightarrow> '''')"

(*src internal/platform/authz/abac.go#Decision*)
record Decision =
  d_Allowed :: bool
  d_RuleID :: string
  d_Reason :: string
  d_Evaluated :: "(string \<times> string) list"

(*src internal/platform/authz/abac.go#Policy*)
record Policy =
  pol_FourEyes :: bool
  pol_ArchitectCanApprovePRD :: bool
  pol_StepUpMaxAge :: duration
  pol_ProdDeployFourEyes :: bool
  pol_PolicySetVersion :: string

(*src internal/platform/authz/abac.go#DefaultPolicy*)
definition DefaultPolicy :: Policy where
  "DefaultPolicy = \<lparr>pol_FourEyes = True, pol_ArchitectCanApprovePRD = False,
     pol_StepUpMaxAge = 15 * Minute, pol_ProdDeployFourEyes = True,
     pol_PolicySetVersion = ''builtin@v1''\<rparr>"

section \<open>The segregation-of-duties rules\<close>

(*src internal/platform/authz/abac.go#Rule*)
record Rule =
  rule_ID :: string
  rule_Description :: string
  rule_Applies :: "Permission \<Rightarrow> Resource \<Rightarrow> bool"
  rule_Evaluate :: "Principal \<Rightarrow> Resource \<Rightarrow> Policy \<Rightarrow> time \<Rightarrow> string"

(*src internal/platform/authz/abac.go:143-168#sodRules*)
definition sod1 :: Rule where
  "sod1 = \<lparr>
     rule_ID = ''SoD-1'',
     rule_Description = ''The approver of an artifact version must not be its sole author.'',
     rule_Applies = (\<lambda>p res. (p = ArtifactApprove \<or> p = PRDApprove \<or> p = SpecApprove) \<and> res_Type res = ''artifact''),
     rule_Evaluate = (\<lambda>pr res pol _.
       let fourEyes = pol_FourEyes pol \<or> RequiresFourEyes (res_ArtifactType res) in
       if \<not> fourEyes then ''''
       else if res_CreatedBy res = '''' then ''''
       else if res_CreatedBy res \<noteq> pr_ID pr then ''''
       else if list_ex (\<lambda>c. c \<noteq> pr_ID pr) (res_Contributors res) then ''''
       else ''Four-eyes control: you are the sole author of this version and cannot also approve it.'')\<rparr>"

(*src internal/platform/authz/abac.go:169-181#sodRules*)
definition sod2 :: Rule where
  "sod2 = \<lparr>
     rule_ID = ''SoD-2'',
     rule_Description = ''The principal requesting an exception may not grant it.'',
     rule_Applies = (\<lambda>p res. p = ExceptionGrant \<or> p = ProposalApprove \<or> p = FindingSuppress),
     rule_Evaluate = (\<lambda>pr res _ _.
       if res_RequestedBy res \<noteq> '''' \<and> res_RequestedBy res = pr_ID pr
       then ''Segregation of duties: you requested this and cannot also decide it.'' else '''')\<rparr>"

(*src internal/platform/authz/abac.go:182-194#sodRules*)
definition sod3 :: Rule where
  "sod3 = \<lparr>
     rule_ID = ''SoD-3'',
     rule_Description = ''Exception grants and Design Authority decisions require membership of the body.'',
     rule_Applies = (\<lambda>p _. p = ExceptionGrant \<or> p = DesignAuthorityDecide),
     rule_Evaluate = (\<lambda>pr _ _ _.
       if \<not> pr_DesignAuthority pr
       then ''This decision requires membership of the Design Authority for this scope.'' else '''')\<rparr>"

(*src internal/platform/authz/abac.go:195-219#sodRules*)
definition sod4 :: Rule where
  "sod4 = \<lparr>
     rule_ID = ''SoD-4'',
     rule_Description = ''The approver of a production deployment must not be its sole author.'',
     rule_Applies = (\<lambda>p res. p = DeploymentApprove \<and> res_Type res = ''deployment''),
     rule_Evaluate = (\<lambda>pr res pol _.
       let env = attr_string res ''environment'' in
       if \<not> pol_ProdDeployFourEyes pol then ''''
       else if \<not> EqualFold env ''prod'' \<and> \<not> EqualFold env ''production'' then ''''
       else if res_CreatedBy res \<noteq> pr_ID pr then ''''
       else if list_ex (\<lambda>c. c \<noteq> pr_ID pr) (res_Contributors res) then ''''
       else ''Four-eyes control: you authored every change in this release and cannot also approve its deployment.'')\<rparr>"

(*src internal/platform/authz/abac.go:220-232#sodRules*)
definition sod6 :: Rule where
  "sod6 = \<lparr>
     rule_ID = ''SoD-6'',
     rule_Description = ''Service accounts may never hold approval authority.'',
     rule_Applies = (\<lambda>p _. IsApprovalPermission p),
     rule_Evaluate = (\<lambda>pr _ _ _.
       if IsMachine pr \<and> pr_OnBehalfOf pr = None
       then ''Approval authority cannot be exercised by a service account.'' else '''')\<rparr>"

(*src internal/platform/authz/abac.go:233-251#sodRules*)
definition stepUp :: Rule where
  "stepUp = \<lparr>
     rule_ID = ''StepUp'',
     rule_Description = ''Sensitive actions require a recent multi-factor authentication.'',
     rule_Applies = (\<lambda>p _. RequiresStepUp p),
     rule_Evaluate = (\<lambda>pr _ pol now.
       if pr_Kind pr = KindSystem then ''''
       else if pr_AuthTime pr = 0 \<or> Sub now (pr_AuthTime pr) > pol_StepUpMaxAge pol then ''step_up_required''
       else if \<not> HasMFA pr then ''step_up_required''
       else '''')\<rparr>"

(*src internal/platform/authz/abac.go:252-278#sodRules*)
definition prdApprover :: Rule where
  "prdApprover = \<lparr>
     rule_ID = ''PRD-Approver'',
     rule_Description = ''Architects may approve PRDs only when the tenant permits it.'',
     rule_Applies = (\<lambda>p res. (p = PRDApprove \<or> p = ArtifactApprove) \<and>
       res_Type res = ''artifact'' \<and> res_ArtifactType res = ArtifactPRD),
     rule_Evaluate = (\<lambda>pr _ pol _.
       if pol_ArchitectCanApprovePRD pol then ''''
       else let hasPO = list_ex (\<lambda>g. gr_Role g = RoleProductOwner) (pr_Grants pr);
                isArchitect = list_ex (\<lambda>g. gr_Role g = RoleArchitect) (pr_Grants pr)
            in if isArchitect \<and> \<not> hasPO
               then ''This tenant restricts PRD approval to the Product Owner role.'' else '''')\<rparr>"

(*src internal/platform/authz/abac.go:142-279#sodRules*)
definition sodRules :: "Rule list" where
  "sodRules = [sod1, sod2, sod3, sod4, sod6, stepUp, prdApprover]"

section \<open>The evaluator\<close>

(*src internal/platform/authz/abac.go:316-322#Evaluator.Authorize*)
definition effective_permissions :: "Principal \<Rightarrow> Resource \<Rightarrow> Set" where
  "effective_permissions pr res =
     (let perms = (if res_ProjectID res \<noteq> '''' \<and> length (pr_Grants pr) > 0
                   then Resolve (pr_Grants pr) (res_ProjectID res) else pr_Permissions pr)
      in if IsMachine pr \<and> pr_OnBehalfOf pr = None then ServiceAccountSet perms else perms)"

text \<open>The loop over the rules: the first one that applies and gives a reason decides.\<close>

(*src internal/platform/authz/abac.go:336-351#Evaluator.Authorize*)
fun run_rules :: "Rule list \<Rightarrow> Policy \<Rightarrow> time \<Rightarrow> Principal \<Rightarrow> Permission \<Rightarrow> Resource \<Rightarrow> Decision option" where
  "run_rules [] pol now pr perm res = None"
| "run_rules (rule # rules) pol now pr perm res =
     (if \<not> rule_Applies rule perm res then run_rules rules pol now pr perm res
      else let reason = rule_Evaluate rule pr res pol now in
        if reason \<noteq> ''''
        then Some \<lparr>d_Allowed = False, d_RuleID = rule_ID rule, d_Reason = reason,
               d_Evaluated = [(''rule'', rule_ID rule), (''description'', rule_Description rule),
                              (''permission'', Permission_String perm)]\<rparr>
        else run_rules rules pol now pr perm res)"

(*src internal/platform/authz/abac.go#Evaluator.Authorize*)
definition Authorize :: "Policy \<Rightarrow> time \<Rightarrow> Principal \<Rightarrow> Permission \<Rightarrow> Resource \<Rightarrow> Decision" where
  "Authorize pol now pr perm res =
     (if \<not> Empty (res_TenantID res) \<and> pr_TenantID pr \<noteq> res_TenantID res
      then \<lparr>d_Allowed = False, d_RuleID = ''Tenant-Isolation'',
             d_Reason = ''The resource belongs to a different tenant.'',
             d_Evaluated = [(''principal_tenant'', pr_TenantID pr), (''resource_tenant'', res_TenantID res)]\<rparr>
      else if \<not> Has (effective_permissions pr res) perm
      then \<lparr>d_Allowed = False, d_RuleID = ''RBAC'',
             d_Reason = ''The '' @ Permission_String perm @ '' permission is required.'',
             d_Evaluated = [(''required'', Permission_String perm), (''project_id'', res_ProjectID res)]\<rparr>
      else case run_rules sodRules pol now pr perm res of
        Some d \<Rightarrow> d
      | None \<Rightarrow> \<lparr>d_Allowed = True, d_RuleID = ''RBAC+SoD'', d_Reason = ''granted'',
             d_Evaluated = [(''permission'', Permission_String perm), (''project_id'', res_ProjectID res)]\<rparr>)"

(*src internal/platform/authz/abac.go#denialCode*)
definition denialCode :: "string \<Rightarrow> string" where
  "denialCode ruleID =
     (if ruleID = ''Tenant-Isolation'' then ''authz.tenant_mismatch''
      else if ruleID = ''RBAC'' then ''authz.denied''
      else if HasPrefix ruleID ''SoD'' then ''sod.violation''
      else ''authz.denied'')"

(*src internal/platform/authz/abac.go#Evaluator.Require*)
definition Require :: "Policy \<Rightarrow> time \<Rightarrow> Principal \<Rightarrow> Permission \<Rightarrow> Resource \<Rightarrow> go_error option" where
  "Require pol now pr perm res = (let d = Authorize pol now pr perm res in
     if d_Allowed d then None
     else if d_Reason d = ''step_up_required''
     then Some (Unauthorized ''authz.Require'' ''auth.step_up_required'')
     else Some (Forbidden ''authz.Require'' (denialCode (d_RuleID d))))"

(*src internal/platform/authz/abac.go#RuleCatalogue*)
definition RuleCatalogue :: "(string \<times> string) list" where
  "RuleCatalogue = sort_key fst (map (\<lambda>r. (rule_ID r, rule_Description r)) sodRules)"

section \<open>Properties\<close>

text \<open>A rule denies when it applies and gives a reason.\<close>

definition denies :: "Rule \<Rightarrow> Policy \<Rightarrow> time \<Rightarrow> Principal \<Rightarrow> Permission \<Rightarrow> Resource \<Rightarrow> bool" where
  "denies r pol now pr perm res \<longleftrightarrow> rule_Applies r perm res \<and> rule_Evaluate r pr res pol now \<noteq> ''''"

lemma run_rules_None: "run_rules rs pol now pr perm res = None \<longleftrightarrow> (\<forall>r \<in> set rs. \<not> denies r pol now pr perm res)"
  by (induction rs) (auto simp: Let_def denies_def)

lemma run_rules_Some:
  "run_rules rs pol now pr perm res = Some d \<Longrightarrow>
   \<exists>r \<in> set rs. denies r pol now pr perm res \<and> \<not> d_Allowed d \<and> d_RuleID d = rule_ID r \<and>
     d_Reason d = rule_Evaluate r pr res pol now"
  by (induction rs) (auto simp: Let_def denies_def split: if_splits)

lemma Authorize_Allowed:
  "d_Allowed (Authorize pol now pr perm res) \<longleftrightarrow>
     (res_TenantID res = '''' \<or> pr_TenantID pr = res_TenantID res) \<and>
     Has (effective_permissions pr res) perm \<and>
     (\<forall>r \<in> set sodRules. \<not> denies r pol now pr perm res)"
  by (auto simp: Authorize_def Empty_def run_rules_None dest: run_rules_Some split: option.splits)

text \<open>The people who wrote a resource are one person.\<close>

definition sole_author :: "Principal \<Rightarrow> Resource \<Rightarrow> bool" where
  "sole_author pr res \<longleftrightarrow> res_CreatedBy res = pr_ID pr \<and> set (res_Contributors res) \<subseteq> {pr_ID pr}"

definition recent_mfa :: "Policy \<Rightarrow> time \<Rightarrow> Principal \<Rightarrow> bool" where
  "recent_mfa pol now pr \<longleftrightarrow>
     pr_AuthTime pr \<noteq> 0 \<and> Sub now (pr_AuthTime pr) \<le> pol_StepUpMaxAge pol \<and> HasMFA pr"

lemma denies_rules:
  "denies sod1 pol now pr perm res \<longleftrightarrow>
     perm \<in> {ArtifactApprove, PRDApprove, SpecApprove} \<and> res_Type res = ''artifact'' \<and>
     (pol_FourEyes pol \<or> RequiresFourEyes (res_ArtifactType res)) \<and>
     res_CreatedBy res \<noteq> '''' \<and> sole_author pr res"
  "denies sod2 pol now pr perm res \<longleftrightarrow>
     perm \<in> {ExceptionGrant, ProposalApprove, FindingSuppress} \<and>
     res_RequestedBy res \<noteq> '''' \<and> res_RequestedBy res = pr_ID pr"
  "denies sod3 pol now pr perm res \<longleftrightarrow>
     perm \<in> {ExceptionGrant, DesignAuthorityDecide} \<and> \<not> pr_DesignAuthority pr"
  "denies sod4 pol now pr perm res \<longleftrightarrow>
     perm = DeploymentApprove \<and> res_Type res = ''deployment'' \<and> pol_ProdDeployFourEyes pol \<and>
     (EqualFold (attr_string res ''environment'') ''prod'' \<or>
      EqualFold (attr_string res ''environment'') ''production'') \<and> sole_author pr res"
  "denies sod6 pol now pr perm res \<longleftrightarrow>
     IsApprovalPermission perm \<and> IsMachine pr \<and> pr_OnBehalfOf pr = None"
  "denies stepUp pol now pr perm res \<longleftrightarrow>
     IsApprovalPermission perm \<and> pr_Kind pr \<noteq> KindSystem \<and> \<not> recent_mfa pol now pr"
  "denies prdApprover pol now pr perm res \<longleftrightarrow>
     perm \<in> {PRDApprove, ArtifactApprove} \<and> res_Type res = ''artifact'' \<and>
     res_ArtifactType res = ArtifactPRD \<and> \<not> pol_ArchitectCanApprovePRD pol \<and>
     (\<exists>g \<in> set (pr_Grants pr). gr_Role g = RoleArchitect) \<and>
     (\<forall>g \<in> set (pr_Grants pr). gr_Role g \<noteq> RoleProductOwner)"
  by (auto simp: denies_def sod1_def sod2_def sod3_def sod4_def sod6_def stepUp_def prdApprover_def
      Let_def sole_author_def recent_mfa_def RequiresStepUp_iff list_ex_iff)

text \<open>What the principal holds for the resource, in terms of its grants: a grant counts tenant-wide
  or for the resource's own project, the stored set counts when the resource has no project or the
  principal no grants, and a machine acting for nobody holds no approval permission.\<close>

lemma Has_effective_permissions:
  assumes "wf_set (pr_Permissions pr)"
  shows "Has (effective_permissions pr res) perm \<longleftrightarrow>
     (if res_ProjectID res \<noteq> '''' \<and> pr_Grants pr \<noteq> []
      then \<exists>g \<in> set (pr_Grants pr). (gr_ProjectID g = '''' \<or> gr_ProjectID g = res_ProjectID res) \<and>
             perm \<in> set (role_perms (gr_Role g))
      else Has (pr_Permissions pr) perm) \<and>
     \<not> (IsMachine pr \<and> pr_OnBehalfOf pr = None \<and> perm \<in> set approvalList)"
  using assms
  by (auto simp: effective_permissions_def Let_def Has_ServiceAccountSet Has_Resolve IsApprovalPermission_iff)

text \<open>C34: The evaluator's decision, as the code makes it, for every principal and resource. It
  grants exactly when the resource is of the principal's tenant or of none; a role granted
  tenant-wide or for the resource's project carries the permission (without grants or without a
  project: the stored set holds it); a machine, the system principal included, does not exercise
  an approval permission for itself; and none of the code's six other conditions (sole author of
  the artifact, requester deciding, Design Authority, sole author of the release, step-up, PRD
  approver) objects. A resource of another tenant is always refused as a tenant mismatch, whatever
  the principal holds. Rule SoD-5 of the document on authorization is not among the code's rules,
  and one other contributor, however small the edit, lifts the two sole-author conditions.\<close>

theorem Authorize_iff:
  assumes "wf_set (pr_Permissions pr)"
  shows "(d_Allowed (Authorize pol now pr perm res) \<longleftrightarrow>
     (res_TenantID res = '''' \<or> pr_TenantID pr = res_TenantID res) \<and>
     (if res_ProjectID res \<noteq> '''' \<and> pr_Grants pr \<noteq> []
      then \<exists>g \<in> set (pr_Grants pr). (gr_ProjectID g = '''' \<or> gr_ProjectID g = res_ProjectID res) \<and>
             perm \<in> set (role_perms (gr_Role g))
      else Has (pr_Permissions pr) perm) \<and>
     \<not> (perm \<in> set approvalList \<and> IsMachine pr \<and> pr_OnBehalfOf pr = None) \<and>
     \<not> (perm \<in> {ArtifactApprove, PRDApprove, SpecApprove} \<and> res_Type res = ''artifact'' \<and>
        (pol_FourEyes pol \<or> RequiresFourEyes (res_ArtifactType res)) \<and>
        res_CreatedBy res \<noteq> '''' \<and> res_CreatedBy res = pr_ID pr \<and>
        set (res_Contributors res) \<subseteq> {pr_ID pr}) \<and>
     \<not> (perm \<in> {ExceptionGrant, ProposalApprove, FindingSuppress} \<and>
        res_RequestedBy res \<noteq> '''' \<and> res_RequestedBy res = pr_ID pr) \<and>
     \<not> (perm \<in> {ExceptionGrant, DesignAuthorityDecide} \<and> \<not> pr_DesignAuthority pr) \<and>
     \<not> (perm = DeploymentApprove \<and> res_Type res = ''deployment'' \<and> pol_ProdDeployFourEyes pol \<and>
        (EqualFold (attr_string res ''environment'') ''prod'' \<or>
         EqualFold (attr_string res ''environment'') ''production'') \<and>
        res_CreatedBy res = pr_ID pr \<and> set (res_Contributors res) \<subseteq> {pr_ID pr}) \<and>
     \<not> (perm \<in> set approvalList \<and> pr_Kind pr \<noteq> KindSystem \<and> \<not> recent_mfa pol now pr) \<and>
     \<not> (perm \<in> {PRDApprove, ArtifactApprove} \<and> res_Type res = ''artifact'' \<and>
        res_ArtifactType res = ArtifactPRD \<and> \<not> pol_ArchitectCanApprovePRD pol \<and>
        (\<exists>g \<in> set (pr_Grants pr). gr_Role g = RoleArchitect) \<and>
        RoleProductOwner \<notin> gr_Role ` set (pr_Grants pr))) \<and>
   (res_TenantID res \<noteq> '''' \<and> pr_TenantID pr \<noteq> res_TenantID res \<longrightarrow>
     d_RuleID (Authorize pol now pr perm res) = ''Tenant-Isolation'')"
proof -
  have no_owner: "RoleProductOwner \<notin> gr_Role ` set (pr_Grants pr) \<longleftrightarrow>
      (\<forall>g \<in> set (pr_Grants pr). gr_Role g \<noteq> RoleProductOwner)" by (metis (full_types) image_iff)
  have "res_TenantID res \<noteq> '''' \<and> pr_TenantID pr \<noteq> res_TenantID res \<longrightarrow>
      d_RuleID (Authorize pol now pr perm res) = ''Tenant-Isolation''"
    by (simp add: Authorize_def Empty_def)
  then show ?thesis
    unfolding Authorize_Allowed sodRules_def no_owner list.set ball_simps ball_empty denies_rules
      IsApprovalPermission_iff Has_effective_permissions [OF assms] sole_author_def by argo
qed

lemma Require_None: "Require pol now pr perm res = None \<longleftrightarrow> d_Allowed (Authorize pol now pr perm res)"
  by (simp add: Require_def Let_def)

text \<open>An approval action gets through only for a person, or a machine acting for one, with a
  recent second factor unless it is the system principal acting for that person.\<close>

lemma approval_allowed:
  assumes "d_Allowed (Authorize pol now pr perm res)" "IsApprovalPermission perm"
  shows "IsMachine pr \<longrightarrow> pr_OnBehalfOf pr \<noteq> None"
    and "pr_Kind pr = KindSystem \<or> recent_mfa pol now pr"
  using assms unfolding Authorize_Allowed sodRules_def by (auto simp: denies_rules)

lemma effective_machine:
  assumes "wf_set (pr_Permissions pr)" "IsMachine pr" "pr_OnBehalfOf pr = None"
  shows "Has (effective_permissions pr res) p \<Longrightarrow> \<not> IsApprovalPermission p"
  using assms by (auto simp: effective_permissions_def Has_ServiceAccountSet Let_def split: if_splits)

text \<open>A resource of another tenant is refused with the tenant-mismatch code whatever the
  principal holds, and a machine that acts for nobody is refused every approval permission at
  the role check, so the refusal reaches the client as HTTP 403 in both cases.\<close>

theorem Require_refuses:
  assumes "wf_set (pr_Permissions pr)"
    and "res_TenantID res \<noteq> '''' \<and> pr_TenantID pr \<noteq> res_TenantID res \<or>
         IsMachine pr \<and> pr_OnBehalfOf pr = None \<and> perm \<in> set approvalList"
  shows "HTTPStatus (Require pol now pr perm res) = 403 \<and>
     CodeOf (Require pol now pr perm res) =
       (if res_TenantID res \<noteq> '''' \<and> pr_TenantID pr \<noteq> res_TenantID res
        then ''authz.tenant_mismatch'' else ''authz.denied'')"
proof (cases "res_TenantID res \<noteq> '''' \<and> pr_TenantID pr \<noteq> res_TenantID res")
  case True
  then show ?thesis
    by (simp add: Require_def Authorize_def Empty_def denialCode_def error_defs HTTPStatus_def CodeOf_def)
next
  case False
  with assms have m: "IsMachine pr" "pr_OnBehalfOf pr = None" "IsApprovalPermission perm"
    by (auto simp: IsApprovalPermission_iff)
  then have "\<not> Has (effective_permissions pr res) perm"
    using assms(1) effective_machine by blast
  with False show ?thesis
    by (auto simp: Require_def Authorize_def Empty_def denialCode_def error_defs HTTPStatus_def CodeOf_def)
qed

definition ci_robot :: Principal where
  "ci_robot = \<lparr>pr_ID = ''p1'', pr_Kind = KindServiceAccount, pr_TenantID = ''t1'', pr_Subject = '''',
     pr_Issuer = '''', pr_Display = '''', pr_Email = '''', pr_Grants = [],
     pr_Permissions = NewSet [ArtifactApprove, ArtifactRead], pr_AuthTime = 0, pr_AMR = [],
     pr_BreakGlass = False, pr_OnBehalfOf = None, pr_DesignAuthority = False\<rparr>"

definition some_prd :: Resource where
  "some_prd = \<lparr>res_Type = ''artifact'', res_ID = ''PRD-1'', res_TenantID = ''t1'', res_ProjectID = ''j1'',
     res_CreatedBy = ''u1'', res_Contributors = [''u1''], res_RequestedBy = '''',
     res_ArtifactType = ArtifactPRD, res_Attributes = (\<lambda>_. None)\<rparr>"

theorem Require_refuses_witness:
  "HTTPStatus (Require DefaultPolicy 7 ci_robot ArtifactApprove some_prd) = 403 \<and>
   CodeOf (Require DefaultPolicy 7 ci_robot ArtifactApprove some_prd) = ''authz.denied''"
  using Require_refuses [of ci_robot some_prd ArtifactApprove DefaultPolicy 7]
  by (simp add: ci_robot_def some_prd_def IsMachine_def approvalList_def)

text \<open>Under four eyes the single author of an artifact version cannot approve it. The rule
  looks at the contributors only through this one condition: once any other person is listed as
  a contributor, whatever the size of the edit, it no longer objects to the author.\<close>

theorem sole_author_cannot_approve:
  assumes "perm \<in> {ArtifactApprove, PRDApprove, SpecApprove}" "res_Type res = ''artifact''"
    and "pol_FourEyes pol \<or> RequiresFourEyes (res_ArtifactType res)"
    and "res_CreatedBy res = pr_ID pr" "pr_ID pr \<noteq> ''''"
  shows "if set (res_Contributors res) \<subseteq> {pr_ID pr} then Require pol now pr perm res \<noteq> None
         else rule_Evaluate sod1 pr res pol now = ''''"
proof (cases "set (res_Contributors res) \<subseteq> {pr_ID pr}")
  case True
  then have "denies sod1 pol now pr perm res"
    using assms by (auto simp: denies_rules sole_author_def)
  then show ?thesis using True by (simp add: Require_None Authorize_Allowed sodRules_def)
next
  case False
  then have "list_ex (\<lambda>c. c \<noteq> pr_ID pr) (res_Contributors res)" by (auto simp: list_ex_iff)
  with False show ?thesis by (simp add: sod1_def Let_def)
qed

definition author :: Principal where
  "author = ci_robot\<lparr>pr_ID := ''u1'', pr_Kind := KindUser, pr_AuthTime := 5, pr_AMR := [''mfa'']\<rparr>"

theorem sole_author_cannot_approve_witness:
  "Require DefaultPolicy 7 author ArtifactApprove some_prd \<noteq> None \<and>
   rule_Evaluate sod1 author (some_prd\<lparr>res_Contributors := [''u1'', ''u2'']\<rparr>) DefaultPolicy 7 = ''''"
  using sole_author_cannot_approve [of ArtifactApprove some_prd DefaultPolicy author 7]
    sole_author_cannot_approve [of ArtifactApprove "some_prd\<lparr>res_Contributors := [''u1'', ''u2'']\<rparr>"
      DefaultPolicy author 7]
  by (simp add: author_def ci_robot_def some_prd_def DefaultPolicy_def)

theorem Authorize_iff_witness:
  "d_Allowed (Authorize DefaultPolicy 7 author ArtifactRead some_prd) \<and>
   \<not> d_Allowed (Authorize DefaultPolicy 7 author ArtifactApprove some_prd)"
proof
  have wf: "wf_set (pr_Permissions author)" by (simp add: author_def ci_robot_def)
  show "d_Allowed (Authorize DefaultPolicy 7 author ArtifactRead some_prd)"
    using Authorize_iff [OF wf, of DefaultPolicy 7 ArtifactRead some_prd]
    by (simp add: author_def ci_robot_def some_prd_def Has_NewSet known_unat permission_defs approvalList_def recent_mfa_def)
  show "\<not> d_Allowed (Authorize DefaultPolicy 7 author ArtifactApprove some_prd)"
    using Authorize_iff [OF wf, of DefaultPolicy 7 ArtifactApprove some_prd]
    by (simp add: author_def ci_robot_def some_prd_def DefaultPolicy_def)
qed

end
