(* ===== verification/Utf8.thy ===== *)
theory Utf8
  imports Prelude "HOL-Library.List_Lexorder"
begin

text \<open>
  What the sources use of Go's \<^verbatim>\<open>unicode/utf8\<close> and \<^verbatim>\<open>unicode/utf16\<close>: decoding
  a byte string into runes, with U+FFFD for every byte that starts no valid sequence, encoding a
  rune, and the UTF-16 code units of a rune. The lemmas show that decoding inverts encoding and
  that the code units determine the runes.
\<close>

type_synonym rune = nat

definition RuneError :: rune where "RuneError = 0xFFFD"

definition surrogate :: "rune \<Rightarrow> bool" where "surrogate r \<longleftrightarrow> 0xD800 \<le> r \<and> r < 0xE000"

definition valid_rune :: "rune \<Rightarrow> bool" where "valid_rune r \<longleftrightarrow> r \<le> 0x10FFFF \<and> \<not> surrogate r"

definition cont :: "char \<Rightarrow> bool" where
  "cont c \<longleftrightarrow> 0x80 \<le> (of_char c :: nat) \<and> (of_char c :: nat) < 0xC0"

definition cont_bits :: "char \<Rightarrow> nat" where "cont_bits c = of_char c mod 64"

text \<open>The rune at the head of a string, and what follows it: \<^verbatim>\<open>utf8.DecodeRune\<close>.\<close>

definition decode_rune :: "char \<Rightarrow> string \<Rightarrow> rune \<times> string" where
  "decode_rune c s = (let b = of_char c :: nat in
     if b < 0x80 then (b, s)
     else if 0xC2 \<le> b \<and> b < 0xE0 then
       (case s of c1 # t \<Rightarrow> if cont c1 then ((b - 0xC0) * 64 + cont_bits c1, t) else (RuneError, s)
        | _ \<Rightarrow> (RuneError, s))
     else if 0xE0 \<le> b \<and> b < 0xF0 then
       (case s of c1 # c2 # t \<Rightarrow>
          let r = (b - 0xE0) * 4096 + cont_bits c1 * 64 + cont_bits c2 in
          if cont c1 \<and> cont c2 \<and> 0x800 \<le> r \<and> \<not> surrogate r then (r, t) else (RuneError, s)
        | _ \<Rightarrow> (RuneError, s))
     else if 0xF0 \<le> b \<and> b < 0xF5 then
       (case s of c1 # c2 # c3 # t \<Rightarrow>
          let r = (b - 0xF0) * 262144 + cont_bits c1 * 4096 + cont_bits c2 * 64 + cont_bits c3 in
          if cont c1 \<and> cont c2 \<and> cont c3 \<and> 0x10000 \<le> r \<and> r \<le> 0x10FFFF then (r, t) else (RuneError, s)
        | _ \<Rightarrow> (RuneError, s))
     else (RuneError, s))"

lemma decode_rune_shorter: "length (snd (decode_rune c s)) \<le> length s"
  by (auto simp: decode_rune_def Let_def split: list.splits)

text \<open>\<^verbatim>\<open>for _, r := range s\<close> and \<^verbatim>\<open>[]rune(s)\<close>.\<close>

function runes :: "string \<Rightarrow> rune list" where
  "runes [] = []"
| "runes (c # s) = fst (decode_rune c s) # runes (snd (decode_rune c s))"
  by pat_completeness auto
termination
  by (relation "measure length") (auto simp: le_imp_less_Suc decode_rune_shorter)

text \<open>\<^verbatim>\<open>utf8.AppendRune\<close>: a surrogate or an out of range value is written as U+FFFD.\<close>

definition encode_rune :: "rune \<Rightarrow> string" where
  "encode_rune r0 = (let r = if valid_rune r0 then r0 else RuneError in
     if r < 0x80 then [char_of r]
     else if r < 0x800 then [char_of (0xC0 + r div 64), char_of (0x80 + r mod 64)]
     else if r < 0x10000 then
       [char_of (0xE0 + r div 4096), char_of (0x80 + r div 64 mod 64), char_of (0x80 + r mod 64)]
     else
       [char_of (0xF0 + r div 262144), char_of (0x80 + r div 4096 mod 64),
        char_of (0x80 + r div 64 mod 64), char_of (0x80 + r mod 64)])"

definition utf8 :: "rune list \<Rightarrow> string" where "utf8 rs = concat (map encode_rune rs)"

text \<open>Strings that are valid UTF-8, the only ones a JSON decoder produces.\<close>

definition valid_utf8 :: "string \<Rightarrow> bool" where "valid_utf8 s \<longleftrightarrow> utf8 (runes s) = s"

text \<open>\<^verbatim>\<open>utf16.Encode\<close>.\<close>

definition units :: "rune \<Rightarrow> nat list" where
  "units r = (if r < 0x10000 then [if surrogate r then RuneError else r]
     else [0xD800 + (r - 0x10000) div 1024, 0xDC00 + (r - 0x10000) mod 1024])"

definition utf16 :: "rune list \<Rightarrow> nat list" where "utf16 rs = concat (map units rs)"

section \<open>Decoding inverts encoding\<close>

lemma of_char_less: "(of_char c :: nat) < 256"
  by (metis nat_of_char_less_256)

lemma cont_bits_char: "cont_bits (char_of (0x80 + k)) = k" if "k < 64" for k
  using that mod_mult_self3 [of 2 64 k] by (simp add: cont_bits_def)

lemma cont_char: "k < (64 :: nat) \<Longrightarrow> cont (char_of (0x80 + k))"
  by (simp add: cont_def)

lemma recombine3: "r div 4096 * 4096 + r div 64 mod 64 * 64 + r mod 64 = (r :: nat)"
proof -
  have "r = r div 64 * 64 + r mod 64" by simp
  moreover have "r div 64 = r div 64 div 64 * 64 + r div 64 mod 64" by presburger
  moreover have "r div 64 div 64 = r div 4096" by (simp add: div_mult2_eq [symmetric])
  ultimately show ?thesis by linarith
qed

lemma recombine4:
  "r div 262144 * 262144 + r div 4096 mod 64 * 4096 + r div 64 mod 64 * 64 + r mod 64 = (r :: nat)"
proof -
  have "r div 4096 = r div 4096 div 64 * 64 + r div 4096 mod 64" by presburger
  moreover have "r div 4096 div 64 = r div 262144" by (simp add: div_mult2_eq [symmetric])
  ultimately show ?thesis using recombine3 [of r] by linarith
qed

lemma decode_encode:
  assumes "valid_rune r"
  shows "\<exists>c t. encode_rune r = c # t \<and> decode_rune c (t @ s) = (r, s)"
proof -
  consider "r < 0x80" | "0x80 \<le> r" "r < 0x800" | "0x800 \<le> r" "r < 0x10000" | "0x10000 \<le> r"
    by linarith
  then show ?thesis
  proof cases
    case 1
    then show ?thesis using assms by (simp add: encode_rune_def decode_rune_def)
  next
    case 2
    then have d: "r div 64 < 32" "2 \<le> r div 64" by auto
    then show ?thesis using 2 assms
      by (simp add: encode_rune_def decode_rune_def cont_bits_char cont_char)
  next
    case 3
    then have d: "r div 4096 < 16" by auto
    then show ?thesis using 3 assms recombine3 [of r]
      by (simp add: encode_rune_def decode_rune_def cont_bits_char cont_char valid_rune_def)
  next
    case 4
    then have d: "r div 262144 < 5" using assms by (auto simp: valid_rune_def)
    then show ?thesis using 4 assms recombine4 [of r]
      by (simp add: encode_rune_def decode_rune_def cont_bits_char cont_char valid_rune_def)
  qed
qed

lemma runes_encode: "valid_rune r \<Longrightarrow> runes (encode_rune r @ s) = r # runes s"
  using decode_encode [of r s] by auto

lemma runes_utf8: "list_all valid_rune rs \<Longrightarrow> runes (utf8 rs) = rs"
  by (induction rs) (auto simp: utf8_def runes_encode)

lemma decode_rune_valid: "valid_rune (fst (decode_rune c s))"
proof -
  have "of_char c < (256 :: nat)" by (rule of_char_less)
  moreover have "cont_bits x < 64" for x by (simp add: cont_bits_def)
  moreover have "valid_rune ((of_char c - 192) * 64 + cont_bits x)" if "of_char c < (224 :: nat)" for x
    using that \<open>cont_bits x < 64\<close> by (auto simp: valid_rune_def surrogate_def)
  moreover have "valid_rune ((of_char c - 224) * 4096 + cont_bits x * 64 + cont_bits y)"
    if "of_char c < (240 :: nat)" "\<not> surrogate ((of_char c - 224) * 4096 + cont_bits x * 64 + cont_bits y)" for x y
    using that \<open>cont_bits x < 64\<close> \<open>cont_bits y < 64\<close> by (auto simp: valid_rune_def)
  ultimately show ?thesis
    by (auto simp: decode_rune_def Let_def RuneError_def valid_rune_def surrogate_def split: list.split)
qed

lemma runes_valid: "list_all valid_rune (runes s)"
  by (induction s rule: runes.induct) (auto simp: decode_rune_valid)

lemma valid_utf8_utf8 [simp]: "valid_utf8 (utf8 rs)" if "list_all valid_rune rs"
  using that by (simp add: valid_utf8_def runes_utf8)

lemma valid_utf8_inj: "valid_utf8 a \<Longrightarrow> valid_utf8 b \<Longrightarrow> runes a = runes b \<Longrightarrow> a = b"
  by (metis valid_utf8_def)

definition is_ascii :: "string \<Rightarrow> bool" where
  "is_ascii s \<longleftrightarrow> list_all (\<lambda>c. (of_char c :: nat) < 0x80) s"

lemma runes_ascii: "is_ascii s \<Longrightarrow> runes s = map of_char s"
  by (induction s) (auto simp: is_ascii_def decode_rune_def)

lemma valid_utf8_ascii: "is_ascii s \<Longrightarrow> valid_utf8 s"
proof -
  assume a: "is_ascii s"
  then have "utf8 (map of_char s) = s"
    by (induction s) (auto simp: is_ascii_def utf8_def encode_rune_def valid_rune_def surrogate_def)
  with a show ?thesis by (simp add: valid_utf8_def runes_ascii)
qed

section \<open>UTF-16 order\<close>

lemma units_prefix_free:
  assumes "valid_rune r" "valid_rune r'" "units r @ x = units r' @ y"
  shows "r = r' \<and> x = y"
proof -
  have lead: "hd (units r) \<in> {0xD800 ..< 0xDC00} \<longleftrightarrow> 65536 \<le> r" if "valid_rune r" for r
  proof (cases "r < 65536")
    case False
    have "r \<le> 1114111" using that by (simp add: valid_rune_def)
    with False have "r - 65536 < 1024 * 1024" by linarith
    then have "(r - 65536) div 1024 < 1024" by (simp only: less_mult_imp_div_less)
    with False show ?thesis by (simp add: units_def)
  qed (use that in \<open>auto simp: units_def valid_rune_def surrogate_def\<close>)
  have "hd (units r) = hd (units r')"
    using assms(3) by (auto simp: units_def split: if_splits)
  with lead assms(1,2) have big: "65536 \<le> r \<longleftrightarrow> 65536 \<le> r'" by metis
  show ?thesis
  proof (cases "65536 \<le> r")
    case True
    then have "(r - 65536) div 1024 = (r' - 65536) div 1024"
      "(r - 65536) mod 1024 = (r' - 65536) mod 1024" "x = y"
      using big assms(3) by (auto simp: units_def)
    moreover then have "r - 65536 = r' - 65536" by (metis div_mult_mod_eq)
    ultimately show ?thesis using True big by simp
  next
    case False
    with big assms show ?thesis by (simp add: units_def valid_rune_def)
  qed
qed

lemma units_nonempty [simp]: "units r \<noteq> []"
  by (simp add: units_def)

lemma utf16_inj:
  "list_all valid_rune a \<Longrightarrow> list_all valid_rune b \<Longrightarrow> utf16 a = utf16 b \<Longrightarrow> a = b"
proof (induction a arbitrary: b)
  case Nil
  then show ?case by (cases b) (auto simp: utf16_def)
next
  case (Cons r a)
  have "b \<noteq> []" using Cons.prems(3) by (simp add: utf16_def del: concat_eq_Nil_conv Nil_eq_concat_conv) (metis append_is_Nil_conv concat.simps(1) list.simps(8) units_nonempty)
  then obtain r' b' where b: "b = r' # b'" by (cases b) simp_all
  have "r = r' \<and> utf16 a = utf16 b'"
    by (rule units_prefix_free) (use Cons.prems b in \<open>simp_all add: utf16_def\<close>)
  with Cons.IH [of b'] Cons.prems b show ?case by simp
qed

lemma utf16_ascii: "is_ascii s \<Longrightarrow> utf16 (runes s) = map of_char s"
  by (subst runes_ascii, assumption, induction s)
     (auto simp: is_ascii_def utf16_def units_def surrogate_def)

end
