(* ===== verification/Json.thy ===== *)
theory Json
  imports Utf8
begin

text \<open>
  JSON values and Go's \<^verbatim>\<open>json.Decoder\<close> with \<^verbatim>\<open>UseNumber\<close>, as the canonicalizer
  and the handlers use them: one value is read from the front of the input and the rest is left,
  numbers stay literals, strings are unquoted to valid UTF-8, a repeated object member replaces
  the earlier one, and more than 10000 open brackets are refused. An object is an association
  list, standing for Go's unordered map.
\<close>

datatype json =
    JNull
  | JBool bool
  | JNumber string
  | JString string
  | JArray "json list"
  | JObject "(string \<times> json) list"

text \<open>The nesting depth of a value.\<close>

fun depth :: "json \<Rightarrow> nat" where
  "depth (JArray vs) = Suc (foldr (max \<circ> depth) vs 0)"
| "depth (JObject ms) = Suc (foldr (\<lambda>(k, v). max (depth v)) ms 0)"
| "depth _ = 0"

text \<open>\<^verbatim>\<open>m[k] = v\<close>.\<close>

fun upsert :: "string \<Rightarrow> 'a \<Rightarrow> (string \<times> 'a) list \<Rightarrow> (string \<times> 'a) list" where
  "upsert k v [] = [(k, v)]"
| "upsert k v ((k', v') # m) = (if k' = k then (k, v) # m else (k', v') # upsert k v m)"

definition maxNestingDepth :: nat where "maxNestingDepth = 10000"

section \<open>Tokens\<close>

definition ws :: "char \<Rightarrow> bool" where
  "ws c \<longleftrightarrow> c = CHR '' '' \<or> c = CHR 0x09 \<or> c = CHR 0x0A \<or> c = CHR 0x0D"

abbreviation skip_ws :: "string \<Rightarrow> string" where "skip_ws \<equiv> dropWhile ws"

definition hex_digit :: "char \<Rightarrow> nat option" where
  "hex_digit c = (let b = of_char c :: nat in
     if 48 \<le> b \<and> b \<le> 57 then Some (b - 48)
     else if 97 \<le> b \<and> b \<le> 102 then Some (b - 87)
     else if 65 \<le> b \<and> b \<le> 70 then Some (b - 55) else None)"

text \<open>The four digits after \<^verbatim>\<open>\\u\<close>.\<close>

definition get_u4 :: "string \<Rightarrow> (nat \<times> string) option" where
  "get_u4 s = (case s of a # b # c # d # t \<Rightarrow>
       (case (hex_digit a, hex_digit b, hex_digit c, hex_digit d) of
          (Some w, Some x, Some y, Some z) \<Rightarrow> Some (w * 4096 + x * 256 + y * 16 + z, t) | _ \<Rightarrow> None)
     | _ \<Rightarrow> None)"

text \<open>\<^verbatim>\<open>utf16.DecodeRune\<close> of an escape and the escape that follows it, if they pair up.\<close>

definition low_surrogate :: "nat \<Rightarrow> string \<Rightarrow> (rune \<times> string) option" where
  "low_surrogate hi s = (case s of a # b # t \<Rightarrow>
       if a = CHR 0x5C \<and> b = CHR ''u'' then
         (case get_u4 t of Some (lo, u) \<Rightarrow>
            if 0xD800 \<le> hi \<and> hi < 0xDC00 \<and> 0xDC00 \<le> lo \<and> lo < 0xE000
            then Some (0x10000 + (hi - 0xD800) * 1024 + (lo - 0xDC00), u) else None
          | None \<Rightarrow> None)
       else None
     | _ \<Rightarrow> None)"

definition simple_escape :: "char \<Rightarrow> char option" where
  "simple_escape c =
     (if c = CHR 0x22 \<or> c = CHR 0x5C \<or> c = CHR ''/'' then Some c
      else if c = CHR ''b'' then Some (CHR 0x08)
      else if c = CHR ''f'' then Some (CHR 0x0C)
      else if c = CHR ''n'' then Some (CHR 0x0A)
      else if c = CHR ''r'' then Some (CHR 0x0D)
      else if c = CHR ''t'' then Some (CHR 0x09) else None)"

lemma get_u4_shorter: "get_u4 s = Some (n, t) \<Longrightarrow> length t < length s"
  by (auto simp: get_u4_def split: list.splits option.splits)

lemma low_surrogate_shorter: "low_surrogate h s = Some (n, t) \<Longrightarrow> length t < length s"
  by (auto simp: low_surrogate_def split: list.splits option.splits if_splits dest: get_u4_shorter)

text \<open>One character of a string literal, escaped or not: its rune and what follows it.\<close>

definition parse_char :: "char \<Rightarrow> string \<Rightarrow> (rune \<times> string) option" where
  "parse_char c s =
     (if c = CHR 0x5C then
        (case s of [] \<Rightarrow> None
         | e # t \<Rightarrow>
           if e = CHR ''u'' then
             (case get_u4 t of None \<Rightarrow> None
              | Some (r, u) \<Rightarrow>
                if surrogate r then
                  (case low_surrogate r u of Some p \<Rightarrow> Some p | None \<Rightarrow> Some (RuneError, u))
                else Some (r, u))
           else (case simple_escape e of Some x \<Rightarrow> Some (of_char x, t) | None \<Rightarrow> None))
      else if (of_char c :: nat) < 0x20 then None
      else Some (decode_rune c s))"

lemma parse_char_shorter: "parse_char c s = Some (r, t) \<Longrightarrow> length t \<le> length s"
proof -
  assume p: "parse_char c s = Some (r, t)"
  show ?thesis
  proof (cases "c = CHR 0x5C")
    case True
    with p show ?thesis
      by (auto simp: parse_char_def split: list.splits option.splits if_splits
          dest!: get_u4_shorter low_surrogate_shorter)
  next
    case False
    with p show ?thesis
      using decode_rune_shorter [of c s] by (auto simp: parse_char_def split: if_splits)
  qed
qed

text \<open>The rest of a string literal, after its opening quote.\<close>

function parse_chars :: "string \<Rightarrow> (string \<times> string) option" where
  "parse_chars [] = None"
| "parse_chars (c # s) =
     (if c = CHR 0x22 then Some ([], s)
      else case parse_char c s of None \<Rightarrow> None
        | Some (r, t) \<Rightarrow> (case parse_chars t of None \<Rightarrow> None
            | Some (q, u) \<Rightarrow> Some (encode_rune r @ q, u)))"
  by pat_completeness auto
termination
  by (relation "measure length") (auto simp: le_imp_less_Suc parse_char_shorter)

lemma parse_chars_shorter: "parse_chars s = Some (q, u) \<Longrightarrow> length u < length s"
proof (induction s arbitrary: q u rule: parse_chars.induct)
  case (2 c s)
  show ?case
  proof (cases "c = CHR 0x22")
    case False
    with 2(2) obtain r t q' where p: "parse_char c s = Some (r, t)" "parse_chars t = Some (q', u)"
      by (auto split: option.splits)
    then have "length u < length t" using 2(1) False by metis
    then show ?thesis using parse_char_shorter [OF p(1)] by simp
  qed (use 2 in simp)
qed simp

text \<open>The scanner takes as much as the grammar of numbers allows, and fails where a digit is
  missing after the point or the exponent mark.\<close>

definition lex_digits1 :: "string \<Rightarrow> (string \<times> string) option" where
  "lex_digits1 s = (if s \<noteq> [] \<and> is_digit (hd s) then Some (takeWhile is_digit s, dropWhile is_digit s) else None)"

definition lex_int :: "string \<Rightarrow> (string \<times> string) option" where
  "lex_int s = (case s of c # t \<Rightarrow> if c = CHR ''0'' then Some ([c], t) else lex_digits1 s | [] \<Rightarrow> None)"

definition lex_frac :: "string \<Rightarrow> (string \<times> string) option" where
  "lex_frac s = (case s of c # t \<Rightarrow>
       if c = CHR ''.'' then map_option (apfst (Cons c)) (lex_digits1 t) else Some ([], s)
     | [] \<Rightarrow> Some ([], s))"

definition lex_exp :: "string \<Rightarrow> (string \<times> string) option" where
  "lex_exp s = (case s of c # t \<Rightarrow>
       if c = CHR ''e'' \<or> c = CHR ''E'' then
         (case t of d # u \<Rightarrow>
            if d = CHR ''+'' \<or> d = CHR ''-'' then map_option (apfst (\<lambda>ds. c # d # ds)) (lex_digits1 u)
            else map_option (apfst (Cons c)) (lex_digits1 t)
          | [] \<Rightarrow> None)
       else Some ([], s)
     | [] \<Rightarrow> Some ([], s))"

definition lex_number :: "string \<Rightarrow> (string \<times> string) option" where
  "lex_number s =
     (let neg = HasPrefix s ''-''; s0 = (if neg then tl s else s) in
      case lex_int s0 of None \<Rightarrow> None
      | Some (i, s1) \<Rightarrow> (case lex_frac s1 of None \<Rightarrow> None
        | Some (f, s2) \<Rightarrow> (case lex_exp s2 of None \<Rightarrow> None
          | Some (e, s3) \<Rightarrow> Some ((if neg then ''-'' else []) @ i @ f @ e, s3))))"

section \<open>Values\<close>

lemma skip_ws_length: "length (skip_ws s) \<le> length s"
  by (simp add: length_dropWhile_le)

lemma skip_ws_Cons: "skip_ws s = c # t \<Longrightarrow> length t < length s"
  using skip_ws_length [of s] by simp

function (sequential)
      parse_value :: "nat \<Rightarrow> string \<Rightarrow> (json \<times> string) option"
  and parse_elems :: "nat \<Rightarrow> string \<Rightarrow> (json list \<times> string) option"
  and parse_members :: "nat \<Rightarrow> (string \<times> json) list \<Rightarrow> string \<Rightarrow> ((string \<times> json) list \<times> string) option"
where
  "parse_value d s =
     (case skip_ws s of [] \<Rightarrow> None
      | c # t \<Rightarrow>
        if c = CHR ''{'' then
          (if d \<ge> maxNestingDepth then None
           else if skip_ws t \<noteq> [] \<and> hd (skip_ws t) = CHR ''}'' then Some (JObject [], tl (skip_ws t))
           else case parse_members (d + 1) [] t of None \<Rightarrow> None | Some (m, u) \<Rightarrow> Some (JObject m, u))
        else if c = CHR ''['' then
          (if d \<ge> maxNestingDepth then None
           else if skip_ws t \<noteq> [] \<and> hd (skip_ws t) = CHR '']'' then Some (JArray [], tl (skip_ws t))
           else case parse_elems (d + 1) t of None \<Rightarrow> None | Some (vs, u) \<Rightarrow> Some (JArray vs, u))
        else if c = CHR 0x22 then (case parse_chars t of None \<Rightarrow> None | Some (q, u) \<Rightarrow> Some (JString q, u))
        else if HasPrefix (c # t) ''true'' then Some (JBool True, drop 4 (c # t))
        else if HasPrefix (c # t) ''false'' then Some (JBool False, drop 5 (c # t))
        else if HasPrefix (c # t) ''null'' then Some (JNull, drop 4 (c # t))
        else (case lex_number (c # t) of None \<Rightarrow> None | Some (l, u) \<Rightarrow> Some (JNumber l, u)))"
| "parse_elems d s =
     (case parse_value d s of None \<Rightarrow> None
      | Some (v, r) \<Rightarrow>
        if length r < length s then
          (case skip_ws r of [] \<Rightarrow> None
           | c # u \<Rightarrow>
             if c = CHR '','' then
               (case parse_elems d u of None \<Rightarrow> None | Some (vs, w) \<Rightarrow> Some (v # vs, w))
             else if c = CHR '']'' then Some ([v], u) else None)
        else None)"
| "parse_members d m s =
     (case skip_ws s of [] \<Rightarrow> None
      | q # t \<Rightarrow>
        if q \<noteq> CHR 0x22 then None
        else case parse_chars t of None \<Rightarrow> None
          | Some (k, r) \<Rightarrow>
            (case skip_ws r of [] \<Rightarrow> None
             | c # u \<Rightarrow>
               if c \<noteq> CHR '':'' then None
               else case parse_value d u of None \<Rightarrow> None
                 | Some (v, w) \<Rightarrow>
                   if length w < length s then
                     (case skip_ws w of [] \<Rightarrow> None
                      | e # x \<Rightarrow>
                        if e = CHR '','' then parse_members d (upsert k v m) x
                        else if e = CHR ''}'' then Some (upsert k v m, x) else None)
                   else None))"
  by pat_completeness auto
termination
  by (relation "measure (\<lambda>p. case p of Inl (d, s) \<Rightarrow> 2 * length s
      | Inr (Inl (d, s)) \<Rightarrow> 2 * length s + 1 | Inr (Inr (d, m, s)) \<Rightarrow> 2 * length s + 1)")
     (fastforce dest!: skip_ws_Cons parse_chars_shorter)+

declare parse_value.simps [simp del] parse_elems.simps [simp del] parse_members.simps [simp del]

text \<open>\<^verbatim>\<open>dec.Decode(&v)\<close>: the first value of the input and the bytes after it.\<close>

definition Decode :: "string \<Rightarrow> (json \<times> string) option" where
  "Decode s = parse_value 0 s"

section \<open>The decoder consumes input\<close>

lemma lex_digits1_shorter: "lex_digits1 s = Some (l, r) \<Longrightarrow> length r < length s"
  by (cases s) (auto simp: lex_digits1_def le_imp_less_Suc length_dropWhile_le split: if_splits)

lemma lex_int_shorter: "lex_int s = Some (l, r) \<Longrightarrow> length r < length s"
  by (auto simp: lex_int_def split: list.splits if_splits dest: lex_digits1_shorter)

lemma lex_frac_shorter: "lex_frac s = Some (l, r) \<Longrightarrow> length r \<le> length s"
  by (auto simp: lex_frac_def split: list.splits if_splits dest!: lex_digits1_shorter)

lemma lex_exp_shorter: "lex_exp s = Some (l, r) \<Longrightarrow> length r \<le> length s"
  by (auto simp: lex_exp_def split: list.splits if_splits dest!: lex_digits1_shorter)

lemma lex_number_shorter: "lex_number s = Some (l, r) \<Longrightarrow> length r < length s"
  by (cases s) (auto simp: lex_number_def Let_def split: option.splits if_splits
      dest!: lex_int_shorter lex_frac_shorter lex_exp_shorter)

lemma parse_shorter:
  "parse_value d s = Some (v, r) \<Longrightarrow> length r < length s"
  "parse_elems d s = Some (vs, r) \<Longrightarrow> length r < length s"
  "parse_members d m s = Some (m', r) \<Longrightarrow> length r < length s"
proof (induction d s and d s and d m s arbitrary: v r and vs r and m' r
    rule: parse_value_parse_elems_parse_members.induct)
  case (1 d s)
  obtain c t where ct: "skip_ws s = c # t"
    using 1(3) by (cases "skip_ws s") (simp_all add: parse_value.simps [of d s])
  have len: "length t < length s" using skip_ws_Cons [OF ct] .
  have len': "length (tl (skip_ws t)) \<le> length t" using skip_ws_length [of t] by simp
  note eq = 1(3) [unfolded parse_value.simps [of d s] ct list.case]
  show ?case
  proof (cases "c = CHR ''{'' \<or> c = CHR ''[''")
    case True
    then consider "r = tl (skip_ws t)"
      | m where "parse_members (d + 1) [] t = Some (m, r)" "c = CHR ''{''" "\<not> maxNestingDepth \<le> d"
          "\<not> (skip_ws t \<noteq> [] \<and> hd (skip_ws t) = CHR ''}'')"
      | vs where "parse_elems (d + 1) t = Some (vs, r)" "c \<noteq> CHR ''{''" "c = CHR ''[''"
          "\<not> maxNestingDepth \<le> d" "\<not> (skip_ws t \<noteq> [] \<and> hd (skip_ws t) = CHR '']'')"
      using eq by (auto split: if_splits option.splits)
    then show ?thesis
    proof cases
      case 2
      with 1(1) [OF ct] show ?thesis using len by fastforce
    next
      case 3
      with 1(2) [OF ct] show ?thesis using len by fastforce
    qed (use len len' in simp)
  next
    case False
    then have "length r < length (c # t)"
      using eq by (auto split: if_splits option.splits dest!: parse_chars_shorter lex_number_shorter)
    then show ?thesis using len by simp
  qed
next
  case (2 d s)
  from 2(3) obtain w u c t where *: "parse_value d s = Some (w, u)" "length u < length s"
      "skip_ws u = c # t"
    unfolding parse_elems.simps [of d s] by (auto split: option.splits if_splits list.splits)
  have "length r \<le> length t"
  proof (cases "c = CHR '',''")
    case True
    then obtain ws where "parse_elems d t = Some (ws, r)"
      using 2(3) * unfolding parse_elems.simps [of d s] by (auto split: option.splits)
    then show ?thesis using 2(2) [OF *(1) refl *(2,3) True] by fastforce
  next
    case False
    then show ?thesis
      using 2(3) * unfolding parse_elems.simps [of d s] by (auto split: if_splits)
  qed
  with * skip_ws_Cons [OF *(3)] show ?case by simp
next
  case (3 d m s)
  from 3(3) obtain q t k a c u v w e x where *: "skip_ws s = q # t" "q = CHR 0x22"
      "parse_chars t = Some (k, a)" "skip_ws a = c # u" "c = CHR '':''"
      "parse_value d u = Some (v, w)" "length w < length s" "skip_ws w = e # x"
    unfolding parse_members.simps [of d m s]
    by (auto split: option.splits if_splits list.splits)
  have "length r \<le> length x"
  proof (cases "e = CHR '',''")
    case True
    then have "parse_members d (upsert k v m) x = Some (m', r)"
      using 3(3) * unfolding parse_members.simps [of d m s] by simp
    then show ?thesis using 3(2) * True by fastforce
  next
    case False
    then show ?thesis
      using 3(3) * unfolding parse_members.simps [of d m s] by (auto split: if_splits)
  qed
  with * skip_ws_Cons [OF *(8)] show ?case by simp
qed

end
