(* ===== verification/F64.thy ===== *)
theory F64
  imports Prelude
begin

text \<open>
  IEEE 754 doubles as far as \<^verbatim>\<open>strconv.ParseFloat\<close> and \<^verbatim>\<open>strconv.FormatFloat\<close>
  need them. A finite magnitude is a pair \<open>(m, j)\<close> that stands for \<open>m * 2 ^ j / 2 ^ 1074\<close>:
  \<open>m\<close> is the significand and \<open>j\<close> the exponent above the smallest one. Parsing rounds the exact
  rational to the nearest double, ties to even, and fails past the largest double; formatting
  searches the shortest decimal that parses back to the double, the closest one when both
  neighbours do. The search needs no digit bound: the double itself is a decimal.
\<close>

type_synonym f64 = "nat \<times> nat"

definition emin :: nat where "emin = 1074"

definition valid_f64 :: "f64 \<Rightarrow> bool" where
  "valid_f64 f = (case f of (m, j) \<Rightarrow> m < 2 ^ 53 \<and> (j = 0 \<or> 2 ^ 52 \<le> m) \<and> j \<le> 2045)"

section \<open>Rounding\<close>

text \<open>The exponent of \<open>n / d\<close>, with \<open>d\<close> doubled until the quotient fits 53 bits.\<close>

function find_exp :: "nat \<Rightarrow> nat \<Rightarrow> nat \<Rightarrow> nat \<times> nat" where
  "find_exp n d j = (if d = 0 \<or> n < 2 ^ 53 * d then (d, j) else find_exp n (2 * d) (j + 1))"
  by pat_completeness auto
termination
  by (relation "measure (\<lambda>(n, d, j). n - d)") auto

declare find_exp.simps [simp del]

lemma find_exp_stop: "d = 0 \<or> n < 2 ^ 53 * d \<Longrightarrow> find_exp n d j = (d, j)"
  by (subst find_exp.simps) simp

lemma find_exp_step: "\<not> (d = 0 \<or> n < 2 ^ 53 * d) \<Longrightarrow> find_exp n d j = find_exp n (2 * d) (j + 1)"
  by (subst find_exp.simps) simp

definition round_even :: "nat \<Rightarrow> nat \<Rightarrow> nat" where
  "round_even n d = (let q = n div d; r = n mod d in
     if 2 * r > d \<or> (2 * r = d \<and> odd q) then q + 1 else q)"

text \<open>The double nearest to \<open>n / (d * 2 ^ 1074)\<close>.\<close>

definition round_f64 :: "nat \<Rightarrow> nat \<Rightarrow> f64 option" where
  "round_f64 n d = (let (d', j) = find_exp n d 0; q = round_even n d';
       (m, k) = (if q = 2 ^ 53 then (2 ^ 52, j + 1) else (q, j))
     in if k > 2045 then None else Some (m, k))"

text \<open>The decimal \<open>n * 10 ^ p\<close> as a fraction.\<close>

definition dec_num :: "nat \<Rightarrow> int \<Rightarrow> nat" where "dec_num n p = n * 10 ^ nat p"
definition dec_den :: "int \<Rightarrow> nat" where "dec_den p = 10 ^ nat (- p)"

definition round_dec :: "nat \<Rightarrow> int \<Rightarrow> f64 option" where
  "round_dec n p = round_f64 (dec_num n p * 2 ^ emin) (dec_den p)"

section \<open>Shortest decimal\<close>

text \<open>The decimal exponent of the leading digit of \<open>a / b\<close>.\<close>

function count_up :: "nat \<Rightarrow> nat \<Rightarrow> nat" where
  "count_up a b = (if b = 0 \<or> a < 10 * b then 0 else 1 + count_up a (10 * b))"
  by pat_completeness auto
termination
  by (relation "measure (\<lambda>(a, b). a - b)") auto

function count_down :: "nat \<Rightarrow> nat \<Rightarrow> nat" where
  "count_down a b = (if a = 0 \<or> b \<le> a then 0 else 1 + count_down (10 * a) b)"
  by pat_completeness auto
termination
  by (relation "measure (\<lambda>(a, b). b - a)") auto

declare count_up.simps [simp del] count_down.simps [simp del]

definition lead_exp :: "nat \<Rightarrow> nat \<Rightarrow> int" where
  "lead_exp a b = (if b \<le> a then int (count_up a b) else - int (count_down a b))"

text \<open>\<open>a / 2 ^ 1074\<close> in units of \<open>10 ^ p\<close>, as a fraction.\<close>

definition unit_num :: "nat \<Rightarrow> int \<Rightarrow> nat" where "unit_num a p = a * 10 ^ nat (- p)"
definition unit_den :: "int \<Rightarrow> nat" where "unit_den p = 2 ^ emin * 10 ^ nat p"

function shortest :: "f64 \<Rightarrow> int \<Rightarrow> nat \<times> int" where
  "shortest f p =
     (let a = fst f * 2 ^ snd f; c = unit_num a p div unit_den p; r = unit_num a p mod unit_den p in
      if r = 0 then (c, p)
      else let lo = (round_dec c p = Some f); hi = (round_dec (c + 1) p = Some f) in
        if lo \<and> hi then (if 2 * r \<le> unit_den p then c else c + 1, p)
        else if lo then (c, p)
        else if hi then (c + 1, p)
        else shortest f (p - 1))"
  by pat_completeness auto
termination
proof (relation "measure (\<lambda>(f, p). nat (p + int emin))", goal_cases)
  case (2 f p a c r lo hi)
  have "p > - int emin"
  proof (rule ccontr)
    assume "\<not> p > - int emin"
    then have p: "nat p = 0" "nat (- p) = emin + (nat (- p) - emin)" by auto
    have "(10 :: nat) ^ nat (- p) = 2 ^ emin * (5 ^ emin * 10 ^ (nat (- p) - emin))"
      by (subst p(2)) (simp add: power_add power_mult_distrib [symmetric] mult.assoc [symmetric])
    then have "unit_num a p mod unit_den p = 0"
      by (simp add: unit_num_def unit_den_def p(1) mult.left_commute)
    with 2 show False by simp
  qed
  then show ?case by simp
qed simp

declare shortest.simps [simp del]

section \<open>Text\<close>

text \<open>The exponent of a literal: \<^verbatim>\<open>strconv\<close> stops accumulating it at 10000.\<close>

definition cap_exp :: "string \<Rightarrow> nat" where
  "cap_exp s = foldl (\<lambda>e c. if e < 10000 then 10 * e + digit_value c else e) 0 s"

definition exp_value :: "string \<Rightarrow> int" where
  "exp_value s = (case s of [] \<Rightarrow> 0
     | c # t \<Rightarrow> if c = CHR ''-'' then - int (cap_exp t) else if c = CHR ''+'' then int (cap_exp t)
              else int (cap_exp s))"

definition exp_mark :: "char \<Rightarrow> bool" where "exp_mark c \<longleftrightarrow> c = CHR ''e'' \<or> c = CHR ''E''"

text \<open>The digits and the decimal exponent of a literal without its sign.\<close>

definition lit_decimal :: "string \<Rightarrow> nat \<times> int" where
  "lit_decimal s = (let mant = takeWhile (\<lambda>c. \<not> exp_mark c) s;
       ex = drop 1 (dropWhile (\<lambda>c. \<not> exp_mark c) s);
       ip = takeWhile (\<lambda>c. c \<noteq> CHR ''.'') mant; fp = drop 1 (dropWhile (\<lambda>c. c \<noteq> CHR ''.'') mant)
     in (digits_value (ip @ fp), exp_value ex - int (length fp)))"

text \<open>\<^verbatim>\<open>strconv.ParseFloat(lit, 64)\<close> of a JSON number literal: its sign and magnitude, or the
  range error.\<close>

definition ParseFloat :: "string \<Rightarrow> (bool \<times> f64) option" where
  "ParseFloat lit = (let neg = HasPrefix lit ''-''; (n, p) = lit_decimal (if neg then tl lit else lit)
     in map_option (Pair neg) (round_dec n p))"

definition strip_zeros :: "string \<Rightarrow> string" where
  "strip_zeros s = rev (dropWhile (\<lambda>c. c = CHR ''0'') (rev s))"

text \<open>The digits and the exponent that \<^verbatim>\<open>strconv.FormatFloat(f, 'e', -1, 64)\<close> prints for a
  positive double.\<close>

definition FormatFloat_e :: "f64 \<Rightarrow> string \<times> int" where
  "FormatFloat_e f = (let (n, p) = shortest f (lead_exp (fst f * 2 ^ snd f) (2 ^ emin))
     in (strip_zeros (nat_digits n), p + int (length (nat_digits n)) - 1))"

section \<open>Rounding depends on the value only\<close>

lemma find_exp_scale: "0 < c \<Longrightarrow> find_exp (n * c) (d * c) j = (let (d', j') = find_exp n d j in (d' * c, j'))"
proof (induction n d j rule: find_exp.induct)
  case (1 n d j)
  have cond: "(d * c = 0 \<or> n * c < 2 ^ 53 * (d * c)) \<longleftrightarrow> (d = 0 \<or> n < 2 ^ 53 * d)"
    using 1(2) by (simp add: mult.assoc [symmetric])
  show ?case
  proof (cases "d = 0 \<or> n < 2 ^ 53 * d")
    case True
    then show ?thesis using cond by (simp only: find_exp_stop) simp
  next
    case False
    then have "find_exp (n * c) (d * c) j = find_exp (n * c) (2 * d * c) (j + 1)"
      using cond by (subst find_exp_step) (simp_all only: mult.assoc not_False_eq_True)
    also have "\<dots> = (let (d', j') = find_exp n (2 * d) (j + 1) in (d' * c, j'))"
      using 1 False by simp
    also have "find_exp n (2 * d) (j + 1) = find_exp n d j"
      using False by (simp add: find_exp_step)
    finally show ?thesis .
  qed
qed

lemma round_even_scale: "0 < c \<Longrightarrow> round_even (n * c) (d * c) = round_even n d"
proof -
  assume c: "0 < c"
  have "(2 * (n mod d * c) > d * c) \<longleftrightarrow> 2 * (n mod d) > d"
       "(2 * (n mod d * c) = d * c) \<longleftrightarrow> 2 * (n mod d) = d"
    using c by (simp_all add: mult.assoc [symmetric])
  then show ?thesis using c by (simp add: round_even_def Let_def mod_mult_mult2)
qed

lemma round_f64_scale: "0 < c \<Longrightarrow> round_f64 (n * c) (d * c) = round_f64 n d"
  by (simp add: round_f64_def find_exp_scale Let_def round_even_scale split: prod.split)

lemma dec_den_pos [simp]: "0 < dec_den p"
  by (simp add: dec_den_def)

lemma round_dec_cong:
  assumes "dec_num n p * dec_den q = dec_num m q * dec_den p"
  shows "round_dec n p = round_dec m q"
proof -
  have "round_dec n p = round_f64 (dec_num n p * 2 ^ emin * dec_den q) (dec_den p * dec_den q)"
    by (simp add: round_dec_def round_f64_scale)
  also have "dec_num n p * 2 ^ emin * dec_den q = dec_num m q * 2 ^ emin * dec_den p"
    using assms by (simp add: mult.commute mult.left_commute)
  also have "round_f64 \<dots> (dec_den p * dec_den q) = round_dec m q"
    by (subst mult.commute [of "dec_den p"]) (simp add: round_dec_def round_f64_scale)
  finally show ?thesis .
qed

lemma round_dec_shift: "round_dec (n * 10 ^ k) p = round_dec n (p + int k)"
proof (rule round_dec_cong)
  have "k + nat p + nat (- p - int k) = nat (p + int k) + nat (- p)" by linarith
  then show "dec_num (n * 10 ^ k) p * dec_den (p + int k) = dec_num n (p + int k) * dec_den p"
    by (simp add: dec_num_def dec_den_def mult.assoc power_add [symmetric])
qed

section \<open>A double is its own nearest double\<close>

lemma find_exp_exact:
  assumes "m < 2 ^ 53" "2 ^ 52 \<le> m \<or> k = 0" "0 < D"
  shows "find_exp (m * 2 ^ k * D) D i = (D * 2 ^ k, i + k)"
  using assms
proof (induction k arbitrary: D i)
  case 0
  then show ?case by (subst find_exp.simps) simp
next
  case (Suc k)
  have "2 ^ 53 * D \<le> m * 2 * D" using Suc.prems by simp
  also have "\<dots> \<le> m * 2 ^ Suc k * D"
    using power_increasing [of 1 "Suc k" "2 :: nat"] by (intro mult_right_mono mult_left_mono) auto
  finally have "\<not> (D = 0 \<or> m * 2 ^ Suc k * D < 2 ^ 53 * D)" using Suc.prems(3) by simp
  then have "find_exp (m * 2 ^ Suc k * D) D i = find_exp (m * 2 ^ k * (2 * D)) (2 * D) (i + 1)"
    by (subst find_exp_step) (simp_all only: mult.assoc mult.left_commute power_Suc not_False_eq_True)
  also have "\<dots> = (2 * D * 2 ^ k, i + 1 + k)"
    using Suc.prems by (intro Suc.IH) auto
  finally show ?case by simp
qed

lemma round_f64_exact: "valid_f64 (m, j) \<Longrightarrow> 0 < D \<Longrightarrow> round_f64 (m * 2 ^ j * D) D = Some (m, j)"
proof -
  assume v: "valid_f64 (m, j)" and D: "0 < D"
  then have f: "find_exp (m * 2 ^ j * D) D 0 = (D * 2 ^ j, j)"
    using find_exp_exact [of m j D 0] by (auto simp: valid_f64_def)
  have "round_even (m * 2 ^ j * D) (D * 2 ^ j) = m"
  proof -
    have "m * 2 ^ j * D = m * (D * 2 ^ j)" by simp
    then show ?thesis using D unfolding round_even_def Let_def
      by (metis (no_types) mod_mult_self2_is_0 mult_0_right nat_mult_eq_1_iff nonzero_mult_div_cancel_right
          not_less_zero mult_is_0 power_not_zero zero_neq_numeral neq0_conv)
  qed
  with f v show ?thesis by (auto simp: round_f64_def valid_f64_def)
qed

lemma find_exp_result:
  "find_exp n d j = (d', j') \<Longrightarrow> 0 < d \<Longrightarrow>
   0 < d' \<and> n < 2 ^ 53 * d' \<and> ((d', j') = (d, j) \<or> j < j' \<and> 2 ^ 52 * d' \<le> n)"
proof (induction n d j rule: find_exp.induct)
  case (1 n d j)
  show ?case
  proof (cases "n < 2 ^ 53 * d")
    case True
    with 1(2,3) show ?thesis by (simp add: find_exp_stop)
  next
    case False
    have r: "find_exp n (2 * d) (j + 1) = (d', j')"
      using 1(2,3) False by (simp add: find_exp_step)
    have "2 ^ 52 * (2 * d) \<le> n" using False by simp
    moreover have "\<not> (d = 0 \<or> n < 2 ^ 53 * d)" "0 < 2 * d" using 1(3) False by auto
    ultimately show ?thesis using 1(1) [OF _ r] by auto
  qed
qed

lemma round_f64_valid: "round_f64 n d = Some f \<Longrightarrow> 0 < d \<Longrightarrow> valid_f64 f"
proof -
  assume r: "round_f64 n d = Some f" and d: "0 < d"
  obtain d' j where fe: "find_exp n d 0 = (d', j)" by fastforce
  then have *: "0 < d'" "n < 2 ^ 53 * d'" "(d', j) = (d, 0) \<or> 2 ^ 52 * d' \<le> n"
    using find_exp_result [OF fe d] by auto
  have lt: "n div d' < 2 ^ 53" using * by (simp add: less_mult_imp_div_less mult.commute)
  have ge: "j = 0 \<or> 2 ^ 52 \<le> n div d'" using * by (auto simp: less_eq_div_iff_mult_less_eq)
  have q: "round_even n d' = n div d' \<or> round_even n d' = n div d' + 1"
    by (auto simp: round_even_def Let_def)
  show ?thesis
  proof (cases "round_even n d' = 2 ^ 53")
    case True
    with r fe show ?thesis by (auto simp: round_f64_def valid_f64_def split: if_splits)
  next
    case False
    have "round_even n d' < 2 ^ 53" using q lt False by linarith
    moreover have "j = 0 \<or> 2 ^ 52 \<le> round_even n d'" using q ge by linarith
    moreover have "f = (round_even n d', j)" "j \<le> 2045"
      using r fe False by (auto simp: round_f64_def split: if_splits)
    ultimately show ?thesis by (simp add: valid_f64_def)
  qed
qed

lemma round_dec_valid: "round_dec n p = Some f \<Longrightarrow> valid_f64 f"
  unfolding round_dec_def by (erule round_f64_valid) simp

lemma round_dec_0: "round_dec 0 p = Some (0, 0)"
  using round_f64_exact [of 0 0 "dec_den p"] by (simp add: round_dec_def valid_f64_def dec_num_def)

section \<open>The shortest decimal parses back\<close>

lemma shortest_round_trip: "valid_f64 f \<Longrightarrow> shortest f p = (n, q) \<Longrightarrow> round_dec n q = Some f"
proof (induction f p rule: shortest.induct)
  case (1 f p)
  obtain m j where f: "f = (m, j)" by fastforce
  define a c r where acr: "a = fst f * 2 ^ snd f" "c = unit_num a p div unit_den p"
    "r = unit_num a p mod unit_den p"
  have exact: "round_dec c p = Some f" if "r = 0"
  proof -
    have "c * unit_den p = unit_num a p" using that acr by auto
    then have "dec_num c p * 2 ^ emin = m * 2 ^ j * dec_den p"
      by (simp add: f acr(1) dec_num_def dec_den_def unit_den_def unit_num_def mult.commute mult.left_commute)
    then show ?thesis using 1(2) round_f64_exact [of m j "dec_den p"] by (simp add: round_dec_def f)
  qed
  show ?case
  proof (cases "r = 0 \<or> round_dec c p = Some f \<or> round_dec (c + 1) p = Some f")
    case True
    then show ?thesis
      using 1(3) exact unfolding shortest.simps [of f p] Let_def acr(1,2,3) [symmetric]
      by (auto split: if_splits)
  next
    case False
    then have "shortest f (p - 1) = (n, q)"
      using 1(3) unfolding shortest.simps [of f p] Let_def acr(1,2,3) [symmetric] by simp
    note sh = this
    show ?thesis by (rule 1(1) [OF acr(1,2,3) _ refl refl]) (use False 1(2) sh in simp_all)
  qed
qed

section \<open>Digits\<close>

lemma digits_value_append: "digits_value (s @ t) = digits_value s * 10 ^ length t + digits_value t"
proof (induction t rule: rev_induct)
  case (snoc c t)
  then show ?case
    by (simp add: digits_value_snoc append_assoc [symmetric] algebra_simps del: append_assoc)
qed (simp add: digits_value_def)

lemma digits_value_zeros [simp]: "digits_value (replicate k CHR ''0'') = 0"
  by (induction k) (simp_all add: digits_value_def digit_value_def)

lemma digits_value_Nil [simp]: "digits_value [] = 0"
  by (simp add: digits_value_def)

lemma strip_zeros_split: "\<exists>z. s = strip_zeros s @ replicate z CHR ''0''"
proof -
  define t where "t = takeWhile (\<lambda>c. c = CHR ''0'') (rev s)"
  have "t = replicate (length t) CHR ''0''"
    unfolding t_def by (rule replicate_length_same [symmetric]) (auto dest: set_takeWhileD)
  then have "rev t = replicate (length t) CHR ''0''" by (metis rev_replicate)
  moreover have "strip_zeros s @ rev t = rev (t @ dropWhile (\<lambda>c. c = CHR ''0'') (rev s))"
    by (simp add: strip_zeros_def)
  then have "s = strip_zeros s @ rev t" by (simp add: t_def)
  ultimately show ?thesis by metis
qed

lemma nat_digits_hd: "0 < n \<Longrightarrow> hd (nat_digits n) \<noteq> CHR ''0''"
proof (induction n rule: nat_digits.induct)
  case (1 n)
  show ?case
  proof (cases "n < 10")
    case True
    have z: "digit_value (CHR ''0'') = 0" by (simp add: digit_value_def)
    have "digit_char n \<noteq> CHR ''0''"
    proof
      assume "digit_char n = CHR ''0''"
      then have "digit_value (digit_char n) = 0" by (simp only: z)
      then show False using 1(2) digit_value_char [OF True] by (simp only: less_irrefl)
    qed
    moreover have "nat_digits n = [digit_char n]" using True by (subst nat_digits.simps) (simp only: if_True)
    ultimately show ?thesis by (simp only: list.sel not_False_eq_True)
  next
    case False
    then show ?thesis using 1 by (subst nat_digits.simps) simp
  qed
qed

text \<open>What the formatter gets: digits without a leading zero whose value at the exponent rounds
  to the double.\<close>

lemma FormatFloat_e_spec:
  assumes v: "valid_f64 f" and pos: "fst f \<noteq> 0" and f: "FormatFloat_e f = (ds, e)"
  shows "ds \<noteq> [] \<and> list_all is_digit ds \<and> hd ds \<noteq> CHR ''0'' \<and>
    round_dec (digits_value ds) (e + 1 - int (length ds)) = Some f"
proof -
  obtain n p where s: "shortest f (lead_exp (fst f * 2 ^ snd f) (2 ^ emin)) = (n, p)" by fastforce
  then have r: "round_dec n p = Some f" using shortest_round_trip v by blast
  then have n: "0 < n" using pos round_dec_0 [of p] by (cases n) auto
  have ds: "ds = strip_zeros (nat_digits n)" "e = p + int (length (nat_digits n)) - 1"
    using f s by (auto simp: FormatFloat_e_def)
  obtain z where z: "nat_digits n = ds @ replicate z CHR ''0''"
    using strip_zeros_split ds(1) by metis
  have ne: "ds \<noteq> []"
  proof
    assume "ds = []"
    then have "hd (nat_digits n) = CHR ''0''" using z nat_digits_nonempty [of n] by (cases z) auto
    then show False using nat_digits_hd n by blast
  qed
  have "n = digits_value ds * 10 ^ z"
    using arg_cong [OF z, of digits_value] by (simp add: digits_value_append)
  then have "round_dec (digits_value ds) (p + int z) = Some f"
    using r round_dec_shift [of "digits_value ds" z p] by simp
  moreover have "p + int z = e + 1 - int (length ds)" using ds(2) z by simp
  moreover have "hd ds \<noteq> CHR ''0''" using ne z nat_digits_hd [OF n] by simp
  moreover have "list_all is_digit ds" using nat_digits_all [of n] z by simp
  ultimately show ?thesis using ne by simp
qed

section \<open>The exponents of doubles are small\<close>

lemma find_exp_power: "find_exp n d j = (d', j') \<Longrightarrow> j \<le> j' \<and> d' = d * 2 ^ (j' - j)"
proof (induction n d j rule: find_exp.induct)
  case (1 n d j)
  show ?case
  proof (cases "d = 0 \<or> n < 2 ^ 53 * d")
    case True
    then show ?thesis using 1(2) by (simp add: find_exp_stop)
  next
    case False
    then have "j + 1 \<le> j' \<and> d' = 2 * d * 2 ^ (j' - (j + 1))"
      using 1 by (simp add: find_exp_step)
    moreover then have "j' - j = Suc (j' - (j + 1))" by linarith
    ultimately show ?thesis by simp
  qed
qed

lemma round_f64_range:
  assumes r: "round_f64 n d = Some (m, k)" and d: "0 < d" and m: "m \<noteq> 0"
  shows "n < 2 ^ 53 * (d * 2 ^ 2045)" "d \<le> 2 * n"
proof -
  obtain d' j where fe: "find_exp n d 0 = (d', j)" by fastforce
  then have d': "d' = d * 2 ^ j" "n < 2 ^ 53 * d'"
    using find_exp_power [OF fe] find_exp_result [OF fe d] by auto
  have "j \<le> 2045" using r fe by (auto simp: round_f64_def Let_def split: if_splits)
  then have "2 ^ 53 * d' \<le> 2 ^ 53 * (d * 2 ^ 2045)"
    unfolding d'(1) by (intro mult_le_mono2 power_increasing) auto
  with d'(2) show "n < 2 ^ 53 * (d * 2 ^ 2045)" by (rule less_le_trans)
  show "d \<le> 2 * n"
  proof (rule ccontr)
    assume lt: "\<not> d \<le> 2 * n"
    then have "find_exp n d 0 = (d, 0)" by (intro find_exp_stop) simp
    moreover have "round_even n d = 0" using lt by (simp add: round_even_def)
    ultimately show False using r m by (simp add: round_f64_def)
  qed
qed

lemma two_less_ten: "0 < k \<Longrightarrow> (2 :: nat) ^ k < 10 ^ k"
  by (rule power_strict_mono) simp_all

lemma digits_value_less: "list_all is_digit s \<Longrightarrow> digits_value s < 10 ^ length s"
proof (induction s rule: rev_induct)
  case (snoc c s)
  then have "digit_value c < 10" by (auto simp: is_digit_def digit_value_def)
  with snoc show ?case by (simp add: digits_value_snoc)
qed simp

lemma digits_value_ge:
  "list_all is_digit s \<Longrightarrow> s \<noteq> [] \<Longrightarrow> hd s \<noteq> CHR ''0'' \<Longrightarrow> 10 ^ (length s - 1) \<le> digits_value s"
proof -
  assume a: "list_all is_digit s" "s \<noteq> []" "hd s \<noteq> CHR ''0''"
  then obtain c t where s: "s = c # t" by (cases s) auto
  have "of_char c \<noteq> (48 :: nat)"
  proof
    assume "of_char c = (48 :: nat)"
    then have "of_char c = (of_char CHR ''0'' :: nat)" by simp
    then show False using a s by (simp only: of_char_eq_iff) simp
  qed
  then have "1 \<le> digit_value c" using a s by (auto simp: is_digit_def digit_value_def)
  then have "1 * 10 ^ length t \<le> digit_value c * 10 ^ length t + digits_value t"
    by (intro trans_le_add1 mult_le_mono1)
  moreover have "digits_value [c] = digit_value c" by (simp add: digits_value_def)
  ultimately show ?thesis using digits_value_append [of "[c]" t] s by simp
qed

lemma dec_range:
  assumes "round_dec v q = Some f" "fst f \<noteq> 0" "10 ^ k \<le> v" "v < 10 ^ (k + 1)"
  shows "q + int k < 1024" "- 1100 < q + int k"
proof -
  obtain m j where f: "f = (m, j)" by fastforce
  have r: "round_f64 (dec_num v q * 2 ^ emin) (dec_den q) = Some (m, j)" "m \<noteq> 0"
    using assms f by (auto simp: round_dec_def)
  have up: "dec_num v q * 2 ^ emin < 2 ^ 53 * (dec_den q * 2 ^ 2045)"
    and low: "dec_den q \<le> 2 * (dec_num v q * 2 ^ emin)"
    using round_f64_range [OF r(1) _ r(2)] by auto
  have "(2 :: nat) ^ (53 + 2045) = 2 ^ (1024 + emin)" by (rule arg_cong) (simp add: emin_def)
  then have "(2 :: nat) ^ 53 * (dec_den q * 2 ^ 2045) = dec_den q * 2 ^ 1024 * 2 ^ emin"
    by (simp only: power_add mult.left_commute [of _ "dec_den q"] mult.assoc)
  then have "dec_num v q * 2 ^ emin < dec_den q * 2 ^ 1024 * 2 ^ emin" using up by (simp only:)
  then have "dec_num v q < dec_den q * 2 ^ 1024" by (rule mult_right_less_imp_less) simp
  also have "\<dots> < dec_den q * 10 ^ 1024" by (rule mult_strict_left_mono [OF two_less_ten]) simp_all
  finally have "10 ^ (k + nat q) < (10 :: nat) ^ (nat (- q) + 1024)"
    using assms(3) unfolding dec_num_def dec_den_def power_add
    by (meson le_less_trans mult_le_mono1)
  then have "k + nat q < nat (- q) + 1024" by (simp only: power_strict_increasing_iff one_less_numeral_iff semiring_norm)
  then show "q + int k < 1024" by linarith
  have "2 * (2 :: nat) ^ emin = 2 ^ (emin + 1)" by simp
  also have "\<dots> < 10 ^ (emin + 1)" by (rule two_less_ten) simp
  finally have e: "2 * (2 :: nat) ^ emin < 10 ^ (emin + 1)" .
  have "dec_den q \<le> dec_num v q * (2 * 2 ^ emin)" using low by (simp add: mult.commute mult.left_commute)
  also have "\<dots> \<le> dec_num v q * 10 ^ (emin + 1)" using e by (intro mult_le_mono2) simp
  also have "\<dots> < 10 ^ (k + 1) * 10 ^ nat q * 10 ^ (emin + 1)"
    using assms(4) unfolding dec_num_def by (intro mult_strict_right_mono) auto
  finally have "(10 :: nat) ^ nat (- q) < 10 ^ (k + 1 + nat q + (emin + 1))"
    unfolding dec_den_def power_add .
  then have "nat (- q) < k + 1 + nat q + (emin + 1)"
    by (simp only: power_strict_increasing_iff one_less_numeral_iff semiring_norm)
  then show "- 1100 < q + int k" by (simp add: emin_def)
qed

lemma cap_exp_small: "digits_value s < 100000 \<Longrightarrow> cap_exp s = digits_value s"
proof (induction s rule: rev_induct)
  case (snoc c s)
  then have "digits_value s < 10000" by (simp add: digits_value_snoc)
  with snoc show ?case by (simp add: digits_value_snoc cap_exp_def)
qed (simp add: cap_exp_def)

section \<open>Comparison\<close>

text \<open>A double in units of the smallest one, so that comparing doubles is comparing integers.\<close>

definition f64_units :: "bool \<times> f64 \<Rightarrow> int" where
  "f64_units c = (case c of (neg, m, j) \<Rightarrow> (if neg then - 1 else 1) * int (m * 2 ^ j))"

definition f64_one :: int where "f64_one = 2 ^ emin"

end
