(* ===== verification/Jcs.thy ===== *)
theory Jcs
  imports Json F64 Errors "HOL-Library.Multiset"
begin

text \<open>
  \<^verbatim>\<open>internal/platform/jcs/jcs.go\<close>: RFC 8785 canonicalization. The decoder of theory
  \<open>Json\<close> reads the document, \<open>jcs_write\<close> prints it with members in UTF-16 order, minimal escapes and
  ECMAScript numbers. The writer is only reached with values the decoder produced, so its
  branches for \<^verbatim>\<open>float64\<close> and for other Go types are not modelled, and a \<^verbatim>\<open>float64\<close>
  is finite because \<^verbatim>\<open>ParseFloat\<close> refuses anything past the largest double.
\<close>

section \<open>Numbers\<close>

text \<open>\<^verbatim>\<open>FormatFloat\<close>'s text is cut into digits and exponent right away; \<open>FormatFloat_e\<close> gives
  the two parts.\<close>

(*src internal/platform/jcs/jcs.go#formatFloat*)
definition formatFloat :: "bool \<times> f64 \<Rightarrow> string" where
  "formatFloat x = (case x of (neg, f) \<Rightarrow>
     if fst f = 0 then ''0''
     else let (digits, e10) = FormatFloat_e f; k = int (length digits); n = e10 + 1 in
       (if neg then ''-'' else []) @
       (if k \<le> n \<and> n \<le> 21 then digits @ replicate (nat (n - k)) CHR ''0''
        else if 0 < n \<and> n \<le> 21 then take (nat n) digits @ ''.'' @ drop (nat n) digits
        else if - 6 < n \<and> n \<le> 0 then ''0.'' @ replicate (nat (- n)) CHR ''0'' @ digits
        else (if k = 1 then digits else take 1 digits @ ''.'' @ drop 1 digits) @ ''e'' @
             (if n - 1 \<ge> 0 then ''+'' else ''-'') @ Itoa (abs (n - 1))))"

(*src internal/platform/jcs/jcs.go#formatNumber*)
definition formatNumber :: "string \<Rightarrow> string result" where
  "formatNumber lit = (case ParseFloat lit of
       None \<Rightarrow> Inl (PlainError ''jcs: number is not representable as a double'')
     | Some f \<Rightarrow> Inr (formatFloat f))"

section \<open>Strings\<close>

definition hexdigit :: "nat \<Rightarrow> char" where
  "hexdigit n = ''0123456789abcdef'' ! n"

(*src internal/platform/jcs/jcs.go:165-198#writeString*)
definition escape_rune :: "rune \<Rightarrow> string" where
  "escape_rune r =
     (if r = 0x22 then [CHR 0x5C, CHR 0x22]
      else if r = 0x5C then [CHR 0x5C, CHR 0x5C]
      else if r = 0x08 then [CHR 0x5C, CHR ''b'']
      else if r = 0x0C then [CHR 0x5C, CHR ''f'']
      else if r = 0x0A then [CHR 0x5C, CHR ''n'']
      else if r = 0x0D then [CHR 0x5C, CHR ''r'']
      else if r = 0x09 then [CHR 0x5C, CHR ''t'']
      else if r < 0x20 then
        [CHR 0x5C, CHR ''u'', CHR ''0'', CHR ''0'', hexdigit (r div 16 mod 16), hexdigit (r mod 16)]
      else if r = RuneError then encode_rune RuneError
      else encode_rune r)"

(*src internal/platform/jcs/jcs.go#writeString*)
definition writeString :: "string \<Rightarrow> string" where
  "writeString s = [CHR 0x22] @ concat (map escape_rune (runes s)) @ [CHR 0x22]"

section \<open>Member order\<close>

(*src internal/platform/jcs/jcs.go#isASCII*)
definition isASCII :: "string \<Rightarrow> bool" where
  "isASCII s = list_all (\<lambda>c. \<not> (of_char c :: nat) \<ge> 0x80) s"

text \<open>Go's \<^verbatim>\<open><\<close> on strings, byte by byte.\<close>

fun bytes_less :: "string \<Rightarrow> string \<Rightarrow> bool" where
  "bytes_less _ [] = False"
| "bytes_less [] (_ # _) = True"
| "bytes_less (a # s) (b # t) =
     (if a \<noteq> b then (of_char a :: nat) < of_char b else bytes_less s t)"

text \<open>The loop over the common length, then the comparison of the lengths.\<close>

(*src internal/platform/jcs/jcs.go:140-149#lessUTF16*)
fun units_less :: "nat list \<Rightarrow> nat list \<Rightarrow> bool" where
  "units_less (a # ua) (b # ub) = (if a \<noteq> b then a < b else units_less ua ub)"
| "units_less ua ub = (length ua < length ub)"

(*src internal/platform/jcs/jcs.go#lessUTF16*)
definition lessUTF16 :: "string \<Rightarrow> string \<Rightarrow> bool" where
  "lessUTF16 a b =
     (if isASCII a \<and> isASCII b then bytes_less a b
      else units_less (utf16 (runes a)) (utf16 (runes b)))"

text \<open>\<^verbatim>\<open>sort.SliceStable\<close>: the stable sort of the members by \<open>lessUTF16\<close> of their keys.\<close>

fun insert_member :: "string \<times> 'a \<Rightarrow> (string \<times> 'a) list \<Rightarrow> (string \<times> 'a) list" where
  "insert_member m [] = [m]"
| "insert_member m (x # xs) = (if lessUTF16 (fst x) (fst m) then x # insert_member m xs else m # x # xs)"

(*src internal/platform/jcs/jcs.go#sortUTF16*)
fun sortUTF16 :: "(string \<times> 'a) list \<Rightarrow> (string \<times> 'a) list" where
  "sortUTF16 [] = []"
| "sortUTF16 (m # ms) = insert_member m (sortUTF16 ms)"

lemma set_insert_member [simp]: "set (insert_member m ms) = insert m (set ms)"
  by (induction ms) auto

lemma set_sortUTF16 [simp]: "set (sortUTF16 ms) = set ms"
  by (induction ms) auto

section \<open>The writer\<close>

text \<open>The elements of a list written in order, up to the first error.\<close>

fun mapR :: "('a \<Rightarrow> 'b result) \<Rightarrow> 'a list \<Rightarrow> 'b list result" where
  "mapR f [] = Inr []"
| "mapR f (x # xs) = bindR (f x) (\<lambda>y. bindR (mapR f xs) (\<lambda>ys. Inr (y # ys)))"

lemma mapR_cong [fundef_cong]:
  "xs = ys \<Longrightarrow> (\<And>x. x \<in> set ys \<Longrightarrow> f x = g x) \<Longrightarrow> mapR f xs = mapR g ys"
  by (induction xs arbitrary: ys) auto

lemma member_size: "(k, v) \<in> set ms \<Longrightarrow> size v < size (JObject ms)"
  by (induction ms) auto

(*src internal/platform/jcs/jcs.go#write*)
function jcs_write :: "json \<Rightarrow> string result" where
  "jcs_write JNull = Inr ''null''"
| "jcs_write (JBool b) = Inr (if b then ''true'' else ''false'')"
| "jcs_write (JString s) = Inr (writeString s)"
| "jcs_write (JNumber l) = formatNumber l"
| "jcs_write (JArray vs) =
     bindR (mapR jcs_write vs) (\<lambda>ws. Inr (''['' @ Join ws '','' @ '']''))"
| "jcs_write (JObject ms) =
     bindR (mapR (\<lambda>(k, v). bindR (jcs_write v) (\<lambda>w. Inr (writeString k @ '':'' @ w))) (sortUTF16 ms))
       (\<lambda>ws. Inr (''{'' @ Join ws '','' @ ''}''))"
  by pat_completeness auto
termination
  by (relation "measure size") (auto simp: less_Suc_eq_le size_list_estimation' member_size)

(*src internal/platform/jcs/jcs.go#CanonicalizeJSON*)
definition CanonicalizeJSON :: "string \<Rightarrow> string result" where
  "CanonicalizeJSON raw =
     (case Decode raw of
        None \<Rightarrow> Inl (PlainError ''jcs: parsing JSON'')
      | Some (v, rest) \<Rightarrow>
        checkR (Decode rest \<noteq> None) (PlainError ''jcs: trailing content after the JSON document'') (
        jcs_write v))"

text \<open>
  \<^verbatim>\<open>json.Marshal\<close> of a value built from maps, slices, strings, booleans, integers and nil,
  read back by the decoder, is the value with every invalid byte of a string replaced by U+FFFD
  (its escapes for \<^verbatim>\<open><\<close>, \<^verbatim>\<open>>\<close>, \<^verbatim>\<open>&\<close>, U+2028 and U+2029 are undone by the decoder), and a
  value nested too deeply is refused by the decoder. The keys of the values the sources
  canonicalize are valid UTF-8, so no two of them become equal.
\<close>

definition sanitize_string :: "string \<Rightarrow> string" where "sanitize_string s = utf8 (runes s)"

fun sanitize :: "json \<Rightarrow> json" where
  "sanitize (JString s) = JString (sanitize_string s)"
| "sanitize (JArray vs) = JArray (map sanitize vs)"
| "sanitize (JObject ms) = JObject (map (\<lambda>(k, v). (sanitize_string k, sanitize v)) ms)"
| "sanitize v = v"

(*src internal/platform/jcs/jcs.go#Canonicalize*)
definition Canonicalize :: "json \<Rightarrow> string result" where
  "Canonicalize v = checkR (depth v > maxNestingDepth) (PlainError ''jcs: parsing JSON'') (jcs_write (sanitize v))"

section \<open>Numbers: what is written parses back\<close>

definition digits :: "string \<Rightarrow> bool" where "digits s \<longleftrightarrow> list_all is_digit s"

lemma digits_append [simp]: "digits (s @ t) \<longleftrightarrow> digits s \<and> digits t"
  by (simp add: digits_def)

lemma digits_Nil [simp]: "digits []"
  by (simp add: digits_def)

lemma digits_zeros [simp]: "digits (replicate k CHR ''0'')"
  by (induction k) (simp_all add: digits_def is_digit_def)

lemma digits_take [simp]: "digits s \<Longrightarrow> digits (take n s)" "digits s \<Longrightarrow> digits (drop n s)"
  by (auto simp: digits_def list_all_iff dest: in_set_takeD in_set_dropD)

lemma is_digit_marks [simp]: "\<not> is_digit CHR ''.''" "\<not> is_digit CHR ''e''" "\<not> is_digit CHR ''E''"
    "\<not> is_digit CHR ''-''" "\<not> is_digit CHR ''+''"
  by (simp_all add: is_digit_def)

lemma digits_marks: "digits s \<Longrightarrow> c \<in> set s \<Longrightarrow> \<not> exp_mark c \<and> c \<noteq> CHR ''.''"
  by (auto simp: digits_def list_all_iff exp_mark_def)

lemma exp_mark_simps [simp]: "exp_mark CHR ''e''" "\<not> exp_mark CHR ''.''"
  by (simp_all add: exp_mark_def)

lemma cut_at:
  "\<forall>c \<in> set a. P c \<Longrightarrow> \<not> P x \<Longrightarrow> takeWhile P (a @ x # b) = a"
  "\<forall>c \<in> set a. P c \<Longrightarrow> \<not> P x \<Longrightarrow> dropWhile P (a @ x # b) = x # b"
  by (simp_all add: takeWhile_append2 dropWhile_append2)

lemma cut_none:
  "\<forall>c \<in> set a. P c \<Longrightarrow> takeWhile P a = a" "\<forall>c \<in> set a. P c \<Longrightarrow> dropWhile P a = []"
  by simp_all

lemma digits_no_mark: "digits s \<Longrightarrow> \<forall>c \<in> set s. \<not> exp_mark c" "digits s \<Longrightarrow> \<forall>c \<in> set s. c \<noteq> CHR ''.''"
  using digits_marks by auto

lemma digits_frac_no_mark: "digits ip \<Longrightarrow> digits fp \<Longrightarrow> \<forall>c \<in> set (ip @ CHR ''.'' # fp). \<not> exp_mark c"
  using digits_marks by auto

lemma lit_plain: "digits ip \<Longrightarrow> lit_decimal ip = (digits_value ip, 0)"
  unfolding lit_decimal_def Let_def cut_none [OF digits_no_mark(1)] cut_none [OF digits_no_mark(2)]
  by (simp add: exp_value_def)

lemma lit_frac: "digits ip \<Longrightarrow> digits fp \<Longrightarrow>
  lit_decimal (ip @ CHR ''.'' # fp) = (digits_value (ip @ fp), - int (length fp))"
  unfolding lit_decimal_def Let_def cut_none [OF digits_frac_no_mark]
  by (subst cut_at, simp_all add: digits_no_mark)+ (simp add: exp_value_def)

lemma lit_exp: "digits ip \<Longrightarrow> lit_decimal (ip @ CHR ''e'' # ex) = (digits_value ip, exp_value ex)"
  unfolding lit_decimal_def Let_def
  by (subst cut_at, simp_all add: digits_no_mark)+ (simp add: cut_none digits_no_mark)

lemma lit_frac_exp: "digits ip \<Longrightarrow> digits fp \<Longrightarrow>
  lit_decimal (ip @ CHR ''.'' # fp @ CHR ''e'' # ex) = (digits_value (ip @ fp), exp_value ex - int (length fp))"
proof -
  assume d: "digits ip" "digits fp"
  have s: "ip @ CHR ''.'' # fp @ CHR ''e'' # ex = (ip @ CHR ''.'' # fp) @ CHR ''e'' # ex" by simp
  have m: "\<not> \<not> exp_mark CHR ''e''" "\<not> CHR ''.'' \<noteq> CHR ''.''" by simp_all
  show ?thesis
    unfolding lit_decimal_def Let_def s
      cut_at [where P = "\<lambda>c. \<not> exp_mark c", OF digits_frac_no_mark [OF d] m(1)]
      cut_at [where P = "\<lambda>c. c \<noteq> CHR ''.''", OF digits_no_mark(2) [OF d(1)] m(2)]
    by simp
qed

text \<open>The unsigned part of a formatted number.\<close>

definition format_body :: "string \<Rightarrow> int \<Rightarrow> string" where
  "format_body ds e10 = (let k = int (length ds); n = e10 + 1 in
     if k \<le> n \<and> n \<le> 21 then ds @ replicate (nat (n - k)) CHR ''0''
     else if 0 < n \<and> n \<le> 21 then take (nat n) ds @ ''.'' @ drop (nat n) ds
     else if - 6 < n \<and> n \<le> 0 then ''0.'' @ replicate (nat (- n)) CHR ''0'' @ ds
     else (if k = 1 then ds else take 1 ds @ ''.'' @ drop 1 ds) @ ''e'' @
          (if n - 1 \<ge> 0 then ''+'' else ''-'') @ Itoa (abs (n - 1)))"

lemma formatFloat_eq:
  "formatFloat (neg, f) = (if fst f = 0 then ''0''
     else case FormatFloat_e f of (ds, e10) \<Rightarrow> (if neg then ''-'' else []) @ format_body ds e10)"
  by (simp add: formatFloat_def format_body_def Let_def split: prod.split)

lemma exp_value_sign:
  "abs i < 100000 \<Longrightarrow> exp_value ((if i \<ge> 0 then ''+'' else ''-'') @ Itoa (abs i)) = i"
  by (simp add: exp_value_def Itoa_def cap_exp_small)

lemma format_body_decimal:
  assumes ds: "digits ds" "ds \<noteq> []" and e: "abs e10 < 100000"
  shows "\<exists>n p. lit_decimal (format_body ds e10) = (n, p) \<and>
    round_dec n p = round_dec (digits_value ds) (e10 + 1 - int (length ds))"
proof -
  define k n where kn: "k = int (length ds)" "n = e10 + 1"
  have ex: "exp_value ((if n - 1 \<ge> 0 then ''+'' else ''-'') @ Itoa (abs (n - 1))) = n - 1"
    using e kn by (intro exp_value_sign) simp
  have one: "digits_value (CHR ''0'' # replicate i CHR ''0'' @ ds) = digits_value ds" for i
    using digits_value_append [of "replicate (Suc i) CHR ''0''" ds] digits_value_zeros [of "Suc i"]
    by (simp del: digits_value_zeros)
  consider "k \<le> n" "n \<le> 21" | "n < k" "0 < n" "n \<le> 21" | "- 6 < n" "n \<le> 0" "n < k"
    | "\<not> (k \<le> n \<and> n \<le> 21)" "\<not> (0 < n \<and> n \<le> 21)" "\<not> (- 6 < n \<and> n \<le> 0)"
    using kn(1) by linarith
  then show ?thesis
  proof cases
    case 1
    then have "format_body ds e10 = ds @ replicate (nat (n - k)) CHR ''0''"
      by (simp add: format_body_def kn [symmetric])
    then show ?thesis
      using 1 ds kn round_dec_shift [of "digits_value ds" "nat (n - k)" 0]
      by (simp add: lit_plain digits_value_append)
  next
    case 2
    then have "format_body ds e10 = take (nat n) ds @ CHR ''.'' # drop (nat n) ds"
      by (simp add: format_body_def kn [symmetric])
    then show ?thesis using 2 ds kn by (simp add: lit_frac)
  next
    case 3
    then have "format_body ds e10 = [CHR ''0''] @ CHR ''.'' # (replicate (nat (- n)) CHR ''0'' @ ds)"
      by (simp add: format_body_def kn [symmetric])
    moreover have "digits [CHR ''0'']" by (simp add: digits_def is_digit_def)
    ultimately have "lit_decimal (format_body ds e10) = (digits_value ds, - int (nat (- n) + length ds))"
      using ds(1) lit_frac [of "[CHR ''0'']" "replicate (nat (- n)) CHR ''0'' @ ds"] by (simp add: one)
    then show ?thesis using 3 kn by (simp add: add.commute)
  next
    case 4
    let ?ex = "(if n - 1 \<ge> 0 then ''+'' else ''-'') @ Itoa (abs (n - 1))"
    have "format_body ds e10 = (if k = 1 then ds else take 1 ds @ ''.'' @ drop 1 ds) @ ''e'' @ ?ex"
      using 4 unfolding format_body_def kn(1,2) [symmetric] Let_def by auto
    then show ?thesis
    proof (cases "k = 1")
      case True
      then show ?thesis
        using \<open>format_body ds e10 = _\<close> ds(1) ex kn by (simp add: lit_exp)
    next
      case False
      have len: "n - 1 - int (length (drop 1 ds)) = e10 + 1 - int (length ds)"
        using ds(2) kn by (cases ds) auto
      have "lit_decimal (format_body ds e10) = (digits_value ds, n - 1 - int (length (drop 1 ds)))"
        using False \<open>format_body ds e10 = _\<close> ds(1) ex lit_frac_exp [of "take 1 ds" "drop 1 ds" ?ex]
        by simp
      then show ?thesis unfolding len by blast
    qed
  qed
qed

lemma format_body_hd: "digits ds \<Longrightarrow> ds \<noteq> [] \<Longrightarrow> \<exists>c t. format_body ds e10 = c # t \<and> is_digit c"
proof -
  assume d: "digits ds" "ds \<noteq> []"
  then obtain c t where c: "ds = c # t" "is_digit c" by (cases ds) (auto simp: digits_def)
  then show ?thesis
    by (auto simp: format_body_def Let_def is_digit_def take_Cons' split: if_splits)
qed

lemma not_minus: "is_digit c \<Longrightarrow> \<not> HasPrefix (c # t) ''-''"
  by (auto simp: HasPrefix_def)

text \<open>The double a literal stands for survives formatting and parsing; only the sign of zero is
  dropped.\<close>

lemma ParseFloat_formatFloat:
  assumes v: "valid_f64 f"
  shows "ParseFloat (formatFloat (neg, f)) = Some (neg \<and> fst f \<noteq> 0, f)"
proof (cases "fst f = 0")
  case True
  then have "f = (0, 0)" using v by (cases f) (auto simp: valid_f64_def)
  then show ?thesis
    by (simp add: formatFloat_eq ParseFloat_def HasPrefix_def lit_plain digits_def is_digit_def
        digits_value_def digit_value_def round_dec_0)
next
  case False
  obtain ds e where f: "FormatFloat_e f = (ds, e)" by fastforce
  note spec = FormatFloat_e_spec [OF v False f]
  then have ds: "digits ds" "ds \<noteq> []" by (simp_all add: digits_def)
  have "10 ^ (length ds - 1) \<le> digits_value ds" "digits_value ds < 10 ^ (length ds - 1 + 1)"
    using spec digits_value_ge digits_value_less [of ds] by auto
  then have "e + 1 - int (length ds) + int (length ds - 1) < 1024 \<and>
      - 1100 < e + 1 - int (length ds) + int (length ds - 1)"
    using dec_range spec False by blast
  moreover have "int (length ds - 1) = int (length ds) - 1" using ds(2) by (cases ds) auto
  ultimately have "abs e < 100000" by linarith
  then obtain n p where np: "lit_decimal (format_body ds e) = (n, p)" "round_dec n p = Some f"
    using format_body_decimal [OF ds] spec by metis
  obtain c t where hd: "format_body ds e = c # t" "is_digit c" using format_body_hd ds by blast
  have "HasPrefix (CHR ''-'' # format_body ds e) ''-''" by (simp add: HasPrefix_def)
  then show ?thesis
    using np f False hd not_minus [OF hd(2)] by (auto simp: formatFloat_eq ParseFloat_def)
qed

lemma ParseFloat_valid: "ParseFloat l = Some (neg, f) \<Longrightarrow> valid_f64 f"
  by (auto simp: ParseFloat_def Let_def round_dec_valid split: prod.splits)

lemma formatFloat_zero_sign: "formatFloat (neg \<and> fst f \<noteq> 0, f) = formatFloat (neg, f)"
  by (simp add: formatFloat_eq)

lemma formatNumber_idem: "formatNumber l = Inr s \<Longrightarrow> formatNumber s = Inr s"
proof -
  assume "formatNumber l = Inr s"
  then obtain neg f where f: "ParseFloat l = Some (neg, f)" "s = formatFloat (neg, f)"
    by (auto simp: formatNumber_def split: option.splits)
  have "ParseFloat s = Some (neg \<and> fst f \<noteq> 0, f)"
    unfolding f(2) by (rule ParseFloat_formatFloat [OF ParseFloat_valid [OF f(1)]])
  then show ?thesis by (simp only: formatNumber_def option.case formatFloat_zero_sign f(2))
qed

section \<open>Small integers are written as they are\<close>

text \<open>The double of an integer below \<open>2 ^ 53\<close> has exactly its value.\<close>

lemma scale_to_53: "0 < n \<Longrightarrow> n < 2 ^ 53 \<Longrightarrow> \<exists>t \<le> 52. 2 ^ 52 \<le> n * 2 ^ t \<and> n * 2 ^ t < (2 ^ 53 :: nat)"
proof -
  assume n: "0 < n" "n < 2 ^ 53"
  define P where "P t \<longleftrightarrow> n * 2 ^ t < 2 ^ 53" for t
  define t where "t = Greatest P"
  have bound: "t \<le> 52" if "P t" for t
  proof (rule ccontr)
    assume "\<not> t \<le> 52"
    then have "(2 :: nat) ^ 53 \<le> 2 ^ t" by (intro power_increasing) auto
    also have "\<dots> \<le> n * 2 ^ t" using n(1) by simp
    finally show False using that by (simp add: P_def)
  qed
  have P0: "P 0" using n by (simp add: P_def)
  have t: "P t" unfolding t_def using P0 bound by (rule GreatestI_nat)
  have "\<not> P (t + 1)"
    using Greatest_le_nat [of P "t + 1" 52] bound unfolding t_def by force
  then have "2 ^ 53 \<le> 2 * (n * 2 ^ t)" by (simp add: P_def)
  then have "2 ^ 52 \<le> n * 2 ^ t" by simp
  then show ?thesis using t bound [OF t] by (auto simp: P_def)
qed

lemma round_dec_nat:
  assumes "n < 2 ^ 53"
  shows "\<exists>f. round_dec n 0 = Some f \<and> fst f * 2 ^ snd f = n * 2 ^ emin"
proof (cases "n = 0")
  case True
  then show ?thesis by (simp add: round_dec_0)
next
  case False
  then obtain t where t: "t \<le> 52" "2 ^ 52 \<le> n * 2 ^ t" "n * 2 ^ t < 2 ^ 53"
    using scale_to_53 assms by blast
  then have le: "t \<le> emin" by (simp add: emin_def)
  have v: "valid_f64 (n * 2 ^ t, emin - t)" using t by (simp add: valid_f64_def emin_def)
  have eq: "n * 2 ^ t * 2 ^ (emin - t) = n * 2 ^ emin"
    using le by (simp add: mult.assoc power_add [symmetric])
  have "round_dec n 0 = round_f64 (n * 2 ^ t * 2 ^ (emin - t) * 1) 1"
    unfolding eq by (simp add: round_dec_def dec_num_def dec_den_def)
  also have "\<dots> = Some (n * 2 ^ t, emin - t)" by (rule round_f64_exact [OF v]) simp
  finally show ?thesis using eq by auto
qed

lemma round_dec_nat_inj:
  assumes "m < 2 ^ 53" "n < 2 ^ 53" "round_dec m 0 = round_dec n 0"
  shows "m = n"
proof -
  have "m * 2 ^ emin = n * 2 ^ emin"
    using round_dec_nat [OF assms(1)] round_dec_nat [OF assms(2)] assms(3) by auto
  then show ?thesis by simp
qed

lemma nat_digits_step: "10 \<le> n \<Longrightarrow> nat_digits n = nat_digits (n div 10) @ [digit_char (n mod 10)]"
  by (subst nat_digits.simps) (simp only: not_le [symmetric] if_False not_True_eq_False)

lemma count_up_digits: "0 < b \<Longrightarrow> count_up a b = length (nat_digits (a div b)) - 1"
proof (induction a b rule: count_up.induct)
  case (1 a b)
  have lt: "a < 10 * b \<longleftrightarrow> a div b < 10" using 1(2) by (simp add: div_less_iff_less_mult)
  show ?case
  proof (cases "a < 10 * b")
    case True
    then have "length (nat_digits (a div b)) = 1"
      using lt by (subst nat_digits.simps) (simp only: if_True list.size)
    with True show ?thesis by (subst count_up.simps) simp
  next
    case False
    have "nat_digits (a div b) = nat_digits (a div b div 10) @ [digit_char (a div b mod 10)]"
      using False lt by (intro nat_digits_step) simp
    then have "length (nat_digits (a div b)) = length (nat_digits (a div b div 10)) + 1"
      by (simp del: digit_char.simps)
    moreover have "a div (10 * b) = a div b div 10" by (simp add: div_mult2_eq [symmetric] mult.commute)
    moreover have "0 < length (nat_digits (a div b div 10))" by simp
    ultimately show ?thesis using 1 False by (subst count_up.simps) auto
  qed
qed

lemma nat_digits_times: "0 < c \<Longrightarrow> nat_digits (c * 10 ^ p) = nat_digits c @ replicate p CHR ''0''"
proof (induction p)
  case (Suc p)
  have "c * 10 ^ Suc p = 10 * (c * 10 ^ p)" by simp
  then have "nat_digits (c * 10 ^ Suc p) = nat_digits (c * 10 ^ p) @ [digit_char 0]"
    using Suc(2) nat_digits_step [of "10 * (c * 10 ^ p)"]
    by (simp only: mod_mult_self1_is_0 nonzero_mult_div_cancel_left zero_neq_numeral not_False_eq_True) simp
  moreover have "digit_char 0 = CHR ''0''" by code_simp
  ultimately show ?case using Suc by (simp add: replicate_append_same [symmetric] del: digit_char.simps)
qed simp

lemma strip_zeros_append: "strip_zeros (s @ replicate p CHR ''0'') = strip_zeros s"
proof -
  have "dropWhile (\<lambda>c. c = CHR ''0'') (replicate p CHR ''0'' @ t) = dropWhile (\<lambda>c. c = CHR ''0'') t" for t
    by (induction p) simp_all
  then show ?thesis by (simp add: strip_zeros_def)
qed

lemma shortest_nat:
  assumes n: "n < 10 ^ 15" "n < 10 ^ L" "L \<le> 15" and f: "round_dec n 0 = Some f"
  shows "p < L \<Longrightarrow> \<exists>q \<le> p. shortest f (int p) = (n div 10 ^ q, int q) \<and> 10 ^ q dvd n"
proof (induction p)
  case 0
  have a: "fst f * 2 ^ snd f = n * 2 ^ emin" using round_dec_nat [of n] f n by auto
  show ?case by (subst shortest.simps) (simp add: a unit_num_def unit_den_def Let_def)
next
  case (Suc p)
  let ?q = "Suc p"
  have a: "fst f * 2 ^ snd f = n * 2 ^ emin" using round_dec_nat [of n] f n by auto
  have num: "unit_num (fst f * 2 ^ snd f) (int ?q) = n * 2 ^ emin" by (simp add: a unit_num_def)
  have den: "unit_den (int ?q) = 10 ^ ?q * 2 ^ emin" by (simp only: unit_den_def nat_int mult.commute)
  show ?case
  proof (cases "10 ^ ?q dvd n")
    case True
    then have "shortest f (int ?q) = (n div 10 ^ ?q, int ?q)"
      unfolding shortest.simps [of f "int ?q"] num den Let_def mod_mult_mult2 by simp
    with True show ?thesis by blast
  next
    case False
    have small: "(n div 10 ^ ?q + 1) * 10 ^ ?q \<le> 10 ^ L"
    proof -
      have L: "(10 :: nat) ^ (L - ?q) * 10 ^ ?q = 10 ^ L"
        using Suc.prems by (simp only: power_add [symmetric] le_add_diff_inverse2 less_imp_le)
      then have "n < 10 ^ (L - ?q) * 10 ^ ?q" using n by (simp only:)
      then have "n div 10 ^ ?q < 10 ^ (L - ?q)" by (rule less_mult_imp_div_less)
      then have "(n div 10 ^ ?q + 1) * 10 ^ ?q \<le> 10 ^ (L - ?q) * 10 ^ ?q" by (intro mult_le_mono1) simp
      then show ?thesis unfolding L .
    qed
    have "(10 :: nat) ^ L \<le> 10 ^ 15" using n(3) by (intro power_increasing) auto
    then have b: "(n div 10 ^ ?q + 1) * 10 ^ ?q < 2 ^ 53" using small by simp
    have ne: "round_dec c (int ?q) \<noteq> Some f" if "c * 10 ^ ?q < 2 ^ 53" for c
    proof
      assume "round_dec c (int ?q) = Some f"
      then have "round_dec (c * 10 ^ ?q) 0 = round_dec n 0"
        using round_dec_shift [of c ?q 0] f by simp
      then have "c * 10 ^ ?q = n" using round_dec_nat_inj that n(1) by simp
      then show False using False by (metis dvd_triv_right)
    qed
    have r: "n * 2 ^ emin mod (10 ^ ?q * 2 ^ emin) \<noteq> 0"
      using False unfolding mod_mult_mult2 by (simp add: dvd_eq_mod_eq_0)
    have "n div 10 ^ ?q * 10 ^ ?q \<le> (n div 10 ^ ?q + 1) * 10 ^ ?q" by (intro mult_le_mono1) simp
    then have "n div 10 ^ ?q * 10 ^ ?q < 2 ^ 53" using b by (rule le_less_trans)
    then have "shortest f (int ?q) = shortest f (int ?q - 1)"
      using r ne [OF b] ne [of "n div 10 ^ ?q"]
      unfolding shortest.simps [of f "int ?q"] num den Let_def by simp
    then show ?thesis using Suc by (auto intro: le_SucI)
  qed
qed

lemma length_nat_digits: "0 < n \<Longrightarrow> n < 10 ^ k \<Longrightarrow> length (nat_digits n) \<le> k"
proof -
  assume n: "0 < n" "n < 10 ^ k"
  have "10 ^ (length (nat_digits n) - 1) \<le> n"
    using digits_value_ge [of "nat_digits n"] nat_digits_all nat_digits_hd [OF n(1)] by simp
  then have "(10 :: nat) ^ (length (nat_digits n) - 1) < 10 ^ k" using n(2) by (rule le_less_trans)
  then have "length (nat_digits n) - 1 < k" by simp
  then show ?thesis by simp
qed

lemma formatFloat_nat:
  assumes n: "0 < n" "n < 10 ^ 15" and f: "round_dec n 0 = Some f"
  shows "formatFloat (neg, f) = (if neg then ''-'' else []) @ nat_digits n"
proof -
  define L where "L = length (nat_digits n)"
  have L: "0 < L" "L \<le> 15" "n < 10 ^ L"
    using length_nat_digits [OF n] digits_value_less [of "nat_digits n"] nat_digits_all
    by (auto simp: L_def)
  have a: "fst f * 2 ^ snd f = n * 2 ^ emin" using round_dec_nat [of n] f n by auto
  then have nz: "fst f \<noteq> 0" using n(1) by (metis mult_is_0 power_eq_0_iff zero_neq_numeral less_irrefl)
  have "lead_exp (fst f * 2 ^ snd f) (2 ^ emin) = int (L - 1)"
    using n(1) by (simp add: lead_exp_def a count_up_digits L_def)
  moreover obtain q where q: "shortest f (int (L - 1)) = (n div 10 ^ q, int q)" "10 ^ q dvd n" "q < L"
    using shortest_nat [OF n(2) L(3,2) f, of "L - 1"] L(1) by fastforce
  moreover from q(2) obtain c where c: "n = c * 10 ^ q" by (metis dvd_def mult.commute)
  moreover from c have "nat_digits n = nat_digits c @ replicate q CHR ''0''" "n div 10 ^ q = c"
    using n(1) by (auto intro: nat_digits_times)
  ultimately have ff: "FormatFloat_e f = (strip_zeros (nat_digits n), int L - 1)"
    by (simp add: FormatFloat_e_def L_def strip_zeros_append)
  obtain z where z: "nat_digits n = strip_zeros (nat_digits n) @ replicate z CHR ''0''"
    using strip_zeros_split by metis
  then have len: "L = length (strip_zeros (nat_digits n)) + z"
    unfolding L_def by (metis length_append length_replicate)
  have "format_body (strip_zeros (nat_digits n)) (int L - 1) = nat_digits n"
    using L(2) len z [symmetric] by (simp add: format_body_def)
  with ff nz show ?thesis by (simp add: formatFloat_eq)
qed

lemma formatNumber_int: "abs i < 10 ^ 15 \<Longrightarrow> formatNumber (Itoa i) = Inr (Itoa i)"
proof -
  assume i: "abs i < 10 ^ 15"
  define n where "n = nat (abs i)"
  have "n < 2 ^ 53" "n < 10 ^ 15" using i by (auto simp: n_def)
  then obtain f where f: "round_dec n 0 = Some f" using round_dec_nat by blast
  have d: "digits (nat_digits n)" using nat_digits_all by (simp add: digits_def)
  have lit: "lit_decimal (nat_digits n) = (n, 0)" using lit_plain [OF d] by simp
  obtain c t where ct: "nat_digits n = c # t" "is_digit c"
    using d nat_digits_nonempty [of n] by (cases "nat_digits n") (auto simp: digits_def)
  have it: "Itoa i = (if i < 0 then ''-'' else []) @ nat_digits n" by (auto simp: Itoa_def n_def)
  have "ParseFloat (Itoa i) = Some (i < 0, f)"
    using lit f ct not_minus [OF ct(2)] unfolding it by (simp add: ParseFloat_def HasPrefix_def)
  moreover have "formatFloat (i < 0, f) = Itoa i"
  proof (cases "i = 0")
    case True
    then have "f = (0, 0)" using f round_dec_0 by (simp add: n_def)
    moreover have "nat_digits 0 = ''0''" by code_simp
    ultimately show ?thesis using True by (simp add: formatFloat_eq Itoa_def)
  next
    case False
    then show ?thesis
      using formatFloat_nat [OF _ \<open>n < 10 ^ 15\<close> f] it by (simp add: n_def)
  qed
  ultimately show ?thesis by (simp add: formatNumber_def)
qed

section \<open>Strings: what is written is read back\<close>

lemma hex_digit_hexdigit: "n < 16 \<Longrightarrow> hex_digit (hexdigit n) = Some n"
proof -
  assume "n < 16"
  moreover have "list_all (\<lambda>n. hex_digit (hexdigit n) = Some n) [0 ..< 16]" by code_simp
  ultimately show ?thesis by (simp add: list_all_iff)
qed

lemma parse_chars_decode:
  assumes "c \<noteq> CHR 0x22" "parse_char c s = Some (r, t)"
  shows "parse_chars (c # s) = map_option (apfst (\<lambda>q. encode_rune r @ q)) (parse_chars t)"
  using assms by (simp split: option.split)

lemma parse_chars_escape:
  assumes r: "valid_rune r"
  shows "parse_chars (escape_rune r @ t) = map_option (apfst (\<lambda>q. encode_rune r @ q)) (parse_chars t)"
proof (cases "r < 0x20 \<or> r = 0x22 \<or> r = 0x5C")
  case True
  define short :: "nat list" where "short = [0x22, 0x5C, 0x08, 0x0C, 0x0A, 0x0D, 0x09]"
  show ?thesis
  proof (cases "r \<in> set short")
    case True
    have "list_all (\<lambda>r. escape_rune r = CHR 0x5C # tl (escape_rune r) \<and>
        parse_char CHR 0x5C (tl (escape_rune r) @ t) = Some (r, t)) short"
      by (simp add: short_def escape_rune_def parse_char_def simple_escape_def)
    then have e: "escape_rune r = CHR 0x5C # tl (escape_rune r)"
      and p: "parse_char CHR 0x5C (tl (escape_rune r) @ t) = Some (r, t)"
      using True unfolding list_all_iff by blast+
    show ?thesis using parse_chars_decode [OF _ p] by (subst e) simp
  next
    case False
    then have lt: "r < 0x20" and e: "escape_rune r = [CHR 0x5C, CHR ''u'', CHR ''0'', CHR ''0'',
        hexdigit (r div 16), hexdigit (r mod 16)]"
      using \<open>r < 0x20 \<or> _\<close> by (auto simp: short_def escape_rune_def)
    have "hex_digit CHR ''0'' = Some 0" by code_simp
    then have "get_u4 (CHR ''0'' # CHR ''0'' # hexdigit (r div 16) # hexdigit (r mod 16) # t) = Some (r, t)"
      using lt by (simp add: get_u4_def hex_digit_hexdigit)
    moreover have "\<not> surrogate r" using lt by (simp add: surrogate_def)
    ultimately have "parse_char CHR 0x5C (drop 1 (escape_rune r) @ t) = Some (r, t)"
      by (simp add: e parse_char_def)
    then show ?thesis using parse_chars_decode [of "CHR 0x5C"] by (simp add: e)
  qed
next
  case False
  then have e: "escape_rune r = encode_rune r" by (auto simp: escape_rune_def)
  obtain c u where cu: "encode_rune r = c # u" "decode_rune c (u @ t) = (r, t)"
    using decode_encode [OF r] by blast
  have "c \<noteq> CHR 0x22 \<and> c \<noteq> CHR 0x5C \<and> \<not> (of_char c :: nat) < 0x20"
  proof (cases "of_char c < (0x80 :: nat)")
    case True
    then have "of_char c = r" using cu(2) by (simp add: decode_rune_def)
    then show ?thesis using False by auto
  qed auto
  then have "parse_char c (u @ t) = Some (r, t)" by (simp add: parse_char_def cu(2))
  then show ?thesis
    using \<open>c \<noteq> _ \<and> _\<close> parse_chars_decode [of c "u @ t" r t] by (simp add: e cu(1))
qed

lemma parse_chars_write:
  "list_all valid_rune rs \<Longrightarrow> parse_chars (concat (map escape_rune rs) @ CHR 0x22 # t) = Some (utf8 rs, t)"
  by (induction rs) (simp_all add: utf8_def parse_chars_escape)

lemma parse_writeString:
  "valid_utf8 s \<Longrightarrow> parse_chars (tl (writeString s) @ t) = Some (s, t)"
  using parse_chars_write [OF runes_valid, of s t] by (simp add: writeString_def valid_utf8_def)

lemma encode_rune_valid: "\<exists>r'. valid_rune r' \<and> encode_rune r = encode_rune r'"
proof (cases "valid_rune r")
  case False
  have "valid_rune RuneError" by (simp add: RuneError_def valid_rune_def surrogate_def)
  moreover from this False have "encode_rune r = encode_rune RuneError" by (simp add: encode_rune_def)
  ultimately show ?thesis by blast
qed blast

lemma parse_chars_valid: "parse_chars s = Some (q, u) \<Longrightarrow> \<exists>rs. list_all valid_rune rs \<and> q = utf8 rs"
proof (induction s arbitrary: q u rule: parse_chars.induct)
  case (2 c s)
  show ?case
  proof (cases "c = CHR 0x22")
    case True
    with 2 show ?thesis by (intro exI [of _ "[]"]) (simp add: utf8_def)
  next
    case False
    with 2(2) obtain r t q' where p: "parse_char c s = Some (r, t)" "parse_chars t = Some (q', u)"
        "q = encode_rune r @ q'"
      by (auto split: option.splits)
    obtain rs where "list_all valid_rune rs" "q' = utf8 rs" using 2(1) [OF False p(1) refl p(2)] by blast
    moreover obtain r' where "valid_rune r'" "encode_rune r = encode_rune r'"
      using encode_rune_valid by blast
    ultimately show ?thesis using p(3) by (intro exI [of _ "r' # rs"]) (simp add: utf8_def)
  qed
qed simp

end
