(* ===== verification/JcsCanonical.thy ===== *)
theory JcsCanonical
  imports Jcs
begin

text \<open>
  What canonicalization promises: an abstract canonical form \<open>canon\<close>, of which \<open>jcs_write\<close> is the
  printed text (a functional refinement), the decoder as the inverse of the printer on canonical
  values, and from these the idempotence of \<^verbatim>\<open>CanonicalizeJSON\<close>, its independence of the
  order of members, and that equal canonical texts stand for equal canonical values.
\<close>

section \<open>Member order\<close>

lemma units_less_iff: "units_less x y \<longleftrightarrow> x < y"
  by (induction x arbitrary: y; rename_tac y; case_tac y) auto

lemma bytes_less_units: "bytes_less a b \<longleftrightarrow> units_less (map of_char a) (map of_char b)"
  by (induction a b rule: bytes_less.induct) (auto simp: neq_Nil_conv)

lemma isASCII_is_ascii: "isASCII s \<longleftrightarrow> is_ascii s"
  by (simp add: isASCII_def is_ascii_def not_le)

text \<open>The fast path for ASCII keys agrees with the comparison of UTF-16 code units.\<close>

lemma lessUTF16_iff: "lessUTF16 a b \<longleftrightarrow> utf16 (runes a) < utf16 (runes b)"
  by (simp add: lessUTF16_def isASCII_is_ascii bytes_less_units utf16_ascii units_less_iff)

abbreviation key_units :: "string \<times> 'a \<Rightarrow> nat list" where
  "key_units m \<equiv> utf16 (runes (fst m))"

lemma insert_member_insort: "insert_member m ms = insort_key key_units m ms"
  by (induction ms) (auto simp: lessUTF16_iff not_le)

lemma sortUTF16_sort: "sortUTF16 ms = sort_key key_units ms"
  by (induction ms) (simp_all add: insert_member_insort)

definition wf_keys :: "string list \<Rightarrow> bool" where
  "wf_keys ks \<longleftrightarrow> distinct ks \<and> list_all valid_utf8 ks"

lemma key_units_inj: "wf_keys (map fst ms) \<Longrightarrow> inj_on key_units (set ms)"
proof (rule inj_onI)
  fix x y assume wf: "wf_keys (map fst ms)" and xy: "x \<in> set ms" "y \<in> set ms" "key_units x = key_units y"
  then have "runes (fst x) = runes (fst y)" using utf16_inj runes_valid by blast
  moreover have "valid_utf8 (fst x)" "valid_utf8 (fst y)" using wf xy by (auto simp: wf_keys_def list_all_iff)
  ultimately have "fst x = fst y" using valid_utf8_inj by blast
  then show "x = y" using wf xy by (auto simp: wf_keys_def distinct_map dest: inj_onD)
qed

lemma sortUTF16_perm:
  assumes "wf_keys (map fst ms)" "mset ms = mset ms'"
  shows "sortUTF16 ms = sortUTF16 ms'"
  using assms unfolding sortUTF16_sort
  by (intro sort_key_inj_key_eq key_units_inj) simp_all

lemma sortUTF16_sorted: "sorted (map key_units ms) \<Longrightarrow> sortUTF16 ms = ms"
  by (simp add: sortUTF16_sort sort_key_id_if_sorted)

lemma sorted_sortUTF16: "sorted (map key_units (sortUTF16 ms))"
  by (simp add: sortUTF16_sort)

lemma sortUTF16_keys: "wf_keys (map fst ms) \<Longrightarrow> wf_keys (map fst (sortUTF16 ms))"
proof -
  have "mset (map fst (sortUTF16 ms)) = mset (map fst ms)" by (simp add: sortUTF16_sort)
  then show "wf_keys (map fst ms) \<Longrightarrow> ?thesis"
    by (metis wf_keys_def list_all_iff mset_eq_setD mset_eq_imp_distinct_iff)
qed

section \<open>The canonical value\<close>

text \<open>The canonical value of a document: numbers rewritten, members sorted.\<close>

function canon :: "json \<Rightarrow> json result" where
  "canon JNull = Inr JNull"
| "canon (JBool b) = Inr (JBool b)"
| "canon (JString s) = Inr (JString s)"
| "canon (JNumber l) = bindR (formatNumber l) (\<lambda>l'. Inr (JNumber l'))"
| "canon (JArray vs) = bindR (mapR canon vs) (\<lambda>ws. Inr (JArray ws))"
| "canon (JObject ms) =
     bindR (mapR (\<lambda>(k, v). bindR (canon v) (\<lambda>w. Inr (k, w))) (sortUTF16 ms)) (\<lambda>ws. Inr (JObject ws))"
  by pat_completeness auto
termination
  by (relation "measure size") (auto simp: less_Suc_eq_le size_list_estimation' member_size)

text \<open>The text of a canonical value.\<close>

fun render :: "json \<Rightarrow> string" where
  "render JNull = ''null''"
| "render (JBool b) = (if b then ''true'' else ''false'')"
| "render (JString s) = writeString s"
| "render (JNumber l) = l"
| "render (JArray vs) = ''['' @ Join (map render vs) '','' @ '']''"
| "render (JObject ms) = ''{'' @ Join (map (\<lambda>(k, v). writeString k @ '':'' @ render v) ms) '','' @ ''}''"

lemma mapR_bindR:
  "(\<And>x. x \<in> set xs \<Longrightarrow> f x = bindR (g x) (\<lambda>y. Inr (h y))) \<Longrightarrow>
   mapR f xs = bindR (mapR g xs) (\<lambda>ys. Inr (map h ys))"
proof (induction xs)
  case (Cons x xs)
  then have IH: "mapR f xs = bindR (mapR g xs) (\<lambda>ys. Inr (map h ys))" by simp
  show ?case using Cons.prems [of x] by (cases "g x"; cases "mapR g xs") (simp_all add: IH)
qed simp

lemma bindR_assoc: "bindR (bindR m f) g = bindR m (\<lambda>x. bindR (f x) g)"
  by (cases m) simp_all

lemma jcs_write_canon: "jcs_write v = bindR (canon v) (\<lambda>w. Inr (render w))"
proof (induction v rule: jcs_write.induct)
  case (4 l)
  then show ?case by (cases "formatNumber l") simp_all
next
  case (5 vs)
  then have "mapR jcs_write vs = bindR (mapR canon vs) (\<lambda>ys. Inr (map render ys))" by (intro mapR_bindR) auto
  then show ?case by (simp add: bindR_assoc)
next
  case (6 ms)
  have "mapR (\<lambda>(k, v). bindR (jcs_write v) (\<lambda>w. Inr (writeString k @ '':'' @ w))) (sortUTF16 ms) =
      bindR (mapR (\<lambda>(k, v). bindR (canon v) (\<lambda>w. Inr (k, w))) (sortUTF16 ms))
        (\<lambda>ys. Inr (map (\<lambda>(k, v). writeString k @ '':'' @ render v) ys))"
  proof (rule mapR_bindR)
    fix x assume x: "x \<in> set (sortUTF16 ms)"
    obtain k v where kv: "x = (k, v)" by fastforce
    have "jcs_write v = bindR (canon v) (\<lambda>w. Inr (render w))" using 6 [OF x] kv by simp
    then show "(case x of (k, v) \<Rightarrow> bindR (jcs_write v) (\<lambda>w. Inr (writeString k @ '':'' @ w))) =
        bindR (case x of (k, v) \<Rightarrow> bindR (canon v) (\<lambda>w. Inr (k, w)))
          (\<lambda>y. Inr (case y of (k, v) \<Rightarrow> writeString k @ '':'' @ render v))"
      by (simp add: kv bindR_assoc)
  qed
  then show ?case by (simp add: bindR_assoc)
qed simp_all

section \<open>Number tokens\<close>

text \<open>The grammar of JSON numbers: an integer part without a leading zero, a fraction, an
  exponent.\<close>

definition int_part :: "string \<Rightarrow> bool" where
  "int_part s \<longleftrightarrow> s = ''0'' \<or> (s \<noteq> [] \<and> digits s \<and> hd s \<noteq> CHR ''0'')"

definition frac_part :: "string \<Rightarrow> bool" where
  "frac_part s \<longleftrightarrow> s = [] \<or> (\<exists>d. s = CHR ''.'' # d \<and> d \<noteq> [] \<and> digits d)"

definition exp_part :: "string \<Rightarrow> bool" where
  "exp_part s \<longleftrightarrow> s = [] \<or>
     (\<exists>c d. s = CHR ''e'' # c # d \<and> (c = CHR ''+'' \<or> c = CHR ''-'') \<and> d \<noteq> [] \<and> digits d)"

definition number_text :: "string \<Rightarrow> bool" where
  "number_text s \<longleftrightarrow> (\<exists>neg i f e. s = (if neg then ''-'' else []) @ i @ f @ e \<and>
     int_part i \<and> frac_part f \<and> exp_part e)"

lemma number_textI:
  assumes "int_part i" "frac_part f" "exp_part e"
  shows "number_text ((if neg then ''-'' else []) @ i @ f @ e)"
  unfolding number_text_def
  by (rule exI [of _ neg], rule exI [of _ i], rule exI [of _ f], rule exI [of _ e]) (use assms in simp)

text \<open>The next character cannot continue a number.\<close>

definition stops :: "string \<Rightarrow> bool" where
  "stops s \<longleftrightarrow> s = [] \<or> \<not> (is_digit (hd s) \<or> hd s = CHR ''.'' \<or> exp_mark (hd s))"

lemma stops_delims [simp]: "stops []" "stops (CHR '','' # s)" "stops (CHR '']'' # s)" "stops (CHR ''}'' # s)"
  by (simp_all add: stops_def is_digit_def exp_mark_def)

lemma lex_digits1_append:
  assumes "d \<noteq> []" "digits d" "r = [] \<or> \<not> is_digit (hd r)"
  shows "lex_digits1 (d @ r) = Some (d, r)"
proof -
  have "\<forall>c \<in> set d. is_digit c" using assms(2) by (simp add: digits_def list_all_iff)
  then have "takeWhile is_digit (d @ r) = d" "dropWhile is_digit (d @ r) = r"
    using assms(3) by (cases r; simp add: takeWhile_append2 dropWhile_append2)+
  then show ?thesis using assms(1,2) by (cases d) (auto simp: lex_digits1_def digits_def)
qed

lemma lex_exp_append: "exp_part e \<Longrightarrow> stops r \<Longrightarrow> lex_exp (e @ r) = Some (e, r)"
proof -
  assume e: "exp_part e" and r: "stops r"
  have dr: "r = [] \<or> \<not> is_digit (hd r)" using r by (auto simp: stops_def)
  show ?thesis
  proof (cases "e = []")
    case True
    with r show ?thesis by (cases r) (auto simp: lex_exp_def stops_def exp_mark_def)
  next
    case False
    with e obtain c d where "e = CHR ''e'' # c # d" "c = CHR ''+'' \<or> c = CHR ''-''" "d \<noteq> []" "digits d"
      by (auto simp: exp_part_def)
    with lex_digits1_append [OF _ _ dr] show ?thesis by (auto simp: lex_exp_def)
  qed
qed

lemma exp_part_hd: "exp_part e \<Longrightarrow> stops r \<Longrightarrow>
  e @ r = [] \<or> \<not> is_digit (hd (e @ r)) \<and> hd (e @ r) \<noteq> CHR ''.''"
  by (cases "e = []") (auto simp: exp_part_def stops_def)

lemma lex_frac_append: "frac_part f \<Longrightarrow> r = [] \<or> \<not> is_digit (hd r) \<and> hd r \<noteq> CHR ''.'' \<Longrightarrow>
  lex_frac (f @ r) = Some (f, r)"
proof -
  assume f: "frac_part f" and r: "r = [] \<or> \<not> is_digit (hd r) \<and> hd r \<noteq> CHR ''.''"
  show ?thesis
  proof (cases "f = []")
    case True
    with r show ?thesis by (cases r) (auto simp: lex_frac_def)
  next
    case False
    with f obtain d where "f = CHR ''.'' # d" "d \<noteq> []" "digits d" by (auto simp: frac_part_def)
    with r lex_digits1_append [of d r] show ?thesis by (auto simp: lex_frac_def)
  qed
qed

lemma lex_int_append: "int_part i \<Longrightarrow> i = ''0'' \<or> r = [] \<or> \<not> is_digit (hd r) \<Longrightarrow> lex_int (i @ r) = Some (i, r)"
proof -
  assume i: "int_part i" and r: "i = ''0'' \<or> r = [] \<or> \<not> is_digit (hd r)"
  show ?thesis
  proof (cases "i = ''0''")
    case False
    then have "i \<noteq> []" "digits i" "hd i \<noteq> CHR ''0''" using i by (auto simp: int_part_def)
    with False r lex_digits1_append [of i r] show ?thesis by (cases i) (auto simp: lex_int_def)
  qed (simp add: lex_int_def)
qed

lemma HasPrefix_Cons: "HasPrefix (c # s) (d # p) \<longleftrightarrow> c = d \<and> HasPrefix s p"
  by (auto simp: HasPrefix_def)

lemma int_part_hd: "int_part i \<Longrightarrow> \<exists>c t. i = c # t \<and> is_digit c"
proof (cases "i = ''0''")
  case False
  assume "int_part i"
  then have "i \<noteq> []" "digits i" using False by (simp_all add: int_part_def)
  then show ?thesis by (cases i) (simp_all add: digits_def)
qed (simp add: is_digit_def)

lemma lex_number_text:
  assumes "number_text l" "stops r"
  shows "lex_number (l @ r) = Some (l, r)"
proof -
  obtain neg i f e where l: "l = (if neg then ''-'' else []) @ i @ f @ e"
    and p: "int_part i" "frac_part f" "exp_part e"
    using assms(1) unfolding number_text_def by (elim exE conjE) (rule that)
  obtain c t where c: "i = c # t" "is_digit c" using int_part_hd [OF p(1)] by blast
  have "f @ e @ r = [] \<or> \<not> is_digit (hd (f @ e @ r))"
  proof (cases "f = []")
    case False
    then obtain d where "f = CHR ''.'' # d" using p(2) unfolding frac_part_def by blast
    then show ?thesis by simp
  qed (use exp_part_hd [OF p(3) assms(2)] in auto)
  then have "lex_int (i @ f @ e @ r) = Some (i, f @ e @ r)"
    by (rule lex_int_append [OF p(1) disjI2])
  moreover have "lex_frac (f @ e @ r) = Some (f, e @ r)"
    using lex_frac_append [OF p(2) exp_part_hd [OF p(3) assms(2)]] .
  moreover have "lex_exp (e @ r) = Some (e, r)" using lex_exp_append [OF p(3) assms(2)] .
  moreover have "HasPrefix (l @ r) ''-'' = neg" using c not_minus [OF c(2)] by (simp add: l HasPrefix_def)
  ultimately show ?thesis by (simp add: lex_number_def l)
qed

lemma format_body_text:
  assumes ds: "digits ds" "ds \<noteq> []" "hd ds \<noteq> CHR ''0''"
  shows "number_text ((if neg then ''-'' else []) @ format_body ds e)"
proof -
  define k n where kn: "k = int (length ds)" "n = e + 1"
  have ip: "int_part ds" "int_part ''0''" using ds by (auto simp: int_part_def)
  have tk: "int_part (take m ds)" if "0 < m" for m
    using ds that by (auto simp: int_part_def hd_take)
  note num = number_textI [where neg = neg]
  have nil: "frac_part []" "exp_part []" by (simp_all add: frac_part_def exp_part_def)
  have fr: "frac_part (CHR ''.'' # d)" if "digits d" "d \<noteq> []" for d
    using that by (simp add: frac_part_def)
  have ex: "exp_part (''e'' @ (if b then ''+'' else ''-'') @ Itoa (abs m))" for b m
    using nat_digits_all [of "nat (abs m)"] by (auto simp: exp_part_def Itoa_def digits_def)
  consider "k \<le> n" "n \<le> 21" | "n < k" "0 < n" "n \<le> 21" | "- 6 < n" "n \<le> 0" "n < k"
    | "\<not> (k \<le> n \<and> n \<le> 21)" "\<not> (0 < n \<and> n \<le> 21)" "\<not> (- 6 < n \<and> n \<le> 0)"
    using kn(1) by linarith
  then show ?thesis
  proof cases
    case 1
    have "int_part (ds @ replicate (nat (n - k)) CHR ''0'')" using ds by (auto simp: int_part_def)
    from num [OF this nil] 1 show ?thesis by (simp add: format_body_def kn [symmetric])
  next
    case 2
    then have "drop (nat n) ds \<noteq> []" using kn(1) by simp
    with num [OF tk [of "nat n"] fr [of "drop (nat n) ds"] nil(2)] 2 ds(1)
    show ?thesis by (simp add: format_body_def kn [symmetric])
  next
    case 3
    have "digits (replicate (nat (- n)) CHR ''0'' @ ds)" using ds(1) by simp
    with num [OF ip(2) fr [of "replicate (nat (- n)) CHR ''0'' @ ds"] nil(2)] 3 ds(2)
    show ?thesis by (simp add: format_body_def kn [symmetric])
  next
    case 4
    then have b: "format_body ds e = (if k = 1 then ds else take 1 ds @ ''.'' @ drop 1 ds) @
        ''e'' @ (if n - 1 \<ge> 0 then ''+'' else ''-'') @ Itoa (abs (n - 1))"
      unfolding format_body_def kn(1,2) [symmetric] Let_def by auto
    show ?thesis
    proof (cases "k = 1")
      case True
      then show ?thesis using num [OF ip(1) nil(1) ex] unfolding b by simp
    next
      case False
      then have "drop 1 ds \<noteq> []" using ds(2) kn(1) by (cases ds) auto
      then show ?thesis
        using num [OF tk [of 1] fr [of "drop 1 ds"] ex [of "n - 1 \<ge> 0" "n - 1"]] ds(1) False
        unfolding b by simp
    qed
  qed
qed

lemma formatNumber_text: "formatNumber l = Inr s \<Longrightarrow> number_text s"
proof -
  assume "formatNumber l = Inr s"
  then obtain neg f where f: "ParseFloat l = Some (neg, f)" "s = formatFloat (neg, f)"
    by (auto simp: formatNumber_def split: option.splits)
  show ?thesis
  proof (cases "fst f = 0")
    case True
    have "number_text ((if False then ''-'' else []) @ ''0'' @ [] @ [])"
      by (rule number_textI) (simp_all add: int_part_def frac_part_def exp_part_def)
    then show ?thesis using True f by (simp add: formatFloat_eq)
  next
    case False
    obtain ds e where e: "FormatFloat_e f = (ds, e)" by fastforce
    have "digits ds" "ds \<noteq> []" "hd ds \<noteq> CHR ''0''"
      using FormatFloat_e_spec [OF ParseFloat_valid [OF f(1)] False e] by (auto simp: digits_def)
    then show ?thesis using format_body_text False f(2) e by (simp add: formatFloat_eq)
  qed
qed

section \<open>The decoder inverts the printer\<close>

text \<open>Values whose strings are valid and whose objects have each key once, as the decoder
  produces them.\<close>

fun wf_json :: "json \<Rightarrow> bool" where
  "wf_json (JString s) = valid_utf8 s"
| "wf_json (JArray vs) = list_all wf_json vs"
| "wf_json (JObject ms) = (wf_keys (map fst ms) \<and> list_all (\<lambda>(k, v). wf_json v) ms)"
| "wf_json _ = True"

text \<open>Canonical values: well-formed, numbers in their shortest form, members sorted.\<close>

fun canonical :: "json \<Rightarrow> bool" where
  "canonical (JString s) = valid_utf8 s"
| "canonical (JNumber l) = (formatNumber l = Inr l)"
| "canonical (JArray vs) = list_all canonical vs"
| "canonical (JObject ms) =
     (wf_keys (map fst ms) \<and> sorted (map key_units ms) \<and> list_all (\<lambda>(k, v). canonical v) ms)"
| "canonical _ = True"

lemma depth_elem: "v \<in> set vs \<Longrightarrow> depth v < depth (JArray vs)"
  by (induction vs) auto

lemma depth_member: "(k, v) \<in> set ms \<Longrightarrow> depth v < depth (JObject ms)"
  by (induction ms) auto

lemma ws_delims [simp]: "\<not> ws CHR '',''" "\<not> ws CHR '']''" "\<not> ws CHR ''}''" "\<not> ws CHR ''{''" "\<not> ws CHR ''[''"
    "\<not> ws CHR '':''" "\<not> ws CHR 0x22" "\<not> ws CHR ''t''" "\<not> ws CHR ''f''" "\<not> ws CHR ''n''" "\<not> ws CHR ''-''"
  by (simp_all add: ws_def)

lemma digit_plain: "is_digit c \<Longrightarrow> \<not> ws c \<and> c \<notin> {CHR ''{'', CHR ''['', CHR 0x22, CHR ''t'', CHR ''f'', CHR ''n''}"
  by (auto simp: ws_def is_digit_def)

lemma number_text_hd: "number_text l \<Longrightarrow> \<exists>c t. l = c # t \<and> (is_digit c \<or> c = CHR ''-'')"
  unfolding number_text_def by (auto dest!: int_part_hd)


lemma parse_number:
  assumes "number_text l" "stops r"
  shows "parse_value d (l @ r) = Some (JNumber l, r)"
proof -
  obtain c t where c: "l = c # t" "is_digit c \<or> c = CHR ''-''" using number_text_hd assms(1) by blast
  then have "\<not> ws c" "c \<notin> {CHR ''{'', CHR ''['', CHR 0x22, CHR ''t'', CHR ''f'', CHR ''n''}"
    using digit_plain by auto
  then show ?thesis
    using lex_number_text [OF assms] c(1) by (simp add: parse_value.simps HasPrefix_Cons)
qed

lemma writeString_Cons: "writeString s = CHR 0x22 # tl (writeString s)"
  by (simp add: writeString_def)

lemma parse_string: "valid_utf8 s \<Longrightarrow> parse_value d (writeString s @ r) = Some (JString s, r)"
proof -
  assume v: "valid_utf8 s"
  obtain t where t: "writeString s = CHR 0x22 # t" by (simp add: writeString_def)
  have "parse_chars (t @ r) = Some (s, r)" using parse_writeString [OF v, of r] by (simp add: t)
  then show ?thesis by (simp add: t parse_value.simps)
qed

text \<open>The first character of a printed value closes no bracket.\<close>

lemma render_hd: "canonical v \<Longrightarrow> \<exists>c t. render v = c # t \<and> \<not> ws c \<and> c \<noteq> CHR '']'' \<and> c \<noteq> CHR ''}''"
proof (cases v)
  case (JNumber l)
  assume "canonical v"
  with JNumber have "number_text l" using formatNumber_text by auto
  then show ?thesis using number_text_hd [of l] digit_plain JNumber by (fastforce simp: is_digit_def)
qed (auto simp: writeString_def)

lemma parse_elems_render:
  assumes "vs \<noteq> []"
    and "\<And>v r. v \<in> set vs \<Longrightarrow> stops r \<Longrightarrow> parse_value d (render v @ r) = Some (v, r)"
  shows "parse_elems d (Join (map render vs) '','' @ '']'' @ r) = Some (vs, r)"
  using assms
proof (induction vs rule: induct_list012)
  case (2 v)
  have p: "parse_value d (render v @ CHR '']'' # r) = Some (v, CHR '']'' # r)" using 2 by simp
  show ?case using parse_shorter(1) [OF p] p by (simp add: parse_elems.simps)
next
  case (3 v w vs)
  define rest where "rest = Join (map render (w # vs)) '','' @ '']'' @ r"
  have p: "parse_value d (render v @ CHR '','' # rest) = Some (v, CHR '','' # rest)" using 3(4) by simp
  have "parse_elems d rest = Some (w # vs, r)" unfolding rest_def using 3 by simp
  then have "parse_elems d (render v @ CHR '','' # rest) = Some (v # w # vs, r)"
    using parse_shorter(1) [OF p] p by (simp add: parse_elems.simps [of d "render v @ _"])
  then show ?case by (simp add: rest_def)
qed simp

lemma upsert_new: "k \<notin> fst ` set m \<Longrightarrow> upsert k v m = m @ [(k, v)]"
  by (induction m) auto

abbreviation render_member :: "string \<times> json \<Rightarrow> string" where
  "render_member \<equiv> (\<lambda>(k, v). writeString k @ '':'' @ render v)"

lemma parse_members_render:
  assumes "ms \<noteq> []" "wf_keys (map fst (acc @ ms))"
    and "\<And>k v r. (k, v) \<in> set ms \<Longrightarrow> stops r \<Longrightarrow> parse_value d (render v @ r) = Some (v, r)"
  shows "parse_members d acc (Join (map render_member ms) '','' @ ''}'' @ r) = Some (acc @ ms, r)"
  using assms
proof (induction ms arbitrary: acc)
  case (Cons m ms)
  obtain k v where m: "m = (k, v)" by fastforce
  have k: "valid_utf8 k" "k \<notin> fst ` set acc" using Cons.prems(2) m by (auto simp: wf_keys_def)
  have step: "parse_members d acc (render_member m @ c # rest) =
      (if c = CHR '','' then parse_members d (acc @ [m]) rest else Some (acc @ [m], rest))"
    if c: "c = CHR '','' \<or> c = CHR ''}''" for c rest
  proof -
    have p: "parse_value d (render v @ c # rest) = Some (v, c # rest)"
      using c Cons.prems(3) [of k v "c # rest"] m by auto
    obtain t where t: "writeString k = CHR 0x22 # t" by (simp add: writeString_def)
    have "parse_chars (t @ CHR '':'' # render v @ c # rest) = Some (k, CHR '':'' # render v @ c # rest)"
      using parse_writeString [OF k(1), of "CHR '':'' # render v @ c # rest"] by (simp add: t)
    then show ?thesis
      using c p parse_shorter(1) [OF p] k(2)
      by (auto simp: m t parse_members.simps [of d acc "CHR 0x22 # _"] upsert_new)
  qed
  show ?case
  proof (cases ms)
    case Nil
    then show ?thesis using step [of "CHR ''}''" r] by simp
  next
    case (Cons m' ms')
    have "parse_members d (acc @ [m]) (Join (map render_member ms) '','' @ ''}'' @ r) = Some ((acc @ [m]) @ ms, r)"
      using Cons.prems Cons by (intro Cons.IH) auto
    then show ?thesis using step [of "CHR '',''" "Join (map render_member ms) '','' @ ''}'' @ r"] Cons by simp
  qed
qed simp

lemma parse_render:
  "canonical v \<Longrightarrow> d + depth v \<le> maxNestingDepth \<Longrightarrow> stops r \<Longrightarrow> parse_value d (render v @ r) = Some (v, r)"
proof (induction v arbitrary: d r)
  case (JNumber l)
  then show ?case using parse_number formatNumber_text by simp
next
  case (JString s)
  then show ?case using parse_string by simp
next
  case (JArray vs)
  show ?case
  proof (cases vs)
    case Nil
    then show ?thesis using JArray by (simp add: parse_value.simps)
  next
    case (Cons v vs')
    have elems: "parse_elems (d + 1) (Join (map render vs) '','' @ '']'' @ r) = Some (vs, r)"
    proof (rule parse_elems_render)
      fix w r' assume w: "w \<in> set vs" "stops r'"
      show "parse_value (d + 1) (render w @ r') = Some (w, r')"
        using JArray w depth_elem [OF w(1)] by (intro JArray.IH) (auto simp: list_all_iff)
    qed (simp add: Cons)
    obtain c t where "render v = c # t" "\<not> ws c" "c \<noteq> CHR '']''"
      using render_hd [of v] JArray(2) Cons by auto
    then obtain t' where "Join (map render vs) '','' @ '']'' @ r = c # t'" by (cases vs') (simp_all add: Cons)
    then show ?thesis
      using elems \<open>\<not> ws c\<close> \<open>c \<noteq> _\<close> JArray.prems(2) by (simp add: parse_value.simps)
  qed
next
  case (JObject ms)
  show ?case
  proof (cases ms)
    case Nil
    then show ?thesis using JObject by (simp add: parse_value.simps)
  next
    case (Cons m ms')
    have members: "parse_members (d + 1) [] (Join (map render_member ms) '','' @ ''}'' @ r) = Some ([] @ ms, r)"
    proof (rule parse_members_render)
      fix k w r' assume w: "(k, w) \<in> set ms" "stops r'"
      show "parse_value (d + 1) (render w @ r') = Some (w, r')"
        using JObject w depth_member [OF w(1)] by (intro JObject.IH [OF w(1)]) (auto simp: list_all_iff)
    qed (use Cons JObject.prems(1) in simp_all)
    obtain t where "Join (map render_member ms) '','' @ ''}'' @ r = CHR 0x22 # t"
      by (cases m; cases ms') (auto simp: Cons writeString_def)
    then show ?thesis using members JObject.prems(2) by (simp add: parse_value.simps)
  qed
qed (simp_all add: parse_value.simps HasPrefix_def)

section \<open>Canonicalization\<close>

lemma mapR_Inr: "mapR f xs = Inr ys \<longleftrightarrow> list_all2 (\<lambda>x y. f x = Inr y) xs ys"
  by (induction xs arbitrary: ys) (auto simp: bindR_Inr list_all2_Cons1)

lemma depth_list_cong: "list_all2 (\<lambda>v w. depth v = depth w) vs us \<Longrightarrow> depth (JArray vs) = depth (JArray us)"
  by (induction vs us rule: list_all2_induct) auto

lemma depth_members_eq: "depth (JObject ms) = Suc (foldr (max \<circ> (depth \<circ> snd)) ms 0)"
  by (induction ms) auto

lemma foldr_max_mset: "mset xs = mset ys \<Longrightarrow> foldr (max \<circ> f) xs (0 :: nat) = foldr (max \<circ> f) ys 0"
proof -
  have le: "foldr (max \<circ> f) xs 0 \<le> n \<longleftrightarrow> (\<forall>x \<in> set xs. f x \<le> n)" for xs n
    by (induction xs) simp_all
  show "mset xs = mset ys \<Longrightarrow> ?thesis" by (rule antisym) (metis le mset_eq_setD order_refl)+
qed

lemma depth_sort: "depth (JObject (sortUTF16 ms)) = depth (JObject ms)"
proof -
  have "mset (sortUTF16 ms) = mset ms" by (simp add: sortUTF16_sort)
  from foldr_max_mset [OF this, of "depth \<circ> snd"] show ?thesis
    unfolding depth_members_eq by (rule arg_cong)
qed

lemma depth_members_cong:
  "list_all2 (\<lambda>m n. fst m = fst n \<and> depth (snd m) = depth (snd n)) ms ns \<Longrightarrow> depth (JObject ms) = depth (JObject ns)"
  by (induction ms ns rule: list_all2_induct) auto

text \<open>The canonical value is canonical, of the same depth, and unchanged by another pass.\<close>

lemma canon_canonical: "wf_json v \<Longrightarrow> canon v = Inr w \<Longrightarrow> canonical w \<and> depth w = depth v"
proof (induction v arbitrary: w rule: canon.induct)
  case (4 l)
  then show ?case using formatNumber_idem by (auto simp: bindR_Inr)
next
  case (5 vs)
  then obtain us where w: "w = JArray us" and all: "list_all2 (\<lambda>v w. canon v = Inr w) vs us"
    by (auto simp: bindR_Inr mapR_Inr)
  have "list_all2 (\<lambda>v w. canonical w \<and> depth v = depth w) vs us"
    using 5 by (intro list.rel_mono_strong [OF all]) (auto simp: list_all_iff)
  then have "list_all canonical us" "list_all2 (\<lambda>v w. depth v = depth w) vs us"
    by (auto simp: list_all2_conv_all_nth list_all_length)
  then show ?case using depth_list_cong [of vs us] by (simp add: w)
next
  case (6 ms)
  let ?ms = "sortUTF16 ms"
  from 6(3) obtain us where w: "w = JObject us"
    and all: "list_all2 (\<lambda>m n. (case m of (k, v) \<Rightarrow> bindR (canon v) (\<lambda>x. Inr (k, x))) = Inr n) ?ms us"
    by (auto simp: bindR_Inr mapR_Inr)
  have good: "list_all2 (\<lambda>m n. fst m = fst n \<and> canonical (snd n) \<and> depth (snd m) = depth (snd n)) ?ms us"
  proof (rule list.rel_mono_strong [OF all])
    fix m n assume m: "m \<in> set ?ms" and e: "(case m of (k, v) \<Rightarrow> bindR (canon v) (\<lambda>x. Inr (k, x))) = Inr n"
    obtain k v where kv: "m = (k, v)" by fastforce
    then obtain x where x: "canon v = Inr x" "n = (k, x)" using e by (auto simp: bindR_Inr)
    have "wf_json v" using 6(2) m kv by (auto simp: list_all_iff)
    then show "fst m = fst n \<and> canonical (snd n) \<and> depth (snd m) = depth (snd n)"
      using 6(1) [OF m kv [symmetric]] x kv by simp
  qed
  then have "map fst us = map fst ?ms"
    by (auto simp: list_all2_conv_all_nth intro!: nth_equalityI)
  moreover then have "map key_units us = map key_units ?ms"
    by (metis (mono_tags, lifting) comp_apply list.map_comp map_eq_conv)
  moreover have "list_all (\<lambda>(k, v). canonical v) us" using good
    by (auto simp: list_all2_conv_all_nth list_all_length split: prod.splits)
  moreover have "depth (JObject ?ms) = depth (JObject us)"
    using good by (intro depth_members_cong) (auto elim: list_all2_mono)
  ultimately show ?case
    using 6(2) sortUTF16_keys [of ms] sorted_sortUTF16 [of ms] by (simp add: w depth_sort del: depth.simps)
qed auto

lemma canon_id: "canonical v \<Longrightarrow> canon v = Inr v"
proof (induction v rule: canon.induct)
  case (5 vs)
  then have "mapR canon vs = Inr vs" by (auto simp: mapR_Inr list_all2_same list_all_iff)
  then show ?case by simp
next
  case (6 ms)
  then have s: "sortUTF16 ms = ms" by (intro sortUTF16_sorted) simp
  have "mapR (\<lambda>(k, v). bindR (canon v) (\<lambda>w. Inr (k, w))) ms = Inr ms"
    using 6 s by (auto simp: mapR_Inr list_all2_same list_all_iff)
  then show ?case by (simp add: s)
qed simp_all

section \<open>What the decoder produces\<close>

lemma wf_upsert:
  assumes "wf_json (JObject m)" "valid_utf8 k" "wf_json v"
  shows "wf_json (JObject (upsert k v m))"
proof -
  have "fst ` set (upsert k v m) = insert k (fst ` set m)" for m
    by (induction k v m rule: upsert.induct) auto
  then show ?thesis
    using assms by (induction m) (auto simp: wf_keys_def)
qed

lemma depth_upsert: "depth (JObject (upsert k v m)) \<le> max (Suc (depth v)) (depth (JObject m))"
  by (induction m) auto

lemma parse_wf:
  "parse_value d s = Some (v, r) \<Longrightarrow> wf_json v \<and> d + depth v \<le> max d maxNestingDepth"
  "parse_elems d s = Some (vs, r) \<Longrightarrow> list_all wf_json vs \<and> d + depth (JArray vs) \<le> Suc (max d maxNestingDepth)"
  "parse_members d m s = Some (m', r) \<Longrightarrow> wf_json (JObject m) \<Longrightarrow> d + depth (JObject m) \<le> Suc (max d maxNestingDepth) \<Longrightarrow>
   wf_json (JObject m') \<and> d + depth (JObject m') \<le> Suc (max d maxNestingDepth)"
proof (induction d s and d s and d m s arbitrary: v r and vs r and m' r
    rule: parse_value_parse_elems_parse_members.induct)
  case (1 d s)
  obtain c t where ct: "skip_ws s = c # t"
    using 1(3) by (cases "skip_ws s") (simp_all add: parse_value.simps [of d s])
  note eq = 1(3) [unfolded parse_value.simps [of d s] ct list.case]
  show ?case
  proof (cases "c = CHR ''{'' \<or> c = CHR ''[''")
    case True
    then consider "v = JObject [] \<or> v = JArray []" "d < maxNestingDepth"
      | m where "parse_members (d + 1) [] t = Some (m, r)" "v = JObject m" "c = CHR ''{''" "\<not> maxNestingDepth \<le> d"
          "\<not> (skip_ws t \<noteq> [] \<and> hd (skip_ws t) = CHR ''}'')"
      | vs where "parse_elems (d + 1) t = Some (vs, r)" "v = JArray vs" "c \<noteq> CHR ''{''" "c = CHR ''[''"
          "\<not> maxNestingDepth \<le> d" "\<not> (skip_ws t \<noteq> [] \<and> hd (skip_ws t) = CHR '']'')"
      using eq by (auto split: if_splits option.splits)
    then show ?thesis
    proof cases
      case 1
      then show ?thesis by (auto simp: wf_keys_def)
    next
      case 2
      then show ?thesis using "1"(1) [OF ct 2(3) 2(4) 2(5) 2(1)] by (simp add: wf_keys_def)
    next
      case 3
      then show ?thesis using "1"(2) [OF ct 3(3) 3(4) 3(5) 3(6) 3(1)] by simp
    qed
  next
    case False
    then show ?thesis
      using eq parse_chars_valid valid_utf8_utf8
      by (fastforce split: if_splits option.splits)
  qed
next
  case (2 d s)
  from 2(3) obtain w u c t where *: "parse_value d s = Some (w, u)" "length u < length s"
      "skip_ws u = c # t"
    unfolding parse_elems.simps [of d s] by (auto split: option.splits if_splits list.splits)
  have w: "wf_json w \<and> d + depth w \<le> max d maxNestingDepth" using 2(1) [OF *(1)] .
  show ?case
  proof (cases "c = CHR '',''")
    case True
    then obtain us where us: "parse_elems d t = Some (us, r)" "vs = w # us"
      using 2(3) * unfolding parse_elems.simps [of d s] by (auto split: option.splits)
    then show ?thesis using 2(2) [OF *(1) refl *(2,3) True us(1)] w by auto
  next
    case False
    then have "vs = [w]" using 2(3) * unfolding parse_elems.simps [of d s] by (auto split: if_splits)
    then show ?thesis using w by simp
  qed
next
  case (3 d m s)
  from 3(3) obtain q t k a c u v w e x where *: "skip_ws s = q # t" "q = CHR 0x22"
      "parse_chars t = Some (k, a)" "skip_ws a = c # u" "c = CHR '':''"
      "parse_value d u = Some (v, w)" "length w < length s" "skip_ws w = e # x"
    unfolding parse_members.simps [of d m s]
    by (auto split: option.splits if_splits list.splits)
  have "wf_json v \<and> d + depth v \<le> max d maxNestingDepth" using 3(1) * by blast
  moreover have "valid_utf8 k" using parse_chars_valid [OF *(3)] by auto
  ultimately have up: "wf_json (JObject (upsert k v m))"
      "d + depth (JObject (upsert k v m)) \<le> Suc (max d maxNestingDepth)"
    using 3(4,5) wf_upsert [of m k v] depth_upsert [of k v m] by (auto simp del: depth.simps)
  show ?case
  proof (cases "e = CHR '',''")
    case True
    then have p: "parse_members d (upsert k v m) x = Some (m', r)"
      using 3(3) * unfolding parse_members.simps [of d m s] by simp
    then show ?thesis using 3(2) * True up by blast
  next
    case False
    then have "m' = upsert k v m"
      using 3(3) * unfolding parse_members.simps [of d m s] by (auto split: if_splits)
    then show ?thesis using up by simp
  qed
qed

lemma Decode_wf: "Decode s = Some (v, r) \<Longrightarrow> wf_json v \<and> depth v \<le> maxNestingDepth"
  using parse_wf(1) [of 0 s v r] by (simp add: Decode_def)

section \<open>Properties\<close>

lemma Decode_render:
  "canonical v \<Longrightarrow> depth v \<le> maxNestingDepth \<Longrightarrow> Decode (render v) = Some (v, [])"
  using parse_render [of v 0 "[]"] by (simp add: Decode_def)

lemma Decode_Nil [simp]: "Decode [] = None"
  by (simp add: Decode_def parse_value.simps)

lemma CanonicalizeJSON_Inr:
  "CanonicalizeJSON raw = Inr c \<longleftrightarrow>
   (\<exists>v rest w. Decode raw = Some (v, rest) \<and> Decode rest = None \<and> canon v = Inr w \<and> c = render w)"
  by (auto simp: CanonicalizeJSON_def checkR_Inr jcs_write_canon bindR_Inr simp del: not_None_eq
      split: option.splits)

text \<open>C32: Canonicalization is idempotent: what \<^verbatim>\<open>CanonicalizeJSON\<close> returns is itself accepted and
  returned unchanged, whatever the input document was. So the hash of stored canonical content
  can be recomputed from the stored bytes.\<close>

theorem CanonicalizeJSON_idempotent:
  assumes "CanonicalizeJSON raw = Inr c"
  shows "CanonicalizeJSON c = Inr c"
proof -
  obtain v rest w where v: "Decode raw = Some (v, rest)" "canon v = Inr w" "c = render w"
    using assms by (auto simp: CanonicalizeJSON_Inr)
  then have w: "canonical w" "depth w \<le> maxNestingDepth"
    using Decode_wf [of raw v rest] canon_canonical [of v w] by auto
  then show ?thesis
    using Decode_render [OF w] canon_id [OF w(1)] v(3) by (auto simp: CanonicalizeJSON_Inr)
qed

text \<open>Canonical text determines the document: two documents have the same canonical text
  exactly when they have the same canonical value (numbers as doubles, members sorted).\<close>

theorem CanonicalizeJSON_injective:
  assumes "Decode a = Some (v, r)" "Decode r = None" "Decode b = Some (w, s)" "Decode s = None"
    and "CanonicalizeJSON a = Inr c"
  shows "CanonicalizeJSON b = Inr c \<longleftrightarrow> canon v = canon w"
proof
  obtain v' where v': "canon v = Inr v'" "c = render v'"
    using assms by (auto simp: CanonicalizeJSON_Inr)
  then have cv: "canonical v'" "depth v' \<le> maxNestingDepth"
    using Decode_wf [OF assms(1)] canon_canonical [of v v'] by auto
  {
    assume "CanonicalizeJSON b = Inr c"
    then obtain w' where w': "canon w = Inr w'" "c = render w'"
      using assms(3) by (auto simp: CanonicalizeJSON_Inr)
    then have "canonical w'" "depth w' \<le> maxNestingDepth"
      using Decode_wf [OF assms(3)] canon_canonical [of w w'] by auto
    then have "v' = w'" using Decode_render cv v'(2) w'(2) by (metis Pair_inject option.inject)
    then show "canon v = canon w" using v' w' by simp
  next
    assume "canon v = canon w"
    then show "CanonicalizeJSON b = Inr c" using assms v' by (auto simp: CanonicalizeJSON_Inr)
  }
qed

text \<open>The order in which the members of an object are held does not matter to its canonical
  text, for objects whose keys are distinct and valid UTF-8 (Go's maps have no order, so this is
  what makes the writer deterministic).\<close>

theorem write_member_order:
  assumes "wf_keys (map fst ms)" "mset ms = mset ms'"
  shows "jcs_write (JObject ms) = jcs_write (JObject ms')"
  using sortUTF16_perm [OF assms] by simp

text \<open>A document with unsorted members, white space and a number in another notation.\<close>

definition doc_a :: string where
  "doc_a = ''{ '' @ [CHR 0x22] @ ''b'' @ [CHR 0x22] @ '' : true, '' @ [CHR 0x22] @ ''a'' @ [CHR 0x22] @ '':[null] }''"
definition doc_b :: string where
  "doc_b = ''{'' @ [CHR 0x22] @ ''a'' @ [CHR 0x22] @ '':[null],'' @ [CHR 0x22] @ ''b'' @ [CHR 0x22] @ '':true}''"

text \<open>Reading and printing plain ASCII text, for evaluating the definitions on examples.\<close>

definition plain_char :: "char \<Rightarrow> bool" where
  "plain_char c \<longleftrightarrow> 0x20 \<le> (of_char c :: nat) \<and> (of_char c :: nat) < 0x80 \<and> c \<noteq> CHR 0x22 \<and> c \<noteq> CHR 0x5C"

lemma encode_plain: "plain_char c \<Longrightarrow> encode_rune (of_char c) = [c]"
  by (simp add: plain_char_def encode_rune_def valid_rune_def surrogate_def)

lemma parse_chars_plain:
  "plain_char c \<Longrightarrow> parse_chars (c # s) = map_option (apfst (Cons c)) (parse_chars s)"
  using parse_chars_decode [of c s "of_char c" s] encode_plain [of c]
  by (simp add: plain_char_def parse_char_def decode_rune_def del: parse_chars.simps)

lemma escape_plain: "plain_char c \<Longrightarrow> escape_rune (of_char c) = [c]"
proof -
  assume p: "plain_char c"
  have "of_char c \<noteq> (of_char CHR 0x22 :: nat)" "of_char c \<noteq> (of_char CHR 0x5C :: nat)"
    using p unfolding plain_char_def of_char_eq_iff by blast+
  with p encode_plain [OF p] show ?thesis by (auto simp: escape_rune_def plain_char_def RuneError_def)
qed

lemma writeString_plain: "list_all plain_char s \<Longrightarrow> writeString s = [CHR 0x22] @ s @ [CHR 0x22]"
proof -
  assume p: "list_all plain_char s"
  then have "is_ascii s" by (auto simp: is_ascii_def plain_char_def list_all_iff)
  moreover have "concat (map escape_rune (map of_char s)) = s"
    using p by (induction s) (simp_all add: escape_plain)
  ultimately show ?thesis by (simp add: writeString_def runes_ascii)
qed

lemma parse_chars_quote: "parse_chars (CHR 0x22 # s) = Some ([], s)"
  by simp

declare parse_chars.simps(2) [simp del]

lemmas json_eval = Decode_def parse_chars_quote parse_value.simps parse_elems.simps parse_members.simps parse_chars_plain
  plain_char_def ws_def HasPrefix_def maxNestingDepth_def lessUTF16_def isASCII_def writeString_plain

lemma doc_decodes:
  "Decode doc_a = Some (JObject [(''b'', JBool True), (''a'', JArray [JNull])], [])"
  "Decode doc_b = Some (JObject [(''a'', JArray [JNull]), (''b'', JBool True)], [])"
  by (simp_all add: doc_a_def doc_b_def json_eval)

lemma doc_a_canonical: "CanonicalizeJSON doc_a = Inr doc_b"
  by (simp add: CanonicalizeJSON_def doc_decodes) (simp add: json_eval doc_b_def)

theorem CanonicalizeJSON_idempotent_witness: "CanonicalizeJSON doc_b = Inr doc_b"
  using CanonicalizeJSON_idempotent [OF doc_a_canonical] .

theorem CanonicalizeJSON_injective_witness:
  "CanonicalizeJSON doc_b = Inr doc_b \<longleftrightarrow>
   canon (JObject [(''b'', JBool True), (''a'', JArray [JNull])]) =
   canon (JObject [(''a'', JArray [JNull]), (''b'', JBool True)])"
  using CanonicalizeJSON_injective [OF doc_decodes(1) _ doc_decodes(2) _ doc_a_canonical] by simp

theorem write_member_order_witness:
  "jcs_write (JObject [(''b'', JBool True), (''a'', JNull)]) = jcs_write (JObject [(''a'', JNull), (''b'', JBool True)])"
proof (rule write_member_order)
  have "is_ascii ''a''" "is_ascii ''b''" by (simp_all add: is_ascii_def)
  then show "wf_keys (map fst [(''b'', JBool True), (''a'', JNull)])"
    by (simp add: wf_keys_def valid_utf8_ascii)
qed simp

text \<open>Trailing content is refused only when it starts with another JSON value. Anything else
  after the document, here a stray bracket, makes the second read fail, and the first document is
  returned as if it stood alone.\<close>

theorem trailing_garbage_accepted: "CanonicalizeJSON ''null ] {'' = Inr ''null''"
  by (simp add: CanonicalizeJSON_def json_eval lex_number_def lex_int_def lex_digits1_def is_digit_def)

end
