(* ===== verification/JcsStruct.thy ===== *)
theory JcsStruct
  imports JcsCanonical
begin

text \<open>
  Canonical text of Go structs: when \<^verbatim>\<open>jcs.Canonicalize\<close> succeeds, and that two structs with
  the same canonical text agree in every field. The content hash of an artifact and the chain
  hash of an audit record rest on these lemmas.
\<close>

section \<open>Canonical text of Go values\<close>

text \<open>Values built from Go structs: any strings, but distinct, valid keys.\<close>

fun wf_struct :: "json \<Rightarrow> bool" where
  "wf_struct (JArray vs) = list_all wf_struct vs"
| "wf_struct (JObject ms) = (wf_keys (map fst ms) \<and> list_all (\<lambda>(k, v). wf_struct v) ms)"
| "wf_struct _ = True"

lemma sanitize_string_valid [simp]: "valid_utf8 (sanitize_string s)"
  by (simp add: sanitize_string_def runes_valid)

lemma sanitize_string_id: "valid_utf8 s \<Longrightarrow> sanitize_string s = s"
  by (simp add: sanitize_string_def valid_utf8_def)

lemma sanitize_keys: "wf_keys (map fst ms) \<Longrightarrow> map (\<lambda>(k, v). (sanitize_string k, f v)) ms = map (\<lambda>(k, v). (k, f v)) ms"
  by (auto simp: wf_keys_def list_all_iff sanitize_string_id)

lemma wf_sanitize: "wf_struct v \<Longrightarrow> wf_json (sanitize v)"
proof (induction v rule: sanitize.induct)
  case (3 ms)
  then show ?case
    by (auto simp: sanitize_keys list_all_iff wf_keys_def comp_def case_prod_beta)
qed (auto simp: list_all_iff)

lemma sanitize_wf: "wf_json v \<Longrightarrow> sanitize v = v"
proof (induction v rule: sanitize.induct)
  case (3 ms)
  then have "map (\<lambda>(k, v). (k, sanitize v)) ms = ms"
    by (intro map_idI) (auto simp: list_all_iff)
  with 3 show ?case by (simp add: sanitize_keys)
qed (auto simp: list_all_iff sanitize_string_id intro!: map_idI)

lemma wf_json_struct: "wf_json v \<Longrightarrow> wf_struct v"
  by (induction v rule: wf_struct.induct) (auto simp: list_all_iff)

lemma depth_sanitize [simp]: "depth (sanitize v) = depth v"
proof (induction v rule: sanitize.induct)
  case (2 vs)
  then show ?case by (induction vs) auto
next
  case (3 ms)
  have "\<forall>(k, v) \<in> set ms. depth (sanitize v) = depth v" using 3 by auto
  then show ?case by (induction ms) auto
qed auto

lemma Canonicalize_Inr:
  "Canonicalize v = Inr c \<longleftrightarrow> depth v \<le> maxNestingDepth \<and> (\<exists>w. canon (sanitize v) = Inr w \<and> c = render w)"
  by (auto simp: Canonicalize_def checkR_Inr jcs_write_canon bindR_Inr)

lemma Canonicalize_inj:
  assumes "wf_struct v" "wf_struct w" "Canonicalize v = Inr c" "Canonicalize w = Inr c"
  shows "canon (sanitize v) = canon (sanitize w)"
proof -
  obtain v' where v: "canon (sanitize v) = Inr v'" "c = render v'" "depth v \<le> maxNestingDepth"
    using assms(3) by (auto simp: Canonicalize_Inr)
  obtain w' where w: "canon (sanitize w) = Inr w'" "c = render w'" "depth w \<le> maxNestingDepth"
    using assms(4) by (auto simp: Canonicalize_Inr)
  have "canonical v'" "depth v' \<le> maxNestingDepth" "canonical w'" "depth w' \<le> maxNestingDepth"
    using canon_canonical [OF wf_sanitize v(1)] canon_canonical [OF wf_sanitize w(1)] assms v w by auto
  then have "v' = w'" using Decode_render v(2) w(2) by (metis Pair_inject option.inject)
  with v w show ?thesis by simp
qed

text \<open>The members of a canonical object are the canonical members.\<close>

lemma map_of_sortUTF16: "distinct (map fst ms) \<Longrightarrow> map_of (sortUTF16 ms) k = map_of ms k"
proof -
  assume d: "distinct (map fst ms)"
  have "mset (sortUTF16 ms) = mset ms" by (simp add: sortUTF16_sort)
  then have "distinct (map fst (sortUTF16 ms))" "set (sortUTF16 ms) = set ms"
    using d by (metis mset_eq_imp_distinct_iff mset_map, simp)
  with d show ?thesis by (metis map_of_inject_set)
qed

lemma mapR_member:
  "mapR (\<lambda>(k, v). bindR (canon v) (\<lambda>w. Inr (k, w))) ms = Inr us \<Longrightarrow>
   map_of us k = (case map_of ms k of None \<Rightarrow> None | Some v \<Rightarrow> (case canon v of Inr w \<Rightarrow> Some w | Inl _ \<Rightarrow> None))"
  by (induction ms arbitrary: us) (auto simp: bindR_Inr split: option.splits)

lemma canon_member:
  assumes "wf_keys (map fst ms)" "canon (JObject ms) = Inr (JObject us)"
  shows "map_of us k = (case map_of ms k of None \<Rightarrow> None | Some v \<Rightarrow> (case canon v of Inr w \<Rightarrow> Some w | Inl _ \<Rightarrow> None))"
  using assms mapR_member [of "sortUTF16 ms" us k]
  by (auto simp: bindR_Inr map_of_sortUTF16 wf_keys_def)

lemma canon_members_eq:
  assumes "wf_keys (map fst ms)" "wf_keys (map fst ns)" "canon (JObject ms) = canon (JObject ns)"
    "canon (JObject ms) = Inr w"
  shows "case (map_of ms k, map_of ns k) of
      (None, None) \<Rightarrow> True | (Some a, Some b) \<Rightarrow> canon a = canon b \<and> canon a \<in> range Inr | _ \<Rightarrow> False"
proof -
  obtain us where us: "canon (JObject ms) = Inr (JObject us)" "canon (JObject ns) = Inr (JObject us)"
    using assms(3,4) by (auto simp: bindR_Inr)
  have ok: "\<exists>x. canon a = Inr x" if "map_of ks k = Some a" "canon (JObject ks) = Inr (JObject us)"
    "wf_keys (map fst ks)" for ks a
  proof -
    have m: "(k, a) \<in> set (sortUTF16 ks)" using map_of_SomeD [OF that(1)] by simp
    have "list_all2 (\<lambda>m z. \<exists>x. canon (snd m) = Inr x \<and> (fst m, x) = z) (sortUTF16 ks) us"
      using that(2) by (simp add: bindR_Inr mapR_Inr case_prod_beta)
    then have "\<forall>m \<in> set (sortUTF16 ks). \<exists>x. canon (snd m) = Inr x"
      by (rule list_all2_induct) auto
    then show ?thesis using m by fastforce
  qed
  have "map_of us k = (case map_of ms k of None \<Rightarrow> None | Some v \<Rightarrow> (case canon v of Inr w \<Rightarrow> Some w | Inl _ \<Rightarrow> None))"
    "map_of us k = (case map_of ns k of None \<Rightarrow> None | Some v \<Rightarrow> (case canon v of Inr w \<Rightarrow> Some w | Inl _ \<Rightarrow> None))"
    using canon_member [OF assms(1) us(1)] canon_member [OF assms(2) us(2)] by auto
  then show ?thesis
    using ok [OF _ us(1) assms(1)] ok [OF _ us(2) assms(2)]
    by (cases "map_of ms k"; cases "map_of ns k") (auto split: sum.splits)
qed

section \<open>When canonicalization succeeds\<close>

fun all_nums :: "(string \<Rightarrow> bool) \<Rightarrow> json \<Rightarrow> bool" where
  "all_nums P (JNumber l) = P l"
| "all_nums P (JArray vs) = list_all (all_nums P) vs"
| "all_nums P (JObject ms) = list_all (\<lambda>(k, v). all_nums P v) ms"
| "all_nums P _ = True"

definition representable :: "string \<Rightarrow> bool" where
  "representable l \<longleftrightarrow> ParseFloat l \<noteq> None"

lemma mapR_total: "(\<And>x. x \<in> set xs \<Longrightarrow> \<exists>y. f x = Inr y) \<Longrightarrow> \<exists>ys. mapR f xs = Inr ys"
proof (induction xs)
  case (Cons x xs)
  then obtain y ys where "f x = Inr y" "mapR f xs = Inr ys" by fastforce
  then show ?case by simp
qed simp

lemma canon_total: "all_nums representable v \<Longrightarrow> \<exists>w. canon v = Inr w"
proof (induction v rule: canon.induct)
  case (4 l)
  then show ?case by (auto simp: representable_def formatNumber_def)
next
  case (5 vs)
  then have "\<exists>us. mapR canon vs = Inr us" by (intro mapR_total) (auto simp: list_all_iff)
  then show ?case by auto
next
  case (6 ms)
  have "\<exists>us. mapR (\<lambda>(k, v). bindR (canon v) (\<lambda>w. Inr (k, w))) (sortUTF16 ms) = Inr us"
  proof (rule mapR_total)
    fix m assume m: "m \<in> set (sortUTF16 ms)"
    obtain k v where kv: "m = (k, v)" by fastforce
    have "all_nums representable v" using 6(2) m kv by (auto simp: list_all_iff)
    then obtain w where "canon v = Inr w" using 6(1) [OF m kv [symmetric]] by blast
    then show "\<exists>y. (case m of (k, v) \<Rightarrow> bindR (canon v) (\<lambda>w. Inr (k, w))) = Inr y" by (simp add: kv)
  qed
  then show ?case by auto
qed auto

lemma all_nums_sanitize [simp]: "all_nums P (sanitize v) = all_nums P v"
proof (induction v rule: sanitize.induct)
  case (3 ms)
  have "\<forall>(k, v) \<in> set ms. all_nums P (sanitize v) = all_nums P v" using 3 by auto
  then show ?case by (auto simp: list_all_iff)
qed (auto simp: list_all_iff)

lemma representable_int: "abs i < 10 ^ 15 \<Longrightarrow> representable (Itoa i)"
  using formatNumber_int [of i] by (auto simp: representable_def formatNumber_def split: option.splits)

lemma representable_float: "valid_f64 f \<Longrightarrow> representable (formatFloat (neg, f))"
  by (simp add: representable_def ParseFloat_formatFloat)

lemma Canonicalize_total:
  "all_nums representable v \<Longrightarrow> depth v \<le> maxNestingDepth \<Longrightarrow> \<exists>c. Canonicalize v = Inr c"
  using canon_total [of "sanitize v"] by (auto simp: Canonicalize_Inr)

lemma canon_nums: "canon v = Inr w \<Longrightarrow> all_nums representable v"
proof (induction v arbitrary: w rule: canon.induct)
  case (4 l)
  then show ?case by (auto simp: representable_def formatNumber_def split: option.splits)
next
  case (5 vs)
  then obtain us where "mapR canon vs = Inr us" by (auto simp: bindR_Inr)
  then have "list_all2 (\<lambda>v u. canon v = Inr u) vs us" by (simp add: mapR_Inr)
  then have "\<forall>v \<in> set vs. \<exists>u. canon v = Inr u" by (rule list_all2_induct) auto
  then show ?case using 5 by (auto simp: list_all_iff)
next
  case (6 ms)
  then obtain us where "mapR (\<lambda>(k, v). bindR (canon v) (\<lambda>w. Inr (k, w))) (sortUTF16 ms) = Inr us"
    by (auto simp: bindR_Inr)
  then have "list_all2 (\<lambda>m u. \<exists>x. canon (snd m) = Inr x \<and> (fst m, x) = u) (sortUTF16 ms) us"
    by (simp add: bindR_Inr mapR_Inr case_prod_beta)
  then have "\<forall>m \<in> set (sortUTF16 ms). \<exists>x. canon (snd m) = Inr x" by (rule list_all2_induct) auto
  then show ?case using 6(1) by (fastforce simp: list_all_iff)
qed auto

lemma Canonicalize_succeeds:
  "(\<exists>c. Canonicalize v = Inr c) \<longleftrightarrow> depth v \<le> maxNestingDepth \<and> all_nums representable v"
  using Canonicalize_total [of v] canon_nums [of "sanitize v"] by (auto simp: Canonicalize_Inr)

section \<open>Structs as objects\<close>

text \<open>
  The JSON object of a Go struct: its tagged fields in order, without those that
  \<^verbatim>\<open>omitempty\<close> leaves out (an empty string, a zero number, a nil pointer, an empty slice), which
  are \<open>None\<close>.
\<close>

definition struct_members :: "(string \<times> json option) list \<Rightarrow> (string \<times> json) list" where
  "struct_members fs = List.map_filter (\<lambda>(k, v). map_option (Pair k) v) fs"

definition struct :: "(string \<times> json option) list \<Rightarrow> json" where
  "struct fs = JObject (struct_members fs)"

definition str :: "string \<Rightarrow> json option" where "str s = Some (JString s)"
definition str_opt :: "string \<Rightarrow> json option" where "str_opt s = (if s = '''' then None else Some (JString s))"
definition json_int :: "int \<Rightarrow> json" where "json_int i = JNumber (Itoa i)"

lemma struct_members_Nil [simp]: "struct_members [] = []"
  by (simp add: struct_members_def)

lemma struct_members_Cons [simp]:
  "struct_members ((k, v) # fs) = (case v of None \<Rightarrow> struct_members fs | Some x \<Rightarrow> (k, x) # struct_members fs)"
  by (simp add: struct_members_def split: option.split)

lemma struct_members_mem: "(k, v) \<in> set (struct_members fs) \<longleftrightarrow> (k, Some v) \<in> set fs"
  by (induction fs) (auto split: option.splits)

lemma struct_members_distinct: "distinct (map fst fs) \<Longrightarrow> distinct (map fst (struct_members fs))"
proof (induction fs)
  case (Cons f fs)
  obtain k v where f: "f = (k, v)" by fastforce
  have "k \<notin> fst ` set (struct_members fs)" using Cons.prems f by (force simp: struct_members_mem)
  with Cons f show ?case by (cases v) auto
qed simp

lemma struct_keys_wf: "distinct (map fst fs) \<Longrightarrow> list_all is_ascii (map fst fs) \<Longrightarrow> wf_keys (map fst (struct_members fs))"
  using struct_members_distinct [of fs]
  by (force simp: wf_keys_def list_all_iff struct_members_mem intro: valid_utf8_ascii)

lemma struct_members_all:
  "list_all (\<lambda>(k, v). P v) (struct_members fs) \<longleftrightarrow> list_all (\<lambda>(k, v). pred_option P v) fs"
proof (induction fs)
  case (Cons f fs)
  then show ?case by (cases f; cases "snd f") auto
qed simp

lemma struct_wf:
  "distinct (map fst fs) \<Longrightarrow> list_all is_ascii (map fst fs) \<Longrightarrow>
   list_all (\<lambda>(k, v). pred_option wf_struct v) fs \<Longrightarrow> wf_struct (struct fs)"
  by (simp add: struct_def struct_keys_wf struct_members_all)

lemma struct_nums:
  "all_nums P (struct fs) \<longleftrightarrow> list_all (\<lambda>(k, v). pred_option (all_nums P) v) fs"
  by (simp add: struct_def struct_members_all)

lemma struct_depth: "depth (struct fs) \<le> Suc n \<longleftrightarrow> list_all (\<lambda>(k, v). pred_option (\<lambda>x. depth x \<le> n) v) fs"
proof (induction fs)
  case (Cons f fs)
  then show ?case by (cases f; cases "snd f") (auto simp: struct_def)
qed (simp add: struct_def)

lemma map_of_struct:
  "distinct (map fst fs) \<Longrightarrow> map_of (struct_members fs) k = Option.bind (map_of fs k) (\<lambda>v. v)"
proof (induction fs)
  case (Cons f fs)
  obtain j v where f: "f = (j, v)" by fastforce
  have "j \<notin> fst ` set (struct_members fs)" using Cons.prems f by (force simp: struct_members_mem)
  then have "map_of (struct_members fs) j = None" by (simp add: map_of_eq_None_iff)
  with Cons f show ?case by (cases v) auto
qed simp

text \<open>Two structs with the same canonical text agree in every field, as canonical values.\<close>

lemma map_of_sanitize_members:
  "wf_keys (map fst ms) \<Longrightarrow> map_of (map (\<lambda>(k, v). (sanitize_string k, sanitize v)) ms) k = map_option sanitize (map_of ms k)"
  by (simp add: sanitize_keys map_of_map)

lemma struct_fields_eq:
  assumes d: "distinct (map fst fs)" "list_all is_ascii (map fst fs)" "distinct (map fst gs)" "list_all is_ascii (map fst gs)"
    and wf: "wf_struct (struct fs)" "wf_struct (struct gs)"
    and c: "Canonicalize (struct fs) = Inr b" "Canonicalize (struct gs) = Inr b"
  shows "case (Option.bind (map_of fs k) (\<lambda>v. v), Option.bind (map_of gs k) (\<lambda>v. v)) of
     (None, None) \<Rightarrow> True | (Some x, Some y) \<Rightarrow> canon (sanitize x) = canon (sanitize y) \<and> canon (sanitize x) \<in> range Inr
     | _ \<Rightarrow> False"
proof -
  let ?ms = "map (\<lambda>(k, v). (sanitize_string k, sanitize v)) (struct_members fs)"
  let ?ns = "map (\<lambda>(k, v). (sanitize_string k, sanitize v)) (struct_members gs)"
  have eq: "canon (JObject ?ms) = canon (JObject ?ns)"
    using Canonicalize_inj [OF wf c] by (simp add: struct_def)
  obtain w where w: "canon (JObject ?ms) = Inr w" using c(1) by (auto simp: Canonicalize_Inr struct_def)
  have k: "wf_keys (map fst (struct_members fs))" "wf_keys (map fst (struct_members gs))"
    using struct_keys_wf d by blast+
  then have kk: "wf_keys (map fst ?ms)" "wf_keys (map fst ?ns)"
    by (simp_all add: sanitize_keys comp_def case_prod_beta)
  show ?thesis
    using canon_members_eq [OF kk eq w, of k]
    unfolding map_of_sanitize_members [OF k(1)] map_of_sanitize_members [OF k(2)]
      map_of_struct [OF d(1)] map_of_struct [OF d(3)]
    by (cases "Option.bind (map_of fs k) (\<lambda>v. v)"; cases "Option.bind (map_of gs k) (\<lambda>v. v)") auto
qed

section \<open>Strings and numbers as fields\<close>

lemma pred_str [simp]: "pred_option wf_struct (str s)" "pred_option wf_struct (str_opt s)"
  "pred_option (all_nums P) (str s)" "pred_option (all_nums P) (str_opt s)"
  "pred_option (\<lambda>x. depth x \<le> n) (str s)" "pred_option (\<lambda>x. depth x \<le> n) (str_opt s)"
  by (simp_all add: str_def str_opt_def)

lemma json_int_simps [simp]: "wf_struct (json_int i)" "depth (json_int i) = 0" "all_nums P (json_int i) = P (Itoa i)"
  by (simp_all add: json_int_def)

lemma canon_string_eq: "canon (sanitize (JString a)) = canon (sanitize (JString b)) \<longleftrightarrow> sanitize_string a = sanitize_string b"
  by simp

lemma canon_int_eq:
  "abs i < 10 ^ 15 \<Longrightarrow> abs j < 10 ^ 15 \<Longrightarrow> canon (sanitize (json_int i)) = canon (sanitize (json_int j)) \<longleftrightarrow> i = j"
  by (simp add: json_int_def formatNumber_int)

end
