(* ===== verification/Hash.thy ===== *)
theory Hash
  imports JcsStruct Sha256 Types
begin

text \<open>
  \<^verbatim>\<open>internal/platform/hash/hash.go\<close>: content hashes, chain hashes and storage keys. The locale
  \<open>chain_hash\<close> is the contract the audit log relies on: each head is the digest of the previous
  head and a payload. Its client lemma is tamper evidence in the form that needs no assumption
  about SHA-256: two payload sequences with the same final head are equal, or two of the strings
  that were hashed on the way are different and have the same digest.
\<close>

(*src internal/platform/hash/hash.go#ZeroChainHash*)
definition ZeroChainHash :: string where "ZeroChainHash = replicate 64 CHR ''0''"

(*src internal/platform/hash/hash.go#ContentOfBytes*)
definition ContentOfBytes :: "string \<Rightarrow> ContentHash" where
  "ContentOfBytes bytes = ''sha256:'' @ EncodeToString (Sum256 bytes)"

(*src internal/platform/hash/hash.go#Content*)
definition Content :: "json \<Rightarrow> ContentHash result" where
  "Content v = (case Canonicalize v of
       Inl err \<Rightarrow> Inl (WrappedError ''hash: canonicalizing content'' err)
     | Inr bytes \<Rightarrow> Inr (ContentOfBytes bytes))"

(*src internal/platform/hash/hash.go#ContentOfJSON*)
definition ContentOfJSON :: "string \<Rightarrow> ContentHash result" where
  "ContentOfJSON raw = (case CanonicalizeJSON raw of
       Inl err \<Rightarrow> Inl (WrappedError ''hash: canonicalizing JSON'' err)
     | Inr bytes \<Rightarrow> Inr (ContentOfBytes bytes))"

text \<open>\<^verbatim>\<open>subtle.ConstantTimeCompare\<close> is 1 exactly on equal strings.\<close>

(*src internal/platform/hash/hash.go#Equal*)
definition Equal :: "ContentHash \<Rightarrow> ContentHash \<Rightarrow> bool" where "Equal a b \<longleftrightarrow> a = b"

(*src internal/platform/hash/hash.go#Verify*)
definition Hash_Verify :: "json \<Rightarrow> ContentHash \<Rightarrow> bool result" where
  "Hash_Verify v want = bindR (Content v) (\<lambda>got. Inr (Equal got want))"

(*src internal/platform/hash/hash.go#VerifyJSON*)
definition VerifyJSON :: "string \<Rightarrow> ContentHash \<Rightarrow> bool result" where
  "VerifyJSON raw want = bindR (ContentOfJSON raw) (\<lambda>got. Inr (Equal got want))"

(*src internal/platform/hash/hash.go#Chain*)
definition Chain :: "string \<Rightarrow> string \<Rightarrow> string result" where
  "Chain prev payload = (case DecodeString prev of
       None \<Rightarrow> Inl (PlainError ''hash: invalid previous chain hash'')
     | Some prevBytes \<Rightarrow>
         checkR (length prevBytes \<noteq> 32) (PlainError ''hash: invalid previous chain hash'') (
         Inr (EncodeToString (Sum256 (prevBytes @ payload)))))"

(*src internal/platform/hash/hash.go#ChainOf*)
definition ChainOf :: "string \<Rightarrow> json \<Rightarrow> string result" where
  "ChainOf prev v = (case Canonicalize v of
       Inl err \<Rightarrow> Inl (WrappedError ''hash: canonicalizing audit payload'' err)
     | Inr bytes \<Rightarrow> Chain prev bytes)"

(*src internal/platform/hash/hash.go#ValidChainHash*)
definition ValidChainHash :: "string \<Rightarrow> bool" where
  "ValidChainHash s \<longleftrightarrow> length s = 64 \<and> list_all lower_hex s"

(*src internal/platform/hash/hash.go#Sum*)
definition Sum :: "string \<Rightarrow> string" where "Sum b = EncodeToString (Sum256 b)"

(*src internal/platform/hash/hash.go#StorageKey*)
definition StorageKey :: "ContentHash \<Rightarrow> string" where
  "StorageKey h = (let hex = TrimPrefix h ''sha256:'' in
     if length hex < 4 then hex else take 2 hex @ ''/'' @ take 2 (drop 2 hex) @ ''/'' @ hex)"

section \<open>Hash chains\<close>

locale chain_hash =
  fixes good :: "'h \<Rightarrow> bool"
    and pre :: "'h \<Rightarrow> 'p \<Rightarrow> 'i"
    and digest :: "'i \<Rightarrow> 'h"
  assumes digest_good: "good (digest x)"
    and pre_inj: "good h \<Longrightarrow> good g \<Longrightarrow> pre h p = pre g q \<Longrightarrow> h = g \<and> p = q"
begin

definition next_head :: "'h \<Rightarrow> 'p \<Rightarrow> 'h" where "next_head h p = digest (pre h p)"

fun inputs :: "'h \<Rightarrow> 'p list \<Rightarrow> 'i list" where
  "inputs h [] = []"
| "inputs h (p # ps) = pre h p # inputs (next_head h p) ps"

lemma length_inputs [simp]: "length (inputs h ps) = length ps"
  by (induction ps arbitrary: h) auto

lemma next_head_good: "good (next_head h p)"
  by (simp add: next_head_def digest_good)

lemma foldl_good: "good h \<Longrightarrow> good (foldl next_head h ps)"
  by (induction ps arbitrary: h) (simp_all add: next_head_good)

lemma inputs_snoc: "inputs h (ps @ [p]) = inputs h ps @ [pre (foldl next_head h ps) p]"
  by (induction ps arbitrary: h) auto

lemma same_head_same_history:
  assumes "good h" "length ps = length qs" "foldl next_head h ps = foldl next_head h qs"
  shows "ps = qs \<or> (\<exists>i < length ps. inputs h ps ! i \<noteq> inputs h qs ! i \<and>
                     digest (inputs h ps ! i) = digest (inputs h qs ! i))"
  using assms
proof (induction ps arbitrary: qs rule: rev_induct)
  case (snoc p ps)
  then obtain q qs' where qs: "qs = qs' @ [q]" "length ps = length qs'"
    by (cases qs rule: rev_cases) auto
  let ?g = "foldl next_head h"
  have eq: "digest (pre (?g ps) p) = digest (pre (?g qs') q)"
    using snoc.prems(3) qs(1) by (simp add: next_head_def [symmetric])
  show ?case
  proof (cases "pre (?g ps) p = pre (?g qs') q")
    case True
    then have "?g ps = ?g qs'" "p = q" using pre_inj foldl_good snoc.prems(1) by blast+
    with snoc.IH [OF snoc.prems(1) qs(2)] show ?thesis
      using qs by (auto simp: inputs_snoc nth_append intro: less_SucI)
  next
    case False
    then show ?thesis using eq qs by (auto simp: inputs_snoc nth_append intro!: exI [of _ "length ps"])
  qed
qed simp

text \<open>Histories of different lengths with the same head: the shorter one is the end of the longer
  one, and then the starting head has come up again as a digest, or two inputs collide.\<close>

lemma same_head_suffix:
  assumes "good h" "length ps \<le> length qs" "foldl next_head h ps = foldl next_head h qs"
  shows "(\<exists>front. qs = front @ ps \<and> foldl next_head h front = h) \<or>
    (\<exists>x \<in> set (inputs h ps). \<exists>y \<in> set (inputs h qs). x \<noteq> y \<and> digest x = digest y)"
  using assms
proof (induction ps arbitrary: qs rule: rev_induct)
  case (snoc p ps)
  then obtain q qs' where qs: "qs = qs' @ [q]" "length ps \<le> length qs'"
    by (cases qs rule: rev_cases) auto
  let ?g = "foldl next_head h"
  have eq: "digest (pre (?g ps) p) = digest (pre (?g qs') q)"
    using snoc.prems(3) qs(1) by (simp add: next_head_def [symmetric])
  show ?case
  proof (cases "pre (?g ps) p = pre (?g qs') q")
    case True
    then have "?g ps = ?g qs'" "p = q" using pre_inj foldl_good snoc.prems(1) by blast+
    with snoc.IH [OF snoc.prems(1) qs(2)] show ?thesis
      using qs by (auto simp: inputs_snoc)
  next
    case False
    then show ?thesis using eq qs by (auto simp: inputs_snoc)
  qed
qed simp

lemma start_again: "foldl next_head h front = h \<Longrightarrow> front \<noteq> [] \<Longrightarrow> \<exists>x \<in> set (inputs h front). digest x = h"
  by (cases front rule: rev_cases) (auto simp: inputs_snoc next_head_def)

lemma inputs_append: "inputs h (ps @ qs) = inputs h ps @ inputs (foldl next_head h ps) qs"
  by (induction ps arbitrary: h) auto

end

text \<open>Chain heads as the code stores them: the hexadecimal form of 32 bytes.\<close>

definition chain_head :: "string \<Rightarrow> bool" where
  "chain_head h \<longleftrightarrow> (\<exists>b. length b = 32 \<and> h = EncodeToString b)"

definition chain_pre :: "string \<Rightarrow> string \<Rightarrow> string" where
  "chain_pre h p = the (DecodeString h) @ p"

interpretation sha: chain_hash chain_head chain_pre Sum
proof
  show "chain_head (Sum x)" for x by (auto simp: chain_head_def Sum_def)
  show "h = g \<and> p = q" if "chain_head h" "chain_head g" "chain_pre h p = chain_pre g q" for h g p q
    using that by (auto simp: chain_head_def chain_pre_def)
qed

lemma Chain_head: "chain_head h \<Longrightarrow> Chain h p = Inr (sha.next_head h p)"
  by (auto simp: chain_head_def Chain_def sha.next_head_def chain_pre_def Sum_def)

lemma ZeroChainHash_head: "chain_head ZeroChainHash"
proof -
  have "EncodeToString (replicate n (CHR 0x00)) = replicate (2 * n) CHR ''0''" for n
    by (induction n) (simp_all add: EncodeToString_def hex_char_def)
  from this [of 32] have "ZeroChainHash = EncodeToString (replicate 32 (CHR 0x00))"
    by (simp only: ZeroChainHash_def) simp
  then show ?thesis unfolding chain_head_def by (metis length_replicate)
qed

section \<open>Content hashes\<close>

lemma hex_lower: "n < 16 \<Longrightarrow> lower_hex (hex_char n)"
proof -
  assume "n < 16"
  moreover have "list_all (\<lambda>n. lower_hex (hex_char n)) [0 ..< 16]" by code_simp
  ultimately show ?thesis by (simp add: list_all_iff)
qed

lemma EncodeToString_hex: "list_all lower_hex (EncodeToString b)"
  by (induction b) (simp_all add: EncodeToString_def hex_lower byte_split)

lemma ContentOfBytes_valid: "ContentHash_Valid (ContentOfBytes c)"
  by (simp add: ContentOfBytes_def ContentHash_Valid_def HasPrefix_def EncodeToString_hex)

lemma ContentOfBytes_eq: "ContentOfBytes a = ContentOfBytes b \<longleftrightarrow> Sum256 a = Sum256 b"
  by (simp add: ContentOfBytes_def)

lemma chain_head_valid: "chain_head h \<Longrightarrow> ValidChainHash h"
  by (auto simp: chain_head_def ValidChainHash_def EncodeToString_hex)

text \<open>The storage key of a content hash ends with its hexadecimal digits, so distinct content
  hashes have distinct keys.\<close>

lemma StorageKey_inj: "StorageKey (ContentOfBytes a) = StorageKey (ContentOfBytes b) \<Longrightarrow> ContentOfBytes a = ContentOfBytes b"
proof -
  have "StorageKey (ContentOfBytes x) = take 2 (Sum x) @ ''/'' @ take 2 (drop 2 (Sum x)) @ ''/'' @ Sum x" for x
    by (simp add: StorageKey_def ContentOfBytes_def TrimPrefix_def HasPrefix_def Sum_def Let_def)
  moreover have "length (Sum x) = 64" for x by (simp add: Sum_def)
  moreover assume "StorageKey (ContentOfBytes a) = StorageKey (ContentOfBytes b)"
  ultimately have "Sum a = Sum b" by (auto simp: append_eq_append_conv)
  then show ?thesis by (simp add: ContentOfBytes_def Sum_def)
qed

end
