(* ===== verification/GoTime.thy ===== *)
theory GoTime
  imports Types
begin

text \<open>
  \<^verbatim>\<open>time.Time.UTC().Format(time.RFC3339Nano)\<close>: the civil date and time of an instant, with the
  fraction of the second written without trailing zeros, and \<^verbatim>\<open>types.Now\<close>.
\<close>

definition nanos_per_day :: int where "nanos_per_day = 86400 * Second"

text \<open>The Gregorian date of a day counted from 1 January of year 1, by eras of 400 years that
  start on 1 March.\<close>

definition civil :: "int \<Rightarrow> int \<times> int \<times> int" where
  "civil day = (let z = day + 306; era = z div 146097; doe = z mod 146097;
       yoe = (doe - doe div 1460 + doe div 36524 - doe div 146096) div 365;
       doy = doe - (365 * yoe + yoe div 4 - yoe div 100);
       mp = (5 * doy + 2) div 153;
       d = doy - (153 * mp + 2) div 5 + 1;
       m = (if mp < 10 then mp + 3 else mp - 9);
       y = yoe + era * 400 + (if m \<le> 2 then 1 else 0)
     in (y, m, d))"

definition pad :: "nat \<Rightarrow> int \<Rightarrow> string" where
  "pad w n = (let d = nat_digits (nat (abs n)) in
     (if n < 0 then ''-'' else []) @ replicate (w - length d) CHR ''0'' @ d)"

definition fraction :: "int \<Rightarrow> string" where
  "fraction ns = (if ns = 0 then [] else
     CHR ''.'' # rev (dropWhile (\<lambda>c. c = CHR ''0'') (rev (pad 9 ns))))"

definition FormatRFC3339Nano :: "time \<Rightarrow> string" where
  "FormatRFC3339Nano t = (let day = t div nanos_per_day; ns = t mod nanos_per_day;
       (y, m, d) = civil day; s = ns div Second
     in pad 4 y @ ''-'' @ pad 2 m @ ''-'' @ pad 2 d @ ''T'' @ pad 2 (s div 3600) @ '':'' @
        pad 2 (s div 60 mod 60) @ '':'' @ pad 2 (s mod 60) @ fraction (ns mod Second) @ ''Z'')"

definition day_of_civil :: "int \<Rightarrow> int \<Rightarrow> int \<Rightarrow> int" where
  "day_of_civil y m d = (let y' = (if m \<le> 2 then y - 1 else y); era = y' div 400; yoe = y' mod 400;
       mp = (if m > 2 then m - 3 else m + 9); doy = (153 * mp + 2) div 5 + d - 1
     in era * 146097 + yoe * 365 + yoe div 4 - yoe div 100 + doy - 306)"

text \<open>\<^verbatim>\<open>AddDate(n, 0, 0)\<close>: the same month and day, normalized when the year has no such day.\<close>

definition AddYears :: "int \<Rightarrow> time \<Rightarrow> time" where
  "AddYears n t = (let (y, m, d) = civil (t div nanos_per_day) in
     day_of_civil (y + n) m d * nanos_per_day + t mod nanos_per_day)"

definition FormatRFC3339 :: "time \<Rightarrow> string" where
  "FormatRFC3339 t = FormatRFC3339Nano (t - t mod Second)"

text \<open>The clock reading is an argument.\<close>

(*src internal/platform/types/types.go#Now*)
definition Now :: "time \<Rightarrow> time" where "Now clock = NormalizeTime clock"

end
