(* ===== verification/Artifact.thy ===== *)
theory Artifact
  imports Fsm Hash GoTime
begin

text \<open>
  \<^verbatim>\<open>internal/artifactgraph/domain/artifact.go\<close>: artifacts, their versions, provenance and
  approval evidence, the content hash of a version, and the lifecycle table. Methods with a
  pointer receiver return the changed version beside their optional error, because the code
  leaves fields set even when it returns an error. The clock is an argument. An empty
  \<^verbatim>\<open>json.RawMessage\<close> stands for nil.
\<close>

section \<open>States and events\<close>

(*src internal/artifactgraph/domain/artifact.go:27-27#StatusDraft*)
definition StatusDraft :: State where "StatusDraft = ''DRAFT''"
(*src internal/artifactgraph/domain/artifact.go:28-28#StatusAIReview*)
definition StatusAIReview :: State where "StatusAIReview = ''AI_REVIEW''"
(*src internal/artifactgraph/domain/artifact.go:29-29#StatusUserReview*)
definition StatusUserReview :: State where "StatusUserReview = ''USER_REVIEW''"
(*src internal/artifactgraph/domain/artifact.go:30-30#StatusChangesRequested*)
definition StatusChangesRequested :: State where "StatusChangesRequested = ''CHANGES_REQUESTED''"
(*src internal/artifactgraph/domain/artifact.go:31-31#StatusApproved*)
definition StatusApproved :: State where "StatusApproved = ''APPROVED''"
(*src internal/artifactgraph/domain/artifact.go:32-32#StatusFrozen*)
definition StatusFrozen :: State where "StatusFrozen = ''FROZEN''"
(*src internal/artifactgraph/domain/artifact.go:33-33#StatusSuperseded*)
definition StatusSuperseded :: State where "StatusSuperseded = ''SUPERSEDED''"
(*src internal/artifactgraph/domain/artifact.go:34-34#StatusAbandoned*)
definition StatusAbandoned :: State where "StatusAbandoned = ''ABANDONED''"

lemmas status_defs [go_strings] = StatusDraft_def StatusAIReview_def StatusUserReview_def
  StatusChangesRequested_def StatusApproved_def StatusFrozen_def StatusSuperseded_def StatusAbandoned_def

(*src internal/artifactgraph/domain/artifact.go:39-39#EventSubmitForAIReview*)
definition EventSubmitForAIReview :: Event where "EventSubmitForAIReview = ''submit_for_ai_review''"
(*src internal/artifactgraph/domain/artifact.go:40-40#EventAIReviewPassed*)
definition EventAIReviewPassed :: Event where "EventAIReviewPassed = ''ai_review_passed''"
(*src internal/artifactgraph/domain/artifact.go:41-41#EventAIReviewBlocking*)
definition EventAIReviewBlocking :: Event where "EventAIReviewBlocking = ''ai_review_findings_blocking''"
(*src internal/artifactgraph/domain/artifact.go:42-42#EventSubmitForReview*)
definition EventSubmitForReview :: Event where "EventSubmitForReview = ''submit_for_review''"
(*src internal/artifactgraph/domain/artifact.go:43-43#EventRequestChanges*)
definition EventRequestChanges :: Event where "EventRequestChanges = ''request_changes''"
(*src internal/artifactgraph/domain/artifact.go:44-44#EventApprove*)
definition EventApprove :: Event where "EventApprove = ''approve''"
(*src internal/artifactgraph/domain/artifact.go:45-45#EventFreeze*)
definition EventFreeze :: Event where "EventFreeze = ''freeze''"
(*src internal/artifactgraph/domain/artifact.go:46-46#EventSupersede*)
definition EventSupersede :: Event where "EventSupersede = ''superseded_by''"
(*src internal/artifactgraph/domain/artifact.go:47-47#EventAbandon*)
definition EventAbandon :: Event where "EventAbandon = ''abandon''"

lemmas event_defs [go_strings] = EventSubmitForAIReview_def EventAIReviewPassed_def
  EventAIReviewBlocking_def EventSubmitForReview_def EventRequestChanges_def EventApprove_def
  EventFreeze_def EventSupersede_def EventAbandon_def

(*src internal/artifactgraph/domain/artifact.go:51-54#sealedStates*)
definition sealedStates :: "State list" where
  "sealedStates = [StatusApproved, StatusFrozen, StatusSuperseded, StatusAbandoned]"

(*src internal/artifactgraph/domain/artifact.go#IsSealed*)
definition IsSealed :: "State \<Rightarrow> bool" where "IsSealed s \<longleftrightarrow> s \<in> set sealedStates"

section \<open>Provenance and evidence\<close>

(*src internal/artifactgraph/domain/artifact.go#Generator*)
record Generator =
  g_Kind :: GeneratorKind
  g_Analyzer :: string
  g_AnalyzerVersion :: string
  g_PromptVersion :: string
  g_Model :: string
  g_Provider :: string
  g_Temperature :: "bool \<times> f64"
  g_GuardrailChainVersion :: string
  g_InferenceID :: string
  g_InputArtifacts :: "ArtifactRef list"
  g_SourceSystem :: string
  g_SourceRef :: string

(*src internal/artifactgraph/domain/artifact.go#Generator.Validate*)
definition Generator_Validate :: "Generator \<Rightarrow> go_error option" where
  "Generator_Validate g =
     (let op = ''artifact.Generator.Validate'' in
      if \<not> GeneratorKind_Valid (g_Kind g) then Some (Invalid op ''artifact.generator_kind_invalid'')
      else let missing =
          (if g_PromptVersion g = '''' then [''prompt_version''] else []) @
          (if g_Model g = '''' then [''model''] else []) @
          (if g_Provider g = '''' then [''provider''] else []) @
          (if g_GuardrailChainVersion g = '''' then [''guardrail_chain_version''] else [])
        in if g_Kind g = GeneratedByInference \<and> length missing > 0
           then Some (Invalid op ''artifact.generator_incomplete'')
           else if g_Kind g = GeneratedByAnalyzer \<and> g_Analyzer g = ''''
           then Some (Invalid op ''artifact.generator_incomplete'')
           else None)"

(*src internal/artifactgraph/domain/artifact.go#GateDecisionRef*)
record GateDecisionRef =
  gd_Gate :: string
  gd_Decision :: string
  gd_CaseID :: string

(*src internal/artifactgraph/domain/artifact.go#ApprovalEvidence*)
record ApprovalEvidence =
  ev_EvidenceID :: string
  ev_Digest :: ContentHash
  ev_MediaType :: string
  ev_StorageRef :: string
  ev_GateDecisions :: "GateDecisionRef list"
  ev_PolicySetVersion :: string
  ev_ApproverAuthTime :: time
  ev_ApproverTokenID :: string

(*src internal/artifactgraph/domain/artifact.go#ApprovalEvidence.Valid*)
definition Evidence_Valid :: "ApprovalEvidence \<Rightarrow> bool" where
  "Evidence_Valid e \<longleftrightarrow> ev_EvidenceID e \<noteq> '''' \<and> ContentHash_Valid (ev_Digest e) \<and> ev_StorageRef e \<noteq> ''''"

section \<open>Artifacts and versions\<close>

(*src internal/artifactgraph/domain/artifact.go#Artifact*)
record Artifact =
  a_TenantID :: TenantID
  a_ProjectID :: ProjectID
  a_ID :: ArtifactID
  a_Type :: ArtifactType
  a_Title :: string
  a_CurrentVersion :: int
  a_Status :: State
  a_Labels :: "(string \<times> string) list"
  a_CreatedBy :: PrincipalID
  a_CreatedAt :: time
  a_UpdatedAt :: time
  a_Version :: int

(*src internal/artifactgraph/domain/artifact.go#Version*)
record Version =
  v_TenantID :: TenantID
  v_ProjectID :: ProjectID
  v_ArtifactID :: ArtifactID
  v_Version :: int
  v_Type :: ArtifactType
  v_Status :: State
  v_ContentSchema :: string
  v_Content :: string
  v_ContentRef :: string
  v_ContentHash :: ContentHash
  v_ParentArtifact :: "ArtifactRef option"
  v_SourceArtifact :: "ArtifactRef option"
  v_PreviousVersion :: "int option"
  v_ChangeSummary :: string
  v_Generator :: Generator
  v_CreatedBy :: PrincipalID
  v_CreatedAt :: time
  v_UpdatedAt :: time
  v_ApprovedBy :: "PrincipalID option"
  v_ApprovedAt :: "time option"
  v_ApprovalComment :: string
  v_ApprovalEvidence :: "ApprovalEvidence option"
  v_SealedAt :: "time option"
  v_VersionNo :: int

(*src internal/artifactgraph/domain/artifact.go#InlineContentLimit*)
definition InlineContentLimit :: nat where "InlineContentLimit = 256 * 1024"

section \<open>The content hash\<close>

(*src internal/platform/types/types.go#ArtifactRef*)
definition json_ref :: "ArtifactRef \<Rightarrow> json" where
  "json_ref r = struct [(''artifact_id'', str (ref_ArtifactID r)), (''version'', Some (json_int (ref_Version r)))]"

(*src internal/artifactgraph/domain/artifact.go#Generator*)
definition json_generator :: "Generator \<Rightarrow> json" where
  "json_generator g = struct
     [(''kind'', str (g_Kind g)),
      (''analyzer'', str_opt (g_Analyzer g)),
      (''analyzer_version'', str_opt (g_AnalyzerVersion g)),
      (''prompt_version'', str_opt (g_PromptVersion g)),
      (''model'', str_opt (g_Model g)),
      (''provider'', str_opt (g_Provider g)),
      (''temperature'', if g_Temperature g = (False, 0, 0) then None else Some (JNumber (formatFloat (g_Temperature g)))),
      (''guardrail_chain_version'', str_opt (g_GuardrailChainVersion g)),
      (''inference_id'', str_opt (g_InferenceID g)),
      (''input_artifacts'', if g_InputArtifacts g = [] then None else Some (JArray (map json_ref (g_InputArtifacts g)))),
      (''source_system'', str_opt (g_SourceSystem g)),
      (''source_ref'', str_opt (g_SourceRef g))]"

text \<open>\<^verbatim>\<open>json.Valid\<close>: one value and nothing but white space after it.\<close>

definition valid_json :: "string \<Rightarrow> json option" where
  "valid_json s = (case Decode s of Some (v, rest) \<Rightarrow> if skip_ws rest = [] then Some v else None | None \<Rightarrow> None)"

text \<open>Marshalling a \<^verbatim>\<open>json.RawMessage\<close>: nil is null, other content has to be valid JSON.\<close>

definition raw_value :: "string \<Rightarrow> json result" where
  "raw_value s = (if s = [] then Inr JNull
     else case valid_json s of Some v \<Rightarrow> Inr v | None \<Rightarrow> Inl (PlainError ''json: error calling MarshalJSON''))"

(*src internal/artifactgraph/domain/artifact.go#Version.CanonicalEnvelope*)
definition envelope_fields :: "Version \<Rightarrow> json \<Rightarrow> (string \<times> json option) list" where
  "envelope_fields v content =
     [(''schema'', str ''specforge.artifact.v1''),
      (''artifact_id'', str (v_ArtifactID v)),
      (''artifact_type'', str (v_Type v)),
      (''version'', Some (json_int (v_Version v))),
      (''tenant_id'', str (v_TenantID v)),
      (''project_id'', str (v_ProjectID v)),
      (''content_schema'', str (v_ContentSchema v)),
      (''content'', Some content),
      (''content_ref'', str_opt (v_ContentRef v)),
      (''parent_artifact'', map_option json_ref (v_ParentArtifact v)),
      (''source_artifact'', map_option json_ref (v_SourceArtifact v)),
      (''previous_version'', map_option json_int (v_PreviousVersion v)),
      (''change_summary'', str (v_ChangeSummary v)),
      (''created_by'', str (v_CreatedBy v)),
      (''created_at'', str (FormatRFC3339Nano (v_CreatedAt v))),
      (''generator'', Some (json_generator (v_Generator v)))]"

(*src internal/artifactgraph/domain/artifact.go:210-227#canonicalEnvelope*)
definition CanonicalEnvelope :: "Version \<Rightarrow> json \<Rightarrow> json" where
  "CanonicalEnvelope v content = struct (envelope_fields v content)"

text \<open>The envelope is marshalled first, so content that is not JSON fails before hashing.\<close>

(*src internal/artifactgraph/domain/artifact.go#Version.ComputeHash*)
definition ComputeHash :: "Version \<Rightarrow> ContentHash result" where
  "ComputeHash v = (case raw_value (v_Content v) of
       Inl err \<Rightarrow> Inl (WrappedError ''hash: canonicalizing content'' (WrappedError ''jcs: marshalling value'' err))
     | Inr content \<Rightarrow> Content (CanonicalEnvelope v content))"

(*src internal/artifactgraph/domain/artifact.go#Version.Verify*)
definition Version_Verify :: "Version \<Rightarrow> go_error option" where
  "Version_Verify v = (case ComputeHash v of
       Inl err \<Rightarrow> Some (Wrap err ''artifact.Verify'' KindInternal ''artifact.hash_failed'')
     | Inr got \<Rightarrow>
         if \<not> Equal got (v_ContentHash v)
         then Some (Tampered ''artifact.Verify'' ''artifact.integrity_violation'') else None)"

(*src internal/artifactgraph/domain/artifact.go#Version.Sealed*)
definition Sealed :: "Version \<Rightarrow> bool" where "Sealed v = IsSealed (v_Status v)"

(*src internal/artifactgraph/domain/artifact.go#Version.Mutable*)
definition Mutable :: "Version \<Rightarrow> bool" where "Mutable v \<longleftrightarrow> v_Status v = StatusDraft"

section \<open>Operations\<close>

(*src internal/artifactgraph/domain/artifact.go#Version.SetContent*)
definition SetContent :: "time \<Rightarrow> Version \<Rightarrow> string \<Rightarrow> go_error option \<times> Version" where
  "SetContent clock v content =
     (let op = ''artifact.SetContent'' in
      if \<not> Mutable v then (Some (Conflict op ''artifact.sealed_immutable''), v)
      else if valid_json content = None then (Some (Invalid op ''artifact.content_invalid''), v)
      else let v1 = v\<lparr>v_Content := content, v_UpdatedAt := Now clock\<rparr> in
        case ComputeHash v1 of
          Inl err \<Rightarrow> (Some (Wrap err op KindInternal ''artifact.hash_failed''), v1)
        | Inr h \<Rightarrow> (None, v1\<lparr>v_ContentHash := h\<rparr>))"

(*src internal/artifactgraph/domain/artifact.go:351-365#Version.Validate*)
definition Validate_approval :: "Version \<Rightarrow> go_error option" where
  "Validate_approval v =
     (let op = ''artifact.Validate'' in
      if v_Status v \<noteq> StatusApproved then None
      else if v_ApprovedBy v = None \<or> v_ApprovedAt v = None
      then Some (Invalid op ''artifact.approval_incomplete'')
      else if TrimSpace (v_ApprovalComment v) = ''''
      then Some (Invalid op ''artifact.approval_comment_required'')
      else case v_ApprovalEvidence v of
          Some e \<Rightarrow> if Evidence_Valid e then None
                    else Some (Invalid op ''artifact.approval_evidence_required'')
        | None \<Rightarrow> Some (Invalid op ''artifact.approval_evidence_required''))"

(*src internal/artifactgraph/domain/artifact.go#Version.Validate*)
definition Version_Validate :: "Version \<Rightarrow> go_error option" where
  "Version_Validate v =
     (let op = ''artifact.Validate'' in
      if Empty (v_TenantID v) \<or> Empty (v_ProjectID v) then Some (Invalid op ''artifact.scope_required'')
      else case ParseArtifactID (v_ArtifactID v) of
        Inl _ \<Rightarrow> Some (Invalid op ''artifact.id_invalid'')
      | Inr _ \<Rightarrow>
        if \<not> ArtifactType_Valid (v_Type v) then Some (Invalid op ''artifact.type_invalid'')
        else if v_Version v < 1 then Some (Invalid op ''artifact.version_invalid'')
        else if (v_Version v = 1) \<noteq> (v_PreviousVersion v = None) then Some (Invalid op ''artifact.chain_invalid'')
        else if (case v_PreviousVersion v of Some p \<Rightarrow> p \<noteq> v_Version v - 1 | None \<Rightarrow> False)
        then Some (Invalid op ''artifact.chain_gap'')
        else if v_ContentSchema v = '''' then Some (Invalid op ''artifact.content_schema_required'')
        else if length (v_Content v) = 0 \<and> v_ContentRef v = '''' then Some (Invalid op ''artifact.content_required'')
        else if length (v_Content v) > InlineContentLimit then Some (Invalid op ''artifact.content_too_large'')
        else case Generator_Validate (v_Generator v) of
          Some e \<Rightarrow> Some e
        | None \<Rightarrow> Validate_approval v)"

text \<open>A version literal with the fields the constructors leave at their zero values.\<close>

definition zero_version :: Version where
  "zero_version = \<lparr>v_TenantID = '''', v_ProjectID = '''', v_ArtifactID = '''', v_Version = 0, v_Type = '''',
     v_Status = '''', v_ContentSchema = '''', v_Content = '''', v_ContentRef = '''', v_ContentHash = '''',
     v_ParentArtifact = None, v_SourceArtifact = None, v_PreviousVersion = None, v_ChangeSummary = '''',
     v_Generator = \<lparr>g_Kind = '''', g_Analyzer = '''', g_AnalyzerVersion = '''', g_PromptVersion = '''',
       g_Model = '''', g_Provider = '''', g_Temperature = (False, 0, 0), g_GuardrailChainVersion = '''',
       g_InferenceID = '''', g_InputArtifacts = [], g_SourceSystem = '''', g_SourceRef = ''''\<rparr>,
     v_CreatedBy = '''', v_CreatedAt = 0, v_UpdatedAt = 0, v_ApprovedBy = None, v_ApprovedAt = None,
     v_ApprovalComment = '''', v_ApprovalEvidence = None, v_SealedAt = None, v_VersionNo = 0\<rparr>"

(*src internal/artifactgraph/domain/artifact.go#NewVersion*)
definition NewVersion ::
  "time \<Rightarrow> TenantID \<Rightarrow> ProjectID \<Rightarrow> ArtifactID \<Rightarrow> ArtifactType \<Rightarrow> string \<Rightarrow> string \<Rightarrow> Generator \<Rightarrow>
   PrincipalID \<Rightarrow> Version result" where
  "NewVersion clock tenantID projectID artifactID typ contentSchema0 content0 gen by' =
     (let op = ''artifact.NewVersion'';
          contentSchema = (if contentSchema0 = '''' then DefaultContentSchema typ else contentSchema0);
          content = (if length content0 = 0 then ''{}'' else content0);
          now = Now clock;
          v = zero_version\<lparr>v_TenantID := tenantID, v_ProjectID := projectID, v_ArtifactID := artifactID,
                v_Version := 1, v_Type := typ, v_Status := StatusDraft, v_ContentSchema := contentSchema,
                v_Content := content, v_Generator := gen, v_CreatedBy := by', v_CreatedAt := now,
                v_UpdatedAt := now, v_VersionNo := 1\<rparr>
      in checkR (valid_json content = None) (Invalid op ''artifact.content_invalid'') (
         failR (Version_Validate v) (
         case ComputeHash v of
           Inl err \<Rightarrow> Inl (Wrap err op KindInternal ''artifact.hash_failed'')
         | Inr h \<Rightarrow> Inr (v\<lparr>v_ContentHash := h\<rparr>))))"

(*src internal/artifactgraph/domain/artifact.go#Version.Revise*)
definition Version_Revise :: "time \<Rightarrow> Version \<Rightarrow> string \<Rightarrow> PrincipalID \<Rightarrow> Generator \<Rightarrow> Version result" where
  "Version_Revise clock v changeSummary by' gen =
     (let op = ''artifact.Revise''; now = Now clock;
          nxt = zero_version\<lparr>v_TenantID := v_TenantID v, v_ProjectID := v_ProjectID v,
            v_ArtifactID := v_ArtifactID v, v_Version := v_Version v + 1, v_Type := v_Type v,
            v_Status := StatusDraft, v_ContentSchema := v_ContentSchema v, v_Content := v_Content v,
            v_ContentRef := v_ContentRef v, v_ParentArtifact := v_ParentArtifact v,
            v_SourceArtifact := v_SourceArtifact v, v_PreviousVersion := Some (v_Version v),
            v_ChangeSummary := changeSummary, v_Generator := gen, v_CreatedBy := by',
            v_CreatedAt := now, v_UpdatedAt := now, v_VersionNo := 1\<rparr>
      in checkR (TrimSpace changeSummary = '''') (Invalid op ''artifact.change_summary_required'') (
         failR (Version_Validate nxt) (
         case ComputeHash nxt of
           Inl err \<Rightarrow> Inl (Wrap err op KindInternal ''artifact.hash_failed'')
         | Inr h \<Rightarrow> Inr (nxt\<lparr>v_ContentHash := h\<rparr>))))"

(*src internal/artifactgraph/domain/artifact.go#Version.SealApproval*)
definition SealApproval ::
  "Version \<Rightarrow> PrincipalID \<Rightarrow> string \<Rightarrow> ApprovalEvidence \<Rightarrow> time \<Rightarrow> go_error option \<times> Version" where
  "SealApproval v approver comment evidence at =
     (let op = ''artifact.SealApproval''; now = NormalizeTime at in
      if TrimSpace comment = '''' then (Some (Invalid op ''artifact.approval_comment_required''), v)
      else if \<not> Evidence_Valid evidence then (Some (Invalid op ''artifact.approval_evidence_required''), v)
      else if now = 0 then (Some (Invalid op ''artifact.approval_time_required''), v)
      else let v1 = v\<lparr>v_Status := StatusApproved, v_ApprovedBy := Some approver, v_ApprovedAt := Some now,
                v_ApprovalComment := comment, v_ApprovalEvidence := Some evidence, v_SealedAt := Some now,
                v_UpdatedAt := now\<rparr> in
        case ComputeHash v1 of
          Inl err \<Rightarrow> (Some (Wrap err op KindInternal ''artifact.hash_failed''), v1)
        | Inr after \<Rightarrow>
          if v_ContentHash v \<noteq> '''' \<and> after \<noteq> v_ContentHash v
          then (Some (Internal op ''artifact.hash_unstable''), v1)
          else let v2 = v1\<lparr>v_ContentHash := after\<rparr> in (Version_Validate v2, v2))"

section \<open>The lifecycle\<close>

(*src internal/artifactgraph/domain/artifact.go#requireContent*)
definition requireContent :: "Version Guard" where
  "requireContent v = (if length (v_Content v) = 0 \<and> v_ContentRef v = ''''
     then Some (Invalid ''artifact.requireContent'' ''artifact.content_required'') else None)"

(*src internal/artifactgraph/domain/artifact.go#requireSchema*)
definition requireSchema :: "Version Guard" where
  "requireSchema v = (if v_ContentSchema v = ''''
     then Some (Invalid ''artifact.requireSchema'' ''artifact.content_schema_required'') else None)"

(*src internal/artifactgraph/domain/artifact.go:519-577#Machine*)
definition artifact_def :: "Version Definition" where
  "artifact_def = \<lparr>
     def_Name = ''artifact'',
     def_Initial = StatusDraft,
     def_States = [StatusDraft, StatusAIReview, StatusUserReview, StatusChangesRequested,
       StatusApproved, StatusFrozen, StatusSuperseded, StatusAbandoned],
     def_Terminal = [StatusSuperseded, StatusAbandoned],
     def_Transitions = [
       plain_transition [StatusDraft] EventSubmitForAIReview StatusAIReview ''artifact:submit''
         [requireContent, requireSchema] ''artifact.submitted_for_ai_review'' ''artifact.submit_ai_review'',
       plain_transition [StatusAIReview] EventAIReviewPassed StatusUserReview ''''
         [] ''artifact.ai_review_passed'' ''artifact.ai_review_passed'',
       plain_transition [StatusAIReview] EventAIReviewBlocking StatusChangesRequested ''''
         [] ''artifact.changes_requested'' ''artifact.ai_review_blocking'',
       plain_transition [StatusDraft] EventSubmitForReview StatusUserReview ''artifact:submit''
         [requireContent, requireSchema] ''artifact.submitted_for_review'' ''artifact.submit'',
       plain_transition [StatusUserReview] EventRequestChanges StatusChangesRequested ''artifact:review''
         [] ''artifact.changes_requested'' ''artifact.request_changes'',
       plain_transition [StatusUserReview] EventApprove StatusApproved ''artifact:approve''
         [requireContent, requireSchema] ''artifact.approved'' ''artifact.approve'',
       plain_transition [StatusApproved] EventFreeze StatusFrozen ''artifact:freeze''
         [] ''artifact.frozen'' ''artifact.freeze'',
       plain_transition [StatusApproved, StatusFrozen] EventSupersede StatusSuperseded ''''
         [] ''artifact.superseded'' ''artifact.supersede'',
       plain_transition [StatusDraft, StatusChangesRequested] EventAbandon StatusAbandoned ''artifact:delete''
         [] ''artifact.abandoned'' ''artifact.abandon'']\<rparr>"

(*src internal/artifactgraph/domain/artifact.go:519-577#Machine*)
definition artifact_machine :: "Version Machine" where
  "artifact_machine = machine_of artifact_def"

section \<open>The lifecycle table is well formed\<close>

lemma artifact_wf: "wf_table artifact_def"
  by (simp add: wf_table_def artifact_def_def plain_transition_def status_defs event_defs)

interpretation art: lifecycle artifact_def artifact_machine
  by unfold_locales (simp add: Build_iff artifact_machine_def artifact_wf)

text \<open>The moves of the lifecycle: from which state, on which event, to which state and with which
  permission.\<close>

definition artifact_moves :: "(State \<times> Event \<times> State \<times> string) set" where
  "artifact_moves =
    {(StatusDraft, EventSubmitForAIReview, StatusAIReview, ''artifact:submit''),
     (StatusAIReview, EventAIReviewPassed, StatusUserReview, ''''),
     (StatusAIReview, EventAIReviewBlocking, StatusChangesRequested, ''''),
     (StatusDraft, EventSubmitForReview, StatusUserReview, ''artifact:submit''),
     (StatusUserReview, EventRequestChanges, StatusChangesRequested, ''artifact:review''),
     (StatusUserReview, EventApprove, StatusApproved, ''artifact:approve''),
     (StatusApproved, EventFreeze, StatusFrozen, ''artifact:freeze''),
     (StatusApproved, EventSupersede, StatusSuperseded, ''''),
     (StatusFrozen, EventSupersede, StatusSuperseded, ''''),
     (StatusDraft, EventAbandon, StatusAbandoned, ''artifact:delete''),
     (StatusChangesRequested, EventAbandon, StatusAbandoned, ''artifact:delete'')}"

lemma artifact_transitions:
  assumes "t \<in> set (def_Transitions artifact_def)" "s \<in> set (tr_From t)"
  shows "(s, tr_Event t, tr_To t, tr_Permission t) \<in> artifact_moves"
  using assms by (simp add: artifact_def_def plain_transition_def artifact_moves_def) (elim disjE; simp)

lemma artifact_no_effects: "t \<in> set (def_Transitions artifact_def) \<Longrightarrow> tr_Effects t = []"
  by (auto simp: artifact_def_def plain_transition_def)

lemma artifact_fire:
  assumes "Fire artifact_machine s e v chk = (Inr out, v')"
  shows "v' = v" and "out_From out = s" and "out_Event out = e" and "out_AuditAction out \<noteq> ''''"
    and "(s, e, out_To out, out_Permission out) \<in> artifact_moves"
    and "check_permission chk (out_Permission out) = None"
proof -
  from assms obtain t where t: "t \<in> set (def_Transitions artifact_def)" "s \<in> set (tr_From t)" "tr_Event t = e"
      "check_permission chk (tr_Permission t) = None" "run_effects (tr_Effects t) v = (None, v')"
      "out = \<lparr>out_From = s, out_To = tr_To t, out_Event = e, out_EmitEvent = tr_EmitEvent t,
               out_AuditAction = tr_AuditAction t, out_Permission = tr_Permission t\<rparr>"
    unfolding art.fire_ok_iff by blast
  show "v' = v" using t(1,5) artifact_no_effects by simp
  show "out_From out = s" "out_Event out = e" "check_permission chk (out_Permission out) = None"
    using t by simp_all
  show "out_AuditAction out \<noteq> ''''" using t(1,6) artifact_wf by (auto simp: wf_table_def)
  show "(s, e, out_To out, out_Permission out) \<in> artifact_moves"
    using artifact_transitions [OF t(1,2)] t(3,6) by simp
qed

text \<open>The moves into review and into the approved state carry the two content guards.\<close>

lemma artifact_guarded:
  assumes "t \<in> set (def_Transitions artifact_def)"
    "tr_To t \<in> {StatusAIReview, StatusUserReview, StatusApproved}" "tr_Event t \<noteq> EventAIReviewPassed"
  shows "tr_Guards t = [requireContent, requireSchema]"
  using assms
  by (simp add: artifact_def_def plain_transition_def) (elim disjE; simp add: status_defs event_defs)

lemma artifact_fire_guards:
  assumes "Fire artifact_machine s e v chk = (Inr out, v')"
    "out_To out \<in> {StatusAIReview, StatusUserReview, StatusApproved}" "e \<noteq> EventAIReviewPassed"
  shows "(v_Content v \<noteq> [] \<or> v_ContentRef v \<noteq> '''') \<and> v_ContentSchema v \<noteq> ''''"
proof -
  from assms(1) obtain t where t: "t \<in> set (def_Transitions artifact_def)" "tr_Event t = e"
      "\<forall>g \<in> set (tr_Guards t). g v = None" "out_To out = tr_To t"
    unfolding art.fire_ok_iff by auto
  with artifact_guarded [OF t(1)] assms(2,3) have "requireContent v = None" "requireSchema v = None"
    by simp_all
  then show ?thesis by (simp_all add: requireContent_def requireSchema_def split: if_splits)
qed

text \<open>C22: A version becomes approved only by the \<^verbatim>\<open>approve\<close> event in user review, and
  only if the permission check it was fired with (none, for the system principal) accepts
  \<^verbatim>\<open>artifact:approve\<close>. A version that is submitted to either review or approved has content, inline
  or by reference, and names the schema of its content. No event leads from a sealed state back to
  one that can be edited, and firing never changes the version itself.\<close>

theorem artifact_lifecycle_gate:
  assumes "Fire artifact_machine s e v chk = (Inr out, v')"
  shows "v' = v \<and>
    (out_To out = StatusApproved \<longrightarrow>
       s = StatusUserReview \<and> e = EventApprove \<and> (\<forall>c. chk = Some c \<longrightarrow> c ''artifact:approve'' = None)) \<and>
    (out_To out \<in> {StatusAIReview, StatusUserReview, StatusApproved} \<and> e \<noteq> EventAIReviewPassed \<longrightarrow>
       (v_Content v \<noteq> [] \<or> v_ContentRef v \<noteq> '''') \<and> v_ContentSchema v \<noteq> '''') \<and>
    (IsSealed s \<longrightarrow> IsSealed (out_To out))"
proof -
  note mv = artifact_fire [OF assms]
  have "out_To out = StatusApproved \<longrightarrow> s = StatusUserReview \<and> e = EventApprove \<and> out_Permission out = ''artifact:approve''"
    using mv(5) by (auto simp: artifact_moves_def status_defs)
  moreover have "IsSealed s \<longrightarrow> IsSealed (out_To out)"
    using mv(5) by (auto simp: artifact_moves_def IsSealed_def sealedStates_def status_defs)
  ultimately show ?thesis using mv(1,6) artifact_fire_guards [OF assms] by (auto simp: check_permission_def)
qed

section \<open>The content hash covers the content, not the lifecycle\<close>

text \<open>The fields the hash covers.\<close>

definition same_hashed :: "Version \<Rightarrow> Version \<Rightarrow> bool" where
  "same_hashed v w \<longleftrightarrow>
     v_ArtifactID v = v_ArtifactID w \<and> v_Type v = v_Type w \<and> v_Version v = v_Version w \<and>
     v_TenantID v = v_TenantID w \<and> v_ProjectID v = v_ProjectID w \<and> v_ContentSchema v = v_ContentSchema w \<and>
     v_Content v = v_Content w \<and> v_ContentRef v = v_ContentRef w \<and>
     v_ParentArtifact v = v_ParentArtifact w \<and> v_SourceArtifact v = v_SourceArtifact w \<and>
     v_PreviousVersion v = v_PreviousVersion w \<and> v_ChangeSummary v = v_ChangeSummary w \<and>
     v_CreatedBy v = v_CreatedBy w \<and> v_CreatedAt v = v_CreatedAt w \<and> v_Generator v = v_Generator w"

lemma CanonicalEnvelope_cong: "same_hashed v w \<Longrightarrow> CanonicalEnvelope v c = CanonicalEnvelope w c"
  by (simp add: same_hashed_def CanonicalEnvelope_def envelope_fields_def)

lemma ComputeHash_cong: "same_hashed v w \<Longrightarrow> ComputeHash v = ComputeHash w"
proof -
  assume s: "same_hashed v w"
  then have "v_Content v = v_Content w" by (simp add: same_hashed_def)
  then show ?thesis unfolding ComputeHash_def CanonicalEnvelope_cong [OF s] by simp
qed

lemma Version_Verify_None: "Version_Verify v = None \<longleftrightarrow> ComputeHash v = Inr (v_ContentHash v)"
  by (auto simp: Version_Verify_def Equal_def split: sum.splits)

lemma Version_Verify_cong:
  "same_hashed v w \<Longrightarrow> v_ContentHash v = v_ContentHash w \<Longrightarrow> Version_Verify v = Version_Verify w"
  unfolding Version_Verify_def by (simp only: ComputeHash_cong [of v w])

lemma ComputeHash_valid: "ComputeHash v = Inr h \<Longrightarrow> ContentHash_Valid h"
  by (auto simp: ComputeHash_def Content_def ContentOfBytes_valid split: sum.splits)

lemma SealApproval_None:
  assumes "SealApproval v approver comment evidence at = (None, w)"
  shows "same_hashed v w" "Version_Verify w = None" "Version_Validate w = None"
    "v_Status w = StatusApproved" "v_ApprovedBy w = Some approver" "v_ApprovedAt w = Some (NormalizeTime at)"
    "v_ApprovalEvidence w = Some evidence" "v_SealedAt w = Some (NormalizeTime at)"
    "v_ContentHash v \<noteq> '''' \<longrightarrow> v_ContentHash w = v_ContentHash v" "v_VersionNo w = v_VersionNo v"
    "v_UpdatedAt w = NormalizeTime at" "v_ApprovalComment w = comment" "Evidence_Valid evidence"
    "TrimSpace comment \<noteq> ''''"
proof -
  let ?now = "NormalizeTime at"
  let ?v1 = "v\<lparr>v_Status := StatusApproved, v_ApprovedBy := Some approver, v_ApprovedAt := Some ?now,
      v_ApprovalComment := comment, v_ApprovalEvidence := Some evidence, v_SealedAt := Some ?now,
      v_UpdatedAt := ?now\<rparr>"
  obtain h where h: "ComputeHash ?v1 = Inr h" "w = ?v1\<lparr>v_ContentHash := h\<rparr>" "Version_Validate w = None"
      "v_ContentHash v \<noteq> '''' \<longrightarrow> h = v_ContentHash v" "Evidence_Valid evidence" "TrimSpace comment \<noteq> ''''"
    using assms by (auto simp: SealApproval_def Let_def split: if_splits sum.splits)
  have "ComputeHash w = ComputeHash ?v1" by (rule ComputeHash_cong) (simp add: same_hashed_def h(2))
  then show "Version_Verify w = None" by (simp add: Version_Verify_None h)
  show "same_hashed v w" by (simp add: same_hashed_def h(2))
  show "Version_Validate w = None" "v_Status w = StatusApproved" "v_ApprovedBy w = Some approver"
    "v_ApprovedAt w = Some ?now" "v_ApprovalEvidence w = Some evidence" "v_SealedAt w = Some ?now"
    "v_ContentHash v \<noteq> '''' \<longrightarrow> v_ContentHash w = v_ContentHash v" "v_VersionNo w = v_VersionNo v"
    "v_UpdatedAt w = ?now" "v_ApprovalComment w = comment" "Evidence_Valid evidence" "TrimSpace comment \<noteq> ''''"
    using h by simp_all
qed

text \<open>Sealing attests exactly the bytes that were reviewed. For a version that passes its
  integrity check, \<^verbatim>\<open>SealApproval\<close> with a comment, resolvable evidence and an instant never
  reports an unstable hash; when it succeeds, every hashed field and the content hash are those of
  the reviewed version, the result passes the integrity check and the validation, and it records
  approver, evidence and instant.\<close>

theorem SealApproval_stable:
  assumes "Version_Verify v = None" "TrimSpace comment \<noteq> ''''" "Evidence_Valid evidence"
    "NormalizeTime at \<noteq> 0" "SealApproval v approver comment evidence at = (r, w)"
  shows "same_hashed v w \<and> v_ContentHash w = v_ContentHash v \<and> Version_Verify w = None \<and>
    v_Status w = StatusApproved \<and> v_ApprovedBy w = Some approver \<and>
    v_ApprovedAt w = Some (NormalizeTime at) \<and> v_ApprovalEvidence w = Some evidence \<and>
    r = Version_Validate w"
proof -
  let ?now = "NormalizeTime at"
  let ?v1 = "v\<lparr>v_Status := StatusApproved, v_ApprovedBy := Some approver, v_ApprovedAt := Some ?now,
      v_ApprovalComment := comment, v_ApprovalEvidence := Some evidence, v_SealedAt := Some ?now,
      v_UpdatedAt := ?now\<rparr>"
  have "ComputeHash ?v1 = ComputeHash v" by (rule ComputeHash_cong) (simp add: same_hashed_def)
  then have c: "ComputeHash ?v1 = Inr (v_ContentHash v)" using assms(1) by (simp add: Version_Verify_None)
  then have w: "w = ?v1" "r = Version_Validate w"
    using assms(2-5) by (auto simp: SealApproval_def Let_def)
  show ?thesis using c by (simp add: w same_hashed_def Version_Verify_None)
qed

section \<open>New versions\<close>

text \<open>The stored hash is not an input of validation.\<close>

lemma Version_Validate_hash [simp]: "Version_Validate (v\<lparr>v_ContentHash := h\<rparr>) = Version_Validate v"
proof -
  have "Validate_approval (v\<lparr>v_ContentHash := h\<rparr>) = Validate_approval v"
    by (simp add: Validate_approval_def Let_def cong: if_cong)
  then show ?thesis by (simp add: Version_Validate_def Let_def cong: if_cong sum.case_cong option.case_cong)
qed

lemma NewVersion_Inr:
  assumes "NewVersion clock t p aid typ sch content gen who = Inr v"
  shows "v_Version v = 1" "v_PreviousVersion v = None" "v_Status v = StatusDraft" "v_VersionNo v = 1"
    "v_TenantID v = t" "v_ProjectID v = p" "v_ArtifactID v = aid" "v_Type v = typ" "v_CreatedBy v = who"
    "Version_Validate v = None" "Version_Verify v = None" "v_CreatedAt v = NormalizeTime clock"
proof -
  obtain u where u: "Version_Validate u = None" "ComputeHash u = Inr (v_ContentHash v)"
      "v = u\<lparr>v_ContentHash := v_ContentHash v\<rparr>" "v_Version u = 1" "v_PreviousVersion u = None"
      "v_Status u = StatusDraft" "v_VersionNo u = 1" "v_TenantID u = t" "v_ProjectID u = p"
      "v_ArtifactID u = aid" "v_Type u = typ" "v_CreatedBy u = who" "v_CreatedAt u = NormalizeTime clock"
    using assms by (auto simp: NewVersion_def Let_def zero_version_def Now_def monad_inv split: sum.splits)
  have "same_hashed u v" by (subst u(3)) (simp add: same_hashed_def)
  then show "Version_Verify v = None" using u(2) by (simp add: Version_Verify_None ComputeHash_cong)
  show "Version_Validate v = None" using u(1) by (subst u(3)) simp
  show "v_Version v = 1" "v_PreviousVersion v = None" "v_Status v = StatusDraft" "v_VersionNo v = 1"
    "v_TenantID v = t" "v_ProjectID v = p" "v_ArtifactID v = aid" "v_Type v = typ" "v_CreatedBy v = who"
    "v_CreatedAt v = NormalizeTime clock"
    by (subst u(3), simp add: u(4-))+
qed

lemma Version_Revise_Inr:
  assumes "Version_Revise clock v summary who gen = Inr w"
  shows "v_Version w = v_Version v + 1" "v_PreviousVersion w = Some (v_Version v)"
    "v_Status w = StatusDraft" "v_Content w = v_Content v" "v_ArtifactID w = v_ArtifactID v"
    "v_TenantID w = v_TenantID v" "v_ProjectID w = v_ProjectID v" "v_Type w = v_Type v" "v_VersionNo w = 1"
    "Version_Validate w = None" "Version_Verify w = None" "TrimSpace summary \<noteq> ''''" "v_CreatedBy w = who"
    "v_ApprovalEvidence w = None" "v_CreatedAt w = NormalizeTime clock" "v_SealedAt w = None"
proof -
  obtain u where u: "Version_Validate u = None" "ComputeHash u = Inr (v_ContentHash w)"
      "w = u\<lparr>v_ContentHash := v_ContentHash w\<rparr>" "v_Version u = v_Version v + 1"
      "v_PreviousVersion u = Some (v_Version v)" "v_Status u = StatusDraft" "v_Content u = v_Content v"
      "v_ArtifactID u = v_ArtifactID v" "v_TenantID u = v_TenantID v" "v_ProjectID u = v_ProjectID v"
      "v_Type u = v_Type v" "v_VersionNo u = 1" "v_CreatedBy u = who" "v_ApprovalEvidence u = None"
      "v_CreatedAt u = NormalizeTime clock" "v_SealedAt u = None" "TrimSpace summary \<noteq> ''''"
    using assms by (auto simp: Version_Revise_def Let_def zero_version_def Now_def monad_inv split: sum.splits)
  have "same_hashed u w" by (subst u(3)) (simp add: same_hashed_def)
  then show "Version_Verify w = None" using u(2) by (simp add: Version_Verify_None ComputeHash_cong)
  show "Version_Validate w = None" using u(1) by (subst u(3)) simp
  show "v_Version w = v_Version v + 1" "v_PreviousVersion w = Some (v_Version v)"
    "v_Status w = StatusDraft" "v_Content w = v_Content v" "v_ArtifactID w = v_ArtifactID v"
    "v_TenantID w = v_TenantID v" "v_ProjectID w = v_ProjectID v" "v_Type w = v_Type v" "v_VersionNo w = 1"
    "v_CreatedBy w = who" "v_ApprovalEvidence w = None" "v_CreatedAt w = NormalizeTime clock"
    "v_SealedAt w = None"
    by (subst u(3), simp add: u(4-))+
  show "TrimSpace summary \<noteq> ''''" by (rule u)
qed

section \<open>The hash pins the envelope\<close>

lemma json_ref_wf: "wf_struct (json_ref r)"
  unfolding json_ref_def by (rule struct_wf) (simp_all add: is_ascii_def)

lemma json_generator_wf: "wf_struct (json_generator g)"
  unfolding json_generator_def by (rule struct_wf) (simp_all add: is_ascii_def json_ref_wf list_all_iff)

lemma envelope_keys: "distinct (map fst (envelope_fields v c))" "list_all is_ascii (map fst (envelope_fields v c))"
  by (simp_all add: envelope_fields_def is_ascii_def)

lemma envelope_wf: "wf_struct c \<Longrightarrow> wf_struct (struct (envelope_fields v c))"
  by (rule struct_wf [OF envelope_keys])
     (simp add: envelope_fields_def option.pred_map comp_def json_ref_wf json_generator_wf option.pred_True)

lemma raw_value_wf: "raw_value s = Inr c \<Longrightarrow> wf_json c"
  by (auto simp: raw_value_def valid_json_def dest: Decode_wf split: if_splits option.splits)

text \<open>The bytes that are hashed.\<close>

definition hashed_bytes :: "Version \<Rightarrow> string result" where
  "hashed_bytes v = bindR (raw_value (v_Content v)) (\<lambda>c. Canonicalize (CanonicalEnvelope v c))"

lemma ComputeHash_bytes: "ComputeHash v = Inr h \<longleftrightarrow> (\<exists>b. hashed_bytes v = Inr b \<and> h = ContentOfBytes b)"
  by (auto simp: ComputeHash_def hashed_bytes_def Content_def split: sum.splits)

text \<open>Two versions agree on what identifies them and on their content, as the hash sees them:
  strings up to the replacement of invalid UTF-8, content as a canonical JSON value.\<close>

definition agree_hashed :: "Version \<Rightarrow> Version \<Rightarrow> bool" where
  "agree_hashed v w \<longleftrightarrow>
     sanitize_string (v_ArtifactID v) = sanitize_string (v_ArtifactID w) \<and>
     sanitize_string (v_Type v) = sanitize_string (v_Type w) \<and>
     v_Version v = v_Version w \<and>
     sanitize_string (v_TenantID v) = sanitize_string (v_TenantID w) \<and>
     sanitize_string (v_ProjectID v) = sanitize_string (v_ProjectID w) \<and>
     sanitize_string (v_ContentSchema v) = sanitize_string (v_ContentSchema w) \<and>
     sanitize_string (v_ContentRef v) = sanitize_string (v_ContentRef w) \<and>
     sanitize_string (v_ChangeSummary v) = sanitize_string (v_ChangeSummary w) \<and>
     sanitize_string (v_CreatedBy v) = sanitize_string (v_CreatedBy w) \<and>
     (\<exists>c d. raw_value (v_Content v) = Inr c \<and> raw_value (v_Content w) = Inr d \<and> canon c = canon d)"

lemma same_bytes_agree:
  assumes v: "hashed_bytes v = Inr b" "abs (v_Version v) < 10 ^ 15"
    and w: "hashed_bytes w = Inr b" "abs (v_Version w) < 10 ^ 15"
  shows "agree_hashed v w"
proof -
  obtain c where c: "raw_value (v_Content v) = Inr c" "Canonicalize (struct (envelope_fields v c)) = Inr b"
    using v(1) by (auto simp: hashed_bytes_def bindR_Inr CanonicalEnvelope_def)
  obtain d where d: "raw_value (v_Content w) = Inr d" "Canonicalize (struct (envelope_fields w d)) = Inr b"
    using w(1) by (auto simp: hashed_bytes_def bindR_Inr CanonicalEnvelope_def)
  have wf: "wf_json c" "wf_json d" using raw_value_wf c(1) d(1) by blast+
  note fields = struct_fields_eq [OF envelope_keys envelope_keys
      envelope_wf [OF wf_json_struct [OF wf(1)]] envelope_wf [OF wf_json_struct [OF wf(2)]] c(2) d(2)]
  note ev = envelope_fields_def str_def str_opt_def
  have "canon c = canon d" using fields [of "''content''"] wf by (simp add: ev sanitize_wf)
  moreover have "v_Version v = v_Version w"
    using fields [of "''version''"] canon_int_eq [OF v(2) w(2)] by (simp add: ev)
  moreover have "sanitize_string (v_ContentRef v) = sanitize_string (v_ContentRef w)"
    using fields [of "''content_ref''"] by (simp add: ev split: if_splits)
  moreover have "sanitize_string (v_ArtifactID v) = sanitize_string (v_ArtifactID w)"
    using fields [of "''artifact_id''"] by (simp add: ev)
  moreover have "sanitize_string (v_Type v) = sanitize_string (v_Type w)"
    using fields [of "''artifact_type''"] by (simp add: ev)
  moreover have "sanitize_string (v_TenantID v) = sanitize_string (v_TenantID w)"
    using fields [of "''tenant_id''"] by (simp add: ev)
  moreover have "sanitize_string (v_ProjectID v) = sanitize_string (v_ProjectID w)"
    using fields [of "''project_id''"] by (simp add: ev)
  moreover have "sanitize_string (v_ContentSchema v) = sanitize_string (v_ContentSchema w)"
    using fields [of "''content_schema''"] by (simp add: ev)
  moreover have "sanitize_string (v_ChangeSummary v) = sanitize_string (v_ChangeSummary w)"
    using fields [of "''change_summary''"] by (simp add: ev)
  moreover have "sanitize_string (v_CreatedBy v) = sanitize_string (v_CreatedBy w)"
    using fields [of "''created_by''"] by (simp add: ev)
  ultimately show ?thesis using c(1) d(1) unfolding agree_hashed_def by blast
qed

text \<open>C23: The content hash pins what it covers. Two versions that both pass the integrity check
  and carry the same content hash agree on identity, scope, schema, author, change summary and
  canonical content; otherwise their canonical envelopes are two different byte strings with the
  same SHA-256 digest.\<close>

theorem content_hash_pins_version:
  assumes "Version_Verify v = None" "Version_Verify w = None" "v_ContentHash v = v_ContentHash w"
    and "abs (v_Version v) < 10 ^ 15" "abs (v_Version w) < 10 ^ 15"
  shows "agree_hashed v w \<or>
    (\<exists>a b. hashed_bytes v = Inr a \<and> hashed_bytes w = Inr b \<and> a \<noteq> b \<and> Sum256 a = Sum256 b)"
proof -
  obtain a b where ab: "hashed_bytes v = Inr a" "hashed_bytes w = Inr b"
      "ContentOfBytes a = ContentOfBytes b"
    using assms(1-3) unfolding Version_Verify_None ComputeHash_bytes by auto
  show ?thesis
  proof (cases "a = b")
    case True
    then show ?thesis using same_bytes_agree ab assms(4,5) by blast
  next
    case False
    then show ?thesis using ab by (auto simp: ContentOfBytes_eq)
  qed
qed

section \<open>Hashing succeeds\<close>

definition valid_refs :: "ArtifactRef list \<Rightarrow> bool" where
  "valid_refs rs = list_all (\<lambda>r. abs (ref_Version r) < 10 ^ 15) rs"

text \<open>The numbers of a version are in the range of exactly represented integers, and its content
  is JSON that the canonicalizer accepts.\<close>

definition hashable :: "Version \<Rightarrow> bool" where
  "hashable v \<longleftrightarrow>
     abs (v_Version v) < 10 ^ 15 \<and> pred_option (\<lambda>p. abs p < 10 ^ 15) (v_PreviousVersion v) \<and>
     pred_option (\<lambda>r. valid_refs [r]) (v_ParentArtifact v) \<and> pred_option (\<lambda>r. valid_refs [r]) (v_SourceArtifact v) \<and>
     valid_refs (g_InputArtifacts (v_Generator v)) \<and> valid_f64 (snd (g_Temperature (v_Generator v))) \<and>
     (\<exists>c. raw_value (v_Content v) = Inr c \<and> all_nums representable c \<and> depth c < maxNestingDepth)"

lemma json_ref_nums: "valid_refs [r] \<Longrightarrow> all_nums representable (json_ref r)"
  by (simp add: json_ref_def struct_nums valid_refs_def representable_int)

lemma json_ref_depth: "depth (json_ref r) \<le> Suc 0"
  by (simp add: json_ref_def struct_depth str_def)

lemma generator_nums:
  "valid_refs (g_InputArtifacts g) \<Longrightarrow> valid_f64 (snd (g_Temperature g)) \<Longrightarrow> all_nums representable (json_generator g)"
  using representable_float [of "snd (g_Temperature g)" "fst (g_Temperature g)"]
  by (auto simp: json_generator_def struct_nums list_all_iff valid_refs_def intro!: json_ref_nums)

lemma generator_depth: "depth (json_generator g) \<le> 3"
proof -
  have "depth (JArray (map json_ref rs)) \<le> 2" for rs
  proof (induction rs)
    case (Cons r rs)
    then show ?case using json_ref_depth [of r] by auto
  qed simp
  then show ?thesis
    unfolding json_generator_def numeral_3_eq_3 struct_depth by (simp add: numeral_2_eq_2)
qed

lemma ComputeHash_total: "hashable v \<Longrightarrow> \<exists>h. ComputeHash v = Inr h"
proof -
  assume h: "hashable v"
  then obtain c where c: "raw_value (v_Content v) = Inr c" "all_nums representable c" "depth c < maxNestingDepth"
    by (auto simp: hashable_def)
  have "all_nums representable (struct (envelope_fields v c))"
    using h c(2) unfolding struct_nums envelope_fields_def hashable_def
    by (auto simp: option.pred_set representable_int json_ref_nums generator_nums str_def str_opt_def)
  moreover have "depth (struct (envelope_fields v c)) \<le> Suc (maxNestingDepth - 1)"
  proof -
    have "depth (json_ref r) \<le> maxNestingDepth - 1" "depth (json_generator g) \<le> maxNestingDepth - 1" for r g
      using json_ref_depth [of r] generator_depth [of g] by (simp_all add: maxNestingDepth_def)
    then show ?thesis unfolding struct_depth envelope_fields_def
      using c(3) by (auto simp: option.pred_set str_def str_opt_def)
  qed
  ultimately obtain b where "Canonicalize (CanonicalEnvelope v c) = Inr b"
    using Canonicalize_total [of "struct (envelope_fields v c)"]
    by (auto simp: CanonicalEnvelope_def maxNestingDepth_def)
  then show ?thesis using c(1) by (simp add: ComputeHash_def Content_def)
qed

text \<open>Adding references whose versions are small enough does not make hashing fail.\<close>

lemma ComputeHash_refs:
  assumes "ComputeHash v = Inr h" "pred_option (\<lambda>r. valid_refs [r]) p" "pred_option (\<lambda>r. valid_refs [r]) s"
  shows "\<exists>h'. ComputeHash (v\<lparr>v_ParentArtifact := p, v_SourceArtifact := s\<rparr>) = Inr h'"
proof -
  let ?v = "v\<lparr>v_ParentArtifact := p, v_SourceArtifact := s\<rparr>"
  obtain c b where c: "raw_value (v_Content v) = Inr c" "Canonicalize (CanonicalEnvelope v c) = Inr b"
    using assms(1) by (auto simp: ComputeHash_def Content_def split: sum.splits)
  then have n: "all_nums representable (struct (envelope_fields v c))"
      "depth (struct (envelope_fields v c)) \<le> Suc (maxNestingDepth - 1)"
    using Canonicalize_succeeds [of "CanonicalEnvelope v c"] by (auto simp: CanonicalEnvelope_def maxNestingDepth_def)
  have "all_nums representable (struct (envelope_fields ?v c))"
    using n(1) assms(2,3) unfolding struct_nums envelope_fields_def by (auto simp: option.pred_set json_ref_nums)
  moreover have "depth (json_ref r) \<le> maxNestingDepth - 1" for r
    using json_ref_depth [of r] by (simp add: maxNestingDepth_def)
  then have "depth (struct (envelope_fields ?v c)) \<le> Suc (maxNestingDepth - 1)"
    using n(2) unfolding struct_depth envelope_fields_def by (auto simp: option.pred_set)
  ultimately obtain b' where "Canonicalize (CanonicalEnvelope ?v c) = Inr b'"
    using Canonicalize_succeeds [of "CanonicalEnvelope ?v c"] by (auto simp: CanonicalEnvelope_def maxNestingDepth_def)
  then show ?thesis using c(1) by (simp add: ComputeHash_def Content_def)
qed

lemma valid_f64_0 [simp]: "valid_f64 (0, 0)"
  by (simp add: valid_f64_def)

section \<open>Witnesses\<close>

definition empty_object :: string where "empty_object = ''{}''"

lemma empty_object_json: "valid_json empty_object = Some (JObject [])" "raw_value empty_object = Inr (JObject [])"
  by (simp_all add: raw_value_def valid_json_def empty_object_def json_eval)

definition user_generator :: Generator where
  "user_generator = (v_Generator zero_version)\<lparr>g_Kind := GeneratedByUser\<rparr>"

definition reviewed0 :: Version where
  "reviewed0 = zero_version\<lparr>v_TenantID := ''t1'', v_ProjectID := ''j1'', v_ArtifactID := ''SPEC-001'',
     v_Version := 1, v_Type := ArtifactSpecification, v_Status := StatusUserReview,
     v_ContentSchema := ''specforge.spec.v1'', v_Content := empty_object, v_Generator := user_generator,
     v_CreatedBy := ''u1'', v_CreatedAt := 5000, v_UpdatedAt := 5000, v_VersionNo := 1\<rparr>"

lemma reviewed0_hashable: "hashable reviewed0"
  by (simp add: hashable_def reviewed0_def zero_version_def user_generator_def valid_refs_def
      empty_object_json maxNestingDepth_def)

text \<open>The same version with the hash the code stores.\<close>

definition reviewed :: Version where
  "reviewed = reviewed0\<lparr>v_ContentHash := (case ComputeHash reviewed0 of Inr h \<Rightarrow> h | Inl _ \<Rightarrow> '''')\<rparr>"

lemma reviewed_verifies: "Version_Verify reviewed = None"
proof -
  obtain h where h: "ComputeHash reviewed0 = Inr h" using ComputeHash_total [OF reviewed0_hashable] by blast
  have "ComputeHash reviewed = ComputeHash reviewed0"
    by (rule ComputeHash_cong) (simp add: reviewed_def same_hashed_def)
  then show ?thesis unfolding Version_Verify_None by (simp add: h reviewed_def)
qed

definition some_evidence :: ApprovalEvidence where
  "some_evidence = \<lparr>ev_EvidenceID = ''e1'', ev_Digest = ContentOfBytes ''doc'', ev_MediaType = ''application/json'',
     ev_StorageRef = ''objects/e1'', ev_GateDecisions = [], ev_PolicySetVersion = ''builtin@v1'',
     ev_ApproverAuthTime = 0, ev_ApproverTokenID = ''''\<rparr>"

lemma some_evidence_valid: "Evidence_Valid some_evidence"
  by (simp add: Evidence_Valid_def some_evidence_def ContentOfBytes_valid)

lemma TrimSpace_ok: "TrimSpace ''ok'' = ''ok''"
  by (rule TrimSpace_id) (simp_all add: graphic_def)

theorem SealApproval_stable_witness:
  "v_ContentHash (snd (SealApproval reviewed ''u2'' ''ok'' some_evidence 9000)) = v_ContentHash reviewed \<and>
   v_Status (snd (SealApproval reviewed ''u2'' ''ok'' some_evidence 9000)) = StatusApproved"
  using SealApproval_stable [OF reviewed_verifies _ some_evidence_valid, of "''ok''" 9000 "''u2''"
      "fst (SealApproval reviewed ''u2'' ''ok'' some_evidence 9000)"
      "snd (SealApproval reviewed ''u2'' ''ok'' some_evidence 9000)"]
  by (simp add: TrimSpace_ok NormalizeTime_def Microsecond_def)

theorem artifact_lifecycle_gate_witness:
  "snd (Fire artifact_machine StatusUserReview EventApprove reviewed (Some (\<lambda>_. None))) = reviewed \<and>
   isl (fst (Fire artifact_machine StatusUserReview EventApprove reviewed (Some (\<lambda>_. None)))) = False"
proof -
  obtain out where o: "Fire artifact_machine StatusUserReview EventApprove reviewed (Some (\<lambda>_. None)) = (Inr out, reviewed)"
    unfolding art.fire_ok_iff
    by (auto simp: artifact_def_def plain_transition_def check_permission_def requireContent_def
        requireSchema_def reviewed_def reviewed0_def empty_object_def status_defs event_defs)
  from artifact_lifecycle_gate [OF this] o show ?thesis by simp
qed

theorem content_hash_pins_version_witness:
  "agree_hashed reviewed (reviewed\<lparr>v_Status := StatusApproved\<rparr>) \<or>
   (\<exists>a b. hashed_bytes reviewed = Inr a \<and> hashed_bytes (reviewed\<lparr>v_Status := StatusApproved\<rparr>) = Inr b \<and>
      a \<noteq> b \<and> Sum256 a = Sum256 b)"
proof (rule content_hash_pins_version)
  show "Version_Verify (reviewed\<lparr>v_Status := StatusApproved\<rparr>) = None"
    using reviewed_verifies Version_Verify_cong [of "reviewed\<lparr>v_Status := StatusApproved\<rparr>" reviewed]
    by (simp add: same_hashed_def)
qed (simp_all add: reviewed_verifies, simp_all add: reviewed_def reviewed0_def)

end
