(* ===== verification/TraceLink.thy ===== *)
theory TraceLink
  imports Artifact
begin

text \<open>
  \<^verbatim>\<open>internal/artifactgraph/domain/tracelink.go\<close>: trace links, their disposition and the grading
  of impact. A confidence is a finite double (sign and magnitude): it comes from JSON or from a
  numeric column, neither of which has NaN or infinities. The severities are only ever produced by
  the functions below, so they are a datatype, ordered by \<^verbatim>\<open>severityRank\<close>.
\<close>

section \<open>Links\<close>

(*src internal/artifactgraph/domain/tracelink.go#TraceLink*)
record TraceLink =
  l_TenantID :: TenantID
  l_ProjectID :: ProjectID
  l_LinkID :: LinkID
  l_From :: ArtifactRef
  l_To :: ArtifactRef
  l_Type :: LinkType
  l_Origin :: LinkOrigin
  l_Confidence :: "bool \<times> f64"
  l_Status :: LinkStatus
  l_Rationale :: string
  l_Evidence :: string
  l_DispositionID :: "string option"
  l_CreatedBy :: PrincipalID
  l_CreatedAt :: time
  l_UpdatedAt :: time
  l_VersionNo :: int

(*src internal/artifactgraph/domain/tracelink.go#defaultStatusFor*)
definition defaultStatusFor :: "LinkOrigin \<Rightarrow> bool \<times> f64 \<Rightarrow> LinkStatus" where
  "defaultStatusFor origin confidence =
     (if origin = OriginHuman then LinkAccepted
      else if origin = OriginAnalyzer then
        (if f64_units confidence \<ge> f64_one then LinkAccepted else LinkProposed)
      else LinkProposed)"

(*src internal/artifactgraph/domain/tracelink.go#NewTraceLink*)
definition NewTraceLink ::
  "time \<Rightarrow> TenantID \<Rightarrow> ProjectID \<Rightarrow> LinkID \<Rightarrow> ArtifactRef \<Rightarrow> ArtifactRef \<Rightarrow> LinkType \<Rightarrow> LinkOrigin \<Rightarrow>
   bool \<times> f64 \<Rightarrow> PrincipalID \<Rightarrow> TraceLink result" where
  "NewTraceLink clock tenantID projectID linkID from to linkType origin confidence by' =
     (let op = ''artifact.NewTraceLink''; now = Now clock in
      checkR (\<not> LinkType_Valid linkType) (Invalid op ''link.type_invalid'') (
      checkR (\<not> LinkOrigin_Valid origin) (Invalid op ''link.origin_invalid'') (
      checkR (f64_units confidence < 0 \<or> f64_units confidence > f64_one)
        (Invalid op ''link.confidence_invalid'') (
      checkR (ArtifactRef_Zero from \<or> ArtifactRef_Zero to) (Invalid op ''link.endpoints_required'') (
      checkR (ref_ArtifactID from = ref_ArtifactID to \<and> ref_Version from = ref_Version to)
        (Invalid op ''link.self_reference'') (
      Inr \<lparr>l_TenantID = tenantID, l_ProjectID = projectID, l_LinkID = linkID, l_From = from, l_To = to,
           l_Type = linkType, l_Origin = origin, l_Confidence = confidence,
           l_Status = defaultStatusFor origin confidence, l_Rationale = '''', l_Evidence = '''',
           l_DispositionID = None, l_CreatedBy = by', l_CreatedAt = now, l_UpdatedAt = now,
           l_VersionNo = 1\<rparr>))))))"

(*src internal/artifactgraph/domain/tracelink.go#TraceLink.Accept*)
definition Accept :: "time \<Rightarrow> TraceLink \<Rightarrow> string \<Rightarrow> PrincipalID \<Rightarrow> go_error option \<times> TraceLink" where
  "Accept clock l dispositionID by' =
     (let op = ''artifact.AcceptLink'' in
      if l_Status l = LinkAccepted then (None, l)
      else if l_Status l = LinkRejected then (Some (Conflict op ''link.rejected''), l)
      else if RequiresDisposition (l_Origin l) \<and> dispositionID = ''''
      then (Some (Precondition op ''link.disposition_required''), l)
      else let l1 = l\<lparr>l_Status := LinkAccepted\<rparr>;
               l2 = (if dispositionID \<noteq> '''' then l1\<lparr>l_DispositionID := Some dispositionID\<rparr> else l1)
        in (None, l2\<lparr>l_UpdatedAt := Now clock\<rparr>))"

(*src internal/artifactgraph/domain/tracelink.go#TraceLink.Reject*)
definition Reject :: "time \<Rightarrow> TraceLink \<Rightarrow> string \<Rightarrow> PrincipalID \<Rightarrow> go_error option \<times> TraceLink" where
  "Reject clock l rationale by' =
     (if rationale = '''' then (Some (Invalid ''artifact.RejectLink'' ''link.rationale_required''), l)
      else (None, l\<lparr>l_Status := LinkRejected, l_Rationale := rationale, l_UpdatedAt := Now clock\<rparr>))"

(*src internal/artifactgraph/domain/tracelink.go#TraceLink.MarkStale*)
definition MarkStale :: "time \<Rightarrow> TraceLink \<Rightarrow> string \<Rightarrow> TraceLink" where
  "MarkStale clock l reason =
     l\<lparr>l_Status := LinkStale, l_Rationale := reason, l_UpdatedAt := Now clock\<rparr>"

(*src internal/artifactgraph/domain/tracelink.go#TraceLink.Active*)
definition Active :: "TraceLink \<Rightarrow> bool" where "Active l \<longleftrightarrow> l_Status l = LinkAccepted"

section \<open>Traversal results\<close>

type_synonym Direction = string

definition Upstream :: Direction where "Upstream = ''UPSTREAM''"
definition Downstream :: Direction where "Downstream = ''DOWNSTREAM''"

lemma direction_distinct [simp]: "Upstream \<noteq> Downstream" "Downstream \<noteq> Upstream"
  by (simp_all add: Upstream_def Downstream_def)

(*src internal/artifactgraph/domain/tracelink.go#TraverseSpec*)
record TraverseSpec =
  ts_TenantID :: TenantID
  ts_ProjectID :: ProjectID
  ts_Start :: ArtifactRef
  ts_Direction :: Direction
  ts_LinkTypes :: "LinkType list"
  ts_ArtifactTypes :: "ArtifactType list"
  ts_MaxDepth :: int
  ts_IncludeProposed :: bool

(*src internal/artifactgraph/domain/tracelink.go#Hop*)
record Hop =
  h_From :: ArtifactRef
  h_To :: ArtifactRef
  h_LinkType :: LinkType
  h_Origin :: LinkOrigin
  h_Confidence :: "bool \<times> f64"
  h_Status :: LinkStatus

(*src internal/artifactgraph/domain/tracelink.go#Path*)
record Path =
  p_Target :: ArtifactRef
  p_Type :: ArtifactType
  p_Title :: string
  p_Status :: string
  p_Hops :: "Hop list"
  p_Depth :: int

(*src internal/artifactgraph/domain/tracelink.go#Paths*)
record Paths =
  ps_Start :: ArtifactRef
  ps_Direction :: Direction
  ps_Paths :: "Path list"
  ps_Truncated :: bool

section \<open>Impact severity\<close>

(*src internal/artifactgraph/domain/tracelink.go:205-213#ImpactSeverity*)
datatype ImpactSeverity = ImpactInfo | ImpactLow | ImpactMedium | ImpactHigh | ImpactCritical

(*src internal/artifactgraph/domain/tracelink.go#severityRank*)
fun severityRank :: "ImpactSeverity \<Rightarrow> int" where
  "severityRank ImpactCritical = 5"
| "severityRank ImpactHigh = 4"
| "severityRank ImpactMedium = 3"
| "severityRank ImpactLow = 2"
| "severityRank ImpactInfo = 1"

(*src internal/artifactgraph/domain/tracelink.go#ImpactSeverity.AtLeast*)
definition AtLeast :: "ImpactSeverity \<Rightarrow> ImpactSeverity \<Rightarrow> bool" where
  "AtLeast s threshold \<longleftrightarrow> severityRank s \<ge> severityRank threshold"

lemma severityRank_inj: "severityRank s = severityRank t \<longleftrightarrow> s = t"
  by (cases s; cases t) simp_all

instantiation ImpactSeverity :: linorder
begin

definition less_eq_ImpactSeverity :: "ImpactSeverity \<Rightarrow> ImpactSeverity \<Rightarrow> bool" where
  "s \<le> t \<longleftrightarrow> severityRank s \<le> severityRank t"

definition less_ImpactSeverity :: "ImpactSeverity \<Rightarrow> ImpactSeverity \<Rightarrow> bool" where
  "s < t \<longleftrightarrow> severityRank s < severityRank t"

instance
  by standard (auto simp: less_eq_ImpactSeverity_def less_ImpactSeverity_def severityRank_inj)

end

lemma AtLeast_le: "AtLeast s t \<longleftrightarrow> t \<le> s"
  by (simp add: AtLeast_def less_eq_ImpactSeverity_def)

(*src internal/artifactgraph/domain/tracelink.go#raise*)
fun raise :: "ImpactSeverity \<Rightarrow> ImpactSeverity" where
  "raise ImpactInfo = ImpactLow"
| "raise ImpactLow = ImpactMedium"
| "raise ImpactMedium = ImpactHigh"
| "raise _ = ImpactCritical"

(*src internal/artifactgraph/domain/tracelink.go#lower*)
fun lower :: "ImpactSeverity \<Rightarrow> ImpactSeverity" where
  "lower ImpactCritical = ImpactHigh"
| "lower ImpactHigh = ImpactMedium"
| "lower ImpactMedium = ImpactLow"
| "lower _ = ImpactInfo"

(*src internal/artifactgraph/domain/tracelink.go:244-269#SeverityForHop*)
definition hop_base :: "LinkType \<Rightarrow> ImpactSeverity \<times> string" where
  "hop_base linkType =
     (if linkType = LinkSatisfies \<or> linkType = LinkImplements then
        (ImpactHigh, ''the artifact directly implements or satisfies the changed artifact'')
      else if linkType = LinkDerivedFrom then
        (ImpactHigh, ''the artifact was derived from the changed artifact'')
      else if linkType = LinkVerifies then
        (ImpactMedium, ''the artifact verifies behaviour that may have changed'')
      else if linkType = LinkRepresentedBy then
        (ImpactMedium, ''the artifact models the same behaviour in another form'')
      else if linkType = LinkDependsOn \<or> linkType = LinkContains then
        (ImpactLow, ''the artifact depends on or contains the changed artifact'')
      else if linkType = LinkConflictsWith then
        (ImpactCritical, ''the artifact is recorded as contradicting the changed artifact'')
      else if linkType = LinkEvidences \<or> linkType = LinkGoverns then
        (ImpactLow, ''the artifact governs or evidences the changed artifact'')
      else (ImpactMedium, ''the artifact is linked to the change''))"

text \<open>The loop that lets severity decay, run \<open>distance - 1\<close> times.\<close>

(*src internal/artifactgraph/domain/tracelink.go:278-283#SeverityForHop*)
primrec decay :: "bool \<Rightarrow> nat \<Rightarrow> ImpactSeverity \<Rightarrow> ImpactSeverity" where
  "decay approved 0 base = base"
| "decay approved (Suc n) base =
     (if approved \<and> base = ImpactLow then base else decay approved n (lower base))"

(*src internal/artifactgraph/domain/tracelink.go#SeverityForHop*)
definition SeverityForHop :: "LinkType \<Rightarrow> string \<Rightarrow> int \<Rightarrow> ImpactSeverity \<times> string" where
  "SeverityForHop linkType targetStatus distance =
     (let approved = (targetStatus = StatusApproved \<or> targetStatus = StatusFrozen);
          (base0, reason0) = hop_base linkType;
          (base1, reason1) = (if approved \<and> base0 \<noteq> ImpactCritical
             then (raise base0, reason0 @ ''; the affected artifact is approved'') else (base0, reason0))
      in (decay approved (nat (distance - 1)) base1, reason1))"

(*src internal/artifactgraph/domain/tracelink.go#Impacted*)
record Impacted =
  im_Target :: ArtifactRef
  im_Type :: ArtifactType
  im_Status :: string
  im_Distance :: int
  im_Severity :: ImpactSeverity
  im_Reason :: string
  im_Path :: "Hop list"

(*src internal/artifactgraph/domain/tracelink.go#ImpactSet*)
record ImpactSet =
  is_Subject :: ArtifactRef
  is_Impacted :: "Impacted list"
  is_Truncated :: bool
  is_BlastRadius :: int

section \<open>Impact decays with distance\<close>

lemma lower_le: "lower s \<le> s"
  by (cases s) (simp_all add: less_eq_ImpactSeverity_def)

lemma le_raise: "s \<le> raise s"
  by (cases s) (simp_all add: less_eq_ImpactSeverity_def)

lemma lower_mono: "s \<le> t \<Longrightarrow> lower s \<le> lower t"
  by (cases s; cases t) (simp_all add: less_eq_ImpactSeverity_def)

lemma decay_Suc_le: "decay a (Suc n) s \<le> decay a n s"
  by (induction n arbitrary: s) (simp_all add: lower_le)

lemma decay_antimono: "m \<le> n \<Longrightarrow> decay a n s \<le> decay a m s"
  by (rule lift_Suc_antimono_le [where f = "\<lambda>n. decay a n s"]) (rule decay_Suc_le)

lemma decay_approved_Low: "ImpactLow \<le> s \<Longrightarrow> ImpactLow \<le> decay True n s"
proof (induction n arbitrary: s)
  case (Suc n)
  then show ?case by (cases s) (simp_all add: less_eq_ImpactSeverity_def)
qed simp

lemma decay_Info [simp]: "decay False n ImpactInfo = ImpactInfo"
  by (induction n) simp_all

lemma decay_unapproved_le: "s \<le> t \<Longrightarrow> ImpactLow \<le> t \<Longrightarrow> decay False n s \<le> decay True n t"
proof (induction n arbitrary: s t)
  case (Suc n)
  show ?case
  proof (cases "t = ImpactLow")
    case True
    with Suc.prems have "lower s = ImpactInfo" by (cases s) (simp_all add: less_eq_ImpactSeverity_def)
    with True show ?thesis by (simp add: less_eq_ImpactSeverity_def)
  next
    case False
    then have "ImpactLow \<le> lower t" using Suc.prems(2) by (cases t) (simp_all add: less_eq_ImpactSeverity_def)
    with False Suc show ?thesis by (simp add: lower_mono)
  qed
qed simp

lemma hop_base_Low: "ImpactLow \<le> fst (hop_base t)"
  by (simp add: hop_base_def less_eq_ImpactSeverity_def)

abbreviation approved_status :: "string \<Rightarrow> bool" where
  "approved_status st \<equiv> st = StatusApproved \<or> st = StatusFrozen"

definition hop_start :: "LinkType \<Rightarrow> bool \<Rightarrow> ImpactSeverity" where
  "hop_start t approved = (let b = fst (hop_base t) in
     if approved \<and> b \<noteq> ImpactCritical then raise b else b)"

lemma hop_start_Low: "ImpactLow \<le> hop_start t a"
  using hop_base_Low [of t] le_raise [of "fst (hop_base t)"]
  by (simp add: hop_start_def Let_def) (meson order_trans)

lemma hop_start_le: "hop_start t a \<le> hop_start t True"
  by (simp add: hop_start_def Let_def le_raise)

lemma SeverityForHop_fst:
  "fst (SeverityForHop t st d) = decay (approved_status st) (nat (d - 1)) (hop_start t (approved_status st))"
  by (cases "hop_base t") (simp add: SeverityForHop_def hop_start_def Let_def)

text \<open>The grading of impact is monotone: severity never grows with distance, an approved or
  frozen artifact is never graded below \<^verbatim>\<open>LOW\<close> however far it is, and approval of the affected
  artifact never lowers the grade.\<close>

theorem SeverityForHop_monotone:
  assumes "d \<le> d'"
  shows "fst (SeverityForHop t st d') \<le> fst (SeverityForHop t st d) \<and>
    (approved_status st \<longrightarrow> AtLeast (fst (SeverityForHop t st d')) ImpactLow) \<and>
    fst (SeverityForHop t st d) \<le> fst (SeverityForHop t StatusApproved d)"
proof -
  have "nat (d - 1) \<le> nat (d' - 1)" using assms by simp
  then have "fst (SeverityForHop t st d') \<le> fst (SeverityForHop t st d)"
    unfolding SeverityForHop_fst by (rule decay_antimono)
  moreover have "ImpactLow \<le> fst (SeverityForHop t st d')" if "approved_status st"
    using that unfolding SeverityForHop_fst by (simp only: decay_approved_Low [OF hop_start_Low])
  moreover have "fst (SeverityForHop t st d) \<le> fst (SeverityForHop t StatusApproved d)"
    unfolding SeverityForHop_fst
    by (cases "approved_status st") (simp_all add: decay_unapproved_le hop_start_Low hop_start_le)
  ultimately show ?thesis by (simp add: AtLeast_le)
qed

lemma SeverityForHop_monotone_witness:
  "AtLeast (fst (SeverityForHop LinkDependsOn StatusFrozen 9)) ImpactLow \<and>
   fst (SeverityForHop LinkDependsOn StatusFrozen 9) < fst (SeverityForHop LinkDependsOn StatusFrozen 1)"
proof -
  have "fst (SeverityForHop LinkDependsOn StatusFrozen 9) = ImpactLow"
    "fst (SeverityForHop LinkDependsOn StatusFrozen 1) = ImpactMedium"
    by (simp_all add: SeverityForHop_fst hop_start_def hop_base_def go_strings eval_nat_numeral)
  then show ?thesis
    using SeverityForHop_monotone [of 1 9 LinkDependsOn StatusFrozen]
    by (simp add: less_ImpactSeverity_def)
qed

section \<open>The life of a link\<close>

text \<open>What can happen to a link after it was created: the methods of the package, whatever they
  return, and the fields the service and the repository set.\<close>

inductive link_reach :: "TraceLink \<Rightarrow> bool" where
  created: "NewTraceLink clock tid pid lid from to t origin c by' = Inr l \<Longrightarrow> link_reach (l\<lparr>l_Rationale := r\<rparr>)"
| accept: "link_reach l \<Longrightarrow> link_reach (snd (Accept clock l d by'))"
| reject: "link_reach l \<Longrightarrow> link_reach (snd (Reject clock l r by'))"
| stale: "link_reach l \<Longrightarrow> link_reach (MarkStale clock l r)"
| saved: "link_reach l \<Longrightarrow> link_reach (l\<lparr>l_UpdatedAt := t, l_VersionNo := l_VersionNo l + 1\<rparr>)"

definition link_ok :: "TraceLink \<Rightarrow> bool" where
  "link_ok l \<longleftrightarrow> LinkType_Valid (l_Type l) \<and> LinkOrigin_Valid (l_Origin l) \<and>
     0 \<le> f64_units (l_Confidence l) \<and> f64_units (l_Confidence l) \<le> f64_one \<and>
     l_From l \<noteq> l_To l \<and> \<not> ArtifactRef_Zero (l_From l) \<and> \<not> ArtifactRef_Zero (l_To l) \<and>
     l_Status l \<in> {LinkProposed, LinkAccepted, LinkRejected, LinkStale} \<and> 1 \<le> l_VersionNo l \<and>
     (l_Origin l = OriginLLMProposed \<and> Active l \<longrightarrow>
        (\<exists>d. l_DispositionID l = Some d \<and> d \<noteq> ''''))"

lemma NewTraceLink_ok: "NewTraceLink clock tid pid lid from to t origin c by' = Inr l \<Longrightarrow> link_ok (l\<lparr>l_Rationale := r\<rparr>)"
  by (auto simp: NewTraceLink_def link_ok_def monad_inv Let_def Active_def defaultStatusFor_def split: if_splits)

lemma Accept_ok: "link_ok l \<Longrightarrow> link_ok (snd (Accept clock l d by'))"
  by (auto simp: Accept_def link_ok_def Active_def Let_def RequiresDisposition_def)

lemma Reject_ok: "link_ok l \<Longrightarrow> link_ok (snd (Reject clock l r by'))"
  by (auto simp: Reject_def link_ok_def Active_def)

lemma MarkStale_ok: "link_ok l \<Longrightarrow> link_ok (MarkStale clock l r)"
  by (auto simp: MarkStale_def link_ok_def Active_def)

lemma saved_ok: "link_ok l \<Longrightarrow> link_ok (l\<lparr>l_UpdatedAt := t, l_VersionNo := l_VersionNo l + 1\<rparr>)"
  by (auto simp: link_ok_def Active_def)

lemma link_reach_ok: "link_reach l \<Longrightarrow> link_ok l"
  by (induction rule: link_reach.induct)
    (simp_all only: NewTraceLink_ok Accept_ok Reject_ok MarkStale_ok saved_ok)

text \<open>C30: AI proposes, governance validates: whatever is done to a link, it never takes part in
  traversal on the word of a model alone. Every link that can come about joins two different
  artifact versions with a confidence from 0 to 1, and if a model proposed it and it is active, it
  carries the identifier of a governance disposition.\<close>

theorem active_ai_link_has_disposition:
  assumes "link_reach l"
  shows "l_From l \<noteq> l_To l \<and> 0 \<le> f64_units (l_Confidence l) \<and> f64_units (l_Confidence l) \<le> f64_one \<and>
    (l_Origin l = OriginLLMProposed \<and> Active l \<longrightarrow> (\<exists>d. l_DispositionID l = Some d \<and> d \<noteq> ''''))"
  using link_reach_ok [OF assms] by (simp add: link_ok_def)

definition sample_link :: TraceLink where
  "sample_link = \<lparr>l_TenantID = ''t'', l_ProjectID = ''p'', l_LinkID = ''l'',
     l_From = \<lparr>ref_ArtifactID = ''CODE-1'', ref_Version = 1\<rparr>, l_To = \<lparr>ref_ArtifactID = ''REQ-1'', ref_Version = 2\<rparr>,
     l_Type = LinkSatisfies, l_Origin = OriginLLMProposed, l_Confidence = (False, 0, 0),
     l_Status = LinkProposed, l_Rationale = '''', l_Evidence = '''', l_DispositionID = None,
     l_CreatedBy = ''u'', l_CreatedAt = 0, l_UpdatedAt = 0, l_VersionNo = 1\<rparr>"

lemma sample_link_reach: "link_reach sample_link"
proof -
  have "NewTraceLink 0 ''t'' ''p'' ''l'' (l_From sample_link) (l_To sample_link) LinkSatisfies OriginLLMProposed
      (False, 0, 0) ''u'' = Inr sample_link"
    by (simp add: NewTraceLink_def sample_link_def Let_def LinkType_Valid_def linkInverse_def link_type_defs
        LinkOrigin_Valid_def f64_units_def f64_one_def ArtifactRef_Zero_def defaultStatusFor_def Now_def
        NormalizeTime_def)
  from link_reach.created [OF this, of "''''"] show ?thesis by (simp add: sample_link_def)
qed

lemma active_ai_link_has_disposition_witness:
  "l_DispositionID (snd (Accept 0 sample_link ''case-7'' ''u'')) = Some ''case-7'' \<and>
   Active (snd (Accept 0 sample_link ''case-7'' ''u'')) \<and>
   (\<exists>d. l_DispositionID (snd (Accept 0 sample_link ''case-7'' ''u'')) = Some d \<and> d \<noteq> '''')"
proof -
  let ?l = "snd (Accept 0 sample_link ''case-7'' ''u'')"
  have a: "Active ?l" "l_Origin ?l = OriginLLMProposed" "l_DispositionID ?l = Some ''case-7''"
    by (simp_all add: Accept_def sample_link_def Let_def RequiresDisposition_def Active_def)
  show ?thesis
    using active_ai_link_has_disposition [OF link_reach.accept [OF sample_link_reach]] a by blast
qed

text \<open>A rejected link is not revived by accepting it: \<^verbatim>\<open>Accept\<close> reports a conflict and leaves
  the link as it is; an AI-proposed link is not accepted without a disposition either.\<close>

theorem Accept_refuses:
  assumes "l_Status l = LinkRejected \<or>
    (l_Status l \<noteq> LinkAccepted \<and> l_Origin l = OriginLLMProposed \<and> d = '''')"
  shows "\<exists>e. Accept clock l d by' = (Some e, l) \<and>
    KindOf (Some e) \<in> {Some KindConflict, Some KindPrecondition}"
  using assms by (auto simp: Accept_def Let_def RequiresDisposition_def error_defs)

lemma Accept_refuses_witness:
  "Accept 0 sample_link '''' ''u'' =
     (Some (Precondition ''artifact.AcceptLink'' ''link.disposition_required''), sample_link)"
proof -
  have "\<exists>e. Accept 0 sample_link '''' ''u'' = (Some e, sample_link) \<and>
      KindOf (Some e) \<in> {Some KindConflict, Some KindPrecondition}"
    by (rule Accept_refuses) (simp add: sample_link_def)
  then show ?thesis
    by (auto simp: Accept_def Let_def RequiresDisposition_def sample_link_def)
qed

end
