(* ===== verification/Db.thy ===== *)
theory Db
  imports Types
begin

text \<open>
  \<^verbatim>\<open>internal/platform/db/db.go\<close>: the tenant context a database call runs under, the session
  statements that carry it into PostgreSQL, the transaction that commits or rolls back, and the
  classification of driver errors by SQLSTATE. A Go \<^verbatim>\<open>context.Context\<close> is the pair of values the
  package keeps in it. The statements of a transaction are a function of the tables; beginning, the
  session's statements and the commit can fail on the connection, and like any other error this
  leaves the tables as they were.
\<close>

section \<open>Context\<close>

(*src internal/platform/db/db.go#TenantContext*)
record TenantContext =
  tc_TenantID :: TenantID
  tc_ProjectID :: "ProjectID option"
  tc_PrincipalID :: PrincipalID
  tc_IsolationMode :: IsolationMode
  tc_BreakGlass :: bool

record db_ctx =
  cx_tenant :: "TenantContext option"
  cx_relay :: bool

definition no_tenant :: TenantContext where
  "no_tenant = \<lparr>tc_TenantID = '''', tc_ProjectID = None, tc_PrincipalID = '''', tc_IsolationMode = '''',
     tc_BreakGlass = False\<rparr>"

(*src internal/platform/db/db.go#WithTenant*)
definition WithTenant :: "db_ctx \<Rightarrow> TenantContext \<Rightarrow> db_ctx" where
  "WithTenant ctx tc = ctx\<lparr>cx_tenant := Some tc\<rparr>"

(*src internal/platform/db/db.go#TenantFrom*)
definition TenantFrom :: "db_ctx \<Rightarrow> TenantContext option" where "TenantFrom ctx = cx_tenant ctx"

(*src internal/platform/db/db.go#MustTenant*)
definition MustTenant :: "db_ctx \<Rightarrow> TenantContext result" where
  "MustTenant ctx = (case TenantFrom ctx of
       None \<Rightarrow> Inl (Internal ''db.MustTenant'' ''db.missing_tenant_context'')
     | Some tc \<Rightarrow> if Empty (tc_TenantID tc)
         then Inl (Internal ''db.MustTenant'' ''db.missing_tenant_context'') else Inr tc)"

(*src internal/platform/db/db.go#WithRelaySession*)
definition WithRelaySession :: "db_ctx \<Rightarrow> db_ctx" where "WithRelaySession ctx = ctx\<lparr>cx_relay := True\<rparr>"

(*src internal/platform/db/db.go#isRelaySession*)
definition isRelaySession :: "db_ctx \<Rightarrow> bool" where "isRelaySession ctx = cx_relay ctx"

section \<open>Session statements\<close>

(*src internal/platform/db/db.go#quoteLiteral*)
definition quoteLiteral :: "string \<Rightarrow> string" where
  "quoteLiteral s = CHR 0x27 # concat (map (\<lambda>c. if c = CHR 0x27 then [c, c] else [c]) s) @ [CHR 0x27]"

definition Milliseconds :: "duration \<Rightarrow> int" where "Milliseconds d = d div 1000000"

(*src internal/platform/db/db.go#DB.applySession*)
definition applySession :: "duration \<Rightarrow> TenantContext \<Rightarrow> bool \<Rightarrow> string list" where
  "applySession statementTimeout tc relay =
     (let timeout = (if statementTimeout \<le> 0 then 15 * Second else statementTimeout) in
      [''SET LOCAL statement_timeout = '' @ Itoa (Milliseconds timeout),
       ''SET LOCAL idle_in_transaction_session_timeout = '' @ Itoa (Milliseconds (timeout * 2))] @
      (if \<not> Empty (tc_TenantID tc) then [''SET LOCAL app.tenant_id = '' @ quoteLiteral (tc_TenantID tc)] else []) @
      (if tc_PrincipalID tc \<noteq> '''' then [''SET LOCAL app.principal_id = '' @ quoteLiteral (tc_PrincipalID tc)] else []) @
      (if tc_BreakGlass tc then [''SET LOCAL app.break_glass = '' @ quoteLiteral ''on''] else []) @
      (if relay then [''SET LOCAL app.relay = '' @ quoteLiteral ''on''] else []))"

section \<open>Driver errors\<close>

text \<open>What a driver reports: a server error with its SQLSTATE and, for an integrity violation, the
  constraint; \<^verbatim>\<open>sql.ErrNoRows\<close>; or an error without a state.\<close>

datatype sql_error = ServerError (sql_state: string) (sql_constraint: string) | NoRows | DriverError

(*src internal/platform/db/db.go#SQLState*)
definition SQLState :: "sql_error \<Rightarrow> string option" where
  "SQLState e = (case e of ServerError st c \<Rightarrow> if st \<noteq> '''' then Some st else None | _ \<Rightarrow> None)"

(*src internal/platform/db/db.go#ConstraintViolation*)
definition ConstraintViolation :: "sql_error \<Rightarrow> string option" where
  "ConstraintViolation e = (case SQLState e of
       None \<Rightarrow> None
     | Some state \<Rightarrow> if \<not> HasPrefix state ''23'' then None else Some (sql_constraint e))"

(*src internal/platform/db/db.go#IsUniqueViolation*)
definition IsUniqueViolation :: "sql_error \<Rightarrow> bool" where "IsUniqueViolation e \<longleftrightarrow> SQLState e = Some ''23505''"
(*src internal/platform/db/db.go#IsCheckViolation*)
definition IsCheckViolation :: "sql_error \<Rightarrow> bool" where "IsCheckViolation e \<longleftrightarrow> SQLState e = Some ''23514''"
(*src internal/platform/db/db.go#IsForeignKeyViolation*)
definition IsForeignKeyViolation :: "sql_error \<Rightarrow> bool" where "IsForeignKeyViolation e \<longleftrightarrow> SQLState e = Some ''23503''"
(*src internal/platform/db/db.go#IsRLSViolation*)
definition IsRLSViolation :: "sql_error \<Rightarrow> bool" where "IsRLSViolation e \<longleftrightarrow> SQLState e = Some ''42501''"
(*src internal/platform/db/db.go#IsNoRows*)
definition IsNoRows :: "sql_error \<Rightarrow> bool" where "IsNoRows e \<longleftrightarrow> e = NoRows"

text \<open>A driver error as the cause of a wrapped one.\<close>

definition driver_error :: "sql_error \<Rightarrow> go_error" where
  "driver_error e = PlainError (case SQLState e of Some st \<Rightarrow> st | None \<Rightarrow> ''driver'')"

section \<open>Transactions\<close>

text \<open>The connection a transaction runs on: the configured timeout, and what beginning, each statement of
  the session and the commit run into. A transaction whose commit is reported as failed counts as
  rolled back.\<close>

record db_conn =
  dc_timeout :: duration
  dc_begin :: "sql_error option"
  dc_setup :: "string \<Rightarrow> sql_error option"
  dc_commit :: "sql_error option"

(*src internal/platform/db/db.go#TxOptions*)
record TxOptions =
  to_ReadOnly :: bool
  to_Isolation :: int

definition default_options :: TxOptions where "default_options = \<lparr>to_ReadOnly = False, to_Isolation = 0\<rparr>"
definition read_options :: TxOptions where "read_options = \<lparr>to_ReadOnly = True, to_Isolation = 0\<rparr>"

text \<open>What the function of a transaction is given: the scope, and the session and the options its
  statements run under.\<close>

record tx_handle =
  tx_Tenant :: TenantContext
  tx_session :: "string list"
  tx_Options :: TxOptions

text \<open>The first statement of the session that fails.\<close>

(*src internal/platform/db/db.go:257-262#DB.applySession*)
fun session_fault :: "db_conn \<Rightarrow> string list \<Rightarrow> go_error option" where
  "session_fault conn [] = None"
| "session_fault conn (s # ss) = (case dc_setup conn s of
       Some err \<Rightarrow> Some (Wrap (driver_error err) ''db.applySession'' KindUnavailable ''db.session_setup_failed'')
     | None \<Rightarrow> session_fault conn ss)"

(*src internal/platform/db/db.go:183-223#DB.TxWith*)
definition on_connection ::
  "db_conn \<Rightarrow> TxOptions \<Rightarrow> TenantContext \<Rightarrow> bool \<Rightarrow> (tx_handle \<Rightarrow> (go_error, 's, 'a) tx) \<Rightarrow> (go_error, 's, 'a) tx" where
  "on_connection conn opts tc relay fn = (\<lambda>s. let session = applySession (dc_timeout conn) tc relay in
     case dc_begin conn of
       Some err \<Rightarrow> Inl (Wrap (driver_error err) ''db.Tx'' KindUnavailable ''db.begin_failed'')
     | None \<Rightarrow> (case session_fault conn session of
         Some err \<Rightarrow> Inl err
       | None \<Rightarrow> (case fn \<lparr>tx_Tenant = tc, tx_session = session, tx_Options = opts\<rparr> s of
           Inl err \<Rightarrow> Inl err
         | Inr r \<Rightarrow> (case dc_commit conn of
             Some err \<Rightarrow> Inl (Wrap (driver_error err) ''db.Tx'' KindUnavailable ''db.commit_failed'')
           | None \<Rightarrow> Inr r))))"

(*src internal/platform/db/db.go#DB.TxWith*)
definition TxWith ::
  "db_conn \<Rightarrow> TxOptions \<Rightarrow> db_ctx \<Rightarrow> (tx_handle \<Rightarrow> (go_error, 's, 'a) tx) \<Rightarrow> 's \<Rightarrow> 'a result \<times> 's" where
  "TxWith conn opts ctx fn s = (let relay = isRelaySession ctx in
     case MustTenant ctx of
       Inl tcErr \<Rightarrow> if \<not> relay then (Inl tcErr, s) else runT (on_connection conn opts no_tenant relay fn) s
     | Inr tc \<Rightarrow> runT (on_connection conn opts tc relay fn) s)"

section \<open>How PostgreSQL reads the session statements\<close>

text \<open>The body of a string literal: a doubled quote is a quote, a single one ends the literal.\<close>

fun literal_body :: "string \<Rightarrow> (string \<times> string) option" where
  "literal_body [] = None"
| "literal_body (c # s) =
     (if c = CHR 0x27 then
        (case s of
           d # s' \<Rightarrow> if d = CHR 0x27 then map_option (apfst (Cons c)) (literal_body s') else Some ([], s)
         | [] \<Rightarrow> Some ([], s))
      else map_option (apfst (Cons c)) (literal_body s))"

definition sql_literal :: "string \<Rightarrow> (string \<times> string) option" where
  "sql_literal s = (case s of c # s' \<Rightarrow> if c = CHR 0x27 then literal_body s' else None | [] \<Rightarrow> None)"

text \<open>The value a statement \<^verbatim>\<open>SET LOCAL name = literal\<close> assigns, when the statement is nothing but
  that assignment.\<close>

definition set_local :: "string \<Rightarrow> string \<Rightarrow> string option" where
  "set_local name stmt = (let p = ''SET LOCAL '' @ name @ '' = '' in
     if HasPrefix stmt p
     then (case sql_literal (drop (length p) stmt) of Some (v, []) \<Rightarrow> Some v | _ \<Rightarrow> None) else None)"

definition session_var :: "string \<Rightarrow> string list \<Rightarrow> string option" where
  "session_var name stmts = foldl (\<lambda>v s. case set_local name s of Some w \<Rightarrow> Some w | None \<Rightarrow> v) None stmts"

text \<open>\<^verbatim>\<open>sf_current_tenant()\<close> is the variable the policies of row-level security compare with.\<close>

definition current_tenant :: "string list \<Rightarrow> string option" where
  "current_tenant stmts = session_var ''app.tenant_id'' stmts"

section \<open>Properties\<close>

lemma literal_body_quoted:
  "literal_body (concat (map (\<lambda>c. if c = CHR 0x27 then [c, c] else [c]) s) @ [CHR 0x27]) = Some (s, [])"
  by (induction s) simp_all

lemma sql_literal_quoteLiteral: "sql_literal (quoteLiteral s) = Some (s, [])"
  by (simp add: sql_literal_def quoteLiteral_def literal_body_quoted)

lemma HasPrefix_simps: "HasPrefix s []" "HasPrefix [] (d # p) \<longleftrightarrow> False"
    "HasPrefix (c # s) (d # p) \<longleftrightarrow> c = d \<and> HasPrefix s p"
  by (simp_all add: HasPrefix_def)

lemma set_local_quoted: "set_local name (''SET LOCAL '' @ name @ '' = '' @ quoteLiteral v) = Some v"
proof -
  have "HasPrefix ((''SET LOCAL '' @ name @ '' = '') @ quoteLiteral v) (''SET LOCAL '' @ name @ '' = '')"
    by (rule HasPrefix_append)
  then show ?thesis by (simp add: set_local_def Let_def sql_literal_quoteLiteral)
qed

lemma set_local_other: "\<not> HasPrefix stmt (''SET LOCAL '' @ name @ '' = '') \<Longrightarrow> set_local name stmt = None"
  by (simp add: set_local_def Let_def)

lemma set_local_tenant:
  "set_local ''app.tenant_id'' (''SET LOCAL app.tenant_id = '' @ quoteLiteral t) = Some t"
  using set_local_quoted [of "''app.tenant_id''" t] by simp

lemma set_local_not_tenant:
  "set_local ''app.tenant_id'' (''SET LOCAL statement_timeout = '' @ x) = None"
  "set_local ''app.tenant_id'' (''SET LOCAL idle_in_transaction_session_timeout = '' @ x) = None"
  "set_local ''app.tenant_id'' (''SET LOCAL app.principal_id = '' @ x) = None"
  "set_local ''app.tenant_id'' (''SET LOCAL app.break_glass = '' @ x) = None"
  "set_local ''app.tenant_id'' (''SET LOCAL app.relay = '' @ x) = None"
  by (rule set_local_other, simp add: HasPrefix_simps)+

lemma current_tenant_session:
  "current_tenant (applySession d tc relay) = (if tc_TenantID tc = '''' then None else Some (tc_TenantID tc))"
  unfolding current_tenant_def session_var_def applySession_def Let_def Empty_def
  by (simp only: foldl_append foldl.simps set_local_not_tenant set_local_tenant option.case if_distrib [of "foldl _ _"] split: if_splits)
     (auto simp: set_local_not_tenant set_local_tenant)

text \<open>No value can break out of a session statement: PostgreSQL reads the quoted literal back as
  exactly the value, with nothing left over.\<close>

theorem quoteLiteral_roundtrip: "sql_literal (quoteLiteral s) = Some (s, [])"
  by (rule sql_literal_quoteLiteral)

text \<open>The connection carries a transaction through: it begins, the session is set up, it commits.\<close>

definition session_tenant :: "db_ctx \<Rightarrow> TenantContext" where
  "session_tenant ctx = (case MustTenant ctx of Inl _ \<Rightarrow> no_tenant | Inr tc \<Rightarrow> tc)"

definition connected :: "db_conn \<Rightarrow> db_ctx \<Rightarrow> bool" where
  "connected conn ctx \<longleftrightarrow> dc_begin conn = None \<and>
     session_fault conn (applySession (dc_timeout conn) (session_tenant ctx) (isRelaySession ctx)) = None \<and> dc_commit conn = None"

definition healthy :: "duration \<Rightarrow> db_conn" where
  "healthy timeout = \<lparr>dc_timeout = timeout, dc_begin = None, dc_setup = (\<lambda>_. None), dc_commit = None\<rparr>"

lemma healthy_simps [simp]: "dc_timeout (healthy d) = d" "dc_begin (healthy d) = None" "dc_setup (healthy d) s = None"
    "dc_commit (healthy d) = None"
  by (simp_all add: healthy_def)

lemma session_fault_healthy [simp]: "session_fault (healthy d) ss = None"
  by (induction ss) simp_all

lemma connected_healthy [simp]: "connected (healthy d) ctx"
  by (simp add: connected_def)

lemma on_connection_Inr: "on_connection conn opts tc relay fn s = Inr r \<longleftrightarrow>
    dc_begin conn = None \<and> session_fault conn (applySession (dc_timeout conn) tc relay) = None \<and> dc_commit conn = None \<and>
    fn \<lparr>tx_Tenant = tc, tx_session = applySession (dc_timeout conn) tc relay, tx_Options = opts\<rparr> s = Inr r"
  by (auto simp: on_connection_def Let_def split: option.splits sum.splits)

lemma on_connection_healthy: "on_connection (healthy d) opts tc relay fn =
    fn \<lparr>tx_Tenant = tc, tx_session = applySession d tc relay, tx_Options = opts\<rparr>"
  by (auto simp: fun_eq_iff on_connection_def Let_def split: sum.split)

lemma TxWith_Inr: "TxWith conn opts ctx fn s = (Inr x, s') \<longleftrightarrow> connected conn ctx \<and>
    (isRelaySession ctx \<or> (\<exists>tc. MustTenant ctx = Inr tc)) \<and>
    fn \<lparr>tx_Tenant = session_tenant ctx, tx_session = applySession (dc_timeout conn) (session_tenant ctx) (isRelaySession ctx),
      tx_Options = opts\<rparr> s = Inr (x, s')"
  by (auto simp: TxWith_def Let_def runT_Inr on_connection_Inr connected_def session_tenant_def split: sum.splits)

lemma TxWith_Inl: "TxWith conn opts ctx fn s = (Inl e, s') \<Longrightarrow> s' = s"
  by (auto simp: TxWith_def Let_def runT_Inl split: sum.splits if_splits)

text \<open>C31: A transaction runs under a tenant or not at all. Work that succeeded ran either with
  \<^verbatim>\<open>app.tenant_id\<close> set to the non-empty tenant of its context, whatever bytes the identifier has,
  or in the relay session, on a connection that began, set up the session and committed; and work
  that failed, there or in one of these steps, left the tables as they were.\<close>

theorem TxWith_scoped:
  assumes "TxWith conn opts ctx fn s = (r, s')"
  shows "(isl r \<longrightarrow> s' = s) \<and>
    (\<not> isl r \<longrightarrow> dc_begin conn = None \<and> dc_commit conn = None \<and> (\<exists>h. fn h s = Inr (projr r, s') \<and>
       session_fault conn (tx_session h) = None \<and>
       (cx_relay ctx \<or> (\<exists>tc. cx_tenant ctx = Some tc \<and> tc_TenantID tc \<noteq> '''' \<and> tx_Tenant h = tc \<and>
          current_tenant (tx_session h) = Some (tc_TenantID tc)))))"
proof (cases r)
  case (Inl e)
  with assms TxWith_Inl show ?thesis by auto
next
  case (Inr x)
  then have f: "connected conn ctx" "isRelaySession ctx \<or> (\<exists>tc. MustTenant ctx = Inr tc)"
      "fn \<lparr>tx_Tenant = session_tenant ctx, tx_session = applySession (dc_timeout conn) (session_tenant ctx) (isRelaySession ctx),
        tx_Options = opts\<rparr> s = Inr (x, s')"
    using assms by (auto simp: TxWith_Inr)
  have "cx_relay ctx \<or> (\<exists>tc. cx_tenant ctx = Some tc \<and> tc_TenantID tc \<noteq> '''' \<and> session_tenant ctx = tc)"
    using f(2) by (auto simp: MustTenant_def TenantFrom_def Empty_def isRelaySession_def session_tenant_def split: option.splits if_splits)
  with f(1,3) Inr show ?thesis by (auto simp: connected_def current_tenant_session intro!: exI)
qed

definition sample_ctx :: db_ctx where
  "sample_ctx = \<lparr>cx_tenant = Some (no_tenant\<lparr>tc_TenantID := ''t1''\<rparr>), cx_relay = False\<rparr>"

lemma TxWith_scoped_witness:
  "TxWith (healthy 0) default_options sample_ctx (\<lambda>h s. Inr (current_tenant (tx_session h), Suc s)) 7 = (Inr (Some ''t1''), 8) \<and>
   (\<exists>h :: tx_handle. current_tenant (tx_session h) = Some ''t1'')"
proof -
  have e: "TxWith (healthy 0) default_options sample_ctx (\<lambda>h s. Inr (current_tenant (tx_session h), Suc s)) 7 = (Inr (Some ''t1''), 8)"
    by (simp add: TxWith_Inr session_tenant_def MustTenant_def TenantFrom_def Empty_def sample_ctx_def no_tenant_def
        current_tenant_session)
  from TxWith_scoped [OF e] obtain h :: tx_handle where "current_tenant (tx_session h) = Some ''t1''" by (auto simp: sample_ctx_def)
  with e show ?thesis by blast
qed

end
