(* ===== verification/Sql.thy ===== *)
theory Sql
  imports Db
begin

text \<open>
  The statements the repositories issue, on tables that are lists of rows: an insert and an update
  with the constraints of the table, in the order PostgreSQL checks them (row triggers and CHECK
  constraints, unique indexes, then foreign keys), a statement that a lost connection or a value
  without the column's type makes fail, and the contract of a table whose rows carry a
  \<^verbatim>\<open>version_no\<close> for optimistic concurrency.
\<close>

section \<open>Row policies\<close>

text \<open>What the policies of row-level security compare with: the tenant of the session, none for a statement
  that goes through the pool, and whether the role the service runs as bypasses the policies and owns the
  tables.\<close>

record pg_session =
  se_bypass :: bool
  se_tenant :: TenantID

definition sees :: "pg_session \<Rightarrow> TenantID \<Rightarrow> bool" where
  "sees sn t \<longleftrightarrow> se_bypass sn \<or> se_tenant sn = t"

definition policy :: "pg_session \<Rightarrow> TenantID \<Rightarrow> sql_error option" where
  "policy sn t = (if sees sn t then None else Some (ServerError ''42501'' ''''))"

definition pool :: "bool \<Rightarrow> pg_session" where "pool bypass = \<lparr>se_bypass = bypass, se_tenant = ''''\<rparr>"

lemma policy_None [monad_inv]: "policy sn t = None \<longleftrightarrow> sees sn t"
  by (simp add: policy_def)

section \<open>Constraints\<close>

definition check_constraint :: "string \<Rightarrow> bool \<Rightarrow> sql_error option" where
  "check_constraint name ok = (if ok then None else Some (ServerError ''23514'' name))"

definition foreign_key :: "string \<Rightarrow> bool \<Rightarrow> sql_error option" where
  "foreign_key name ok = (if ok then None else Some (ServerError ''23503'' name))"

definition unique_index :: "string \<Rightarrow> ('r \<Rightarrow> bool) \<Rightarrow> ('r \<Rightarrow> 'k) \<Rightarrow> 'r list \<Rightarrow> sql_error option" where
  "unique_index name p idx rows =
     (if distinct (map idx (filter p rows)) then None else Some (ServerError ''23505'' name))"

fun first_error :: "'e option list \<Rightarrow> 'e option" where
  "first_error [] = None"
| "first_error (Some e # es) = Some e"
| "first_error (None # es) = first_error es"

lemma first_error_None [monad_inv]: "first_error es = None \<longleftrightarrow> (\<forall>e \<in> set es. e = None)"
  by (induction es rule: first_error.induct) auto

lemma constraint_None [monad_inv]:
  "check_constraint name ok = None \<longleftrightarrow> ok" "foreign_key name ok = None \<longleftrightarrow> ok"
  "unique_index name p idx rows = None \<longleftrightarrow> distinct (map idx (filter p rows))"
  by (simp_all add: check_constraint_def foreign_key_def unique_index_def)

section \<open>Statements\<close>

definition insert_row ::
  "('r \<Rightarrow> sql_error option) \<Rightarrow> ('r list \<Rightarrow> sql_error option) \<Rightarrow> ('r \<Rightarrow> sql_error option) \<Rightarrow> 'r \<Rightarrow> 'r list \<Rightarrow>
   sql_error + 'r list" where
  "insert_row checks uniques fks x rows = (case first_error [checks x, uniques (rows @ [x]), fks x] of
       Some e \<Rightarrow> Inl e | None \<Rightarrow> Inr (rows @ [x]))"

text \<open>\<^verbatim>\<open>UPDATE\<close> of the rows that satisfy \<open>p\<close>: the number of rows and the table. The check of a row
  sees its old and its new value, as a row trigger does.\<close>

definition update_where ::
  "('r \<Rightarrow> bool) \<Rightarrow> ('r \<Rightarrow> 'r) \<Rightarrow> ('r \<Rightarrow> 'r \<Rightarrow> sql_error option) \<Rightarrow> ('r list \<Rightarrow> sql_error option) \<Rightarrow> 'r list \<Rightarrow>
   sql_error + nat \<times> 'r list" where
  "update_where p f checks uniques rows =
     (let rows' = map (\<lambda>r. if p r then f r else r) rows in
      case first_error (map (\<lambda>r. checks r (f r)) (filter p rows) @ [uniques rows']) of
        Some e \<Rightarrow> Inl e | None \<Rightarrow> Inr (length (filter p rows), rows'))"

lemma insert_row_Inr [monad_inv]: "insert_row checks uniques fks x rows = Inr rows' \<longleftrightarrow>
    rows' = rows @ [x] \<and> checks x = None \<and> uniques (rows @ [x]) = None \<and> fks x = None"
  by (cases "checks x"; cases "uniques (rows @ [x])"; cases "fks x") (auto simp: insert_row_def)

lemma update_where_Inr [monad_inv]: "update_where p f checks uniques rows = Inr (n, rows') \<longleftrightarrow>
    rows' = map (\<lambda>r. if p r then f r else r) rows \<and> n = length (filter p rows) \<and>
    (\<forall>r \<in> set rows. p r \<longrightarrow> checks r (f r) = None) \<and> uniques rows' = None"
proof (cases "first_error (map (\<lambda>r. checks r (f r)) (filter p rows) @ [uniques (map (\<lambda>r. if p r then f r else r) rows)])")
  case None
  moreover from this have "(\<forall>r \<in> set rows. p r \<longrightarrow> checks r (f r) = None) \<and>
      uniques (map (\<lambda>r. if p r then f r else r) rows) = None"
    by (auto simp: first_error_None)
  ultimately show ?thesis by (auto simp: update_where_def)
next
  case (Some e)
  moreover from this have "\<not> ((\<forall>r \<in> set rows. p r \<longrightarrow> checks r (f r) = None) \<and>
      uniques (map (\<lambda>r. if p r then f r else r) rows) = None)"
    using first_error_None [of "map (\<lambda>r. checks r (f r)) (filter p rows) @ [uniques (map (\<lambda>r. if p r then f r else r) rows)]"]
    by auto
  ultimately show ?thesis by (auto simp: update_where_def)
qed

text \<open>A statement issued from Go: the fault of the connection, if there is one, comes first; an error
  is translated by the repository.\<close>

definition execT :: "sql_error option \<Rightarrow> (sql_error \<Rightarrow> go_error) \<Rightarrow> ('s \<Rightarrow> sql_error + 'a \<times> 's) \<Rightarrow> (go_error, 's, 'a) tx" where
  "execT fault tr stmt = (\<lambda>s. case fault of Some e \<Rightarrow> Inl (tr e)
     | None \<Rightarrow> (case stmt s of Inl e \<Rightarrow> Inl (tr e) | Inr r \<Rightarrow> Inr r))"

lemma execT_Inr [monad_inv]: "execT fault tr stmt s = Inr r \<longleftrightarrow> fault = None \<and> stmt s = Inr r"
  by (auto simp: execT_def split: option.splits sum.splits)

definition insertT ::
  "sql_error option \<Rightarrow> (sql_error \<Rightarrow> go_error) \<Rightarrow> ('r list \<Rightarrow> sql_error + 'r list) \<Rightarrow> (go_error, 'r list, unit) tx" where
  "insertT fault tr stmt = execT fault tr (\<lambda>rows. case stmt rows of Inl e \<Rightarrow> Inl e | Inr rows' \<Rightarrow> Inr ((), rows'))"

text \<open>A query of one row, and of all the rows that match.\<close>

definition query_row :: "sql_error option \<Rightarrow> ('r \<Rightarrow> bool) \<Rightarrow> 'r list \<Rightarrow> sql_error + 'r" where
  "query_row fault p rows = (case fault of Some e \<Rightarrow> Inl e
     | None \<Rightarrow> (case find p rows of Some r \<Rightarrow> Inr r | None \<Rightarrow> Inl NoRows))"

definition query_rows :: "sql_error option \<Rightarrow> ('r \<Rightarrow> bool) \<Rightarrow> 'r list \<Rightarrow> sql_error + 'r list" where
  "query_rows fault p rows = (case fault of Some e \<Rightarrow> Inl e | None \<Rightarrow> Inr (filter p rows))"

definition row_result :: "(sql_error \<Rightarrow> go_error) \<Rightarrow> sql_error + 'a \<Rightarrow> 'a result" where
  "row_result tr q = (case q of Inl e \<Rightarrow> Inl (tr e) | Inr x \<Rightarrow> Inr x)"

lemma row_result_Inr [monad_inv]: "row_result tr q = Inr x \<longleftrightarrow> q = Inr x"
  by (auto simp: row_result_def split: sum.splits)

lemma query_row_Inr [monad_inv]: "query_row fault p rows = Inr r \<longleftrightarrow> fault = None \<and> find p rows = Some r"
  by (auto simp: query_row_def split: option.splits)

lemma query_rows_Inr [monad_inv]: "query_rows fault p rows = Inr rs \<longleftrightarrow> fault = None \<and> rs = filter p rows"
  by (auto simp: query_rows_def split: option.splits)

lemma find_Some_D: "find p rows = Some r \<Longrightarrow> p r \<and> r \<in> set rows"
  by (auto simp: find_Some_iff)

lemma insertT_Inr [monad_inv]: "insertT fault tr stmt rows = Inr (u, rows') \<longleftrightarrow> fault = None \<and> stmt rows = Inr rows'"
  by (auto simp: insertT_def execT_Inr split: sum.splits)

text \<open>\<^verbatim>\<open>if n, _ := res.RowsAffected(); n == 0\<close>.\<close>

definition updateT ::
  "sql_error option \<Rightarrow> (sql_error \<Rightarrow> go_error) \<Rightarrow> go_error \<Rightarrow> ('r list \<Rightarrow> sql_error + nat \<times> 'r list) \<Rightarrow>
   (go_error, 'r list, unit) tx" where
  "updateT fault tr stale stmt = bindT (execT fault tr stmt) (\<lambda>n. checkT (n = 0) stale (returnT ()))"

lemma updateT_Inr [monad_inv]: "updateT fault tr stale stmt rows = Inr (u, rows') \<longleftrightarrow>
    fault = None \<and> (\<exists>n. stmt rows = Inr (n, rows') \<and> n \<noteq> 0)"
  by (auto simp: updateT_def monad_inv)

section \<open>Tables with row versions\<close>

text \<open>
  \<open>evolves\<close> says what a history does to such a table: rows stay, and a row whose version number is
  the same is the same row. A transaction that updates a row under the version number it read
  therefore updates the row it read.
\<close>

definition evolves :: "('r \<Rightarrow> 'k) \<Rightarrow> ('r \<Rightarrow> int) \<Rightarrow> 'r list \<Rightarrow> 'r list \<Rightarrow> bool" where
  "evolves key ver rows rows' \<longleftrightarrow> distinct (map key rows') \<and>
     (\<forall>r \<in> set rows. \<exists>r' \<in> set rows'. key r' = key r \<and> ver r \<le> ver r' \<and> (ver r' = ver r \<longrightarrow> r' = r))"

lemma evolvesI: "distinct (map key rows') \<Longrightarrow>
    (\<And>r. r \<in> set rows \<Longrightarrow> \<exists>r' \<in> set rows'. key r' = key r \<and> ver r \<le> ver r' \<and> (ver r' = ver r \<longrightarrow> r' = r)) \<Longrightarrow>
    evolves key ver rows rows'"
  by (simp add: evolves_def)

lemma evolves_row: "evolves key ver rows rows' \<Longrightarrow> r \<in> set rows \<Longrightarrow>
    \<exists>r' \<in> set rows'. key r' = key r \<and> ver r \<le> ver r' \<and> (ver r' = ver r \<longrightarrow> r' = r)"
  by (simp add: evolves_def)

lemma evolves_refl: "distinct (map key rows) \<Longrightarrow> evolves key ver rows rows"
  by (auto simp: evolves_def)

lemma evolves_trans: "evolves key ver r1 r2 \<Longrightarrow> evolves key ver r2 r3 \<Longrightarrow> evolves key ver r1 r3"
proof (rule evolvesI)
  assume e: "evolves key ver r1 r2" "evolves key ver r2 r3"
  then show "distinct (map key r3)" by (simp add: evolves_def)
  fix a assume "a \<in> set r1"
  then obtain b where b: "b \<in> set r2" "key b = key a" "ver a \<le> ver b" "ver b = ver a \<longrightarrow> b = a"
    using evolves_row [OF e(1)] by blast
  then obtain c where c: "c \<in> set r3" "key c = key b" "ver b \<le> ver c" "ver c = ver b \<longrightarrow> c = b"
    using evolves_row [OF e(2)] by blast
  with b show "\<exists>c \<in> set r3. key c = key a \<and> ver a \<le> ver c \<and> (ver c = ver a \<longrightarrow> c = a)"
    by (intro bexI [of _ c]) auto
qed

lemma evolves_insert: "distinct (map key (rows @ [x])) \<Longrightarrow> evolves key ver rows (rows @ [x])"
  by (auto simp: evolves_def)

text \<open>The row read and the row found under the same key and version number are the same.\<close>

lemma evolves_same:
  assumes "evolves key ver rows rows'" "r \<in> set rows" "r' \<in> set rows'" "key r' = key r" "ver r' = ver r"
  shows "r' = r"
proof -
  obtain q where q: "q \<in> set rows'" "key q = key r" "ver q = ver r \<longrightarrow> q = r"
    using evolves_row [OF assms(1,2)] by blast
  moreover have "inj_on key (set rows')" using assms(1) by (simp add: evolves_def distinct_map)
  then have "q = r'" using q(1,2) assms(3,4) by (simp add: inj_on_def)
  ultimately show ?thesis using assms(5) by simp
qed

text \<open>The contract of the \<^verbatim>\<open>UPDATE ... WHERE ... AND version_no = $n\<close> statements: \<open>set_row now x r\<close> is the
  row \<open>r\<close> with the columns the statement sets from \<open>x\<close>.\<close>

definition current :: "('r \<Rightarrow> 'k) \<Rightarrow> ('r \<Rightarrow> int) \<Rightarrow> 'r \<Rightarrow> 'r \<Rightarrow> bool" where
  "current key ver x r \<longleftrightarrow> key r = key x \<and> ver r = ver x"

definition update_versioned ::
  "('r \<Rightarrow> 'k) \<Rightarrow> ('r \<Rightarrow> int) \<Rightarrow> ('r \<Rightarrow> 'r) \<Rightarrow> ('r \<Rightarrow> 'r \<Rightarrow> sql_error option) \<Rightarrow> ('r list \<Rightarrow> sql_error option) \<Rightarrow> 'r \<Rightarrow> 'r list \<Rightarrow>
   sql_error + nat \<times> 'r list" where
  "update_versioned key ver f checks uniques x rows = update_where (current key ver x) f checks uniques rows"

locale versioned_table =
  fixes key :: "'r \<Rightarrow> 'k" and ver :: "'r \<Rightarrow> int" and set_row :: "time \<Rightarrow> 'r \<Rightarrow> 'r \<Rightarrow> 'r"
  assumes set_key [simp]: "key (set_row t x r) = key r"
    and set_ver [simp]: "ver (set_row t x r) = ver r + 1"
begin

abbreviation replace :: "time \<Rightarrow> 'r \<Rightarrow> 'r list \<Rightarrow> 'r list" where
  "replace t x rows \<equiv> map (\<lambda>r. if current key ver x r then set_row t x r else r) rows"

lemma replace_keys: "map key (replace t x rows) = map key rows"
  by (induction rows) auto

lemma replace_evolves: "distinct (map key rows) \<Longrightarrow> evolves key ver rows (replace t x rows)"
proof (rule evolvesI)
  assume "distinct (map key rows)"
  then show "distinct (map key (replace t x rows))" by (simp only: replace_keys)
  fix r assume "r \<in> set rows"
  then show "\<exists>r' \<in> set (replace t x rows). key r' = key r \<and> ver r \<le> ver r' \<and> (ver r' = ver r \<longrightarrow> r' = r)"
    by (intro bexI [of _ "if current key ver x r then set_row t x r else r"]) auto
qed

text \<open>An update that affects a row replaces exactly one, and it is the row that was read if the read
  saw an earlier state of the table.\<close>

lemma update_hits:
  assumes "update_versioned key ver (set_row t x) checks uniques x rows = Inr (n, rows')" "n \<noteq> 0"
  obtains r where "r \<in> set rows" "current key ver x r" "checks r (set_row t x r) = None"
    "rows' = replace t x rows" "uniques rows' = None"
proof -
  note u = assms(1) [unfolded update_versioned_def update_where_Inr]
  from assms(2) u have "filter (current key ver x) rows \<noteq> []" by auto
  then obtain r where "r \<in> set rows" "current key ver x r" by (auto simp: filter_empty_conv)
  with u that show thesis by blast
qed

lemma update_read:
  assumes "update_versioned key ver (set_row t x) checks uniques x rows = Inr (n, rows')" "n \<noteq> 0"
    and "evolves key ver past rows" "r0 \<in> set past" "key r0 = key x" "ver r0 = ver x"
  shows "r0 \<in> set rows" "checks r0 (set_row t x r0) = None" "set_row t x r0 \<in> set rows'"
    "rows' = replace t x rows" "uniques rows' = None"
proof -
  obtain r where r: "r \<in> set rows" "current key ver x r" "checks r (set_row t x r) = None"
      "rows' = replace t x rows" "uniques rows' = None"
    using update_hits [OF assms(1,2)] .
  then have "r = r0" using evolves_same [OF assms(3,4) r(1)] assms(5,6) by (simp add: current_def)
  with r show "r0 \<in> set rows" "checks r0 (set_row t x r0) = None" "rows' = replace t x rows" "uniques rows' = None"
    by simp_all
  show "set_row t x r0 \<in> set rows'" using r \<open>r = r0\<close> by (auto intro: rev_image_eqI)
qed

lemma replace_member: "r' \<in> set (replace t x rows) \<Longrightarrow>
    r' \<in> set rows \<or> (\<exists>r \<in> set rows. current key ver x r \<and> r' = set_row t x r)"
  by auto

end

end
