(* ===== verification/AuditLog.thy ===== *)
theory AuditLog
  imports Hash GoTime Sql "HOL-Library.AList"
begin

text \<open>
  The audit trail, \<^verbatim>\<open>internal/audit\<close>: the record and its chain hash (domain), the repository on the
  tables \<^verbatim>\<open>audit_sequences\<close>, \<^verbatim>\<open>audit_records\<close> and \<^verbatim>\<open>audit_anchors\<close> (infra), and
  the writer, the verifier and the anchors (app). The row lock of \<^verbatim>\<open>NextSequence\<close> serialises the
  appends of a tenant, so an append is one step. A row is read back as it was written, with its time
  cut to microseconds as the driver writes it.
\<close>

section \<open>Records\<close>

type_synonym Outcome = string
type_synonym Severity = string

definition OutcomeSuccess :: Outcome where "OutcomeSuccess = ''SUCCESS''"
definition OutcomeDenied :: Outcome where "OutcomeDenied = ''DENIED''"
definition OutcomeFailure :: Outcome where "OutcomeFailure = ''FAILURE''"

(*src internal/audit/domain/record.go#Outcome.Valid*)
definition Outcome_Valid :: "Outcome \<Rightarrow> bool" where
  "Outcome_Valid o' \<longleftrightarrow> o' \<in> {OutcomeSuccess, OutcomeDenied, OutcomeFailure}"

definition SeverityInfo :: Severity where "SeverityInfo = ''INFO''"
definition SeverityNotice :: Severity where "SeverityNotice = ''NOTICE''"
definition SeverityWarning :: Severity where "SeverityWarning = ''WARNING''"
definition SeverityCritical :: Severity where "SeverityCritical = ''CRITICAL''"

(*src internal/audit/domain/record.go#Severity.Valid*)
definition Severity_Valid :: "Severity \<Rightarrow> bool" where
  "Severity_Valid s \<longleftrightarrow> s \<in> {SeverityInfo, SeverityNotice, SeverityWarning, SeverityCritical}"

lemmas audit_constants [go_strings] = OutcomeSuccess_def OutcomeDenied_def OutcomeFailure_def
  SeverityInfo_def SeverityNotice_def SeverityWarning_def SeverityCritical_def

(*src internal/audit/domain/record.go#Actor*)
record Actor =
  ac_Kind :: string
  ac_PrincipalID :: PrincipalID
  ac_Display :: string
  ac_Subject :: string
  ac_Issuer :: string
  ac_OnBehalfOf :: PrincipalID
  ac_BreakGlass :: bool
  ac_IPHash :: string
  ac_UserAgent :: string

(*src internal/audit/domain/record.go#Target*)
record Target =
  tg_Type :: string
  tg_ID :: string
  tg_Version :: int
  tg_ProjectID :: string
  tg_ContentHash :: string

text \<open>Attributes are a Go map from names to JSON values, an association list without repeated keys.\<close>

(*src internal/audit/domain/record.go#Record*)
record Record =
  r_ID :: string
  r_TenantID :: TenantID
  r_ProjectID :: "ProjectID option"
  r_Sequence :: int
  r_Action :: string
  r_Outcome :: Outcome
  r_Severity :: Severity
  r_Actor :: Actor
  r_Target :: Target
  r_Attributes :: "(string \<times> json) list"
  r_RequestID :: string
  r_TraceID :: string
  r_OccurredAt :: time
  r_PrevHash :: string
  r_RecordHash :: string

(*src internal/audit/domain/record.go#Actor*)
definition json_actor :: "Actor \<Rightarrow> json" where
  "json_actor a = struct
     [(''kind'', str (ac_Kind a)), (''principal_id'', str_opt (ac_PrincipalID a)),
      (''display'', str_opt (ac_Display a)), (''subject'', str_opt (ac_Subject a)),
      (''issuer'', str_opt (ac_Issuer a)), (''on_behalf_of'', str_opt (ac_OnBehalfOf a)),
      (''break_glass'', if ac_BreakGlass a then Some (JBool True) else None),
      (''ip_hash'', str_opt (ac_IPHash a)), (''user_agent'', str_opt (ac_UserAgent a))]"

(*src internal/audit/domain/record.go#Target*)
definition json_target :: "Target \<Rightarrow> json" where
  "json_target t = struct
     [(''type'', str (tg_Type t)), (''id'', str_opt (tg_ID t)),
      (''version'', if tg_Version t = 0 then None else Some (json_int (tg_Version t))),
      (''project_id'', str_opt (tg_ProjectID t)), (''content_hash'', str_opt (tg_ContentHash t))]"

(*src internal/audit/domain/record.go#chainPayload*)
definition payload_fields :: "Record \<Rightarrow> (string \<times> json option) list" where
  "payload_fields r =
     [(''id'', str (r_ID r)),
      (''tenant_id'', str (r_TenantID r)),
      (''project_id'', str_opt (case r_ProjectID r of None \<Rightarrow> '''' | Some p \<Rightarrow> p)),
      (''sequence'', Some (json_int (r_Sequence r))),
      (''action'', str (r_Action r)),
      (''outcome'', str (r_Outcome r)),
      (''severity'', str (r_Severity r)),
      (''actor'', Some (json_actor (r_Actor r))),
      (''target'', Some (json_target (r_Target r))),
      (''attributes'', Some (JObject (r_Attributes r))),
      (''request_id'', str_opt (r_RequestID r)),
      (''trace_id'', str_opt (r_TraceID r)),
      (''occurred_at'', str (FormatRFC3339Nano (NormalizeTime (r_OccurredAt r)))),
      (''prev_hash'', str (r_PrevHash r))]"

(*src internal/audit/domain/record.go#Record.Payload*)
definition Payload :: "Record \<Rightarrow> json" where "Payload r = struct (payload_fields r)"

(*src internal/audit/domain/record.go#Record.ComputeHash*)
definition Record_ComputeHash :: "Record \<Rightarrow> string result" where
  "Record_ComputeHash r =
     checkR (\<not> ValidChainHash (r_PrevHash r)) (Invalid ''audit.ComputeHash'' ''audit.invalid_prev_hash'')
       (ChainOf (r_PrevHash r) (Payload r))"

(*src internal/audit/domain/record.go#Record.Seal*)
definition Seal :: "Record \<Rightarrow> go_error option \<times> Record" where
  "Seal r = (case Record_ComputeHash r of Inl err \<Rightarrow> (Some err, r) | Inr h \<Rightarrow> (None, r\<lparr>r_RecordHash := h\<rparr>))"

(*src internal/audit/domain/record.go#Record.VerifyHash*)
definition VerifyHash :: "Record \<Rightarrow> bool result" where
  "VerifyHash r = bindR (Record_ComputeHash r) (\<lambda>h. Inr (h = r_RecordHash r))"

(*src internal/audit/domain/record.go#Record.Validate*)
definition Record_Validate :: "Record \<Rightarrow> go_error option" where
  "Record_Validate r =
     (let op = ''audit.Validate'' in
      if Empty (r_TenantID r) then Some (Invalid op ''audit.tenant_required'')
      else if TrimSpace (r_Action r) = '''' then Some (Invalid op ''audit.action_required'')
      else if \<not> Contains (r_Action r) ''.'' then Some (Invalid op ''audit.action_malformed'')
      else if \<not> Outcome_Valid (r_Outcome r) then Some (Invalid op ''audit.outcome_invalid'')
      else if \<not> Severity_Valid (r_Severity r) then Some (Invalid op ''audit.severity_invalid'')
      else if ac_Kind (r_Actor r) = '''' then Some (Invalid op ''audit.actor_required'')
      else if tg_Type (r_Target r) = '''' then Some (Invalid op ''audit.target_required'')
      else if r_Sequence r < 1 then Some (Invalid op ''audit.sequence_invalid'')
      else if r_OccurredAt r = 0 then Some (Invalid op ''audit.timestamp_required'')
      else None)"

(*src internal/audit/domain/record.go#New*)
definition NewRecord ::
  "time \<Rightarrow> TenantID \<Rightarrow> ProjectID option \<Rightarrow> string \<Rightarrow> Outcome \<Rightarrow> Severity \<Rightarrow> Actor \<Rightarrow> Target \<Rightarrow> Record" where
  "NewRecord clock tenantID projectID action outcome severity actor target =
     \<lparr>r_ID = '''', r_TenantID = tenantID, r_ProjectID = projectID, r_Sequence = 0, r_Action = action,
      r_Outcome = outcome, r_Severity = severity, r_Actor = actor, r_Target = target, r_Attributes = [],
      r_RequestID = '''', r_TraceID = '''', r_OccurredAt = Now clock, r_PrevHash = '''', r_RecordHash = ''''\<rparr>"

(*src internal/audit/domain/record.go#Record.WithAttr*)
definition WithAttr :: "string \<Rightarrow> json \<Rightarrow> Record \<Rightarrow> Record" where
  "WithAttr k v r = r\<lparr>r_Attributes := AList.update k v (r_Attributes r)\<rparr>"

section \<open>Chain verification\<close>

(*src internal/audit/domain/record.go#VerifyReport*)
record VerifyReport =
  vr_TenantID :: TenantID
  vr_From :: int
  vr_To :: int
  vr_RecordsChecked :: int
  vr_Valid :: bool
  vr_FailedAt :: int
  vr_Reason :: string
  vr_GapAt :: int
  vr_AnchoredAt :: int

definition zero_report :: VerifyReport where
  "zero_report = \<lparr>vr_TenantID = '''', vr_From = 0, vr_To = 0, vr_RecordsChecked = 0, vr_Valid = False,
     vr_FailedAt = 0, vr_Reason = '''', vr_GapAt = 0, vr_AnchoredAt = 0\<rparr>"

text \<open>The loop over the records. The text of a hashing error is left out of the reason.\<close>

(*src internal/audit/domain/record.go:277-316#VerifyChain*)
fun verify_loop :: "VerifyReport \<Rightarrow> string \<Rightarrow> int \<Rightarrow> Record list \<Rightarrow> VerifyReport" where
  "verify_loop rep prev expected [] = rep"
| "verify_loop rep prev expected (rec # records) =
     (let rep1 = rep\<lparr>vr_RecordsChecked := vr_RecordsChecked rep + 1\<rparr>;
          bad = rep1\<lparr>vr_Valid := False, vr_FailedAt := r_Sequence rec\<rparr> in
      if r_Sequence rec \<noteq> expected then
        bad\<lparr>vr_GapAt := expected, vr_Reason := ''the chain is not contiguous: expected sequence '' @
              Itoa expected @ '', found '' @ Itoa (r_Sequence rec)\<rparr>
      else if r_PrevHash rec \<noteq> prev then
        bad\<lparr>vr_Reason := ''record '' @ Itoa (r_Sequence rec) @ '' does not link to its predecessor''\<rparr>
      else case VerifyHash rec of
          Inl err \<Rightarrow> bad\<lparr>vr_Reason := ''record '' @ Itoa (r_Sequence rec) @ '' could not be hashed''\<rparr>
        | Inr ok \<Rightarrow>
            if \<not> ok then
              bad\<lparr>vr_Reason := ''record '' @ Itoa (r_Sequence rec) @ '' has been altered since it was written''\<rparr>
            else verify_loop rep1 (r_RecordHash rec) (expected + 1) records)"

(*src internal/audit/domain/record.go#VerifyChain*)
definition VerifyChain :: "Record list \<Rightarrow> string \<Rightarrow> VerifyReport" where
  "VerifyChain records startPrevHash =
     (case records of
        [] \<Rightarrow> zero_report\<lparr>vr_Valid := True\<rparr>
      | r # _ \<Rightarrow> verify_loop
          (zero_report\<lparr>vr_Valid := True, vr_TenantID := r_TenantID r, vr_From := r_Sequence r,
             vr_To := r_Sequence (last records)\<rparr>)
          startPrevHash (r_Sequence r) records)"

(*src internal/audit/domain/record.go#Anchor*)
record Anchor =
  an_TenantID :: TenantID
  an_AnchoredAt :: time
  an_Sequence :: int
  an_HeadHash :: string
  an_StorageRef :: string

section \<open>The tables\<close>

record audit_db =
  as_sequences :: "(TenantID \<times> (int \<times> string)) list"
  as_records :: "Record list"
  as_anchors :: "Anchor list"

type_synonym 'a audit_tx = "(go_error, audit_db, 'a) tx"

text \<open>What the statements of an append run into beside the data of these tables, in their order: a lost
  connection or a timeout; for the record also a value that does not have the type of its column (\<^verbatim>\<open>uuid\<close>,
  \<^verbatim>\<open>jsonb\<close>) and the row policy. The counters refer to the table of tenants: \<open>known\<close> says which it has.\<close>

record audit_faults =
  aq_select :: "sql_error option"
  aq_create :: "sql_error option"
  aq_again :: "sql_error option"
  aq_insert :: "Record \<Rightarrow> sql_error option"
  aq_advance :: "sql_error option"
  aq_anchor :: "sql_error option"

definition no_faults :: audit_faults where
  "no_faults = \<lparr>aq_select = None, aq_create = None, aq_again = None, aq_insert = (\<lambda>_. None), aq_advance = None, aq_anchor = None\<rparr>"

text \<open>\<^verbatim>\<open>INSERT ... ON CONFLICT (tenant_id) DO NOTHING\<close>, with the foreign key to the tenants.\<close>

(*src migrations/0003_audit_outbox.sql:11-16#audit_sequences*)
definition insert_chain :: "sql_error option \<Rightarrow> (TenantID \<Rightarrow> bool) \<Rightarrow> TenantID \<Rightarrow> audit_db \<Rightarrow> sql_error + unit \<times> audit_db" where
  "insert_chain fault known tenantID s = (case fault of Some err \<Rightarrow> Inl err
     | None \<Rightarrow> (case map_of (as_sequences s) tenantID of
         Some _ \<Rightarrow> Inr ((), s)
       | None \<Rightarrow> if known tenantID then Inr ((), s\<lparr>as_sequences := (tenantID, (1, ZeroChainHash)) # as_sequences s\<rparr>)
           else Inl (ServerError ''23503'' ''audit_sequences_tenant_id_fkey'')))"

(*src internal/audit/infra/postgres.go#Postgres.EnsureChain*)
definition EnsureChain :: "audit_faults \<Rightarrow> (TenantID \<Rightarrow> bool) \<Rightarrow> TenantID \<Rightarrow> unit audit_tx" where
  "EnsureChain q known tenantID =
     execT None (\<lambda>err. Wrap (driver_error err) ''audit.EnsureChain'' KindUnavailable ''audit.chain_init_failed'')
       (insert_chain (aq_create q) known tenantID)"

text \<open>The counter row is selected under its lock; it is created when the tenant has none, and selected again.\<close>

definition select_chain :: "sql_error option \<Rightarrow> TenantID \<Rightarrow> audit_db \<Rightarrow> sql_error + int \<times> string" where
  "select_chain fault tenantID s = (case fault of Some err \<Rightarrow> Inl err
     | None \<Rightarrow> (case map_of (as_sequences s) tenantID of Some r \<Rightarrow> Inr r | None \<Rightarrow> Inl NoRows))"

(*src internal/audit/infra/postgres.go#Postgres.NextSequence*)
definition NextSequence :: "audit_faults \<Rightarrow> (TenantID \<Rightarrow> bool) \<Rightarrow> TenantID \<Rightarrow> (int \<times> string) audit_tx" where
  "NextSequence q known tenantID =
     (let op = ''audit.NextSequence''; failed = (\<lambda>err. Wrap (driver_error err) op KindUnavailable ''audit.sequence_failed'') in
      bindT (\<lambda>s. case select_chain (aq_select q) tenantID s of
          Inr r \<Rightarrow> Inr (r, s)
        | Inl err \<Rightarrow> if \<not> IsNoRows err then Inl (failed err)
            else bindT (execT None (\<lambda>err. Wrap (driver_error err) op KindUnavailable ''audit.chain_init_failed'')
                (insert_chain (aq_create q) known tenantID))
              (\<lambda>_ s. case select_chain (aq_again q) tenantID s of Inl err \<Rightarrow> Inl (failed err) | Inr r \<Rightarrow> Inr (r, s)) s)
        (\<lambda>(seq, head).
      checkT (\<not> ValidChainHash head) (Tampered op ''audit.chain_head_invalid'') (returnT (seq, head))))"

text \<open>No row with the expected counter is what \<^verbatim>\<open>RowsAffected\<close> tells; a driver that cannot tell is none
  of the module's.\<close>

(*src internal/audit/infra/postgres.go#Postgres.AdvanceHead*)
definition AdvanceHead :: "audit_faults \<Rightarrow> TenantID \<Rightarrow> int \<Rightarrow> string \<Rightarrow> unit audit_tx" where
  "AdvanceHead q tenantID seq headHash = (\<lambda>s. case aq_advance q of
     Some err \<Rightarrow> Inl (Wrap (driver_error err) ''audit.AdvanceHead'' KindUnavailable ''audit.chain_advance_failed'')
   | None \<Rightarrow> (case map_of (as_sequences s) tenantID of
       Some (n, _) \<Rightarrow>
         if n = seq then Inr ((), s\<lparr>as_sequences := AList.update tenantID (seq + 1, headHash) (as_sequences s)\<rparr>)
         else Inl (Conflict ''audit.AdvanceHead'' ''audit.chain_conflict'')
     | None \<Rightarrow> Inl (Conflict ''audit.AdvanceHead'' ''audit.chain_conflict'')))"

text \<open>The constraints of \<^verbatim>\<open>audit_records\<close>: the primary key over tenant, sequence and time, and the
  checks on outcome, severity and the two hashes.\<close>

definition insert_record :: "Record \<Rightarrow> audit_db \<Rightarrow> sql_error + audit_db" where
  "insert_record r s =
     (if \<exists>x \<in> set (as_records s). r_TenantID x = r_TenantID r \<and> r_Sequence x = r_Sequence r \<and>
          r_OccurredAt x = NormalizeTime (r_OccurredAt r)
      then Inl (ServerError ''23505'' ''audit_records_pkey'')
      else if \<not> (Outcome_Valid (r_Outcome r) \<and> Severity_Valid (r_Severity r) \<and>
          ValidChainHash (r_PrevHash r) \<and> ValidChainHash (r_RecordHash r))
      then Inl (ServerError ''23514'' ''audit_records_check'')
      else Inr (s\<lparr>as_records := as_records s @ [r\<lparr>r_OccurredAt := NormalizeTime (r_OccurredAt r)\<rparr>]\<rparr>))"

text \<open>The documents of the actor, the target and the attributes always encode: they are structures of
  strings, numbers and what \<^verbatim>\<open>Seal\<close> has just canonicalized.\<close>

(*src internal/audit/infra/postgres.go#Postgres.Append*)
definition Append_row :: "audit_faults \<Rightarrow> Record \<Rightarrow> unit audit_tx" where
  "Append_row q r = execT (aq_insert q r)
     (\<lambda>err. if IsUniqueViolation err then Conflict ''audit.Append'' ''audit.sequence_conflict''
        else Wrap (driver_error err) ''audit.Append'' KindUnavailable ''audit.append_failed'')
     (\<lambda>s. map_sum id (Pair ()) (insert_record r s))"

(*src internal/audit/infra/postgres.go#Postgres.Get*)
definition Get_record :: "audit_db \<Rightarrow> TenantID \<Rightarrow> int \<Rightarrow> Record result" where
  "Get_record s tenantID seq =
     (case find (\<lambda>r. r_TenantID r = tenantID \<and> r_Sequence r = seq) (as_records s) of
        None \<Rightarrow> Inl (NotFound ''audit.Get'' ''audit.not_found'') | Some r \<Rightarrow> Inr r)"

(*src internal/audit/infra/postgres.go#Postgres.Range*)
definition Range :: "audit_db \<Rightarrow> TenantID \<Rightarrow> int \<Rightarrow> int \<Rightarrow> Record list" where
  "Range s tenantID from to = sort_key r_Sequence
     (filter (\<lambda>r. r_TenantID r = tenantID \<and> r_Sequence r \<ge> from \<and> (to > 0 \<longrightarrow> r_Sequence r \<le> to)) (as_records s))"

(*src internal/audit/infra/postgres.go#Postgres.Head*)
definition Head :: "audit_db \<Rightarrow> TenantID \<Rightarrow> int \<times> string" where
  "Head s tenantID = (case map_of (as_sequences s) tenantID of
       None \<Rightarrow> (1 - 1, ZeroChainHash) | Some (nxt, head) \<Rightarrow> (nxt - 1, head))"

(*src internal/audit/infra/postgres.go#Postgres.SaveAnchor*)
definition SaveAnchor :: "audit_faults \<Rightarrow> (TenantID \<Rightarrow> bool) \<Rightarrow> Anchor \<Rightarrow> unit audit_tx" where
  "SaveAnchor q known a = execT (aq_anchor q)
     (\<lambda>err. Wrap (driver_error err) ''audit.SaveAnchor'' KindUnavailable ''audit.anchor_failed'')
     (\<lambda>s. if \<exists>b \<in> set (as_anchors s). an_TenantID b = an_TenantID a \<and> an_AnchoredAt b = an_AnchoredAt a
        then Inl (ServerError ''23505'' ''audit_anchors_pkey'')
        else if \<not> known (an_TenantID a) then Inl (ServerError ''23503'' ''audit_anchors_tenant_id_fkey'')
        else Inr ((), s\<lparr>as_anchors := as_anchors s @ [a]\<rparr>))"

text \<open>\<^verbatim>\<open>ORDER BY anchored_at DESC LIMIT 1\<close>.\<close>

(*src internal/audit/infra/postgres.go#Postgres.LatestAnchor*)
definition LatestAnchor :: "audit_db \<Rightarrow> TenantID \<Rightarrow> Anchor option" where
  "LatestAnchor s tenantID =
     (case sort_key (\<lambda>a. - an_AnchoredAt a) (filter (\<lambda>a. an_TenantID a = tenantID) (as_anchors s)) of
        [] \<Rightarrow> None | a # _ \<Rightarrow> Some a)"

section \<open>The service\<close>

text \<open>The identifier generator and the clock are arguments; the record comes back as the caller sees
  it after the call.\<close>

(*src internal/audit/app/writer.go#Service.Append*)
definition Audit_Append :: "audit_faults \<Rightarrow> (TenantID \<Rightarrow> bool) \<Rightarrow> string \<Rightarrow> time \<Rightarrow> Record \<Rightarrow> Record audit_tx" where
  "Audit_Append q known newID clock r0 =
     (let op = ''audit.Append'';
          r1 = (if r_ID r0 = '''' then r0\<lparr>r_ID := newID\<rparr> else r0);
          r2 = (if r_OccurredAt r1 = 0 then r1\<lparr>r_OccurredAt := Now clock\<rparr> else r1)
      in bindT (NextSequence q known (r_TenantID r2)) (\<lambda>(seq, prevHash).
         let r3 = r2\<lparr>r_Sequence := seq, r_PrevHash := prevHash\<rparr> in
         case Record_Validate r3 of
           Some err \<Rightarrow> failT err
         | None \<Rightarrow>
           (case Seal r3 of
              (Some err, _) \<Rightarrow> failT (Wrap err op KindInternal ''audit.seal_failed'')
            | (None, r) \<Rightarrow>
                bindT (Append_row q r) (\<lambda>_.
                bindT (AdvanceHead q (r_TenantID r) (r_Sequence r) (r_RecordHash r)) (\<lambda>_.
                returnT r)))))"

(*src internal/audit/app/writer.go#Service.Verify*)
definition Audit_Verify :: "audit_db \<Rightarrow> TenantID \<Rightarrow> int \<Rightarrow> int \<Rightarrow> VerifyReport result" where
  "Audit_Verify s tenantID from0 to =
     (let op = ''audit.Verify''; from = (if from0 < 1 then 1 else from0); records = Range s tenantID from to in
      if records = [] then Inr (zero_report\<lparr>vr_TenantID := tenantID, vr_Valid := True\<rparr>)
      else if from > 1 then
        (case Get_record s tenantID (from - 1) of
           Inl err \<Rightarrow> Inl (Wrap err op KindInvalid ''audit.range_start_missing'')
         | Inr prev \<Rightarrow> Inr (VerifyChain records (r_RecordHash prev)))
      else Inr (VerifyChain records ZeroChainHash))"

text \<open>The published anchor: the storage key and the document. The evidence store is the port
  \<^verbatim>\<open>objstore.Store\<close> the service is built with, so it is an argument: it takes the key and the document
  and returns the key of the stored object.\<close>

definition FormatCompact :: "time \<Rightarrow> string" where
  "FormatCompact t = (let day = t div nanos_per_day; s = (t mod nanos_per_day) div Second; (y, m, d) = civil day in
     pad 4 y @ pad 2 m @ pad 2 d @ ''T'' @ pad 2 (s div 3600) @ pad 2 (s div 60 mod 60) @ pad 2 (s mod 60) @ ''Z'')"

(*src internal/audit/domain/record.go#Anchor*)
definition json_anchor :: "Anchor \<Rightarrow> json" where
  "json_anchor a = struct
     [(''tenant_id'', str (an_TenantID a)), (''anchored_at'', str (FormatRFC3339Nano (an_AnchoredAt a))),
      (''sequence'', Some (json_int (an_Sequence a))), (''head_hash'', str (an_HeadHash a)),
      (''storage_ref'', str (an_StorageRef a))]"

(*src internal/audit/app/writer.go#Service.Anchor*)
definition Audit_Anchor ::
  "audit_faults \<Rightarrow> (TenantID \<Rightarrow> bool) \<Rightarrow> (TenantID \<Rightarrow> string \<Rightarrow> json \<Rightarrow> string result) \<Rightarrow> time \<Rightarrow> TenantID \<Rightarrow> Anchor option audit_tx" where
  "Audit_Anchor q known put clock tenantID = (\<lambda>s.
     let (seq, head) = Head s tenantID in
     if seq = 0 then Inr (None, s)
     else let anchor = \<lparr>an_TenantID = tenantID, an_AnchoredAt = Now clock, an_Sequence = seq,
                        an_HeadHash = head, an_StorageRef = ''''\<rparr>;
              name = ''audit-anchors/'' @ FormatCompact (an_AnchoredAt anchor) @ ''-'' @ Itoa seq @ ''.json''
       in bindT (liftT (put tenantID name (json_anchor anchor))) (\<lambda>key.
          let anchor1 = anchor\<lparr>an_StorageRef := key\<rparr> in
          bindT (SaveAnchor q known anchor1) (\<lambda>_. returnT (Some anchor1))) s)"

(*src internal/audit/app/writer.go#Service.VerifyAgainstAnchor*)
definition VerifyAgainstAnchor :: "audit_db \<Rightarrow> TenantID \<Rightarrow> VerifyReport result" where
  "VerifyAgainstAnchor s tenantID =
     (case LatestAnchor s tenantID of
        None \<Rightarrow> Audit_Verify s tenantID 1 0
      | Some anchor \<Rightarrow>
          let bad = zero_report\<lparr>vr_TenantID := tenantID, vr_FailedAt := an_Sequence anchor\<rparr> in
          (case Get_record s tenantID (an_Sequence anchor) of
             Inl _ \<Rightarrow> Inr (bad\<lparr>vr_Reason := ''the anchored record is missing from the database''\<rparr>)
           | Inr rec \<Rightarrow>
               if r_RecordHash rec \<noteq> an_HeadHash anchor then
                 Inr (bad\<lparr>vr_Reason := ''the anchored record's hash no longer matches the published anchor; history has been rewritten''\<rparr>)
               else bindR (Audit_Verify s tenantID 1 0) (\<lambda>report.
                 Inr (report\<lparr>vr_AnchoredAt := an_Sequence anchor\<rparr>))))"

section \<open>What the verifier accepts\<close>

text \<open>The reference definition of an intact run of records: numbered without gaps from \<open>n\<close>, each one
  linked to the hash of the one before it, each with the hash of its own content.\<close>

fun linked :: "string \<Rightarrow> int \<Rightarrow> Record list \<Rightarrow> bool" where
  "linked prev n [] \<longleftrightarrow> True"
| "linked prev n (r # rs) \<longleftrightarrow> r_Sequence r = n \<and> r_PrevHash r = prev \<and> VerifyHash r = Inr True \<and>
     linked (r_RecordHash r) (n + 1) rs"

definition last_hash :: "string \<Rightarrow> Record list \<Rightarrow> string" where
  "last_hash p rs = (if rs = [] then p else r_RecordHash (last rs))"

lemma last_hash_simps [simp]: "last_hash p [] = p" "last_hash p (r # rs) = last_hash (r_RecordHash r) rs"
  by (simp_all add: last_hash_def)

lemma linked_append:
  "linked p n (rs @ qs) \<longleftrightarrow> linked p n rs \<and> linked (last_hash p rs) (n + int (length rs)) qs"
  by (induction p n rs rule: linked.induct) (auto simp: algebra_simps)

lemma verify_loop_linked:
  "linked prev n rs \<Longrightarrow>
   verify_loop rep prev n rs = rep\<lparr>vr_RecordsChecked := vr_RecordsChecked rep + int (length rs)\<rparr>"
  by (induction rep prev n rs rule: verify_loop.induct) (simp_all add: Let_def algebra_simps)

lemma verify_loop_invalid: "\<not> linked prev n rs \<Longrightarrow> \<not> vr_Valid (verify_loop rep prev n rs)"
  by (induction rep prev n rs rule: verify_loop.induct) (auto simp: Let_def split: sum.split)

lemma VerifyChain_linked:
  assumes "linked p (r_Sequence r) (r # rs)"
  shows "vr_Valid (VerifyChain (r # rs) p)" "vr_RecordsChecked (VerifyChain (r # rs) p) = 1 + int (length rs)"
proof -
  have "VerifyChain (r # rs) p = (zero_report\<lparr>vr_Valid := True, vr_TenantID := r_TenantID r,
      vr_From := r_Sequence r, vr_To := r_Sequence (last (r # rs))\<rparr>)\<lparr>vr_RecordsChecked := 0 + int (length (r # rs))\<rparr>"
    by (simp only: VerifyChain_def list.case verify_loop_linked [OF assms]) (simp add: zero_report_def)
  then show "vr_Valid (VerifyChain (r # rs) p)" "vr_RecordsChecked (VerifyChain (r # rs) p) = 1 + int (length rs)"
    by simp_all
qed

lemma VerifyChain_Valid: "vr_Valid (VerifyChain rs p) \<longleftrightarrow> rs = [] \<or> linked p (r_Sequence (hd rs)) rs"
proof (cases rs)
  case (Cons r rs')
  show ?thesis
  proof (cases "linked p (r_Sequence r) (r # rs')")
    case True
    then show ?thesis using VerifyChain_linked(1) [OF True] Cons by (simp del: linked.simps)
  next
    case False
    from verify_loop_invalid [OF this] False Cons show ?thesis
      by (simp add: VerifyChain_def del: verify_loop.simps linked.simps)
  qed
qed (simp add: VerifyChain_def)

lemma linked_sequences: "linked p n rs \<Longrightarrow> map r_Sequence rs = map (\<lambda>i. n + int i) [0 ..< length rs]"
proof (induction p n rs rule: linked.induct)
  case (2 prev n r rs)
  then have "map r_Sequence (r # rs) = n # map (\<lambda>i. n + 1 + int i) [0 ..< length rs]" by simp
  also have "\<dots> = map (\<lambda>i. n + int i) (0 # map Suc [0 ..< length rs])" by simp
  also have "\<dots> = map (\<lambda>i. n + int i) [0 ..< length (r # rs)]"
    by (simp only: map_Suc_upt length_Cons upt_conv_Cons [of 0 "Suc (length rs)"] zero_less_Suc simp_thms if_True)
  finally show ?case .
qed simp

lemma linked_sequence_nth: "linked p n rs \<Longrightarrow> i < length rs \<Longrightarrow> r_Sequence (rs ! i) = n + int i"
  using linked_sequences [of p n rs] nth_map [of i rs r_Sequence] by simp

lemma linked_sorted: "linked p n rs \<Longrightarrow> sorted (map r_Sequence rs)"
  by (simp add: linked_sequences sorted_iff_nth_mono)

lemma linked_ge: "linked p n rs \<Longrightarrow> r \<in> set rs \<Longrightarrow> n \<le> r_Sequence r"
  by (auto simp: in_set_conv_nth linked_sequence_nth)

section \<open>The log as a hash chain\<close>

text \<open>The bytes the chain hash of a record covers, besides the previous head.\<close>

definition record_bytes :: "Record \<Rightarrow> string" where
  "record_bytes r = (case Canonicalize (Payload r) of Inr b \<Rightarrow> b | Inl _ \<Rightarrow> [])"

lemma VerifyHash_next:
  assumes "chain_head (r_PrevHash r)" "VerifyHash r = Inr True"
  shows "Canonicalize (Payload r) = Inr (record_bytes r)"
    "r_RecordHash r = sha.next_head (r_PrevHash r) (record_bytes r)"
  using assms
  by (auto simp: VerifyHash_def Record_ComputeHash_def ChainOf_def record_bytes_def Chain_head monad_inv
      split: sum.splits)

lemma next_head_is_head: "chain_head (sha.next_head h p)"
  by (rule sha.next_head_good)

lemma linked_heads:
  "chain_head p \<Longrightarrow> linked p n rs \<Longrightarrow> last_hash p rs = foldl sha.next_head p (map record_bytes rs)"
proof (induction p n rs rule: linked.induct)
  case (2 prev n r rs)
  then have "r_RecordHash r = sha.next_head prev (record_bytes r)" using VerifyHash_next(2) by simp
  with 2 next_head_is_head show ?case by simp
qed simp

lemma linked_last_head: "chain_head p \<Longrightarrow> linked p n rs \<Longrightarrow> chain_head (last_hash p rs)"
  by (simp add: linked_heads sha.foldl_good)

lemma linked_bytes:
  "chain_head p \<Longrightarrow> linked p n rs \<Longrightarrow> r \<in> set rs \<Longrightarrow> Canonicalize (Payload r) = Inr (record_bytes r)"
proof (induction p n rs rule: linked.induct)
  case (2 prev n q rs)
  then have q: "Canonicalize (Payload q) = Inr (record_bytes q)" "r_RecordHash q = sha.next_head prev (record_bytes q)"
    using VerifyHash_next [of q] by auto
  show ?case
  proof (cases "r = q")
    case False
    then show ?thesis using 2 q(2) next_head_is_head by simp
  qed (simp add: q)
qed simp

section \<open>The invariant of the tables\<close>

definition tenant_log :: "audit_db \<Rightarrow> TenantID \<Rightarrow> Record list" where
  "tenant_log s t = filter (\<lambda>r. r_TenantID r = t) (as_records s)"

definition log_ok :: "audit_db \<Rightarrow> TenantID \<Rightarrow> bool" where
  "log_ok s t \<longleftrightarrow> linked ZeroChainHash 1 (tenant_log s t) \<and>
     (case map_of (as_sequences s) t of
        None \<Rightarrow> tenant_log s t = []
      | Some (n, h) \<Rightarrow> n = 1 + int (length (tenant_log s t)) \<and> h = last_hash ZeroChainHash (tenant_log s t))"

definition audit_inv :: "audit_db \<Rightarrow> bool" where "audit_inv s \<longleftrightarrow> (\<forall>t. log_ok s t)"

lemma log_ok_cong:
  "tenant_log s t = tenant_log s' t \<Longrightarrow> map_of (as_sequences s) t = map_of (as_sequences s') t \<Longrightarrow> log_ok s t = log_ok s' t"
  unfolding log_ok_def by presburger

lemma log_ok_Head: "log_ok s t \<Longrightarrow> Head s t = (int (length (tenant_log s t)), last_hash ZeroChainHash (tenant_log s t))"
  by (auto simp: log_ok_def Head_def split: option.splits)

lemma Range_log: "linked ZeroChainHash 1 (tenant_log s t) \<Longrightarrow> Range s t 1 0 = tenant_log s t"
proof -
  assume l: "linked ZeroChainHash 1 (tenant_log s t)"
  have "filter (\<lambda>r. r_TenantID r = t \<and> 1 \<le> r_Sequence r) (as_records s) = tenant_log s t"
    using linked_ge [OF l] unfolding tenant_log_def by (auto intro!: filter_cong)
  then show ?thesis
    using linked_sorted [OF l] by (simp add: Range_def sort_key_id_if_sorted)
qed

lemma Verify_log:
  assumes "log_ok s t"
  shows "\<exists>rep. Audit_Verify s t 1 0 = Inr rep \<and> vr_Valid rep \<and> vr_RecordsChecked rep = fst (Head s t)"
proof -
  have l: "linked ZeroChainHash 1 (tenant_log s t)" using assms by (simp add: log_ok_def)
  show ?thesis
  proof (cases "tenant_log s t")
    case Nil
    then show ?thesis using Range_log [OF l] log_ok_Head [OF assms]
      by (simp add: Audit_Verify_def zero_report_def)
  next
    case (Cons r rs)
    moreover have "r_Sequence r = 1" using l Cons by simp
    ultimately show ?thesis
      using Range_log [OF l] log_ok_Head [OF assms] VerifyChain_linked [of ZeroChainHash r rs] l
      by (simp add: Audit_Verify_def)
  qed
qed

section \<open>Appending keeps the log intact\<close>

lemma ensure_log_ok: "audit_inv s \<Longrightarrow> insert_chain f known t s = Inr (u, s') \<Longrightarrow> audit_inv s' \<and> as_records s' = as_records s"
proof -
  assume inv: "audit_inv s" and en: "insert_chain f known t s = Inr (u, s')"
  show ?thesis
  proof (cases "map_of (as_sequences s) t")
    case None
    then have s': "s' = s\<lparr>as_sequences := (t, (1, ZeroChainHash)) # as_sequences s\<rparr>"
      using en by (simp add: insert_chain_def split: option.splits if_splits)
    have lg: "tenant_log s' u = tenant_log s u" for u by (simp add: tenant_log_def s')
    have "log_ok s' u" for u
    proof (cases "u = t")
      case True
      then have "map_of (as_sequences s') u = Some (1, ZeroChainHash)" by (simp add: s')
      then show ?thesis
        using spec [OF inv [unfolded audit_inv_def], of u] None True by (simp add: log_ok_def lg)
    next
      case False
      then have "map_of (as_sequences s') u = map_of (as_sequences s) u" by (simp add: s')
      then show ?thesis
        using spec [OF inv [unfolded audit_inv_def], of u] log_ok_cong [OF lg, of u] by simp
    qed
    then show ?thesis by (simp add: audit_inv_def s')
  next
    case Some
    then show ?thesis using en inv by (simp add: insert_chain_def split: option.splits)
  qed
qed

lemma EnsureChain_Inr: "EnsureChain q known t s = Inr r \<longleftrightarrow> insert_chain (aq_create q) known t s = Inr r"
  by (simp add: EnsureChain_def execT_Inr)

lemma select_chain_Inr: "select_chain f t s = Inr r \<longleftrightarrow> f = None \<and> map_of (as_sequences s) t = Some r"
  by (auto simp: select_chain_def split: option.splits)

lemma insert_chain_frame: "insert_chain f known t s = Inr (u, s') \<Longrightarrow> as_records s' = as_records s \<and> as_anchors s' = as_anchors s"
  by (auto simp: insert_chain_def split: option.splits if_splits)

lemma NextSequence_Inr:
  assumes "NextSequence q known t s = Inr ((seq, head), s')"
  shows "map_of (as_sequences s') t = Some (seq, head)" "ValidChainHash head"
    "as_records s' = as_records s" "as_anchors s' = as_anchors s"
    "s' = s \<or> insert_chain (aq_create q) known t s = Inr ((), s')"
proof -
  have c: "(case x of Inl e \<Rightarrow> Inl (f e) | Inr r \<Rightarrow> Inr (r, w)) = Inr y \<longleftrightarrow> (\<exists>r. x = Inr r \<and> y = (r, w))"
    for x :: "sql_error + int \<times> string" and f :: "sql_error \<Rightarrow> go_error" and w :: audit_db and y
    by (auto split: sum.splits)
  have "ValidChainHash head \<and> map_of (as_sequences s') t = Some (seq, head) \<and>
      (s' = s \<or> insert_chain (aq_create q) known t s = Inr ((), s'))"
  proof (cases "select_chain (aq_select q) t s")
    case (Inr r)
    moreover from this have "map_of (as_sequences s) t = Some r" by (simp add: select_chain_Inr)
    ultimately show ?thesis using assms by (cases r) (auto simp: NextSequence_def Let_def bindT_Inr checkT_Inr returnT_Inr)
  next
    case (Inl err)
    then show ?thesis using assms
      by (cases "IsNoRows err") (auto simp: NextSequence_def Let_def bindT_Inr execT_Inr checkT_Inr returnT_Inr c select_chain_Inr)
  qed
  then show "map_of (as_sequences s') t = Some (seq, head)" "ValidChainHash head"
    "as_records s' = as_records s" "as_anchors s' = as_anchors s"
    "s' = s \<or> insert_chain (aq_create q) known t s = Inr ((), s')"
    by (auto dest: insert_chain_frame)
qed

lemma tenant_log_snoc:
  "as_records s' = as_records s @ [r] \<Longrightarrow>
   tenant_log s' t = (if r_TenantID r = t then tenant_log s t @ [r] else tenant_log s t)"
  by (simp add: tenant_log_def)

text \<open>Cutting the time before storing does not change what is hashed.\<close>

lemma VerifyHash_normalized: "VerifyHash (r\<lparr>r_OccurredAt := NormalizeTime (r_OccurredAt r)\<rparr>) = VerifyHash r"
proof -
  have "Payload (r\<lparr>r_OccurredAt := NormalizeTime (r_OccurredAt r)\<rparr>) = Payload r"
    by (simp add: Payload_def payload_fields_def)
  then show ?thesis by (simp add: VerifyHash_def Record_ComputeHash_def)
qed

lemma Seal_Inr: "Seal r = (None, r') \<Longrightarrow> VerifyHash r' = Inr True \<and> (\<exists>h. r' = r\<lparr>r_RecordHash := h\<rparr>)"
proof -
  assume "Seal r = (None, r')"
  then obtain h where h: "Record_ComputeHash r = Inr h" "r' = r\<lparr>r_RecordHash := h\<rparr>"
    by (auto simp: Seal_def split: sum.splits)
  then have "Record_ComputeHash r' = Inr h" by (simp add: Record_ComputeHash_def Payload_def payload_fields_def)
  then show ?thesis using h(2) by (auto simp: VerifyHash_def)
qed

lemma Append_row_Inr:
  "Append_row q r s = Inr (u, s') \<longleftrightarrow> aq_insert q r = None \<and> insert_record r s = Inr s'"
  by (cases "insert_record r s") (auto simp: Append_row_def execT_Inr)

lemma insert_record_Inr:
  "insert_record r s = Inr s' \<Longrightarrow>
   s' = s\<lparr>as_records := as_records s @ [r\<lparr>r_OccurredAt := NormalizeTime (r_OccurredAt r)\<rparr>]\<rparr>"
  by (auto simp: insert_record_def split: if_splits)

lemma AdvanceHead_Inr:
  "AdvanceHead q t seq h s = Inr (u, s') \<longleftrightarrow> aq_advance q = None \<and>
   s' = s\<lparr>as_sequences := AList.update t (seq + 1, h) (as_sequences s)\<rparr> \<and>
   (\<exists>g. map_of (as_sequences s) t = Some (seq, g))"
  by (auto simp: AdvanceHead_def split: option.splits if_splits)

lemma Audit_Append_Inr:
  assumes "Audit_Append q known newID clock r0 s = Inr (r, s')"
  obtains seq head s1 where
    "NextSequence q known (r_TenantID r0) s = Inr ((seq, head), s1)"
    "r_TenantID r = r_TenantID r0" "r_Sequence r = seq" "r_PrevHash r = head" "VerifyHash r = Inr True"
    "r_Action r = r_Action r0" "r_Actor r = r_Actor r0" "r_Target r = r_Target r0" "r_Outcome r = r_Outcome r0"
    "r_Attributes r = r_Attributes r0"
    "Record_Validate (r\<lparr>r_RecordHash := r_RecordHash r0\<rparr>) = None"
    "as_records s' = as_records s @ [r\<lparr>r_OccurredAt := NormalizeTime (r_OccurredAt r)\<rparr>]"
    "as_sequences s' = AList.update (r_TenantID r0) (seq + 1, r_RecordHash r) (as_sequences s1)"
    "as_anchors s' = as_anchors s"
proof -
  let ?r1 = "if r_ID r0 = '''' then r0\<lparr>r_ID := newID\<rparr> else r0"
  let ?r2 = "if r_OccurredAt ?r1 = 0 then ?r1\<lparr>r_OccurredAt := Now clock\<rparr> else ?r1"
  have r2: "r_TenantID ?r2 = r_TenantID r0" "r_Action ?r2 = r_Action r0" "r_Actor ?r2 = r_Actor r0"
    "r_Target ?r2 = r_Target r0" "r_Outcome ?r2 = r_Outcome r0" "r_Attributes ?r2 = r_Attributes r0"
    "r_RecordHash ?r2 = r_RecordHash r0"
    by simp_all
  from assms obtain seq head s1 where n: "NextSequence q known (r_TenantID ?r2) s = Inr ((seq, head), s1)"
    and rest: "(let r3 = ?r2\<lparr>r_Sequence := seq, r_PrevHash := head\<rparr> in
         case Record_Validate r3 of
           Some err \<Rightarrow> failT err
         | None \<Rightarrow>
           (case Seal r3 of
              (Some err, _) \<Rightarrow> failT (Wrap err ''audit.Append'' KindInternal ''audit.seal_failed'')
            | (None, r) \<Rightarrow>
                bindT (Append_row q r) (\<lambda>_.
                bindT (AdvanceHead q (r_TenantID r) (r_Sequence r) (r_RecordHash r)) (\<lambda>_.
                returnT r)))) s1 = Inr (r, s')"
    unfolding Audit_Append_def Let_def bindT_Inr by auto
  define r3 where "r3 = ?r2\<lparr>r_Sequence := seq, r_PrevHash := head\<rparr>"
  from rest obtain s2 where v: "Record_Validate r3 = None" "Seal r3 = (None, r)"
    "insert_record r s1 = Inr s2" "AdvanceHead q (r_TenantID r) (r_Sequence r) (r_RecordHash r) s2 = Inr ((), s')"
    unfolding Let_def r3_def [symmetric]
    by (auto simp: monad_inv Append_row_Inr split: option.splits prod.splits)
  obtain h where h: "r = r3\<lparr>r_RecordHash := h\<rparr>" "VerifyHash r = Inr True" using Seal_Inr [OF v(2)] by blast
  have f: "r_TenantID r = r_TenantID r0" "r_Sequence r = seq" "r_PrevHash r = head" "r_Action r = r_Action r0"
    "r_Actor r = r_Actor r0" "r_Target r = r_Target r0" "r_Outcome r = r_Outcome r0" "r_Attributes r = r_Attributes r0"
    by (simp_all add: h(1) r3_def)
  have hash: "r\<lparr>r_RecordHash := r_RecordHash r0\<rparr> = r3" by (simp add: h(1) r3_def)
  note s2 = insert_record_Inr [OF v(3)] and ns = NextSequence_Inr [OF n]
  show thesis
  proof (rule that [OF n [unfolded r2] f(1-3) h(2) f(4-8)])
    show "Record_Validate (r\<lparr>r_RecordHash := r_RecordHash r0\<rparr>) = None" by (simp only: hash v(1))
    show "as_records s' = as_records s @ [r\<lparr>r_OccurredAt := NormalizeTime (r_OccurredAt r)\<rparr>]"
      "as_anchors s' = as_anchors s"
      using v(4) ns(3,4) by (simp_all add: s2 AdvanceHead_Inr)
    show "as_sequences s' = AList.update (r_TenantID r0) (seq + 1, r_RecordHash r) (as_sequences s1)"
      using v(4) f(1,2) by (simp add: s2 AdvanceHead_Inr)
  qed
qed

lemma Append_log:
  assumes inv: "audit_inv s" and ap: "Audit_Append q known newID clock r0 s = Inr (r, s')"
  shows "audit_inv s' \<and> (\<forall>t. tenant_log s' t = (if t = r_TenantID r0
      then tenant_log s t @ [r\<lparr>r_OccurredAt := NormalizeTime (r_OccurredAt r)\<rparr>] else tenant_log s t)) \<and>
    r_Sequence r = fst (Head s (r_TenantID r0)) + 1 \<and> r_PrevHash r = snd (Head s (r_TenantID r0)) \<and>
    Head s' (r_TenantID r0) = (r_Sequence r, r_RecordHash r)"
  using ap
proof (cases rule: Audit_Append_Inr)
  case (1 seq head s1)
  let ?t = "r_TenantID r0" and ?r = "r\<lparr>r_OccurredAt := NormalizeTime (r_OccurredAt r)\<rparr>"
  note ns = NextSequence_Inr [OF 1(1)]
  have inv1: "audit_inv s1" using ns(5) inv ensure_log_ok by blast
  have lg1: "tenant_log s1 t = tenant_log s t" for t using ns(3) by (simp add: tenant_log_def)
  have ok: "linked ZeroChainHash 1 (tenant_log s ?t)" "seq = 1 + int (length (tenant_log s ?t))"
    "head = last_hash ZeroChainHash (tenant_log s ?t)"
    using inv1 ns(1) lg1 unfolding audit_inv_def log_ok_def by (auto dest: spec [of _ ?t])
  have lg: "tenant_log s' t = (if t = ?t then tenant_log s t @ [?r] else tenant_log s t)" for t
    using tenant_log_snoc [OF 1(12), of t] 1(2) by auto
  have "VerifyHash ?r = Inr True" using 1(5) VerifyHash_normalized by simp
  then have l: "linked ZeroChainHash 1 (tenant_log s ?t @ [?r])"
    using ok 1(3,4) by (simp add: linked_append)
  have sq: "map_of (as_sequences s') t = (if t = ?t then Some (seq + 1, r_RecordHash r) else map_of (as_sequences s1) t)" for t
    by (simp add: 1(13) update_conv')
  have "log_ok s' t" for t
  proof (cases "t = ?t")
    case True
    then show ?thesis using l ok(2) by (simp add: log_ok_def lg sq last_hash_def)
  next
    case False
    moreover have "log_ok s1 t" using inv1 by (simp add: audit_inv_def)
    ultimately show ?thesis using log_ok_cong [of s' t s1] by (simp add: lg sq lg1)
  qed
  moreover have "Head s ?t = (seq - 1, head)" using log_ok_Head [of s ?t] inv ok by (simp add: audit_inv_def)
  moreover have "Head s' ?t = (seq, r_RecordHash r)" by (simp add: Head_def sq)
  ultimately show ?thesis using lg 1(3,4) by (simp add: audit_inv_def)
qed

section \<open>Properties of the trail\<close>

text \<open>The states the audit service can bring the tables to.\<close>

inductive audit_reach :: "audit_db \<Rightarrow> bool" where
  fresh: "audit_reach \<lparr>as_sequences = [], as_records = [], as_anchors = []\<rparr>"
| ensured: "audit_reach s \<Longrightarrow> EnsureChain q known t s = Inr ((), s') \<Longrightarrow> audit_reach s'"
| appended: "audit_reach s \<Longrightarrow> Audit_Append q known newID clock r0 s = Inr (r, s') \<Longrightarrow> audit_reach s'"
| anchored: "audit_reach s \<Longrightarrow> Audit_Anchor q known put clock t s = Inr (a, s') \<Longrightarrow> audit_reach s'"

lemma anchor_keeps: "Audit_Anchor q known put clock t s = Inr (a, s') \<Longrightarrow>
   as_records s' = as_records s \<and> as_sequences s' = as_sequences s"
  by (auto simp: Audit_Anchor_def Let_def monad_inv SaveAnchor_def execT_Inr split: prod.splits if_splits)

lemma audit_reach_inv: "audit_reach s \<Longrightarrow> audit_inv s"
proof (induction rule: audit_reach.induct)
  case fresh
  then show ?case by (simp add: audit_inv_def log_ok_def tenant_log_def)
next
  case (ensured s q known t s')
  then show ?case using ensure_log_ok [of s "aq_create q" known t "()" s'] by (simp add: EnsureChain_Inr)
next
  case (appended s q known newID clock r0 r s')
  then show ?case using Append_log by blast
next
  case (anchored s q known put clock t a s')
  have "log_ok s' u = log_ok s u" for u
    by (rule log_ok_cong) (simp_all add: tenant_log_def anchor_keeps [OF anchored(2)])
  then show ?case using anchored by (simp add: audit_inv_def)
qed

text \<open>C28: The verifier accepts a run of records exactly when it is intact: numbered without gaps,
  each record linked to its predecessor and carrying the hash of its own content.\<close>

theorem VerifyChain_exact:
  "vr_Valid (VerifyChain rs p) \<longleftrightarrow> rs = [] \<or> linked p (r_Sequence (hd rs)) rs"
  by (rule VerifyChain_Valid)

text \<open>C25: The trail the service writes always verifies: in every state appends and anchors lead to,
  verification of a tenant's whole trail succeeds and has checked as many records as the head of
  the chain counts.\<close>

theorem audit_trail_verifies:
  assumes "audit_reach s"
  shows "\<exists>rep. Audit_Verify s t 1 0 = Inr rep \<and> vr_Valid rep \<and> vr_RecordsChecked rep = fst (Head s t)"
  using Verify_log audit_reach_inv [OF assms] by (simp add: audit_inv_def)

text \<open>A successful append takes the next sequence number of its tenant, links to the head of the
  chain, moves the head to the new record, and leaves what was written before, and the trails of
  other tenants, as they were.\<close>

theorem Audit_Append_extends:
  assumes "audit_reach s" "Audit_Append q known newID clock r0 s = Inr (r, s')"
  shows "r_Sequence r = fst (Head s (r_TenantID r0)) + 1 \<and> r_PrevHash r = snd (Head s (r_TenantID r0)) \<and>
    Head s' (r_TenantID r0) = (r_Sequence r, r_RecordHash r) \<and>
    tenant_log s' (r_TenantID r0) = tenant_log s (r_TenantID r0) @ [r\<lparr>r_OccurredAt := NormalizeTime (r_OccurredAt r)\<rparr>] \<and>
    (\<forall>t. t \<noteq> r_TenantID r0 \<longrightarrow> tenant_log s' t = tenant_log s t)"
  using Append_log [OF audit_reach_inv [OF assms(1)] assms(2)] by simp

section \<open>Rewriting history\<close>

definition chain_inputs :: "Record list \<Rightarrow> string list" where
  "chain_inputs rs = sha.inputs ZeroChainHash (map record_bytes rs)"

lemma filter_le_sorted:
  "linked p k rs \<Longrightarrow> i < length rs \<Longrightarrow> r_Sequence (rs ! i) = n \<Longrightarrow> filter (\<lambda>r. r_Sequence r \<le> n) rs = take (Suc i) rs"
proof (induction p k rs arbitrary: i rule: linked.induct)
  case (2 prev k r rs)
  have seq: "n = k + int i" using linked_sequence_nth [OF 2(2,3)] 2(4) by simp
  show ?case
  proof (cases i)
    case 0
    then have "filter (\<lambda>r. r_Sequence r \<le> n) rs = []"
      using 2(2) seq linked_ge [of "r_RecordHash r" "k + 1" rs] by (force simp: filter_empty_conv)
    then show ?thesis using 0 seq 2(2) by simp
  next
    case (Suc j)
    then show ?thesis using 2 seq by simp
  qed
qed simp

lemma last_hash_take: "i < length rs \<Longrightarrow> last_hash p (take (Suc i) rs) = r_RecordHash (rs ! i)"
  by (auto simp: last_hash_def take_Suc_conv_app_nth)

lemma anchored_history:
  assumes ok: "log_ok s0 t" and hd0: "Head s0 t = (n, h)"
    and a: "LatestAnchor s t = Some a" "an_Sequence a = n" "an_HeadHash a = h" "0 < n"
    and v: "VerifyAgainstAnchor s t = Inr rep" "vr_Valid rep"
  defines "cur \<equiv> filter (\<lambda>r. r_Sequence r \<le> n) (Range s t 1 0)"
  shows "map record_bytes cur = map record_bytes (tenant_log s0 t) \<or>
    (\<exists>x \<in> set (chain_inputs cur). \<exists>y \<in> set (chain_inputs (tenant_log s0 t)). x \<noteq> y \<and> Sum x = Sum y) \<or>
    (\<exists>x \<in> set (chain_inputs (tenant_log s0 t)). Sum x = ZeroChainHash)"
proof -
  let ?R = "Range s t 1 0" and ?old = "tenant_log s0 t"
  have bad: "\<not> vr_Valid (zero_report\<lparr>vr_TenantID := t, vr_FailedAt := f, vr_Reason := m\<rparr>)" for f m
    by (simp add: zero_report_def)
  obtain rec rep' where rec: "Get_record s t n = Inr rec" "r_RecordHash rec = h"
    and rep': "Audit_Verify s t 1 0 = Inr rep'" "vr_Valid rep'"
    using v a bad
    by (auto simp: VerifyAgainstAnchor_def Let_def monad_inv split: sum.splits if_splits)
  have r: "rec \<in> set (as_records s)" "r_TenantID rec = t" "r_Sequence rec = n"
    using rec(1) by (auto simp: Get_record_def find_Some_iff split: option.splits)
  then have R: "rec \<in> set ?R" using a(4) by (simp add: Range_def)
  then have ne: "?R \<noteq> []" by auto
  then have "vr_Valid (VerifyChain ?R ZeroChainHash)" using rep' by (simp add: Audit_Verify_def)
  then have l: "linked ZeroChainHash (r_Sequence (hd ?R)) ?R" using ne VerifyChain_Valid by blast
  obtain i where i: "i < length ?R" "?R ! i = rec" using R by (auto simp: in_set_conv_nth)
  have cur: "cur = take (Suc i) ?R"
    unfolding cur_def using filter_le_sorted [OF l i(1)] i(2) r(3) by simp
  have lc: "linked ZeroChainHash (r_Sequence (hd ?R)) cur"
    using l linked_append [of ZeroChainHash _ "take (Suc i) ?R" "drop (Suc i) ?R"] by (simp add: cur)
  have k: "1 \<le> r_Sequence (hd ?R)" using hd_in_set [OF ne] by (simp add: Range_def)
  have "n = r_Sequence (hd ?R) + int i" using linked_sequence_nth [OF l i(1)] i(2) r(3) by simp
  moreover have "n = int (length ?old)" "h = last_hash ZeroChainHash ?old"
    using log_ok_Head [OF ok] hd0 by simp_all
  ultimately have len: "length cur \<le> length ?old" using k i(1) by (simp add: cur)
  note zero = ZeroChainHash_head
  have lo: "linked ZeroChainHash 1 ?old" using ok by (simp add: log_ok_def)
  have "last_hash ZeroChainHash cur = h" using last_hash_take [OF i(1)] i(2) rec(2) by (simp add: cur)
  then have eq: "foldl sha.next_head ZeroChainHash (map record_bytes cur) =
      foldl sha.next_head ZeroChainHash (map record_bytes ?old)"
    using linked_heads [OF zero lc] linked_heads [OF zero lo] \<open>h = last_hash ZeroChainHash ?old\<close> by simp
  from sha.same_head_suffix [OF zero _ eq] len consider
      front where "map record_bytes ?old = front @ map record_bytes cur" "foldl sha.next_head ZeroChainHash front = ZeroChainHash"
    | "\<exists>x \<in> set (chain_inputs cur). \<exists>y \<in> set (chain_inputs ?old). x \<noteq> y \<and> Sum x = Sum y"
    by (auto simp: chain_inputs_def)
  then show ?thesis
  proof cases
    case (1 front)
    show ?thesis
    proof (cases "front = []")
      case True
      then show ?thesis using 1 by simp
    next
      case False
      from sha.start_again [OF 1(2) this] obtain x where x: "x \<in> set (sha.inputs ZeroChainHash front)" "Sum x = ZeroChainHash"
        by blast
      then have "x \<in> set (chain_inputs ?old)" by (simp add: chain_inputs_def 1(1) sha.inputs_append)
      then show ?thesis using x(2) by blast
    qed
  qed blast
qed

text \<open>C24: Rewriting history is detected. Let the head of a tenant's trail have been anchored, and let
  the tables be changed in any way at all but for that anchor: if verification against the anchor
  still succeeds, the records up to the anchored one are, byte for byte of what the chain hash
  covers, the records that were there when it was published; otherwise two of the strings hashed
  in the two histories are a collision of SHA-256, or one of the original ones hashes to the
  genesis value.\<close>

theorem rewritten_history_detected:
  assumes "audit_reach s0" "Head s0 t = (n, h)" "0 < n"
    and "LatestAnchor s t = Some a" "an_Sequence a = n" "an_HeadHash a = h"
    and "VerifyAgainstAnchor s t = Inr rep" "vr_Valid rep"
  shows "map record_bytes (filter (\<lambda>r. r_Sequence r \<le> n) (Range s t 1 0)) = map record_bytes (tenant_log s0 t) \<or>
    (\<exists>x \<in> set (chain_inputs (filter (\<lambda>r. r_Sequence r \<le> n) (Range s t 1 0))).
       \<exists>y \<in> set (chain_inputs (tenant_log s0 t)). x \<noteq> y \<and> Sum x = Sum y) \<or>
    (\<exists>x \<in> set (chain_inputs (tenant_log s0 t)). Sum x = ZeroChainHash)"
  using anchored_history [OF _ assms(2,4,5,6,3,7,8)] audit_reach_inv [OF assms(1)]
  by (simp add: audit_inv_def)

section \<open>What the chain hash covers\<close>

definition agree_record :: "Record \<Rightarrow> Record \<Rightarrow> bool" where
  "agree_record r q \<longleftrightarrow>
     sanitize_string (r_ID r) = sanitize_string (r_ID q) \<and>
     sanitize_string (r_TenantID r) = sanitize_string (r_TenantID q) \<and>
     r_Sequence r = r_Sequence q \<and>
     sanitize_string (r_Action r) = sanitize_string (r_Action q) \<and>
     sanitize_string (r_Outcome r) = sanitize_string (r_Outcome q) \<and>
     sanitize_string (r_Severity r) = sanitize_string (r_Severity q) \<and>
     canon (sanitize (json_actor (r_Actor r))) = canon (sanitize (json_actor (r_Actor q))) \<and>
     canon (sanitize (json_target (r_Target r))) = canon (sanitize (json_target (r_Target q))) \<and>
     canon (sanitize (JObject (r_Attributes r))) = canon (sanitize (JObject (r_Attributes q))) \<and>
     sanitize_string (r_PrevHash r) = sanitize_string (r_PrevHash q)"

lemma payload_keys: "distinct (map fst (payload_fields r))" "list_all is_ascii (map fst (payload_fields r))"
  by (simp_all add: payload_fields_def is_ascii_def)

lemma json_actor_wf: "wf_struct (json_actor a)"
  unfolding json_actor_def by (rule struct_wf) (simp_all add: is_ascii_def)

lemma json_target_wf: "wf_struct (json_target t)"
  unfolding json_target_def by (rule struct_wf) (simp_all add: is_ascii_def)

lemma payload_wf: "wf_struct (JObject (r_Attributes r)) \<Longrightarrow> wf_struct (struct (payload_fields r))"
  by (rule struct_wf [OF payload_keys])
    (simp add: payload_fields_def json_actor_wf json_target_wf del: wf_struct.simps)

text \<open>Records with the same hashed bytes agree in every field an auditor reads: identifier,
  tenant, sequence, action, outcome, severity, actor, target, attributes and the link to the
  predecessor, strings up to the replacement of invalid UTF-8 and values as canonical JSON.\<close>

theorem record_bytes_pin:
  assumes "Canonicalize (Payload r) = Inr b" "Canonicalize (Payload q) = Inr b"
    and "wf_struct (JObject (r_Attributes r))" "wf_struct (JObject (r_Attributes q))"
    and "abs (r_Sequence r) < 10 ^ 15" "abs (r_Sequence q) < 10 ^ 15"
  shows "agree_record r q"
proof -
  note fields = struct_fields_eq [OF payload_keys payload_keys payload_wf [OF assms(3)] payload_wf [OF assms(4)]
      assms(1,2) [unfolded Payload_def]]
  note pf = payload_fields_def str_def
  have "r_Sequence r = r_Sequence q"
    using fields [of "''sequence''"] canon_int_eq [OF assms(5,6)] by (simp add: pf)
  moreover have "sanitize_string (r_ID r) = sanitize_string (r_ID q)"
    using fields [of "''id''"] by (simp add: pf)
  moreover have "sanitize_string (r_TenantID r) = sanitize_string (r_TenantID q)"
    using fields [of "''tenant_id''"] by (simp add: pf)
  moreover have "sanitize_string (r_Action r) = sanitize_string (r_Action q)"
    using fields [of "''action''"] by (simp add: pf)
  moreover have "sanitize_string (r_Outcome r) = sanitize_string (r_Outcome q)"
    using fields [of "''outcome''"] by (simp add: pf)
  moreover have "sanitize_string (r_Severity r) = sanitize_string (r_Severity q)"
    using fields [of "''severity''"] by (simp add: pf)
  moreover have "canon (sanitize (json_actor (r_Actor r))) = canon (sanitize (json_actor (r_Actor q)))"
    using fields [of "''actor''"] by (simp add: pf)
  moreover have "canon (sanitize (json_target (r_Target r))) = canon (sanitize (json_target (r_Target q)))"
    using fields [of "''target''"] by (simp add: pf)
  moreover have "canon (sanitize (JObject (r_Attributes r))) = canon (sanitize (JObject (r_Attributes q)))"
    using fields [of "''attributes''"] by (simp add: pf del: sanitize.simps canon.simps)
  moreover have "sanitize_string (r_PrevHash r) = sanitize_string (r_PrevHash q)"
    using fields [of "''prev_hash''"] by (simp add: pf)
  ultimately show ?thesis unfolding agree_record_def by blast
qed

section \<open>Well-formed records are accepted\<close>

definition hashable_record :: "Record \<Rightarrow> bool" where
  "hashable_record r \<longleftrightarrow> abs (r_Sequence r) < 10 ^ 15 \<and> abs (tg_Version (r_Target r)) < 10 ^ 15 \<and>
     all_nums representable (JObject (r_Attributes r)) \<and> depth (JObject (r_Attributes r)) < maxNestingDepth"

lemma json_actor_ok: "all_nums P (json_actor a)" "depth (json_actor a) \<le> Suc 0"
  unfolding json_actor_def struct_nums struct_depth by (simp_all add: str_def str_opt_def)

lemma json_target_ok: "abs (tg_Version t) < 10 ^ 15 \<Longrightarrow> all_nums representable (json_target t)" "depth (json_target t) \<le> Suc 0"
  unfolding json_target_def struct_nums struct_depth by (simp_all add: representable_int str_def str_opt_def)

lemma payload_total: "hashable_record r \<Longrightarrow> \<exists>b. Canonicalize (Payload r) = Inr b"
proof -
  assume h: "hashable_record r"
  have "all_nums representable (struct (payload_fields r))"
    using h unfolding struct_nums payload_fields_def hashable_record_def
    by (simp add: json_actor_ok json_target_ok representable_int)
  moreover have "depth (struct (payload_fields r)) \<le> Suc (maxNestingDepth - 1)"
    using h json_actor_ok(2) json_target_ok(2) order_trans [of _ "Suc 0" "maxNestingDepth - 1"]
    unfolding struct_depth payload_fields_def hashable_record_def
    by (simp add: maxNestingDepth_def del: depth.simps) (metis One_nat_def le_trans one_le_numeral)
  ultimately show ?thesis using Canonicalize_total [of "struct (payload_fields r)"]
    by (simp add: Payload_def maxNestingDepth_def)
qed

lemma Seal_ok: "hashable_record r \<Longrightarrow> chain_head (r_PrevHash r) \<Longrightarrow> \<exists>h. Seal r = (None, r\<lparr>r_RecordHash := h\<rparr>) \<and> chain_head h"
  using payload_total [of r] next_head_is_head
  by (auto simp: Seal_def Record_ComputeHash_def ChainOf_def Chain_head chain_head_valid)

lemma Validate_fields:
  "Record_Validate (r\<lparr>r_Sequence := 1\<rparr>) = None \<Longrightarrow> 1 \<le> n \<Longrightarrow> Record_Validate (r\<lparr>r_ID := i, r_Sequence := n, r_PrevHash := p\<rparr>) = None"
  by (simp add: Record_Validate_def Let_def split: if_splits)

text \<open>The statements before the record's: the counter's row is there or can be created.\<close>

definition counter_ready :: "audit_faults \<Rightarrow> (TenantID \<Rightarrow> bool) \<Rightarrow> TenantID \<Rightarrow> bool" where
  "counter_ready q known t \<longleftrightarrow> known t \<and> aq_select q = None \<and> aq_create q = None \<and> aq_again q = None"

lemma NextSequence_ok:
  assumes "log_ok s t" "counter_ready q known t"
  shows "\<exists>s1. NextSequence q known t s = Inr ((1 + int (length (tenant_log s t)), last_hash ZeroChainHash (tenant_log s t)), s1)"
proof -
  have h: "ValidChainHash (last_hash ZeroChainHash (tenant_log s t))"
    by (rule chain_head_valid, rule linked_last_head [OF ZeroChainHash_head, of 1]) (use assms in \<open>simp add: log_ok_def\<close>)
  have z: "ValidChainHash ZeroChainHash" by (rule chain_head_valid [OF ZeroChainHash_head])
  note q = assms(2) [unfolded counter_ready_def]
  show ?thesis
  proof (cases "map_of (as_sequences s) t")
    case None
    then have "tenant_log s t = []" using assms by (simp add: log_ok_def)
    with None z q show ?thesis
      by (simp add: NextSequence_def Let_def bindT_def select_chain_def IsNoRows_def execT_def insert_chain_def checkT_def returnT_def)
  next
    case (Some nh)
    then have "nh = (1 + int (length (tenant_log s t)), last_hash ZeroChainHash (tenant_log s t))"
      using assms by (simp add: log_ok_def split: prod.splits)
    with Some h q show ?thesis
      by (simp add: NextSequence_def Let_def bindT_def select_chain_def checkT_def returnT_def)
  qed
qed

lemma Append_succeeds:
  assumes inv: "audit_inv s" and v: "Record_Validate (r0\<lparr>r_Sequence := 1\<rparr>) = None"
    and h: "hashable_record (r0\<lparr>r_Sequence := 1 + fst (Head s (r_TenantID r0))\<rparr>)"
    and q: "counter_ready q known (r_TenantID r0)" "aq_advance q = None"
      "\<And>r. r_TenantID r = r_TenantID r0 \<Longrightarrow> r_OccurredAt r = r_OccurredAt r0 \<Longrightarrow> aq_insert q r = None"
  shows "\<exists>r s'. Audit_Append q known newID clock r0 s = Inr (r, s')"
proof -
  let ?t = "r_TenantID r0"
  let ?seq = "1 + int (length (tenant_log s ?t))" and ?head = "last_hash ZeroChainHash (tenant_log s ?t)"
  have ok: "log_ok s ?t" using inv by (simp add: audit_inv_def)
  then have l: "linked ZeroChainHash 1 (tenant_log s ?t)" by (simp add: log_ok_def)
  obtain s1 where s1: "NextSequence q known ?t s = Inr ((?seq, ?head), s1)" using NextSequence_ok [OF ok q(1)] by blast
  note ns = NextSequence_Inr [OF s1]
  let ?i = "if r_ID r0 = '''' then newID else r_ID r0"
  let ?r3 = "r0\<lparr>r_ID := ?i, r_Sequence := ?seq, r_PrevHash := ?head\<rparr>"
  have v3: "Record_Validate ?r3 = None" by (rule Validate_fields [OF v]) simp
  have t0: "r_OccurredAt r0 \<noteq> 0" using v by (simp add: Record_Validate_def Let_def split: if_splits)
  have "hashable_record ?r3" using h log_ok_Head [OF ok] by (simp add: hashable_record_def)
  moreover have head: "chain_head ?head" by (rule linked_last_head [OF ZeroChainHash_head l])
  ultimately obtain g where g: "Seal ?r3 = (None, ?r3\<lparr>r_RecordHash := g\<rparr>)" "chain_head g"
    using Seal_ok [of ?r3] by auto
  let ?r = "?r3\<lparr>r_RecordHash := g\<rparr>"
  have "r_Sequence x \<noteq> ?seq" if "x \<in> set (as_records s1)" "r_TenantID x = ?t" for x
  proof -
    have "x \<in> set (tenant_log s ?t)" using that ns(3) by (simp add: tenant_log_def)
    then show ?thesis using linked_sequence_nth [OF l] by (auto simp: in_set_conv_nth)
  qed
  moreover have "Outcome_Valid (r_Outcome r0)" "Severity_Valid (r_Severity r0)"
    using v by (auto simp: Record_Validate_def Let_def split: if_splits)
  moreover have "ValidChainHash ?head" "ValidChainHash g" using head g(2) chain_head_valid by auto
  ultimately have ins: "insert_record ?r s1 = Inr (s1\<lparr>as_records := as_records s1 @
      [?r\<lparr>r_OccurredAt := NormalizeTime (r_OccurredAt ?r)\<rparr>]\<rparr>)"
    by (auto simp: insert_record_def)
  have "Audit_Append q known newID clock r0 s =
     (bindT (Append_row q ?r) (\<lambda>_. bindT (AdvanceHead q ?t ?seq g) (\<lambda>_. returnT ?r))) s1"
  proof -
    have e: "(if r_ID r0 = '''' then r0\<lparr>r_ID := newID\<rparr> else r0) = r0\<lparr>r_ID := ?i\<rparr>" by simp
    show ?thesis
      by (simp add: Audit_Append_def Let_def e t0 bindT_def [of "NextSequence q known ?t"] s1 v3 [simplified] g(1) [simplified])
  qed
  also have "\<dots> = Inr (?r, s1\<lparr>as_records := as_records s1 @ [?r\<lparr>r_OccurredAt := NormalizeTime (r_OccurredAt ?r)\<rparr>],
      as_sequences := AList.update ?t (?seq + 1, g) (as_sequences s1)\<rparr>)"
    using ins ns(1) q(2) q(3) [of ?r] by (simp add: bindT_def Append_row_def execT_def AdvanceHead_def returnT_def)
  finally show ?thesis by blast
qed

text \<open>C26: The trail does not stand in the way of the work it records. In every reachable state a
  well-formed record with representable attributes is appended, provided the tenants' table has its
  tenant, none of the statements runs into an error of the server or the connection, and the
  columns take the record's values: of the code's other refusals none can happen, no counter,
  key or head conflict and no hash that is not a digest.\<close>

theorem Audit_Append_total:
  assumes "audit_reach s" "Record_Validate (r0\<lparr>r_Sequence := 1\<rparr>) = None"
    and "hashable_record (r0\<lparr>r_Sequence := 1 + fst (Head s (r_TenantID r0))\<rparr>)"
    and "known (r_TenantID r0)" "aq_select q = None" "aq_create q = None" "aq_again q = None" "aq_advance q = None"
    and "\<And>r. r_TenantID r = r_TenantID r0 \<Longrightarrow> r_OccurredAt r = r_OccurredAt r0 \<Longrightarrow> aq_insert q r = None"
  shows "\<exists>r s'. Audit_Append q known newID clock r0 s = Inr (r, s')"
  using Append_succeeds [OF audit_reach_inv [OF assms(1)] assms(2,3)] assms(4-9) by (simp add: counter_ready_def)

text \<open>Each of the conditions is needed: a fault of a statement is the error of the append, and a tenant
  that is not in its table gets no counter and so no record.\<close>

lemma Audit_Append_needs:
  assumes "Audit_Append q known newID clock r0 s = Inr (r, s')"
  shows "aq_insert q r = None \<and> aq_advance q = None \<and>
    (map_of (as_sequences s) (r_TenantID r0) = None \<longrightarrow> known (r_TenantID r0))"
proof -
  let ?r1 = "if r_ID r0 = '''' then r0\<lparr>r_ID := newID\<rparr> else r0"
  let ?r2 = "if r_OccurredAt ?r1 = 0 then ?r1\<lparr>r_OccurredAt := Now clock\<rparr> else ?r1"
  obtain seq head s1 where n: "NextSequence q known (r_TenantID ?r2) s = Inr ((seq, head), s1)"
    and rest: "aq_insert q r = None" "aq_advance q = None"
    using assms unfolding Audit_Append_def Let_def bindT_Inr
    by (auto simp: monad_inv Append_row_Inr AdvanceHead_Inr split: option.splits prod.splits)
  have "r_TenantID ?r2 = r_TenantID r0" by simp
  moreover have "map_of (as_sequences s) t = None \<Longrightarrow> NextSequence q known t s = Inr ((seq, head), s1) \<Longrightarrow> known t" for t
    by (auto simp: NextSequence_def Let_def monad_inv select_chain_def insert_chain_def split: sum.splits if_splits option.splits)
  ultimately show ?thesis using n rest by auto
qed

section \<open>Witnesses\<close>

lemma Get_head:
  assumes ok: "log_ok s t" and h: "Head s t = (n, h)" "0 < n"
  shows "\<exists>rec. Get_record s t n = Inr rec \<and> r_RecordHash rec = h"
proof -
  let ?L = "tenant_log s t"
  have l: "linked ZeroChainHash 1 ?L" using ok by (simp add: log_ok_def)
  have n: "n = int (length ?L)" "h = last_hash ZeroChainHash ?L" using log_ok_Head [OF ok] h by simp_all
  then have ne: "?L \<noteq> []" using h(2) by auto
  have last: "last ?L = ?L ! (length ?L - 1)" using ne by (simp add: last_conv_nth)
  have "last ?L \<in> set (as_records s)" "r_TenantID (last ?L) = t"
    using last_in_set [OF ne] by (auto simp: tenant_log_def)
  moreover have "r_Sequence (last ?L) = n" using linked_sequence_nth [OF l, of "length ?L - 1"] ne n last
    by (cases ?L) simp_all
  ultimately have "\<exists>x \<in> set (as_records s). r_TenantID x = t \<and> r_Sequence x = n" by blast
  then obtain rec where rec: "find (\<lambda>r. r_TenantID r = t \<and> r_Sequence r = n) (as_records s) = Some rec"
    using find_None_iff [of "\<lambda>r. r_TenantID r = t \<and> r_Sequence r = n" "as_records s"] by fastforce
  then have "rec \<in> set (as_records s)" "r_TenantID rec = t" "r_Sequence rec = n" by (auto simp: find_Some_iff)
  then have "rec \<in> set ?L" by (simp add: tenant_log_def)
  then obtain i where i: "i < length ?L" "?L ! i = rec" by (auto simp: in_set_conv_nth)
  then have "int i + 1 = n" using linked_sequence_nth [OF l i(1)] \<open>r_Sequence rec = n\<close> by simp
  then have "i = length ?L - 1" using n(1) by simp
  then have "rec = last ?L" using i last by simp
  then show ?thesis using rec n ne by (simp add: Get_record_def last_hash_def)
qed

lemma VerifyAgainstAnchor_ok:
  assumes "log_ok s t" "Head s t = (n, h)" "0 < n"
    and "LatestAnchor s t = Some a" "an_Sequence a = n" "an_HeadHash a = h"
  shows "\<exists>rep. VerifyAgainstAnchor s t = Inr rep \<and> vr_Valid rep"
  using Get_head [OF assms(1-3)] Verify_log [OF assms(1)] assms(4-6)
  by (auto simp: VerifyAgainstAnchor_def)

definition sample_record :: Record where
  "sample_record = NewRecord 5000 ''t1'' None ''artifact.create'' OutcomeSuccess SeverityInfo
     \<lparr>ac_Kind = ''USER'', ac_PrincipalID = ''u1'', ac_Display = '''', ac_Subject = '''', ac_Issuer = '''',
      ac_OnBehalfOf = '''', ac_BreakGlass = False, ac_IPHash = '''', ac_UserAgent = ''''\<rparr>
     \<lparr>tg_Type = ''Artifact'', tg_ID = ''SPEC-001'', tg_Version = 1, tg_ProjectID = '''', tg_ContentHash = ''''\<rparr>"

definition empty_log :: audit_db where
  "empty_log = \<lparr>as_sequences = [], as_records = [], as_anchors = []\<rparr>"

lemma empty_log_reach: "audit_reach empty_log"
  unfolding empty_log_def by (rule audit_reach.fresh)

lemma sample_record_valid: "Record_Validate (sample_record\<lparr>r_Sequence := 1\<rparr>) = None"
proof -
  have "TrimSpace ''artifact.create'' = ''artifact.create''" by (rule TrimSpace_id) (simp_all add: graphic_def)
  then show ?thesis
    by (simp add: Record_Validate_def sample_record_def NewRecord_def Empty_def Outcome_Valid_def Severity_Valid_def
        HasPrefix_def Now_def NormalizeTime_def Microsecond_def)
qed

lemma sample_record_hashable: "hashable_record (sample_record\<lparr>r_Sequence := 1 + fst (Head empty_log t)\<rparr>)"
  by (simp add: hashable_record_def sample_record_def NewRecord_def Head_def empty_log_def maxNestingDepth_def)

lemma Audit_Append_total_witness:
  "\<exists>r s'. Audit_Append no_faults (\<lambda>t. t = ''t1'') ''id-1'' 5000 sample_record empty_log = Inr (r, s')"
  by (rule Audit_Append_total [OF empty_log_reach sample_record_valid sample_record_hashable])
    (simp_all add: no_faults_def sample_record_def NewRecord_def)

text \<open>The tables after the sample record was appended.\<close>

definition one_log :: audit_db where
  "one_log = (case Audit_Append no_faults (\<lambda>_. True) ''id-1'' 5000 sample_record empty_log of Inr (r, s') \<Rightarrow> s' | Inl _ \<Rightarrow> empty_log)"

definition one_record :: Record where
  "one_record = (case Audit_Append no_faults (\<lambda>_. True) ''id-1'' 5000 sample_record empty_log of Inr (r, s') \<Rightarrow> r | Inl _ \<Rightarrow> sample_record)"

lemma one_log_append: "Audit_Append no_faults (\<lambda>_. True) ''id-1'' 5000 sample_record empty_log = Inr (one_record, one_log)"
  using Append_succeeds [OF audit_reach_inv [OF empty_log_reach] sample_record_valid sample_record_hashable, of no_faults "\<lambda>_. True" "''id-1''" 5000]
  by (auto simp: one_log_def one_record_def counter_ready_def no_faults_def)

lemma one_log_reach: "audit_reach one_log"
  by (rule audit_reach.appended [OF empty_log_reach one_log_append])

lemma sample_tenant: "r_TenantID sample_record = ''t1''"
  by (simp add: sample_record_def NewRecord_def)

lemma one_log_Head: "Head one_log ''t1'' = (1, r_RecordHash one_record)"
  using Append_log [OF audit_reach_inv [OF empty_log_reach] one_log_append]
  by (simp add: sample_tenant) (simp add: Head_def empty_log_def)

lemma audit_trail_verifies_witness:
  "(\<exists>rep. Audit_Verify one_log ''t1'' 1 0 = Inr rep \<and> vr_Valid rep \<and> vr_RecordsChecked rep = 1)"
  using audit_trail_verifies [OF one_log_reach, of "''t1''"] by (simp add: one_log_Head)

lemma Audit_Append_extends_witness:
  "r_Sequence one_record = 1 \<and> r_PrevHash one_record = ZeroChainHash"
  using Audit_Append_extends [OF empty_log_reach one_log_append]
  by (simp add: sample_tenant) (simp add: Head_def empty_log_def)

definition anchored_log :: audit_db where
  "anchored_log = one_log\<lparr>as_anchors := [\<lparr>an_TenantID = ''t1'', an_AnchoredAt = 9000, an_Sequence = 1,
     an_HeadHash = r_RecordHash one_record, an_StorageRef = ''k''\<rparr>]\<rparr>"

lemma rewritten_history_detected_witness:
  "\<exists>rep. VerifyAgainstAnchor anchored_log ''t1'' = Inr rep \<and> vr_Valid rep \<and>
   (map record_bytes (filter (\<lambda>r. r_Sequence r \<le> 1) (Range anchored_log ''t1'' 1 0)) = map record_bytes (tenant_log one_log ''t1'') \<or>
    (\<exists>x \<in> set (chain_inputs (filter (\<lambda>r. r_Sequence r \<le> 1) (Range anchored_log ''t1'' 1 0))).
       \<exists>y \<in> set (chain_inputs (tenant_log one_log ''t1'')). x \<noteq> y \<and> Sum x = Sum y) \<or>
    (\<exists>x \<in> set (chain_inputs (tenant_log one_log ''t1'')). Sum x = ZeroChainHash))"
proof -
  let ?a = "\<lparr>an_TenantID = ''t1'', an_AnchoredAt = 9000, an_Sequence = 1,
     an_HeadHash = r_RecordHash one_record, an_StorageRef = ''k''\<rparr>"
  have a: "LatestAnchor anchored_log ''t1'' = Some ?a" by (simp add: LatestAnchor_def anchored_log_def)
  have "log_ok one_log ''t1''" using audit_reach_inv [OF one_log_reach] by (simp add: audit_inv_def)
  then have ok: "log_ok anchored_log ''t1''"
    using log_ok_cong [of anchored_log "''t1''" one_log] by (simp add: anchored_log_def tenant_log_def)
  have "Head anchored_log ''t1'' = (1, r_RecordHash one_record)"
    using one_log_Head by (simp add: Head_def anchored_log_def)
  from VerifyAgainstAnchor_ok [OF ok this _ a] obtain rep
    where rep: "VerifyAgainstAnchor anchored_log ''t1'' = Inr rep" "vr_Valid rep" by auto
  show ?thesis
    using rewritten_history_detected [OF one_log_reach one_log_Head _ a _ _ rep] rep by auto
qed

lemma one_record_facts:
  "chain_head (r_PrevHash one_record)" "VerifyHash one_record = Inr True" "r_Sequence one_record = 1"
  "r_Attributes one_record = []"
proof -
  have "VerifyHash one_record = Inr True \<and> r_Attributes one_record = r_Attributes sample_record"
    using one_log_append by (rule Audit_Append_Inr) blast
  moreover have "r_Attributes sample_record = []" by (simp add: sample_record_def NewRecord_def)
  ultimately show "VerifyHash one_record = Inr True" "r_Attributes one_record = []" by simp_all
  have "r_Sequence one_record = 1 \<and> r_PrevHash one_record = ZeroChainHash"
    using Append_log [OF audit_reach_inv [OF empty_log_reach] one_log_append]
    by (simp add: sample_tenant) (simp add: Head_def empty_log_def)
  then show "r_Sequence one_record = 1" "chain_head (r_PrevHash one_record)" by (simp_all add: ZeroChainHash_head)
qed

lemma record_bytes_pin_witness: "agree_record one_record (one_record\<lparr>r_RecordHash := ''x''\<rparr>)"
proof -
  have o: "chain_head (r_PrevHash one_record)" "VerifyHash one_record = Inr True" "r_Sequence one_record = 1"
    "r_Attributes one_record = []"
    using one_record_facts by simp_all
  then obtain b where b: "Canonicalize (Payload one_record) = Inr b" using VerifyHash_next(1) by blast
  moreover have "Payload (one_record\<lparr>r_RecordHash := ''x''\<rparr>) = Payload one_record"
    by (simp add: Payload_def payload_fields_def)
  ultimately show ?thesis using record_bytes_pin [of one_record b "one_record\<lparr>r_RecordHash := ''x''\<rparr>"] o
    by (simp add: wf_keys_def)
qed

end
