(* ===== verification/Outbox.thy ===== *)
theory Outbox
  imports Hash GoTime Sql
begin

text \<open>
  The transactional outbox, \<^verbatim>\<open>internal/platform/outbox\<close>: envelopes, the table
  \<^verbatim>\<open>outbox_events\<close> in the order of insertion with its row policy, and the relay. The publisher is
  the interface the relay is built with, so it is an argument: it takes a batch and returns an optional
  error. So are the connection and the errors of the statements, the rows other relays hold locked, the
  identifiers, the clocks (\<^verbatim>\<open>created_at\<close> is the database's) and the text \<^verbatim>\<open>jsonb\<close> makes of a payload.
\<close>

section \<open>Envelopes\<close>

(*src internal/platform/outbox/outbox.go#Aggregate*)
record Aggregate =
  ag_Type :: string
  ag_ID :: string
  ag_Version :: int

(*src internal/platform/outbox/outbox.go#Actor*)
record OutboxActor =
  oa_Kind :: string
  oa_PrincipalID :: string
  oa_Display :: string
  oa_OnBehalfOf :: string

(*src internal/platform/outbox/outbox.go#Correlation*)
record Correlation =
  co_TraceID :: string
  co_SpanID :: string
  co_RequestID :: string
  co_CausationID :: string
  co_IdempotencyKey :: string

(*src internal/platform/outbox/outbox.go#Envelope*)
record Envelope =
  e_EventID :: string
  e_EventType :: string
  e_Schema :: string
  e_SchemaVersion :: int
  e_OccurredAt :: time
  e_RecordedAt :: time
  e_TenantID :: TenantID
  e_ProjectID :: "ProjectID option"
  e_Aggregate :: Aggregate
  e_Actor :: OutboxActor
  e_Correlation :: Correlation
  e_Payload :: string
  e_PayloadHash :: string

(*src internal/platform/outbox/outbox.go#Envelope.PartitionKey*)
definition PartitionKey :: "Envelope \<Rightarrow> string" where
  "PartitionKey e = e_TenantID e @ '':'' @ ag_ID (e_Aggregate e)"

(*src internal/platform/outbox/outbox.go#New*)
definition NewEnvelope ::
  "string \<Rightarrow> time \<Rightarrow> string \<Rightarrow> TenantID \<Rightarrow> ProjectID option \<Rightarrow> Aggregate \<Rightarrow> OutboxActor \<Rightarrow> Correlation \<Rightarrow>
   json \<Rightarrow> Envelope result" where
  "NewEnvelope newID clock eventType tenantID projectID agg actor corr payload =
     (case Canonicalize payload of
        Inl err \<Rightarrow> Inl (WrappedError ''outbox: canonicalizing payload'' err)
      | Inr text \<Rightarrow> Inr
          \<lparr>e_EventID = newID, e_EventType = eventType, e_Schema = ''specforge.event.'' @ eventType,
           e_SchemaVersion = 1, e_OccurredAt = Now clock, e_RecordedAt = 0, e_TenantID = tenantID,
           e_ProjectID = projectID, e_Aggregate = agg, e_Actor = actor, e_Correlation = corr,
           e_Payload = text, e_PayloadHash = ''sha256:'' @ Sum text\<rparr>)"

section \<open>The table\<close>

record outbox_row =
  ob_event :: Envelope
  ob_partition_key :: string
  ob_created_at :: time
  ob_published_at :: "time option"
  ob_attempts :: int
  ob_last_error :: string

type_synonym 'a outbox_tx = "(go_error, outbox_row list, 'a) tx"

abbreviation row_id :: "outbox_row \<Rightarrow> string" where "row_id r \<equiv> e_EventID (ob_event r)"

text \<open>The policy of the table: a row is visible to the sessions of its tenant and to the relay's, and what is
  written has to be of the session's tenant. A role that bypasses row-level security is exempt.\<close>

(*src migrations/0003_audit_outbox.sql:117-122#outbox_events*)
definition outbox_using :: "bool \<Rightarrow> string list \<Rightarrow> outbox_row \<Rightarrow> bool" where
  "outbox_using bypass session r \<longleftrightarrow> bypass \<or> current_tenant session = Some (e_TenantID (ob_event r)) \<or>
     session_var ''app.relay'' session = Some ''on''"

(*src migrations/0003_audit_outbox.sql:121-123#outbox_events*)
definition outbox_check :: "bool \<Rightarrow> string list \<Rightarrow> outbox_row \<Rightarrow> sql_error option" where
  "outbox_check bypass session r =
     (if bypass \<or> current_tenant session = Some (e_TenantID (ob_event r)) then None else Some (ServerError ''42501'' ''''))"

text \<open>One \<^verbatim>\<open>INSERT\<close>; the identifier is the primary key. \<open>fault\<close> is what the statement runs into
  otherwise: the connection, a value that does not have the type of its column, the policy. The documents of
  the correlation and the actor always encode.\<close>

(*src internal/platform/outbox/outbox.go:111-157#Store.Append*)
definition insert_event :: "(Envelope \<Rightarrow> sql_error option) \<Rightarrow> time \<Rightarrow> Envelope \<Rightarrow> unit outbox_tx" where
  "insert_event fault dbclock e = execT (fault e)
     (\<lambda>err. Wrap (driver_error err) ''outbox.Append'' KindUnavailable ''outbox.append_failed'')
     (\<lambda>rows. if e_EventID e \<in> row_id ` set rows then Inl (ServerError ''23505'' ''outbox_events_pkey'')
        else Inr ((), rows @ [\<lparr>ob_event = e, ob_partition_key = PartitionKey e, ob_created_at = dbclock,
                  ob_published_at = None, ob_attempts = 0, ob_last_error = ''''\<rparr>]))"

(*src internal/platform/outbox/outbox.go#Store.Append*)
primrec Outbox_Append :: "(Envelope \<Rightarrow> sql_error option) \<Rightarrow> time \<Rightarrow> Envelope list \<Rightarrow> unit outbox_tx" where
  "Outbox_Append fault dbclock [] = returnT ()"
| "Outbox_Append fault dbclock (e # es) = bindT (insert_event fault dbclock e) (\<lambda>_. Outbox_Append fault dbclock es)"

section \<open>The relay\<close>

(*src internal/platform/outbox/outbox.go#RelayConfig*)
record RelayConfig =
  rc_BatchSize :: int
  rc_Interval :: duration
  rc_MaxAttempts :: int

(*src internal/platform/outbox/outbox.go#NewRelay*)
definition NewRelay :: "RelayConfig \<Rightarrow> RelayConfig" where
  "NewRelay cfg =
     \<lparr>rc_BatchSize = (if rc_BatchSize cfg \<le> 0 then 200 else rc_BatchSize cfg),
      rc_Interval = (if rc_Interval cfg \<le> 0 then 500 * 1000 * Microsecond else rc_Interval cfg),
      rc_MaxAttempts = (if rc_MaxAttempts cfg \<le> 0 then 8 else rc_MaxAttempts cfg)\<rparr>"

(*src internal/platform/outbox/outbox.go#selectPendingSQL*)
definition pending :: "RelayConfig \<Rightarrow> (string \<Rightarrow> bool) \<Rightarrow> outbox_row list \<Rightarrow> outbox_row list" where
  "pending cfg locked rows = take (nat (rc_BatchSize cfg)) (sort_key ob_created_at
     (filter (\<lambda>r. ob_published_at r = None \<and> ob_attempts r < rc_MaxAttempts cfg \<and> \<not> locked (row_id r)) rows))"

text \<open>What a batch gets from outside: the context the relay runs in and its connection; whether the role
  bypasses row-level security; the rows other relays hold locked; the clocks; the errors of the select, of
  scanning a row, of the iteration and of the updates; the text the database gives back for a payload; and
  \<^verbatim>\<open>err.Error()\<close>.\<close>

record relay_env =
  ry_ctx :: db_ctx
  ry_conn :: db_conn
  ry_bypass :: bool
  ry_locked :: "string \<Rightarrow> bool"
  ry_clock :: "string \<Rightarrow> time"
  ry_db :: time
  ry_select :: "sql_error option"
  ry_scan :: "outbox_row \<Rightarrow> go_error option"
  ry_rows :: "sql_error option"
  ry_update :: "string \<Rightarrow> sql_error option"
  ry_jsonb :: "string \<Rightarrow> string"
  ry_msg :: "go_error \<Rightarrow> string"

text \<open>The envelope as the relay reads it back.\<close>

(*src internal/platform/outbox/outbox.go:258-286#Relay.PublishBatch*)
definition read_envelope :: "relay_env \<Rightarrow> outbox_row \<Rightarrow> Envelope" where
  "read_envelope y r = (ob_event r)\<lparr>e_RecordedAt := Now (ry_clock y (row_id r)), e_Payload := ry_jsonb y (e_Payload (ob_event r))\<rparr>"

text \<open>The first row that cannot be scanned.\<close>

(*src internal/platform/outbox/outbox.go:258-286#Relay.PublishBatch*)
fun scan_error :: "relay_env \<Rightarrow> outbox_row list \<Rightarrow> go_error option" where
  "scan_error y [] = None"
| "scan_error y (r # rows) = (case ry_scan y r of
       Some err \<Rightarrow> Some (WrappedError ''outbox: scanning event'' err) | None \<Rightarrow> scan_error y rows)"

(*src internal/platform/outbox/outbox.go#truncate*)
definition truncate_text :: "string \<Rightarrow> nat \<Rightarrow> string" where
  "truncate_text s n = (if length s \<le> n then s else take n s)"

text \<open>\<^verbatim>\<open>UPDATE outbox_events SET ... WHERE id = $1\<close> in a session.\<close>

definition update_event ::
  "relay_env \<Rightarrow> string list \<Rightarrow> string \<Rightarrow> (outbox_row \<Rightarrow> outbox_row) \<Rightarrow> outbox_row list \<Rightarrow> sql_error + nat \<times> outbox_row list" where
  "update_event y session eid f = update_where (\<lambda>r. row_id r = eid \<and> outbox_using (ry_bypass y) session r) f
     (\<lambda>_ r. outbox_check (ry_bypass y) session r) (\<lambda>_. None)"

text \<open>The updates that record a failed attempt; their errors are ignored.\<close>

(*src internal/platform/outbox/outbox.go:297-301#Relay.PublishBatch*)
primrec record_attempts :: "relay_env \<Rightarrow> string list \<Rightarrow> go_error \<Rightarrow> string list \<Rightarrow> unit outbox_tx" where
  "record_attempts y session err [] = returnT ()"
| "record_attempts y session err (eid # ids) = (\<lambda>rows.
     (case execT (ry_update y eid) driver_error (update_event y session eid
           (\<lambda>r. r\<lparr>ob_attempts := ob_attempts r + 1, ob_last_error := truncate_text (ry_msg y err) 500\<rparr>)) rows of
        Inl _ \<Rightarrow> record_attempts y session err ids rows
      | Inr (_, rows') \<Rightarrow> record_attempts y session err ids rows'))"

(*src internal/platform/outbox/outbox.go:305-310#Relay.PublishBatch*)
primrec mark_published :: "relay_env \<Rightarrow> string list \<Rightarrow> string list \<Rightarrow> unit outbox_tx" where
  "mark_published y session [] = returnT ()"
| "mark_published y session (eid # ids) =
     bindT (execT (ry_update y eid) (\<lambda>err. WrappedError ''outbox: marking published'' (driver_error err))
       (update_event y session eid (\<lambda>r. r\<lparr>ob_published_at := Some (ry_db y)\<rparr>))) (\<lambda>_.
     mark_published y session ids)"

text \<open>The body of the transaction; the result is the number of events handled.\<close>

(*src internal/platform/outbox/outbox.go:247-322#Relay.PublishBatch*)
definition publish_tx :: "RelayConfig \<Rightarrow> relay_env \<Rightarrow> (Envelope list \<Rightarrow> go_error option) \<Rightarrow> tx_handle \<Rightarrow> int outbox_tx" where
  "publish_tx cfg y pub h = (\<lambda>rows. case ry_select y of
     Some err \<Rightarrow> Inl (WrappedError ''outbox: selecting pending events'' (driver_error err))
   | None \<Rightarrow>
     (let batch = pending cfg (ry_locked y) (filter (outbox_using (ry_bypass y) (tx_session h)) rows) in
      case scan_error y batch of
        Some err \<Rightarrow> Inl err
      | None \<Rightarrow> (case ry_rows y of
          Some err \<Rightarrow> Inl (WrappedError ''outbox: iterating events'' (driver_error err))
        | None \<Rightarrow>
          (let envelopes = map (read_envelope y) batch; ids = map row_id batch in
           if envelopes = [] then Inr (0, rows)
           else case pub envelopes of
             Some err \<Rightarrow> bindT (record_attempts y (tx_session h) err ids) (\<lambda>_. failT (WrappedError ''outbox: publishing batch'' err)) rows
           | None \<Rightarrow> bindT (mark_published y (tx_session h) ids) (\<lambda>_. returnT (int (length envelopes))) rows))))"

(*src internal/platform/outbox/outbox.go#Relay.PublishBatch*)
definition PublishBatch ::
  "RelayConfig \<Rightarrow> relay_env \<Rightarrow> (Envelope list \<Rightarrow> go_error option) \<Rightarrow> outbox_row list \<Rightarrow> int result \<times> outbox_row list" where
  "PublishBatch cfg y pub rows = TxWith (ry_conn y) default_options (WithRelaySession (ry_ctx y)) (publish_tx cfg y pub) rows"

text \<open>The count for alerting goes through the pool, in no session.\<close>

(*src internal/platform/outbox/outbox.go#Relay.PendingCount*)
definition PendingCount :: "bool \<Rightarrow> sql_error option \<Rightarrow> outbox_row list \<Rightarrow> sql_error + nat" where
  "PendingCount bypass fault rows = (case fault of Some err \<Rightarrow> Inl err
     | None \<Rightarrow> Inr (length (filter (\<lambda>r. ob_published_at r = None) (filter (outbox_using bypass []) rows))))"

text \<open>\<^verbatim>\<open>Run\<close>: one batch per tick, here for a given number of ticks with an environment and a publisher
  for each; a failed batch is logged and the loop goes on.\<close>

(*src internal/platform/outbox/outbox.go#Relay.Run*)
fun Relay_Run ::
  "RelayConfig \<Rightarrow> (relay_env \<times> (Envelope list \<Rightarrow> go_error option)) list \<Rightarrow> outbox_row list \<Rightarrow> outbox_row list" where
  "Relay_Run cfg [] rows = rows"
| "Relay_Run cfg ((y, pub) # ticks) rows = Relay_Run cfg ticks (snd (PublishBatch cfg y pub rows))"

section \<open>Payload integrity\<close>

lemma Canonicalize_idem:
  assumes "wf_struct v" "Canonicalize v = Inr c"
  shows "CanonicalizeJSON c = Inr c"
proof -
  obtain w where w: "canon (sanitize v) = Inr w" "c = render w" "depth v \<le> maxNestingDepth"
    using assms(2) by (auto simp: Canonicalize_Inr)
  have "canonical w" "depth w \<le> maxNestingDepth"
    using canon_canonical [OF wf_sanitize [OF assms(1)] w(1)] w(3) by auto
  then show ?thesis
    using Decode_render canon_id w(2) by (auto simp: CanonicalizeJSON_Inr)
qed

text \<open>A consumer can check every event independently of the broker: the payload of a new envelope,
  and any JSON text with the same canonical form, passes \<^verbatim>\<open>hash.VerifyJSON\<close> against the payload
  hash the envelope carries.\<close>

theorem NewEnvelope_verifiable:
  assumes "NewEnvelope newID clock ty t p agg actor corr payload = Inr e" "wf_struct payload"
  shows "VerifyJSON (e_Payload e) (e_PayloadHash e) = Inr True \<and>
    (\<forall>text. CanonicalizeJSON text = Inr (e_Payload e) \<longrightarrow> VerifyJSON text (e_PayloadHash e) = Inr True)"
proof -
  obtain c where c: "Canonicalize payload = Inr c" "e_Payload e = c" "e_PayloadHash e = ContentOfBytes c"
    using assms(1) by (auto simp: NewEnvelope_def ContentOfBytes_def Sum_def split: sum.splits)
  have "CanonicalizeJSON c = Inr c" by (rule Canonicalize_idem [OF assms(2) c(1)])
  then show ?thesis by (simp add: c VerifyJSON_def ContentOfJSON_def Equal_def)
qed

section \<open>What the relay does to the table\<close>

text \<open>In the relay's session the policy shows every row.\<close>

lemma set_local_not_relay:
  "set_local ''app.relay'' (''SET LOCAL statement_timeout = '' @ x) = None"
  "set_local ''app.relay'' (''SET LOCAL idle_in_transaction_session_timeout = '' @ x) = None"
  "set_local ''app.relay'' (''SET LOCAL app.tenant_id = '' @ x) = None"
  "set_local ''app.relay'' (''SET LOCAL app.principal_id = '' @ x) = None"
  "set_local ''app.relay'' (''SET LOCAL app.break_glass = '' @ x) = None"
  by (rule set_local_other, simp add: HasPrefix_simps)+

lemma session_var_snoc: "session_var name (ss @ [s]) = (case set_local name s of Some v \<Rightarrow> Some v | None \<Rightarrow> session_var name ss)"
  by (simp add: session_var_def split: option.split)

lemma relay_session_on: "session_var ''app.relay'' (applySession d tc True) = Some ''on''"
proof -
  obtain ss where "applySession d tc True = ss @ [''SET LOCAL app.relay = '' @ quoteLiteral ''on'']"
    by (simp add: applySession_def Let_def)
  moreover have "set_local ''app.relay'' (''SET LOCAL app.relay = '' @ quoteLiteral ''on'') = Some ''on''"
    using set_local_quoted [of "''app.relay''" "''on''"] by simp
  ultimately show ?thesis by (simp add: session_var_snoc)
qed

lemma relay_sees [simp]: "outbox_using bypass (applySession d tc True) r"
  by (simp add: outbox_using_def relay_session_on)

definition mark :: "string list \<Rightarrow> time \<Rightarrow> outbox_row list \<Rightarrow> outbox_row list" where
  "mark ids t rows = map (\<lambda>r. if row_id r \<in> set ids then r\<lparr>ob_published_at := Some t\<rparr> else r) rows"

text \<open>Marking succeeds when no update fails and the policy accepts every row that is written.\<close>

lemma mark_published_Inr:
  "mark_published y (applySession d tc True) ids rows = Inr (u, rows') \<longleftrightarrow> rows' = mark ids (ry_db y) rows \<and>
     (\<forall>i \<in> set ids. ry_update y i = None) \<and>
     (\<forall>r \<in> set rows. row_id r \<in> set ids \<longrightarrow> outbox_check (ry_bypass y) (applySession d tc True) r = None)"
proof (induction ids arbitrary: rows)
  case Nil
  then show ?case by (auto simp: mark_def monad_inv)
next
  case (Cons i ids)
  let ?f = "\<lambda>r. if row_id r = i then r\<lparr>ob_published_at := Some (ry_db y)\<rparr> else r"
  have c: "outbox_check b ss (r\<lparr>ob_published_at := t\<rparr>) = outbox_check b ss r" for b ss r t by (simp add: outbox_check_def)
  have m: "mark ids (ry_db y) (map ?f rows) = mark (i # ids) (ry_db y) rows" by (auto simp: mark_def)
  have q: "(\<forall>r \<in> set (map ?f rows). row_id r \<in> set ids \<longrightarrow> outbox_check (ry_bypass y) (applySession d tc True) r = None) \<longleftrightarrow>
      (\<forall>r \<in> set rows. row_id r \<in> set ids \<longrightarrow> outbox_check (ry_bypass y) (applySession d tc True) r = None)"
    unfolding set_map ball_simps by (rule ball_cong) (simp_all add: c)
  have "mark_published y (applySession d tc True) (i # ids) rows = Inr (u, rows') \<longleftrightarrow> ry_update y i = None \<and>
      (\<forall>r \<in> set rows. row_id r = i \<longrightarrow> outbox_check (ry_bypass y) (applySession d tc True) r = None) \<and>
      mark_published y (applySession d tc True) ids (map ?f rows) = Inr (u, rows')"
    by (auto simp: monad_inv update_event_def update_where_Inr c)
  then show ?case unfolding Cons.IH m q by auto
qed

lemma record_attempts_total: "\<exists>rows'. record_attempts y session err ids rows = Inr ((), rows')"
  by (induction ids arbitrary: rows) (auto simp: returnT_def split: sum.split)

text \<open>The batch of the relay's session.\<close>

definition batch_of :: "RelayConfig \<Rightarrow> relay_env \<Rightarrow> outbox_row list \<Rightarrow> outbox_row list" where
  "batch_of cfg y rows = pending cfg (ry_locked y) rows"

definition relay_session :: "relay_env \<Rightarrow> string list" where
  "relay_session y = applySession (dc_timeout (ry_conn y)) (session_tenant (WithRelaySession (ry_ctx y))) True"

lemma relay_session_sees [simp]: "outbox_using bypass (relay_session y) r"
  by (simp add: relay_session_def)

lemma PublishBatch_cases:
  assumes "PublishBatch cfg y pub rows = (r, rows')"
  obtains (idle) "batch_of cfg y rows = []" "r = Inr 0" "rows' = rows"
  | (failed) err where "r = Inl err" "rows' = rows"
  | (sent) "pub (map (read_envelope y) (batch_of cfg y rows)) = None" "batch_of cfg y rows \<noteq> []"
      "r = Inr (int (length (batch_of cfg y rows)))" "rows' = mark (map row_id (batch_of cfg y rows)) (ry_db y) rows"
      "\<forall>x \<in> set rows. row_id x \<in> row_id ` set (batch_of cfg y rows) \<longrightarrow> outbox_check (ry_bypass y) (relay_session y) x = None"
proof (cases r)
  case (Inl err)
  have "rows' = rows" by (rule TxWith_Inl [OF assms [unfolded Inl PublishBatch_def]])
  with Inl show thesis by (rule failed)
next
  case (Inr n)
  let ?h = "\<lparr>tx_Tenant = session_tenant (WithRelaySession (ry_ctx y)), tx_session = relay_session y, tx_Options = default_options\<rparr>"
  have p: "publish_tx cfg y pub ?h rows = Inr (n, rows')"
    using assms Inr by (simp add: PublishBatch_def TxWith_Inr relay_session_def isRelaySession_def WithRelaySession_def)
  have b: "pending cfg (ry_locked y) rows = batch_of cfg y rows" by (simp add: batch_of_def)
  have f: "bindT (record_attempts y ss err ids) (\<lambda>_. failT e) rows \<noteq> Inr z" for ss err ids e z by (auto simp: monad_inv)
  show thesis
  proof (cases "batch_of cfg y rows = []")
    case True
    then show thesis using p Inr by (intro idle) (auto simp: publish_tx_def b Let_def split: option.splits)
  next
    case False
    then have "pub (map (read_envelope y) (batch_of cfg y rows)) = None"
        "bindT (mark_published y (relay_session y) (map row_id (batch_of cfg y rows)))
          (\<lambda>_. returnT (int (length (batch_of cfg y rows)))) rows = Inr (n, rows')"
      using p by (auto simp: publish_tx_def b Let_def f split: option.splits)
    then show thesis using False Inr
      by (intro sent) (auto simp: monad_inv relay_session_def mark_published_Inr)
  qed
qed

definition is_published :: "outbox_row \<Rightarrow> bool" where "is_published r \<longleftrightarrow> ob_published_at r \<noteq> None"

text \<open>What a batch may do to a row: mark it published.\<close>

definition row_kept :: "outbox_row \<Rightarrow> outbox_row \<Rightarrow> bool" where
  "row_kept r r' \<longleftrightarrow> ob_event r' = ob_event r \<and> ob_attempts r' = ob_attempts r \<and> ob_last_error r' = ob_last_error r \<and>
     (is_published r \<longrightarrow> is_published r')"

lemma row_kept_all:
  "list_all2 row_kept rows rows" "list_all2 row_kept rows (mark ids t rows)"
  by (auto simp: list_all2_conv_all_nth row_kept_def mark_def is_published_def)

lemma PublishBatch_keeps: "list_all2 row_kept rows (snd (PublishBatch cfg y pub rows))"
proof -
  obtain r rows' where b: "PublishBatch cfg y pub rows = (r, rows')" by fastforce
  from b show ?thesis by (cases rule: PublishBatch_cases) (simp_all add: b row_kept_all)
qed

lemma Relay_Run_keeps: "list_all2 row_kept rows (Relay_Run cfg ticks rows)"
proof (induction cfg ticks rows rule: Relay_Run.induct)
  case (2 cfg y pub ticks rows)
  have "list_all2 row_kept rows (Relay_Run cfg ticks (snd (PublishBatch cfg y pub rows)))"
    by (rule list_all2_trans [OF _ PublishBatch_keeps 2]) (auto simp: row_kept_def)
  then show ?case by simp
qed (simp add: row_kept_all)

text \<open>A tick gets nowhere when the publisher refuses, or when row-level security applies to the relay's
  role: its session has no tenant, so the policy refuses the update that marks an event.\<close>

definition stuck :: "relay_env \<times> (Envelope list \<Rightarrow> go_error option) \<Rightarrow> bool" where
  "stuck = (\<lambda>(y, pub). (\<forall>b. b \<noteq> [] \<longrightarrow> pub b \<noteq> None) \<or> \<not> ry_bypass y \<and> cx_tenant (ry_ctx y) = None)"

lemma stuck_batch:
  assumes "stuck (y, pub)"
  shows "snd (PublishBatch cfg y pub rows) = rows"
proof -
  obtain r rows' where b: "PublishBatch cfg y pub rows = (r, rows')" by fastforce
  from b show ?thesis
  proof (cases rule: PublishBatch_cases)
    case sent
    then have "map (read_envelope y) (batch_of cfg y rows) \<noteq> [] \<and> pub (map (read_envelope y) (batch_of cfg y rows)) = None" by simp
    then have refused: "\<not> ry_bypass y" "cx_tenant (ry_ctx y) = None" using assms unfolding stuck_def by blast+
    then have "current_tenant (relay_session y) = None"
      by (simp add: relay_session_def current_tenant_session session_tenant_def MustTenant_def TenantFrom_def WithRelaySession_def no_tenant_def)
    moreover obtain x where "x \<in> set (batch_of cfg y rows)" using sent(2) by (meson list.set_sel(1))
    moreover from this have "x \<in> set rows" by (auto simp: batch_of_def pending_def dest: in_set_takeD)
    ultimately have False using sent(5) refused(1) by (auto simp: outbox_check_def)
    then show ?thesis ..
  qed (simp_all add: b)
qed

lemma stuck_run: "\<forall>tick \<in> set ticks. stuck tick \<Longrightarrow> Relay_Run cfg ticks rows = rows"
  by (induction cfg ticks rows rule: Relay_Run.induct) (simp_all add: stuck_batch)

lemma batch_published:
  assumes "PublishBatch cfg y pub rows = (r, rows')" "distinct (map row_id rows)"
    and "i < length rows" "\<not> is_published (rows ! i)" "is_published (rows' ! i)"
  shows "\<exists>batch. read_envelope y (rows ! i) \<in> set batch \<and> pub batch = None \<and> \<not> isl r"
  using assms(1)
proof (cases rule: PublishBatch_cases)
  case sent
  let ?b = "batch_of cfg y rows"
  have "row_id (rows ! i) \<in> row_id ` set ?b" using assms(3-5) by (auto simp: is_published_def sent(4) mark_def split: if_splits)
  moreover have "set ?b \<subseteq> set rows" by (auto simp: batch_of_def pending_def dest: in_set_takeD)
  ultimately have "rows ! i \<in> set ?b" using assms(2,3) by (auto simp: distinct_map dest: inj_onD)
  then show ?thesis using sent(1,3) by (intro exI [of _ "map (read_envelope y) ?b"]) auto
qed (use assms(4,5) in \<open>simp_all add: is_published_def\<close>)

lemma row_kept_ids: "list_all2 row_kept rows rows' \<Longrightarrow> map row_id rows' = map row_id rows"
  by (auto simp: list_all2_conv_all_nth row_kept_def intro!: nth_equalityI)

lemma run_published:
  assumes "distinct (map row_id rows)" "i < length rows" "\<not> is_published (rows ! i)"
    and "is_published (Relay_Run cfg ticks rows ! i)"
  shows "\<exists>(y, pub) \<in> set ticks. \<exists>batch. read_envelope y (rows ! i) \<in> set batch \<and> pub batch = None"
  using assms
proof (induction cfg ticks rows rule: Relay_Run.induct)
  case (2 cfg y pub ticks rows)
  let ?rows' = "snd (PublishBatch cfg y pub rows)"
  have k: "list_all2 row_kept rows ?rows'" by (rule PublishBatch_keeps)
  show ?case
  proof (cases "is_published (?rows' ! i)")
    case True
    then obtain batch where "read_envelope y (rows ! i) \<in> set batch" "pub batch = None"
      using batch_published [OF surjective_pairing "2.prems"(1-3), of cfg y pub] by blast
    then show ?thesis by auto
  next
    case False
    have e: "length ?rows' = length rows" "ob_event (?rows' ! i) = ob_event (rows ! i)"
      using k "2.prems"(2) by (auto simp: list_all2_conv_all_nth row_kept_def)
    have "\<exists>(y, pub) \<in> set ticks. \<exists>batch. read_envelope y (?rows' ! i) \<in> set batch \<and> pub batch = None"
      using "2.prems" False by (intro "2.IH") (simp_all add: row_kept_ids [OF k] e)
    then show ?thesis by (auto simp: read_envelope_def e)
  qed
qed simp

text \<open>C35: No event is lost or changed by the relay: over any run, with any failures of the connection, the
  statements and the publisher, the table keeps every event, a published event stays published, and an
  event becomes published only when a publisher of the run accepted a batch with its envelope in it. The
  attempt counter never moves: the update that records a failed attempt is in the transaction the
  failure rolls back, so \<^verbatim>\<open>MaxAttempts\<close> is never reached. And a run gets nowhere in which at every tick the
  publisher refuses or row-level security applies to the relay's role (whose session has no tenant,
  while the policy accepts only rows of the session's tenant): the table stays as it is, so the batch of the
  next tick is the batch of the first, again.\<close>

theorem Relay_Run_keeps_events:
  "map ob_event (Relay_Run cfg ticks rows) = map ob_event rows \<and>
   map ob_attempts (Relay_Run cfg ticks rows) = map ob_attempts rows \<and>
   list_all2 (\<lambda>r r'. is_published r \<le> is_published r') rows (Relay_Run cfg ticks rows) \<and>
   (distinct (map row_id rows) \<longrightarrow> (\<forall>i < length rows. \<not> is_published (rows ! i) \<longrightarrow> is_published (Relay_Run cfg ticks rows ! i) \<longrightarrow>
      (\<exists>(y, pub) \<in> set ticks. \<exists>batch. read_envelope y (rows ! i) \<in> set batch \<and> pub batch = None))) \<and>
   ((\<forall>(y, pub) \<in> set ticks. (\<forall>b. b \<noteq> [] \<longrightarrow> pub b \<noteq> None) \<or> \<not> ry_bypass y \<and> cx_tenant (ry_ctx y) = None) \<longrightarrow>
      Relay_Run cfg ticks rows = rows \<and>
      (\<forall>tick. batch_of cfg tick (Relay_Run cfg ticks rows) = batch_of cfg tick rows))"
proof -
  have k: "list_all2 row_kept rows (Relay_Run cfg ticks rows)" by (rule Relay_Run_keeps)
  then have "map ob_event (Relay_Run cfg ticks rows) = map ob_event rows" "map ob_attempts (Relay_Run cfg ticks rows) = map ob_attempts rows"
    by (auto simp: list_all2_conv_all_nth row_kept_def intro!: nth_equalityI)
  moreover have "list_all2 (\<lambda>r r'. is_published r \<le> is_published r') rows (Relay_Run cfg ticks rows)"
    by (rule list_all2_mono [OF k]) (simp add: row_kept_def)
  moreover have "Relay_Run cfg ticks rows = rows" if "\<forall>tick \<in> set ticks. stuck tick" using stuck_run that by blast
  ultimately show ?thesis using run_published unfolding stuck_def by (intro conjI impI allI) auto
qed

text \<open>An event is marked published only when the publisher accepted a batch with it: an
  unpublished row that is published after a batch had its envelope, stamped with the relay's
  clock, in a batch for which \<^verbatim>\<open>Publish\<close> returned no error.\<close>

theorem published_only_if_accepted:
  assumes "PublishBatch cfg y pub rows = (r, rows')" "distinct (map row_id rows)"
    and "i < length rows" "ob_published_at (rows ! i) = None" "ob_published_at (rows' ! i) \<noteq> None"
  shows "\<exists>batch. read_envelope y (rows ! i) \<in> set batch \<and> pub batch = None \<and> \<not> isl r"
  using assms(4,5) by (intro batch_published [OF assms(1-3)]) (simp_all add: is_published_def)

text \<open>The count for alerting is blind under the policy: it sees no event, however many wait.\<close>

lemma PendingCount_blind: "PendingCount False None rows = Inr 0"
proof -
  have "\<not> outbox_using False [] r" for r by (simp add: outbox_using_def current_tenant_def session_var_def)
  then show ?thesis by (simp add: PendingCount_def filter_False)
qed

section \<open>Draining\<close>

definition eligible :: "RelayConfig \<Rightarrow> outbox_row \<Rightarrow> bool" where
  "eligible cfg r \<longleftrightarrow> ob_published_at r = None \<and> ob_attempts r < rc_MaxAttempts cfg"

lemma set_pending: "r \<in> set (pending cfg locked rows) \<Longrightarrow> r \<in> set rows \<and> eligible cfg r \<and> \<not> locked (row_id r)"
  by (auto simp: pending_def eligible_def dest: in_set_takeD)

lemma count_update:
  assumes "distinct (map row_id rows)" "distinct b" "set b \<subseteq> set (filter (eligible cfg) rows)"
  shows "length (filter (eligible cfg) (mark (map row_id b) t rows)) =
    length (filter (eligible cfg) rows) - length b"
proof -
  let ?f = "\<lambda>r. if row_id r \<in> set (map row_id b) then r\<lparr>ob_published_at := Some t\<rparr> else r"
  have mem: "row_id r \<in> set (map row_id b) \<longleftrightarrow> r \<in> set b" if "r \<in> set rows" for r
    using that assms(1,3) by (auto simp: distinct_map dest: inj_onD)
  have "length (filter (eligible cfg) (map ?f rows)) = length (filter (\<lambda>r. eligible cfg (?f r)) rows)"
    by (simp add: filter_map comp_def)
  also have "filter (\<lambda>r. eligible cfg (?f r)) rows = filter (\<lambda>r. r \<notin> set b) (filter (eligible cfg) rows)"
    using mem by (auto simp: eligible_def intro!: filter_cong)
  also have "length \<dots> = length (filter (eligible cfg) rows) - length (filter (\<lambda>r. r \<in> set b) (filter (eligible cfg) rows))"
    using sum_length_filter_compl [of "\<lambda>r. r \<in> set b" "filter (eligible cfg) rows"] by simp
  also have "length (filter (\<lambda>r. r \<in> set b) (filter (eligible cfg) rows)) = length b"
  proof -
    have "distinct rows" using assms(1) by (simp add: distinct_map)
    then have "distinct (filter (\<lambda>r. r \<in> set b) (filter (eligible cfg) rows))" by simp
    moreover have "set (filter (\<lambda>r. r \<in> set b) (filter (eligible cfg) rows)) = set b" using assms(3) by auto
    ultimately show ?thesis using assms(2) by (metis distinct_card)
  qed
  finally show ?thesis by (simp add: mark_def)
qed

lemma pending_length:
  "length (pending cfg (\<lambda>_. False) rows) = min (nat (rc_BatchSize cfg)) (length (filter (eligible cfg) rows))"
proof -
  have "(\<lambda>r. ob_published_at r = None \<and> ob_attempts r < rc_MaxAttempts cfg \<and> \<not> False) = eligible cfg"
    by (auto simp: fun_eq_iff eligible_def)
  then show ?thesis by (simp add: pending_def min.commute)
qed

lemma distinct_pending: "distinct (map row_id rows) \<Longrightarrow> distinct (pending cfg locked rows)"
  by (simp add: pending_def distinct_map)

text \<open>A tick on which nothing fails, for a role that bypasses the policy and with no other relay.\<close>

definition smooth :: "relay_env \<Rightarrow> bool" where
  "smooth y \<longleftrightarrow> connected (ry_conn y) (WithRelaySession (ry_ctx y)) \<and> ry_bypass y \<and> ry_locked y = (\<lambda>_. False) \<and> ry_select y = None \<and>
     ry_scan y = (\<lambda>_. None) \<and> ry_rows y = None \<and> ry_update y = (\<lambda>_. None)"

lemma scan_error_None: "ry_scan y = (\<lambda>_. None) \<Longrightarrow> scan_error y rows = None"
  by (induction rows) simp_all

lemma smooth_batch:
  assumes "smooth y" "pub (map (read_envelope y) (batch_of cfg y rows)) = None"
  shows "PublishBatch cfg y pub rows = (Inr (int (length (batch_of cfg y rows))), mark (map row_id (batch_of cfg y rows)) (ry_db y) rows)"
proof -
  let ?h = "\<lparr>tx_Tenant = session_tenant (WithRelaySession (ry_ctx y)), tx_session = relay_session y, tx_Options = default_options\<rparr>"
  let ?rows' = "mark (map row_id (batch_of cfg y rows)) (ry_db y) rows"
  have m: "mark_published y (relay_session y) (map row_id (batch_of cfg y rows)) rows = Inr ((), ?rows')"
    using assms(1) by (simp add: relay_session_def mark_published_Inr smooth_def outbox_check_def)
  have e: "batch_of cfg y rows = [] \<Longrightarrow> mark (map row_id (batch_of cfg y rows)) (ry_db y) rows = rows" by (simp add: mark_def)
  have l: "ry_locked y = (\<lambda>_. False)" using assms(1) by (simp add: smooth_def)
  have b: "pending cfg (\<lambda>_. False) rows = batch_of cfg y rows" by (simp add: batch_of_def l)
  have "publish_tx cfg y pub ?h rows = Inr (int (length (batch_of cfg y rows)), ?rows')"
  proof (cases "batch_of cfg y rows = []")
    case True
    then show ?thesis using assms(1) e [OF True] by (simp add: publish_tx_def b Let_def smooth_def scan_error_None)
  next
    case False
    then show ?thesis using assms m
      by (simp add: publish_tx_def b Let_def smooth_def scan_error_None bindT_def returnT_def)
  qed
  then show ?thesis using assms(1)
    by (simp add: PublishBatch_def TxWith_Inr smooth_def relay_session_def isRelaySession_def WithRelaySession_def)
qed

lemma batch_drains:
  assumes "distinct (map row_id rows)" "smooth y" "PublishBatch cfg y (\<lambda>_. None) rows = (r, rows')"
  shows "length (filter (eligible cfg) rows') = length (filter (eligible cfg) rows) - nat (rc_BatchSize cfg) \<and>
    distinct (map row_id rows')"
proof -
  let ?b = "batch_of cfg y rows"
  have rows': "rows' = mark (map row_id ?b) (ry_db y) rows" using smooth_batch [OF assms(2), of "\<lambda>_. None"] assms(3) by simp
  have l: "ry_locked y = (\<lambda>_. False)" using assms(2) by (simp add: smooth_def)
  have "map row_id rows' = map row_id rows" by (simp add: rows' mark_def)
  moreover have "length (filter (eligible cfg) rows') = length (filter (eligible cfg) rows) - length ?b"
    unfolding rows' using set_pending by (intro count_update assms(1)) (force simp: batch_of_def intro: distinct_pending assms(1))+
  ultimately show ?thesis using assms(1) pending_length [of cfg rows] by (auto simp: batch_of_def l min_def)
qed

text \<open>The relay drains, under a role that bypasses the policy: with a publisher that accepts, no faults and
  no other relay holding locks, every eligible event is published after as many ticks as it takes
  batches to cover them.\<close>

theorem Relay_Run_drains:
  assumes "distinct (map row_id rows)" "length (filter (eligible cfg) rows) \<le> length ticks * nat (rc_BatchSize cfg)"
    and "\<forall>tick \<in> set ticks. \<exists>y. smooth y \<and> tick = (y, \<lambda>_. None)"
  shows "filter (eligible cfg) (Relay_Run cfg ticks rows) = []"
  using assms
proof (induction ticks arbitrary: rows)
  case (Cons tick ticks)
  obtain y where t: "tick = (y, \<lambda>_. None)" "smooth y" using Cons.prems(3) by auto
  obtain r rows' where b: "PublishBatch cfg y (\<lambda>_. None) rows = (r, rows')" by fastforce
  from batch_drains [OF Cons.prems(1) t(2) b] Cons.prems(2,3) have "filter (eligible cfg) (Relay_Run cfg ticks rows') = []"
    by (intro Cons.IH) auto
  then show ?case by (simp add: t b)
qed simp

section \<open>Several relays\<close>

text \<open>The order of an aggregate's events is not kept between relay replicas: while one relay
  holds the older event of an aggregate locked, another publishes the newer one of the same
  partition, although the documentation of \<^verbatim>\<open>PartitionKey\<close> promises strict order.\<close>

theorem replicas_reorder:
  assumes "ob_published_at a = None" "ob_attempts a < rc_MaxAttempts cfg" "1 \<le> rc_BatchSize cfg"
    and "ob_published_at b = None" "ob_attempts b < rc_MaxAttempts cfg" "row_id a \<noteq> row_id b"
    and "smooth y"
  shows "PublishBatch cfg (y\<lparr>ry_locked := (\<lambda>i. i = row_id a)\<rparr>) (\<lambda>_. None) [a, b] =
    (Inr 1, [a, b\<lparr>ob_published_at := Some (ry_db y)\<rparr>])"
proof -
  let ?y = "y\<lparr>ry_locked := (\<lambda>i. i = row_id a)\<rparr>"
  let ?h = "\<lparr>tx_Tenant = session_tenant (WithRelaySession (ry_ctx y)), tx_session = relay_session ?y, tx_Options = default_options\<rparr>"
  have "batch_of cfg ?y [a, b] = take (nat (rc_BatchSize cfg)) [b]"
    using assms(4-6) by (simp add: batch_of_def pending_def)
  also have "\<dots> = [b]" using assms(3) by (cases "nat (rc_BatchSize cfg)") simp_all
  finally have b: "pending cfg (\<lambda>i. i = row_id a) [a, b] = [b]" by (simp add: batch_of_def)
  have m: "mark_published ?y (relay_session ?y) [row_id b] [a, b] = Inr ((), [a, b\<lparr>ob_published_at := Some (ry_db y)\<rparr>])"
    using assms(6,7) unfolding relay_session_def mark_published_Inr by (auto simp: smooth_def outbox_check_def mark_def)
  have "publish_tx cfg ?y (\<lambda>_. None) ?h [a, b] = Inr (1, [a, b\<lparr>ob_published_at := Some (ry_db y)\<rparr>])"
    using assms(7) m b by (simp add: publish_tx_def Let_def smooth_def scan_error_None bindT_def returnT_def)
  then show ?thesis using assms(7)
    by (simp add: PublishBatch_def TxWith_Inr smooth_def relay_session_def isRelaySession_def WithRelaySession_def)
qed

section \<open>Witnesses\<close>

definition sample_payload :: json where
  "sample_payload = struct [(''artifact_id'', str ''SPEC-001''), (''version'', Some (json_int 1))]"

definition sample_envelope :: "string \<Rightarrow> Envelope" where
  "sample_envelope i = \<lparr>e_EventID = i, e_EventType = ''artifact.created'', e_Schema = ''specforge.event.artifact.created'',
     e_SchemaVersion = 1, e_OccurredAt = 0, e_RecordedAt = 0, e_TenantID = ''t1'', e_ProjectID = None,
     e_Aggregate = \<lparr>ag_Type = ''Artifact'', ag_ID = ''SPEC-001'', ag_Version = 1\<rparr>,
     e_Actor = \<lparr>oa_Kind = ''USER'', oa_PrincipalID = ''u1'', oa_Display = '''', oa_OnBehalfOf = ''''\<rparr>,
     e_Correlation = \<lparr>co_TraceID = '''', co_SpanID = '''', co_RequestID = '''', co_CausationID = '''', co_IdempotencyKey = ''''\<rparr>,
     e_Payload = '''', e_PayloadHash = ''''\<rparr>"

definition sample_row :: "string \<Rightarrow> outbox_row" where
  "sample_row i = \<lparr>ob_event = sample_envelope i, ob_partition_key = ''t1:SPEC-001'', ob_created_at = 0,
     ob_published_at = None, ob_attempts = 0, ob_last_error = ''''\<rparr>"

definition sample_config :: RelayConfig where "sample_config = NewRelay \<lparr>rc_BatchSize = 0, rc_Interval = 0, rc_MaxAttempts = 0\<rparr>"

lemma sample_config_simps [simp]: "rc_BatchSize sample_config = 200" "rc_MaxAttempts sample_config = 8"
  by (simp_all add: sample_config_def NewRelay_def)

lemma sample_row_simps [simp]: "row_id (sample_row i) = i" "ob_published_at (sample_row i) = None" "ob_attempts (sample_row i) = 0"
  by (simp_all add: sample_row_def sample_envelope_def)

lemma sample_payload_wf: "wf_struct sample_payload"
  unfolding sample_payload_def by (rule struct_wf) (simp_all add: is_ascii_def)

lemma NewEnvelope_verifiable_witness:
  "\<exists>e. NewEnvelope ''e1'' 0 ''artifact.created'' ''t1'' None (e_Aggregate (sample_envelope ''e1'')) (e_Actor (sample_envelope ''e1''))
      (e_Correlation (sample_envelope ''e1'')) sample_payload = Inr e \<and>
    VerifyJSON (e_Payload e) (e_PayloadHash e) = Inr True"
proof -
  have "all_nums representable sample_payload" "depth sample_payload \<le> Suc 0"
    unfolding sample_payload_def struct_nums struct_depth by (simp_all add: representable_int str_def)
  then obtain c where "Canonicalize sample_payload = Inr c"
    using Canonicalize_total [of sample_payload] by (auto simp: maxNestingDepth_def)
  then obtain e where "NewEnvelope ''e1'' 0 ''artifact.created'' ''t1'' None (e_Aggregate (sample_envelope ''e1''))
      (e_Actor (sample_envelope ''e1'')) (e_Correlation (sample_envelope ''e1'')) sample_payload = Inr e"
    by (simp add: NewEnvelope_def)
  with NewEnvelope_verifiable [OF this sample_payload_wf] show ?thesis by blast
qed

definition sample_relay :: "bool \<Rightarrow> relay_env" where
  "sample_relay bypass = \<lparr>ry_ctx = \<lparr>cx_tenant = None, cx_relay = False\<rparr>, ry_conn = healthy 0, ry_bypass = bypass, ry_locked = (\<lambda>_. False),
     ry_clock = (\<lambda>_. 0), ry_db = 7, ry_select = None, ry_scan = (\<lambda>_. None), ry_rows = None, ry_update = (\<lambda>_. None),
     ry_jsonb = id, ry_msg = (\<lambda>_. '''')\<rparr>"

lemma sample_relay_smooth: "smooth (sample_relay True)"
  by (simp add: smooth_def sample_relay_def)

lemma Relay_Run_keeps_events_witness:
  "Relay_Run sample_config [(sample_relay False, \<lambda>_. None)] [sample_row ''e1'', sample_row ''e2''] = [sample_row ''e1'', sample_row ''e2'']"
  using Relay_Run_keeps_events [of sample_config "[(sample_relay False, \<lambda>_. None)]" "[sample_row ''e1'', sample_row ''e2'']"]
  by (simp add: sample_relay_def)

lemma replicas_reorder_witness:
  "PublishBatch sample_config ((sample_relay True)\<lparr>ry_locked := (\<lambda>i. i = ''e1'')\<rparr>) (\<lambda>_. None) [sample_row ''e1'', sample_row ''e2''] =
     (Inr 1, [sample_row ''e1'', (sample_row ''e2'')\<lparr>ob_published_at := Some 7\<rparr>])"
  using replicas_reorder [of "sample_row ''e1''" sample_config "sample_row ''e2''", OF _ _ _ _ _ _ sample_relay_smooth]
  by (simp add: sample_relay_def)

lemma published_only_if_accepted_witness:
  "\<exists>batch. read_envelope (sample_relay True) (sample_row ''e2'') \<in> set batch \<and> (\<lambda>_. None :: go_error option) batch = None"
proof -
  have "batch_of sample_config (sample_relay True) [sample_row ''e2''] = [sample_row ''e2'']"
    by (simp add: batch_of_def pending_def sample_relay_def)
  then have b: "PublishBatch sample_config (sample_relay True) (\<lambda>_. None) [sample_row ''e2''] =
      (Inr 1, [(sample_row ''e2'')\<lparr>ob_published_at := Some 7\<rparr>])"
    using smooth_batch [OF sample_relay_smooth, of "\<lambda>_. None" sample_config "[sample_row ''e2'']"] by (simp add: mark_def) (simp add: sample_relay_def)
  show ?thesis using published_only_if_accepted [OF b, of 0] by simp
qed

lemma Relay_Run_drains_witness:
  "filter (eligible sample_config) (Relay_Run sample_config [(sample_relay True, \<lambda>_. None)] [sample_row ''e1'', sample_row ''e2'']) = []"
  by (rule Relay_Run_drains) (simp_all add: eligible_def sample_relay_smooth)

end
