(* ===== verification/Tenancy.thy ===== *)
theory Tenancy
  imports Fsm F64 GoTime
begin

text \<open>
  The tenancy aggregates, \<^verbatim>\<open>internal/tenancy/domain\<close>: tenants with their settings, projects
  with their phase, and the two lifecycle tables.
\<close>

section \<open>Tenant lifecycle names\<close>

definition TenantProvisioning :: State where "TenantProvisioning = ''PROVISIONING''"
definition TenantActive :: State where "TenantActive = ''ACTIVE''"
definition TenantSuspended :: State where "TenantSuspended = ''SUSPENDED''"
definition TenantDeprovisioning :: State where "TenantDeprovisioning = ''DEPROVISIONING''"
definition TenantPurged :: State where "TenantPurged = ''PURGED''"
definition TenantFailed :: State where "TenantFailed = ''FAILED''"

definition EventProvisioned :: Event where "EventProvisioned = ''provisioned''"
definition EventProvisionFailed :: Event where "EventProvisionFailed = ''provision_failed''"
definition EventSuspend :: Event where "EventSuspend = ''suspend''"
definition EventReinstate :: Event where "EventReinstate = ''reinstate''"
definition EventRequestDeletion :: Event where "EventRequestDeletion = ''request_deletion''"
definition EventExecutePurge :: Event where "EventExecutePurge = ''execute_purge''"

lemmas tenant_constants [go_strings] = TenantProvisioning_def TenantActive_def TenantSuspended_def
  TenantDeprovisioning_def TenantPurged_def TenantFailed_def EventProvisioned_def
  EventProvisionFailed_def EventSuspend_def EventReinstate_def EventRequestDeletion_def EventExecutePurge_def

section \<open>Settings\<close>

(*src internal/tenancy/domain/tenant.go#Settings*)
record Settings =
  st_FourEyes :: bool
  st_ArchitectCanApprovePRD :: bool
  st_StepUpMaxAge :: duration
  st_EvidenceRetention :: duration
  st_LinkAutoAcceptMin :: "bool \<times> f64"
  st_MaxProposalsPerSweep :: int
  st_MaxExceptionDays :: int
  st_DataResidency :: string
  st_AllowedAIProviders :: "string list"
  st_GuardrailChain :: string
  st_MonthlyTokenBudget :: int
  st_PolicySet :: string

text \<open>The doubles nearest to 0.9 and 0.95.\<close>

definition f64_09 :: "bool \<times> f64" where "f64_09 = (False, 8106479329266893, 1021)"
definition f64_095 :: "bool \<times> f64" where "f64_095 = (False, 8556839292003942, 1021)"

(*src internal/tenancy/domain/tenant.go#DefaultSettings*)
definition DefaultSettings :: Settings where
  "DefaultSettings = \<lparr>st_FourEyes = True, st_ArchitectCanApprovePRD = False, st_StepUpMaxAge = 15 * Minute,
     st_EvidenceRetention = 7 * 365 * 24 * Hour, st_LinkAutoAcceptMin = f64_095, st_MaxProposalsPerSweep = 50,
     st_MaxExceptionDays = 90, st_DataResidency = '''', st_AllowedAIProviders = [''simulator''],
     st_GuardrailChain = ''GRC-strict@v2'', st_MonthlyTokenBudget = 0, st_PolicySet = ''builtin@v1''\<rparr>"

(*src internal/tenancy/domain/tenant.go#Settings.Validate*)
definition Settings_Validate :: "Settings \<Rightarrow> go_error option" where
  "Settings_Validate s =
     (let op = ''tenancy.Settings.Validate'' in
      if st_StepUpMaxAge s < Minute \<or> st_StepUpMaxAge s > 8 * Hour
      then Some (Invalid op ''tenant.step_up_max_age_invalid'')
      else if st_EvidenceRetention s < 7 * 365 * 24 * Hour
      then Some (Invalid op ''tenant.evidence_retention_too_short'')
      else if f64_units (st_LinkAutoAcceptMin s) < f64_units f64_09 \<or> f64_units (st_LinkAutoAcceptMin s) > f64_one
      then Some (Invalid op ''tenant.link_threshold_invalid'')
      else if st_MaxExceptionDays s < 1 \<or> st_MaxExceptionDays s > 365
      then Some (Invalid op ''tenant.max_exception_days_invalid'')
      else if st_MaxProposalsPerSweep s < 1 \<or> st_MaxProposalsPerSweep s > 1000
      then Some (Invalid op ''tenant.max_proposals_invalid'')
      else None)"

section \<open>Tenants\<close>

(*src internal/tenancy/domain/tenant.go#Tenant*)
record Tenant =
  t_ID :: TenantID
  t_Slug :: string
  t_Name :: string
  t_Status :: State
  t_StatusReason :: string
  t_IsolationMode :: IsolationMode
  t_Region :: string
  t_Settings :: Settings
  t_CreatedBy :: PrincipalID
  t_CreatedAt :: time
  t_UpdatedAt :: time
  t_Version :: int

(*src internal/tenancy/domain/tenant.go#NewTenant*)
definition NewTenant ::
  "time \<Rightarrow> TenantID \<Rightarrow> string \<Rightarrow> string \<Rightarrow> IsolationMode \<Rightarrow> string \<Rightarrow> PrincipalID \<Rightarrow> Tenant result" where
  "NewTenant clock tid slug0 name0 mode region by' =
     (let op = ''tenancy.NewTenant''; slug = ToLower (TrimSpace slug0); name = TrimSpace name0; now = Now clock in
      checkR (ValidateSlug slug \<noteq> None) (Invalid op ''tenant.slug_invalid'') (
      checkR (name = '''' \<or> length name > 200) (Invalid op ''tenant.name_invalid'') (
      checkR (\<not> IsolationMode_Valid mode) (Invalid op ''tenant.isolation_mode_invalid'') (
      Inr \<lparr>t_ID = tid, t_Slug = slug, t_Name = name, t_Status = TenantProvisioning, t_StatusReason = '''',
           t_IsolationMode = mode, t_Region = region, t_Settings = DefaultSettings, t_CreatedBy = by',
           t_CreatedAt = now, t_UpdatedAt = now, t_Version = 1\<rparr>))))"

(*src internal/tenancy/domain/tenant.go#Tenant.Rename*)
definition Tenant_Rename :: "time \<Rightarrow> Tenant \<Rightarrow> string \<Rightarrow> go_error option \<times> Tenant" where
  "Tenant_Rename clock t name0 = (let name = TrimSpace name0 in
     if name = '''' \<or> length name > 200 then (Some (Invalid ''tenancy.Rename'' ''tenant.name_invalid''), t)
     else (None, t\<lparr>t_Name := name, t_UpdatedAt := Now clock\<rparr>))"

(*src internal/tenancy/domain/tenant.go#Tenant.UpdateSettings*)
definition Tenant_UpdateSettings :: "time \<Rightarrow> Tenant \<Rightarrow> Settings \<Rightarrow> go_error option \<times> Tenant" where
  "Tenant_UpdateSettings clock t s = (case Settings_Validate s of
       Some err \<Rightarrow> (Some err, t)
     | None \<Rightarrow> (None, t\<lparr>t_Settings := s, t_UpdatedAt := Now clock\<rparr>))"

(*src internal/tenancy/domain/tenant.go#Tenant.AcceptsWrites*)
definition Tenant_AcceptsWrites :: "Tenant \<Rightarrow> bool" where "Tenant_AcceptsWrites t \<longleftrightarrow> t_Status t = TenantActive"

(*src internal/tenancy/domain/tenant.go#requireReason*)
definition requireReason :: "Tenant Guard" where
  "requireReason t = (if TrimSpace (t_StatusReason t) = ''''
     then Some (Invalid ''tenancy.requireReason'' ''tenant.reason_required'') else None)"

(*src internal/tenancy/domain/tenant.go:174-219#TenantMachine*)
definition tenant_def :: "Tenant Definition" where
  "tenant_def = \<lparr>
     def_Name = ''tenant'',
     def_Initial = TenantProvisioning,
     def_States = [TenantProvisioning, TenantActive, TenantSuspended, TenantDeprovisioning, TenantPurged, TenantFailed],
     def_Terminal = [TenantPurged, TenantFailed],
     def_Transitions = [
       plain_transition [TenantProvisioning] EventProvisioned TenantActive ''''
         [] ''tenant.provisioned'' ''tenant.provision'',
       plain_transition [TenantProvisioning] EventProvisionFailed TenantFailed ''''
         [] ''tenant.provision.failed'' ''tenant.provision_failed'',
       plain_transition [TenantActive] EventSuspend TenantSuspended ''tenant:suspend''
         [requireReason] ''tenant.suspended'' ''tenant.suspend'',
       plain_transition [TenantSuspended] EventReinstate TenantActive ''tenant:suspend''
         [] ''tenant.reinstated'' ''tenant.reinstate'',
       plain_transition [TenantActive, TenantSuspended] EventRequestDeletion TenantDeprovisioning ''tenant:purge''
         [requireReason] ''tenant.deprovisioning'' ''tenant.request_deletion'',
       plain_transition [TenantDeprovisioning] EventExecutePurge TenantPurged ''tenant:purge''
         [] ''tenant.purge.completed'' ''tenant.purge'']\<rparr>"

(*src internal/tenancy/domain/tenant.go:174-219#TenantMachine*)
definition tenant_machine :: "Tenant Machine" where "tenant_machine = machine_of tenant_def"

section \<open>Projects\<close>

definition ProjectActive :: State where "ProjectActive = ''ACTIVE''"
definition ProjectArchived :: State where "ProjectArchived = ''ARCHIVED''"
definition ProjectPurged :: State where "ProjectPurged = ''PURGED''"

definition EventArchive :: Event where "EventArchive = ''archive''"
definition EventRestore :: Event where "EventRestore = ''restore''"
definition EventPurge :: Event where "EventPurge = ''purge''"

lemmas project_constants [go_strings] = ProjectActive_def ProjectArchived_def ProjectPurged_def
  EventArchive_def EventRestore_def EventPurge_def

type_synonym PDLCPhase = string

(*src internal/tenancy/domain/project.go#AllPhases*)
definition AllPhases :: "PDLCPhase list" where
  "AllPhases = [''DISCOVER'', ''DEFINE'', ''SPECIFY'', ''MODEL'', ''ARCHITECT'', ''GENERATE'', ''VALIDATE'',
     ''GOVERN'', ''BUILD'', ''TEST'', ''SECURE'', ''DEPLOY'', ''OBSERVE'', ''REVIEW'', ''EVOLVE'', ''RETIRE'']"

(*src internal/tenancy/domain/project.go:50-58#PDLCPhase.Valid*)
definition PDLCPhase_Valid :: "PDLCPhase \<Rightarrow> bool" where "PDLCPhase_Valid p \<longleftrightarrow> p \<in> set AllPhases"

(*src internal/tenancy/domain/project.go#Project*)
record Project =
  pj_TenantID :: TenantID
  pj_ID :: ProjectID
  pj_Key :: string
  pj_Name :: string
  pj_Description :: string
  pj_Status :: State
  pj_Phase :: PDLCPhase
  pj_Settings :: "(string \<times> string) list"
  pj_GraphVersion :: int
  pj_CreatedBy :: PrincipalID
  pj_CreatedAt :: time
  pj_UpdatedAt :: time
  pj_Version :: int

(*src internal/tenancy/domain/project.go#NewProject*)
definition NewProject ::
  "time \<Rightarrow> TenantID \<Rightarrow> ProjectID \<Rightarrow> string \<Rightarrow> string \<Rightarrow> string \<Rightarrow> PrincipalID \<Rightarrow> Project result" where
  "NewProject clock tid pid key0 name0 description by' =
     (let op = ''tenancy.NewProject''; key = ToUpper (TrimSpace key0); name = TrimSpace name0; now = Now clock in
      checkR (ValidateProjectKey key \<noteq> None) (Invalid op ''project.key_invalid'') (
      checkR (name = '''' \<or> length name > 200) (Invalid op ''project.name_invalid'') (
      checkR (length description > 4000) (Invalid op ''project.description_too_long'') (
      Inr \<lparr>pj_TenantID = tid, pj_ID = pid, pj_Key = key, pj_Name = name, pj_Description = description,
           pj_Status = ProjectActive, pj_Phase = ''DISCOVER'', pj_Settings = [], pj_GraphVersion = 1, pj_CreatedBy = by',
           pj_CreatedAt = now, pj_UpdatedAt = now, pj_Version = 1\<rparr>))))"

(*src internal/tenancy/domain/project.go#Project.Rename*)
definition Project_Rename :: "time \<Rightarrow> Project \<Rightarrow> string \<Rightarrow> go_error option \<times> Project" where
  "Project_Rename clock p name0 = (let name = TrimSpace name0 in
     if name = '''' \<or> length name > 200 then (Some (Invalid ''tenancy.Project.Rename'' ''project.name_invalid''), p)
     else (None, p\<lparr>pj_Name := name, pj_UpdatedAt := Now clock\<rparr>))"

(*src internal/tenancy/domain/project.go#Project.AdvancePhase*)
definition AdvancePhase :: "time \<Rightarrow> Project \<Rightarrow> PDLCPhase \<Rightarrow> go_error option \<times> Project" where
  "AdvancePhase clock p phase =
     (if \<not> PDLCPhase_Valid phase then (Some (Invalid ''tenancy.Project.AdvancePhase'' ''project.phase_invalid''), p)
      else (None, p\<lparr>pj_Phase := phase, pj_UpdatedAt := Now clock\<rparr>))"

(*src internal/tenancy/domain/project.go#Project.AcceptsWrites*)
definition Project_AcceptsWrites :: "Project \<Rightarrow> bool" where "Project_AcceptsWrites p \<longleftrightarrow> pj_Status p = ProjectActive"

(*src internal/tenancy/domain/project.go#Project.ArtifactPrefix*)
definition ArtifactPrefix :: "Project \<Rightarrow> string" where "ArtifactPrefix p = pj_Key p"

(*src internal/tenancy/domain/project.go:147-171#ProjectMachine*)
definition project_def :: "Project Definition" where
  "project_def = \<lparr>
     def_Name = ''project'',
     def_Initial = ProjectActive,
     def_States = [ProjectActive, ProjectArchived, ProjectPurged],
     def_Terminal = [ProjectPurged],
     def_Transitions = [
       plain_transition [ProjectActive] EventArchive ProjectArchived ''project:archive''
         [] ''project.archived'' ''project.archive'',
       plain_transition [ProjectArchived] EventRestore ProjectActive ''project:archive''
         [] ''project.restored'' ''project.restore'',
       plain_transition [ProjectArchived] EventPurge ProjectPurged ''tenant:purge''
         [] ''project.purged'' ''project.purge'']\<rparr>"

(*src internal/tenancy/domain/project.go:147-171#ProjectMachine*)
definition project_machine :: "Project Machine" where "project_machine = machine_of project_def"

section \<open>The lifecycles are well formed\<close>

lemma tenant_wf: "wf_table tenant_def"
  by (simp add: wf_table_def tenant_def_def plain_transition_def tenant_constants)

interpretation tnt: lifecycle tenant_def tenant_machine
  by unfold_locales (simp add: Build_iff tenant_machine_def tenant_wf)

lemma project_wf: "wf_table project_def"
  by (simp add: wf_table_def project_def_def plain_transition_def project_constants)

interpretation prj: lifecycle project_def project_machine
  by unfold_locales (simp add: Build_iff project_machine_def project_wf)

text \<open>The moves of the tenant lifecycle with the permission and the guards of each.\<close>

definition tenant_moves :: "(State \<times> Event \<times> State \<times> string \<times> Tenant Guard list) set" where
  "tenant_moves =
    {(TenantProvisioning, EventProvisioned, TenantActive, '''', []),
     (TenantProvisioning, EventProvisionFailed, TenantFailed, '''', []),
     (TenantActive, EventSuspend, TenantSuspended, ''tenant:suspend'', [requireReason]),
     (TenantSuspended, EventReinstate, TenantActive, ''tenant:suspend'', []),
     (TenantActive, EventRequestDeletion, TenantDeprovisioning, ''tenant:purge'', [requireReason]),
     (TenantSuspended, EventRequestDeletion, TenantDeprovisioning, ''tenant:purge'', [requireReason]),
     (TenantDeprovisioning, EventExecutePurge, TenantPurged, ''tenant:purge'', [])}"

lemma tenant_transition_cases:
  assumes "t \<in> set (def_Transitions tenant_def)" "s \<in> set (tr_From t)"
  shows "(s, tr_Event t, tr_To t, tr_Permission t, tr_Guards t) \<in> tenant_moves"
  using assms by (simp add: tenant_def_def plain_transition_def tenant_moves_def) (elim disjE; simp)

lemma tenant_no_effects: "t \<in> set (def_Transitions tenant_def) \<Longrightarrow> tr_Effects t = []"
  by (auto simp: tenant_def_def plain_transition_def)

lemma tenant_fire:
  assumes "Fire tenant_machine s e t chk = (Inr out, t')"
  shows "t' = t" "out_From out = s" "out_Event out = e" "out_AuditAction out \<noteq> ''''"
    "\<exists>p gs. (s, e, out_To out, p, gs) \<in> tenant_moves \<and>
     check_permission chk p = None \<and> (\<forall>g \<in> set gs. g t = None)"
proof -
  from assms obtain r where r: "r \<in> set (def_Transitions tenant_def)" "s \<in> set (tr_From r)" "tr_Event r = e"
      "check_permission chk (tr_Permission r) = None" "\<forall>g \<in> set (tr_Guards r). g t = None"
      "run_effects (tr_Effects r) t = (None, t')"
      "out = \<lparr>out_From = s, out_To = tr_To r, out_Event = e, out_EmitEvent = tr_EmitEvent r,
               out_AuditAction = tr_AuditAction r, out_Permission = tr_Permission r\<rparr>"
    unfolding tnt.fire_ok_iff by blast
  show "t' = t" using r(1,6) tenant_no_effects by simp
  show "out_From out = s" "out_Event out = e" using r by simp_all
  show "out_AuditAction out \<noteq> ''''" using r(1,7) tenant_wf by (auto simp: wf_table_def)
  show "\<exists>p gs. (s, e, out_To out, p, gs) \<in> tenant_moves \<and>
     check_permission chk p = None \<and> (\<forall>g \<in> set gs. g t = None)"
    using tenant_transition_cases [OF r(1,2)] r(3,4,5,7)
    by (intro exI [of _ "tr_Permission r"] exI [of _ "tr_Guards r"]) simp
qed

text \<open>The permission a move asks for, when it is fired with a check.\<close>

definition permitted :: "(string \<Rightarrow> go_error option) option \<Rightarrow> string \<Rightarrow> bool" where
  "permitted chk p \<longleftrightarrow> (\<forall>c. chk = Some c \<longrightarrow> c p = None)"

lemma check_permission_permitted: "p \<noteq> '''' \<Longrightarrow> check_permission chk p = None \<longleftrightarrow> permitted chk p"
  by (cases chk) (simp_all add: check_permission_def permitted_def)

text \<open>C36: The tenant lifecycle keeps its promises, whatever check the event is fired with: firing
  never changes the tenant itself; a tenant is suspended or put into deprovisioning only while a
  reason is recorded; a check it is fired with must accept \<^verbatim>\<open>tenant:suspend\<close> for a suspension or a
  reinstatement and \<^verbatim>\<open>tenant:purge\<close> for the deletion request and the purge (the service fires without a
  check for the system principal alone); it is purged only out of deprovisioning; it becomes
  active only out of provisioning or suspension; and nothing leads out of the purged or the failed
  state.\<close>

theorem tenant_lifecycle_gate:
  assumes "Fire tenant_machine s e t chk = (Inr out, t')"
  shows "t' = t \<and> s \<noteq> TenantPurged \<and> s \<noteq> TenantFailed \<and>
    (out_To out = TenantSuspended \<or> out_To out = TenantDeprovisioning \<longrightarrow> TrimSpace (t_StatusReason t) \<noteq> '''') \<and>
    (out_To out = TenantSuspended \<longrightarrow> s = TenantActive \<and> permitted chk ''tenant:suspend'') \<and>
    (out_To out = TenantActive \<longrightarrow> s = TenantProvisioning \<or>
       s = TenantSuspended \<and> permitted chk ''tenant:suspend'') \<and>
    (out_To out = TenantDeprovisioning \<longrightarrow> permitted chk ''tenant:purge'') \<and>
    (out_To out = TenantPurged \<longrightarrow> s = TenantDeprovisioning \<and> permitted chk ''tenant:purge'')"
proof -
  note f = tenant_fire [OF assms]
  from f(5) obtain p gs where m: "(s, e, out_To out, p, gs) \<in> tenant_moves" "check_permission chk p = None"
      "\<forall>g \<in> set gs. g t = None" by blast
  have reason: "requireReason t = None \<longleftrightarrow> TrimSpace (t_StatusReason t) \<noteq> ''''" by (simp add: requireReason_def)
  show ?thesis
    using m f(1) reason
    by (simp add: tenant_moves_def) (elim disjE; simp add: tenant_constants check_permission_permitted)
qed

section \<open>Tenants stay within their rules\<close>

text \<open>What can happen to a tenant: the constructor, the two setters whatever they return, a lifecycle
  move with a reason recorded before it, and what the repository sets when it saves.\<close>

inductive tenant_reach :: "Tenant \<Rightarrow> bool" where
  created: "NewTenant clock tid slug name mode region by' = Inr t \<Longrightarrow> tenant_reach t"
| renamed: "tenant_reach t \<Longrightarrow> tenant_reach (snd (Tenant_Rename clock t name))"
| configured: "tenant_reach t \<Longrightarrow> tenant_reach (snd (Tenant_UpdateSettings clock t s))"
| reasoned: "tenant_reach t \<Longrightarrow> tenant_reach (t\<lparr>t_StatusReason := r\<rparr>)"
| fired: "tenant_reach t \<Longrightarrow> Fire tenant_machine (t_Status t) e t chk = (Inr out, t') \<Longrightarrow>
    tenant_reach (t'\<lparr>t_Status := out_To out, t_UpdatedAt := u\<rparr>)"
| saved: "tenant_reach t \<Longrightarrow> tenant_reach (t\<lparr>t_UpdatedAt := u, t_Version := t_Version t + 1\<rparr>)"

definition tenant_ok :: "Tenant \<Rightarrow> bool" where
  "tenant_ok t \<longleftrightarrow> slugRE (t_Slug t) \<and> t_Name t \<noteq> '''' \<and> length (t_Name t) \<le> 200 \<and>
     IsolationMode_Valid (t_IsolationMode t) \<and> Settings_Validate (t_Settings t) = None \<and>
     t_Status t \<in> set (def_States tenant_def) \<and> 1 \<le> t_Version t"

lemma f64_threshold: "f64_units f64_09 \<le> f64_units f64_095" "f64_units f64_095 \<le> f64_one"
  by (simp_all add: f64_units_def f64_09_def f64_095_def f64_one_def emin_def)

lemma DefaultSettings_valid: "Settings_Validate DefaultSettings = None"
  using f64_threshold by (simp add: Settings_Validate_def DefaultSettings_def duration_defs)

lemma tenant_reach_ok: "tenant_reach t \<Longrightarrow> tenant_ok t"
proof (induction rule: tenant_reach.induct)
  case (created clock tid slug name mode region by' t)
  then show ?case
    by (auto simp: NewTenant_def Let_def monad_inv tenant_ok_def ValidateSlug_def DefaultSettings_valid
        tenant_def_def split: if_splits)
next
  case (renamed t clock name)
  then show ?case by (auto simp: Tenant_Rename_def Let_def tenant_ok_def)
next
  case (configured t clock s)
  then show ?case by (auto simp: Tenant_UpdateSettings_def tenant_ok_def split: option.split)
next
  case (fired t e chk out t' u)
  have "out_To out \<in> set (def_States tenant_def)"
    using fired(2) unfolding tnt.fire_ok_iff using tenant_wf by (auto simp: wf_table_def)
  then show ?case using fired tenant_fire(1) [OF fired(2)] by (simp add: tenant_ok_def)
qed (simp_all add: tenant_ok_def)

text \<open>C37: Whatever is done to a tenant, its settings stay within the platform's bounds: approval
  evidence is kept for at least seven years, step-up authentication is at most eight hours old, no
  link is accepted automatically below the threshold of 0.9, and its slug, name and status are
  well formed.\<close>

theorem tenant_settings_bounded:
  assumes "tenant_reach t"
  shows "7 * 365 * 24 * Hour \<le> st_EvidenceRetention (t_Settings t) \<and>
    Minute \<le> st_StepUpMaxAge (t_Settings t) \<and> st_StepUpMaxAge (t_Settings t) \<le> 8 * Hour \<and>
    f64_units f64_09 \<le> f64_units (st_LinkAutoAcceptMin (t_Settings t)) \<and>
    f64_units (st_LinkAutoAcceptMin (t_Settings t)) \<le> f64_one \<and>
    slugRE (t_Slug t) \<and> t_Name t \<noteq> '''' \<and> length (t_Name t) \<le> 200 \<and> t_Status t \<in> set (def_States tenant_def)"
  using tenant_reach_ok [OF assms]
  by (auto simp: tenant_ok_def Settings_Validate_def Let_def split: if_splits)

section \<open>Witnesses\<close>

definition sample_tenant :: Tenant where
  "sample_tenant = \<lparr>t_ID = ''t1'', t_Slug = ''acme'', t_Name = ''Acme'', t_Status = TenantProvisioning,
     t_StatusReason = '''', t_IsolationMode = ''shared'', t_Region = '''', t_Settings = DefaultSettings,
     t_CreatedBy = ''u1'', t_CreatedAt = 0, t_UpdatedAt = 0, t_Version = 1\<rparr>"

lemma sample_tenant_reach: "tenant_reach sample_tenant"
proof -
  have t: "TrimSpace ''acme'' = ''acme''" "TrimSpace ''Acme'' = ''Acme''"
    by (rule TrimSpace_id, simp_all add: graphic_def)+
  have l: "ToLower ''acme'' = ''acme''" by (simp add: HasPrefix_def ascii_lower_def Let_def)
  have "NewTenant 0 ''t1'' ''acme'' ''Acme'' ''shared'' '''' ''u1'' = Inr sample_tenant"
    by (simp add: NewTenant_def Let_def t l ValidateSlug_def slugRE_def lower_letter_def is_digit_def IsolationMode_Valid_def
        sample_tenant_def Now_def NormalizeTime_def del: ToLower.simps)
  then show ?thesis by (rule tenant_reach.created)
qed

lemma tenant_settings_bounded_witness:
  "7 * 365 * 24 * Hour \<le> st_EvidenceRetention (t_Settings (snd (Tenant_UpdateSettings 0 sample_tenant
     (DefaultSettings\<lparr>st_EvidenceRetention := 0\<rparr>))))"
  using tenant_settings_bounded [OF tenant_reach.configured [OF sample_tenant_reach]] by blast

lemma tenant_lifecycle_gate_witness:
  "\<exists>out. Fire tenant_machine TenantActive EventSuspend (sample_tenant\<lparr>t_StatusReason := ''x''\<rparr>) (Some (\<lambda>_. None)) =
      (Inr out, sample_tenant\<lparr>t_StatusReason := ''x''\<rparr>) \<and> out_To out = TenantSuspended \<and>
    TrimSpace (t_StatusReason (sample_tenant\<lparr>t_StatusReason := ''x''\<rparr>)) \<noteq> ''''"
proof -
  have x: "TrimSpace ''x'' = ''x''" by (rule TrimSpace_id) (simp_all add: graphic_def)
  obtain out where o: "Fire tenant_machine TenantActive EventSuspend (sample_tenant\<lparr>t_StatusReason := ''x''\<rparr>) (Some (\<lambda>_. None)) =
      (Inr out, sample_tenant\<lparr>t_StatusReason := ''x''\<rparr>)" "out_To out = TenantSuspended"
    unfolding tnt.fire_ok_iff
    by (auto simp: tenant_def_def plain_transition_def check_permission_def requireReason_def x tenant_constants)
  from tenant_lifecycle_gate [OF o(1)] o show ?thesis by blast
qed

end
