(* ===== verification/ObjStore.thy ===== *)
theory ObjStore
  imports Hash GoTime
begin

text \<open>
  \<^verbatim>\<open>internal/platform/objstore\<close>: the content and evidence store. Both adapters are modelled, the
  filesystem one on a map from paths to file contents and metadata, the database one on the rows of
  the table \<^verbatim>\<open>objects\<close> with the write-once trigger of its migration. The locale \<open>write_once\<close> is what
  the approval path relies on, and each adapter interprets it. The filesystem keeps the metadata of a
  path beside its data; that a key ends in \<^verbatim>\<open>.meta.json\<close>, so that its data is the metadata of
  another key, is not represented.
\<close>

section \<open>Objects and keys\<close>

(*src internal/platform/objstore/objstore.go#Object*)
record Object =
  so_Key :: string
  so_Digest :: ContentHash
  so_Size :: int
  so_MediaType :: string
  so_StoredAt :: time
  so_Locked :: bool
  so_RetainUntil :: time
  so_Metadata :: "(string \<times> string) list"

(*src internal/platform/objstore/objstore.go#PutOptions*)
record PutOptions =
  po_MediaType :: string
  po_Metadata :: "(string \<times> string) list"
  po_Lock :: bool
  po_RetainUntil :: time

(*src internal/platform/objstore/objstore.go#TenantKey*)
definition TenantKey :: "TenantID \<Rightarrow> ProjectID option \<Rightarrow> string \<Rightarrow> string" where
  "TenantKey tenantID projectID suffix =
     tenantID @ ''/'' @ (case projectID of Some p \<Rightarrow> p @ ''/'' | None \<Rightarrow> []) @ TrimPrefix suffix ''/''"

(*src internal/platform/objstore/objstore.go#ContentKey*)
definition ContentKey :: "TenantID \<Rightarrow> ProjectID option \<Rightarrow> ContentHash \<Rightarrow> string" where
  "ContentKey tenantID projectID digest = TenantKey tenantID projectID (''content/'' @ StorageKey digest)"

definition media_type :: "PutOptions \<Rightarrow> string" where
  "media_type opts = (if po_MediaType opts = '''' then ''application/octet-stream'' else po_MediaType opts)"

text \<open>\<^verbatim>\<open>GetVerified\<close> is the same in both adapters, over the adapter's \<^verbatim>\<open>Get\<close>.\<close>

(*src internal/platform/objstore/objstore.go#FS.GetVerified*)
definition GetVerified :: "(string \<times> Object) result \<Rightarrow> ContentHash \<Rightarrow> (string \<times> Object) result" where
  "GetVerified got want = bindR got (\<lambda>(data, obj).
     if \<not> Equal (ContentOfBytes data) want
     then Inl (Tampered ''objstore.GetVerified'' ''objstore.integrity_violation'') else Inr (data, obj))"

section \<open>The filesystem adapter\<close>

text \<open>\<^verbatim>\<open>filepath.Clean\<close> of a rooted path: empty and dot elements go, a dot-dot takes one back.\<close>

definition clean_parts :: "string list \<Rightarrow> string list" where
  "clean_parts ps = rev (foldl (\<lambda>acc p. if p = '''' \<or> p = ''.'' then acc
     else if p = ''..'' then drop 1 acc else p # acc) [] ps)"

definition clean_rooted :: "string \<Rightarrow> string" where
  "clean_rooted key = ''/'' @ Join (clean_parts (Split key CHR ''/'')) ''/''"

type_synonym file_path = "string \<times> string"

(*src internal/platform/objstore/objstore.go#FS.path*)
definition FS_path :: "string \<Rightarrow> string \<Rightarrow> file_path result" where
  "FS_path bucket key =
     checkR (bucket = '''') (Invalid ''objstore.path'' ''objstore.bucket_required'') (
     let clean = clean_rooted key in
     checkR (Contains clean ''..'') (Invalid ''objstore.path'' ''objstore.invalid_key'') (
     Inr (bucket, clean)))"

record fs =
  fs_data :: "file_path \<Rightarrow> string option"
  fs_meta :: "file_path \<Rightarrow> Object option"

text \<open>The operating system may fail before the rename or at the metadata file.\<close>

datatype fs_fault = Fault_data | Fault_meta

(*src internal/platform/objstore/objstore.go#FS.statLocked*)
definition FS_stat :: "string \<Rightarrow> string \<Rightarrow> fs \<Rightarrow> Object result" where
  "FS_stat bucket key st = bindR (FS_path bucket key) (\<lambda>p. case fs_meta st p of
       None \<Rightarrow> Inl (NotFound ''objstore.Stat'' ''objstore.not_found'') | Some obj \<Rightarrow> Inr obj)"

(*src internal/platform/objstore/objstore.go:152-228#FS.PutAt*)
definition FS_PutAt ::
  "fs_fault option \<Rightarrow> time \<Rightarrow> string \<Rightarrow> string \<Rightarrow> string \<Rightarrow> PutOptions \<Rightarrow> fs \<Rightarrow> Object result \<times> fs" where
  "FS_PutAt fault clock bucket key data opts st =
     (let op = ''objstore.Put'' in
      case FS_path bucket key of Inl err \<Rightarrow> (Inl err, st) | Inr p \<Rightarrow>
      (let digest = ContentOfBytes data;
           obj = \<lparr>so_Key = key, so_Digest = digest, so_Size = int (length data), so_MediaType = media_type opts,
                  so_StoredAt = Now clock, so_Locked = po_Lock opts, so_RetainUntil = po_RetainUntil opts,
                  so_Metadata = po_Metadata opts\<rparr>;
           place = (if fault = Some Fault_data
             then (Inl (Wrap (PlainError ''os'') op KindUnavailable ''objstore.write_failed''), st)
             else let st1 = st\<lparr>fs_data := (fs_data st)(p \<mapsto> data)\<rparr> in
               if fault = Some Fault_meta
               then (Inl (Wrap (PlainError ''os'') op KindUnavailable ''objstore.meta_failed''), st1)
               else (Inr obj, st1\<lparr>fs_meta := (fs_meta st)(p \<mapsto> obj)\<rparr>))
       in case FS_stat bucket key st of
            Inr existing \<Rightarrow>
              if so_Locked existing then
                (if so_Digest existing = digest then (Inr existing, st)
                 else (Inl (Forbidden op ''objstore.object_locked''), st))
              else place
          | Inl _ \<Rightarrow> place))"

(*src internal/platform/objstore/objstore.go#FS.Put*)
definition FS_Put :: "fs_fault option \<Rightarrow> time \<Rightarrow> string \<Rightarrow> string \<Rightarrow> PutOptions \<Rightarrow> fs \<Rightarrow> Object result \<times> fs" where
  "FS_Put fault clock bucket data opts st = FS_PutAt fault clock bucket (StorageKey (ContentOfBytes data)) data opts st"

(*src internal/platform/objstore/objstore.go#FS.Get*)
definition FS_Get :: "string \<Rightarrow> string \<Rightarrow> fs \<Rightarrow> (string \<times> Object) result" where
  "FS_Get bucket key st = bindR (FS_path bucket key) (\<lambda>p. case fs_data st p of
       None \<Rightarrow> Inl (NotFound ''objstore.Get'' ''objstore.not_found'')
     | Some data \<Rightarrow> (case FS_stat bucket key st of
           Inr obj \<Rightarrow> Inr (data, obj)
         | Inl _ \<Rightarrow> Inr (data, \<lparr>so_Key = key, so_Digest = ContentOfBytes data, so_Size = int (length data),
             so_MediaType = '''', so_StoredAt = 0, so_Locked = False, so_RetainUntil = 0, so_Metadata = []\<rparr>)))"

(*src internal/platform/objstore/objstore.go#FS.Delete*)
definition FS_Delete :: "fs_fault option \<Rightarrow> time \<Rightarrow> string \<Rightarrow> string \<Rightarrow> fs \<Rightarrow> go_error option \<times> fs" where
  "FS_Delete fault clock bucket key st = (case FS_path bucket key of Inl err \<Rightarrow> (Some err, st) | Inr p \<Rightarrow>
     if (case FS_stat bucket key st of Inr obj \<Rightarrow> so_Locked obj \<and> clock < so_RetainUntil obj | Inl _ \<Rightarrow> False)
     then (Some (Forbidden ''objstore.Delete'' ''objstore.object_locked''), st)
     else if fault = Some Fault_data
     then (Some (Wrap (PlainError ''os'') ''objstore.Delete'' KindUnavailable ''objstore.delete_failed''), st)
     else (None, st\<lparr>fs_data := (fs_data st)(p := None), fs_meta := (fs_meta st)(p := None)\<rparr>))"

section \<open>The database adapter\<close>

record object_row =
  or_bucket :: string
  or_key :: string
  or_tenant_id :: "string option"
  or_digest :: ContentHash
  or_size_bytes :: int
  or_media_type :: string
  or_body :: string
  or_metadata :: "(string \<times> string) list"
  or_locked :: bool
  or_retain_until :: "time option"
  or_stored_at :: time

definition MaxObjectBytes :: nat where "MaxObjectBytes = 2 ^ 20"

(*src internal/platform/objstore/postgres.go#tenantFromKey*)
definition tenantFromKey :: "string \<Rightarrow> string option" where
  "tenantFromKey key = (case Split (TrimPrefix key ''/'') CHR ''/'' of
       head # _ # _ \<Rightarrow> (case ParseTenantID head of Inr t \<Rightarrow> Some head | Inl _ \<Rightarrow> None)
     | _ \<Rightarrow> None)"

text \<open>The refusals of the triggers, by the text of their messages.\<close>

definition msg_modified :: string where
  "msg_modified = ''object %/% is under retention until % and cannot be modified''"
definition msg_shortened :: string where "msg_shortened = ''retention on %/% cannot be shortened (% -> %)''"
definition msg_lock :: string where "msg_lock = ''the lock on %/% cannot be removed''"
definition msg_deleted :: string where
  "msg_deleted = ''object %/% is under retention until % and cannot be deleted''"

(*src internal/platform/objstore/postgres.go#isObjectLocked*)
definition isObjectLocked :: "string \<Rightarrow> bool" where
  "isObjectLocked msg \<longleftrightarrow> Contains msg ''under retention'' \<or> Contains msg ''cannot be modified'' \<or> Contains msg ''lock on''"

definition same_object :: "string \<Rightarrow> string \<Rightarrow> object_row \<Rightarrow> bool" where
  "same_object bucket key r \<longleftrightarrow> or_bucket r = bucket \<and> or_key r = key"

definition retained :: "time \<Rightarrow> object_row \<Rightarrow> bool" where
  "retained now r \<longleftrightarrow> or_locked r \<and> (case or_retain_until r of None \<Rightarrow> True | Some u \<Rightarrow> now < u)"

(*src migrations/0005_object_store.sql:52-83#sf_enforce_object_lock*)
definition object_lock_trigger :: "time \<Rightarrow> object_row \<Rightarrow> object_row \<Rightarrow> string option" where
  "object_lock_trigger now old new =
     (if retained now old then
        (if or_digest new \<noteq> or_digest old \<or> or_body new \<noteq> or_body old \<or> or_bucket new \<noteq> or_bucket old \<or> or_key new \<noteq> or_key old
         then Some msg_modified
         else if (case (or_retain_until new, or_retain_until old) of (Some n, Some o') \<Rightarrow> n < o' | _ \<Rightarrow> False)
         then Some msg_shortened
         else if \<not> or_locked new then Some msg_lock else None)
      else None)"

definition greatest :: "time option \<Rightarrow> time option \<Rightarrow> time option" where
  "greatest a b = (case (a, b) of (Some x, Some y) \<Rightarrow> Some (max x y) | (Some x, None) \<Rightarrow> Some x | (None, y) \<Rightarrow> y)"

text \<open>\<^verbatim>\<open>INSERT ... ON CONFLICT (bucket, key) DO UPDATE\<close>.\<close>

definition merge_object :: "object_row \<Rightarrow> object_row \<Rightarrow> object_row" where
  "merge_object x old = old\<lparr>or_digest := or_digest x, or_size_bytes := or_size_bytes x, or_media_type := or_media_type x,
     or_body := or_body x, or_metadata := or_metadata x, or_locked := or_locked old \<or> or_locked x,
     or_retain_until := greatest (or_retain_until old) (or_retain_until x)\<rparr>"

(*src internal/platform/objstore/postgres.go:108-122#Postgres.PutAt*)
definition upsert_object :: "time \<Rightarrow> object_row \<Rightarrow> object_row list \<Rightarrow> string + object_row \<times> object_row list" where
  "upsert_object now x rows = (case find (same_object (or_bucket x) (or_key x)) rows of
       None \<Rightarrow> Inr (x, rows @ [x])
     | Some old \<Rightarrow>
         (let new = merge_object x old
          in case object_lock_trigger now old new of
               Some msg \<Rightarrow> Inl msg
             | None \<Rightarrow> Inr (new, map (\<lambda>r. if same_object (or_bucket x) (or_key x) r then new else r) rows)))"

(*src internal/platform/objstore/postgres.go:64-139#Postgres.PutAt*)
definition PG_PutAt ::
  "string option \<Rightarrow> time \<Rightarrow> string \<Rightarrow> string \<Rightarrow> string \<Rightarrow> PutOptions \<Rightarrow> object_row list \<Rightarrow> Object result \<times> object_row list" where
  "PG_PutAt fault now bucket key data opts rows =
     (let op = ''objstore.Put'';
          refuse = (\<lambda>msg. if isObjectLocked msg then Forbidden op ''objstore.object_locked''
             else Wrap (PlainError msg) op KindUnavailable ''objstore.write_failed'')
      in if bucket = '''' then (Inl (Invalid op ''objstore.bucket_required''), rows)
      else if key = '''' then (Inl (Invalid op ''objstore.invalid_key''), rows)
      else if length data > MaxObjectBytes then (Inl (Invalid op ''objstore.too_large''), rows)
      else if po_Lock opts \<and> po_RetainUntil opts = 0 then (Inl (Invalid op ''objstore.retention_required''), rows)
      else let digest = ContentOfBytes data;
               x = \<lparr>or_bucket = bucket, or_key = key, or_tenant_id = tenantFromKey key, or_digest = digest,
                    or_size_bytes = int (length data), or_media_type = media_type opts, or_body = data,
                    or_metadata = po_Metadata opts, or_locked = po_Lock opts,
                    or_retain_until = (if po_Lock opts then Some (po_RetainUntil opts) else None), or_stored_at = now\<rparr>
           in case fault of Some msg \<Rightarrow> (Inl (refuse msg), rows) | None \<Rightarrow>
             (case upsert_object now x rows of
                Inl msg \<Rightarrow> (Inl (refuse msg), rows)
              | Inr (r, rows') \<Rightarrow> (Inr \<lparr>so_Key = key, so_Digest = digest, so_Size = int (length data),
                  so_MediaType = media_type opts, so_StoredAt = or_stored_at r, so_Locked = or_locked r,
                  so_RetainUntil = (case or_retain_until r of Some u \<Rightarrow> u | None \<Rightarrow> 0), so_Metadata = po_Metadata opts\<rparr>, rows')))"

(*src internal/platform/objstore/postgres.go#Postgres.Put*)
definition PG_Put ::
  "string option \<Rightarrow> time \<Rightarrow> string \<Rightarrow> string \<Rightarrow> PutOptions \<Rightarrow> object_row list \<Rightarrow> Object result \<times> object_row list" where
  "PG_Put fault now bucket data opts rows = PG_PutAt fault now bucket (StorageKey (ContentOfBytes data)) data opts rows"

definition object_of :: "object_row \<Rightarrow> Object" where
  "object_of r = \<lparr>so_Key = or_key r, so_Digest = or_digest r, so_Size = or_size_bytes r, so_MediaType = or_media_type r,
     so_StoredAt = or_stored_at r, so_Locked = or_locked r,
     so_RetainUntil = (case or_retain_until r of Some u \<Rightarrow> u | None \<Rightarrow> 0), so_Metadata = or_metadata r\<rparr>"

(*src internal/platform/objstore/postgres.go#Postgres.Get*)
definition PG_Get :: "string \<Rightarrow> string \<Rightarrow> object_row list \<Rightarrow> (string \<times> Object) result" where
  "PG_Get bucket key rows = (case find (same_object bucket key) rows of
       None \<Rightarrow> Inl (NotFound ''objstore.Get'' ''objstore.not_found'')
     | Some r \<Rightarrow> Inr (or_body r, object_of r))"

(*src internal/platform/objstore/postgres.go#Postgres.Stat*)
definition PG_Stat :: "string \<Rightarrow> string \<Rightarrow> object_row list \<Rightarrow> Object result" where
  "PG_Stat bucket key rows = (case find (same_object bucket key) rows of
       None \<Rightarrow> Inl (NotFound ''objstore.Stat'' ''objstore.not_found'')
     | Some r \<Rightarrow> Inr (object_of r))"

(*src internal/platform/objstore/postgres.go#Postgres.Delete*)
definition PG_Delete :: "string option \<Rightarrow> time \<Rightarrow> string \<Rightarrow> string \<Rightarrow> object_row list \<Rightarrow> go_error option \<times> object_row list" where
  "PG_Delete fault now bucket key rows =
     (let op = ''objstore.Delete'';
          refuse = (\<lambda>msg. if isObjectLocked msg then Forbidden op ''objstore.object_locked''
             else Wrap (PlainError msg) op KindUnavailable ''objstore.delete_failed'')
      in case fault of Some msg \<Rightarrow> (Some (refuse msg), rows) | None \<Rightarrow>
         if list_ex (\<lambda>r. same_object bucket key r \<and> retained now r) rows then (Some (refuse msg_deleted), rows)
         else (None, filter (\<lambda>r. \<not> same_object bucket key r) rows))"

section \<open>Write-once storage\<close>

datatype 'f obj_op =
    Op_put (op_fault: 'f) (op_time: time) string string string PutOptions
  | Op_delete (op_fault: 'f) (op_time: time) string string

fun run_op ::
  "('f \<Rightarrow> time \<Rightarrow> string \<Rightarrow> string \<Rightarrow> string \<Rightarrow> PutOptions \<Rightarrow> 's \<Rightarrow> Object result \<times> 's) \<Rightarrow>
   ('f \<Rightarrow> time \<Rightarrow> string \<Rightarrow> string \<Rightarrow> 's \<Rightarrow> go_error option \<times> 's) \<Rightarrow> 'f obj_op \<Rightarrow> 's \<Rightarrow> 's" where
  "run_op put del (Op_put f t b k d opts) s = snd (put f t b k d opts s)"
| "run_op put del (Op_delete f t b k) s = snd (del f t b k s)"

locale write_once =
  fixes put :: "'f \<Rightarrow> time \<Rightarrow> string \<Rightarrow> string \<Rightarrow> string \<Rightarrow> PutOptions \<Rightarrow> 's \<Rightarrow> Object result \<times> 's"
    and get :: "string \<Rightarrow> string \<Rightarrow> 's \<Rightarrow> (string \<times> Object) result"
    and del :: "'f \<Rightarrow> time \<Rightarrow> string \<Rightarrow> string \<Rightarrow> 's \<Rightarrow> go_error option \<times> 's"
    and sound :: "'s \<Rightarrow> bool"
    and held :: "time \<Rightarrow> string \<Rightarrow> string \<Rightarrow> string \<Rightarrow> 's \<Rightarrow> bool"
  assumes sound_put: "sound s \<Longrightarrow> sound (snd (put f t b k d opts s))"
    and sound_del: "sound s \<Longrightarrow> sound (snd (del f t b k s))"
    and held_get: "held u b k d s \<Longrightarrow> \<exists>obj. get b k s = Inr (d, obj)"
    and held_put: "sound s \<Longrightarrow> held u b k d s \<Longrightarrow> t < u \<Longrightarrow> held u b k d (snd (put f t b' k' d' opts s))"
    and held_del: "sound s \<Longrightarrow> held u b k d s \<Longrightarrow> t < u \<Longrightarrow> held u b k d (snd (del f t b' k' s))"
    and put_held: "sound s \<Longrightarrow> put f t b k d opts s = (Inr obj, s') \<Longrightarrow> po_Lock opts \<Longrightarrow>
      \<exists>d'. held (so_RetainUntil obj) b (so_Key obj) d' s' \<and> ContentOfBytes d' = ContentOfBytes d"
begin

lemma run_op_sound: "sound s \<Longrightarrow> sound (run_op put del op s)"
  by (cases op) (simp_all add: sound_put sound_del)

lemma run_op_held: "sound s \<Longrightarrow> held u b k d s \<Longrightarrow> op_time op < u \<Longrightarrow> held u b k d (run_op put del op s)"
  by (cases op) (simp_all add: held_put held_del)

lemma held_ops:
  "sound s \<Longrightarrow> held u b k d s \<Longrightarrow> \<forall>op \<in> set ops. op_time op < u \<Longrightarrow> held u b k d (fold (run_op put del) ops s)"
  by (induction ops arbitrary: s) (simp_all add: run_op_sound run_op_held)

lemma held_verified:
  "held u b k d s \<Longrightarrow> \<exists>obj. GetVerified (get b k s) (ContentOfBytes d) = Inr (d, obj)"
  using held_get by (fastforce simp: GetVerified_def Equal_def)

text \<open>What was put under a lock is read back, verified, for as long as it is retained.\<close>

lemma locked_readable:
  assumes "sound s" "put f t b k d opts s = (Inr obj, s')" "po_Lock opts"
    and "\<forall>op \<in> set ops. op_time op < so_RetainUntil obj"
  shows "\<exists>d' obj'. GetVerified (get b (so_Key obj) (fold (run_op put del) ops s')) (ContentOfBytes d) = Inr (d', obj') \<and>
     ContentOfBytes d' = ContentOfBytes d"
proof -
  obtain d' where d': "held (so_RetainUntil obj) b (so_Key obj) d' s'" "ContentOfBytes d' = ContentOfBytes d"
    using put_held [OF assms(1-3)] by blast
  moreover have "sound s'" using sound_put [OF assms(1), of f t b k d opts] assms(2) by simp
  ultimately have "held (so_RetainUntil obj) b (so_Key obj) d' (fold (run_op put del) ops s')"
    using held_ops assms(4) by blast
  from held_verified [OF this] d'(2) show ?thesis by metis
qed

end

section \<open>The database adapter is write-once\<close>

definition pg_sound :: "object_row list \<Rightarrow> bool" where
  "pg_sound rows \<longleftrightarrow> distinct (map (\<lambda>r. (or_bucket r, or_key r)) rows)"

definition pg_held :: "time \<Rightarrow> string \<Rightarrow> string \<Rightarrow> string \<Rightarrow> object_row list \<Rightarrow> bool" where
  "pg_held u b k d rows \<longleftrightarrow> (\<exists>r. find (same_object b k) rows = Some r \<and> or_body r = d \<and>
     or_locked r \<and> (\<exists>v. or_retain_until r = Some v \<and> u \<le> v))"

lemma find_map_other: "(\<And>r. p r \<Longrightarrow> \<not> q r) \<Longrightarrow> (\<And>r. q r \<Longrightarrow> p (f r) = p r) \<Longrightarrow>
    find p (map (\<lambda>r. if q r then f r else r) rows) = find p rows"
  by (induction rows) auto

lemma find_map_same: "(\<And>r. p r \<Longrightarrow> p (f r)) \<Longrightarrow>
    find p (map (\<lambda>r. if p r then f r else r) rows) = map_option f (find p rows)"
  by (induction rows) auto

lemma find_Some_holds: "find p rows = Some r \<Longrightarrow> p r \<and> r \<in> set rows"
  by (auto simp: find_Some_iff)

lemma find_append: "find p (xs @ ys) = (case find p xs of Some x \<Rightarrow> Some x | None \<Rightarrow> find p ys)"
  by (induction xs) auto

lemma merge_object_simps [simp]:
  "same_object b k (merge_object x old) = same_object b k old" "or_body (merge_object x old) = or_body x"
  "or_bucket (merge_object x old) = or_bucket old" "or_key (merge_object x old) = or_key old"
  "or_locked (merge_object x old) \<longleftrightarrow> or_locked old \<or> or_locked x" "or_digest (merge_object x old) = or_digest x"
  "or_retain_until (merge_object x old) = greatest (or_retain_until old) (or_retain_until x)"
  by (simp_all add: merge_object_def same_object_def)

text \<open>The cases of a put: refused, or the row of the key is there with the new bytes.\<close>

lemma upsert_cases:
  assumes "upsert_object now x rows = Inr (r, rows')"
  shows "(find (same_object (or_bucket x) (or_key x)) rows = None \<and> r = x \<and> rows' = rows @ [x]) \<or>
    (\<exists>old. find (same_object (or_bucket x) (or_key x)) rows = Some old \<and>
       r = merge_object x old \<and>
       object_lock_trigger now old r = None \<and>
       rows' = map (\<lambda>q. if same_object (or_bucket x) (or_key x) q then r else q) rows)"
  using assms unfolding upsert_object_def Let_def
  by (cases "find (same_object (or_bucket x) (or_key x)) rows") (auto split: option.splits)

lemma same_object_iff: "same_object b k r \<Longrightarrow> same_object b' k' r \<longleftrightarrow> b' = b \<and> k' = k"
  by (auto simp: same_object_def)

lemma upsert_find:
  assumes "upsert_object now x rows = Inr (r, rows')"
  shows "find (same_object (or_bucket x) (or_key x)) rows' = Some r"
  using upsert_cases [OF assms]
proof (elim disjE exE conjE)
  assume "find (same_object (or_bucket x) (or_key x)) rows = None" "r = x" "rows' = rows @ [x]"
  then show ?thesis by (simp add: find_append) (simp add: same_object_def)
next
  fix old
  assume f: "find (same_object (or_bucket x) (or_key x)) rows = Some old"
    and r: "r = merge_object x old"
    and rows': "rows' = map (\<lambda>q. if same_object (or_bucket x) (or_key x) q then r else q) rows"
  have "same_object (or_bucket x) (or_key x) r"
    using find_Some_holds [OF f] r by simp
  then show ?thesis unfolding rows' by (subst find_map_same) (simp_all add: f)
qed

lemma upsert_other:
  assumes "upsert_object now x rows = Inr (r, rows')" "(b, k) \<noteq> (or_bucket x, or_key x)"
  shows "find (same_object b k) rows' = find (same_object b k) rows"
  using upsert_cases [OF assms(1)]
proof (elim disjE exE conjE)
  assume "rows' = rows @ [x]"
  moreover have "\<not> same_object b k x" using assms(2) by (auto simp: same_object_def)
  ultimately show ?thesis by (simp add: find_append split: option.split)
next
  fix old
  assume f: "find (same_object (or_bucket x) (or_key x)) rows = Some old"
    and r: "r = merge_object x old"
    and rows': "rows' = map (\<lambda>q. if same_object (or_bucket x) (or_key x) q then r else q) rows"
  have "same_object (or_bucket x) (or_key x) r"
    using find_Some_holds [OF f] r by simp
  then show ?thesis unfolding rows' using assms(2)
    by (subst find_map_other) (auto simp: same_object_def)
qed

lemma upsert_sound:
  assumes "upsert_object now x rows = Inr (r, rows')" "pg_sound rows"
  shows "pg_sound rows'"
  using upsert_cases [OF assms(1)]
proof (elim disjE exE conjE)
  assume n: "find (same_object (or_bucket x) (or_key x)) rows = None" "rows' = rows @ [x]"
  then have "\<forall>q \<in> set rows. (or_bucket q, or_key q) \<noteq> (or_bucket x, or_key x)"
    by (auto simp: find_None_iff same_object_def)
  then have "(or_bucket x, or_key x) \<notin> (\<lambda>q. (or_bucket q, or_key q)) ` set rows" by fastforce
  then show ?thesis using n(2) assms(2) by (simp add: pg_sound_def)
next
  fix old
  assume f: "find (same_object (or_bucket x) (or_key x)) rows = Some old"
    and r: "r = merge_object x old"
    and rows': "rows' = map (\<lambda>q. if same_object (or_bucket x) (or_key x) q then r else q) rows"
  have "same_object (or_bucket x) (or_key x) r"
    using find_Some_holds [OF f] r by simp
  then have "map (\<lambda>q. (or_bucket q, or_key q)) rows' = map (\<lambda>q. (or_bucket q, or_key q)) rows"
    unfolding rows' by (auto simp: same_object_def)
  then show ?thesis using assms(2) by (simp only: pg_sound_def)
qed

lemma object_lock_trigger_None:
  "object_lock_trigger now old new = None \<Longrightarrow> retained now old \<Longrightarrow> or_body new = or_body old"
  by (auto simp: object_lock_trigger_def split: if_splits)

lemma greatest_ge: "greatest a b = None \<or> (\<forall>x. a = Some x \<longrightarrow> (\<exists>y. greatest a b = Some y \<and> x \<le> y))"
  by (auto simp: greatest_def split: option.splits)

lemma pg_held_retained: "pg_held u b k d rows \<Longrightarrow> t < u \<Longrightarrow>
    \<exists>r. find (same_object b k) rows = Some r \<and> or_body r = d \<and> retained t r"
  by (fastforce simp: pg_held_def retained_def split: option.splits)

lemma PG_PutAt_Inr:
  assumes "PG_PutAt f t b k d opts rows = (Inr obj, rows')"
  obtains x r where "upsert_object t x rows = Inr (r, rows')" "or_bucket x = b" "or_key x = k" "or_body x = d"
    "or_locked x = po_Lock opts" "or_retain_until x = (if po_Lock opts then Some (po_RetainUntil opts) else None)"
    "so_Key obj = k" "so_RetainUntil obj = (case or_retain_until r of Some u \<Rightarrow> u | None \<Rightarrow> 0)"
    "so_Locked obj = or_locked r"
  using assms by (auto simp: PG_PutAt_def Let_def split: if_splits option.splits sum.splits)

lemma PG_PutAt_rows: "snd (PG_PutAt f t b k d opts rows) = rows \<or>
    (\<exists>x r. upsert_object t x rows = Inr (r, snd (PG_PutAt f t b k d opts rows)))"
  by (auto simp: PG_PutAt_def Let_def split: option.splits sum.splits)

lemma upsert_held:
  assumes "upsert_object t x rows = Inr (r, rows')" "pg_held u b k d rows" "t < u"
  shows "pg_held u b k d rows'"
proof -
  obtain q where q: "find (same_object b k) rows = Some q" "or_body q = d" "or_locked q"
      "\<exists>v. or_retain_until q = Some v \<and> u \<le> v"
    using assms(2) unfolding pg_held_def by blast
  then have "retained t q" using assms(3) by (auto simp: retained_def split: option.splits)
  note q = q this
  show ?thesis
  proof (cases "(b, k) = (or_bucket x, or_key x)")
    case True
    then have r: "r = merge_object x q" "object_lock_trigger t q r = None"
      using upsert_cases [OF assms(1)] q(1) by auto
    have "or_body r = d" using object_lock_trigger_None [OF r(2) q(5)] q(2) by simp
    moreover have "\<exists>v. or_retain_until r = Some v \<and> u \<le> v"
      using q(4) by (auto simp: r(1) greatest_def split: option.splits)
    moreover have "find (same_object b k) rows' = Some r" using upsert_find [OF assms(1)] True by simp
    ultimately show ?thesis using q(3) by (auto simp: pg_held_def r(1))
  next
    case False
    then show ?thesis using upsert_other [OF assms(1), of b k] assms(2) by (simp add: pg_held_def)
  qed
qed

lemma find_filter_other: "(\<And>r. p r \<Longrightarrow> q r) \<Longrightarrow> find p (filter q rows) = find p rows"
  by (induction rows) auto

lemma PG_Delete_held:
  assumes "pg_held u b k d rows" "t < u"
  shows "pg_held u b k d (snd (PG_Delete f t b' k' rows))"
proof (cases "b' = b \<and> k' = k")
  case True
  obtain q where "find (same_object b k) rows = Some q" "retained t q"
    using pg_held_retained [OF assms] by blast
  then have "list_ex (\<lambda>r. same_object b' k' r \<and> retained t r) rows"
    using True by (auto simp: list_ex_iff dest: find_Some_holds)
  then show ?thesis using assms(1) by (simp add: PG_Delete_def Let_def split: option.split)
next
  case False
  then have "find (same_object b k) (filter (\<lambda>r. \<not> same_object b' k' r) rows) = find (same_object b k) rows"
    by (intro find_filter_other) (auto simp: same_object_def)
  then show ?thesis using assms(1) by (simp add: PG_Delete_def Let_def pg_held_def split: option.split)
qed

interpretation pg: write_once PG_PutAt PG_Get PG_Delete pg_sound pg_held
proof unfold_locales
  fix s f t b k d opts assume "pg_sound s"
  then show "pg_sound (snd (PG_PutAt f t b k d opts s))"
    using PG_PutAt_rows [of f t b k d opts s] upsert_sound by auto
next
  fix s :: "object_row list" and f t b k assume "pg_sound s"
  then show "pg_sound (snd (PG_Delete f t b k s))"
    by (auto simp: PG_Delete_def Let_def pg_sound_def distinct_map split: option.splits intro: inj_on_subset)
next
  fix u b k d s assume "pg_held u b k d s"
  then show "\<exists>obj. PG_Get b k s = Inr (d, obj)" by (auto simp: pg_held_def PG_Get_def)
next
  fix s u b k d t f b' k' d' opts assume "pg_held u b k d s" "t < u"
  then show "pg_held u b k d (snd (PG_PutAt f t b' k' d' opts s))"
    using PG_PutAt_rows [of f t b' k' d' opts s] upsert_held by auto
next
  fix s u b k d t f b' k' assume "pg_held u b k d s" "t < u"
  then show "pg_held u b k d (snd (PG_Delete f t b' k' s))" by (rule PG_Delete_held)
next
  fix s f t b k d opts obj s'
  assume s: "pg_sound s" "PG_PutAt f t b k d opts s = (Inr obj, s')" "po_Lock opts"
  from s(2) obtain x r where x: "upsert_object t x s = Inr (r, s')" "or_bucket x = b" "or_key x = k" "or_body x = d"
      "or_locked x = po_Lock opts" "or_retain_until x = (if po_Lock opts then Some (po_RetainUntil opts) else None)"
      "so_Key obj = k" "so_RetainUntil obj = (case or_retain_until r of Some u \<Rightarrow> u | None \<Rightarrow> 0)"
    by (rule PG_PutAt_Inr) blast
  have "find (same_object b k) s' = Some r" using upsert_find [OF x(1)] x(2,3) by simp
  moreover have "or_body r = d" "or_locked r" using upsert_cases [OF x(1)] x(4,5) s(3) by auto
  moreover have "or_retain_until r \<noteq> None"
    using upsert_cases [OF x(1)] x(6) s(3) by (auto simp: greatest_def split: option.splits)
  ultimately have "pg_held (so_RetainUntil obj) b (so_Key obj) d s'"
    by (auto simp: pg_held_def x(7,8))
  then show "\<exists>d'. pg_held (so_RetainUntil obj) b (so_Key obj) d' s' \<and> ContentOfBytes d' = ContentOfBytes d" by blast
qed

section \<open>The filesystem adapter is write-once\<close>

definition fs_sound :: "fs \<Rightarrow> bool" where
  "fs_sound s \<longleftrightarrow> (\<forall>p obj. fs_meta s p = Some obj \<longrightarrow> so_Locked obj \<longrightarrow>
     (\<exists>d. fs_data s p = Some d \<and> so_Digest obj = ContentOfBytes d \<and> FS_path (fst p) (so_Key obj) = Inr p))"

definition fs_held :: "time \<Rightarrow> string \<Rightarrow> string \<Rightarrow> string \<Rightarrow> fs \<Rightarrow> bool" where
  "fs_held u b k d s \<longleftrightarrow> (\<exists>p obj. FS_path b k = Inr p \<and> fs_data s p = Some d \<and> fs_meta s p = Some obj \<and>
     so_Locked obj \<and> u \<le> so_RetainUntil obj)"

lemma FS_path_bucket: "FS_path b k = Inr p \<Longrightarrow> fst p = b"
  by (auto simp: FS_path_def Let_def monad_inv)

lemma FS_stat_Inr: "FS_stat b k s = Inr obj \<longleftrightarrow> (\<exists>p. FS_path b k = Inr p \<and> fs_meta s p = Some obj)"
  by (cases "FS_path b k") (simp_all add: FS_stat_def split: option.split)

lemma fs_sound_locked: "fs_sound s \<Longrightarrow> fs_meta s p = Some obj \<Longrightarrow> so_Locked obj \<Longrightarrow>
    \<exists>d. fs_data s p = Some d \<and> so_Digest obj = ContentOfBytes d \<and> FS_path (fst p) (so_Key obj) = Inr p"
  unfolding fs_sound_def by blast

lemma FS_PutAt_cases:
  assumes "FS_PutAt f t b k d opts s = (r, s')"
  obtains (same) "s' = s" "\<And>obj. r = Inr obj \<Longrightarrow> \<exists>p. FS_path b k = Inr p \<and> fs_meta s p = Some obj \<and> so_Locked obj \<and>
        so_Digest obj = ContentOfBytes d"
  | (data) p where "FS_path b k = Inr p" "\<And>obj. fs_meta s p = Some obj \<Longrightarrow> \<not> so_Locked obj" "isl r"
        "s' = s\<lparr>fs_data := (fs_data s)(p \<mapsto> d)\<rparr>"
  | (stored) p obj where "FS_path b k = Inr p" "\<And>obj. fs_meta s p = Some obj \<Longrightarrow> \<not> so_Locked obj" "r = Inr obj"
        "so_Digest obj = ContentOfBytes d" "so_Key obj = k" "so_Locked obj = po_Lock opts"
        "s' = s\<lparr>fs_data := (fs_data s)(p \<mapsto> d), fs_meta := (fs_meta s)(p \<mapsto> obj)\<rparr>"
proof (cases "FS_path b k")
  case (Inl e)
  with assms show ?thesis by (auto simp: FS_PutAt_def Let_def intro: same)
next
  case (Inr p)
  have st: "FS_stat b k s = (case fs_meta s p of None \<Rightarrow> Inl (NotFound ''objstore.Stat'' ''objstore.not_found'') | Some obj \<Rightarrow> Inr obj)"
    by (simp add: FS_stat_def Inr)
  show ?thesis
  proof (cases "\<exists>obj. fs_meta s p = Some obj \<and> so_Locked obj")
    case True
    then obtain obj where o: "fs_meta s p = Some obj" "so_Locked obj" by blast
    with assms Inr show ?thesis
      by (intro same) (auto simp: FS_PutAt_def Let_def st split: if_splits)
  next
    case False
    then have nl: "\<And>obj. fs_meta s p = Some obj \<Longrightarrow> \<not> so_Locked obj" by blast
    from assms Inr show ?thesis
      by (cases "fs_meta s p")
         (auto simp: FS_PutAt_def Let_def st nl split: if_splits intro: same data [OF Inr nl] stored [OF Inr nl])
  qed
qed

lemma FS_PutAt_sound: "fs_sound s \<Longrightarrow> fs_sound (snd (FS_PutAt f t b k d opts s))"
proof -
  assume s: "fs_sound s"
  obtain r s' where p: "FS_PutAt f t b k d opts s = (r, s')" by fastforce
  then have "fs_sound s'"
  proof (cases rule: FS_PutAt_cases)
    case same
    then show ?thesis using s by simp
  next
    case (data p)
    then show ?thesis using s by (auto simp: fs_sound_def)
  next
    case (stored p obj)
    then show ?thesis using s FS_path_bucket [OF stored(1)] by (auto simp: fs_sound_def)
  qed
  with p show ?thesis by simp
qed

lemma FS_PutAt_held:
  assumes "fs_held u b k d s"
  shows "fs_held u b k d (snd (FS_PutAt f t b' k' d' opts s))"
proof -
  obtain p obj where h: "FS_path b k = Inr p" "fs_data s p = Some d" "fs_meta s p = Some obj" "so_Locked obj"
      "u \<le> so_RetainUntil obj"
    using assms by (auto simp: fs_held_def)
  obtain r s' where p: "FS_PutAt f t b' k' d' opts s = (r, s')" by fastforce
  then have "fs_held u b k d s'"
  proof (cases rule: FS_PutAt_cases)
    case same
    then show ?thesis using assms by simp
  next
    case (data q)
    then have "q \<noteq> p" using h(3,4) by blast
    then show ?thesis using h data(4) by (auto simp: fs_held_def)
  next
    case (stored q obj')
    then have "q \<noteq> p" using h(3,4) by blast
    then show ?thesis using h stored(7) by (auto simp: fs_held_def)
  qed
  with p show ?thesis by simp
qed

lemma FS_Delete_held:
  assumes "fs_held u b k d s" "t < u"
  shows "fs_held u b k d (snd (FS_Delete f t b' k' s))"
proof -
  obtain p obj where h: "FS_path b k = Inr p" "fs_data s p = Some d" "fs_meta s p = Some obj" "so_Locked obj"
      "u \<le> so_RetainUntil obj"
    using assms by (auto simp: fs_held_def)
  show ?thesis
  proof (cases "FS_path b' k' = Inr p")
    case True
    then have "FS_stat b' k' s = Inr obj" using h(3) by (simp add: FS_stat_def)
    then show ?thesis using True h assms by (auto simp: FS_Delete_def)
  next
    case False
    then show ?thesis using h assms
      by (cases "FS_path b' k'") (auto simp: FS_Delete_def fs_held_def split: sum.splits)
  qed
qed

interpretation fs: write_once FS_PutAt FS_Get FS_Delete fs_sound fs_held
proof unfold_locales
  fix s f t b k d opts assume "fs_sound s"
  then show "fs_sound (snd (FS_PutAt f t b k d opts s))" by (rule FS_PutAt_sound)
next
  fix s f t b k assume "fs_sound s"
  then show "fs_sound (snd (FS_Delete f t b k s))"
    by (auto simp: FS_Delete_def fs_sound_def split: sum.splits)
next
  fix u b k d s assume "fs_held u b k d s"
  then show "\<exists>obj. FS_Get b k s = Inr (d, obj)"
    by (auto simp: fs_held_def FS_Get_def split: sum.splits)
next
  fix s u b k d t f b' k' d' opts assume "fs_held u b k d s"
  then show "fs_held u b k d (snd (FS_PutAt f t b' k' d' opts s))" by (rule FS_PutAt_held)
next
  fix s u b k d t f b' k' assume "fs_held u b k d s" "t < u"
  then show "fs_held u b k d (snd (FS_Delete f t b' k' s))" by (rule FS_Delete_held)
next
  fix s f t b k d opts obj s'
  assume s: "fs_sound s" "FS_PutAt f t b k d opts s = (Inr obj, s')" "po_Lock opts"
  from s(2) show "\<exists>d'. fs_held (so_RetainUntil obj) b (so_Key obj) d' s' \<and> ContentOfBytes d' = ContentOfBytes d"
  proof (cases rule: FS_PutAt_cases)
    case same
    then obtain p where p: "FS_path b k = Inr p" "fs_meta s p = Some obj" "so_Locked obj" "so_Digest obj = ContentOfBytes d"
      by blast
    then obtain d' where "fs_data s p = Some d'" "so_Digest obj = ContentOfBytes d'" "FS_path (fst p) (so_Key obj) = Inr p"
      using fs_sound_locked [OF s(1) p(2,3)] by blast
    then show ?thesis using p same(1) FS_path_bucket [OF p(1)] by (auto simp: fs_held_def)
  next
    case (data p)
    then show ?thesis by simp
  next
    case (stored p obj')
    then show ?thesis using s(3) by (auto simp: fs_held_def)
  qed
qed

section \<open>The configured store\<close>

text \<open>\<^verbatim>\<open>Store\<close> is an interface: \<open>Open\<close> picks the adapter, the operations dispatch.\<close>

datatype object_store = PgStore "object_row list" | FsStore fs

type_synonym store_fault = "string option \<times> fs_fault option"

(*src internal/platform/objstore/open.go#Open*)
definition Open :: "string \<Rightarrow> object_row list \<Rightarrow> fs \<Rightarrow> object_store option" where
  "Open provider rows st = (if provider = ''db'' \<or> provider = ''postgres'' then Some (PgStore rows)
     else if provider = ''fs'' \<or> provider = '''' then Some (FsStore st) else None)"

fun store_PutAt ::
  "store_fault \<Rightarrow> time \<Rightarrow> string \<Rightarrow> string \<Rightarrow> string \<Rightarrow> PutOptions \<Rightarrow> object_store \<Rightarrow> Object result \<times> object_store" where
  "store_PutAt f t b k d opts (PgStore s) = apsnd PgStore (PG_PutAt (fst f) t b k d opts s)"
| "store_PutAt f t b k d opts (FsStore s) = apsnd FsStore (FS_PutAt (snd f) t b k d opts s)"

fun store_Get :: "string \<Rightarrow> string \<Rightarrow> object_store \<Rightarrow> (string \<times> Object) result" where
  "store_Get b k (PgStore s) = PG_Get b k s"
| "store_Get b k (FsStore s) = FS_Get b k s"

fun store_Delete :: "store_fault \<Rightarrow> time \<Rightarrow> string \<Rightarrow> string \<Rightarrow> object_store \<Rightarrow> go_error option \<times> object_store" where
  "store_Delete f t b k (PgStore s) = apsnd PgStore (PG_Delete (fst f) t b k s)"
| "store_Delete f t b k (FsStore s) = apsnd FsStore (FS_Delete (snd f) t b k s)"

fun store_sound :: "object_store \<Rightarrow> bool" where
  "store_sound (PgStore s) = pg_sound s"
| "store_sound (FsStore s) = fs_sound s"

fun store_held :: "time \<Rightarrow> string \<Rightarrow> string \<Rightarrow> string \<Rightarrow> object_store \<Rightarrow> bool" where
  "store_held u b k d (PgStore s) = pg_held u b k d s"
| "store_held u b k d (FsStore s) = fs_held u b k d s"

interpretation store: write_once store_PutAt store_Get store_Delete store_sound store_held
proof unfold_locales
  fix s f t b k d opts assume "store_sound s"
  then show "store_sound (snd (store_PutAt f t b k d opts s))"
    by (cases s) (simp_all add: pg.sound_put fs.sound_put)
next
  fix s f t b k assume "store_sound s"
  then show "store_sound (snd (store_Delete f t b k s))"
    by (cases s) (simp_all add: pg.sound_del fs.sound_del)
next
  fix u b k d s assume "store_held u b k d s"
  then show "\<exists>obj. store_Get b k s = Inr (d, obj)"
    by (cases s) (simp_all add: pg.held_get fs.held_get)
next
  fix s u b k d t f b' k' d' opts assume "store_sound s" "store_held u b k d s" "t < u"
  then show "store_held u b k d (snd (store_PutAt f t b' k' d' opts s))"
    by (cases s) (simp_all add: pg.held_put fs.held_put)
next
  fix s u b k d t f b' k' assume "store_sound s" "store_held u b k d s" "t < u"
  then show "store_held u b k d (snd (store_Delete f t b' k' s))"
    by (cases s) (simp_all add: pg.held_del fs.held_del)
next
  fix s f t b k d opts obj s'
  assume a: "store_sound s" "store_PutAt f t b k d opts s = (Inr obj, s')" "po_Lock opts"
  show "\<exists>d'. store_held (so_RetainUntil obj) b (so_Key obj) d' s' \<and> ContentOfBytes d' = ContentOfBytes d"
  proof (cases s)
    case (PgStore r)
    then obtain r' where r': "PG_PutAt (fst f) t b k d opts r = (Inr obj, r')" "s' = PgStore r'"
      using a(2) by (cases "PG_PutAt (fst f) t b k d opts r") auto
    then show ?thesis using pg.put_held [OF _ r'(1) a(3)] a(1) PgStore by simp
  next
    case (FsStore r)
    then obtain r' where r': "FS_PutAt (snd f) t b k d opts r = (Inr obj, r')" "s' = FsStore r'"
      using a(2) by (cases "FS_PutAt (snd f) t b k d opts r") auto
    then show ?thesis using fs.put_held [OF _ r'(1) a(3)] a(1) FsStore by simp
  qed
qed

section \<open>Properties\<close>

text \<open>Evidence in the database store is write-once. After a put under a lock has succeeded, any
  sequence of puts and deletes, of this or any other key, that runs before the retention date leaves
  the object readable, and reading it verifies against the digest of what was put.\<close>

theorem database_evidence_write_once:
  assumes "pg_sound rows" "PG_PutAt fault now bucket key data opts rows = (Inr obj, rows')" "po_Lock opts"
    and "\<forall>op \<in> set ops. op_time op < so_RetainUntil obj"
  shows "\<exists>data' obj'. GetVerified (PG_Get bucket (so_Key obj) (fold (run_op PG_PutAt PG_Delete) ops rows'))
      (ContentOfBytes data) = Inr (data', obj') \<and> ContentOfBytes data' = ContentOfBytes data"
  by (rule pg.locked_readable [OF assms])

text \<open>The same holds of the filesystem store, for a put under a lock that succeeded because the
  object was placed or because it was there already.\<close>

theorem filesystem_evidence_write_once:
  assumes "fs_sound st" "FS_PutAt fault clock bucket key data opts st = (Inr obj, st')" "po_Lock opts"
    and "\<forall>op \<in> set ops. op_time op < so_RetainUntil obj"
  shows "\<exists>data' obj'. GetVerified (FS_Get bucket (so_Key obj) (fold (run_op FS_PutAt FS_Delete) ops st'))
      (ContentOfBytes data) = Inr (data', obj') \<and> ContentOfBytes data' = ContentOfBytes data"
  by (rule fs.locked_readable [OF assms])

definition lock_opts :: PutOptions where
  "lock_opts = \<lparr>po_MediaType = '''', po_Metadata = [], po_Lock = True, po_RetainUntil = 100\<rparr>"

definition overwrite_ops :: "'f \<Rightarrow> 'f obj_op list" where
  "overwrite_ops f = [Op_put f 50 ''evidence'' ''a'' ''forged'' lock_opts, Op_delete f 60 ''evidence'' ''a'']"

lemma database_evidence_write_once_witness:
  "\<exists>data' obj'. GetVerified (PG_Get ''evidence'' ''a''
      (fold (run_op PG_PutAt PG_Delete) (overwrite_ops None) (snd (PG_PutAt None 1 ''evidence'' ''a'' ''doc'' lock_opts []))))
      (ContentOfBytes ''doc'') = Inr (data', obj')"
proof -
  obtain obj rows' where p: "PG_PutAt None 1 ''evidence'' ''a'' ''doc'' lock_opts [] = (Inr obj, rows')"
      "so_Key obj = ''a''" "so_RetainUntil obj = 100"
    by (simp add: PG_PutAt_def Let_def lock_opts_def upsert_object_def MaxObjectBytes_def)
  then have "\<forall>op \<in> set (overwrite_ops None). op_time op < so_RetainUntil obj"
    by (simp add: overwrite_ops_def)
  from database_evidence_write_once [OF _ p(1) _ this] p show ?thesis
    by (auto simp: pg_sound_def lock_opts_def)
qed

definition empty_fs :: fs where "empty_fs = \<lparr>fs_data = (\<lambda>_. None), fs_meta = (\<lambda>_. None)\<rparr>"

lemma path_a: "FS_path ''evidence'' ''a'' = Inr (''evidence'', ''/a'')"
  by (simp add: FS_path_def clean_rooted_def clean_parts_def HasPrefix_def)

lemma filesystem_evidence_write_once_witness:
  "\<exists>data' obj'. GetVerified (FS_Get ''evidence'' ''a''
      (fold (run_op FS_PutAt FS_Delete) (overwrite_ops None) (snd (FS_PutAt None 1 ''evidence'' ''a'' ''doc'' lock_opts empty_fs))))
      (ContentOfBytes ''doc'') = Inr (data', obj')"
proof -
  obtain obj st' where p: "FS_PutAt None 1 ''evidence'' ''a'' ''doc'' lock_opts empty_fs = (Inr obj, st')"
      "so_Key obj = ''a''" "so_RetainUntil obj = 100"
    by (simp add: FS_PutAt_def FS_stat_def path_a Let_def lock_opts_def empty_fs_def)
  then have "\<forall>op \<in> set (overwrite_ops None). op_time op < so_RetainUntil obj"
    by (simp add: overwrite_ops_def)
  from filesystem_evidence_write_once [OF _ p(1) _ this] p show ?thesis
    by (auto simp: fs_sound_def empty_fs_def lock_opts_def)
qed

end
