(* ===== verification/World.thy ===== *)
theory World
  imports Abac Tenancy TraceLink AuditLog Outbox Sql ObjStore
begin

text \<open>
  The database the services share, one component per table, and the environment of a call: the
  readings of the clock and the generated identifiers in the order of the calls, the database's
  \<^verbatim>\<open>now()\<close>, the request's correlation, the policy of the evaluator. The repositories read through
  connections of their own (\<^verbatim>\<open>db.ReadOnly\<close>), so what a read inside a transaction sees is a
  committed state that other transactions may since have overtaken: \<open>ev_read k\<close> is the state the
  \<open>k\<close>-th read of the call sees. \<open>ev_conn 0\<close> is the connection of the transaction, \<open>ev_conn (Suc k)\<close> that of the
  \<open>k\<close>-th read. \<open>ev_audit k\<close> and \<open>ev_event\<close> are what the statements of the \<open>k\<close>-th audit record and of the events
  run into. \<open>ev_fault k\<close> makes the \<open>k\<close>-th statement fail, \<open>ev_rfault k\<close> the \<open>k\<close>-th read: a lost connection, a
  timeout, or a value that does not have the type of its column. \<open>ev_fits\<close> is what the inline size
  constraint asks of a content (its size as \<^verbatim>\<open>jsonb\<close> is the server's). The writes of a
  transaction are one step on the current state, because the row versions they are conditioned on
  stay locked until it commits. The locale \<open>component\<close> is the contract under which a transaction on
  one component runs on the whole database.
\<close>

record world =
  w_tenants :: "Tenant list"
  w_projects :: "Project list"
  w_artifacts :: "Artifact list"
  w_versions :: "Version list"
  w_links :: "TraceLink list"
  w_audit :: audit_db
  w_outbox :: "outbox_row list"
  w_objects :: object_store

record env =
  ev_now :: "nat \<Rightarrow> time"
  ev_id :: "nat \<Rightarrow> string"
  ev_db :: time
  ev_corr :: Correlation
  ev_policy :: Policy
  ev_read :: "nat \<Rightarrow> world"
  ev_fits :: "string \<Rightarrow> bool"
  ev_fault :: "nat \<Rightarrow> sql_error option"
  ev_rfault :: "nat \<Rightarrow> sql_error option"
  ev_sfault :: "nat \<Rightarrow> store_fault"
  ev_ctx :: db_ctx
  ev_conn :: "nat \<Rightarrow> db_conn"
  ev_audit :: "nat \<Rightarrow> audit_faults"
  ev_event :: "Envelope \<Rightarrow> sql_error option"

type_synonym 'a wtx = "(go_error, world, 'a) tx"

section \<open>Transactions on one component\<close>

definition zoomT :: "('w \<Rightarrow> 's) \<Rightarrow> ('s \<Rightarrow> 'w \<Rightarrow> 'w) \<Rightarrow> ('e, 's, 'a) tx \<Rightarrow> ('e, 'w, 'a) tx" where
  "zoomT get put m = (\<lambda>w. case m (get w) of Inl e \<Rightarrow> Inl e | Inr (x, s') \<Rightarrow> Inr (x, put s' w))"

lemma zoomT_Inr [monad_inv]: "zoomT get put m w = Inr r \<longleftrightarrow> (\<exists>x s'. m (get w) = Inr (x, s') \<and> r = (x, put s' w))"
  by (auto simp: zoomT_def split: sum.splits)

locale component =
  fixes get :: "'w \<Rightarrow> 's" and put :: "'s \<Rightarrow> 'w \<Rightarrow> 'w"
  assumes get_put [simp]: "get (put s w) = s"
    and put_get [simp]: "put (get w) w = w"
    and put_put [simp]: "put s (put s' w) = put s w"
begin

abbreviation zoom :: "('e, 's, 'a) tx \<Rightarrow> ('e, 'w, 'a) tx" where "zoom \<equiv> zoomT get put"

lemma zoom_return: "zoom (returnT x) = returnT x"
  by (auto simp: zoomT_def returnT_def fun_eq_iff)

lemma zoom_bind: "zoom (bindT m f) = bindT (zoom m) (\<lambda>x. zoom (f x))"
  by (auto simp: zoomT_def bindT_def fun_eq_iff split: sum.splits prod.splits)

lemma zoom_keeps: "keepsT I m \<Longrightarrow> keepsT (\<lambda>w. I (get w)) (zoom m)"
  by (auto simp: keepsT_def zoomT_Inr)

text \<open>What does not depend on the component is not touched.\<close>

lemma zoom_frame:
  assumes "\<And>s w. f (put s w) = f w" "zoom m w = Inr (x, w')"
  shows "f w' = f w"
  using assms by (auto simp: zoomT_Inr)

end

definition put_tenants :: "Tenant list \<Rightarrow> world \<Rightarrow> world" where "put_tenants s w = w\<lparr>w_tenants := s\<rparr>"
definition put_projects :: "Project list \<Rightarrow> world \<Rightarrow> world" where "put_projects s w = w\<lparr>w_projects := s\<rparr>"
definition put_artifacts :: "Artifact list \<Rightarrow> world \<Rightarrow> world" where "put_artifacts s w = w\<lparr>w_artifacts := s\<rparr>"
definition put_versions :: "Version list \<Rightarrow> world \<Rightarrow> world" where "put_versions s w = w\<lparr>w_versions := s\<rparr>"
definition put_links :: "TraceLink list \<Rightarrow> world \<Rightarrow> world" where "put_links s w = w\<lparr>w_links := s\<rparr>"
definition put_audit :: "audit_db \<Rightarrow> world \<Rightarrow> world" where "put_audit s w = w\<lparr>w_audit := s\<rparr>"
definition put_outbox :: "outbox_row list \<Rightarrow> world \<Rightarrow> world" where "put_outbox s w = w\<lparr>w_outbox := s\<rparr>"

lemmas put_defs = put_tenants_def put_projects_def put_artifacts_def put_versions_def put_links_def
  put_audit_def put_outbox_def

interpretation ten: component w_tenants put_tenants by unfold_locales (simp_all add: put_defs)
interpretation pro: component w_projects put_projects by unfold_locales (simp_all add: put_defs)
interpretation artf: component w_artifacts put_artifacts by unfold_locales (simp_all add: put_defs)
interpretation vers: component w_versions put_versions by unfold_locales (simp_all add: put_defs)
interpretation lnk: component w_links put_links by unfold_locales (simp_all add: put_defs)
interpretation aud: component w_audit put_audit by unfold_locales (simp_all add: put_defs)
interpretation obx: component w_outbox put_outbox by unfold_locales (simp_all add: put_defs)

section \<open>Transactions and reads of a call\<close>

(*src internal/platform/db/db.go#DB.Tx*)
definition in_tx :: "env \<Rightarrow> TenantContext \<Rightarrow> 'a wtx \<Rightarrow> world \<Rightarrow> 'a result \<times> world" where
  "in_tx ev tc body = TxWith (ev_conn ev 0) default_options (WithTenant (ev_ctx ev) tc) (\<lambda>_. body)"

text \<open>A read-only transaction on the state the read sees.\<close>

(*src internal/platform/db/db.go#DB.ReadOnly*)
definition ReadOnly :: "env \<Rightarrow> TenantContext \<Rightarrow> nat \<Rightarrow> (world \<Rightarrow> 'a result) \<Rightarrow> 'a result" where
  "ReadOnly ev tc k q =
     fst (TxWith (ev_conn ev (Suc k)) read_options (WithTenant (ev_ctx ev) tc) (\<lambda>_. readT q) (ev_read ev k))"

definition scope :: "TenantID \<Rightarrow> ProjectID option \<Rightarrow> PrincipalID \<Rightarrow> TenantContext" where
  "scope t p who = \<lparr>tc_TenantID = t, tc_ProjectID = p, tc_PrincipalID = who, tc_IsolationMode = '''',
     tc_BreakGlass = False\<rparr>"

text \<open>The transaction of a call gets through on its connection, for its tenant or in the relay's session.\<close>

definition opens :: "env \<Rightarrow> nat \<Rightarrow> TenantContext \<Rightarrow> bool" where
  "opens ev k tc \<longleftrightarrow> (tc_TenantID tc \<noteq> '''' \<or> cx_relay (ev_ctx ev)) \<and> connected (ev_conn ev k) (WithTenant (ev_ctx ev) tc)"

lemma TxWith_opens: "TxWith (ev_conn ev k) opts (WithTenant (ev_ctx ev) tc) (\<lambda>_. body) s = (Inr x, s') \<longleftrightarrow>
    opens ev k tc \<and> body s = Inr (x, s')"
  by (auto simp: TxWith_Inr opens_def MustTenant_def TenantFrom_def WithTenant_def Empty_def isRelaySession_def)

lemma opens_healthy [simp]: "ev_conn ev k = healthy d \<Longrightarrow> tc_TenantID tc \<noteq> '''' \<Longrightarrow> opens ev k tc"
  by (simp add: opens_def)

lemma in_tx_Inr [monad_inv]: "in_tx ev tc body w = (Inr x, w') \<longleftrightarrow> opens ev 0 tc \<and> body w = Inr (x, w')"
  by (simp add: in_tx_def TxWith_opens)

lemma in_tx_Inl: "in_tx ev tc body w = (Inl e, w') \<Longrightarrow> w' = w"
  unfolding in_tx_def by (rule TxWith_Inl)

lemma ReadOnly_Inr [monad_inv]: "ReadOnly ev tc k q = Inr x \<longleftrightarrow> opens ev (Suc k) tc \<and> q (ev_read ev k) = Inr x"
proof -
  obtain r w where r: "TxWith (ev_conn ev (Suc k)) read_options (WithTenant (ev_ctx ev) tc) (\<lambda>_. readT q) (ev_read ev k) = (r, w)"
    by fastforce
  then show ?thesis using TxWith_opens [of ev "Suc k" read_options tc "readT q" "ev_read ev k" x]
    by (cases r) (auto simp: ReadOnly_def readT_Inr)
qed

section \<open>Records and events of a call\<close>

(*src internal/artifactgraph/app/service.go#auditActor*)
definition auditActor :: "Principal \<Rightarrow> Actor" where
  "auditActor p = \<lparr>ac_Kind = pr_Kind p, ac_PrincipalID = pr_ID p, ac_Display = pr_Display p,
     ac_Subject = pr_Subject p, ac_Issuer = pr_Issuer p,
     ac_OnBehalfOf = (case pr_OnBehalfOf p of Some q \<Rightarrow> q | None \<Rightarrow> ''''),
     ac_BreakGlass = pr_BreakGlass p, ac_IPHash = '''', ac_UserAgent = ''''\<rparr>"

text \<open>The attributes are added one after the other.\<close>

definition with_attrs :: "(string \<times> json) list \<Rightarrow> Record \<Rightarrow> Record" where
  "with_attrs attrs r = foldl (\<lambda>r (k, v). WithAttr k v r) r attrs"

text \<open>The counters of the chains refer to the table of tenants.\<close>

definition tenant_exists :: "world \<Rightarrow> TenantID \<Rightarrow> bool" where
  "tenant_exists w t \<longleftrightarrow> t \<in> t_ID ` set (w_tenants w)"

definition ensure_chain :: "env \<Rightarrow> nat \<Rightarrow> TenantID \<Rightarrow> unit wtx" where
  "ensure_chain ev k t = (\<lambda>w. zoomT w_audit put_audit (EnsureChain (ev_audit ev k) (tenant_exists w) t) w)"

definition audit_append :: "env \<Rightarrow> nat \<Rightarrow> Record \<Rightarrow> unit wtx" where
  "audit_append ev k r = (\<lambda>w.
     bindT (zoomT w_audit put_audit (Audit_Append (ev_audit ev k) (tenant_exists w) (ev_id ev k) (ev_now ev k) r)) (\<lambda>_. returnT ()) w)"

definition outbox_append :: "env \<Rightarrow> Envelope \<Rightarrow> unit wtx" where
  "outbox_append ev e = zoomT w_outbox put_outbox (Outbox_Append (ev_event ev) (ev_db ev) [e])"

text \<open>\<^verbatim>\<open>outbox.New\<close> followed by \<^verbatim>\<open>Append\<close>, the error of the first wrapped by the caller.\<close>

definition emit_event ::
  "env \<Rightarrow> nat \<Rightarrow> string \<Rightarrow> TenantID \<Rightarrow> ProjectID option \<Rightarrow> Aggregate \<Rightarrow> OutboxActor \<Rightarrow> json \<Rightarrow> (go_error \<Rightarrow> go_error) \<Rightarrow>
   unit wtx" where
  "emit_event ev k ty t p agg actor payload wrap =
     (case NewEnvelope (ev_id ev k) (ev_now ev k) ty t p agg actor (ev_corr ev) payload of
        Inl err \<Rightarrow> failT (wrap err)
      | Inr e \<Rightarrow> outbox_append ev e)"

section \<open>What a call records\<close>

text \<open>Everything but the audit log and the outbox.\<close>

definition tables :: "world \<Rightarrow> Tenant list \<times> Project list \<times> Artifact list \<times> Version list \<times> TraceLink list" where
  "tables w = (w_tenants w, w_projects w, w_artifacts w, w_versions w, w_links w)"

lemma tables_put [simp]: "tables (put_audit s w) = tables w" "tables (put_outbox r w) = tables w"
    "w_outbox (put_audit s w) = w_outbox w" "w_audit (put_outbox r w) = w_audit w"
    "w_audit (put_audit s w) = s" "w_outbox (put_outbox r w) = r"
  by (simp_all add: tables_def put_audit_def put_outbox_def)

lemma tables_eq: "tables w = tables w' \<longleftrightarrow> w_tenants w = w_tenants w' \<and> w_projects w = w_projects w' \<and>
    w_artifacts w = w_artifacts w' \<and> w_versions w = w_versions w' \<and> w_links w = w_links w'"
  by (auto simp: tables_def)

lemma audit_append_frame:
  "audit_append ev k r w = Inr (u, w') \<Longrightarrow> tables w' = tables w \<and> w_outbox w' = w_outbox w"
  by (auto simp: audit_append_def monad_inv)

lemma outbox_append_frame:
  "outbox_append ev e w = Inr (u, w') \<Longrightarrow> tables w' = tables w \<and> w_audit w' = w_audit w"
  by (auto simp: outbox_append_def monad_inv)

lemma emit_event_frame:
  "emit_event ev k ty t p agg actor payload wrap w = Inr (u, w') \<Longrightarrow> tables w' = tables w \<and> w_audit w' = w_audit w"
  by (auto simp: emit_event_def outbox_append_frame monad_inv split: sum.splits)

lemma Outbox_Append_rows: "Outbox_Append fault t es rows = Inr (u, rows') \<Longrightarrow>
   map ob_event rows' = map ob_event rows @ es"
  by (induction es arbitrary: rows) (auto simp: monad_inv insert_event_def split: if_splits)

lemma NewEnvelope_fields: "NewEnvelope n clock ty t p agg actor corr payload = Inr e \<Longrightarrow>
    e_EventType e = ty \<and> e_TenantID e = t \<and> e_ProjectID e = p \<and> e_Aggregate e = agg \<and> e_Actor e = actor"
  by (auto simp: NewEnvelope_def split: sum.splits)

lemma emit_event_rows:
  assumes "emit_event ev k ty t p agg actor payload wrap w = Inr (u, w')"
  shows "\<exists>e. e_EventType e = ty \<and> e_TenantID e = t \<and> e_ProjectID e = p \<and> e_Aggregate e = agg \<and>
     map ob_event (w_outbox w') = map ob_event (w_outbox w) @ [e]"
proof -
  from assms obtain e rows' where e: "NewEnvelope (ev_id ev k) (ev_now ev k) ty t p agg actor (ev_corr ev) payload = Inr e"
      "Outbox_Append (ev_event ev) (ev_db ev) [e] (w_outbox w) = Inr ((), rows')" "w' = put_outbox rows' w"
    by (auto simp: emit_event_def outbox_append_def monad_inv split: sum.splits)
  show ?thesis using NewEnvelope_fields [OF e(1)] Outbox_Append_rows [OF e(2)] e(3) by auto
qed

end
