(* ===== verification/TenancyRepo.thy ===== *)
theory TenancyRepo
  imports Tenancy Sql
begin

text \<open>
  The tenancy repositories, \<^verbatim>\<open>internal/tenancy/infra\<close>, on the tables \<^verbatim>\<open>tenants\<close> and \<^verbatim>\<open>projects\<close>
  with the constraints of the first migration. The settings column is taken to return the value that
  was stored.
\<close>

text \<open>\<^verbatim>\<open>length(text)\<close> counts characters: the bytes that do not continue a UTF-8 sequence.\<close>

definition char_length :: "string \<Rightarrow> nat" where
  "char_length s = length (filter (\<lambda>c. \<not> (128 \<le> (of_char c :: nat) \<and> (of_char c :: nat) < 192)) s)"

section \<open>Tenants\<close>

definition tenant_statuses :: "State list" where
  "tenant_statuses = [TenantProvisioning, TenantActive, TenantSuspended, TenantDeprovisioning, TenantPurged, TenantFailed]"

(*src migrations/0001_platform_foundation.sql:54-69#tenants*)
definition tenant_checks :: "Tenant \<Rightarrow> sql_error option" where
  "tenant_checks t = first_error
     [check_constraint ''tenants_isolation_mode_check'' (IsolationMode_Valid (t_IsolationMode t)),
      check_constraint ''tenants_name_check'' (1 \<le> char_length (t_Name t) \<and> char_length (t_Name t) \<le> 200),
      check_constraint ''tenants_slug_check'' (slugRE (t_Slug t)),
      check_constraint ''tenants_status_check'' (t_Status t \<in> set tenant_statuses)]"

definition tenant_uniques :: "Tenant list \<Rightarrow> sql_error option" where
  "tenant_uniques rows = first_error
     [unique_index ''tenants_pkey'' (\<lambda>_. True) t_ID rows, unique_index ''tenants_slug_key'' (\<lambda>_. True) t_Slug rows]"

(*src internal/tenancy/infra/postgres.go#TenantRepo.Create*)
definition TenantRepo_Create :: "sql_error option \<Rightarrow> Tenant \<Rightarrow> (go_error, Tenant list, unit) tx" where
  "TenantRepo_Create fault t = insertT fault
     (\<lambda>err. if IsUniqueViolation err then Conflict ''tenancy.CreateTenant'' ''tenant.slug_taken''
        else Wrap (driver_error err) ''tenancy.CreateTenant'' KindUnavailable ''tenant.create_failed'')
     (insert_row tenant_checks tenant_uniques (\<lambda>_. None) t)"

(*src internal/tenancy/infra/postgres.go:98-101#TenantRepo.Update*)
definition set_tenant :: "time \<Rightarrow> Tenant \<Rightarrow> Tenant \<Rightarrow> Tenant" where
  "set_tenant now x r = r\<lparr>t_Name := t_Name x, t_Status := t_Status x, t_StatusReason := t_StatusReason x,
     t_Region := t_Region x, t_Settings := t_Settings x, t_UpdatedAt := now, t_Version := t_Version r + 1\<rparr>"

(*src internal/tenancy/infra/postgres.go#TenantRepo.Update*)
definition TenantRepo_Update :: "sql_error option \<Rightarrow> time \<Rightarrow> Tenant \<Rightarrow> (go_error, Tenant list, Tenant) tx" where
  "TenantRepo_Update fault now t = bindT
     (updateT fault (\<lambda>err. Wrap (driver_error err) ''tenancy.UpdateTenant'' KindUnavailable ''tenant.update_failed'')
       (Conflict ''tenancy.UpdateTenant'' ''concurrency.stale_version'')
       (update_versioned t_ID t_Version (set_tenant now t) (\<lambda>_. tenant_checks) tenant_uniques t))
     (\<lambda>_. returnT (t\<lparr>t_Version := t_Version t + 1\<rparr>))"

(*src internal/tenancy/infra/postgres.go#TenantRepo.GetByID*)
definition TenantRepo_GetByID :: "sql_error option \<Rightarrow> TenantID \<Rightarrow> Tenant list \<Rightarrow> Tenant result" where
  "TenantRepo_GetByID fault tid rows = row_result
     (\<lambda>err. if IsNoRows err then NotFound ''tenancy.GetTenant'' ''tenant.not_found''
        else Wrap (driver_error err) ''tenancy.GetTenant'' KindUnavailable ''tenant.read_failed'')
     (query_row fault (\<lambda>t. t_ID t = tid) rows)"

(*src internal/tenancy/infra/postgres.go#TenantRepo.GetBySlug*)
definition TenantRepo_GetBySlug :: "sql_error option \<Rightarrow> string \<Rightarrow> Tenant list \<Rightarrow> Tenant result" where
  "TenantRepo_GetBySlug fault slug rows = row_result
     (\<lambda>err. if IsNoRows err then NotFound ''tenancy.GetTenantBySlug'' ''tenant.not_found''
        else Wrap (driver_error err) ''tenancy.GetTenantBySlug'' KindUnavailable ''tenant.read_failed'')
     (query_row fault (\<lambda>t. t_Slug t = ToLower slug) rows)"

interpretation tenants: versioned_table t_ID t_Version set_tenant
  by unfold_locales (simp_all add: set_tenant_def)

section \<open>Projects\<close>

definition project_key :: "Project \<Rightarrow> TenantID \<times> ProjectID" where "project_key p = (pj_TenantID p, pj_ID p)"

(*src migrations/0001_platform_foundation.sql:77-96#projects*)
definition project_checks :: "Project \<Rightarrow> sql_error option" where
  "project_checks p = first_error
     [check_constraint ''projects_key_check'' (projectKeyRE (pj_Key p)),
      check_constraint ''projects_name_check'' (1 \<le> char_length (pj_Name p) \<and> char_length (pj_Name p) \<le> 200),
      check_constraint ''projects_pdlc_phase_check'' (PDLCPhase_Valid (pj_Phase p)),
      check_constraint ''projects_status_check'' (pj_Status p \<in> {ProjectActive, ProjectArchived, ProjectPurged})]"

definition project_uniques :: "Project list \<Rightarrow> sql_error option" where
  "project_uniques rows = first_error
     [unique_index ''projects_pkey'' (\<lambda>_. True) project_key rows,
      unique_index ''projects_tenant_key'' (\<lambda>_. True) (\<lambda>p. (pj_TenantID p, pj_Key p)) rows]"

(*src internal/tenancy/infra/postgres.go#ProjectRepo.Create*)
definition ProjectRepo_Create ::
  "sql_error option \<Rightarrow> (TenantID \<Rightarrow> bool) \<Rightarrow> Project \<Rightarrow> (go_error, Project list, unit) tx" where
  "ProjectRepo_Create fault tenant_exists p = insertT fault
     (\<lambda>err. if IsUniqueViolation err then Conflict ''tenancy.CreateProject'' ''project.key_taken''
        else Wrap (driver_error err) ''tenancy.CreateProject'' KindUnavailable ''project.create_failed'')
     (insert_row project_checks project_uniques
       (\<lambda>p. foreign_key ''projects_tenant_id_fkey'' (tenant_exists (pj_TenantID p))) p)"

(*src internal/tenancy/infra/postgres.go:318-321#ProjectRepo.Update*)
definition set_project :: "time \<Rightarrow> Project \<Rightarrow> Project \<Rightarrow> Project" where
  "set_project now x r = r\<lparr>pj_Name := pj_Name x, pj_Description := pj_Description x, pj_Status := pj_Status x,
     pj_Phase := pj_Phase x, pj_Settings := pj_Settings x, pj_UpdatedAt := now, pj_Version := pj_Version r + 1\<rparr>"

(*src internal/tenancy/infra/postgres.go#ProjectRepo.Update*)
definition ProjectRepo_Update :: "sql_error option \<Rightarrow> time \<Rightarrow> Project \<Rightarrow> (go_error, Project list, Project) tx" where
  "ProjectRepo_Update fault now p = bindT
     (updateT fault (\<lambda>err. Wrap (driver_error err) ''tenancy.UpdateProject'' KindUnavailable ''project.update_failed'')
       (Conflict ''tenancy.UpdateProject'' ''concurrency.stale_version'')
       (update_versioned project_key pj_Version (set_project now p) (\<lambda>_. project_checks) project_uniques p))
     (\<lambda>_. returnT (p\<lparr>pj_Version := pj_Version p + 1\<rparr>))"

(*src internal/tenancy/infra/postgres.go#ProjectRepo.GetByID*)
definition ProjectRepo_GetByID :: "sql_error option \<Rightarrow> TenantID \<Rightarrow> ProjectID \<Rightarrow> Project list \<Rightarrow> Project result" where
  "ProjectRepo_GetByID fault tid pid rows = row_result
     (\<lambda>err. if IsNoRows err then NotFound ''tenancy.GetProject'' ''project.not_found''
        else Wrap (driver_error err) ''tenancy.GetProject'' KindUnavailable ''project.read_failed'')
     (query_row fault (\<lambda>p. project_key p = (tid, pid)) rows)"

(*src internal/tenancy/infra/postgres.go#ProjectRepo.GetByKey*)
definition ProjectRepo_GetByKey :: "sql_error option \<Rightarrow> TenantID \<Rightarrow> string \<Rightarrow> Project list \<Rightarrow> Project result" where
  "ProjectRepo_GetByKey fault tid key rows = row_result
     (\<lambda>err. if IsNoRows err then NotFound ''tenancy.GetProjectByKey'' ''project.not_found''
        else Wrap (driver_error err) ''tenancy.GetProjectByKey'' KindUnavailable ''project.read_failed'')
     (query_row fault (\<lambda>p. pj_TenantID p = tid \<and> pj_Key p = ToUpper key) rows)"

text \<open>The graph version counts changes to the graph of a project; it is not a row version, and the
  statement does not look at one. \<^verbatim>\<open>RETURNING\<close> yields no row when there is no such project.\<close>

(*src internal/tenancy/infra/postgres.go#ProjectRepo.BumpGraphVersion*)
definition BumpGraphVersion ::
  "sql_error option \<Rightarrow> time \<Rightarrow> TenantID \<Rightarrow> ProjectID \<Rightarrow> (go_error, Project list, int) tx" where
  "BumpGraphVersion fault now tid pid = execT fault
     (\<lambda>err. Wrap (driver_error err) ''tenancy.BumpGraphVersion'' KindUnavailable ''project.graph_version_failed'')
     (\<lambda>rows. case find (\<lambda>p. project_key p = (tid, pid)) rows of
          None \<Rightarrow> Inl NoRows
        | Some p \<Rightarrow> Inr (pj_GraphVersion p + 1, map (\<lambda>p. if project_key p = (tid, pid)
            then p\<lparr>pj_GraphVersion := pj_GraphVersion p + 1, pj_UpdatedAt := now\<rparr> else p) rows))"

interpretation projects: versioned_table project_key pj_Version set_project
  by unfold_locales (simp_all add: set_project_def project_key_def)

end
