(* ===== verification/TenancyService.thy ===== *)
theory TenancyService
  imports World TenancyRepo
begin

text \<open>
  The tenancy use cases, \<^verbatim>\<open>internal/tenancy/app\<close>: creating tenants and projects, their lifecycle
  and a tenant's settings. Every write is one transaction that changes the row, appends one audit
  record and one outbox event, or leaves the database as it was.
\<close>

definition systemPrincipal :: PrincipalID where "systemPrincipal = ''00000000-0000-4000-8000-000000000001''"

(*src internal/tenancy/app/helpers.go#actorOf*)
definition actorOf :: "Principal \<Rightarrow> Actor" where "actorOf p = auditActor p"

(*src internal/tenancy/app/helpers.go#outboxActor*)
definition outboxActor :: "Principal \<Rightarrow> OutboxActor" where
  "outboxActor p = \<lparr>oa_Kind = pr_Kind p, oa_PrincipalID = pr_ID p, oa_Display = pr_Display p,
     oa_OnBehalfOf = (case pr_OnBehalfOf p of Some q \<Rightarrow> q | None \<Rightarrow> '''')\<rparr>"

(*src internal/tenancy/app/helpers.go#severityFor*)
definition severityFor :: "State \<Rightarrow> Severity" where
  "severityFor to = (if to = TenantSuspended \<or> to = TenantDeprovisioning then SeverityWarning
     else if to = TenantPurged \<or> to = TenantFailed then SeverityCritical else SeverityNotice)"

(*src internal/tenancy/app/helpers.go#sameStrings*)
definition sameStrings :: "string list \<Rightarrow> string list \<Rightarrow> bool" where
  "sameStrings a b \<longleftrightarrow> length a = length b \<and> sort a = sort b"

text \<open>\<^verbatim>\<open>!=\<close> on the threshold compares doubles: the two zeros are equal.\<close>

(*src internal/tenancy/app/helpers.go#changedSettingKeys*)
definition changedSettingKeys :: "Settings \<Rightarrow> Settings \<Rightarrow> string list" where
  "changedSettingKeys before after = (let add = (\<lambda>k changed. if changed then [k] else []) in
     sort (add ''four_eyes'' (st_FourEyes before \<noteq> st_FourEyes after) @
       add ''architect_can_approve_prd'' (st_ArchitectCanApprovePRD before \<noteq> st_ArchitectCanApprovePRD after) @
       add ''step_up_max_age'' (st_StepUpMaxAge before \<noteq> st_StepUpMaxAge after) @
       add ''evidence_retention'' (st_EvidenceRetention before \<noteq> st_EvidenceRetention after) @
       add ''link_auto_accept_threshold'' (f64_units (st_LinkAutoAcceptMin before) \<noteq> f64_units (st_LinkAutoAcceptMin after)) @
       add ''max_proposals_per_sweep'' (st_MaxProposalsPerSweep before \<noteq> st_MaxProposalsPerSweep after) @
       add ''max_exception_days'' (st_MaxExceptionDays before \<noteq> st_MaxExceptionDays after) @
       add ''data_residency'' (st_DataResidency before \<noteq> st_DataResidency after) @
       add ''guardrail_chain'' (st_GuardrailChain before \<noteq> st_GuardrailChain after) @
       add ''monthly_token_budget'' (st_MonthlyTokenBudget before \<noteq> st_MonthlyTokenBudget after) @
       add ''policy_set'' (st_PolicySet before \<noteq> st_PolicySet after) @
       add ''allowed_ai_providers'' (\<not> sameStrings (st_AllowedAIProviders before) (st_AllowedAIProviders after))))"

definition tenant_resource :: "TenantID \<Rightarrow> Resource" where
  "tenant_resource t = \<lparr>res_Type = ''tenant'', res_ID = t, res_TenantID = t, res_ProjectID = '''', res_CreatedBy = '''',
     res_Contributors = [], res_RequestedBy = '''', res_ArtifactType = '''', res_Attributes = (\<lambda>_. None)\<rparr>"

definition project_resource :: "TenantID \<Rightarrow> ProjectID \<Rightarrow> Resource" where
  "project_resource t p = (tenant_resource t)\<lparr>res_Type := ''project'', res_ID := p, res_ProjectID := p\<rparr>"

text \<open>The permission check a transition is fired with.\<close>

(*src internal/tenancy/app/service.go:200-208#Service.transitionTenant*)
definition transition_check :: "string \<Rightarrow> env \<Rightarrow> Principal \<Rightarrow> Resource \<Rightarrow> string \<Rightarrow> go_error option" where
  "transition_check op ev actor res permission = (case ParsePermission permission of
       Inl _ \<Rightarrow> Some (Internal op ''authz.unknown_permission'')
     | Inr p \<Rightarrow> Require (ev_policy ev) (ev_now ev 0) actor p res)"

definition tenant_target :: "string \<Rightarrow> TenantID \<Rightarrow> Target" where
  "tenant_target ty t = \<lparr>tg_Type = ty, tg_ID = t, tg_Version = 0, tg_ProjectID = '''', tg_ContentHash = ''''\<rparr>"

definition project_target :: "ProjectID \<Rightarrow> Target" where
  "project_target p = \<lparr>tg_Type = ''Project'', tg_ID = p, tg_Version = 0, tg_ProjectID = p, tg_ContentHash = ''''\<rparr>"

definition wrap_event :: "string \<Rightarrow> string \<Rightarrow> go_error \<Rightarrow> go_error" where
  "wrap_event op code err = Wrap err op KindInternal code"

section \<open>Tenants\<close>

(*src internal/tenancy/app/service.go#CreateTenantInput*)
record CreateTenantInput =
  ct_Slug :: string
  ct_Name :: string
  ct_IsolationMode :: IsolationMode
  ct_Region :: string

(*src internal/tenancy/app/service.go#Service.CreateTenant*)
definition CreateTenant :: "env \<Rightarrow> CreateTenantInput \<Rightarrow> Principal \<Rightarrow> world \<Rightarrow> Tenant result \<times> world" where
  "CreateTenant ev inp actor w = (let op = ''tenancy.CreateTenant''; tenantID = ev_id ev 0 in
     case NewTenant (ev_now ev 0) tenantID (ct_Slug inp) (ct_Name inp) (ct_IsolationMode inp) (ct_Region inp) (pr_ID actor) of
       Inl err \<Rightarrow> (Inl err, w)
     | Inr tenant \<Rightarrow> in_tx ev ((scope tenantID None (pr_ID actor))\<lparr>tc_IsolationMode := ct_IsolationMode inp\<rparr>)
         (bindT (zoomT w_tenants put_tenants (TenantRepo_Create (ev_fault ev 0) tenant)) (\<lambda>_.
          bindT (ensure_chain ev 1 tenantID) (\<lambda>_.
          bindT (audit_append ev 1 (with_attrs
              [(''slug'', JString (t_Slug tenant)), (''isolation_mode'', JString (t_IsolationMode tenant)),
               (''region'', JString (t_Region tenant))]
              (NewRecord (ev_now ev 1) tenantID None ''tenant.create'' OutcomeSuccess SeverityNotice (actorOf actor)
                (tenant_target ''Tenant'' tenantID)))) (\<lambda>_.
          bindT (emit_event ev 2 ''tenant.created'' tenantID None \<lparr>ag_Type = ''Tenant'', ag_ID = tenantID, ag_Version = 0\<rparr>
              (outboxActor actor)
              (JObject [(''tenant_id'', JString tenantID), (''slug'', JString (t_Slug tenant)), (''name'', JString (t_Name tenant)),
                 (''isolation_mode'', JString (t_IsolationMode tenant)), (''region'', JString (t_Region tenant))])
              (wrap_event op ''tenant.event_failed'')) (\<lambda>_.
          returnT tenant))))) w)"

(*src internal/tenancy/app/service.go#Service.transitionTenant*)
definition transitionTenant ::
  "env \<Rightarrow> TenantID \<Rightarrow> Event \<Rightarrow> string \<Rightarrow> Principal \<Rightarrow> world \<Rightarrow> Tenant result \<times> world" where
  "transitionTenant ev tenantID event reason actor = (let op = ''tenancy.transitionTenant'' in
     in_tx ev (scope tenantID None (pr_ID actor))
       (bindT (liftT (TenantRepo_GetByID (ev_rfault ev 0) tenantID (w_tenants (ev_read ev 0)))) (\<lambda>t0.
        let t1 = (if reason \<noteq> '''' then t0\<lparr>t_StatusReason := reason\<rparr> else t0);
            check = (if pr_Kind actor = KindSystem then None
              else Some (transition_check op ev actor (tenant_resource tenantID)))
        in case Fire tenant_machine (t_Status t1) event t1 check of
             (Inl err, _) \<Rightarrow> failT err
           | (Inr out, t2) \<Rightarrow>
               let t3 = t2\<lparr>t_Status := out_To out, t_UpdatedAt := Now (ev_now ev 1)\<rparr> in
               bindT (zoomT w_tenants put_tenants (TenantRepo_Update (ev_fault ev 0) (ev_db ev) t3)) (\<lambda>t4.
               bindT (audit_append ev 2 (with_attrs
                   [(''from'', JString (out_From out)), (''to'', JString (out_To out)), (''reason'', JString reason)]
                   (NewRecord (ev_now ev 2) tenantID None (out_AuditAction out) OutcomeSuccess (severityFor (out_To out))
                     (actorOf actor) (tenant_target ''Tenant'' tenantID)))) (\<lambda>_.
               bindT (emit_event ev 3 (out_EmitEvent out) tenantID None \<lparr>ag_Type = ''Tenant'', ag_ID = tenantID, ag_Version = 0\<rparr>
                   (outboxActor actor)
                   (JObject [(''tenant_id'', JString tenantID), (''from'', JString (out_From out)),
                      (''to'', JString (out_To out)), (''reason'', JString reason)])
                   (wrap_event op ''tenant.event_failed'')) (\<lambda>_.
               returnT t4))))))"

definition system_principal :: "TenantID \<Rightarrow> Principal" where
  "system_principal t = \<lparr>pr_ID = systemPrincipal, pr_Kind = KindSystem, pr_TenantID = t, pr_Subject = '''', pr_Issuer = '''',
     pr_Display = '''', pr_Email = '''', pr_Grants = [], pr_Permissions = NewSet [], pr_AuthTime = 0, pr_AMR = [],
     pr_BreakGlass = False, pr_OnBehalfOf = None, pr_DesignAuthority = False\<rparr>"

(*src internal/tenancy/app/service.go#Service.MarkProvisioned*)
definition MarkProvisioned :: "env \<Rightarrow> TenantID \<Rightarrow> world \<Rightarrow> Tenant result \<times> world" where
  "MarkProvisioned ev t = transitionTenant ev t EventProvisioned '''' (system_principal t)"
(*src internal/tenancy/app/service.go#Service.MarkProvisionFailed*)
definition MarkProvisionFailed :: "env \<Rightarrow> TenantID \<Rightarrow> string \<Rightarrow> world \<Rightarrow> Tenant result \<times> world" where
  "MarkProvisionFailed ev t reason = transitionTenant ev t EventProvisionFailed reason (system_principal t)"
(*src internal/tenancy/app/service.go#Service.Suspend*)
definition Suspend :: "env \<Rightarrow> TenantID \<Rightarrow> string \<Rightarrow> Principal \<Rightarrow> world \<Rightarrow> Tenant result \<times> world" where
  "Suspend ev t reason actor = transitionTenant ev t EventSuspend reason actor"
(*src internal/tenancy/app/service.go#Service.Reinstate*)
definition Reinstate :: "env \<Rightarrow> TenantID \<Rightarrow> Principal \<Rightarrow> world \<Rightarrow> Tenant result \<times> world" where
  "Reinstate ev t actor = transitionTenant ev t EventReinstate '''' actor"
(*src internal/tenancy/app/service.go#Service.RequestDeletion*)
definition RequestDeletion :: "env \<Rightarrow> TenantID \<Rightarrow> string \<Rightarrow> Principal \<Rightarrow> world \<Rightarrow> Tenant result \<times> world" where
  "RequestDeletion ev t reason actor = transitionTenant ev t EventRequestDeletion reason actor"

(*src internal/tenancy/app/service.go#Service.UpdateSettings*)
definition UpdateSettings :: "env \<Rightarrow> TenantID \<Rightarrow> Settings \<Rightarrow> Principal \<Rightarrow> world \<Rightarrow> Tenant result \<times> world" where
  "UpdateSettings ev tenantID settings actor w = (let op = ''tenancy.UpdateSettings'' in
     case Require (ev_policy ev) (ev_now ev 0) actor TenantUpdate (tenant_resource tenantID) of
       Some err \<Rightarrow> (Inl err, w)
     | None \<Rightarrow> in_tx ev (scope tenantID None (pr_ID actor))
         (bindT (liftT (TenantRepo_GetByID (ev_rfault ev 0) tenantID (w_tenants (ev_read ev 0)))) (\<lambda>t0.
          case Tenant_UpdateSettings (ev_now ev 1) t0 settings of
            (Some err, _) \<Rightarrow> failT err
          | (None, t1) \<Rightarrow>
              let keys = JArray (map JString (changedSettingKeys (t_Settings t0) settings)) in
              bindT (zoomT w_tenants put_tenants (TenantRepo_Update (ev_fault ev 0) (ev_db ev) t1)) (\<lambda>t2.
              bindT (audit_append ev 2 (with_attrs [(''changed_keys'', keys)]
                  (NewRecord (ev_now ev 2) tenantID None ''tenant.settings.update'' OutcomeSuccess SeverityNotice
                    (actorOf actor) (tenant_target ''TenantSettings'' tenantID)))) (\<lambda>_.
              bindT (emit_event ev 3 ''tenant.settings.updated'' tenantID None
                  \<lparr>ag_Type = ''Tenant'', ag_ID = tenantID, ag_Version = 0\<rparr> (outboxActor actor)
                  (JObject [(''tenant_id'', JString tenantID), (''changed_keys'', keys)])
                  (wrap_event op ''tenant.event_failed'')) (\<lambda>_.
              returnT t2))))) w)"

(*src internal/tenancy/app/service.go#Service.GetTenant*)
definition GetTenant :: "env \<Rightarrow> TenantID \<Rightarrow> Principal \<Rightarrow> Tenant result" where
  "GetTenant ev tenantID actor = failR (Require (ev_policy ev) (ev_now ev 0) actor TenantRead (tenant_resource tenantID))
     (TenantRepo_GetByID (ev_rfault ev 0) tenantID (w_tenants (ev_read ev 0)))"

section \<open>Projects\<close>

(*src internal/tenancy/app/service.go#CreateProjectInput*)
record CreateProjectInput =
  cp_TenantID :: TenantID
  cp_Key :: string
  cp_Name :: string
  cp_Description :: string

(*src internal/tenancy/app/service.go#Service.CreateProject*)
definition CreateProject :: "env \<Rightarrow> CreateProjectInput \<Rightarrow> Principal \<Rightarrow> world \<Rightarrow> Project result \<times> world" where
  "CreateProject ev inp actor w = (let op = ''tenancy.CreateProject''; t = cp_TenantID inp in
     case Require (ev_policy ev) (ev_now ev 0) actor ProjectCreate ((tenant_resource t)\<lparr>res_Type := ''project'', res_ID := ''''\<rparr>) of
       Some err \<Rightarrow> (Inl err, w)
     | None \<Rightarrow> (case TenantRepo_GetByID (ev_rfault ev 0) t (w_tenants (ev_read ev 0)) of
         Inl err \<Rightarrow> (Inl err, w)
       | Inr tenant \<Rightarrow>
           if \<not> Tenant_AcceptsWrites tenant then (Inl (Precondition op ''tenant.not_active''), w)
           else let p = ev_id ev 0 in
             case NewProject (ev_now ev 1) t p (cp_Key inp) (cp_Name inp) (cp_Description inp) (pr_ID actor) of
               Inl err \<Rightarrow> (Inl err, w)
             | Inr project \<Rightarrow> in_tx ev (scope t None (pr_ID actor))
                 (bindT (\<lambda>w. zoomT w_projects put_projects (ProjectRepo_Create (ev_fault ev 0)
                      (\<lambda>t. list_ex (\<lambda>x. t_ID x = t) (w_tenants w)) project) w) (\<lambda>_.
                  bindT (audit_append ev 2 (with_attrs
                      [(''key'', JString (pj_Key project)), (''name'', JString (pj_Name project))]
                      (NewRecord (ev_now ev 2) t (Some p) ''project.create'' OutcomeSuccess SeverityNotice (actorOf actor)
                        (project_target p)))) (\<lambda>_.
                  bindT (emit_event ev 3 ''project.created'' t (Some p) \<lparr>ag_Type = ''Project'', ag_ID = p, ag_Version = 0\<rparr>
                      (outboxActor actor)
                      (JObject [(''tenant_id'', JString t), (''project_id'', JString p), (''key'', JString (pj_Key project)),
                         (''name'', JString (pj_Name project)), (''phase'', JString (pj_Phase project))])
                      (wrap_event op ''project.event_failed'')) (\<lambda>_.
                  returnT project)))) w))"

(*src internal/tenancy/app/service.go#Service.GetProject*)
definition GetProject :: "env \<Rightarrow> TenantID \<Rightarrow> ProjectID \<Rightarrow> Principal \<Rightarrow> Project result" where
  "GetProject ev t p actor = failR (Require (ev_policy ev) (ev_now ev 0) actor ProjectRead (project_resource t p))
     (ReadOnly ev (scope t None (pr_ID actor)) 0 (\<lambda>w. ProjectRepo_GetByID (ev_rfault ev 0) t p (w_projects w)))"

(*src internal/tenancy/app/service.go#Service.transitionProject*)
definition transitionProject :: "env \<Rightarrow> TenantID \<Rightarrow> ProjectID \<Rightarrow> Event \<Rightarrow> Principal \<Rightarrow> world \<Rightarrow> Project result \<times> world" where
  "transitionProject ev t p event actor = (let op = ''tenancy.transitionProject''; sc = scope t None (pr_ID actor) in
     in_tx ev sc
       (bindT (liftT (ReadOnly ev sc 0 (\<lambda>w. ProjectRepo_GetByID (ev_rfault ev 0) t p (w_projects w)))) (\<lambda>p0.
        case Fire project_machine (pj_Status p0) event p0
            (Some (transition_check op ev actor ((project_resource t p)\<lparr>res_CreatedBy := pj_CreatedBy p0\<rparr>))) of
          (Inl err, _) \<Rightarrow> failT err
        | (Inr out, p1) \<Rightarrow>
            let p2 = p1\<lparr>pj_Status := out_To out, pj_UpdatedAt := Now (ev_now ev 1)\<rparr> in
            bindT (zoomT w_projects put_projects (ProjectRepo_Update (ev_fault ev 0) (ev_db ev) p2)) (\<lambda>p3.
            bindT (audit_append ev 2 (with_attrs [(''from'', JString (out_From out)), (''to'', JString (out_To out))]
                (NewRecord (ev_now ev 2) t (Some p) (out_AuditAction out) OutcomeSuccess SeverityNotice (actorOf actor)
                  (project_target p)))) (\<lambda>_.
            bindT (emit_event ev 3 (out_EmitEvent out) t (Some p) \<lparr>ag_Type = ''Project'', ag_ID = p, ag_Version = 0\<rparr>
                (outboxActor actor)
                (JObject [(''tenant_id'', JString t), (''project_id'', JString p), (''from'', JString (out_From out)),
                   (''to'', JString (out_To out))])
                (wrap_event op ''project.event_failed'')) (\<lambda>_.
            returnT p3))))))"

(*src internal/tenancy/app/service.go#Service.ArchiveProject*)
definition ArchiveProject :: "env \<Rightarrow> TenantID \<Rightarrow> ProjectID \<Rightarrow> Principal \<Rightarrow> world \<Rightarrow> Project result \<times> world" where
  "ArchiveProject ev t p actor = transitionProject ev t p EventArchive actor"
(*src internal/tenancy/app/service.go#Service.RestoreProject*)
definition RestoreProject :: "env \<Rightarrow> TenantID \<Rightarrow> ProjectID \<Rightarrow> Principal \<Rightarrow> world \<Rightarrow> Project result \<times> world" where
  "RestoreProject ev t p actor = transitionProject ev t p EventRestore actor"

end
