(* ===== verification/ArtifactRepo.thy ===== *)
theory ArtifactRepo
  imports Artifact Sql
begin

text \<open>
  The artifact graph repository, \<^verbatim>\<open>internal/artifactgraph/infra/postgres.go\<close>, on the tables
  \<^verbatim>\<open>artifacts\<close> and \<^verbatim>\<open>artifact_versions\<close> with the constraints, the immutability trigger and the
  partial unique index of the second migration. A column returns the value that was stored: JSON
  columns by value, times to the microsecond. \<open>fits\<close> is the inline size constraint.
\<close>

section \<open>Artifact identities\<close>

definition artifact_key :: "Artifact \<Rightarrow> TenantID \<times> ProjectID \<times> ArtifactID" where
  "artifact_key a = (a_TenantID a, a_ProjectID a, a_ID a)"

(*src migrations/0002_artifact_graph.sql:12-30#artifacts*)
definition artifact_checks :: "Artifact \<Rightarrow> sql_error option" where
  "artifact_checks a = first_error
     [check_constraint ''artifacts_artifact_id_check'' (artifactIDRE (a_ID a)),
      check_constraint ''artifacts_artifact_type_check'' (ArtifactType_Valid (a_Type a))]"

definition artifact_uniques :: "Artifact list \<Rightarrow> sql_error option" where
  "artifact_uniques rows = unique_index ''artifacts_pkey'' (\<lambda>_. True) artifact_key rows"

(*src internal/artifactgraph/infra/postgres.go#Postgres.CreateArtifact*)
definition repo_CreateArtifact ::
  "sql_error option \<Rightarrow> (TenantID \<times> ProjectID \<Rightarrow> bool) \<Rightarrow> Artifact \<Rightarrow> (go_error, Artifact list, unit) tx" where
  "repo_CreateArtifact fault project_exists a = insertT fault
     (\<lambda>err. if IsUniqueViolation err then Conflict ''artifactgraph.CreateArtifact'' ''artifact.id_taken''
        else Wrap (driver_error err) ''artifactgraph.CreateArtifact'' KindUnavailable ''artifact.create_failed'')
     (insert_row artifact_checks artifact_uniques
       (\<lambda>a. foreign_key ''artifacts_tenant_id_project_id_fkey'' (project_exists (a_TenantID a, a_ProjectID a))) a)"

(*src internal/artifactgraph/infra/postgres.go:109-112#Postgres.UpdateArtifact*)
definition set_artifact :: "time \<Rightarrow> Artifact \<Rightarrow> Artifact \<Rightarrow> Artifact" where
  "set_artifact now x r = r\<lparr>a_Title := a_Title x, a_CurrentVersion := a_CurrentVersion x, a_Status := a_Status x,
     a_Labels := a_Labels x, a_UpdatedAt := now, a_Version := a_Version r + 1\<rparr>"

(*src internal/artifactgraph/infra/postgres.go#Postgres.UpdateArtifact*)
definition repo_UpdateArtifact :: "sql_error option \<Rightarrow> time \<Rightarrow> Artifact \<Rightarrow> (go_error, Artifact list, Artifact) tx" where
  "repo_UpdateArtifact fault now a = bindT
     (updateT fault (\<lambda>err. Wrap (driver_error err) ''artifactgraph.UpdateArtifact'' KindUnavailable ''artifact.update_failed'')
       (Conflict ''artifactgraph.UpdateArtifact'' ''concurrency.stale_version'')
       (update_versioned artifact_key a_Version (set_artifact now a) (\<lambda>_. artifact_checks) artifact_uniques a))
     (\<lambda>_. returnT (a\<lparr>a_Version := a_Version a + 1\<rparr>))"

(*src internal/artifactgraph/infra/postgres.go#Postgres.GetArtifact*)
definition repo_GetArtifact ::
  "sql_error option \<Rightarrow> TenantID \<Rightarrow> ProjectID \<Rightarrow> ArtifactID \<Rightarrow> Artifact list \<Rightarrow> Artifact result" where
  "repo_GetArtifact fault t p aid rows = row_result
     (\<lambda>err. if IsNoRows err then NotFound ''artifactgraph.GetArtifact'' ''artifact.not_found''
        else Wrap (driver_error err) ''artifactgraph.GetArtifact'' KindUnavailable ''artifact.read_failed'')
     (query_row fault (\<lambda>a. artifact_key a = (t, p, aid)) rows)"

text \<open>
  The sequence query: the identifiers of the project that match the prefix both as a \<^verbatim>\<open>LIKE\<close>
  pattern and as a regular expression. For a prefix of letters, digits and hyphens both say: the
  prefix, a hyphen and digits; with any other prefix the service rejects the identifier it builds,
  whatever the number. The cast to \<^verbatim>\<open>bigint\<close> fails on a number that does not fit.
\<close>

definition id_suffix :: "string \<Rightarrow> ArtifactID \<Rightarrow> string option" where
  "id_suffix prefix aid = (let p = prefix @ ''-'' in
     if HasPrefix aid p \<and> drop (length p) aid \<noteq> [] \<and> list_all is_digit (drop (length p) aid)
     then Some (drop (length p) aid) else None)"

definition suffix_numbers :: "TenantID \<Rightarrow> ProjectID \<Rightarrow> string \<Rightarrow> Artifact list \<Rightarrow> int list" where
  "suffix_numbers t p prefix rows = map (int \<circ> digits_value)
     (List.map_filter (\<lambda>a. if (a_TenantID a, a_ProjectID a) = (t, p) then id_suffix prefix (a_ID a) else None) rows)"

(*src internal/artifactgraph/infra/postgres.go#Postgres.NextArtifactSequence*)
definition NextArtifactSequence ::
  "sql_error option \<Rightarrow> TenantID \<Rightarrow> ProjectID \<Rightarrow> string \<Rightarrow> Artifact list \<Rightarrow> int result" where
  "NextArtifactSequence fault t p prefix rows = row_result
     (\<lambda>err. Wrap (driver_error err) ''artifactgraph.NextArtifactSequence'' KindUnavailable ''artifact.sequence_failed'')
     (case fault of Some e \<Rightarrow> Inl e
      | None \<Rightarrow> (let ns = suffix_numbers t p prefix rows in
          if list_ex (\<lambda>n. n \<ge> 2 ^ 63) ns then Inl (ServerError ''22003'' '''')
          else if ns = [] then Inr 1
          else Inr (signed_take_bit 63 (Max (set ns) + 1))))"

interpretation artifacts: versioned_table artifact_key a_Version set_artifact
  by unfold_locales (simp_all add: set_artifact_def artifact_key_def)

section \<open>Versions\<close>

definition version_key :: "Version \<Rightarrow> TenantID \<times> ProjectID \<times> ArtifactID \<times> int" where
  "version_key v = (v_TenantID v, v_ProjectID v, v_ArtifactID v, v_Version v)"

definition version_artifact :: "Version \<Rightarrow> TenantID \<times> ProjectID \<times> ArtifactID" where
  "version_artifact v = (v_TenantID v, v_ProjectID v, v_ArtifactID v)"

definition version_statuses :: "State list" where
  "version_statuses = [StatusDraft, StatusAIReview, StatusUserReview, StatusChangesRequested,
     StatusApproved, StatusFrozen, StatusSuperseded, StatusAbandoned]"

text \<open>A number has to fit its \<^verbatim>\<open>integer\<close> column before any constraint is tried.\<close>

definition int4 :: "int \<Rightarrow> bool" where "int4 n \<longleftrightarrow> - (2 ^ 31) \<le> n \<and> n < 2 ^ 31"

definition version_integers :: "Version \<Rightarrow> bool" where
  "version_integers v \<longleftrightarrow> int4 (v_Version v) \<and> pred_option int4 (v_PreviousVersion v) \<and>
     pred_option (\<lambda>r. int4 (ref_Version r)) (v_ParentArtifact v) \<and>
     pred_option (\<lambda>r. int4 (ref_Version r)) (v_SourceArtifact v)"

text \<open>The CHECK constraints in the order of their names, which is the order they are tried in.\<close>

(*src migrations/0002_artifact_graph.sql:45-94#artifact_versions*)
definition version_checks :: "(string \<Rightarrow> bool) \<Rightarrow> Version \<Rightarrow> sql_error option" where
  "version_checks fits v = first_error
     [if version_integers v then None else Some (ServerError ''22003'' ''''),
      check_constraint ''approved_requires_evidence'' (v_Status v = StatusApproved \<longrightarrow>
        v_ApprovedBy v \<noteq> None \<and> v_ApprovedAt v \<noteq> None \<and> v_ApprovalEvidence v \<noteq> None \<and>
        v_ApprovalComment v \<noteq> '''' \<and> v_SealedAt v \<noteq> None),
      check_constraint ''artifact_versions_content_hash_check'' (ContentHash_Valid (v_ContentHash v)),
      check_constraint ''artifact_versions_status_check'' (v_Status v \<in> set version_statuses),
      check_constraint ''artifact_versions_version_check'' (v_Version v \<ge> 1),
      check_constraint ''chain_start'' ((v_Version v = 1) = (v_PreviousVersion v = None)),
      check_constraint ''chain_step'' (case v_PreviousVersion v of None \<Rightarrow> True | Some p \<Rightarrow> p = v_Version v - 1),
      check_constraint ''content_inline_size'' (fits (v_Content v))]"

(*src migrations/0002_artifact_graph.sql:102-104#one_approved_per_artifact*)
definition version_uniques :: "Version list \<Rightarrow> sql_error option" where
  "version_uniques rows = first_error
     [unique_index ''artifact_versions_pkey'' (\<lambda>_. True) version_key rows,
      unique_index ''one_approved_per_artifact'' (\<lambda>v. v_Status v = StatusApproved) version_artifact rows]"

text \<open>The trigger compares all of a sealed row except its status, its version number and the time of
  its last update, and then the move of the status.\<close>

(*src migrations/0002_artifact_graph.sql:119-144#sf_enforce_version_immutability*)
definition immutability_trigger :: "Version \<Rightarrow> Version \<Rightarrow> sql_error option" where
  "immutability_trigger old new =
     (if IsSealed (v_Status old) then
        (if old\<lparr>v_Status := v_Status new, v_VersionNo := v_VersionNo new, v_UpdatedAt := v_UpdatedAt new\<rparr> \<noteq> new
         then Some (ServerError ''23514'' '''')
         else if v_Status new \<noteq> v_Status old \<and>
           \<not> (v_Status old = StatusApproved \<and> (v_Status new = StatusFrozen \<or> v_Status new = StatusSuperseded) \<or>
              v_Status old = StatusFrozen \<and> v_Status new = StatusSuperseded)
         then Some (ServerError ''23514'' '''') else None)
      else None)"

(*src internal/artifactgraph/infra/postgres.go#translateVersionError*)
definition translateVersionError :: "string \<Rightarrow> sql_error \<Rightarrow> go_error" where
  "translateVersionError op err =
     (let rest = (if IsCheckViolation err then Conflict op ''artifact.sealed_immutable''
          else if IsUniqueViolation err then Conflict op ''artifact.version_exists''
          else if IsRLSViolation err then Forbidden op ''authz.tenant_mismatch''
          else Wrap (driver_error err) op KindUnavailable ''artifact.write_failed'')
      in case ConstraintViolation err of
           None \<Rightarrow> rest
         | Some c \<Rightarrow>
             if Contains c ''one_approved_per_artifact'' then Conflict op ''artifact.already_approved''
             else if Contains c ''approved_requires_evidence'' then Invalid op ''artifact.approval_evidence_required''
             else if Contains c ''chain_'' then Invalid op ''artifact.chain_invalid''
             else if Contains c ''content_inline_size'' then Invalid op ''artifact.content_too_large''
             else rest)"

text \<open>The insert does not name the approval columns, so the row has their defaults.\<close>

(*src internal/artifactgraph/infra/postgres.go:377-386#Postgres.CreateVersion*)
definition inserted_version :: "Version \<Rightarrow> Version" where
  "inserted_version v = v\<lparr>v_ApprovedBy := None, v_ApprovedAt := None, v_ApprovalComment := '''',
     v_ApprovalEvidence := None, v_SealedAt := None\<rparr>"

(*src internal/artifactgraph/infra/postgres.go#Postgres.CreateVersion*)
definition repo_CreateVersion ::
  "sql_error option \<Rightarrow> (string \<Rightarrow> bool) \<Rightarrow> (TenantID \<times> ProjectID \<times> ArtifactID \<Rightarrow> bool) \<Rightarrow> Version \<Rightarrow>
   (go_error, Version list, unit) tx" where
  "repo_CreateVersion fault fits artifact_exists v = insertT fault
     (translateVersionError ''artifactgraph.CreateVersion'')
     (insert_row (version_checks fits) version_uniques
       (\<lambda>v. foreign_key ''artifact_versions_tenant_id_project_id_artifact_id_fkey'' (artifact_exists (version_artifact v)))
       (inserted_version v))"

(*src internal/artifactgraph/infra/postgres.go:429-436#Postgres.UpdateVersion*)
definition set_version :: "time \<Rightarrow> Version \<Rightarrow> Version \<Rightarrow> Version" where
  "set_version now x r = r\<lparr>v_Status := v_Status x, v_Content := v_Content x, v_ContentHash := v_ContentHash x,
     v_ChangeSummary := v_ChangeSummary x, v_Generator := v_Generator x, v_UpdatedAt := now,
     v_ApprovedBy := v_ApprovedBy x, v_ApprovedAt := v_ApprovedAt x, v_ApprovalComment := v_ApprovalComment x,
     v_ApprovalEvidence := v_ApprovalEvidence x, v_SealedAt := v_SealedAt x, v_VersionNo := v_VersionNo r + 1\<rparr>"

(*src internal/artifactgraph/infra/postgres.go#Postgres.UpdateVersion*)
definition repo_UpdateVersion ::
  "sql_error option \<Rightarrow> (string \<Rightarrow> bool) \<Rightarrow> time \<Rightarrow> Version \<Rightarrow> (go_error, Version list, Version) tx" where
  "repo_UpdateVersion fault fits now v = bindT
     (updateT fault (translateVersionError ''artifactgraph.UpdateVersion'')
       (Conflict ''artifactgraph.UpdateVersion'' ''concurrency.stale_version'')
       (update_versioned version_key v_VersionNo (set_version now v)
         (\<lambda>old new. first_error [immutability_trigger old new, version_checks fits new]) version_uniques v))
     (\<lambda>_. returnT (v\<lparr>v_VersionNo := v_VersionNo v + 1\<rparr>))"

(*src internal/artifactgraph/infra/postgres.go:492-517#Postgres.GetVersion*)
definition read_version ::
  "sql_error option \<Rightarrow> TenantID \<Rightarrow> ProjectID \<Rightarrow> ArtifactID \<Rightarrow> int \<Rightarrow> Version list \<Rightarrow> Version result" where
  "read_version fault t p aid n rows = row_result
     (\<lambda>err. if IsNoRows err then NotFound ''artifactgraph.GetVersion'' ''artifact.version_not_found''
        else Wrap (driver_error err) ''artifactgraph.GetVersion'' KindUnavailable ''artifact.read_failed'')
     (query_row fault (\<lambda>v. version_key v = (t, p, aid, n)) rows)"

(*src internal/artifactgraph/infra/postgres.go#Postgres.GetVersion*)
definition repo_GetVersion ::
  "sql_error option \<Rightarrow> TenantID \<Rightarrow> ProjectID \<Rightarrow> ArtifactID \<Rightarrow> int \<Rightarrow> Version list \<Rightarrow> Version result" where
  "repo_GetVersion fault t p aid n rows = bindR (read_version fault t p aid n rows)
     (\<lambda>v. failR (Version_Verify v) (Inr v))"

(*src internal/artifactgraph/infra/postgres.go#Postgres.ApprovedVersion*)
definition repo_ApprovedVersion ::
  "sql_error option \<Rightarrow> TenantID \<Rightarrow> ProjectID \<Rightarrow> ArtifactID \<Rightarrow> Version list \<Rightarrow> Version result" where
  "repo_ApprovedVersion fault t p aid rows = row_result
     (\<lambda>err. if IsNoRows err then NotFound ''artifactgraph.ApprovedVersion'' ''artifact.no_approved_version''
        else Wrap (driver_error err) ''artifactgraph.ApprovedVersion'' KindUnavailable ''artifact.read_failed'')
     (query_row fault (\<lambda>v. version_artifact v = (t, p, aid) \<and> v_Status v = StatusApproved) rows)"

(*src internal/artifactgraph/infra/postgres.go#Postgres.ListVersions*)
definition repo_ListVersions ::
  "sql_error option \<Rightarrow> TenantID \<Rightarrow> ProjectID \<Rightarrow> ArtifactID \<Rightarrow> Version list \<Rightarrow> Version list result" where
  "repo_ListVersions fault t p aid rows = row_result
     (\<lambda>err. Wrap (driver_error err) ''artifactgraph.ListVersions'' KindUnavailable ''artifact.read_failed'')
     (map_sum id (\<lambda>vs. rev (sort_key v_Version vs)) (query_rows fault (\<lambda>v. version_artifact v = (t, p, aid)) rows))"

(*src internal/artifactgraph/infra/postgres.go#Postgres.Contributors*)
definition repo_Contributors ::
  "sql_error option \<Rightarrow> TenantID \<Rightarrow> ProjectID \<Rightarrow> ArtifactID \<Rightarrow> Version list \<Rightarrow> PrincipalID list result" where
  "repo_Contributors fault t p aid rows = row_result
     (\<lambda>err. Wrap (driver_error err) ''artifactgraph.Contributors'' KindUnavailable ''artifact.read_failed'')
     (map_sum id (\<lambda>vs. remdups (map v_CreatedBy vs)) (query_rows fault (\<lambda>v. version_artifact v = (t, p, aid)) rows))"

interpretation versions: versioned_table version_key v_VersionNo set_version
  by unfold_locales (simp_all add: set_version_def version_key_def)

section \<open>Sealed rows\<close>

text \<open>What may differ in a sealed row, and the moves of its status; the moves compose.\<close>

definition sealed_same :: "Version \<Rightarrow> Version \<Rightarrow> bool" where
  "sealed_same r r' \<longleftrightarrow> r\<lparr>v_Status := v_Status r', v_VersionNo := v_VersionNo r', v_UpdatedAt := v_UpdatedAt r'\<rparr> = r'"

definition sealed_move :: "State \<Rightarrow> State \<Rightarrow> bool" where
  "sealed_move s s' \<longleftrightarrow> s' = s \<or> (s = StatusApproved \<and> (s' = StatusFrozen \<or> s' = StatusSuperseded)) \<or>
     (s = StatusFrozen \<and> s' = StatusSuperseded)"

definition keeps_sealed :: "Version list \<Rightarrow> Version list \<Rightarrow> bool" where
  "keeps_sealed rows rows' \<longleftrightarrow> (\<forall>r \<in> set rows. IsSealed (v_Status r) \<longrightarrow>
     (\<exists>r' \<in> set rows'. sealed_same r r' \<and> sealed_move (v_Status r) (v_Status r')))"

lemma sealed_move_trans: "sealed_move a b \<Longrightarrow> sealed_move b c \<Longrightarrow> sealed_move a c"
  by (auto simp: sealed_move_def status_defs)

lemma sealed_move_sealed: "sealed_move a b \<Longrightarrow> IsSealed a \<Longrightarrow> IsSealed b"
  by (auto simp: sealed_move_def IsSealed_def sealedStates_def)

lemma sealed_same_refl [simp]: "sealed_same r r"
  by (simp add: sealed_same_def)

lemma sealed_same_trans: "sealed_same a b \<Longrightarrow> sealed_same b c \<Longrightarrow> sealed_same a c"
  by (cases a; cases b; cases c) (simp add: sealed_same_def)

lemma keeps_sealed_refl: "keeps_sealed rows rows"
  by (auto simp: keeps_sealed_def sealed_move_def intro!: bexI)

lemma keeps_sealed_trans: "keeps_sealed r1 r2 \<Longrightarrow> keeps_sealed r2 r3 \<Longrightarrow> keeps_sealed r1 r3"
  unfolding keeps_sealed_def by (meson sealed_move_sealed sealed_move_trans sealed_same_trans)

lemma keeps_sealed_mono: "set rows \<subseteq> set rows' \<Longrightarrow> keeps_sealed rows rows'"
  unfolding keeps_sealed_def
proof (intro ballI impI)
  fix r assume "set rows \<subseteq> set rows'" "r \<in> set rows"
  then show "\<exists>r' \<in> set rows'. sealed_same r r' \<and> sealed_move (v_Status r) (v_Status r')"
    by (intro bexI [of _ r]) (auto simp: sealed_move_def)
qed

text \<open>The trigger lets through exactly these changes.\<close>

lemma immutability_trigger_None:
  "immutability_trigger old new = None \<longleftrightarrow>
     (IsSealed (v_Status old) \<longrightarrow> sealed_same old new \<and> sealed_move (v_Status old) (v_Status new))"
  by (auto simp: immutability_trigger_def sealed_same_def sealed_move_def)

section \<open>Statements on the versions table\<close>

text \<open>The fields a version keeps from its creation on.\<close>

definition same_identity :: "Version \<Rightarrow> Version \<Rightarrow> bool" where
  "same_identity v w \<longleftrightarrow>
     v_TenantID v = v_TenantID w \<and> v_ProjectID v = v_ProjectID w \<and> v_ArtifactID v = v_ArtifactID w \<and>
     v_Version v = v_Version w \<and> v_Type v = v_Type w \<and> v_ContentSchema v = v_ContentSchema w \<and>
     v_ContentRef v = v_ContentRef w \<and> v_ParentArtifact v = v_ParentArtifact w \<and>
     v_SourceArtifact v = v_SourceArtifact w \<and> v_PreviousVersion v = v_PreviousVersion w \<and>
     v_CreatedBy v = v_CreatedBy w \<and> v_CreatedAt v = v_CreatedAt w"

lemma same_identity_key: "same_identity v w \<Longrightarrow> version_key v = version_key w \<and> version_artifact v = version_artifact w"
  by (simp add: same_identity_def version_key_def version_artifact_def)

lemma set_version_hashed: "same_identity x r \<Longrightarrow> same_hashed (set_version now x r) x"
  by (simp add: same_identity_def same_hashed_def set_version_def)

lemma set_version_identity: "same_identity (set_version now x r) r"
  by (simp add: same_identity_def set_version_def)

lemma set_version_verify: "same_identity x r \<Longrightarrow> Version_Verify (set_version now x r) = Version_Verify x"
  by (rule Version_Verify_cong [OF set_version_hashed]) (simp_all add: set_version_def)

lemma inserted_version_simps [simp]:
  "version_key (inserted_version v) = version_key v" "version_artifact (inserted_version v) = version_artifact v"
  "v_Status (inserted_version v) = v_Status v" "v_Version (inserted_version v) = v_Version v"
  "v_PreviousVersion (inserted_version v) = v_PreviousVersion v" "v_VersionNo (inserted_version v) = v_VersionNo v"
  "v_ContentHash (inserted_version v) = v_ContentHash v" "v_CreatedBy (inserted_version v) = v_CreatedBy v"
  by (simp_all add: inserted_version_def version_key_def version_artifact_def)

lemma inserted_version_verify [simp]: "Version_Verify (inserted_version v) = Version_Verify v"
  by (rule Version_Verify_cong) (simp_all add: inserted_version_def same_hashed_def)

text \<open>A row that satisfies the constraints of its table and its own content hash.\<close>

definition version_row_ok :: "Version \<Rightarrow> bool" where
  "version_row_ok v \<longleftrightarrow> Version_Verify v = None \<and> version_checks (\<lambda>_. True) v = None"

lemma version_checks_fits: "version_checks fits v = None \<Longrightarrow> version_checks (\<lambda>_. True) v = None"
  by (simp add: version_checks_def monad_inv)

text \<open>A table whose rows are sound, with one approved version per artifact and no gaps in the chains.\<close>

definition versions_inv :: "Version list \<Rightarrow> bool" where
  "versions_inv rows \<longleftrightarrow> version_uniques rows = None \<and> (\<forall>v \<in> set rows. version_row_ok v) \<and>
     (\<forall>v \<in> set rows. v_Version v \<noteq> 1 \<longrightarrow>
        (\<exists>u \<in> set rows. version_artifact u = version_artifact v \<and> v_Version u = v_Version v - 1))"

lemma version_uniques_None: "version_uniques rows = None \<longleftrightarrow> distinct (map version_key rows) \<and>
    distinct (map version_artifact (filter (\<lambda>v. v_Status v = StatusApproved) rows))"
  by (simp add: version_uniques_def monad_inv)

lemma versions_inv_keys: "versions_inv rows \<Longrightarrow> distinct (map version_key rows)"
  by (simp add: versions_inv_def version_uniques_None)

lemma create_version_inv:
  assumes "repo_CreateVersion fault fits ex v rows = Inr (u, rows')"
    and "versions_inv rows" "Version_Verify v = None"
    and "v_Version v \<noteq> 1 \<longrightarrow> (\<exists>u \<in> set rows. version_artifact u = version_artifact v \<and> v_Version u = v_Version v - 1)"
  shows "rows' = rows @ [inserted_version v]" "versions_inv rows'" "evolves version_key v_VersionNo rows rows'"
    "keeps_sealed rows rows'" "ex (version_artifact v)"
proof -
  from assms(1) show r: "rows' = rows @ [inserted_version v]" and "ex (version_artifact v)"
    by (auto simp: repo_CreateVersion_def monad_inv)
  from assms(1) have c: "version_checks fits (inserted_version v) = None" "version_uniques rows' = None"
    by (auto simp: repo_CreateVersion_def monad_inv)
  have "version_row_ok (inserted_version v)"
    using c(1) assms(3) by (simp add: version_row_ok_def version_checks_fits)
  then show "versions_inv rows'" using assms(2,4) c(2) unfolding versions_inv_def r by auto
  show "evolves version_key v_VersionNo rows rows'" using c(2) unfolding r
    by (intro evolves_insert) (simp add: version_uniques_None)
  show "keeps_sealed rows rows'" by (rule keeps_sealed_mono) (auto simp: r)
qed

text \<open>An update that was computed from a row some earlier state of the table had.\<close>

lemma update_version_inv:
  assumes "repo_UpdateVersion fault fits now x rows = Inr (x', rows')"
    and "versions_inv rows" "evolves version_key v_VersionNo past rows" "r0 \<in> set past"
    and "same_identity x r0" "v_VersionNo x = v_VersionNo r0" "Version_Verify x = None"
  shows "r0 \<in> set rows" "rows' = versions.replace now x rows" "set_version now x r0 \<in> set rows'"
    "versions_inv rows'" "evolves version_key v_VersionNo rows rows'" "keeps_sealed rows rows'"
    "immutability_trigger r0 (set_version now x r0) = None" "x' = x\<lparr>v_VersionNo := v_VersionNo x + 1\<rparr>"
proof -
  from assms(1) obtain n where u: "update_versioned version_key v_VersionNo (set_version now x)
      (\<lambda>old new. first_error [immutability_trigger old new, version_checks fits new]) version_uniques x rows = Inr (n, rows')"
      "n \<noteq> 0" and x': "x' = x\<lparr>v_VersionNo := v_VersionNo x + 1\<rparr>"
    by (auto simp: repo_UpdateVersion_def monad_inv)
  have k: "version_key r0 = version_key x" "v_VersionNo r0 = v_VersionNo x"
    using same_identity_key [OF assms(5)] assms(6) by simp_all
  note rd = versions.update_read [OF u assms(3,4) k]
  then show "r0 \<in> set rows" "rows' = versions.replace now x rows" "set_version now x r0 \<in> set rows'" by blast+
  show "x' = x\<lparr>v_VersionNo := v_VersionNo x + 1\<rparr>" by (rule x')
  have chk: "immutability_trigger r0 (set_version now x r0) = None" "version_checks fits (set_version now x r0) = None"
    using rd(2) by (simp_all add: monad_inv)
  then show "immutability_trigger r0 (set_version now x r0) = None" by blast
  have keys: "distinct (map version_key rows)" using assms(2) by (rule versions_inv_keys)
  show "evolves version_key v_VersionNo rows rows'" unfolding rd(4) by (rule versions.replace_evolves [OF keys])
  have only: "r = r0" if "r \<in> set rows" "current version_key v_VersionNo x r" for r
    using evolves_same [OF evolves_refl [OF keys] rd(1) that(1)] that(2) k by (simp add: current_def)
  have new: "version_row_ok (set_version now x r0)"
    using chk(2) assms(5,7) by (simp add: version_row_ok_def version_checks_fits set_version_verify)
  have arts: "\<exists>q \<in> set rows'. version_artifact q = version_artifact r \<and> v_Version q = v_Version r" if "r \<in> set rows" for r
    using that unfolding rd(4)
    by (intro bexI [of _ "if current version_key v_VersionNo x r then set_version now x r else r"])
       (auto simp: set_version_def version_artifact_def)
  show "versions_inv rows'" unfolding versions_inv_def
  proof (intro conjI ballI impI)
    show "version_uniques rows' = None" by (rule rd(5))
  next
    fix v assume "v \<in> set rows'"
    then show "version_row_ok v" unfolding rd(4)
      using versions.replace_member only new assms(2) by (fastforce simp: versions_inv_def)
  next
    fix v assume v: "v \<in> set rows'" "v_Version v \<noteq> 1"
    then obtain r where r: "r \<in> set rows" "version_artifact v = version_artifact r" "v_Version v = v_Version r"
      unfolding rd(4) by (auto simp: set_version_def version_artifact_def)
    then obtain p where "p \<in> set rows" "version_artifact p = version_artifact r" "v_Version p = v_Version r - 1"
      using assms(2) v(2) unfolding versions_inv_def by metis
    with arts [of p] r show "\<exists>u \<in> set rows'. version_artifact u = version_artifact v \<and> v_Version u = v_Version v - 1"
      by fastforce
  qed
  show "keeps_sealed rows rows'" unfolding keeps_sealed_def
  proof (intro ballI impI)
    fix r assume r: "r \<in> set rows" "IsSealed (v_Status r)"
    show "\<exists>r' \<in> set rows'. sealed_same r r' \<and> sealed_move (v_Status r) (v_Status r')"
    proof (cases "current version_key v_VersionNo x r")
      case True
      then have "r = r0" using only r(1) by blast
      then show ?thesis using chk(1) r(2) rd(3) by (auto simp: immutability_trigger_None)
    next
      case False
      then have "r \<in> set rows'" using r(1) unfolding rd(4) by (auto intro: rev_image_eqI)
      then show ?thesis by (intro bexI [of _ r]) (simp_all add: sealed_move_def)
    qed
  qed
qed

end
