(* ===== verification/LinkRepo.thy ===== *)
theory LinkRepo
  imports TraceLink ArtifactRepo
begin

text \<open>
  \<^verbatim>\<open>internal/artifactgraph/infra/links.go\<close>: the table \<^verbatim>\<open>trace_links\<close> with its constraints and
  the endpoint trigger, and the traversal of the graph by a recursive query. A confidence is stored
  with three decimals. The recursive query is evaluated as the manual describes it: the rows of a
  round are joined with the links to give the rows of the next, until a round has none. \<open>collate\<close> is
  the order of the database's collation on identifiers, which decides between rows of equal depth.
\<close>

section \<open>Links\<close>

definition link_key :: "TraceLink \<Rightarrow> TenantID \<times> ProjectID \<times> LinkID" where
  "link_key l = (l_TenantID l, l_ProjectID l, l_LinkID l)"

text \<open>\<^verbatim>\<open>fmt.Sprintf("%.3f", x)\<close> in thousandths, with its sign, and the double that is read back.\<close>

definition thousandths :: "bool \<times> f64 \<Rightarrow> int" where
  "thousandths x = (let k = int (round_even (fst (snd x) * 2 ^ snd (snd x) * 1000) (2 ^ emin)) in if fst x then - k else k)"

definition stored_confidence :: "bool \<times> f64 \<Rightarrow> bool \<times> f64" where
  "stored_confidence x = (let k = thousandths x in
     (k < 0, case round_dec (nat \<bar>k\<bar>) (- 3) of Some f \<Rightarrow> f | None \<Rightarrow> (0, 0)))"

definition link_unique_key :: "TraceLink \<Rightarrow> TenantID \<times> ProjectID \<times> ArtifactRef \<times> ArtifactRef \<times> LinkType" where
  "link_unique_key l = (l_TenantID l, l_ProjectID l, l_From l, l_To l, l_Type l)"

(*src migrations/0002_artifact_graph.sql:170-198#trace_links*)
definition link_checks :: "TraceLink \<Rightarrow> sql_error option" where
  "link_checks l = first_error
     [check_constraint ''llm_link_needs_disposition''
        (l_Status l \<noteq> LinkAccepted \<or> l_Origin l \<noteq> OriginLLMProposed \<or> l_DispositionID l \<noteq> None),
      check_constraint ''no_self_link'' (l_From l \<noteq> l_To l),
      check_constraint ''trace_links_confidence_check''
        (0 \<le> thousandths (l_Confidence l) \<and> thousandths (l_Confidence l) \<le> 1000),
      check_constraint ''trace_links_link_type_check'' (LinkType_Valid (l_Type l)),
      check_constraint ''trace_links_origin_check'' (LinkOrigin_Valid (l_Origin l)),
      check_constraint ''trace_links_status_check'' (l_Status l \<in> {LinkProposed, LinkAccepted, LinkRejected, LinkStale})]"

definition link_uniques :: "TraceLink list \<Rightarrow> sql_error option" where
  "link_uniques rows = first_error
     [unique_index ''trace_links_pkey'' (\<lambda>_. True) link_key rows,
      unique_index ''trace_links_unique'' (\<lambda>_. True) link_unique_key rows]"

text \<open>The endpoints have to be versions of the same project.\<close>

(*src migrations/0002_artifact_graph.sql:218-234#sf_validate_trace_link*)
definition endpoint_trigger :: "Version list \<Rightarrow> TraceLink \<Rightarrow> sql_error option" where
  "endpoint_trigger versions l = (let ok = (\<lambda>r. list_ex (\<lambda>v.
       version_key v = (l_TenantID l, l_ProjectID l, ref_ArtifactID r, ref_Version r)) versions) in
     first_error [foreign_key '''' (ok (l_From l)), foreign_key '''' (ok (l_To l))])"

(*src internal/artifactgraph/infra/links.go#translateLinkError*)
definition translateLinkError :: "string \<Rightarrow> sql_error \<Rightarrow> go_error" where
  "translateLinkError op err =
     (let rest = (if IsForeignKeyViolation err then Invalid op ''link.endpoint_missing''
          else if IsUniqueViolation err then Conflict op ''link.duplicate''
          else if IsCheckViolation err then Precondition op ''link.constraint_violation''
          else Wrap (driver_error err) op KindUnavailable ''link.write_failed'')
      in case ConstraintViolation err of
           None \<Rightarrow> rest
         | Some c \<Rightarrow>
             if Contains c ''llm_link_needs_disposition'' then Precondition op ''link.disposition_required''
             else if Contains c ''trace_links_unique'' then Conflict op ''link.duplicate''
             else if Contains c ''no_self_link'' then Invalid op ''link.self_reference''
             else rest)"

(*src internal/artifactgraph/infra/links.go#Postgres.CreateLink*)
definition repo_CreateLink :: "sql_error option \<Rightarrow> Version list \<Rightarrow> TraceLink \<Rightarrow> (go_error, TraceLink list, unit) tx" where
  "repo_CreateLink fault versions l = insertT fault (translateLinkError ''artifactgraph.CreateLink'')
     (insert_row (\<lambda>l. first_error [endpoint_trigger versions l, link_checks l]) link_uniques (\<lambda>_. None)
       (l\<lparr>l_Confidence := stored_confidence (l_Confidence l)\<rparr>))"

(*src internal/artifactgraph/infra/links.go:113-116#Postgres.UpdateLink*)
definition set_link :: "time \<Rightarrow> TraceLink \<Rightarrow> TraceLink \<Rightarrow> TraceLink" where
  "set_link now x r = r\<lparr>l_Status := l_Status x, l_Rationale := l_Rationale x, l_DispositionID := l_DispositionID x,
     l_UpdatedAt := now, l_VersionNo := l_VersionNo r + 1\<rparr>"

(*src internal/artifactgraph/infra/links.go#Postgres.UpdateLink*)
definition repo_UpdateLink ::
  "sql_error option \<Rightarrow> Version list \<Rightarrow> time \<Rightarrow> TraceLink \<Rightarrow> (go_error, TraceLink list, TraceLink) tx" where
  "repo_UpdateLink fault versions now l = bindT
     (updateT fault (translateLinkError ''artifactgraph.UpdateLink'')
       (Conflict ''artifactgraph.UpdateLink'' ''concurrency.stale_version'')
       (update_versioned link_key l_VersionNo (set_link now l)
         (\<lambda>_ new. first_error [endpoint_trigger versions new, link_checks new]) link_uniques l))
     (\<lambda>_. returnT (l\<lparr>l_VersionNo := l_VersionNo l + 1\<rparr>))"

(*src internal/artifactgraph/infra/links.go#Postgres.GetLink*)
definition repo_GetLink :: "sql_error option \<Rightarrow> TenantID \<Rightarrow> ProjectID \<Rightarrow> LinkID \<Rightarrow> TraceLink list \<Rightarrow> TraceLink result" where
  "repo_GetLink fault t p lid rows = row_result
     (\<lambda>err. if IsNoRows err then NotFound ''artifactgraph.GetLink'' ''link.not_found''
        else Wrap (driver_error err) ''artifactgraph.GetLink'' KindUnavailable ''link.read_failed'')
     (query_row fault (\<lambda>l. link_key l = (t, p, lid)) rows)"

(*src internal/artifactgraph/app/service.go#LinkFilter*)
record LinkFilter =
  lf_TenantID :: TenantID
  lf_ProjectID :: ProjectID
  lf_From :: "ArtifactID option"
  lf_To :: "ArtifactID option"
  lf_Type :: LinkType
  lf_Status :: LinkStatus
  lf_Limit :: int

(*src internal/artifactgraph/infra/links.go#Postgres.ListLinks*)
definition repo_ListLinks :: "sql_error option \<Rightarrow> LinkFilter \<Rightarrow> TraceLink list \<Rightarrow> TraceLink list result" where
  "repo_ListLinks fault f rows =
     (let limit = (if lf_Limit f \<le> 0 \<or> lf_Limit f > 500 then 200 else lf_Limit f);
          match = (\<lambda>l. l_TenantID l = lf_TenantID f \<and> l_ProjectID l = lf_ProjectID f \<and>
            (case lf_From f of Some a \<Rightarrow> ref_ArtifactID (l_From l) = a | None \<Rightarrow> True) \<and>
            (case lf_To f of Some a \<Rightarrow> ref_ArtifactID (l_To l) = a | None \<Rightarrow> True) \<and>
            (lf_Type f \<noteq> '''' \<longrightarrow> l_Type l = lf_Type f) \<and> (lf_Status f \<noteq> '''' \<longrightarrow> l_Status l = lf_Status f))
      in row_result (\<lambda>err. Wrap (driver_error err) ''artifactgraph.ListLinks'' KindUnavailable ''link.read_failed'')
           (map_sum id (\<lambda>ls. take (nat limit) (sort_key (\<lambda>l. - l_CreatedAt l) ls)) (query_rows fault match rows)))"

interpretation links: versioned_table link_key l_VersionNo set_link
  by unfold_locales (simp_all add: set_link_def link_key_def)

section \<open>Traversal\<close>

record walk_row =
  wr_link :: TraceLink
  wr_node :: ArtifactRef
  wr_depth :: int
  wr_visited :: "ArtifactID list"

definition link_near :: "Direction \<Rightarrow> TraceLink \<Rightarrow> ArtifactRef" where
  "link_near dir l = (if dir = Upstream then l_From l else l_To l)"

definition link_far :: "Direction \<Rightarrow> TraceLink \<Rightarrow> ArtifactRef" where
  "link_far dir l = (if dir = Upstream then l_To l else l_From l)"

definition walkable :: "TraverseSpec \<Rightarrow> TraceLink \<Rightarrow> bool" where
  "walkable ts l \<longleftrightarrow> l_TenantID l = ts_TenantID ts \<and> l_ProjectID l = ts_ProjectID ts \<and>
     (l_Status l = LinkAccepted \<or> ts_IncludeProposed ts)"

(*src internal/artifactgraph/infra/links.go:257-272#traverseSQL*)
definition walk_base :: "TraverseSpec \<Rightarrow> TraceLink list \<Rightarrow> walk_row list" where
  "walk_base ts ls = map (\<lambda>l. \<lparr>wr_link = l, wr_node = link_far (ts_Direction ts) l, wr_depth = 1,
       wr_visited = [ref_ArtifactID (ts_Start ts)]\<rparr>)
     (filter (\<lambda>l. walkable ts l \<and> link_near (ts_Direction ts) l = ts_Start ts) ls)"

(*src internal/artifactgraph/infra/links.go:276-294#traverseSQL*)
definition walk_step :: "TraverseSpec \<Rightarrow> int \<Rightarrow> TraceLink list \<Rightarrow> walk_row list \<Rightarrow> walk_row list" where
  "walk_step ts maxDepth ls rows = concat (map (\<lambda>w. map (\<lambda>l. \<lparr>wr_link = l, wr_node = link_far (ts_Direction ts) l,
       wr_depth = wr_depth w + 1, wr_visited = wr_visited w @ [ref_ArtifactID (wr_node w)]\<rparr>)
     (filter (\<lambda>l. walkable ts l \<and> link_near (ts_Direction ts) l = wr_node w \<and> wr_depth w < maxDepth \<and>
        ref_ArtifactID (wr_node w) \<notin> set (wr_visited w)) ls)) rows)"

(*src internal/artifactgraph/infra/links.go:256-295#traverseSQL*)
partial_function (option) walk_loop :: "TraverseSpec \<Rightarrow> int \<Rightarrow> TraceLink list \<Rightarrow> walk_row list \<Rightarrow> walk_row list option" where
  "walk_loop ts maxDepth ls rows =
     (if rows = [] then Some []
      else Option.bind (walk_loop ts maxDepth ls (walk_step ts maxDepth ls rows)) (\<lambda>rest. Some (rows @ rest)))"

definition node_name :: "ArtifactRef \<Rightarrow> string" where
  "node_name r = ref_ArtifactID r @ ''@'' @ Itoa (ref_Version r)"

(*src internal/artifactgraph/infra/links.go:296-306#traverseSQL*)
definition walk_path :: "TraverseSpec \<Rightarrow> Artifact list \<Rightarrow> Version list \<Rightarrow> walk_row \<Rightarrow> Path" where
  "walk_path ts as vs w = (let t = ts_TenantID ts; p = ts_ProjectID ts; n = wr_node w; l = wr_link w;
       a = find (\<lambda>a. artifact_key a = (t, p, ref_ArtifactID n)) as;
       v = find (\<lambda>v. version_key v = (t, p, ref_ArtifactID n, ref_Version n)) vs
     in \<lparr>p_Target = n, p_Type = (case a of Some a \<Rightarrow> a_Type a | None \<Rightarrow> ''''),
         p_Title = (case a of Some a \<Rightarrow> a_Title a | None \<Rightarrow> ''''),
         p_Status = (case v of Some v \<Rightarrow> v_Status v | None \<Rightarrow> ''''),
         p_Hops = [\<lparr>h_From = l_From l, h_To = l_To l, h_LinkType = l_Type l, h_Origin = l_Origin l,
           h_Confidence = l_Confidence l, h_Status = l_Status l\<rparr>],
         p_Depth = wr_depth w\<rparr>)"

text \<open>The loop over the rows: the first row of a node counts, a filtered type is not returned.\<close>

(*src internal/artifactgraph/infra/links.go:337-405#Postgres.Traverse*)
fun traverse_rows :: "(walk_row \<Rightarrow> Path) \<Rightarrow> ArtifactType list \<Rightarrow> int \<Rightarrow> string list \<Rightarrow> walk_row list \<Rightarrow> Path list \<times> bool" where
  "traverse_rows path typeFilter maxDepth seen [] = ([], False)"
| "traverse_rows path typeFilter maxDepth seen (w # rows) =
     (let name = node_name (wr_node w); p = path w in
      if name \<in> set seen then traverse_rows path typeFilter maxDepth seen rows
      else if typeFilter \<noteq> [] \<and> p_Type p \<notin> set typeFilter then traverse_rows path typeFilter maxDepth (name # seen) rows
      else let (ps, trunc) = traverse_rows path typeFilter maxDepth (name # seen) rows
           in (p # ps, wr_depth w \<ge> maxDepth \<or> trunc))"

definition clamp_depth :: "int \<Rightarrow> int" where
  "clamp_depth d = (if d \<le> 0 \<or> d > 64 then 12 else d)"

(*src internal/artifactgraph/infra/links.go#Postgres.Traverse*)
definition repo_Traverse ::
  "sql_error option \<Rightarrow> (ArtifactID \<Rightarrow> nat) \<Rightarrow> TraverseSpec \<Rightarrow> Artifact list \<Rightarrow> Version list \<Rightarrow> TraceLink list \<Rightarrow> Paths result option" where
  "repo_Traverse fault collate ts as vs ls =
     (let maxDepth = clamp_depth (ts_MaxDepth ts) in
      case fault of
        Some e \<Rightarrow> Some (Inl (Wrap (driver_error e) ''artifactgraph.Traverse'' KindUnavailable ''graph.traverse_failed''))
      | None \<Rightarrow> Option.bind (walk_loop ts maxDepth ls (walk_base ts ls)) (\<lambda>rows.
          let ordered = sort_key wr_depth (sort_key (\<lambda>w. collate (ref_ArtifactID (wr_node w))) rows);
              (ps, trunc) = traverse_rows (walk_path ts as vs) (ts_ArtifactTypes ts) maxDepth [] ordered
          in Some (Inr \<lparr>ps_Start = ts_Start ts, ps_Direction = ts_Direction ts, ps_Paths = ps, ps_Truncated = trunc\<rparr>)))"

end
