(* ===== verification/Traverse.thy ===== *)
theory Traverse
  imports LinkRepo
begin

text \<open>
  What the recursive query computes: the chains of walkable links that leave the start and do not
  come back to an artifact they left, up to the depth bound. The rounds of the query are related to
  chains by their length, so the walk ends, and the rows the loop keeps are shortest chains.
\<close>

section \<open>Chains of links\<close>

fun path_from :: "Direction \<Rightarrow> ArtifactRef \<Rightarrow> TraceLink list \<Rightarrow> bool" where
  "path_from dir r [] = True"
| "path_from dir r (l # ls) \<longleftrightarrow> link_near dir l = r \<and> path_from dir (link_far dir l) ls"

definition end_of :: "Direction \<Rightarrow> ArtifactRef \<Rightarrow> TraceLink list \<Rightarrow> ArtifactRef" where
  "end_of dir r p = (if p = [] then r else link_far dir (last p))"

lemma path_from_snoc: "path_from dir r (p @ [l]) \<longleftrightarrow> path_from dir r p \<and> link_near dir l = end_of dir r p"
  by (induction p arbitrary: r) (auto simp: end_of_def)

lemma end_of_snoc [simp]: "end_of dir r (p @ [l]) = link_far dir l"
  by (simp add: end_of_def)

text \<open>The artifacts a chain has left.\<close>

definition left_ids :: "Direction \<Rightarrow> ArtifactRef \<Rightarrow> TraceLink list \<Rightarrow> ArtifactID list" where
  "left_ids dir r p = map ref_ArtifactID (r # map (link_far dir) (butlast p))"

lemma left_ids_snoc: "p \<noteq> [] \<Longrightarrow> left_ids dir r (p @ [l]) = left_ids dir r p @ [ref_ArtifactID (end_of dir r p)]"
  by (cases p rule: rev_cases) (simp_all add: left_ids_def end_of_def butlast_append)

definition justified :: "TraverseSpec \<Rightarrow> TraceLink list \<Rightarrow> TraceLink list \<Rightarrow> bool" where
  "justified ts ls p \<longleftrightarrow> p \<noteq> [] \<and> (\<forall>l \<in> set p. l \<in> set ls \<and> walkable ts l) \<and>
     path_from (ts_Direction ts) (ts_Start ts) p \<and> distinct (left_ids (ts_Direction ts) (ts_Start ts) p)"

definition row_of :: "TraverseSpec \<Rightarrow> TraceLink list \<Rightarrow> walk_row" where
  "row_of ts p = \<lparr>wr_link = last p, wr_node = end_of (ts_Direction ts) (ts_Start ts) p, wr_depth = int (length p),
     wr_visited = left_ids (ts_Direction ts) (ts_Start ts) p\<rparr>"

lemma justified_snoc: "p \<noteq> [] \<Longrightarrow> justified ts ls (p @ [l]) \<longleftrightarrow> justified ts ls p \<and> l \<in> set ls \<and> walkable ts l \<and>
    link_near (ts_Direction ts) l = end_of (ts_Direction ts) (ts_Start ts) p \<and>
    ref_ArtifactID (end_of (ts_Direction ts) (ts_Start ts) p) \<notin> set (left_ids (ts_Direction ts) (ts_Start ts) p)"
  by (auto simp: justified_def path_from_snoc left_ids_snoc)

lemma justified_single: "justified ts ls [l] \<longleftrightarrow> l \<in> set ls \<and> walkable ts l \<and> link_near (ts_Direction ts) l = ts_Start ts"
  by (auto simp: justified_def left_ids_def)

text \<open>A chain is no longer than there are artifacts to leave.\<close>

lemma justified_length:
  assumes "justified ts ls p"
  shows "length p \<le> Suc (card (ref_ArtifactID ` link_far (ts_Direction ts) ` set ls))"
proof -
  let ?far = "ref_ArtifactID ` link_far (ts_Direction ts) ` set ls"
  have "length (left_ids (ts_Direction ts) (ts_Start ts) p) = length p"
    using assms by (cases p) (simp_all add: justified_def left_ids_def)
  moreover have "set (left_ids (ts_Direction ts) (ts_Start ts) p) \<subseteq> insert (ref_ArtifactID (ts_Start ts)) ?far"
    using assms by (auto simp: justified_def left_ids_def dest: in_set_butlastD)
  then have "card (set (left_ids (ts_Direction ts) (ts_Start ts) p)) \<le> card (insert (ref_ArtifactID (ts_Start ts)) ?far)"
    by (intro card_mono) simp_all
  moreover have "card (set (left_ids (ts_Direction ts) (ts_Start ts) p)) = length (left_ids (ts_Direction ts) (ts_Start ts) p)"
    using assms by (simp add: justified_def distinct_card)
  moreover have "card (insert (ref_ArtifactID (ts_Start ts)) ?far) \<le> Suc (card ?far)"
    by (simp add: card_insert_if)
  ultimately show ?thesis by linarith
qed

section \<open>Rounds\<close>

abbreviation walk_round :: "TraverseSpec \<Rightarrow> int \<Rightarrow> TraceLink list \<Rightarrow> nat \<Rightarrow> walk_row list" where
  "walk_round ts m ls i \<equiv> (walk_step ts m ls ^^ i) (walk_base ts ls)"

lemma row_of_single: "row_of ts [l] = \<lparr>wr_link = l, wr_node = link_far (ts_Direction ts) l, wr_depth = 1,
    wr_visited = [ref_ArtifactID (ts_Start ts)]\<rparr>"
  by (simp add: row_of_def end_of_def left_ids_def)

lemma walk_base_rows: "set (walk_base ts ls) = row_of ts ` {p. justified ts ls p \<and> length p = 1}"
proof -
  have "{p. justified ts ls p \<and> length p = 1} =
      (\<lambda>l. [l]) ` {l \<in> set ls. walkable ts l \<and> link_near (ts_Direction ts) l = ts_Start ts}"
    by (auto simp: length_Suc_conv justified_single)
  then show ?thesis by (simp add: walk_base_def image_image row_of_single conj_assoc)
qed

definition grow_row :: "TraverseSpec \<Rightarrow> walk_row \<Rightarrow> TraceLink \<Rightarrow> walk_row" where
  "grow_row ts w l = \<lparr>wr_link = l, wr_node = link_far (ts_Direction ts) l, wr_depth = wr_depth w + 1,
     wr_visited = wr_visited w @ [ref_ArtifactID (wr_node w)]\<rparr>"

lemma grow_row_of: "p \<noteq> [] \<Longrightarrow> grow_row ts (row_of ts p) l = row_of ts (p @ [l])"
  by (simp add: grow_row_def row_of_def left_ids_snoc)

lemma walk_step_iff: "r \<in> set (walk_step ts m ls front) \<longleftrightarrow> (\<exists>w \<in> set front. \<exists>l \<in> set ls. walkable ts l \<and>
    link_near (ts_Direction ts) l = wr_node w \<and> wr_depth w < m \<and>
    ref_ArtifactID (wr_node w) \<notin> set (wr_visited w) \<and> r = grow_row ts w l)"
  by (auto simp: walk_step_def grow_row_def)

lemma walk_step_rows:
  assumes front: "set front = row_of ts ` {p. justified ts ls p \<and> length p = Suc i}" and m: "int (Suc i) < m"
  shows "set (walk_step ts m ls front) = row_of ts ` {p. justified ts ls p \<and> length p = Suc (Suc i)}"
proof (rule set_eqI)
  fix r
  show "r \<in> set (walk_step ts m ls front) \<longleftrightarrow> r \<in> row_of ts ` {p. justified ts ls p \<and> length p = Suc (Suc i)}"
  proof
    assume "r \<in> set (walk_step ts m ls front)"
    then obtain p l where p: "justified ts ls p" "length p = Suc i" and l: "l \<in> set ls" "walkable ts l"
        "link_near (ts_Direction ts) l = wr_node (row_of ts p)"
        "ref_ArtifactID (wr_node (row_of ts p)) \<notin> set (wr_visited (row_of ts p))" "r = grow_row ts (row_of ts p) l"
      unfolding walk_step_iff front by blast
    have ne: "p \<noteq> []" using p(2) by auto
    have "justified ts ls (p @ [l])" using justified_snoc [OF ne] p(1) l by (simp add: row_of_def)
    moreover have "r = row_of ts (p @ [l])" using grow_row_of [OF ne] l(5) by simp
    ultimately show "r \<in> row_of ts ` {p. justified ts ls p \<and> length p = Suc (Suc i)}" using p(2) by auto
  next
    assume "r \<in> row_of ts ` {p. justified ts ls p \<and> length p = Suc (Suc i)}"
    then obtain q where q: "justified ts ls q" "length q = Suc (Suc i)" "r = row_of ts q" by blast
    obtain p l where pl: "q = p @ [l]" using q(2) by (cases q rule: rev_cases) auto
    then have ne: "p \<noteq> []" "length p = Suc i" using q(2) by auto
    note j = q(1) [unfolded pl justified_snoc [OF ne(1)]]
    have "row_of ts p \<in> set front" using j ne(2) unfolding front by blast
    moreover have "wr_depth (row_of ts p) < m" using m ne(2) by (simp add: row_of_def)
    ultimately show "r \<in> set (walk_step ts m ls front)"
      using j q(3) pl grow_row_of [OF ne(1)] unfolding walk_step_iff
      by (intro bexI [of _ "row_of ts p"] bexI [of _ l]) (simp_all add: row_of_def)
  qed
qed

lemma walk_step_stop: "\<forall>w \<in> set front. m \<le> wr_depth w \<Longrightarrow> walk_step ts m ls front = []"
  by (auto simp: walk_step_def filter_empty_conv)

lemma walk_step_Nil [simp]: "walk_step ts m ls [] = []"
  by (simp add: walk_step_def)

lemma walk_round_Nil [simp]: "(walk_step ts m ls ^^ i) [] = []"
  by (induction i) simp_all

lemma walk_round_rows:
  assumes "int (Suc i) \<le> m"
  shows "set (walk_round ts m ls i) = row_of ts ` {p. justified ts ls p \<and> length p = Suc i}"
  using assms
proof (induction i)
  case 0
  then show ?case by (simp add: walk_base_rows)
next
  case (Suc i)
  then show ?case using walk_step_rows [of "walk_round ts m ls i" ts ls i m] by simp
qed

lemma walk_round_empty: "1 \<le> m \<Longrightarrow> walk_round ts m ls (nat m) = []"
proof -
  assume m: "1 \<le> m"
  then obtain k where k: "nat m = Suc k" by (cases "nat m") simp_all
  have "set (walk_round ts m ls k) = row_of ts ` {p. justified ts ls p \<and> length p = Suc k}"
    by (rule walk_round_rows) (use m k in linarith)
  then have "walk_step ts m ls (walk_round ts m ls k) = []"
    by (intro walk_step_stop) (use m k in \<open>auto simp: row_of_def\<close>)
  then show ?thesis by (simp add: k)
qed

lemma walk_loop_rounds: "(walk_step ts m ls ^^ n) front = [] \<Longrightarrow>
    walk_loop ts m ls front = Some (concat (map (\<lambda>i. (walk_step ts m ls ^^ i) front) [0 ..< n]))"
proof (induction n arbitrary: front)
  case 0
  then show ?case by (simp add: walk_loop.simps)
next
  case (Suc n)
  then have IH: "walk_loop ts m ls (walk_step ts m ls front) =
      Some (concat (map (\<lambda>i. (walk_step ts m ls ^^ i) (walk_step ts m ls front)) [0 ..< n]))"
    by (simp add: funpow_swap1)
  show ?case
  proof (cases "front = []")
    case True
    then show ?thesis by (simp add: walk_loop.simps)
  next
    case False
    have "concat (map (\<lambda>i. (walk_step ts m ls ^^ i) front) [0 ..< Suc n]) =
        front @ concat (map (\<lambda>i. (walk_step ts m ls ^^ i) (walk_step ts m ls front)) [0 ..< n])"
      by (simp add: upt_conv_Cons map_Suc_upt [symmetric] comp_def funpow_swap1 del: upt_Suc)
    then show ?thesis using False IH by (subst walk_loop.simps) simp
  qed
qed

lemma walk_loop_rows:
  assumes "1 \<le> m"
  obtains rows where "walk_loop ts m ls (walk_base ts ls) = Some rows"
    "set rows = row_of ts ` {p. justified ts ls p \<and> int (length p) \<le> m}"
proof -
  have "set (concat (map (walk_round ts m ls) [0 ..< nat m])) = (\<Union>i < nat m. set (walk_round ts m ls i))"
    by (auto simp: lessThan_atLeast0)
  also have "\<dots> = (\<Union>i < nat m. row_of ts ` {p. justified ts ls p \<and> length p = Suc i})"
    by (intro SUP_cong refl walk_round_rows) auto
  also have "\<dots> = row_of ts ` {p. justified ts ls p \<and> int (length p) \<le> m}"
  proof -
    have "justified ts ls p \<and> int (length p) \<le> m \<longleftrightarrow> (\<exists>i < nat m. justified ts ls p \<and> length p = Suc i)" for p
      using assms by (cases "length p") (auto simp: justified_def)
    then show ?thesis by auto
  qed
  finally show thesis using that walk_loop_rounds [OF walk_round_empty [OF assms]] by blast
qed

section \<open>The rows that are kept\<close>

lemma Itoa_no_at: "CHR ''@'' \<notin> set (Itoa i)"
  using nat_digits_all [of "nat i"] nat_digits_all [of "nat (- i)"]
  by (auto simp: Itoa_def list_all_iff is_digit_def)

lemma node_name_inj [simp]: "node_name r = node_name r' \<longleftrightarrow> r = r'"
proof
  have cut: "takeWhile (\<lambda>c. c \<noteq> CHR ''@'') (rev (node_name q)) = rev (Itoa (ref_Version q))" for q
  proof -
    have "c \<noteq> CHR ''@''" if "c \<in> set (rev (Itoa (ref_Version q)))" for c
      using that Itoa_no_at [of "ref_Version q"] by auto
    then have "takeWhile (\<lambda>c. c \<noteq> CHR ''@'') (rev (Itoa (ref_Version q)) @ CHR ''@'' # rev (ref_ArtifactID q)) =
        rev (Itoa (ref_Version q))"
      by (subst takeWhile_append2) auto
    then show ?thesis by (simp add: node_name_def)
  qed
  assume e: "node_name r = node_name r'"
  then have "rev (Itoa (ref_Version r)) = rev (Itoa (ref_Version r'))" by (metis cut)
  then have "ref_Version r = ref_Version r'" by simp
  moreover from this e have "ref_ArtifactID r = ref_ArtifactID r'" by (simp add: node_name_def)
  ultimately show "r = r'" by simp
qed simp

definition wanted :: "(walk_row \<Rightarrow> Path) \<Rightarrow> ArtifactType list \<Rightarrow> walk_row \<Rightarrow> bool" where
  "wanted path tf w \<longleftrightarrow> tf = [] \<or> p_Type (path w) \<in> set tf"

lemma traverse_rows_Cons: "traverse_rows path tf m seen (w # rows) =
    (let name = node_name (wr_node w); rest = traverse_rows path tf m (name # seen) rows in
     if name \<in> set seen then traverse_rows path tf m seen rows
     else if wanted path tf w then (path w # fst rest, m \<le> wr_depth w \<or> snd rest) else rest)"
  by (auto simp: wanted_def Let_def split: prod.split)

text \<open>On rows ordered by depth the loop keeps, of each node it has not seen, a row of least depth,
  provided the node's type is wanted.\<close>

lemma traverse_rows_sound:
  assumes "sorted (map wr_depth rows)" "P \<in> set (fst (traverse_rows path tf m seen rows))"
  shows "\<exists>w \<in> set rows. P = path w \<and> node_name (wr_node w) \<notin> set seen \<and> wanted path tf w \<and>
    (\<forall>w' \<in> set rows. wr_node w' = wr_node w \<longrightarrow> wr_depth w \<le> wr_depth w')"
  using assms
proof (induction rows arbitrary: seen)
  case (Cons r rows)
  define name where "name = node_name (wr_node r)"
  have sorted: "sorted (map wr_depth rows)" "\<forall>w \<in> set rows. wr_depth r \<le> wr_depth w" using Cons.prems(1) by auto
  show ?case
  proof (cases "name \<in> set seen")
    case True
    then have "P \<in> set (fst (traverse_rows path tf m seen rows))" using Cons.prems(2) by (simp add: name_def)
    from Cons.IH [OF sorted(1) this] True show ?thesis by (auto simp: name_def)
  next
    case False
    have rest: ?thesis if "P \<in> set (fst (traverse_rows path tf m (name # seen) rows))"
      using Cons.IH [OF sorted(1) that] by (auto simp: name_def)
    show ?thesis
    proof (cases "wanted path tf r")
      case True
      then have "P = path r \<or> P \<in> set (fst (traverse_rows path tf m (name # seen) rows))"
        using False Cons.prems(2) by (auto simp: name_def wanted_def Let_def split: prod.splits if_splits)
      then show ?thesis using rest False True sorted(2) by (auto simp: name_def)
    next
      case not: False
      then have "P \<in> set (fst (traverse_rows path tf m (name # seen) rows))"
        using False Cons.prems(2) by (auto simp: name_def wanted_def Let_def split: prod.splits if_splits)
      then show ?thesis by (rule rest)
    qed
  qed
qed simp

lemma traverse_rows_complete:
  assumes "w \<in> set rows" "node_name (wr_node w) \<notin> set seen" "\<And>w'. w' \<in> set rows \<Longrightarrow> wr_node w' = wr_node w \<Longrightarrow> wanted path tf w'"
  shows "\<exists>w' \<in> set rows. wr_node w' = wr_node w \<and> path w' \<in> set (fst (traverse_rows path tf m seen rows))"
  using assms
proof (induction rows arbitrary: seen)
  case (Cons r rows)
  define name where "name = node_name (wr_node r)"
  show ?case
  proof (cases "wr_node r = wr_node w")
    case True
    then have "wanted path tf r" "name \<notin> set seen" using Cons.prems(2) Cons.prems(3) [of r] by (auto simp: name_def)
    then have "path r \<in> set (fst (traverse_rows path tf m seen (r # rows)))"
      by (auto simp: name_def wanted_def Let_def split: prod.splits)
    then show ?thesis using True by auto
  next
    case False
    then have w: "w \<in> set rows" "node_name (wr_node w) \<notin> set (name # seen)" using Cons.prems(1,2) by (auto simp: name_def)
    obtain seen' where seen': "node_name (wr_node w) \<notin> set seen'"
        "set (fst (traverse_rows path tf m seen' rows)) \<subseteq> set (fst (traverse_rows path tf m seen (r # rows)))"
    proof (cases "name \<in> set seen")
      case True
      then show ?thesis using that [of seen] Cons.prems(2) by (simp add: name_def)
    next
      case False
      then show ?thesis using that [of "name # seen"] w(2)
        by (cases "wanted path tf r") (auto simp: name_def traverse_rows_Cons Let_def simp del: traverse_rows.simps)
    qed
    from Cons.IH [OF w(1) seen'(1) Cons.prems(3)] seen'(2) show ?thesis by auto
  qed
qed simp

lemma traverse_rows_distinct:
  assumes "\<And>w. p_Target (path w) = wr_node w"
  shows "distinct (map p_Target (fst (traverse_rows path tf m seen rows))) \<and>
    (\<forall>P \<in> set (fst (traverse_rows path tf m seen rows)). node_name (p_Target P) \<notin> set seen)"
proof (induction rows arbitrary: seen)
  case (Cons w rows)
  from Cons.IH [of seen] Cons.IH [of "node_name (wr_node w) # seen"] show ?case
    by (auto simp: traverse_rows_Cons Let_def assms simp del: traverse_rows.simps)
qed simp

lemma traverse_rows_truncated:
  assumes "\<And>w. p_Depth (path w) = wr_depth w"
  shows "snd (traverse_rows path tf m seen rows) \<longleftrightarrow> (\<exists>P \<in> set (fst (traverse_rows path tf m seen rows)). m \<le> p_Depth P)"
proof (induction rows arbitrary: seen)
  case (Cons w rows)
  then show ?case by (simp add: traverse_rows_Cons Let_def assms del: traverse_rows.simps)
qed simp

section \<open>Properties\<close>

lemma clamp_depth_pos: "1 \<le> clamp_depth d" "clamp_depth d \<le> 64"
  by (auto simp: clamp_depth_def)

lemma walk_path_simps [simp]:
  "p_Target (walk_path ts as vs w) = wr_node w" "p_Depth (walk_path ts as vs w) = wr_depth w"
  by (simp_all add: walk_path_def Let_def)

lemma walk_path_type: "wr_node w = wr_node w' \<Longrightarrow> p_Type (walk_path ts as vs w) = p_Type (walk_path ts as vs w')"
  by (simp add: walk_path_def Let_def)

definition hop_of :: "TraceLink \<Rightarrow> Hop" where
  "hop_of l = \<lparr>h_From = l_From l, h_To = l_To l, h_LinkType = l_Type l, h_Origin = l_Origin l,
     h_Confidence = l_Confidence l, h_Status = l_Status l\<rparr>"

text \<open>A chain to a version, and that there is none shorter.\<close>

definition reaches :: "TraverseSpec \<Rightarrow> TraceLink list \<Rightarrow> ArtifactRef \<Rightarrow> TraceLink list \<Rightarrow> bool" where
  "reaches ts ls target p \<longleftrightarrow> justified ts ls p \<and> end_of (ts_Direction ts) (ts_Start ts) p = target"

lemma repo_Traverse_rows:
  obtains rows where "set rows = row_of ts ` {p. justified ts ls p \<and> int (length p) \<le> clamp_depth (ts_MaxDepth ts)}"
    "sorted (map wr_depth rows)"
    "repo_Traverse None collate ts as vs ls = Some (Inr \<lparr>ps_Start = ts_Start ts, ps_Direction = ts_Direction ts,
       ps_Paths = fst (traverse_rows (walk_path ts as vs) (ts_ArtifactTypes ts) (clamp_depth (ts_MaxDepth ts)) [] rows),
       ps_Truncated = snd (traverse_rows (walk_path ts as vs) (ts_ArtifactTypes ts) (clamp_depth (ts_MaxDepth ts)) [] rows)\<rparr>)"
proof -
  obtain raw where raw: "walk_loop ts (clamp_depth (ts_MaxDepth ts)) ls (walk_base ts ls) = Some raw"
      "set raw = row_of ts ` {p. justified ts ls p \<and> int (length p) \<le> clamp_depth (ts_MaxDepth ts)}"
    using walk_loop_rows [OF clamp_depth_pos(1)] by blast
  let ?rows = "sort_key wr_depth (sort_key (\<lambda>w. collate (ref_ArtifactID (wr_node w))) raw)"
  show thesis
  proof (rule that [of ?rows])
    show "set ?rows = row_of ts ` {p. justified ts ls p \<and> int (length p) \<le> clamp_depth (ts_MaxDepth ts)}"
      by (simp add: raw(2))
    show "sorted (map wr_depth ?rows)" by simp
  qed (simp add: repo_Traverse_def raw(1) Let_def split: prod.split)
qed

text \<open>C38: The traversal always ends, on cyclic graphs too, and with a result; no row of it is deeper than
  the bound, which is at most 64, nor than there are artifacts in the graph to leave.\<close>

theorem Traverse_terminates:
  "\<exists>res. repo_Traverse None collate ts as vs ls = Some (Inr res) \<and>
     list_all (\<lambda>P. 1 \<le> p_Depth P \<and> p_Depth P \<le> clamp_depth (ts_MaxDepth ts) \<and> clamp_depth (ts_MaxDepth ts) \<le> 64 \<and>
        p_Depth P \<le> 1 + int (card (ref_ArtifactID ` link_far (ts_Direction ts) ` set ls))) (ps_Paths res)"
proof -
  obtain rows where r: "set rows = row_of ts ` {p. justified ts ls p \<and> int (length p) \<le> clamp_depth (ts_MaxDepth ts)}"
      "sorted (map wr_depth rows)"
      "repo_Traverse None collate ts as vs ls = Some (Inr \<lparr>ps_Start = ts_Start ts, ps_Direction = ts_Direction ts,
         ps_Paths = fst (traverse_rows (walk_path ts as vs) (ts_ArtifactTypes ts) (clamp_depth (ts_MaxDepth ts)) [] rows),
         ps_Truncated = snd (traverse_rows (walk_path ts as vs) (ts_ArtifactTypes ts) (clamp_depth (ts_MaxDepth ts)) [] rows)\<rparr>)"
    by (rule repo_Traverse_rows)
  have "1 \<le> p_Depth P \<and> p_Depth P \<le> clamp_depth (ts_MaxDepth ts) \<and> p_Depth P \<le> 1 + int (card (ref_ArtifactID ` link_far (ts_Direction ts) ` set ls))"
    if P: "P \<in> set (fst (traverse_rows (walk_path ts as vs) (ts_ArtifactTypes ts) (clamp_depth (ts_MaxDepth ts)) [] rows))" for P
  proof -
    obtain p where "justified ts ls p" "int (length p) \<le> clamp_depth (ts_MaxDepth ts)" "p_Depth P = int (length p)"
      using traverse_rows_sound [OF r(2) P] unfolding r(1) by (auto simp: row_of_def)
    moreover from this have "length p \<noteq> 0" by (auto simp: justified_def)
    ultimately show ?thesis using justified_length [of ts ls p] by linarith
  qed
  then show ?thesis using r(3) clamp_depth_pos(2) by (auto simp: list_all_iff)
qed

lemma Traverse_rows:
  assumes "repo_Traverse None collate ts as vs ls = Some (Inr res)" "ts_ArtifactTypes ts = []"
  obtains rows where "set rows = row_of ts ` {p. justified ts ls p \<and> int (length p) \<le> clamp_depth (ts_MaxDepth ts)}"
    "sorted (map wr_depth rows)" "ps_Paths res = fst (traverse_rows (walk_path ts as vs) [] (clamp_depth (ts_MaxDepth ts)) [] rows)"
    "ps_Truncated res = snd (traverse_rows (walk_path ts as vs) [] (clamp_depth (ts_MaxDepth ts)) [] rows)"
proof -
  obtain rows where r: "set rows = row_of ts ` {p. justified ts ls p \<and> int (length p) \<le> clamp_depth (ts_MaxDepth ts)}"
      "sorted (map wr_depth rows)"
      "repo_Traverse None collate ts as vs ls = Some (Inr \<lparr>ps_Start = ts_Start ts, ps_Direction = ts_Direction ts,
         ps_Paths = fst (traverse_rows (walk_path ts as vs) (ts_ArtifactTypes ts) (clamp_depth (ts_MaxDepth ts)) [] rows),
         ps_Truncated = snd (traverse_rows (walk_path ts as vs) (ts_ArtifactTypes ts) (clamp_depth (ts_MaxDepth ts)) [] rows)\<rparr>)"
    by (rule repo_Traverse_rows)
  have "res = \<lparr>ps_Start = ts_Start ts, ps_Direction = ts_Direction ts,
      ps_Paths = fst (traverse_rows (walk_path ts as vs) [] (clamp_depth (ts_MaxDepth ts)) [] rows),
      ps_Truncated = snd (traverse_rows (walk_path ts as vs) [] (clamp_depth (ts_MaxDepth ts)) [] rows)\<rparr>"
    using r(3) assms by simp
  with that [OF r(1,2)] show thesis by simp
qed

lemma listed_path_shortest:
  assumes rows: "set rows = row_of ts ` {p. justified ts ls p \<and> int (length p) \<le> m}" "sorted (map wr_depth rows)"
    and P: "P \<in> set (fst (traverse_rows (walk_path ts as vs) [] m [] rows))"
  shows "\<exists>p. reaches ts ls (p_Target P) p \<and> p_Depth P = int (length p) \<and> p_Depth P \<le> m \<and> p_Hops P = [hop_of (last p)] \<and>
      (\<forall>q. reaches ts ls (p_Target P) q \<longrightarrow> p_Depth P \<le> int (length q))"
proof -
  obtain w where w: "w \<in> set rows" "P = walk_path ts as vs w" "\<forall>w' \<in> set rows. wr_node w' = wr_node w \<longrightarrow> wr_depth w \<le> wr_depth w'"
    using traverse_rows_sound [OF rows(2) P] by blast
  then obtain p where p: "justified ts ls p" "int (length p) \<le> m" "w = row_of ts p" using rows(1) by auto
  have d: "wr_depth w = int (length p)" by (simp add: p(3) row_of_def)
  have "int (length p) \<le> int (length q)" if "reaches ts ls (p_Target P) q" for q
  proof (cases "int (length q) \<le> m")
    case True
    then have "row_of ts q \<in> set rows" using that rows(1) by (auto simp: reaches_def)
    with w(3) d that show ?thesis by (fastforce simp: w(2) p(3) reaches_def row_of_def)
  qed (use p(2) in linarith)
  then show ?thesis using p w(2)
    by (intro exI [of _ p]) (auto simp: reaches_def row_of_def walk_path_def Let_def hop_of_def)
qed

lemma reached_listed:
  assumes rows: "set rows = row_of ts ` {p. justified ts ls p \<and> int (length p) \<le> m}"
    and n: "reaches ts ls n p" "int (length p) \<le> m"
  shows "n \<in> p_Target ` set (fst (traverse_rows (walk_path ts as vs) [] m [] rows))"
proof -
  have "row_of ts p \<in> set rows" using n rows by (auto simp: reaches_def)
  then obtain w' where "wr_node w' = wr_node (row_of ts p)"
      "walk_path ts as vs w' \<in> set (fst (traverse_rows (walk_path ts as vs) [] m [] rows))"
    using traverse_rows_complete [of "row_of ts p" rows "[]" "walk_path ts as vs" "[]" m] by (auto simp: wanted_def)
  then show ?thesis using n(1) by (intro image_eqI [of _ _ "walk_path ts as vs w'"]) (simp_all add: reaches_def row_of_def)
qed

text \<open>C39: The traversal answers with chains. Without a type filter the targets of the result are exactly
  the versions that a chain of walkable links reaches from the start within the depth bound without
  coming back to an artifact it has left; each target occurs once, its depth is the length of a
  shortest such chain, and its hop is the last link of one. The result is marked truncated exactly when
  a target lies at the bound, whether or not the graph goes on behind it, although the comment on
  \<^verbatim>\<open>Truncated\<close> says that the bound stopped the walk before exhausting the graph.\<close>

theorem Traverse_exact:
  assumes "repo_Traverse None collate ts as vs ls = Some (Inr res)" "ts_ArtifactTypes ts = []"
  shows "distinct (map p_Target (ps_Paths res)) \<and>
    p_Target ` set (ps_Paths res) = {n. \<exists>p. reaches ts ls n p \<and> int (length p) \<le> clamp_depth (ts_MaxDepth ts)} \<and>
    (\<forall>P \<in> set (ps_Paths res). (\<exists>p. reaches ts ls (p_Target P) p \<and> p_Depth P = int (length p) \<and> p_Hops P = [hop_of (last p)]) \<and>
       (\<forall>p. reaches ts ls (p_Target P) p \<longrightarrow> p_Depth P \<le> int (length p))) \<and>
    (ps_Truncated res \<longleftrightarrow> (\<exists>P \<in> set (ps_Paths res). p_Depth P = clamp_depth (ts_MaxDepth ts)))"
proof -
  let ?m = "clamp_depth (ts_MaxDepth ts)" and ?path = "walk_path ts as vs"
  obtain rows where r: "set rows = row_of ts ` {p. justified ts ls p \<and> int (length p) \<le> ?m}" "sorted (map wr_depth rows)"
    and res: "ps_Paths res = fst (traverse_rows ?path [] ?m [] rows)" "ps_Truncated res = snd (traverse_rows ?path [] ?m [] rows)"
    by (rule Traverse_rows [OF assms])
  have sound: "\<exists>p. reaches ts ls (p_Target P) p \<and> p_Depth P = int (length p) \<and> p_Depth P \<le> ?m \<and> p_Hops P = [hop_of (last p)] \<and>
      (\<forall>q. reaches ts ls (p_Target P) q \<longrightarrow> p_Depth P \<le> int (length q))" if "P \<in> set (ps_Paths res)" for P
    using listed_path_shortest [OF r] that by (simp add: res)
  have complete: "n \<in> p_Target ` set (ps_Paths res)" if "reaches ts ls n p" "int (length p) \<le> ?m" for n p
    using reached_listed [OF r(1) that] by (simp add: res)
  have "ps_Truncated res \<longleftrightarrow> (\<exists>P \<in> set (ps_Paths res). ?m \<le> p_Depth P)"
    using traverse_rows_truncated [of ?path "[]" ?m "[]" rows] by (simp add: res)
  then have t: "ps_Truncated res \<longleftrightarrow> (\<exists>P \<in> set (ps_Paths res). p_Depth P = ?m)" using sound by fastforce
  have d: "distinct (map p_Target (ps_Paths res))"
    using traverse_rows_distinct [of ?path "[]" ?m "[]" rows] by (simp add: res)
  have "p_Target ` set (ps_Paths res) = {n. \<exists>p. reaches ts ls n p \<and> int (length p) \<le> ?m}"
    using sound complete by fastforce
  then show ?thesis using t d sound by blast
qed

section \<open>Versions of one artifact\<close>

definition ref :: "ArtifactID \<Rightarrow> int \<Rightarrow> ArtifactRef" where
  "ref a n = \<lparr>ref_ArtifactID = a, ref_Version = n\<rparr>"

definition sample_link :: "LinkID \<Rightarrow> ArtifactRef \<Rightarrow> ArtifactRef \<Rightarrow> TraceLink" where
  "sample_link lid from to = \<lparr>l_TenantID = ''t1'', l_ProjectID = ''j1'', l_LinkID = lid, l_From = from, l_To = to,
     l_Type = LinkDerivedFrom, l_Origin = OriginHuman, l_Confidence = (False, 0, 0), l_Status = LinkAccepted,
     l_Rationale = '''', l_Evidence = '''', l_DispositionID = None, l_CreatedBy = ''u1'', l_CreatedAt = 0,
     l_UpdatedAt = 0, l_VersionNo = 1\<rparr>"

definition sample_spec :: TraverseSpec where
  "sample_spec = \<lparr>ts_TenantID = ''t1'', ts_ProjectID = ''j1'', ts_Start = ref ''SPEC-1'' 2, ts_Direction = Upstream,
     ts_LinkTypes = [], ts_ArtifactTypes = [], ts_MaxDepth = 12, ts_IncludeProposed = False\<rparr>"

text \<open>The second version of a specification was derived from a model, the model from the first version,
  and the first version from a PRD.\<close>

definition sample_links :: "TraceLink list" where
  "sample_links = [sample_link ''l1'' (ref ''SPEC-1'' 2) (ref ''ARCH-1'' 1), sample_link ''l2'' (ref ''ARCH-1'' 1) (ref ''SPEC-1'' 1),
     sample_link ''l3'' (ref ''SPEC-1'' 1) (ref ''PRD-1'' 1)]"

lemmas sample_defs = sample_links_def sample_link_def sample_spec_def ref_def walkable_def link_near_def link_far_def

text \<open>The walk remembers artifacts, not versions: it does not go on from another version of an artifact
  it has left. Of a specification derived, through a model, from its own first version it reports that
  first version, but not the PRD the first version was derived from, and does not call the answer
  truncated.\<close>

theorem Traverse_stops_at_other_version:
  "\<exists>res. repo_Traverse None (\<lambda>_. 0) sample_spec [] [] sample_links = Some (Inr res) \<and>
     path_from Upstream (ts_Start sample_spec) sample_links \<and> list_all (walkable sample_spec) sample_links \<and>
     map p_Target (ps_Paths res) = [ref ''ARCH-1'' 1, ref ''SPEC-1'' 1] \<and> \<not> ps_Truncated res"
proof -
  have b: "walk_base sample_spec sample_links = [row_of sample_spec [sample_links ! 0]]"
    by (simp add: walk_base_def row_of_def end_of_def left_ids_def sample_defs)
  have s1: "walk_step sample_spec 12 sample_links [row_of sample_spec [sample_links ! 0]] =
      [row_of sample_spec [sample_links ! 0, sample_links ! Suc 0]]"
    by (simp add: walk_step_def row_of_def end_of_def left_ids_def sample_defs)
  have s2: "walk_step sample_spec 12 sample_links [row_of sample_spec [sample_links ! 0, sample_links ! Suc 0]] = []"
    by (simp add: walk_step_def row_of_def end_of_def left_ids_def sample_defs)
  have "walk_loop sample_spec 12 sample_links (walk_base sample_spec sample_links) =
      Some [row_of sample_spec [sample_links ! 0], row_of sample_spec [sample_links ! 0, sample_links ! Suc 0]]"
  proof -
    have w0: "walk_loop sample_spec 12 sample_links [] = Some []" by (subst walk_loop.simps) simp
    have w1: "walk_loop sample_spec 12 sample_links [row_of sample_spec [sample_links ! 0, sample_links ! Suc 0]] =
        Some [row_of sample_spec [sample_links ! 0, sample_links ! Suc 0]]"
      by (subst walk_loop.simps) (simp add: s2 w0)
    show ?thesis unfolding b by (subst walk_loop.simps) (simp add: s1 w1)
  qed
  moreover have "clamp_depth (ts_MaxDepth sample_spec) = 12" by (simp add: sample_spec_def clamp_depth_def)
  ultimately show ?thesis
    by (simp add: repo_Traverse_def Let_def traverse_rows_Cons wanted_def del: traverse_rows.simps(2))
       (simp add: row_of_def end_of_def left_ids_def sample_defs wanted_def)
qed

lemma Traverse_exact_witness:
  "\<exists>res. repo_Traverse None (\<lambda>_. 0) sample_spec [] [] sample_links = Some (Inr res) \<and>
     ref ''ARCH-1'' 1 \<in> p_Target ` set (ps_Paths res)"
proof -
  obtain res where r: "repo_Traverse None (\<lambda>_. 0) sample_spec [] [] sample_links = Some (Inr res)"
    by (rule repo_Traverse_rows [of sample_spec sample_links "\<lambda>_. 0" "[]" "[]"]) blast
  have "reaches sample_spec sample_links (ref ''ARCH-1'' 1) [sample_links ! 0]"
    by (simp add: reaches_def justified_def end_of_def left_ids_def sample_defs)
  moreover have "int (length [sample_links ! 0]) \<le> clamp_depth (ts_MaxDepth sample_spec)"
    by (simp add: clamp_depth_def sample_spec_def)
  ultimately have "ref ''ARCH-1'' 1 \<in> p_Target ` set (ps_Paths res)"
    using Traverse_exact [OF r] unfolding sample_spec_def by fastforce
  with r show ?thesis by blast
qed

end
