(* ===== verification/ArtifactService.thy ===== *)
theory ArtifactService
  imports World TenancyRepo Traverse
begin

text \<open>
  The artifact graph use cases, \<^verbatim>\<open>internal/artifactgraph/app/service.go\<close>, with the baseline
  governance gates of \<^verbatim>\<open>internal/server/gates.go\<close>. A call runs in the environment of \<open>World\<close>; the
  numbers it passes are the positions of its reads, statements, clock readings and identifiers. An
  empty list stands for a nil slice.
\<close>

section \<open>Inputs\<close>

(*src internal/artifactgraph/app/service.go#CreateInput*)
record CreateInput =
  ci_TenantID :: TenantID
  ci_ProjectID :: ProjectID
  ci_ArtifactID :: ArtifactID
  ci_Area :: string
  ci_Type :: ArtifactType
  ci_Title :: string
  ci_ContentSchema :: string
  ci_Content :: string
  ci_Generator :: Generator
  ci_Labels :: "(string \<times> string) list"
  ci_Parent :: "ArtifactRef option"
  ci_Source :: "ArtifactRef option"

(*src internal/artifactgraph/app/service.go#ApproveInput*)
record ApproveInput =
  ai_TenantID :: TenantID
  ai_ProjectID :: ProjectID
  ai_ArtifactID :: ArtifactID
  ai_Version :: int
  ai_Comment :: string

(*src internal/artifactgraph/app/service.go#GateSubject*)
record GateSubject =
  gs_TenantID :: TenantID
  gs_ProjectID :: ProjectID
  gs_ArtifactID :: ArtifactID
  gs_ArtifactType :: ArtifactType
  gs_Version :: int
  gs_Actor :: PrincipalID

(*src internal/artifactgraph/app/service.go#Buckets*)
record Buckets =
  bk_Content :: string
  bk_Evidence :: string

definition json_slice :: "('a \<Rightarrow> json) \<Rightarrow> 'a list \<Rightarrow> json" where
  "json_slice f xs = (if xs = [] then JNull else JArray (map f xs))"

(*src internal/artifactgraph/domain/artifact.go#GateDecisionRef*)
definition json_gate :: "GateDecisionRef \<Rightarrow> json" where
  "json_gate g = struct [(''gate'', str (gd_Gate g)), (''decision'', str (gd_Decision g)), (''case_id'', str_opt (gd_CaseID g))]"

definition json_opt_int :: "int option \<Rightarrow> json" where
  "json_opt_int n = (case n of None \<Rightarrow> JNull | Some i \<Rightarrow> json_int i)"

section \<open>Reads, records and events\<close>

definition artifact_resource :: "TenantID \<Rightarrow> ProjectID \<Rightarrow> ArtifactID \<Rightarrow> PrincipalID \<Rightarrow> ArtifactType \<Rightarrow> Resource" where
  "artifact_resource t p aid createdBy typ = \<lparr>res_Type = ''artifact'', res_ID = aid, res_TenantID = t, res_ProjectID = p,
     res_CreatedBy = createdBy, res_Contributors = [], res_RequestedBy = '''', res_ArtifactType = typ,
     res_Attributes = (\<lambda>_. None)\<rparr>"

definition graph_scope :: "TenantID \<Rightarrow> ProjectID \<Rightarrow> Principal \<Rightarrow> TenantContext" where
  "graph_scope t p actor = scope t (Some p) (pr_ID actor)"

definition get_version :: "env \<Rightarrow> TenantContext \<Rightarrow> nat \<Rightarrow> TenantID \<Rightarrow> ProjectID \<Rightarrow> ArtifactID \<Rightarrow> int \<Rightarrow> Version result" where
  "get_version ev scp k t p aid n = ReadOnly ev scp k (\<lambda>w. repo_GetVersion (ev_rfault ev k) t p aid n (w_versions w))"

definition get_artifact :: "env \<Rightarrow> TenantContext \<Rightarrow> nat \<Rightarrow> TenantID \<Rightarrow> ProjectID \<Rightarrow> ArtifactID \<Rightarrow> Artifact result" where
  "get_artifact ev scp k t p aid = ReadOnly ev scp k (\<lambda>w. repo_GetArtifact (ev_rfault ev k) t p aid (w_artifacts w))"

(*src internal/artifactgraph/app/service.go#Service.appendAudit*)
definition appendAudit :: "env \<Rightarrow> nat \<Rightarrow> Principal \<Rightarrow> Version \<Rightarrow> string \<Rightarrow> Severity \<Rightarrow> (string \<times> json) list \<Rightarrow> unit wtx" where
  "appendAudit ev k actor v action severity attrs = audit_append ev k (with_attrs attrs
     (NewRecord (ev_now ev k) (v_TenantID v) (Some (v_ProjectID v)) action OutcomeSuccess severity (auditActor actor)
       \<lparr>tg_Type = ''Artifact'', tg_ID = v_ArtifactID v, tg_Version = v_Version v, tg_ProjectID = v_ProjectID v,
        tg_ContentHash = v_ContentHash v\<rparr>))"

definition event_actor :: "Principal \<Rightarrow> OutboxActor" where
  "event_actor actor = \<lparr>oa_Kind = pr_Kind actor, oa_PrincipalID = pr_ID actor, oa_Display = pr_Display actor, oa_OnBehalfOf = ''''\<rparr>"

(*src internal/artifactgraph/app/service.go#Service.emit*)
definition emit :: "env \<Rightarrow> nat \<Rightarrow> Principal \<Rightarrow> Version \<Rightarrow> string \<Rightarrow> (string \<times> json) list \<Rightarrow> unit wtx" where
  "emit ev k actor v eventType payload = emit_event ev k eventType (v_TenantID v) (Some (v_ProjectID v))
     \<lparr>ag_Type = ''Artifact'', ag_ID = v_ArtifactID v, ag_Version = v_Version v\<rparr> (event_actor actor) (JObject payload)
     (\<lambda>err. Wrap err ''artifactgraph.emit'' KindInternal ''artifact.event_failed'')"

(*src internal/artifactgraph/app/service.go#Service.emitRaw*)
definition emitRaw ::
  "env \<Rightarrow> nat \<Rightarrow> Principal \<Rightarrow> TenantID \<Rightarrow> ProjectID option \<Rightarrow> string \<Rightarrow> string \<Rightarrow> int \<Rightarrow> string \<Rightarrow> (string \<times> json) list \<Rightarrow> unit wtx" where
  "emitRaw ev k actor t p aggType aggID aggVersion eventType payload = emit_event ev k eventType t p
     \<lparr>ag_Type = aggType, ag_ID = aggID, ag_Version = aggVersion\<rparr> (event_actor actor) (JObject payload)
     (\<lambda>err. Wrap err ''artifactgraph.emitRaw'' KindInternal ''artifact.event_failed'')"

definition bump_graph :: "env \<Rightarrow> nat \<Rightarrow> TenantID \<Rightarrow> ProjectID \<Rightarrow> int wtx" where
  "bump_graph ev k t p = zoomT w_projects put_projects (BumpGraphVersion (ev_fault ev k) (ev_db ev) t p)"

definition update_version :: "env \<Rightarrow> nat \<Rightarrow> Version \<Rightarrow> Version wtx" where
  "update_version ev k v = zoomT w_versions put_versions (repo_UpdateVersion (ev_fault ev k) (ev_fits ev) (ev_db ev) v)"

definition update_artifact :: "env \<Rightarrow> nat \<Rightarrow> Artifact \<Rightarrow> Artifact wtx" where
  "update_artifact ev k a = zoomT w_artifacts put_artifacts (repo_UpdateArtifact (ev_fault ev k) (ev_db ev) a)"

definition create_version :: "env \<Rightarrow> nat \<Rightarrow> Version \<Rightarrow> unit wtx" where
  "create_version ev k v = (\<lambda>w. zoomT w_versions put_versions (repo_CreateVersion (ev_fault ev k) (ev_fits ev)
     (\<lambda>a. list_ex (\<lambda>x. artifact_key x = a) (w_artifacts w)) v) w)"

definition create_artifact :: "env \<Rightarrow> nat \<Rightarrow> Artifact \<Rightarrow> unit wtx" where
  "create_artifact ev k a = (\<lambda>w. zoomT w_artifacts put_artifacts (repo_CreateArtifact (ev_fault ev k)
     (\<lambda>p. list_ex (\<lambda>x. project_key x = p) (w_projects w)) a) w)"

section \<open>Governance\<close>

(*src internal/server/gates.go#gateFor*)
definition gateFor :: "ArtifactType \<Rightarrow> string" where
  "gateFor t = (if t = ArtifactPRD \<or> t = ArtifactRequirement then ''PRD_GATE''
     else if t = ArtifactArchitecture then ''ARCHITECTURE_GATE''
     else if t = ArtifactCodeUnit \<or> t = ArtifactAPIContract then ''CODE_GOVERNANCE_GATE''
     else if t = ArtifactTestCase then ''TESTING_GATE''
     else if t = ArtifactDeployment \<or> t = ArtifactPipelineDef then ''DEPLOYMENT_GATE''
     else if t = ArtifactPolicy then ''COMPLIANCE_GATE'' else ''SPECIFICATION_GATE'')"

text \<open>A source that cannot be read does not block.\<close>

(*src internal/server/gates.go#baselineGates.Evaluate*)
definition Evaluate :: "env \<Rightarrow> nat \<Rightarrow> GateSubject \<Rightarrow> GateDecisionRef list result" where
  "Evaluate ev k s = (let op = ''governance.Evaluate''; gate = gateFor (gs_ArtifactType s);
       t = gs_TenantID s; p = gs_ProjectID s; scp = scope t (Some p) (gs_Actor s)
     in bindR (get_version ev scp k t p (gs_ArtifactID s) (gs_Version s)) (\<lambda>v.
        checkR (v_Content v = [] \<and> v_ContentRef v = '''') (Precondition op ''gate.blocked'') (
        checkR (TrimSpace (v_ContentSchema v) = '''') (Precondition op ''gate.blocked'') (
        checkR (case v_SourceArtifact v of None \<Rightarrow> False
            | Some r \<Rightarrow> (case get_version ev scp (k + 1) t p (ref_ArtifactID r) (ref_Version r) of
                Inl _ \<Rightarrow> False
              | Inr source \<Rightarrow> v_Status source \<noteq> StatusApproved \<and> v_Status source \<noteq> StatusFrozen \<and>
                  v_Status source \<noteq> StatusSuperseded)) (Precondition op ''gate.blocked'') (
        Inr [\<lparr>gd_Gate = gate, gd_Decision = ''ALLOW'', gd_CaseID = ''''\<rparr>])))))"

section \<open>Create and edit\<close>

(*src internal/artifactgraph/app/service.go#Service.allocateID*)
definition allocateID :: "env \<Rightarrow> CreateInput \<Rightarrow> ArtifactID wtx" where
  "allocateID ev inp = (let prefix = Prefix (ci_Type inp) @ (if ci_Area inp \<noteq> '''' then ''-'' @ ci_Area inp else []) in
     bindT (readT (\<lambda>w. NextArtifactSequence (ev_rfault ev 0) (ci_TenantID inp) (ci_ProjectID inp) prefix (w_artifacts w)))
       (\<lambda>n. returnT (prefix @ ''-'' @ (if n < 0 then pad 3 n else pad3 (nat n)))))"

(*src internal/artifactgraph/app/service.go:177-262#Service.Create*)
definition create_body :: "env \<Rightarrow> CreateInput \<Rightarrow> Principal \<Rightarrow> Version wtx" where
  "create_body ev inp actor = (let op = ''artifactgraph.Create''; t = ci_TenantID inp; p = ci_ProjectID inp in
     bindT (if ci_ArtifactID inp = '''' then allocateID ev inp else returnT (ci_ArtifactID inp)) (\<lambda>aid.
     checkT (isl (ParseArtifactID aid)) (Invalid op ''artifact.id_invalid'') (
     bindT (liftT (NewVersion (ev_now ev 1) t p aid (ci_Type inp) (ci_ContentSchema inp) (ci_Content inp) (ci_Generator inp) (pr_ID actor))) (\<lambda>v0.
     let v1 = v0\<lparr>v_ParentArtifact := ci_Parent inp, v_SourceArtifact := ci_Source inp\<rparr>;
         v = (case ComputeHash v1 of Inr h \<Rightarrow> v1\<lparr>v_ContentHash := h\<rparr> | Inl _ \<Rightarrow> v1);
         a = \<lparr>a_TenantID = t, a_ProjectID = p, a_ID = aid, a_Type = ci_Type inp, a_Title = ci_Title inp, a_CurrentVersion = 1,
              a_Status = StatusDraft, a_Labels = ci_Labels inp, a_CreatedBy = pr_ID actor, a_CreatedAt = Now (ev_now ev 2),
              a_UpdatedAt = Now (ev_now ev 3), a_Version = 1\<rparr>
     in bindT (create_artifact ev 0 a) (\<lambda>_.
        bindT (create_version ev 1 v) (\<lambda>_.
        bindT (bump_graph ev 2 t p) (\<lambda>_.
        bindT (appendAudit ev 4 actor v ''artifact.create'' SeverityNotice
            [(''artifact_type'', JString (ci_Type inp)), (''generator'', JString (g_Kind (ci_Generator inp)))]) (\<lambda>_.
        bindT (emit ev 5 actor v ''artifact.created''
            [(''artifact_id'', JString aid), (''artifact_type'', JString (ci_Type inp)), (''version'', json_int 1),
             (''content_hash'', JString (v_ContentHash v)), (''generator'', JString (g_Kind (ci_Generator inp)))]) (\<lambda>_.
        returnT v)))))))))"

(*src internal/artifactgraph/app/service.go#Service.Create*)
definition Create :: "env \<Rightarrow> CreateInput \<Rightarrow> Principal \<Rightarrow> world \<Rightarrow> Version result \<times> world" where
  "Create ev inp0 actor w = (let op = ''artifactgraph.Create''; t = ci_TenantID inp0; p = ci_ProjectID inp0 in
     case Require (ev_policy ev) (ev_now ev 0) actor ArtifactCreate (artifact_resource t p '''' '''' (ci_Type inp0)) of
       Some err \<Rightarrow> (Inl err, w)
     | None \<Rightarrow>
         if \<not> ArtifactType_Valid (ci_Type inp0) then (Inl (Invalid op ''artifact.type_invalid''), w)
         else let g = ci_Generator inp0;
                  inp = (if g_Kind g = '''' then inp0\<lparr>ci_Generator := g\<lparr>g_Kind := GeneratedByUser\<rparr>\<rparr> else inp0)
              in in_tx ev (graph_scope t p actor) (create_body ev inp actor) w)"

(*src internal/artifactgraph/app/service.go#Service.UpdateDraft*)
definition UpdateDraft ::
  "env \<Rightarrow> TenantID \<Rightarrow> ProjectID \<Rightarrow> ArtifactID \<Rightarrow> int \<Rightarrow> string \<Rightarrow> int \<Rightarrow> Principal \<Rightarrow> world \<Rightarrow> Version result \<times> world" where
  "UpdateDraft ev t p aid n content expectedVersionNo actor = (let op = ''artifactgraph.UpdateDraft''; scp = graph_scope t p actor in
     in_tx ev scp
       (bindT (liftT (get_version ev scp 0 t p aid n)) (\<lambda>v0.
        case Require (ev_policy ev) (ev_now ev 0) actor ArtifactEdit (artifact_resource t p aid (v_CreatedBy v0) (v_Type v0)) of
          Some err \<Rightarrow> failT err
        | None \<Rightarrow>
            checkT (Sealed v0) (Conflict op ''artifact.sealed_immutable'') (
            checkT (expectedVersionNo > 0 \<and> v_VersionNo v0 \<noteq> expectedVersionNo) (Conflict op ''concurrency.stale_version'') (
            case SetContent (ev_now ev 1) v0 content of
              (Some err, _) \<Rightarrow> failT err
            | (None, v1) \<Rightarrow>
                bindT (update_version ev 0 v1) (\<lambda>v.
                bindT (appendAudit ev 2 actor v ''artifact.edit'' SeverityInfo []) (\<lambda>_.
                bindT (emit ev 3 actor v ''artifact.updated''
                    [(''artifact_id'', JString aid), (''version'', json_int n), (''content_hash'', JString (v_ContentHash v))]) (\<lambda>_.
                returnT v))))))))"

section \<open>The lifecycle\<close>

(*src internal/artifactgraph/app/service.go:386-393#Service.fire*)
definition fire_check :: "env \<Rightarrow> Principal \<Rightarrow> Resource \<Rightarrow> string \<Rightarrow> go_error option" where
  "fire_check ev actor res permission = (case ParsePermission permission of
       Inl _ \<Rightarrow> Some (Internal ''artifactgraph.fire'' ''authz.unknown_permission'')
     | Inr p \<Rightarrow> Require (ev_policy ev) (ev_now ev 0) actor p res)"

(*src internal/artifactgraph/app/service.go#Service.fire*)
definition fire :: "env \<Rightarrow> TenantContext \<Rightarrow> nat \<Rightarrow> Principal \<Rightarrow> Version \<Rightarrow> Event \<Rightarrow> ProjectID \<Rightarrow> (Fsm.Outcome \<times> Version) result" where
  "fire ev scp k actor v event p =
     bindR (ReadOnly ev scp k (\<lambda>w. repo_Contributors (ev_rfault ev k) (v_TenantID v) p (v_ArtifactID v) (w_versions w))) (\<lambda>contributors.
     let res = (artifact_resource (v_TenantID v) p (v_ArtifactID v) (v_CreatedBy v) (v_Type v))\<lparr>res_Contributors := contributors\<rparr>;
         check = (if pr_Kind actor = KindSystem then None else Some (fire_check ev actor res))
     in case Fire artifact_machine (v_Status v) event v check of
          (Inl err, _) \<Rightarrow> Inl err | (Inr out, v') \<Rightarrow> Inr (out, v'))"

(*src internal/artifactgraph/app/service.go#Service.Transition*)
definition Transition ::
  "env \<Rightarrow> TenantID \<Rightarrow> ProjectID \<Rightarrow> ArtifactID \<Rightarrow> int \<Rightarrow> Event \<Rightarrow> string \<Rightarrow> Principal \<Rightarrow> world \<Rightarrow> Version result \<times> world" where
  "Transition ev t p aid n event comment actor w =
     (if event = EventApprove then (Inl (Invalid ''artifactgraph.Transition'' ''artifact.use_approve''), w)
      else let scp = graph_scope t p actor in
        in_tx ev scp
          (bindT (liftT (get_version ev scp 0 t p aid n)) (\<lambda>v0.
           bindT (liftT (fire ev scp 1 actor v0 event p)) (\<lambda>(out, v1).
           let v2 = v1\<lparr>v_Status := out_To out, v_UpdatedAt := Now (ev_now ev 1)\<rparr> in
           bindT (update_version ev 0 v2) (\<lambda>v.
           bindT (liftT (get_artifact ev scp 2 t p aid)) (\<lambda>a.
           bindT (update_artifact ev 1 (a\<lparr>a_Status := out_To out\<rparr>)) (\<lambda>_.
           bindT (appendAudit ev 2 actor v (out_AuditAction out) SeverityNotice
               [(''from'', JString (out_From out)), (''to'', JString (out_To out)), (''comment'', JString comment)]) (\<lambda>_.
           bindT (emit ev 3 actor v (out_EmitEvent out)
               [(''artifact_id'', JString aid), (''version'', json_int n), (''from'', JString (out_From out)),
                (''to'', JString (out_To out))]) (\<lambda>_.
           returnT v)))))))) w)"

section \<open>Approval\<close>

text \<open>What is put aside in the evidence store, and how.\<close>

(*src internal/artifactgraph/app/service.go:501-520#Service.Approve*)
definition evidence_doc ::
  "ApproveInput \<Rightarrow> Principal \<Rightarrow> Version \<Rightarrow> GateDecisionRef list \<Rightarrow> string \<Rightarrow> string \<Rightarrow> time \<Rightarrow> json" where
  "evidence_doc inp actor cur gates contentKey evidenceID approvedAt = JObject
     [(''evidence_id'', JString evidenceID), (''tenant_id'', JString (ai_TenantID inp)),
      (''project_id'', JString (ai_ProjectID inp)), (''artifact_id'', JString (ai_ArtifactID inp)),
      (''artifact_type'', JString (v_Type cur)), (''version'', json_int (ai_Version inp)),
      (''content_hash'', JString (v_ContentHash cur)), (''content_ref'', JString contentKey),
      (''approver'', JString (pr_ID actor)), (''approver_display'', JString (pr_Display actor)),
      (''approver_auth_time'', JString (FormatRFC3339 (pr_AuthTime actor))),
      (''approver_amr'', json_slice JString (pr_AMR actor)), (''approval_comment'', JString (ai_Comment inp)),
      (''approved_at'', JString (FormatRFC3339Nano approvedAt)), (''gate_decisions'', json_slice json_gate gates),
      (''previous_version'', json_opt_int (v_PreviousVersion cur)),
      (''change_summary'', JString (v_ChangeSummary cur)), (''generator'', json_generator (v_Generator cur))]"

definition evidence_type :: string where "evidence_type = ''application/vnd.specforge.approval+json''"

definition content_options :: "ApproveInput \<Rightarrow> PutOptions" where
  "content_options inp = \<lparr>po_MediaType = ''application/json'',
     po_Metadata = [(''artifact_id'', ai_ArtifactID inp), (''version'', Itoa (ai_Version inp))], po_Lock = False, po_RetainUntil = 0\<rparr>"

definition evidence_options :: "ApproveInput \<Rightarrow> Principal \<Rightarrow> time \<Rightarrow> PutOptions" where
  "evidence_options inp actor approvedAt = \<lparr>po_MediaType = evidence_type,
     po_Metadata = [(''artifact_id'', ai_ArtifactID inp), (''version'', Itoa (ai_Version inp)), (''approver'', pr_ID actor)],
     po_Lock = True, po_RetainUntil = AddYears 7 approvedAt\<rparr>"

text \<open>The checks before anything is written: the version in review, the gates, the authorization.\<close>

(*src internal/artifactgraph/app/service.go:454-483#Service.Approve*)
definition approve_checks :: "env \<Rightarrow> ApproveInput \<Rightarrow> Principal \<Rightarrow> (Version \<times> GateDecisionRef list \<times> string) result" where
  "approve_checks ev inp actor = (let op = ''artifactgraph.Approve''; t = ai_TenantID inp; p = ai_ProjectID inp; scp = graph_scope t p actor in
     bindR (get_version ev scp 0 t p (ai_ArtifactID inp) (ai_Version inp)) (\<lambda>cur.
     checkR (v_Status cur \<noteq> StatusUserReview) (Precondition op ''artifact.not_in_review'') (
     bindR (Evaluate ev 1 \<lparr>gs_TenantID = t, gs_ProjectID = p, gs_ArtifactID = ai_ArtifactID inp, gs_ArtifactType = v_Type cur,
         gs_Version = ai_Version inp, gs_Actor = pr_ID actor\<rparr>) (\<lambda>gates.
     bindR (fire ev scp 3 actor cur EventApprove p) (\<lambda>_.
     case CanonicalizeJSON (v_Content cur) of
       Inl err \<Rightarrow> Inl (Wrap err op KindInternal ''artifact.canonicalize_failed'')
     | Inr canonical' \<Rightarrow> Inr (cur, gates, canonical'))))))"

text \<open>The content and the evidence go to the store before the transaction; what was stored stays
  there when the transaction fails.\<close>

(*src internal/artifactgraph/app/service.go:484-553#Service.Approve*)
definition store_evidence ::
  "env \<Rightarrow> Buckets \<Rightarrow> ApproveInput \<Rightarrow> Principal \<Rightarrow> Version \<times> GateDecisionRef list \<times> string \<Rightarrow> object_store \<Rightarrow>
   ApprovalEvidence result \<times> object_store" where
  "store_evidence ev buckets inp actor = (\<lambda>(cur, gates, canonical') s.
     let p = Some (ai_ProjectID inp); contentKey = ContentKey (ai_TenantID inp) p (ContentOfBytes canonical') in
     case store_PutAt (ev_sfault ev 0) (ev_now ev 2) (bk_Content buckets) contentKey canonical' (content_options inp) s of
       (Inl err, s1) \<Rightarrow> (Inl err, s1)
     | (Inr _, s1) \<Rightarrow>
         let approvedAt = Now (ev_now ev 1); evidenceID = ''EVD-'' @ ev_id ev 9 in
         case Canonicalize (evidence_doc inp actor cur gates contentKey evidenceID approvedAt) of
           Inl err \<Rightarrow> (Inl (Wrap err ''artifactgraph.Approve'' KindInternal ''artifact.evidence_encode_failed''), s1)
         | Inr bytes \<Rightarrow>
             let digest = ContentOfBytes bytes in
             case store_PutAt (ev_sfault ev 1) (ev_now ev 3) (bk_Evidence buckets)
                 (TenantKey (ai_TenantID inp) p (''evidence/'' @ StorageKey digest)) bytes (evidence_options inp actor approvedAt) s1 of
               (Inl err, s2) \<Rightarrow> (Inl err, s2)
             | (Inr obj, s2) \<Rightarrow> (Inr \<lparr>ev_EvidenceID = evidenceID, ev_Digest = digest, ev_MediaType = evidence_type,
                 ev_StorageRef = so_Key obj, ev_GateDecisions = gates, ev_PolicySetVersion = '''',
                 ev_ApproverAuthTime = pr_AuthTime actor, ev_ApproverTokenID = ''''\<rparr>, s2))"

text \<open>The version that was approved before gives way, without an event of its lifecycle.\<close>

(*src internal/artifactgraph/app/service.go:569-587#Service.Approve*)
definition supersede_prior :: "env \<Rightarrow> ApproveInput \<Rightarrow> Principal \<Rightarrow> unit wtx" where
  "supersede_prior ev inp actor = (let t = ai_TenantID inp; p = ai_ProjectID inp in
     case ReadOnly ev (graph_scope t p actor) 5 (\<lambda>w. repo_ApprovedVersion (ev_rfault ev 5) t p (ai_ArtifactID inp) (w_versions w)) of
       Inl err \<Rightarrow> if KindOf (Some err) \<noteq> Some KindNotFound then failT err else returnT ()
     | Inr prior \<Rightarrow>
         if v_Version prior \<noteq> ai_Version inp then
           bindT (update_version ev 0 (prior\<lparr>v_Status := StatusSuperseded\<rparr>)) (\<lambda>prior'.
           emit ev 4 actor prior' ''artifact.superseded''
             [(''artifact_id'', JString (ai_ArtifactID inp)), (''superseded_version'', json_int (v_Version prior')),
              (''superseding_version'', json_int (ai_Version inp))])
         else returnT ())"

(*src internal/artifactgraph/app/service.go:556-641#Service.Approve*)
definition seal_body :: "env \<Rightarrow> ApproveInput \<Rightarrow> Principal \<Rightarrow> ApprovalEvidence \<Rightarrow> Version wtx" where
  "seal_body ev inp actor evidence = (let op = ''artifactgraph.Approve''; t = ai_TenantID inp; p = ai_ProjectID inp; aid = ai_ArtifactID inp;
       n = ai_Version inp; scp = graph_scope t p actor; gates = ev_GateDecisions evidence;
       evidence_ref = [(''evidence_id'', JString (ev_EvidenceID evidence)), (''digest'', JString (ev_Digest evidence))]
     in bindT (liftT (get_version ev scp 4 t p aid n)) (\<lambda>v0.
        checkT (v_Status v0 \<noteq> StatusUserReview) (Conflict op ''artifact.not_in_review'') (
        bindT (supersede_prior ev inp actor) (\<lambda>_.
        case SealApproval v0 (pr_ID actor) (ai_Comment inp) evidence (Now (ev_now ev 1)) of
          (Some err, _) \<Rightarrow> failT err
        | (None, v1) \<Rightarrow>
            bindT (update_version ev 1 v1) (\<lambda>v.
            bindT (liftT (get_artifact ev scp 6 t p aid)) (\<lambda>a.
            bindT (update_artifact ev 2 (a\<lparr>a_Status := StatusApproved, a_CurrentVersion := n\<rparr>)) (\<lambda>_.
            bindT (bump_graph ev 3 t p) (\<lambda>_.
            bindT (appendAudit ev 5 actor v ''artifact.approve'' SeverityWarning
                [(''approval_comment'', JString (ai_Comment inp)), (''evidence_id'', JString (ev_EvidenceID evidence)),
                 (''evidence_digest'', JString (ev_Digest evidence)), (''gate_decisions'', json_slice json_gate gates),
                 (''artifact_type'', JString (v_Type v))]) (\<lambda>_.
            bindT (emit ev 6 actor v (if v_Type v = ArtifactPRD then ''prd.approved'' else ''artifact.approved'')
                [(''artifact_id'', JString aid), (''version'', json_int n), (''artifact_type'', JString (v_Type v)),
                 (''content_hash'', JString (v_ContentHash v)), (''approved_by'', JString (pr_ID actor)),
                 (''approved_at'', JString (FormatRFC3339Nano (case v_ApprovedAt v of Some at \<Rightarrow> at | None \<Rightarrow> 0))),
                 (''approval_comment'', JString (ai_Comment inp)), (''approval_evidence'', JObject evidence_ref),
                 (''gate_decisions'', json_slice json_gate gates), (''previous_version'', json_opt_int (v_PreviousVersion v)),
                 (''change_summary'', JString (v_ChangeSummary v))]) (\<lambda>_.
            returnT v))))))))))"

(*src internal/artifactgraph/app/service.go#Service.Approve*)
definition Approve :: "env \<Rightarrow> Buckets \<Rightarrow> ApproveInput \<Rightarrow> Principal \<Rightarrow> world \<Rightarrow> Version result \<times> world" where
  "Approve ev buckets inp actor w = (case approve_checks ev inp actor of
       Inl err \<Rightarrow> (Inl err, w)
     | Inr checked \<Rightarrow>
         (case store_evidence ev buckets inp actor checked (w_objects w) of
            (Inl err, s) \<Rightarrow> (Inl err, w\<lparr>w_objects := s\<rparr>)
          | (Inr evidence, s) \<Rightarrow>
              in_tx ev (graph_scope (ai_TenantID inp) (ai_ProjectID inp) actor) (seal_body ev inp actor evidence)
                (w\<lparr>w_objects := s\<rparr>)))"

section \<open>Revision\<close>

(*src internal/artifactgraph/app/service.go#Service.Revise*)
definition Revise ::
  "env \<Rightarrow> TenantID \<Rightarrow> ProjectID \<Rightarrow> ArtifactID \<Rightarrow> string \<Rightarrow> Principal \<Rightarrow> world \<Rightarrow> Version result \<times> world" where
  "Revise ev t p aid changeSummary actor = (let scp = graph_scope t p actor in
     in_tx ev scp
       (bindT (liftT (get_artifact ev scp 0 t p aid)) (\<lambda>a.
        case Require (ev_policy ev) (ev_now ev 0) actor ArtifactEdit (artifact_resource t p aid (a_CreatedBy a) (a_Type a)) of
          Some err \<Rightarrow> failT err
        | None \<Rightarrow>
            bindT (liftT (get_version ev scp 1 t p aid (a_CurrentVersion a))) (\<lambda>latest.
            bindT (liftT (Version_Revise (ev_now ev 1) latest changeSummary (pr_ID actor) ((v_Generator zero_version)\<lparr>g_Kind := GeneratedByUser\<rparr>))) (\<lambda>v.
            bindT (create_version ev 0 v) (\<lambda>_.
            bindT (update_artifact ev 1 (a\<lparr>a_CurrentVersion := v_Version v, a_Status := StatusDraft\<rparr>)) (\<lambda>_.
            bindT (bump_graph ev 2 t p) (\<lambda>_.
            bindT (appendAudit ev 2 actor v ''artifact.revise'' SeverityNotice
                [(''change_summary'', JString changeSummary), (''previous_version'', json_int (v_Version latest))]) (\<lambda>_.
            bindT (emit ev 3 actor v ''artifact.version.created''
                [(''artifact_id'', JString aid), (''version'', json_int (v_Version v)),
                 (''previous_version'', json_int (v_Version latest)), (''change_summary'', JString changeSummary),
                 (''content_hash'', JString (v_ContentHash v))]) (\<lambda>_.
            returnT v))))))))))"

section \<open>Reads\<close>

definition graph_resource :: "TenantID \<Rightarrow> ProjectID \<Rightarrow> string \<Rightarrow> string \<Rightarrow> Resource" where
  "graph_resource t p kind aid = (artifact_resource t p aid '''' '''')\<lparr>res_Type := kind\<rparr>"

(*src internal/artifactgraph/app/service.go#Service.GetVersion*)
definition GetVersion :: "env \<Rightarrow> TenantID \<Rightarrow> ProjectID \<Rightarrow> ArtifactID \<Rightarrow> int \<Rightarrow> Principal \<Rightarrow> Version result" where
  "GetVersion ev t p aid n actor =
     failR (Require (ev_policy ev) (ev_now ev 0) actor ArtifactRead (graph_resource t p ''artifact'' aid))
       (get_version ev (graph_scope t p actor) 0 t p aid n)"

(*src internal/artifactgraph/app/service.go#Service.GetArtifact*)
definition GetArtifact :: "env \<Rightarrow> TenantID \<Rightarrow> ProjectID \<Rightarrow> ArtifactID \<Rightarrow> Principal \<Rightarrow> (Artifact \<times> Version list) result" where
  "GetArtifact ev t p aid actor =
     failR (Require (ev_policy ev) (ev_now ev 0) actor ArtifactRead (graph_resource t p ''artifact'' aid))
       (bindR (get_artifact ev (graph_scope t p actor) 0 t p aid) (\<lambda>a.
        bindR (ReadOnly ev (graph_scope t p actor) 1 (\<lambda>w. repo_ListVersions (ev_rfault ev 1) t p aid (w_versions w))) (\<lambda>versions.
        Inr (a, versions))))"

text \<open>The evidence comes from the store as it is when it is asked for.\<close>

(*src internal/artifactgraph/app/service.go#Service.Evidence*)
definition Evidence ::
  "env \<Rightarrow> Buckets \<Rightarrow> TenantID \<Rightarrow> ProjectID \<Rightarrow> ArtifactID \<Rightarrow> int \<Rightarrow> Principal \<Rightarrow> object_store \<Rightarrow> string result" where
  "Evidence ev buckets t p aid n actor s = bindR (GetVersion ev t p aid n actor) (\<lambda>v.
     case v_ApprovalEvidence v of
       None \<Rightarrow> Inl (NotFound ''artifactgraph.Evidence'' ''artifact.no_evidence'')
     | Some e \<Rightarrow> bindR (GetVerified (store_Get (bk_Evidence buckets) (ev_StorageRef e) s) (ev_Digest e)) (\<lambda>(body, _). Inr body))"

end
