(* ===== verification/LinkService.thy ===== *)
theory LinkService
  imports ArtifactService
begin

text \<open>
  The trace link use cases and the traceability queries, \<^verbatim>\<open>internal/artifactgraph/app/links.go\<close>. The
  writes run in one transaction with the audit record and the event; the queries read one committed
  state. \<open>collate\<close> is the collation of the database, see \<open>LinkRepo\<close>.
\<close>

section \<open>Inputs, records and events\<close>

(*src internal/artifactgraph/app/links.go#LinkInput*)
record LinkInput =
  li_TenantID :: TenantID
  li_ProjectID :: ProjectID
  li_From :: ArtifactRef
  li_To :: ArtifactRef
  li_Type :: LinkType
  li_Origin :: LinkOrigin
  li_Confidence :: "bool \<times> f64"
  li_Rationale :: string

definition json_float :: "bool \<times> f64 \<Rightarrow> json" where "json_float x = JNumber (formatFloat x)"

definition link_audit :: "env \<Rightarrow> nat \<Rightarrow> Principal \<Rightarrow> TenantID \<Rightarrow> ProjectID \<Rightarrow> LinkID \<Rightarrow> string \<Rightarrow> Severity \<Rightarrow> (string \<times> json) list \<Rightarrow> unit wtx" where
  "link_audit ev k actor t p lid action severity attrs = audit_append ev k (with_attrs attrs
     (NewRecord (ev_now ev k) t (Some p) action OutcomeSuccess severity (auditActor actor)
       \<lparr>tg_Type = ''TraceLink'', tg_ID = lid, tg_Version = 0, tg_ProjectID = p, tg_ContentHash = ''''\<rparr>))"

(*src internal/artifactgraph/app/links.go#Service.emitLink*)
definition emitLink :: "env \<Rightarrow> nat \<Rightarrow> Principal \<Rightarrow> TraceLink \<Rightarrow> string \<Rightarrow> unit wtx" where
  "emitLink ev k actor l eventType = emitRaw ev k actor (l_TenantID l) (Some (l_ProjectID l)) ''TraceLink'' (l_LinkID l) 0 eventType
     [(''link_id'', JString (l_LinkID l)), (''from'', JString (ArtifactRef_String (l_From l))),
      (''to'', JString (ArtifactRef_String (l_To l))), (''link_type'', JString (l_Type l)),
      (''origin'', JString (l_Origin l)), (''confidence'', json_float (l_Confidence l)), (''status'', JString (l_Status l))]"

definition create_link :: "env \<Rightarrow> nat \<Rightarrow> TraceLink \<Rightarrow> unit wtx" where
  "create_link ev k l = (\<lambda>w. zoomT w_links put_links (repo_CreateLink (ev_fault ev k) (w_versions w) l) w)"

definition update_link :: "env \<Rightarrow> nat \<Rightarrow> TraceLink \<Rightarrow> TraceLink wtx" where
  "update_link ev k l = (\<lambda>w. zoomT w_links put_links (repo_UpdateLink (ev_fault ev k) (w_versions w) (ev_db ev) l) w)"

definition get_link :: "env \<Rightarrow> TenantContext \<Rightarrow> nat \<Rightarrow> TenantID \<Rightarrow> ProjectID \<Rightarrow> LinkID \<Rightarrow> TraceLink result" where
  "get_link ev scp k t p lid = ReadOnly ev scp k (\<lambda>w. repo_GetLink (ev_rfault ev k) t p lid (w_links w))"

section \<open>Creating, accepting and rejecting\<close>

(*src internal/artifactgraph/app/links.go#Service.CreateLink*)
definition CreateLink :: "env \<Rightarrow> LinkInput \<Rightarrow> Principal \<Rightarrow> world \<Rightarrow> TraceLink result \<times> world" where
  "CreateLink ev inp actor w = (let op = ''artifactgraph.CreateLink''; t = li_TenantID inp; p = li_ProjectID inp in
     case Require (ev_policy ev) (ev_now ev 0) actor LinkCreate (graph_resource t p ''link'' '''') of
       Some err \<Rightarrow> (Inl err, w)
     | None \<Rightarrow>
         (case NewTraceLink (ev_now ev 1) t p (ev_id ev 8) (li_From inp) (li_To inp) (li_Type inp) (li_Origin inp)
             (li_Confidence inp) (pr_ID actor) of
            Inl err \<Rightarrow> (Inl err, w)
          | Inr l0 \<Rightarrow>
              let l = l0\<lparr>l_Rationale := li_Rationale inp\<rparr> in
              if li_Origin inp = OriginHuman \<and> IsMachine actor then (Inl (Forbidden op ''link.origin_not_permitted''), w)
              else in_tx ev (graph_scope t p actor)
                (bindT (create_link ev 0 l) (\<lambda>_.
                 bindT (bump_graph ev 1 t p) (\<lambda>_.
                 bindT (link_audit ev 2 actor t p (l_LinkID l) ''trace_link.create'' SeverityInfo
                     [(''from'', JString (ArtifactRef_String (li_From inp))), (''to'', JString (ArtifactRef_String (li_To inp))),
                      (''link_type'', JString (li_Type inp)), (''origin'', JString (li_Origin inp)),
                      (''confidence'', json_float (li_Confidence inp)), (''status'', JString (l_Status l))]) (\<lambda>_.
                 bindT (emitLink ev 3 actor l (if l_Status l = LinkAccepted then ''trace_link.accepted'' else ''trace_link.proposed'')) (\<lambda>_.
                 returnT l))))) w))"

(*src internal/artifactgraph/app/links.go#Service.AcceptLink*)
definition AcceptLink ::
  "env \<Rightarrow> TenantID \<Rightarrow> ProjectID \<Rightarrow> LinkID \<Rightarrow> string \<Rightarrow> Principal \<Rightarrow> world \<Rightarrow> TraceLink result \<times> world" where
  "AcceptLink ev t p lid dispositionID actor w =
     (case Require (ev_policy ev) (ev_now ev 0) actor LinkAccept (graph_resource t p ''link'' lid) of
        Some err \<Rightarrow> (Inl err, w)
      | None \<Rightarrow> let scp = graph_scope t p actor in
          in_tx ev scp
            (bindT (liftT (get_link ev scp 0 t p lid)) (\<lambda>l0.
             case Accept (ev_now ev 1) l0 dispositionID (pr_ID actor) of
               (Some err, _) \<Rightarrow> failT err
             | (None, l1) \<Rightarrow>
                 bindT (update_link ev 0 l1) (\<lambda>l.
                 bindT (bump_graph ev 1 t p) (\<lambda>_.
                 bindT (link_audit ev 2 actor t p lid ''trace_link.accept'' SeverityNotice
                     [(''origin'', JString (l_Origin l)), (''disposition_id'', JString dispositionID)]) (\<lambda>_.
                 bindT (emitLink ev 3 actor l ''trace_link.accepted'') (\<lambda>_.
                 returnT l)))))) w)"

(*src internal/artifactgraph/app/links.go#Service.RejectLink*)
definition RejectLink ::
  "env \<Rightarrow> TenantID \<Rightarrow> ProjectID \<Rightarrow> LinkID \<Rightarrow> string \<Rightarrow> Principal \<Rightarrow> world \<Rightarrow> TraceLink result \<times> world" where
  "RejectLink ev t p lid rationale actor w =
     (case Require (ev_policy ev) (ev_now ev 0) actor LinkReject (graph_resource t p ''link'' lid) of
        Some err \<Rightarrow> (Inl err, w)
      | None \<Rightarrow> let scp = graph_scope t p actor in
          in_tx ev scp
            (bindT (liftT (get_link ev scp 0 t p lid)) (\<lambda>l0.
             case Reject (ev_now ev 1) l0 rationale (pr_ID actor) of
               (Some err, _) \<Rightarrow> failT err
             | (None, l1) \<Rightarrow>
                 bindT (update_link ev 0 l1) (\<lambda>l.
                 bindT (link_audit ev 1 actor t p lid ''trace_link.reject'' SeverityInfo [(''rationale'', JString rationale)]) (\<lambda>_.
                 bindT (emitLink ev 2 actor l ''trace_link.rejected'') (\<lambda>_.
                 returnT l))))) w)"

section \<open>Queries\<close>

(*src internal/artifactgraph/app/links.go#Service.ListLinks*)
definition ListLinks :: "env \<Rightarrow> LinkFilter \<Rightarrow> Principal \<Rightarrow> TraceLink list result" where
  "ListLinks ev f actor = (let t = lf_TenantID f; p = lf_ProjectID f in
     failR (Require (ev_policy ev) (ev_now ev 0) actor LinkRead (graph_resource t p ''link'' ''''))
       (ReadOnly ev (graph_scope t p actor) 0 (\<lambda>w. repo_ListLinks (ev_rfault ev 0) f (w_links w))))"

(*src internal/artifactgraph/app/service.go:146-148#NewService*)
definition service_depth :: "int \<Rightarrow> int" where
  "service_depth configured = (if configured \<le> 0 then 12 else configured)"

text \<open>\<open>None\<close> is a query that does not return.\<close>

(*src internal/artifactgraph/app/links.go#Service.traverse*)
definition traverse ::
  "env \<Rightarrow> (ArtifactID \<Rightarrow> nat) \<Rightarrow> int \<Rightarrow> TenantID \<Rightarrow> ProjectID \<Rightarrow> ArtifactRef \<Rightarrow> Direction \<Rightarrow> ArtifactType list \<Rightarrow> Principal \<Rightarrow>
   Paths result option" where
  "traverse ev collate configured t p start dir filterTypes actor =
     (case Require (ev_policy ev) (ev_now ev 0) actor ArtifactRead (graph_resource t p ''artifact'' '''') of
        Some err \<Rightarrow> Some (Inl err)
      | None \<Rightarrow>
          (case ReadOnly ev (graph_scope t p actor) 0 Inr of
             Inl err \<Rightarrow> Some (Inl err)
           | Inr w \<Rightarrow> repo_Traverse (ev_rfault ev 0) collate \<lparr>ts_TenantID = t, ts_ProjectID = p, ts_Start = start, ts_Direction = dir,
               ts_LinkTypes = [], ts_ArtifactTypes = filterTypes, ts_MaxDepth = service_depth configured, ts_IncludeProposed = False\<rparr>
               (w_artifacts w) (w_versions w) (w_links w)))"

(*src internal/artifactgraph/app/links.go#Service.Upstream*)
definition svc_Upstream where
  "svc_Upstream ev collate configured t p start = traverse ev collate configured t p start Upstream"

(*src internal/artifactgraph/app/links.go#Service.Downstream*)
definition svc_Downstream where
  "svc_Downstream ev collate configured t p start = traverse ev collate configured t p start Downstream"

(*src internal/artifactgraph/app/links.go:266-275#Service.Impact*)
definition impacted :: "Path list \<Rightarrow> Impacted list" where
  "impacted ps = map (\<lambda>P. let (severity, reason) = SeverityForHop (h_LinkType (last (p_Hops P))) (p_Status P) (p_Depth P) in
       \<lparr>im_Target = p_Target P, im_Type = p_Type P, im_Status = p_Status P, im_Distance = p_Depth P, im_Severity = severity,
        im_Reason = reason, im_Path = p_Hops P\<rparr>)
     (filter (\<lambda>P. p_Hops P \<noteq> []) ps)"

(*src internal/artifactgraph/app/links.go#Service.Impact*)
definition Impact ::
  "env \<Rightarrow> (ArtifactID \<Rightarrow> nat) \<Rightarrow> int \<Rightarrow> TenantID \<Rightarrow> ProjectID \<Rightarrow> ArtifactRef \<Rightarrow> Principal \<Rightarrow> ImpactSet result option" where
  "Impact ev collate configured t p subject actor =
     map_option (\<lambda>r. bindR r (\<lambda>paths. let ims = impacted (ps_Paths paths) in
        Inr \<lparr>is_Subject = subject, is_Impacted = ims, is_Truncated = ps_Truncated paths,
          is_BlastRadius = int (length (filter (\<lambda>im. AtLeast (im_Severity im) ImpactHigh) ims))\<rparr>))
       (svc_Downstream ev collate configured t p subject [] actor)"

end
