(* ===== verification/Graph.thy ===== *)
theory Graph
  imports LinkService TenancyService
begin

text \<open>
  What the use cases keep of the database, statement by statement. \<open>graph_inv\<close> says what holds of
  every state; \<open>later w w'\<close> says what holds of \<open>w'\<close> when a history leads to it from \<open>w\<close>: rows stay
  under their keys, a row whose version number is the same is the same row, sealed versions are kept,
  and the audit log and the outbox are only appended to. A call reads states of the past, so its
  lemmas assume that the current state is later than all of them.
\<close>

section \<open>The invariant\<close>

definition version_exists :: "Version list \<Rightarrow> TenantID \<Rightarrow> ProjectID \<Rightarrow> ArtifactRef \<Rightarrow> bool" where
  "version_exists vs t p r \<longleftrightarrow> (\<exists>v \<in> set vs. version_key v = (t, p, ref_ArtifactID r, ref_Version r))"

text \<open>A row of the links table: its constraints, both of its endpoints, and a disposition on what a
  model proposed and somebody accepted.\<close>

definition link_row_ok :: "Version list \<Rightarrow> TraceLink \<Rightarrow> bool" where
  "link_row_ok vs l \<longleftrightarrow> link_checks l = None \<and>
     version_exists vs (l_TenantID l) (l_ProjectID l) (l_From l) \<and>
     version_exists vs (l_TenantID l) (l_ProjectID l) (l_To l) \<and>
     (l_Origin l = OriginLLMProposed \<and> Active l \<longrightarrow> (\<exists>d. l_DispositionID l = Some d \<and> d \<noteq> ''''))"

definition graph_inv :: "world \<Rightarrow> bool" where
  "graph_inv w \<longleftrightarrow> versions_inv (w_versions w) \<and> distinct (map artifact_key (w_artifacts w)) \<and>
     distinct (map link_key (w_links w)) \<and> (\<forall>l \<in> set (w_links w). link_row_ok (w_versions w) l) \<and>
     distinct (map t_ID (w_tenants w)) \<and> audit_inv (w_audit w) \<and> store_sound (w_objects w)"

definition later :: "world \<Rightarrow> world \<Rightarrow> bool" where
  "later w w' \<longleftrightarrow> graph_inv w' \<and>
     evolves version_key v_VersionNo (w_versions w) (w_versions w') \<and> keeps_sealed (w_versions w) (w_versions w') \<and>
     evolves artifact_key a_Version (w_artifacts w) (w_artifacts w') \<and>
     evolves link_key l_VersionNo (w_links w) (w_links w') \<and>
     evolves t_ID t_Version (w_tenants w) (w_tenants w') \<and>
     (\<exists>rs. as_records (w_audit w') = as_records (w_audit w) @ rs) \<and>
     (\<exists>es. map ob_event (w_outbox w') = map ob_event (w_outbox w) @ es)"

lemma later_inv: "later w w' \<Longrightarrow> graph_inv w'"
  by (simp add: later_def)

lemma later_refl: "graph_inv w \<Longrightarrow> later w w"
  by (simp add: later_def graph_inv_def evolves_refl versions_inv_keys keeps_sealed_refl)

lemma later_trans: "later w w' \<Longrightarrow> later w' w'' \<Longrightarrow> later w w''"
  unfolding later_def by (elim conjE exE, intro conjI) (assumption | erule (1) evolves_trans keeps_sealed_trans | force)+

lemma version_exists_evolves: "evolves version_key v_VersionNo vs vs' \<Longrightarrow> version_exists vs t p r \<Longrightarrow> version_exists vs' t p r"
  unfolding version_exists_def evolves_def by metis

lemma link_rows_evolve:
  "evolves version_key v_VersionNo vs vs' \<Longrightarrow> \<forall>l \<in> set ls. link_row_ok vs l \<Longrightarrow> \<forall>l \<in> set ls. link_row_ok vs' l"
  by (auto simp: link_row_ok_def version_exists_evolves)

text \<open>Steps on one of the tables.\<close>

lemma later_versions:
  assumes "graph_inv w" "versions_inv vs" "evolves version_key v_VersionNo (w_versions w) vs" "keeps_sealed (w_versions w) vs"
  shows "later w (put_versions vs w)"
  using assms link_rows_evolve [OF assms(3), of "w_links w"]
  by (simp add: later_def graph_inv_def put_defs evolves_refl versions_inv_keys)

lemma later_artifacts:
  assumes "graph_inv w" "evolves artifact_key a_Version (w_artifacts w) as"
  shows "later w (put_artifacts as w)"
proof -
  have "distinct (map artifact_key as)" using assms(2) by (simp add: evolves_def)
  then show ?thesis using assms
    by (simp add: later_def graph_inv_def put_defs evolves_refl versions_inv_keys keeps_sealed_refl)
qed

lemma later_links:
  assumes "graph_inv w" "evolves link_key l_VersionNo (w_links w) ls" "\<forall>l \<in> set ls. link_row_ok (w_versions w) l"
  shows "later w (put_links ls w)"
proof -
  have "distinct (map link_key ls)" using assms(2) by (simp add: evolves_def)
  then show ?thesis using assms
    by (simp add: later_def graph_inv_def put_defs evolves_refl versions_inv_keys keeps_sealed_refl)
qed

lemma later_tenants:
  assumes "graph_inv w" "evolves t_ID t_Version (w_tenants w) ts"
  shows "later w (put_tenants ts w)"
proof -
  have "distinct (map t_ID ts)" using assms(2) by (simp add: evolves_def)
  then show ?thesis using assms
    by (simp add: later_def graph_inv_def put_defs evolves_refl versions_inv_keys keeps_sealed_refl)
qed

lemma later_projects: "graph_inv w \<Longrightarrow> later w (put_projects ps w)"
  by (simp add: later_def graph_inv_def put_defs evolves_refl versions_inv_keys keeps_sealed_refl)

lemma later_audit: "graph_inv w \<Longrightarrow> audit_inv s \<Longrightarrow> as_records s = as_records (w_audit w) @ rs \<Longrightarrow> later w (put_audit s w)"
  by (simp add: later_def graph_inv_def put_defs evolves_refl versions_inv_keys keeps_sealed_refl)

lemma later_outbox: "graph_inv w \<Longrightarrow> map ob_event rows = map ob_event (w_outbox w) @ es \<Longrightarrow> later w (put_outbox rows w)"
  by (simp add: later_def graph_inv_def put_defs evolves_refl versions_inv_keys keeps_sealed_refl)

lemma later_objects: "graph_inv w \<Longrightarrow> store_sound s \<Longrightarrow> later w (w\<lparr>w_objects := s\<rparr>)"
  by (simp add: later_def graph_inv_def evolves_refl versions_inv_keys keeps_sealed_refl)

section \<open>Statements\<close>

lemma audit_append_later: "graph_inv w \<Longrightarrow> audit_append ev k r w = Inr (u, w') \<Longrightarrow> later w w'"
proof -
  assume w: "graph_inv w" and "audit_append ev k r w = Inr (u, w')"
  then obtain x s' where s: "Audit_Append (ev_audit ev k) (tenant_exists w) (ev_id ev k) (ev_now ev k) r (w_audit w) = Inr (x, s')" "w' = put_audit s' w"
    by (auto simp: audit_append_def monad_inv)
  have "audit_inv s'" using Append_log [OF _ s(1)] w by (simp add: graph_inv_def)
  moreover obtain rs where "as_records s' = as_records (w_audit w) @ rs"
    using s(1) by (cases rule: Audit_Append_Inr) blast
  ultimately show ?thesis unfolding s(2) by (intro later_audit w)
qed

lemma emit_event_later: "graph_inv w \<Longrightarrow> emit_event ev k ty t p agg actor payload wrap w = Inr (u, w') \<Longrightarrow> later w w'"
proof -
  assume w: "graph_inv w" and e: "emit_event ev k ty t p agg actor payload wrap w = Inr (u, w')"
  then obtain rows where "w' = put_outbox rows w"
    by (auto simp: emit_event_def outbox_append_def monad_inv split: sum.splits)
  then show ?thesis using emit_event_rows [OF e] w by (auto intro: later_outbox)
qed

lemma bump_graph_later: "graph_inv w \<Longrightarrow> bump_graph ev k t p w = Inr (n, w') \<Longrightarrow> later w w'"
  by (auto simp: bump_graph_def monad_inv intro: later_projects)

lemma appendAudit_later: "graph_inv w \<Longrightarrow> appendAudit ev k actor v action sev attrs w = Inr (u, w') \<Longrightarrow> later w w'"
  unfolding appendAudit_def by (rule audit_append_later)

lemma emit_later: "graph_inv w \<Longrightarrow> emit ev k actor v ty payload w = Inr (u, w') \<Longrightarrow> later w w'"
  unfolding emit_def by (rule emit_event_later)

lemma link_audit_later: "graph_inv w \<Longrightarrow> link_audit ev k actor t p lid action sev attrs w = Inr (u, w') \<Longrightarrow> later w w'"
  unfolding link_audit_def by (rule audit_append_later)

lemma emitLink_later: "graph_inv w \<Longrightarrow> emitLink ev k actor l ty w = Inr (u, w') \<Longrightarrow> later w w'"
  unfolding emitLink_def emitRaw_def by (rule emit_event_later)

lemma create_artifact_later: "graph_inv w \<Longrightarrow> create_artifact ev k a w = Inr (u, w') \<Longrightarrow> later w w'"
  by (auto simp: create_artifact_def repo_CreateArtifact_def artifact_uniques_def monad_inv
      intro!: later_artifacts evolves_insert)

lemma update_artifact_later: "graph_inv w \<Longrightarrow> update_artifact ev k a w = Inr (a', w') \<Longrightarrow> later w w'"
proof -
  assume w: "graph_inv w" and "update_artifact ev k a w = Inr (a', w')"
  then obtain n as where u: "update_versioned artifact_key a_Version (set_artifact (ev_db ev) a) (\<lambda>_. artifact_checks)
      artifact_uniques a (w_artifacts w) = Inr (n, as)" "n \<noteq> 0" "w' = put_artifacts as w"
    by (auto simp: update_artifact_def repo_UpdateArtifact_def monad_inv)
  have "as = artifacts.replace (ev_db ev) a (w_artifacts w)" using artifacts.update_hits [OF u(1,2)] by blast
  then show ?thesis using w unfolding u(3) by (auto simp: graph_inv_def intro!: later_artifacts artifacts.replace_evolves)
qed

lemma create_version_later:
  assumes "graph_inv w" "create_version ev k v w = Inr (u, w')" "version_integers v \<Longrightarrow> Version_Verify v = None"
    and "v_Version v \<noteq> 1 \<longrightarrow> (\<exists>u \<in> set (w_versions w). version_artifact u = version_artifact v \<and> v_Version u = v_Version v - 1)"
  shows "later w w'"
proof -
  obtain vs where r: "repo_CreateVersion (ev_fault ev k) (ev_fits ev) (\<lambda>a. list_ex (\<lambda>x. artifact_key x = a) (w_artifacts w)) v
      (w_versions w) = Inr (u, vs)" "w' = put_versions vs w"
    using assms(2) by (auto simp: create_version_def monad_inv)
  have i: "versions_inv (w_versions w)" using assms(1) by (simp add: graph_inv_def)
  have "version_integers v" using r(1)
    by (simp add: repo_CreateVersion_def version_checks_def version_integers_def inserted_version_def monad_inv split: if_splits)
  note c = create_version_inv [OF r(1) i assms(3) [OF this] assms(4)]
  show ?thesis unfolding r(2) by (rule later_versions [OF assms(1) c(2,3,4)])
qed

lemma update_version_later:
  assumes "graph_inv w" "update_version ev k x w = Inr (x', w')" "later past w" "r0 \<in> set (w_versions past)"
    and "same_identity x r0" "v_VersionNo x = v_VersionNo r0" "Version_Verify x = None"
  shows "later w w'" "r0 \<in> set (w_versions w)" "set_version (ev_db ev) x r0 \<in> set (w_versions w')"
    "x' = x\<lparr>v_VersionNo := v_VersionNo x + 1\<rparr>" "immutability_trigger r0 (set_version (ev_db ev) x r0) = None"
    "w' = put_versions (versions.replace (ev_db ev) x (w_versions w)) w"
proof -
  obtain vs where r: "repo_UpdateVersion (ev_fault ev k) (ev_fits ev) (ev_db ev) x (w_versions w) = Inr (x', vs)"
      "w' = put_versions vs w"
    using assms(2) by (auto simp: update_version_def monad_inv)
  have i: "versions_inv (w_versions w)" "evolves version_key v_VersionNo (w_versions past) (w_versions w)"
    using assms(1,3) by (simp_all add: graph_inv_def later_def)
  note u = update_version_inv [OF r(1) i assms(4-7)]
  show "later w w'" unfolding r(2) by (rule later_versions [OF assms(1) u(4,5,6)])
  show "r0 \<in> set (w_versions w)" "x' = x\<lparr>v_VersionNo := v_VersionNo x + 1\<rparr>"
    "immutability_trigger r0 (set_version (ev_db ev) x r0) = None" by (fact u)+
  show "set_version (ev_db ev) x r0 \<in> set (w_versions w')" "w' = put_versions (versions.replace (ev_db ev) x (w_versions w)) w"
    using u(2,3) by (simp_all add: r(2))
qed

section \<open>Links and tenants\<close>

lemma endpoint_trigger_None: "endpoint_trigger vs l = None \<longleftrightarrow>
    version_exists vs (l_TenantID l) (l_ProjectID l) (l_From l) \<and> version_exists vs (l_TenantID l) (l_ProjectID l) (l_To l)"
  by (auto simp: endpoint_trigger_def Let_def monad_inv version_exists_def list_ex_iff)

definition disposed :: "TraceLink \<Rightarrow> bool" where
  "disposed l \<longleftrightarrow> (l_Origin l = OriginLLMProposed \<and> Active l \<longrightarrow> (\<exists>d. l_DispositionID l = Some d \<and> d \<noteq> ''''))"

lemma link_row_ok_iff: "link_row_ok vs l \<longleftrightarrow> link_checks l = None \<and> endpoint_trigger vs l = None \<and> disposed l"
  by (auto simp: link_row_ok_def endpoint_trigger_None disposed_def)

lemma create_link_later:
  assumes "graph_inv w" "create_link ev k l w = Inr (u, w')" "disposed l"
  shows "later w w'" "w' = put_links (w_links w @ [l\<lparr>l_Confidence := stored_confidence (l_Confidence l)\<rparr>]) w"
proof -
  let ?l = "l\<lparr>l_Confidence := stored_confidence (l_Confidence l)\<rparr>"
  have r: "w' = put_links (w_links w @ [?l]) w" "endpoint_trigger (w_versions w) ?l = None" "link_checks ?l = None"
      "distinct (map link_key (w_links w @ [?l]))"
    using assms(2) by (auto simp: create_link_def repo_CreateLink_def link_uniques_def monad_inv)
  show "w' = put_links (w_links w @ [?l]) w" by (rule r(1))
  have "link_row_ok (w_versions w) ?l" using r(2,3) assms(3) by (simp add: link_row_ok_iff disposed_def Active_def)
  then show "later w w'" unfolding r(1) using assms(1) r(4)
    by (intro later_links evolves_insert) (auto simp: graph_inv_def)
qed

text \<open>An update that was computed from a row some earlier state had.\<close>

definition same_link :: "TraceLink \<Rightarrow> TraceLink \<Rightarrow> bool" where
  "same_link x r \<longleftrightarrow> link_key x = link_key r \<and> l_Origin x = l_Origin r \<and> l_VersionNo x = l_VersionNo r"

lemma update_link_later:
  assumes "graph_inv w" "update_link ev k x w = Inr (x', w')" "later past w" "r0 \<in> set (w_links past)"
    and "same_link x r0" "disposed x"
  shows "later w w'" "r0 \<in> set (w_links w)" "set_link (ev_db ev) x r0 \<in> set (w_links w')" "x' = x\<lparr>l_VersionNo := l_VersionNo x + 1\<rparr>"
proof -
  let ?vs = "w_versions w"
  obtain n ls where u: "update_versioned link_key l_VersionNo (set_link (ev_db ev) x)
      (\<lambda>_ new. first_error [endpoint_trigger ?vs new, link_checks new]) link_uniques x (w_links w) = Inr (n, ls)" "n \<noteq> 0"
      and w': "w' = put_links ls w" and x': "x' = x\<lparr>l_VersionNo := l_VersionNo x + 1\<rparr>"
    using assms(2) by (auto simp: update_link_def repo_UpdateLink_def monad_inv)
  have e: "evolves link_key l_VersionNo (w_links past) (w_links w)" "distinct (map link_key (w_links w))"
      "\<forall>l \<in> set (w_links w). link_row_ok ?vs l"
    using assms(1,3) by (simp_all add: graph_inv_def later_def)
  have k: "link_key r0 = link_key x" "l_VersionNo r0 = l_VersionNo x" using assms(5) by (simp_all add: same_link_def)
  note rd = links.update_read [OF u e(1) assms(4) k]
  show "r0 \<in> set (w_links w)" "set_link (ev_db ev) x r0 \<in> set (w_links w')" "x' = x\<lparr>l_VersionNo := l_VersionNo x + 1\<rparr>"
    using rd(1,3) by (simp_all add: w' x' put_links_def)
  have only: "r = r0" if "r \<in> set (w_links w)" "current link_key l_VersionNo x r" for r
    using evolves_same [OF evolves_refl [OF e(2)] rd(1) that(1)] that(2) k by (simp add: current_def)
  have new: "link_row_ok ?vs (set_link (ev_db ev) x r0)"
    using rd(2) assms(5,6) by (auto simp: link_row_ok_iff monad_inv disposed_def same_link_def set_link_def Active_def)
  have "\<forall>l \<in> set ls. link_row_ok ?vs l"
    unfolding rd(4) using links.replace_member only new e(3) by blast
  then show "later w w'" unfolding w' rd(4)
    by (intro later_links [OF assms(1)] links.replace_evolves e(2)) simp
qed

lemma create_tenant_later:
  "graph_inv w \<Longrightarrow> zoomT w_tenants put_tenants (TenantRepo_Create fault t) w = Inr (u, w') \<Longrightarrow> later w w'"
  by (auto simp: TenantRepo_Create_def tenant_uniques_def monad_inv intro!: later_tenants evolves_insert)

lemma update_tenant_later:
  "graph_inv w \<Longrightarrow> zoomT w_tenants put_tenants (TenantRepo_Update fault now t) w = Inr (t', w') \<Longrightarrow> later w w'"
proof -
  assume w: "graph_inv w" and "zoomT w_tenants put_tenants (TenantRepo_Update fault now t) w = Inr (t', w')"
  then obtain n ts where u: "update_versioned t_ID t_Version (set_tenant now t) (\<lambda>_. tenant_checks) tenant_uniques t
      (w_tenants w) = Inr (n, ts)" "n \<noteq> 0" "w' = put_tenants ts w"
    by (auto simp: TenantRepo_Update_def monad_inv)
  have "ts = tenants.replace now t (w_tenants w)" using tenants.update_hits [OF u(1,2)] by blast
  then show ?thesis using w unfolding u(3) by (auto simp: graph_inv_def intro!: later_tenants tenants.replace_evolves)
qed

lemma ensure_chain_later:
  "graph_inv w \<Longrightarrow> ensure_chain ev k t w = Inr (u, w') \<Longrightarrow> later w w'"
proof -
  assume w: "graph_inv w" and "ensure_chain ev k t w = Inr (u, w')"
  then obtain s where s: "EnsureChain (ev_audit ev k) (tenant_exists w) t (w_audit w) = Inr ((), s)" "w' = put_audit s w"
    by (auto simp: ensure_chain_def monad_inv)
  then show ?thesis using ensure_log_ok [OF _ s(1) [unfolded EnsureChain_Inr]] w
    by (auto simp: graph_inv_def intro!: later_audit [OF w, of _ "[]"])
qed

lemma projects_later: "graph_inv w \<Longrightarrow> zoomT w_projects put_projects m w = Inr (x, w') \<Longrightarrow> later w w'"
  by (auto simp: monad_inv intro: later_projects)

end
