(* ===== verification/History.thy ===== *)
theory History
  imports Graph
begin

text \<open>
  Histories of the service. A request is one call of a use case in its environment; \<open>serve\<close> runs it on
  the current state. A history is a list of states, the current one first: every call may read any
  state up to the current one, because its reads run outside its transaction, while the statements
  of its transaction act on the current one. \<open>grows\<close> is the rule of composition under which the
  lemmas on statements of \<open>Graph\<close> give lemmas on use cases.
\<close>

section \<open>Transactions that only lead to later states\<close>

definition grows :: "world set \<Rightarrow> 'a wtx \<Rightarrow> bool" where
  "grows past m \<longleftrightarrow> (\<forall>w x w'. graph_inv w \<longrightarrow> (\<forall>p \<in> past. later p w) \<longrightarrow> m w = Inr (x, w') \<longrightarrow> later w w')"

named_theorems grows_intro \<open>transactions that only lead to later states\<close>

lemma growsI: "(\<And>w x w'. graph_inv w \<Longrightarrow> \<forall>p \<in> past. later p w \<Longrightarrow> m w = Inr (x, w') \<Longrightarrow> later w w') \<Longrightarrow> grows past m"
  by (simp add: grows_def)

lemma grows_total: "(\<And>w x w'. graph_inv w \<Longrightarrow> m w = Inr (x, w') \<Longrightarrow> later w w') \<Longrightarrow> grows past m"
  by (simp add: grows_def)

lemma grows_bind: "grows past m \<Longrightarrow> (\<And>x. grows past (f x)) \<Longrightarrow> grows past (bindT m f)"
proof (rule growsI)
  fix w y w2
  assume m: "grows past m" and f: "\<And>x. grows past (f x)" and w: "graph_inv w" "\<forall>p \<in> past. later p w"
    and "bindT m f w = Inr (y, w2)"
  then obtain x w1 where s: "m w = Inr (x, w1)" "f x w1 = Inr (y, w2)" by (auto simp: monad_inv)
  have l: "later w w1" using m w s(1) by (simp add: grows_def)
  then have "\<forall>p \<in> past. later p w1" using w(2) later_trans by blast
  then have "later w1 w2" using f [of x] s(2) later_inv [OF l] by (simp add: grows_def)
  with l show "later w w2" by (rule later_trans)
qed

lemma grows_bind_lift: "(\<And>x. q = Inr x \<Longrightarrow> grows past (f x)) \<Longrightarrow> grows past (bindT (liftT q) f)"
  by (auto simp: grows_def monad_inv)

lemma grows_simple [grows_intro]: "grows past (returnT x)" "grows past (failT e)" "grows past (liftT q)" "grows past (readT g)"
  by (auto simp: grows_def monad_inv later_refl)

lemma grows_check: "(\<not> c \<Longrightarrow> grows past m) \<Longrightarrow> grows past (checkT c e m)"
  by (auto simp: grows_def monad_inv)

lemma grows_cases:
  "(c \<Longrightarrow> grows past m) \<Longrightarrow> (\<not> c \<Longrightarrow> grows past m') \<Longrightarrow> grows past (if c then m else m')"
  "(opt = None \<Longrightarrow> grows past m) \<Longrightarrow> (\<And>y. opt = Some y \<Longrightarrow> grows past (f y)) \<Longrightarrow> grows past (case opt of None \<Rightarrow> m | Some y \<Rightarrow> f y)"
  "(\<And>a b. pr = (a, b) \<Longrightarrow> grows past (g a b)) \<Longrightarrow> grows past (case pr of (a, b) \<Rightarrow> g a b)"
  "(\<And>e. r = Inl e \<Longrightarrow> grows past (h e)) \<Longrightarrow> (\<And>x. r = Inr x \<Longrightarrow> grows past (h' x)) \<Longrightarrow>
     grows past (case r of Inl e \<Rightarrow> h e | Inr x \<Rightarrow> h' x)"
  "(\<And>x. x = e' \<Longrightarrow> grows past (k x)) \<Longrightarrow> grows past (let x = e' in k x)"
  by (auto split: option.split prod.split sum.split)

lemma grows_in_tx:
  assumes "grows past body" "graph_inv w" "\<forall>p \<in> past. later p w"
  shows "later w (snd (in_tx ev tc body w))"
proof (cases "in_tx ev tc body w")
  case (Pair r w')
  show ?thesis
  proof (cases r)
    case (Inl e)
    then show ?thesis using Pair in_tx_Inl [of ev tc body w e w'] assms(2) by (simp add: later_refl)
  next
    case (Inr x)
    then have "body w = Inr (x, w')" using Pair in_tx_Inr [of ev tc body w x w'] by simp
    then have "later w w'" using assms by (simp add: grows_def)
    with Pair show ?thesis by simp
  qed
qed

lemma grows_statements [grows_intro]:
  "grows past (audit_append ev k r)"
  "grows past (emit_event ev k ty t q agg oactor payload wrap)"
  "grows past (bump_graph ev k t p)"
  "grows past (appendAudit ev k actor v action sev attrs)"
  "grows past (emit ev k actor v ty evs)"
  "grows past (link_audit ev k actor t p lid action sev attrs)"
  "grows past (emitLink ev k actor l ty)"
  "grows past (create_artifact ev k a)"
  "grows past (update_artifact ev k a)"
  "grows past (zoomT w_tenants put_tenants (TenantRepo_Create fault tn))"
  "grows past (zoomT w_tenants put_tenants (TenantRepo_Update fault now tn))"
  "grows past (ensure_chain ev k t)"
  "grows past (zoomT w_projects put_projects pm)"
  "disposed l \<Longrightarrow> grows past (create_link ev k l)"
  by (rule grows_total, erule (1) audit_append_later emit_event_later bump_graph_later appendAudit_later emit_later
      link_audit_later emitLink_later create_artifact_later update_artifact_later create_tenant_later
      update_tenant_later ensure_chain_later projects_later create_link_later; assumption)+

text \<open>The same for the handlers around a transaction.\<close>

lemma handler_cases:
  "(c \<Longrightarrow> later w (snd m)) \<Longrightarrow> (\<not> c \<Longrightarrow> later w (snd m')) \<Longrightarrow> later w (snd (if c then m else m'))"
  "(opt = None \<Longrightarrow> later w (snd m)) \<Longrightarrow> (\<And>y. opt = Some y \<Longrightarrow> later w (snd (f y))) \<Longrightarrow>
     later w (snd (case opt of None \<Rightarrow> m | Some y \<Rightarrow> f y))"
  "(\<And>e. r = Inl e \<Longrightarrow> later w (snd (h e))) \<Longrightarrow> (\<And>x. r = Inr x \<Longrightarrow> later w (snd (h' x))) \<Longrightarrow>
     later w (snd (case r of Inl e \<Rightarrow> h e | Inr x \<Rightarrow> h' x))"
  "(\<And>x. x = e' \<Longrightarrow> later w (snd (k x))) \<Longrightarrow> later w (snd (let x = e' in k x))"
  "graph_inv w \<Longrightarrow> later w (snd (r', w))"
  by (auto simp: later_refl split: option.split sum.split)

lemma call_in_tx:
  "grows (range (ev_read ev)) body \<Longrightarrow> graph_inv w \<Longrightarrow> (\<And>k. later (ev_read ev k) w) \<Longrightarrow>
   later w (snd (in_tx ev tc body w))"
  by (rule grows_in_tx [of "range (ev_read ev)"]) auto

text \<open>The structural rules, in the order they are tried.\<close>

lemmas grows_struct = grows_bind_lift grows_check grows_cases grows_bind grows_simple grows_statements

lemma grows_update_version:
  assumes "past_state \<in> past" "r0 \<in> set (w_versions past_state)" "same_identity x r0" "v_VersionNo x = v_VersionNo r0"
    and "Version_Verify x = None"
  shows "grows past (update_version ev k x)"
  using assms by (intro growsI) (blast intro: update_version_later(1))

lemma grows_create_version:
  assumes "version_integers v \<Longrightarrow> Version_Verify v = None"
    and "v_Version v \<noteq> 1 \<longrightarrow> (\<exists>p \<in> past. \<exists>u \<in> set (w_versions p). version_artifact u = version_artifact v \<and> v_Version u = v_Version v - 1)"
  shows "grows past (create_version ev k v)"
proof (rule growsI)
  fix w x w' assume w: "graph_inv w" "\<forall>p \<in> past. later p w" "create_version ev k v w = Inr (x, w')"
  have "\<exists>u \<in> set (w_versions w). version_artifact u = version_artifact v \<and> v_Version u = v_Version v - 1" if n: "v_Version v \<noteq> 1"
  proof -
    obtain p u where p: "p \<in> past" "u \<in> set (w_versions p)" "version_artifact u = version_artifact v" "v_Version u = v_Version v - 1"
      using assms(2) n by blast
    then obtain u' where "u' \<in> set (w_versions w)" "version_key u' = version_key u"
      using w(2) evolves_row [of version_key v_VersionNo "w_versions p" "w_versions w" u] by (auto simp: later_def)
    with p show ?thesis by (intro bexI [of _ u']) (auto simp: version_key_def version_artifact_def)
  qed
  then show "later w w'" using create_version_later [OF w(1,3) assms(1)] by blast
qed

lemma grows_update_link:
  assumes "past_state \<in> past" "r0 \<in> set (w_links past_state)" "same_link x r0" "disposed x"
  shows "grows past (update_link ev k x)"
  using assms by (intro growsI) (blast intro: update_link_later(1))

section \<open>What is read\<close>

lemma get_version_Inr:
  assumes "get_version ev scp k t p aid n = Inr v"
  shows "v \<in> set (w_versions (ev_read ev k))" "version_key v = (t, p, aid, n)" "Version_Verify v = None"
  using assms by (auto simp: get_version_def repo_GetVersion_def read_version_def monad_inv dest: find_Some_D)

lemma get_artifact_Inr:
  assumes "get_artifact ev scp k t p aid = Inr a"
  shows "a \<in> set (w_artifacts (ev_read ev k))" "artifact_key a = (t, p, aid)"
  using assms by (auto simp: get_artifact_def repo_GetArtifact_def monad_inv dest: find_Some_D)

lemma get_link_Inr:
  assumes "get_link ev scp k t p lid = Inr l"
  shows "l \<in> set (w_links (ev_read ev k))" "link_key l = (t, p, lid)"
  using assms by (auto simp: get_link_def repo_GetLink_def monad_inv dest: find_Some_D)

section \<open>The use cases\<close>

lemma SetContent_None:
  assumes "SetContent clock v content = (None, x)"
  shows "same_identity x v" "v_VersionNo x = v_VersionNo v" "Version_Verify x = None" "Mutable v" "v_Status x = v_Status v"
    "v_Content x = content"
proof -
  obtain h where h: "ComputeHash (v\<lparr>v_Content := content, v_UpdatedAt := Now clock\<rparr>) = Inr h"
      "x = v\<lparr>v_Content := content, v_UpdatedAt := Now clock, v_ContentHash := h\<rparr>" "Mutable v"
    using assms by (auto simp: SetContent_def Let_def split: if_splits sum.splits)
  show "same_identity x v" "v_VersionNo x = v_VersionNo v" "Mutable v" "v_Status x = v_Status v" "v_Content x = content"
    using h by (simp_all add: same_identity_def)
  have "ComputeHash x = ComputeHash (v\<lparr>v_Content := content, v_UpdatedAt := Now clock\<rparr>)"
    by (rule ComputeHash_cong) (simp add: same_hashed_def h(2))
  then show "Version_Verify x = None" by (simp add: Version_Verify_None h(1,2))
qed

lemma SealApproval_identity: "SealApproval v approver comment evidence at = (None, w) \<Longrightarrow> same_identity w v"
  by (auto simp: SealApproval_def Let_def same_identity_def split: if_splits sum.splits)

text \<open>The references of a new version fit their columns, so its hash was computed with them.\<close>

lemma created_version_verifies:
  assumes "ComputeHash v0 = Inr h0" "v1 = v0\<lparr>v_ParentArtifact := p, v_SourceArtifact := s\<rparr>"
    and "v = (case ComputeHash v1 of Inr h \<Rightarrow> v1\<lparr>v_ContentHash := h\<rparr> | Inl _ \<Rightarrow> v1)" "version_integers v"
  shows "Version_Verify v = None"
proof -
  have "v_ParentArtifact v = p" "v_SourceArtifact v = s" using assms(2,3) by (simp_all split: sum.splits)
  then have "pred_option (\<lambda>r. valid_refs [r]) p" "pred_option (\<lambda>r. valid_refs [r]) s"
    using assms(4) by (auto simp: version_integers_def int4_def valid_refs_def option.pred_set)
  then obtain h where h: "ComputeHash v1 = Inr h" using ComputeHash_refs [OF assms(1)] assms(2) by blast
  then have v: "v = v1\<lparr>v_ContentHash := h\<rparr>" using assms(3) by simp
  have "ComputeHash v = ComputeHash v1" by (rule ComputeHash_cong) (simp add: same_hashed_def v)
  then show ?thesis by (simp add: Version_Verify_None h v)
qed

lemma create_body_grows: "grows past (create_body ev inp actor)"
proof -
  have c: "grows past (create_version ev k v)"
    if v0: "NewVersion clock t p aid ty sch body gen who = Inr v0"
      and v1: "v1 = v0\<lparr>v_ParentArtifact := par, v_SourceArtifact := src\<rparr>"
      and v: "v = (case ComputeHash v1 of Inr h \<Rightarrow> v1\<lparr>v_ContentHash := h\<rparr> | Inl _ \<Rightarrow> v1)"
    for k clock t p aid ty sch body gen who v0 v1 par src v
  proof (rule grows_create_version)
    have "ComputeHash v0 = Inr (v_ContentHash v0)" using NewVersion_Inr(11) [OF v0] by (simp add: Version_Verify_None)
    then show "version_integers v \<Longrightarrow> Version_Verify v = None" by (rule created_version_verifies [OF _ v1 v])
    have "v_Version v = 1" using NewVersion_Inr(1) [OF v0] v1 v by (simp split: sum.split)
    then show "v_Version v \<noteq> 1 \<longrightarrow> (\<exists>p \<in> past. \<exists>u \<in> set (w_versions p). version_artifact u = version_artifact v \<and> v_Version u = v_Version v - 1)"
      by simp
  qed
  show ?thesis unfolding create_body_def allocateID_def
    by (rule c, assumption+ | rule grows_struct)+
qed

lemma UpdateDraft_later:
  assumes "graph_inv w" "\<And>k. later (ev_read ev k) w"
  shows "later w (snd (UpdateDraft ev t p aid n body vno actor w))"
proof -
  have u: "grows (range (ev_read ev)) (update_version ev 0 v1)"
    if "get_version ev (graph_scope t p actor) 0 t p aid n = Inr v0" "SetContent clock v0 body = (r, v1)" "r = None" for v0 v1 clock r
    using get_version_Inr(1) [OF that(1)] SetContent_None(1-3) [of clock v0 body v1] that(2,3)
    by (intro grows_update_version [of "ev_read ev 0" _ v0]) auto
  show ?thesis unfolding UpdateDraft_def Let_def
    by (rule grows_in_tx [of "range (ev_read ev)"], (rule u, assumption+ | rule grows_struct)+) (use assms in auto)
qed

lemma Create_later:
  assumes "graph_inv w" "\<And>k. later (ev_read ev k) w"
  shows "later w (snd (Create ev inp actor w))"
proof -
  have "later w (snd (in_tx ev scp (create_body ev inp' actor) w))" for scp inp'
    by (rule grows_in_tx [of "range (ev_read ev)"]) (use assms create_body_grows in auto)
  then show ?thesis using assms(1) by (simp add: Create_def Let_def later_refl split: option.split)
qed

lemma fire_outcome: "(case r of (Inl err, _) \<Rightarrow> Inl err | (Inr out, v) \<Rightarrow> Inr (out, v)) = Inr (o', v') \<longleftrightarrow> r = (Inr o', v')"
  by (cases r) (auto split: sum.splits)

lemma fire_Inr:
  assumes "fire ev scp k actor v e p = Inr (out, v')"
  shows "v' = v" "(v_Status v, e, out_To out, out_Permission out) \<in> artifact_moves" "out_From out = v_Status v"
proof -
  obtain chk where f: "Fire artifact_machine (v_Status v) e v chk = (Inr out, v')"
    using assms unfolding fire_def Let_def fire_outcome bindR_Inr by blast
  show "v' = v" "(v_Status v, e, out_To out, out_Permission out) \<in> artifact_moves" "out_From out = v_Status v"
    using artifact_fire [OF f] by simp_all
qed

lemma restatus:
  "same_identity (v\<lparr>v_Status := s\<rparr>) v" "same_identity (v\<lparr>v_Status := s, v_UpdatedAt := t\<rparr>) v"
  "Version_Verify (v\<lparr>v_Status := s\<rparr>) = Version_Verify v"
  "Version_Verify (v\<lparr>v_Status := s, v_UpdatedAt := t\<rparr>) = Version_Verify v"
  by (simp_all add: same_identity_def) (rule Version_Verify_cong; simp add: same_hashed_def)+

lemma Transition_later:
  assumes "graph_inv w" "\<And>k. later (ev_read ev k) w"
  shows "later w (snd (Transition ev t p aid n e comment actor w))"
proof -
  have u: "grows (range (ev_read ev)) (update_version ev 0 v2)"
    if "get_version ev scp 0 t p aid n = Inr v0" "fire ev scp 1 actor v0 e p = Inr r" "r = (out, v1)"
      "v2 = v1\<lparr>v_Status := st, v_UpdatedAt := at\<rparr>" for v0 v1 v2 out st at scp r
    using get_version_Inr [OF that(1)] fire_Inr(1) [of ev scp 1 actor v0 e p out v1] that(2,3,4)
    by (intro grows_update_version [of "ev_read ev 0" _ v0]) (auto simp: restatus)
  show ?thesis unfolding Transition_def
    by (rule handler_cases call_in_tx assms | rule u, assumption+ | rule grows_struct)+
qed

lemma Revise_later:
  assumes "graph_inv w" "\<And>k. later (ev_read ev k) w"
  shows "later w (snd (Revise ev t p aid summary actor w))"
proof -
  have c: "grows (range (ev_read ev)) (create_version ev k v)"
    if "get_version ev scp 1 t p aid n = Inr v0" "Version_Revise clock v0 summary who gen = Inr v" for k v v0 scp n clock who gen
  proof (rule grows_create_version)
    show "Version_Verify v = None" by (rule Version_Revise_Inr(11) [OF that(2)])
    show "v_Version v \<noteq> 1 \<longrightarrow> (\<exists>p \<in> range (ev_read ev). \<exists>u \<in> set (w_versions p). version_artifact u = version_artifact v \<and>
        v_Version u = v_Version v - 1)"
      using get_version_Inr(1) [OF that(1)] Version_Revise_Inr(1,5,6,7) [OF that(2)]
      by (auto simp: version_artifact_def intro!: bexI [of _ v0])
  qed
  show ?thesis unfolding Revise_def Let_def
    by (rule grows_in_tx [of "range (ev_read ev)"], (rule c, assumption+ | rule grows_struct)+) (use assms in auto)
qed

lemma approved_read_Inr:
  assumes "ReadOnly ev scp k (\<lambda>w. repo_ApprovedVersion f t p aid (w_versions w)) = Inr v"
  shows "v \<in> set (w_versions (ev_read ev k))" "version_artifact v = (t, p, aid)" "v_Status v = StatusApproved"
  using assms by (auto simp: repo_ApprovedVersion_def monad_inv dest!: find_Some_D)

lemma supersede_prior_grows:
  assumes "graph_inv (ev_read ev 5)"
  shows "grows (range (ev_read ev)) (supersede_prior ev inp actor)"
proof -
  have u: "grows (range (ev_read ev)) (update_version ev 0 (prior\<lparr>v_Status := StatusSuperseded\<rparr>))"
    if "ReadOnly ev scp 5 (\<lambda>w. repo_ApprovedVersion f t p aid (w_versions w)) = Inr prior" for scp f t p aid prior
  proof (rule grows_update_version [of "ev_read ev 5" _ prior])
    show "prior \<in> set (w_versions (ev_read ev 5))" by (rule approved_read_Inr(1) [OF that])
    then have "Version_Verify prior = None" using assms by (simp add: graph_inv_def versions_inv_def version_row_ok_def)
    then show "Version_Verify (prior\<lparr>v_Status := StatusSuperseded\<rparr>) = None" by (simp add: restatus)
  qed (simp_all add: restatus)
  show ?thesis unfolding supersede_prior_def Let_def
    by (rule u, assumption+ | rule grows_struct)+
qed

lemma seal_body_grows:
  assumes "graph_inv (ev_read ev 5)"
  shows "grows (range (ev_read ev)) (seal_body ev inp actor evidence)"
proof -
  have u: "grows (range (ev_read ev)) (update_version ev 1 v1)"
    if "get_version ev scp 4 t p aid n = Inr v0" "SealApproval v0 who comment evd at = (r, v1)" "r = None"
    for scp t p aid n v0 who comment evd at r v1
    using get_version_Inr(1) [OF that(1)] SealApproval_None(2,10) [of v0 who comment evd at v1]
      SealApproval_identity [of v0 who comment evd at v1] that(2,3)
    by (intro grows_update_version [of "ev_read ev 4" _ v0]) auto
  show ?thesis unfolding seal_body_def Let_def
    by (rule u, assumption+ | rule supersede_prior_grows [OF assms] | rule grows_struct)+
qed

lemma store_evidence_sound:
  assumes "store_sound s"
  shows "store_sound (snd (store_evidence ev buckets inp actor checked s))"
proof -
  obtain cur gates canon where c: "checked = (cur, gates, canon)" by (cases checked) auto
  have put: "store_sound s2" if "store_PutAt f t b k d opts s1 = (r, s2)" "store_sound s1" for f t b k d opts s1 r s2
    using store.sound_put [OF that(2), of f t b k d opts] that(1) by simp
  show ?thesis using assms unfolding store_evidence_def c Let_def
    by (auto simp del: store_PutAt.simps split: prod.split sum.split dest: put)
qed

lemma Approve_later:
  assumes "graph_inv w" "\<And>k. later (ev_read ev k) w" "\<And>k. graph_inv (ev_read ev k)"
  shows "later w (snd (Approve ev buckets inp actor w))"
proof (cases "approve_checks ev inp actor")
  case (Inl e)
  then show ?thesis using assms(1) by (simp add: Approve_def later_refl)
next
  case (Inr checked)
  obtain r s where s: "store_evidence ev buckets inp actor checked (w_objects w) = (r, s)" by fastforce
  have "store_sound s" using store_evidence_sound [of "w_objects w" ev buckets inp actor checked] s assms(1)
    by (simp add: graph_inv_def)
  then have l: "later w (w\<lparr>w_objects := s\<rparr>)" by (rule later_objects [OF assms(1)])
  show ?thesis
  proof (cases r)
    case (Inl e)
    then show ?thesis using l by (simp add: Approve_def Inr s)
  next
    case (Inr evidence)
    have "later (w\<lparr>w_objects := s\<rparr>) (snd (in_tx ev scp (seal_body ev inp actor evidence) (w\<lparr>w_objects := s\<rparr>)))" for scp
      by (rule grows_in_tx [of "range (ev_read ev)"])
        (use seal_body_grows [OF assms(3)] later_inv [OF l] assms(2) l later_trans in blast)+
    then show ?thesis using later_trans [OF l] by (simp add: Approve_def \<open>approve_checks ev inp actor = Inr checked\<close> s Inr)
  qed
qed

section \<open>Links, tenants and projects\<close>

lemma NewTraceLink_disposed: "NewTraceLink clock t p lid a b ty origin c who = Inr l \<Longrightarrow> disposed (l\<lparr>l_Rationale := r\<rparr>)"
  by (auto simp: NewTraceLink_def disposed_def monad_inv Let_def Active_def defaultStatusFor_def split: if_splits)

lemma Accept_row: "Accept clock l d who = (None, l') \<Longrightarrow> disposed l \<Longrightarrow> same_link l' l \<and> disposed l'"
  by (auto simp: Accept_def Let_def disposed_def same_link_def link_key_def Active_def RequiresDisposition_def split: if_splits)

lemma Reject_row: "Reject clock l d who = (None, l') \<Longrightarrow> same_link l' l \<and> disposed l'"
  by (auto simp: Reject_def disposed_def same_link_def link_key_def Active_def split: if_splits)

lemma link_disposed: "graph_inv w \<Longrightarrow> l \<in> set (w_links w) \<Longrightarrow> disposed l"
  by (auto simp: graph_inv_def link_row_ok_iff)

lemma CreateLink_later:
  assumes "graph_inv w" "\<And>k. later (ev_read ev k) w"
  shows "later w (snd (CreateLink ev inp actor w))"
proof -
  have c: "grows past (create_link ev k l)"
    if "NewTraceLink clock t p lid a b ty origin c who = Inr l0" "l = l0\<lparr>l_Rationale := r\<rparr>"
    for past k clock t p lid a b ty origin c who l0 l r
    using NewTraceLink_disposed [OF that(1)] that(2) by (simp add: grows_statements)
  show ?thesis unfolding CreateLink_def
    by (rule handler_cases call_in_tx assms | rule c, assumption+ | rule grows_struct)+
qed

lemma AcceptLink_later:
  assumes "graph_inv w" "\<And>k. later (ev_read ev k) w" "graph_inv (ev_read ev 0)"
  shows "later w (snd (AcceptLink ev t p lid d actor w))"
proof -
  have u: "grows (range (ev_read ev)) (update_link ev 0 l1)"
    if "get_link ev scp 0 t p lid = Inr l0" "Accept clock l0 d who = (r, l1)" "r = None" for scp t p lid l0 clock d who r l1
    using get_link_Inr(1) [OF that(1)] Accept_row [of clock l0 d who l1] link_disposed [OF assms(3)] that(2,3)
    by (intro grows_update_link [of "ev_read ev 0" _ l0]) auto
  show ?thesis unfolding AcceptLink_def
    by (rule handler_cases call_in_tx assms | rule u, assumption+ | rule grows_struct)+
qed

lemma RejectLink_later:
  assumes "graph_inv w" "\<And>k. later (ev_read ev k) w"
  shows "later w (snd (RejectLink ev t p lid why actor w))"
proof -
  have u: "grows (range (ev_read ev)) (update_link ev 0 l1)"
    if "get_link ev scp 0 t p lid = Inr l0" "Reject clock l0 d who = (r, l1)" "r = None" for scp t p lid l0 clock d who r l1
    using get_link_Inr(1) [OF that(1)] Reject_row [of clock l0 d who l1] that(2,3)
    by (intro grows_update_link [of "ev_read ev 0" _ l0]) auto
  show ?thesis unfolding RejectLink_def
    by (rule handler_cases call_in_tx assms | rule u, assumption+ | rule grows_struct)+
qed

text \<open>The tenancy use cases write no row of the graph.\<close>

lemma tenancy_later:
  assumes "graph_inv w" "\<And>k. later (ev_read ev k) w"
  shows "later w (snd (CreateTenant ev ct actor w))" "later w (snd (transitionTenant ev t e reason actor w))"
    "later w (snd (UpdateSettings ev t settings actor w))" "later w (snd (CreateProject ev cp actor w))"
    "later w (snd (transitionProject ev t p e actor w))"
proof -
  have project: "grows past (\<lambda>w. zoomT w_projects put_projects (m w) w)" for past and m :: "world \<Rightarrow> (go_error, Project list, 'a) tx"
    by (rule grows_total) (blast intro: projects_later)
  note struct_rules = handler_cases call_in_tx assms project grows_struct
  show "later w (snd (CreateTenant ev ct actor w))" unfolding CreateTenant_def
    by (rule struct_rules)+
  show "later w (snd (transitionTenant ev t e reason actor w))" unfolding transitionTenant_def Let_def
    by (rule struct_rules)+
  show "later w (snd (UpdateSettings ev t settings actor w))" unfolding UpdateSettings_def
    by (rule struct_rules)+
  show "later w (snd (CreateProject ev cp actor w))" unfolding CreateProject_def
    by (rule struct_rules)+
  show "later w (snd (transitionProject ev t p e actor w))" unfolding transitionProject_def Let_def
    by (rule struct_rules)+
qed

end
