(* ===== verification/Desk.thy ===== *)
theory Desk
  imports History
begin

text \<open>
  A sample database on which the properties of histories are witnessed: a tenant that is being
  provisioned, an abandoned version and one in review, and a link between them that a model proposed
  and a reviewer accepted. The tenant is then marked provisioned, the one call that is followed to
  its end: the row, the audit record and the event.
\<close>

section \<open>The database\<close>

definition hashed :: "Version \<Rightarrow> Version" where
  "hashed v = (case ComputeHash v of Inr h \<Rightarrow> v\<lparr>v_ContentHash := h\<rparr> | Inl _ \<Rightarrow> v)"

definition v_spec :: Version where "v_spec = (hashed reviewed0)\<lparr>v_Status := StatusAbandoned\<rparr>"
definition v_req :: Version where "v_req = hashed (reviewed0\<lparr>v_ArtifactID := ''REQ-001''\<rparr>)"

definition desk_link :: TraceLink where
  "desk_link = \<lparr>l_TenantID = ''t1'', l_ProjectID = ''j1'', l_LinkID = ''l1'',
     l_From = \<lparr>ref_ArtifactID = ''SPEC-001'', ref_Version = 1\<rparr>, l_To = \<lparr>ref_ArtifactID = ''REQ-001'', ref_Version = 1\<rparr>,
     l_Type = LinkSatisfies, l_Origin = OriginLLMProposed, l_Confidence = (False, 0, 0),
     l_Status = LinkAccepted, l_Rationale = '''', l_Evidence = '''', l_DispositionID = Some ''case-7'',
     l_CreatedBy = ''u'', l_CreatedAt = 0, l_UpdatedAt = 0, l_VersionNo = 2\<rparr>"

definition desk :: world where
  "desk = \<lparr>w_tenants = [sample_tenant], w_projects = [], w_artifacts = [], w_versions = [v_spec, v_req], w_links = [desk_link],
     w_audit = empty_log, w_outbox = [], w_objects = PgStore []\<rparr>"

lemma hashed_ok:
  assumes "hashable v"
  shows "Version_Verify (hashed v) = None" "ContentHash_Valid (v_ContentHash (hashed v))"
proof -
  obtain h where h: "ComputeHash v = Inr h" using ComputeHash_total [OF assms] by blast
  then have v: "hashed v = v\<lparr>v_ContentHash := h\<rparr>" by (simp add: hashed_def)
  have "ComputeHash (hashed v) = ComputeHash v" by (rule ComputeHash_cong) (simp add: same_hashed_def v)
  then show "Version_Verify (hashed v) = None" by (simp add: Version_Verify_None h v)
  show "ContentHash_Valid (v_ContentHash (hashed v))" using ComputeHash_valid [OF h] by (simp add: v)
qed

lemma hashed_fields:
  "v_TenantID (hashed v) = v_TenantID v" "v_ProjectID (hashed v) = v_ProjectID v" "v_ArtifactID (hashed v) = v_ArtifactID v"
  "v_Version (hashed v) = v_Version v" "v_Status (hashed v) = v_Status v" "v_PreviousVersion (hashed v) = v_PreviousVersion v"
  "v_ParentArtifact (hashed v) = v_ParentArtifact v" "v_SourceArtifact (hashed v) = v_SourceArtifact v"
  by (simp_all add: hashed_def split: sum.split)

lemma desk_versions:
  "Version_Verify v_spec = None" "ContentHash_Valid (v_ContentHash v_spec)" "v_Status v_spec = StatusAbandoned"
  "version_key v_spec = (''t1'', ''j1'', ''SPEC-001'', 1)" "version_artifact v_spec = (''t1'', ''j1'', ''SPEC-001'')"
  "Version_Verify v_req = None" "ContentHash_Valid (v_ContentHash v_req)" "v_Status v_req = StatusUserReview"
  "version_key v_req = (''t1'', ''j1'', ''REQ-001'', 1)" "version_artifact v_req = (''t1'', ''j1'', ''REQ-001'')"
proof -
  have h: "hashable (reviewed0\<lparr>v_ArtifactID := ''REQ-001''\<rparr>)" using reviewed0_hashable by (simp add: hashable_def)
  show "Version_Verify v_spec = None" "ContentHash_Valid (v_ContentHash v_spec)"
    using hashed_ok [OF reviewed0_hashable] by (simp_all add: v_spec_def restatus)
  show "Version_Verify v_req = None" "ContentHash_Valid (v_ContentHash v_req)" using hashed_ok [OF h] by (simp_all add: v_req_def)
qed (simp_all add: v_spec_def v_req_def version_key_def version_artifact_def hashed_fields reviewed0_def)

lemma desk_rows: "version_checks (\<lambda>_. True) v_spec = None" "version_checks (\<lambda>_. True) v_req = None"
  using desk_versions unfolding version_checks_def
  by (simp_all add: monad_inv v_spec_def v_req_def hashed_fields reviewed0_def zero_version_def version_integers_def int4_def
      version_statuses_def status_defs)

lemma zero_confidence: "thousandths (False, 0, 0) = 0" "stored_confidence (False, 0, 0) = (False, 0, 0)"
  by (simp_all add: thousandths_def stored_confidence_def round_even_def round_dec_0)

lemma desk_inv: "graph_inv desk"
proof -
  have "versions_inv [v_spec, v_req]"
    using desk_versions desk_rows by (simp add: versions_inv_def version_uniques_None version_row_ok_def)
      (simp add: v_spec_def v_req_def hashed_fields reviewed0_def status_defs)
  moreover have "link_row_ok [v_spec, v_req] desk_link"
    using desk_versions(4,9) by (simp add: link_row_ok_def link_checks_def desk_link_def version_exists_def zero_confidence monad_inv
        LinkType_Valid_def linkInverse_def link_type_defs LinkOrigin_Valid_def)
  moreover have "audit_inv empty_log" by (simp add: audit_inv_def log_ok_def tenant_log_def empty_log_def)
  ultimately show ?thesis by (simp add: graph_inv_def desk_def pg_sound_def)
qed

section \<open>A call that succeeds\<close>

definition call_env :: "world \<Rightarrow> env" where
  "call_env w = \<lparr>ev_now = (\<lambda>_. 5000), ev_id = (\<lambda>_. ''id-1''), ev_db = 6000,
     ev_corr = \<lparr>co_TraceID = '''', co_SpanID = '''', co_RequestID = '''', co_CausationID = '''', co_IdempotencyKey = ''''\<rparr>,
     ev_policy = DefaultPolicy, ev_read = (\<lambda>_. w), ev_fits = (\<lambda>_. True), ev_fault = (\<lambda>_. None), ev_rfault = (\<lambda>_. None),
     ev_sfault = (\<lambda>_. (None, None)), ev_ctx = \<lparr>cx_tenant = None, cx_relay = False\<rparr>, ev_conn = (\<lambda>_. healthy 0),
     ev_audit = (\<lambda>_. no_faults), ev_event = (\<lambda>_. None)\<rparr>"

lemma audit_append_succeeds:
  assumes "audit_inv (w_audit w)" "Record_Validate (r\<lparr>r_Sequence := 1\<rparr>) = None"
    and "hashable_record (r\<lparr>r_Sequence := 1 + fst (Head (w_audit w) (r_TenantID r))\<rparr>)"
    and "ev_audit ev k = no_faults" "tenant_exists w (r_TenantID r)"
  shows "\<exists>s. audit_append ev k r w = Inr ((), put_audit s w)"
  using Append_succeeds [OF assms(1-3), of "ev_audit ev k" "tenant_exists w" "ev_id ev k" "ev_now ev k"] assms(4,5)
  by (auto simp: audit_append_def counter_ready_def no_faults_def monad_inv)

lemma emit_event_succeeds:
  assumes "all_nums representable payload" "depth payload \<le> maxNestingDepth" "ev_id ev k \<notin> row_id ` set (w_outbox w)"
    and "ev_event ev = (\<lambda>_. None)"
  shows "\<exists>rows. emit_event ev k ty t p agg actor payload wrap w = Inr ((), put_outbox rows w)"
proof -
  obtain c where c: "Canonicalize payload = Inr c" using Canonicalize_total [OF assms(1,2)] by blast
  then show ?thesis using assms(3,4)
    by (auto simp: emit_event_def NewEnvelope_def outbox_append_def zoomT_def insert_event_def execT_def bindT_def returnT_def)
qed

lemma call_env_simps:
  "ev_now (call_env w) k = 5000" "ev_db (call_env w) = 6000" "ev_read (call_env w) k = w" "ev_fault (call_env w) k = None"
  "ev_rfault (call_env w) k = None" "ev_conn (call_env w) k = healthy 0" "ev_audit (call_env w) k = no_faults"
  "ev_event (call_env w) = (\<lambda>_. None)"
  by (simp_all add: call_env_def)

definition active_tenant :: Tenant where
  "active_tenant = sample_tenant\<lparr>t_Status := TenantActive, t_UpdatedAt := 6000, t_Version := 2\<rparr>"

lemma fire_provisioned:
  "Fire tenant_machine TenantProvisioning EventProvisioned t None =
     (Inr \<lparr>out_From = TenantProvisioning, out_To = TenantActive, out_Event = EventProvisioned, out_EmitEvent = ''tenant.provisioned'',
        out_AuditAction = ''tenant.provision'', out_Permission = ''''\<rparr>, t)"
  unfolding tnt.fire_ok_iff
  by (intro bexI [of _ "plain_transition [TenantProvisioning] EventProvisioned TenantActive '''' [] ''tenant.provisioned'' ''tenant.provision''"])
     (simp_all add: plain_transition_def check_permission_def tenant_def_def)

lemma provision_update:
  "TenantRepo_Update None 6000 (sample_tenant\<lparr>t_Status := TenantActive, t_UpdatedAt := u\<rparr>) [sample_tenant] =
     Inr (sample_tenant\<lparr>t_Status := TenantActive, t_UpdatedAt := u, t_Version := 2\<rparr>, [active_tenant])"
  by (simp add: TenantRepo_Update_def updateT_def execT_def update_versioned_def update_where_def current_def bindT_def checkT_def
      returnT_def set_tenant_def sample_tenant_def active_tenant_def tenant_checks_def tenant_uniques_def check_constraint_def
      unique_index_def IsolationMode_Valid_def slugRE_def lower_letter_def is_digit_def tenant_statuses_def char_length_def)

definition provision_record :: Record where
  "provision_record = with_attrs
     [(''from'', JString TenantProvisioning), (''to'', JString TenantActive), (''reason'', JString '''')]
     (NewRecord 5000 ''t1'' None ''tenant.provision'' OutcomeSuccess SeverityNotice (actorOf (system_principal ''t1''))
        (tenant_target ''Tenant'' ''t1''))"

lemma provision_record_fields:
  "provision_record = (NewRecord 5000 ''t1'' None ''tenant.provision'' OutcomeSuccess SeverityNotice (actorOf (system_principal ''t1''))
     (tenant_target ''Tenant'' ''t1''))
       \<lparr>r_Attributes := [(''from'', JString TenantProvisioning), (''to'', JString TenantActive), (''reason'', JString '''')]\<rparr>"
  by (simp add: provision_record_def with_attrs_def WithAttr_def NewRecord_def)

lemma provision_record_ok:
  "Record_Validate (provision_record\<lparr>r_Sequence := 1\<rparr>) = None"
  "hashable_record (provision_record\<lparr>r_Sequence := 1 + fst (Head empty_log t)\<rparr>)"
proof -
  have "TrimSpace ''tenant.provision'' = ''tenant.provision''" by (rule TrimSpace_id) (simp_all add: graphic_def)
  then show "Record_Validate (provision_record\<lparr>r_Sequence := 1\<rparr>) = None"
    by (simp add: provision_record_fields Record_Validate_def NewRecord_def Empty_def Outcome_Valid_def Severity_Valid_def
        HasPrefix_def Now_def NormalizeTime_def Microsecond_def actorOf_def auditActor_def system_principal_def tenant_target_def
        KindSystem_def)
  show "hashable_record (provision_record\<lparr>r_Sequence := 1 + fst (Head empty_log t)\<rparr>)"
    by (simp add: provision_record_fields hashable_record_def NewRecord_def Head_def empty_log_def maxNestingDepth_def tenant_target_def)
qed

lemma provisioning_succeeds:
  "\<exists>x s rows. MarkProvisioned (call_env desk) ''t1'' desk =
     (Inr x, put_outbox rows (put_audit s (put_tenants [active_tenant] desk))) \<and> t_Status x = TenantActive"
proof -
  let ?w1 = "put_tenants [active_tenant] desk" and ?ev = "call_env desk" and ?p = "system_principal ''t1''"
  have rd: "TenantRepo_GetByID None ''t1'' [sample_tenant] = Inr sample_tenant"
    by (simp add: TenantRepo_GetByID_def query_row_def row_result_def sample_tenant_def)
  obtain s where s: "audit_append ?ev 2 provision_record ?w1 = Inr ((), put_audit s ?w1)"
    using audit_append_succeeds [of ?w1 provision_record ?ev 2] provision_record_ok desk_inv
    by (auto simp: graph_inv_def put_defs desk_def call_env_simps tenant_exists_def active_tenant_def sample_tenant_def
        provision_record_fields NewRecord_def)
  obtain rows where rows: "emit_event ?ev 3 ''tenant.provisioned'' ''t1'' None \<lparr>ag_Type = ''Tenant'', ag_ID = ''t1'', ag_Version = 0\<rparr>
      (outboxActor ?p) (JObject [(''tenant_id'', JString ''t1''), (''from'', JString TenantProvisioning),
        (''to'', JString TenantActive), (''reason'', JString '''')]) (wrap_event ''tenancy.transitionTenant'' ''tenant.event_failed'')
      (put_audit s ?w1) = Inr ((), put_outbox rows (put_audit s ?w1))"
    using emit_event_succeeds [of _ ?ev 3 "put_audit s ?w1"] by (fastforce simp: maxNestingDepth_def put_defs desk_def call_env_simps)
  have "zoomT w_tenants put_tenants (TenantRepo_Update None 6000 (sample_tenant\<lparr>t_Status := TenantActive, t_UpdatedAt := Now 5000\<rparr>)) desk =
      Inr (sample_tenant\<lparr>t_Status := TenantActive, t_UpdatedAt := Now 5000, t_Version := 2\<rparr>, ?w1)"
    using provision_update [of "Now 5000"] by (simp add: zoomT_def desk_def)
  moreover have "t_Status sample_tenant = TenantProvisioning" "w_tenants desk = [sample_tenant]" "pr_Kind ?p = KindSystem"
    by (simp_all add: sample_tenant_def desk_def system_principal_def)
  moreover have "severityFor TenantActive = SeverityNotice" by (simp add: severityFor_def tenant_constants)
  ultimately have "transitionTenant ?ev ''t1'' EventProvisioned '''' ?p desk =
      (Inr (sample_tenant\<lparr>t_Status := TenantActive, t_UpdatedAt := Now 5000, t_Version := 2\<rparr>), put_outbox rows (put_audit s ?w1))"
    using s rows rd unfolding provision_record_def
    by (simp add: transitionTenant_def Let_def in_tx_Inr scope_def call_env_simps fire_provisioned bindT_def liftT_def readT_def returnT_def
        del: zoomT_Inr)
  then show ?thesis by (auto simp: MarkProvisioned_def)
qed

end
