(* ===== verification/Serve.thy ===== *)
theory Serve
  imports Desk
begin

text \<open>
  The service as a whole: the requests of both modules, the outbox relay and the other users of the
  object store, one step each, and the histories they make. The properties here span the modules:
  what every stored version, link and audit trail satisfies whatever was asked for in whatever order,
  that sealed versions are never altered, that a call that read stale state either fails or does
  what it would have done on the current state, and what a call leaves behind when it fails.
\<close>

section \<open>Requests\<close>

datatype request =
    Req_CreateTenant CreateTenantInput Principal
  | Req_TenantEvent TenantID Event string Principal
  | Req_UpdateSettings TenantID Settings Principal
  | Req_CreateProject CreateProjectInput Principal
  | Req_ProjectEvent TenantID ProjectID Event Principal
  | Req_Create CreateInput Principal
  | Req_UpdateDraft TenantID ProjectID ArtifactID int string int Principal
  | Req_Transition TenantID ProjectID ArtifactID int Event string Principal
  | Req_Approve Buckets ApproveInput Principal
  | Req_Revise TenantID ProjectID ArtifactID string Principal
  | Req_CreateLink LinkInput Principal
  | Req_AcceptLink TenantID ProjectID LinkID string Principal
  | Req_RejectLink TenantID ProjectID LinkID string Principal
  | Req_Relay RelayConfig relay_env "Envelope list \<Rightarrow> go_error option"
  | Req_Store "store_fault obj_op"

definition error_of :: "'a result \<times> world \<Rightarrow> go_error option \<times> world" where
  "error_of r = (case fst r of Inl e \<Rightarrow> Some e | Inr _ \<Rightarrow> None, snd r)"

fun serve :: "env \<Rightarrow> request \<Rightarrow> world \<Rightarrow> go_error option \<times> world" where
  "serve ev (Req_CreateTenant inp actor) w = error_of (CreateTenant ev inp actor w)"
| "serve ev (Req_TenantEvent t e reason actor) w = error_of (transitionTenant ev t e reason actor w)"
| "serve ev (Req_UpdateSettings t settings actor) w = error_of (UpdateSettings ev t settings actor w)"
| "serve ev (Req_CreateProject inp actor) w = error_of (CreateProject ev inp actor w)"
| "serve ev (Req_ProjectEvent t p e actor) w = error_of (transitionProject ev t p e actor w)"
| "serve ev (Req_Create inp actor) w = error_of (Create ev inp actor w)"
| "serve ev (Req_UpdateDraft t p aid n body vno actor) w = error_of (UpdateDraft ev t p aid n body vno actor w)"
| "serve ev (Req_Transition t p aid n e comment actor) w = error_of (Transition ev t p aid n e comment actor w)"
| "serve ev (Req_Approve buckets inp actor) w = error_of (Approve ev buckets inp actor w)"
| "serve ev (Req_Revise t p aid summary actor) w = error_of (Revise ev t p aid summary actor w)"
| "serve ev (Req_CreateLink inp actor) w = error_of (CreateLink ev inp actor w)"
| "serve ev (Req_AcceptLink t p lid d actor) w = error_of (AcceptLink ev t p lid d actor w)"
| "serve ev (Req_RejectLink t p lid why actor) w = error_of (RejectLink ev t p lid why actor w)"
| "serve ev (Req_Relay cfg y pub) w =
     (let (r, rows) = PublishBatch cfg y pub (w_outbox w) in error_of (r, put_outbox rows w))"
| "serve ev (Req_Store op) w = (None, w\<lparr>w_objects := run_op store_PutAt store_Delete op (w_objects w)\<rparr>)"

lemma error_of_simps [simp]: "snd (error_of r) = snd r" "fst (error_of r) = None \<longleftrightarrow> \<not> isl (fst r)"
  by (auto simp: error_of_def split: sum.splits)

section \<open>Histories\<close>

text \<open>The database after the migrations, with a store that may hold objects already. It is a database
  a history can start from, by \<open>fresh_inv\<close>; any other that satisfies the invariant is one too.\<close>

definition fresh :: "object_store \<Rightarrow> world" where
  "fresh s = \<lparr>w_tenants = [], w_projects = [], w_artifacts = [], w_versions = [], w_links = [],
     w_audit = \<lparr>as_sequences = [], as_records = [], as_anchors = []\<rparr>, w_outbox = [], w_objects = s\<rparr>"

inductive hist :: "world list \<Rightarrow> bool" where
  start: "graph_inv w \<Longrightarrow> hist [w]"
| step: "hist (w # past) \<Longrightarrow> (\<And>k. ev_read ev k \<in> set (w # past)) \<Longrightarrow> hist (snd (serve ev req w) # w # past)"

inductive_cases hist_Nil [elim!]: "hist []"
inductive_cases hist_step: "hist (w' # w # past)"

lemma fresh_inv: "store_sound s \<Longrightarrow> graph_inv (fresh s)"
  by (simp add: graph_inv_def fresh_def versions_inv_def version_uniques_None audit_inv_def log_ok_def tenant_log_def)

lemma serve_later:
  assumes "graph_inv w" "\<And>k. later (ev_read ev k) w" "\<And>k. graph_inv (ev_read ev k)"
  shows "later w (snd (serve ev req w))"
proof (cases req)
  case (Req_Relay cfg y pub)
  obtain r rows where b: "PublishBatch cfg y pub (w_outbox w) = (r, rows)" by fastforce
  from b have "map ob_event rows = map ob_event (w_outbox w)"
    by (cases rule: PublishBatch_cases) (auto simp: mark_def)
  then show ?thesis using assms(1) by (simp add: Req_Relay b later_outbox [where es = "[]"])
next
  case (Req_Store op)
  have "store_sound (run_op store_PutAt store_Delete op (w_objects w))"
    using assms(1) by (intro store.run_op_sound) (simp add: graph_inv_def)
  then show ?thesis using assms(1) by (simp add: Req_Store later_objects)
qed (simp_all add: assms tenancy_later Create_later UpdateDraft_later Transition_later Approve_later Revise_later
    CreateLink_later AcceptLink_later RejectLink_later)

text \<open>Every state of a history satisfies the invariant, and the current one is later than all.\<close>

lemma hist_later: "hist past \<Longrightarrow> (\<forall>w0 \<in> set past. graph_inv w0 \<and> later w0 (hd past))"
proof (induction rule: hist.induct)
  case (start w)
  then show ?case by (simp add: later_refl)
next
  case (step w past ev req)
  have past: "graph_inv (ev_read ev k) \<and> later (ev_read ev k) w" for k
    using bspec [OF step.IH step.hyps(2) [of k]] by simp
  have l: "later w (snd (serve ev req w))"
    by (rule serve_later) (use step.IH past in auto)
  have "later w0 (snd (serve ev req w))" if "w0 \<in> set (w # past)" for w0
    using step.IH that later_trans [OF _ l] by auto
  then show ?case using step.IH l later_refl later_inv [OF l] by auto
qed

lemma hist_inv: "hist (w # past) \<Longrightarrow> graph_inv w"
  using hist_later by fastforce

lemma hist_from: "hist (w # past) \<Longrightarrow> w0 \<in> set (w # past) \<Longrightarrow> later w0 w"
  using hist_later by fastforce

section \<open>A sample history\<close>

definition provision :: request where
  "provision = Req_TenantEvent ''t1'' EventProvisioned [] (system_principal ''t1'')"

definition after_desk :: world where "after_desk = snd (serve (call_env desk) provision desk)"

lemma provision_served:
  "fst (serve (call_env desk) provision desk) = None" "w_versions after_desk = [v_spec, v_req]" "w_links after_desk = [desk_link]"
  "after_desk \<noteq> desk"
proof -
  obtain x s rows where r: "MarkProvisioned (call_env desk) ''t1'' desk =
      (Inr x, put_outbox rows (put_audit s (put_tenants [active_tenant] desk)))"
    using provisioning_succeeds by blast
  then show "fst (serve (call_env desk) provision desk) = None" by (simp add: provision_def MarkProvisioned_def)
  have w: "after_desk = put_outbox rows (put_audit s (put_tenants [active_tenant] desk))"
    using r by (simp add: after_desk_def provision_def MarkProvisioned_def)
  show "w_versions after_desk = [v_spec, v_req]" "w_links after_desk = [desk_link]"
    by (simp_all add: w put_defs desk_def)
  have "w_tenants after_desk = [active_tenant]" by (simp add: w put_defs)
  moreover have "w_tenants desk = [sample_tenant]" by (simp add: desk_def)
  moreover have "active_tenant \<noteq> sample_tenant" by (simp add: active_tenant_def sample_tenant_def)
  ultimately show "after_desk \<noteq> desk" by auto
qed

lemma after_desk_hist: "hist [after_desk, desk]"
  unfolding after_desk_def
  by (rule hist.step [OF hist.start [OF desk_inv]]) (simp add: call_env_simps)

section \<open>What every stored row satisfies\<close>

text \<open>C1: Whatever was requested, in whatever order and with whatever stale reads, every version the
  database holds is well-formed: its content hash is the hash of what is stored, its status is one
  of the eight, its number continues the chain of its artifact without a gap, an approved version
  has approver, evidence and comment, and an artifact has at most one approved version.\<close>

theorem stored_versions_sound:
  assumes "hist (w # past)" "v \<in> set (w_versions w)"
  shows "Version_Verify v = None \<and> v_Status v \<in> set version_statuses \<and> 1 \<le> v_Version v \<and>
    (v_PreviousVersion v = (if v_Version v = 1 then None else Some (v_Version v - 1))) \<and>
    (v_Version v = 1 \<or> list_ex (\<lambda>u. version_artifact u = version_artifact v \<and> v_Version u = v_Version v - 1) (w_versions w)) \<and>
    (v_Status v \<noteq> StatusApproved \<or> (v_ApprovedBy v \<noteq> None \<and> v_ApprovalEvidence v \<noteq> None \<and> v_ApprovalComment v \<noteq> '''')) \<and>
    length (filter (\<lambda>u. version_artifact u = version_artifact v \<and> v_Status u = StatusApproved) (w_versions w)) \<le> 1"
proof -
  have inv: "versions_inv (w_versions w)" using hist_inv [OF assms(1)] by (simp add: graph_inv_def)
  then have ok: "Version_Verify v = None" "version_checks (\<lambda>_. True) v = None"
      "v_Version v \<noteq> 1 \<longrightarrow> (\<exists>u \<in> set (w_versions w). version_artifact u = version_artifact v \<and> v_Version u = v_Version v - 1)"
    using assms(2) by (auto simp: versions_inv_def version_row_ok_def)
  let ?A = "filter (\<lambda>v. v_Status v = StatusApproved) (w_versions w)"
  have d: "distinct (map version_artifact ?A)" using inv by (simp add: versions_inv_def version_uniques_None)
  have one: "length (filter (\<lambda>u. version_artifact u = a \<and> v_Status u = StatusApproved) (w_versions w)) \<le> 1" for a
  proof -
    have "filter (\<lambda>u. version_artifact u = a \<and> v_Status u = StatusApproved) (w_versions w) = filter (\<lambda>u. version_artifact u = a) ?A"
      by (simp add: conj_commute)
    moreover have one: "distinct (map version_artifact us) \<Longrightarrow> length (filter (\<lambda>u. version_artifact u = a) us) \<le> 1" for us :: "Version list"
      by (induction us) (auto simp: filter_empty_conv image_iff)
    ultimately show ?thesis using one [OF d] by (simp only: filter_filter)
  qed
  have "v_PreviousVersion v = (if v_Version v = 1 then None else Some (v_Version v - 1))"
    using ok(2) by (auto simp: version_checks_def monad_inv split: option.splits if_splits)
  then show ?thesis using ok one [of "version_artifact v"]
    by (auto simp: version_checks_def monad_inv list_ex_iff)
qed

lemma stored_versions_sound_witness:
  "Version_Verify v_req = None \<and>
   length (filter (\<lambda>u. version_artifact u = version_artifact v_req \<and> v_Status u = StatusApproved) [v_spec, v_req]) \<le> 1"
  using stored_versions_sound [OF after_desk_hist, of v_req] unfolding provision_served(2) by simp

text \<open>C2: A sealed version is never altered: whatever happens later, its row is still there with the
  same content, hash, provenance and approval, and it is still sealed; only its status may have moved
  on to frozen or superseded.\<close>

theorem sealed_versions_immutable:
  assumes "hist (w # past)" "w0 \<in> set past" "r \<in> set (w_versions w0)" "IsSealed (v_Status r)"
  shows "\<exists>r' \<in> set (w_versions w). r\<lparr>v_Status := v_Status r', v_VersionNo := v_VersionNo r', v_UpdatedAt := v_UpdatedAt r'\<rparr> = r' \<and>
    IsSealed (v_Status r') \<and> (v_Status r' = v_Status r \<or> v_Status r' = StatusFrozen \<or> v_Status r' = StatusSuperseded)"
proof -
  have "keeps_sealed (w_versions w0) (w_versions w)" using hist_from [OF assms(1), of w0] assms(2) by (simp add: later_def)
  then obtain r' where r': "r' \<in> set (w_versions w)" "sealed_same r r'" "sealed_move (v_Status r) (v_Status r')"
    using assms(3,4) by (auto simp: keeps_sealed_def)
  then show ?thesis using sealed_move_sealed [OF r'(3) assms(4)]
    by (intro bexI [of _ r']) (auto simp: sealed_same_def sealed_move_def)
qed

lemma sealed_versions_immutable_witness:
  "\<exists>r' \<in> {v_spec, v_req}. v_spec\<lparr>v_Status := v_Status r', v_VersionNo := v_VersionNo r', v_UpdatedAt := v_UpdatedAt r'\<rparr> = r' \<and>
     IsSealed (v_Status r')"
proof -
  have "IsSealed (v_Status v_spec)" "v_spec \<in> set (w_versions desk)"
    by (simp_all add: desk_versions IsSealed_def sealedStates_def desk_def)
  then show ?thesis using sealed_versions_immutable [OF after_desk_hist, of desk v_spec] unfolding provision_served(2) by auto
qed

text \<open>C6: AI proposes, governance validates, in the database too: in every state that requests can
  lead to, a link that a model proposed and that takes part in traversal carries the identifier of
  a disposition, every link has a confidence from 0 to 1 (in thousandths and with its sign, as the
  column \<^verbatim>\<open>numeric(4,3)\<close> holds it) and connects two different versions, and
  both of them are stored in the link's own tenant and project.\<close>

theorem stored_links_sound:
  assumes "hist (w # past)" "l \<in> set (w_links w)"
  shows "(l_Origin l \<noteq> OriginLLMProposed \<or> l_Status l \<noteq> LinkAccepted \<or> (\<exists>d. l_DispositionID l = Some d \<and> d \<noteq> '''')) \<and>
    l_From l \<noteq> l_To l \<and> 0 \<le> thousandths (l_Confidence l) \<and> thousandths (l_Confidence l) \<le> 1000 \<and>
    list_ex (\<lambda>v. version_key v = (l_TenantID l, l_ProjectID l, ref_ArtifactID (l_From l), ref_Version (l_From l))) (w_versions w) \<and>
    list_ex (\<lambda>v. version_key v = (l_TenantID l, l_ProjectID l, ref_ArtifactID (l_To l), ref_Version (l_To l))) (w_versions w)"
proof -
  have "link_row_ok (w_versions w) l" using hist_inv [OF assms(1)] assms(2) by (simp add: graph_inv_def)
  then show ?thesis
    by (auto simp: link_row_ok_def link_checks_def version_exists_def Active_def monad_inv list_ex_iff)
qed

lemma stored_links_sound_witness:
  "l_Origin desk_link = OriginLLMProposed \<and> l_Status desk_link = LinkAccepted \<and> (\<exists>d. l_DispositionID desk_link = Some d \<and> d \<noteq> [])"
  using stored_links_sound [OF after_desk_hist, of desk_link] unfolding provision_served(3) by (auto simp: desk_link_def)

section \<open>A request that fails\<close>

definition undone :: "world \<Rightarrow> 'a result \<times> world \<Rightarrow> bool" where
  "undone w r \<longleftrightarrow> (isl (fst r) \<longrightarrow> snd r = w)"

lemma undone_cases:
  "(c \<Longrightarrow> undone w m) \<Longrightarrow> (\<not> c \<Longrightarrow> undone w m') \<Longrightarrow> undone w (if c then m else m')"
  "(opt = None \<Longrightarrow> undone w m) \<Longrightarrow> (\<And>y. opt = Some y \<Longrightarrow> undone w (f y)) \<Longrightarrow>
     undone w (case opt of None \<Rightarrow> m | Some y \<Rightarrow> f y)"
  "(\<And>e. r = Inl e \<Longrightarrow> undone w (h e)) \<Longrightarrow> (\<And>x. r = Inr x \<Longrightarrow> undone w (h' x)) \<Longrightarrow>
     undone w (case r of Inl e \<Rightarrow> h e | Inr x \<Rightarrow> h' x)"
  "(\<And>x. x = e' \<Longrightarrow> undone w (k x)) \<Longrightarrow> undone w (let x = e' in k x)"
  "undone w (r', w)"
  by (auto simp: undone_def split: option.split sum.split)

lemma in_tx_undone: "undone w (in_tx ev tc body w)"
  by (cases "in_tx ev tc body w") (auto simp: undone_def isl_def dest: in_tx_Inl)

lemmas undone_struct = in_tx_undone undone_cases

lemma handlers_undone:
  "undone w (CreateTenant ev ct actor w)" "undone w (transitionTenant ev t e reason actor w)"
  "undone w (UpdateSettings ev t settings actor w)" "undone w (CreateProject ev cp actor w)"
  "undone w (transitionProject ev t p e actor w)" "undone w (Create ev ci actor w)"
  "undone w (UpdateDraft ev t p aid n body vno actor w)" "undone w (Transition ev t p aid n e comment actor w)"
  "undone w (Revise ev t p aid summary actor w)" "undone w (CreateLink ev li actor w)"
  "undone w (AcceptLink ev t p lid d actor w)" "undone w (RejectLink ev t p lid why actor w)"
  unfolding CreateTenant_def transitionTenant_def UpdateSettings_def CreateProject_def transitionProject_def Create_def
    UpdateDraft_def Transition_def Revise_def CreateLink_def AcceptLink_def RejectLink_def Let_def
  by (rule undone_struct)+

lemma Approve_undone:
  "isl (fst (Approve ev buckets inp actor w)) \<Longrightarrow> \<exists>s. snd (Approve ev buckets inp actor w) = w\<lparr>w_objects := s\<rparr>"
proof (cases "approve_checks ev inp actor")
  case (Inr checked)
  obtain r s where s: "store_evidence ev buckets inp actor checked (w_objects w) = (r, s)" by fastforce
  assume "isl (fst (Approve ev buckets inp actor w))"
  then show ?thesis
  proof (cases r)
    case r: (Inr evidence)
    show ?thesis using in_tx_undone [of "w\<lparr>w_objects := s\<rparr>" ev "graph_scope (ai_TenantID inp) (ai_ProjectID inp) actor" "seal_body ev inp actor evidence"]
        \<open>isl (fst (Approve ev buckets inp actor w))\<close> by (auto simp: Approve_def Inr s r undone_def)
  qed (auto simp: Approve_def Inr s)
next
  case (Inl e)
  then show ?thesis by (auto simp: Approve_def intro: exI [of _ "w_objects w"])
qed

text \<open>C7: A request of the tenancy, artifact and link services that fails, whether refused or broken
  off, leaves no trace in the database: every table is as it was, no audit
  record and no event is written. Only a failed approval may leave content or evidence in the object
  store, and nothing refers to it. That denials leave no record either is what the code does and not
  what the documents on authorization and on the scope of the audit ask for.\<close>

theorem failed_requests_change_nothing:
  assumes "fst (serve ev req w) = Some err"
  shows "(snd (serve ev req w))\<lparr>w_objects := w_objects w\<rparr> = w \<and>
    ((\<exists>buckets inp actor. req = Req_Approve buckets inp actor) \<or> snd (serve ev req w) = w)"
proof (cases req)
  case (Req_Approve buckets inp actor)
  then have "isl (fst (Approve ev buckets inp actor w))" using assms error_of_simps(2) [of "Approve ev buckets inp actor w"] by simp
  from Approve_undone [OF this] obtain s where "snd (serve ev req w) = w\<lparr>w_objects := s\<rparr>" by (auto simp: Req_Approve)
  then show ?thesis by (auto simp: Req_Approve)
next
  case (Req_Relay cfg y pub)
  obtain r rows where b: "PublishBatch cfg y pub (w_outbox w) = (r, rows)" by fastforce
  have "isl r" using assms by (cases r) (simp_all add: Req_Relay b error_of_def)
  with b have "rows = w_outbox w" by (cases rule: PublishBatch_cases) auto
  then show ?thesis using b by (simp add: Req_Relay put_outbox_def)
next
  case (Req_Store op)
  then show ?thesis using assms by simp
qed (use assms handlers_undone in \<open>auto simp: undone_def error_of_def split: sum.splits\<close>)

lemma failed_requests_change_nothing_witness:
  "snd (serve (call_env desk) (Req_Transition ''t1'' ''j1'' ''SPEC-001'' 1 EventApprove [] (system_principal ''t1'')) desk) = desk"
proof -
  let ?req = "Req_Transition ''t1'' ''j1'' ''SPEC-001'' 1 EventApprove [] (system_principal ''t1'')"
  have "fst (serve (call_env desk) ?req desk) = Some (Invalid ''artifactgraph.Transition'' ''artifact.use_approve'')"
    by (simp add: Transition_def error_of_def)
  from failed_requests_change_nothing [OF this] show ?thesis by simp
qed

section \<open>What a request leaves behind\<close>

text \<open>A transaction that appends \<open>n\<close> records to the audit log and at least \<open>k\<close> events to the outbox,
  all of them the tenant's.\<close>

definition trails :: "TenantID \<Rightarrow> nat \<Rightarrow> nat \<Rightarrow> 'a wtx \<Rightarrow> bool" where
  "trails t n k m \<longleftrightarrow> (\<forall>w x w'. m w = Inr (x, w') \<longrightarrow>
     (\<exists>rs es. as_records (w_audit w') = as_records (w_audit w) @ rs \<and> length rs = n \<and> (\<forall>r \<in> set rs. r_TenantID r = t) \<and>
        map ob_event (w_outbox w') = map ob_event (w_outbox w) @ es \<and> k \<le> length es \<and> (\<forall>e \<in> set es. e_TenantID e = t)))"

lemma trails_bind:
  assumes "trails t n k m" "\<And>x. (\<exists>w w'. m w = Inr (x, w')) \<Longrightarrow> trails t n' k' (f x)" "i = n + n'" "j = k + k'"
  shows "trails t i j (bindT m f)"
  unfolding trails_def
proof (intro allI impI)
  fix w x w' assume "bindT m f w = Inr (x, w')"
  then obtain y w1 where s: "m w = Inr (y, w1)" "f y w1 = Inr (x, w')" by (auto simp: monad_inv)
  from assms(1) s(1) obtain rs es where a: "as_records (w_audit w1) = as_records (w_audit w) @ rs" "length rs = n"
      "\<forall>r \<in> set rs. r_TenantID r = t" "map ob_event (w_outbox w1) = map ob_event (w_outbox w) @ es" "k \<le> length es"
      "\<forall>e \<in> set es. e_TenantID e = t" unfolding trails_def by blast
  have "trails t n' k' (f y)" using assms(2) s(1) by blast
  with s(2) obtain rs' es' where b: "as_records (w_audit w') = as_records (w_audit w1) @ rs'" "length rs' = n'"
      "\<forall>r \<in> set rs'. r_TenantID r = t" "map ob_event (w_outbox w') = map ob_event (w_outbox w1) @ es'" "k' \<le> length es'"
      "\<forall>e \<in> set es'. e_TenantID e = t" unfolding trails_def by blast
  show "\<exists>rs es. as_records (w_audit w') = as_records (w_audit w) @ rs \<and> length rs = i \<and> (\<forall>r \<in> set rs. r_TenantID r = t) \<and>
      map ob_event (w_outbox w') = map ob_event (w_outbox w) @ es \<and> j \<le> length es \<and> (\<forall>e \<in> set es. e_TenantID e = t)"
    using a b assms(3,4) by (intro exI [of _ "rs @ rs'"] exI [of _ "es @ es'"]) auto
qed

lemma trails_quiet: "trails t 0 0 m \<Longrightarrow> (\<And>x. trails t n k (f x)) \<Longrightarrow> trails t n k (bindT m f)"
  by (rule trails_bind) auto

lemma trails_audit: "trails t 1 0 m \<Longrightarrow> (\<And>x. trails t n k (f x)) \<Longrightarrow> trails t (Suc n) k (bindT m f)"
  by (rule trails_bind) auto

lemma trails_event: "trails t 0 1 m \<Longrightarrow> (\<And>x. trails t n k (f x)) \<Longrightarrow> trails t n (Suc k) (bindT m f)"
  by (rule trails_bind) auto

lemma trails_cases:
  "(\<not> c \<Longrightarrow> trails t n k m) \<Longrightarrow> trails t n k (checkT c err m)"
  "(c \<Longrightarrow> trails t n k m) \<Longrightarrow> (\<not> c \<Longrightarrow> trails t n k m') \<Longrightarrow> trails t n k (if c then m else m')"
  "(opt = None \<Longrightarrow> trails t n k m) \<Longrightarrow> (\<And>y. opt = Some y \<Longrightarrow> trails t n k (f y)) \<Longrightarrow>
     trails t n k (case opt of None \<Rightarrow> m | Some y \<Rightarrow> f y)"
  "(\<And>a b. pr = (a, b) \<Longrightarrow> trails t n k (g a b)) \<Longrightarrow> trails t n k (case pr of (a, b) \<Rightarrow> g a b)"
  "(\<And>e. r = Inl e \<Longrightarrow> trails t n k (h e)) \<Longrightarrow> (\<And>x. r = Inr x \<Longrightarrow> trails t n k (h' x)) \<Longrightarrow>
     trails t n k (case r of Inl e \<Rightarrow> h e | Inr x \<Rightarrow> h' x)"
  "(\<And>x. trails t n k (l x)) \<Longrightarrow> trails t n k (let x = e' in l x)"
  "trails t n k (failT e)" "trails t 0 0 (returnT z)" "trails t 0 0 (liftT q)" "trails t 0 0 (readT q')"
  by (auto simp: trails_def monad_inv split: option.split prod.split sum.split)

lemma audit_append_trails: "r_TenantID r = t \<Longrightarrow> trails t 1 0 (audit_append ev k r)"
proof -
  assume t: "r_TenantID r = t"
  show ?thesis unfolding trails_def
  proof (intro allI impI)
    fix w x w' assume "audit_append ev k r w = Inr (x, w')"
    then obtain y s' where s: "Audit_Append (ev_audit ev k) (tenant_exists w) (ev_id ev k) (ev_now ev k) r (w_audit w) = Inr (y, s')" "w' = put_audit s' w"
      by (auto simp: audit_append_def monad_inv)
    from s(1) obtain q where "as_records s' = as_records (w_audit w) @ [q]" "r_TenantID q = t"
      by (cases rule: Audit_Append_Inr) (simp add: t)
    then show "\<exists>rs es. as_records (w_audit w') = as_records (w_audit w) @ rs \<and> length rs = 1 \<and> (\<forall>r \<in> set rs. r_TenantID r = t) \<and>
        map ob_event (w_outbox w') = map ob_event (w_outbox w) @ es \<and> 0 \<le> length es \<and> (\<forall>e \<in> set es. e_TenantID e = t)"
      by (intro exI [of _ "[q]"] exI [of _ "[]"]) (simp add: s(2))
  qed
qed

lemma emit_event_trails: "trails t 0 1 (emit_event ev k ty t p agg actor payload wrap)"
  unfolding trails_def
proof (intro allI impI)
  fix w x w' assume e: "emit_event ev k ty t p agg actor payload wrap w = Inr (x, w')"
  show "\<exists>rs es. as_records (w_audit w') = as_records (w_audit w) @ rs \<and> length rs = 0 \<and> (\<forall>r \<in> set rs. r_TenantID r = t) \<and>
      map ob_event (w_outbox w') = map ob_event (w_outbox w) @ es \<and> 1 \<le> length es \<and> (\<forall>e \<in> set es. e_TenantID e = t)"
  proof -
    obtain q where "e_TenantID q = t" "map ob_event (w_outbox w') = map ob_event (w_outbox w) @ [q]"
      using emit_event_rows [OF e] by blast
    then show ?thesis using emit_event_frame [OF e] by (intro exI [of _ "[]"] exI [of _ "[q]"]) simp
  qed
qed

lemma with_attrs_tenant [simp]: "r_TenantID (with_attrs attrs r) = r_TenantID r"
  by (induction attrs arbitrary: r) (auto simp: with_attrs_def WithAttr_def split: prod.splits)

lemma NewRecord_tenant [simp]: "r_TenantID (NewRecord clock t p action outcome sev actor target) = t"
  by (simp add: NewRecord_def)

lemma quiet_statements:
  "trails t 0 0 (zoomT w_tenants put_tenants m1)" "trails t 0 0 (zoomT w_projects put_projects m2)"
  "trails t 0 0 (ensure_chain ev i u)" "trails t 0 0 (create_artifact ev i a)" "trails t 0 0 (update_artifact ev i a)"
  "trails t 0 0 (create_version ev i v)" "trails t 0 0 (update_version ev i v)" "trails t 0 0 (bump_graph ev i u p)"
  "trails t 0 0 (create_link ev i l)" "trails t 0 0 (update_link ev i l)"
  "trails t 0 0 (\<lambda>w. zoomT w_projects put_projects (m3 w) w)"
  by (auto simp: trails_def monad_inv put_defs create_artifact_def update_artifact_def create_version_def update_version_def
      bump_graph_def create_link_def update_link_def ensure_chain_def EnsureChain_Inr insert_chain_def split: option.splits)

lemma trails_lift: "(\<And>x. q = Inr x \<Longrightarrow> trails t n k (f x)) \<Longrightarrow> trails t n k (bindT (liftT q) f)"
  by (auto simp: trails_def monad_inv)

lemma trails_bind_res:
  "trails t 0 0 m \<Longrightarrow> (\<And>w x w'. m w = Inr (x, w') \<Longrightarrow> P x) \<Longrightarrow> (\<And>x. P x \<Longrightarrow> trails t n k (f x)) \<Longrightarrow> trails t n k (bindT m f)"
  by (rule trails_bind) auto

lemma trails_update_version:
  "v_TenantID x = t \<Longrightarrow> (\<And>v. v_TenantID v = t \<Longrightarrow> trails t n k (f v)) \<Longrightarrow> trails t n k (bindT (update_version ev i x) f)"
  by (rule trails_bind_res [OF quiet_statements(7), of _ _ _ "\<lambda>v. v_TenantID v = t"])
     (auto simp: monad_inv update_version_def repo_UpdateVersion_def)

lemma trails_update_link:
  "l_TenantID x = t \<Longrightarrow> (\<And>l. l_TenantID l = t \<Longrightarrow> trails t n k (f l)) \<Longrightarrow> trails t n k (bindT (update_link ev i x) f)"
  by (rule trails_bind_res [OF quiet_statements(10), of _ _ _ "\<lambda>l. l_TenantID l = t"])
     (auto simp: monad_inv update_link_def repo_UpdateLink_def)

lemma audit_statements:
  "v_TenantID v = t \<Longrightarrow> trails t 1 0 (appendAudit ev k actor v action sev attrs)"
  "trails t 1 0 (link_audit ev k actor t p lid action sev attrs)"
  "r_TenantID r = t \<Longrightarrow> trails t 1 0 (audit_append ev k r)"
  unfolding appendAudit_def link_audit_def by (rule audit_append_trails, simp)+

lemma event_statements:
  "v_TenantID v = t \<Longrightarrow> trails t 0 1 (emit ev k actor v ty payload)"
  "l_TenantID l = t \<Longrightarrow> trails t 0 1 (emitLink ev k actor l ty)"
  "trails t 0 1 (emit_event ev k ty t q agg oactor pl wrap)"
  unfolding emit_def emitLink_def emitRaw_def using emit_event_trails by auto

lemmas trails_struct = trails_update_version trails_update_link trails_lift trails_quiet [OF quiet_statements(1)] trails_quiet [OF quiet_statements(2)]
  trails_quiet [OF quiet_statements(3)] trails_quiet [OF quiet_statements(4)] trails_quiet [OF quiet_statements(5)]
  trails_quiet [OF quiet_statements(6)] trails_quiet [OF quiet_statements(8)] trails_quiet [OF quiet_statements(9)]
  trails_quiet [OF quiet_statements(11)]
  trails_audit [OF audit_statements(1)] trails_audit [OF audit_statements(2)] trails_audit [OF audit_statements(3)]
  trails_event [OF event_statements(1)] trails_event [OF event_statements(2)] trails_event [OF event_statements(3)] trails_cases

text \<open>A handler whose transaction leaves one record and at least one event.\<close>

definition recorded :: "TenantID \<Rightarrow> world \<Rightarrow> 'a result \<times> world \<Rightarrow> bool" where
  "recorded t w res \<longleftrightarrow> (\<not> isl (fst res) \<longrightarrow> (\<exists>r es. as_records (w_audit (snd res)) = as_records (w_audit w) @ [r] \<and> r_TenantID r = t \<and>
     map ob_event (w_outbox (snd res)) = map ob_event (w_outbox w) @ es \<and> es \<noteq> [] \<and> (\<forall>e \<in> set es. e_TenantID e = t)))"

lemma in_tx_recorded:
  assumes "trails t (Suc 0) (Suc 0) body" "w_audit w = w_audit w0" "w_outbox w = w_outbox w0"
  shows "recorded t w0 (in_tx ev tc body w)"
proof (cases "in_tx ev tc body w")
  case (Pair r w')
  show ?thesis
  proof (cases r)
    case (Inr x)
    then have "body w = Inr (x, w')" using Pair by (simp add: in_tx_Inr)
    then obtain rs es where "as_records (w_audit w') = as_records (w_audit w) @ rs" "length rs = Suc 0" "\<forall>r \<in> set rs. r_TenantID r = t"
        "map ob_event (w_outbox w') = map ob_event (w_outbox w) @ es" "Suc 0 \<le> length es" "\<forall>e \<in> set es. e_TenantID e = t"
      using assms(1) unfolding trails_def by blast
    then show ?thesis using assms(2,3) by (auto simp: recorded_def Pair Inr length_Suc_conv)
  qed (simp add: recorded_def Pair)
qed

lemma recorded_cases:
  "(c \<Longrightarrow> recorded t w m) \<Longrightarrow> (\<not> c \<Longrightarrow> recorded t w m') \<Longrightarrow> recorded t w (if c then m else m')"
  "(opt = None \<Longrightarrow> recorded t w m) \<Longrightarrow> (\<And>y. opt = Some y \<Longrightarrow> recorded t w (f y)) \<Longrightarrow>
     recorded t w (case opt of None \<Rightarrow> m | Some y \<Rightarrow> f y)"
  "(\<And>e. r = Inl e \<Longrightarrow> recorded t w (h e)) \<Longrightarrow> (\<And>x. r = Inr x \<Longrightarrow> recorded t w (h' x)) \<Longrightarrow>
     recorded t w (case r of Inl e \<Rightarrow> h e | Inr x \<Rightarrow> h' x)"
  "(\<And>a b. pr = (a, b) \<Longrightarrow> recorded t w (g a b)) \<Longrightarrow> recorded t w (case pr of (a, b) \<Rightarrow> g a b)"
  "recorded t w (Inl e, w')"
  by (auto simp: recorded_def split: option.split sum.split prod.split)

lemma tenancy_recorded:
  "recorded (ev_id ev 0) w (CreateTenant ev ct actor w)" "recorded t w (transitionTenant ev t e reason actor w)"
  "recorded t w (UpdateSettings ev t settings actor w)" "recorded (cp_TenantID cp) w (CreateProject ev cp actor w)"
  "recorded t w (transitionProject ev t p e actor w)"
  unfolding CreateTenant_def transitionTenant_def UpdateSettings_def CreateProject_def transitionProject_def Let_def
  by ((rule recorded_cases in_tx_recorded trails_struct refl | simp)+)

lemma version_tenant:
  "get_version ev scp k t p aid n = Inr v \<Longrightarrow> v_TenantID v = t"
  "SetContent clock v body = (None, x) \<Longrightarrow> v_TenantID x = v_TenantID v"
  "fire ev scp k actor v e p = Inr (out, x) \<Longrightarrow> v_TenantID x = v_TenantID v"
  "SealApproval v who comment evd at = (None, x) \<Longrightarrow> v_TenantID x = v_TenantID v"
  using get_version_Inr(2) [of ev scp k t p aid n v] SetContent_None(1) [of clock v body x] fire_Inr(1) [of ev scp k actor v e p out x]
    SealApproval_identity [of v who comment evd at x]
  by (auto simp: version_key_def same_identity_def)

lemma graph_recorded:
  "recorded (ci_TenantID ci) w (Create ev ci actor w)" "recorded t w (UpdateDraft ev t p aid n body vno actor w)"
  "recorded t w (Transition ev t p aid n e comment actor w)" "recorded t w (Revise ev t p aid summary actor w)"
proof -
  show "recorded t w (UpdateDraft ev t p aid n body vno actor w)" unfolding UpdateDraft_def Let_def
    by (rule recorded_cases in_tx_recorded trails_struct refl | simp add: version_tenant)+
  show "recorded t w (Transition ev t p aid n e comment actor w)" unfolding Transition_def Let_def
    by (rule recorded_cases in_tx_recorded trails_struct refl | simp add: version_tenant)+
  show "recorded t w (Revise ev t p aid summary actor w)" unfolding Revise_def Let_def
    by (rule recorded_cases in_tx_recorded trails_struct refl | simp add: version_tenant Version_Revise_Inr)+
  have alloc: "trails t 0 0 (if c then allocateID ev inp else returnT x)" for t c inp x
    unfolding allocateID_def Let_def by (auto simp: trails_def monad_inv split: if_split)
  have body: "trails t (Suc 0) (Suc 0) (create_body ev inp actor)" if "ci_TenantID inp = t" for inp t
    unfolding create_body_def Let_def
    by (rule trails_quiet [OF alloc] trails_struct refl | simp add: that NewVersion_Inr split: sum.split)+
  show "recorded (ci_TenantID ci) w (Create ev ci actor w)" unfolding Create_def Let_def
    by (intro recorded_cases in_tx_recorded refl body) simp
qed

lemma supersede_prior_trails: "trails (ai_TenantID inp) 0 0 (supersede_prior ev inp actor)"
proof -
  have e: "trails t 0 0 m" if "trails t 0 1 m" for t and m :: "unit wtx" using that by (fastforce simp: trails_def)
  have u: "trails (ai_TenantID inp) 0 0 (bindT (update_version ev 0 x) (\<lambda>v. emit ev 4 actor v ty (pl v)))"
    if "v_TenantID x = ai_TenantID inp" for x ty pl
    using that by (rule trails_update_version) (rule e, rule event_statements)
  have "v_TenantID v = t" if "ReadOnly ev scp k (\<lambda>w. repo_ApprovedVersion f t p aid (w_versions w)) = Inr v" for scp k f t p aid v
    using approved_read_Inr(2) [OF that] by (simp add: version_artifact_def)
  then show ?thesis unfolding supersede_prior_def Let_def
    by (intro trails_cases u) auto
qed

lemma Approve_recorded: "recorded (ai_TenantID inp) w (Approve ev buckets inp actor w)"
proof -
  have "trails (ai_TenantID inp) (Suc 0) (Suc 0) (seal_body ev inp actor evidence)" for evidence
    unfolding seal_body_def Let_def
    by (rule trails_quiet [OF supersede_prior_trails] trails_struct refl | simp add: version_tenant)+
  then show ?thesis unfolding Approve_def
    by (intro recorded_cases in_tx_recorded) simp_all
qed

lemma links_recorded:
  "recorded (li_TenantID li) w (CreateLink ev li actor w)" "recorded t w (AcceptLink ev t p lid d actor w)"
  "recorded t w (RejectLink ev t p lid why actor w)"
proof -
  have ten: "NewTraceLink clock t p lid a b ty origin c who = Inr l \<Longrightarrow> l_TenantID l = t"
    "get_link ev scp k t p lid = Inr l \<Longrightarrow> l_TenantID l = t"
    "Accept clock l d who = (None, l') \<Longrightarrow> l_TenantID l' = l_TenantID l"
    "Reject clock l d who = (None, l') \<Longrightarrow> l_TenantID l' = l_TenantID l" for clock t p lid a b ty origin c who l l' d scp k
    by (auto simp: NewTraceLink_def monad_inv Let_def Accept_def Reject_def link_key_def dest!: get_link_Inr(2) split: if_splits)
  show "recorded (li_TenantID li) w (CreateLink ev li actor w)" unfolding CreateLink_def Let_def
    by (rule recorded_cases in_tx_recorded trails_struct refl | simp add: ten)+
  show "recorded t w (AcceptLink ev t p lid d actor w)" unfolding AcceptLink_def Let_def
    by (rule recorded_cases in_tx_recorded trails_struct refl | simp add: ten)+
  show "recorded t w (RejectLink ev t p lid why actor w)" unfolding RejectLink_def Let_def
    by (rule recorded_cases in_tx_recorded trails_struct refl | simp add: ten)+
qed

definition accounted :: "TenantID \<Rightarrow> world \<Rightarrow> world \<Rightarrow> bool" where
  "accounted t w w' \<longleftrightarrow> (\<exists>r es. as_records (w_audit w') = as_records (w_audit w) @ [r] \<and> r_TenantID r = t \<and>
     map ob_event (w_outbox w') = map ob_event (w_outbox w) @ es \<and> es \<noteq> [] \<and> list_all (\<lambda>e. e_TenantID e = t) es)"

lemma recordedD: "recorded t w res \<Longrightarrow> \<not> isl (fst res) \<Longrightarrow> accounted t w (snd res)"
  by (simp add: recorded_def accounted_def list_all_iff)

text \<open>The tenant a request is about; the relay and the store have none.\<close>

fun request_tenant :: "env \<Rightarrow> request \<Rightarrow> TenantID option" where
  "request_tenant ev (Req_CreateTenant inp actor) = Some (ev_id ev 0)"
| "request_tenant ev (Req_TenantEvent t e reason actor) = Some t"
| "request_tenant ev (Req_UpdateSettings t settings actor) = Some t"
| "request_tenant ev (Req_CreateProject inp actor) = Some (cp_TenantID inp)"
| "request_tenant ev (Req_ProjectEvent t p e actor) = Some t"
| "request_tenant ev (Req_Create inp actor) = Some (ci_TenantID inp)"
| "request_tenant ev (Req_UpdateDraft t p aid n body vno actor) = Some t"
| "request_tenant ev (Req_Transition t p aid n e comment actor) = Some t"
| "request_tenant ev (Req_Approve buckets inp actor) = Some (ai_TenantID inp)"
| "request_tenant ev (Req_Revise t p aid summary actor) = Some t"
| "request_tenant ev (Req_CreateLink inp actor) = Some (li_TenantID inp)"
| "request_tenant ev (Req_AcceptLink t p lid d actor) = Some t"
| "request_tenant ev (Req_RejectLink t p lid why actor) = Some t"
| "request_tenant ev _ = None"

text \<open>C8: Every write of the tenancy, artifact and link services that succeeds (the requests for which
  \<^verbatim>\<open>request_tenant\<close> names a tenant) is accounted for, in the same transaction: exactly one record is
  appended to the audit log and at least one event to the outbox, all of them of the tenant the
  request is about, and nothing that was there before changes. An approval that supersedes the
  version approved before still writes one record for both moves. Reads, the relay and the
  publication of an audit anchor are not among these requests; an anchor is published without a
  record or an event.\<close>

theorem served_requests_are_recorded:
  assumes "fst (serve ev req w) = None" "request_tenant ev req = Some t"
  shows "\<exists>r es. as_records (w_audit (snd (serve ev req w))) = as_records (w_audit w) @ [r] \<and> r_TenantID r = t \<and>
    map ob_event (w_outbox (snd (serve ev req w))) = map ob_event (w_outbox w) @ es \<and> es \<noteq> [] \<and>
    list_all (\<lambda>e. e_TenantID e = t) es"
  unfolding accounted_def [symmetric] using assms
  by (cases req) (auto intro!: recordedD tenancy_recorded graph_recorded Approve_recorded links_recorded)

lemma served_requests_are_recorded_witness:
  "\<exists>r es. as_records (w_audit after_desk) = as_records (w_audit desk) @ [r] \<and> r_TenantID r = ''t1'' \<and> es \<noteq> [] \<and>
     map ob_event (w_outbox after_desk) = map ob_event (w_outbox desk) @ es"
  using served_requests_are_recorded [OF provision_served(1), of "''t1''"] by (auto simp: after_desk_def provision_def)

end
