(* ===== verification/Serial.thy ===== *)
theory Serial
  imports Serve
begin

text \<open>
  Optimistic concurrency. The calls here read one row outside their transaction and update it under
  the version number they read. When they succeed the row is still the current one, so they do what
  they would have done had they read the current state: stale reads are refused, never acted on.
\<close>

section \<open>The environment with other reads\<close>

abbreviation reading :: "world \<Rightarrow> env \<Rightarrow> env" where "reading w ev \<equiv> ev\<lparr>ev_read := \<lambda>_. w\<rparr>"

lemma reading_fields:
  "ev_now (reading w ev) = ev_now ev" "ev_id (reading w ev) = ev_id ev" "ev_db (reading w ev) = ev_db ev"
  "ev_policy (reading w ev) = ev_policy ev" "ev_fault (reading w ev) = ev_fault ev" "ev_rfault (reading w ev) = ev_rfault ev"
  "ev_read (reading w ev) k = w" "ev_corr (reading w ev) = ev_corr ev" "ev_fits (reading w ev) = ev_fits ev"
  "ev_conn (reading w ev) = ev_conn ev" "ev_audit (reading w ev) = ev_audit ev" "ev_event (reading w ev) = ev_event ev" "ev_ctx (reading w ev) = ev_ctx ev"
  by simp_all

lemma reading_opens [simp]: "opens (reading w ev) k tc = opens ev k tc"
  by (simp add: opens_def)

lemma reading_outbox: "outbox_append (reading w ev) = outbox_append ev"
  by (simp add: fun_eq_iff outbox_append_def)

lemma reading_statements:
  "audit_append (reading w ev) = audit_append ev" "emit_event (reading w ev) = emit_event ev"
  "update_version (reading w ev) = update_version ev" "bump_graph (reading w ev) = bump_graph ev"
  "update_link (reading w ev) = update_link ev" "in_tx (reading w ev) = in_tx ev"
  unfolding fun_eq_iff audit_append_def emit_event_def reading_outbox update_version_def bump_graph_def update_link_def
    in_tx_def reading_fields
  by simp_all

lemma reading_records:
  "appendAudit (reading w ev) = appendAudit ev" "emit (reading w ev) = emit ev"
  "link_audit (reading w ev) = link_audit ev" "emitLink (reading w ev) = emitLink ev"
  by (simp_all add: fun_eq_iff appendAudit_def emit_def link_audit_def emitLink_def emitRaw_def reading_statements)

text \<open>A row that is still current is found under its key.\<close>

lemma find_key: "distinct (map key rows) \<Longrightarrow> r \<in> set rows \<Longrightarrow> find (\<lambda>x. key x = key r) rows = Some r"
  by (induction rows) (auto simp: image_iff)

lemma get_version_current:
  assumes "graph_inv w" "get_version ev scp k t p aid n = Inr v" "v \<in> set (w_versions w)"
  shows "get_version (reading w ev) scp k t p aid n = Inr v"
proof -
  note g = get_version_Inr [OF assms(2)]
  have "find (\<lambda>x. version_key x = (t, p, aid, n)) (w_versions w) = Some v"
    using find_key [of version_key "w_versions w" v] assms(1,3) g(2) by (simp add: graph_inv_def versions_inv_keys)
  then show ?thesis using assms(2) g(3) by (simp add: get_version_def repo_GetVersion_def read_version_def monad_inv)
qed

lemma get_link_current:
  assumes "graph_inv w" "get_link ev scp k t p lid = Inr l" "l \<in> set (w_links w)"
  shows "get_link (reading w ev) scp k t p lid = Inr l"
proof -
  have "find (\<lambda>x. link_key x = (t, p, lid)) (w_links w) = Some l"
    using find_key [of link_key "w_links w" l] assms(1,3) get_link_Inr(2) [OF assms(2)] by (simp add: graph_inv_def)
  then show ?thesis using assms(2) by (simp add: get_link_def repo_GetLink_def monad_inv)
qed

lemma get_tenant_current:
  assumes "graph_inv w" "TenantRepo_GetByID f t past = Inr x" "x \<in> set (w_tenants w)"
  shows "TenantRepo_GetByID f t (w_tenants w) = Inr x"
proof -
  have "t_ID x = t" using assms(2) by (auto simp: TenantRepo_GetByID_def monad_inv dest: find_Some_D)
  then have "find (\<lambda>x. t_ID x = t) (w_tenants w) = Some x"
    using find_key [of t_ID "w_tenants w" x] assms(1,3) by (simp add: graph_inv_def)
  then show ?thesis using assms(2) by (simp add: TenantRepo_GetByID_def monad_inv)
qed

section \<open>What a successful call read\<close>

lemma checked_Inr [monad_inv]:
  "(case r of (Some err, _) \<Rightarrow> failT err | (None, v) \<Rightarrow> f v) s = Inr y \<longleftrightarrow> (\<exists>v. r = (None, v) \<and> f v s = Inr y)"
  "(case q of (Inl err, _) \<Rightarrow> failT err | (Inr out, v) \<Rightarrow> g out v) s = Inr y \<longleftrightarrow> (\<exists>out v. q = (Inr out, v) \<and> g out v s = Inr y)"
  "(case opt of Some err \<Rightarrow> failT err | None \<Rightarrow> m) s = Inr y \<longleftrightarrow> opt = None \<and> m s = Inr y"
  by (auto simp: failT_Inr split: prod.splits option.splits sum.splits)

lemma in_tx_success: "\<not> isl (fst (in_tx ev tc body w)) \<Longrightarrow> \<exists>x w'. body w = Inr (x, w')"
proof -
  obtain r w' where r: "in_tx ev tc body w = (r, w')" by fastforce
  assume "\<not> isl (fst (in_tx ev tc body w))"
  with r obtain x where "in_tx ev tc body w = (Inr x, w')" by (cases r) auto
  then show ?thesis by (auto simp: in_tx_Inr)
qed

lemma update_version_hits:
  assumes "update_version ev k x w = Inr (y, w')" "later past w" "r0 \<in> set (w_versions past)"
    and "version_key x = version_key r0" "v_VersionNo x = v_VersionNo r0"
  shows "r0 \<in> set (w_versions w)"
proof -
  from assms(1) obtain n vs where u: "update_versioned version_key v_VersionNo (set_version (ev_db ev) x)
      (\<lambda>old new. first_error [immutability_trigger old new, version_checks (ev_fits ev) new]) version_uniques x (w_versions w) = Inr (n, vs)" "n \<noteq> 0"
    by (auto simp: update_version_def repo_UpdateVersion_def monad_inv)
  have "evolves version_key v_VersionNo (w_versions past) (w_versions w)" using assms(2) by (simp add: later_def)
  from versions.update_read(1) [OF u this assms(3)] assms(4,5) show ?thesis by simp
qed

lemma update_tenant_hits:
  assumes "zoomT w_tenants put_tenants (TenantRepo_Update f now x) w = Inr (y, w')" "later past w" "r0 \<in> set (w_tenants past)"
    and "t_ID x = t_ID r0" "t_Version x = t_Version r0"
  shows "r0 \<in> set (w_tenants w)"
proof -
  from assms(1) obtain n ts where u: "update_versioned t_ID t_Version (set_tenant now x) (\<lambda>_. tenant_checks) tenant_uniques x
      (w_tenants w) = Inr (n, ts)" "n \<noteq> 0"
    by (auto simp: TenantRepo_Update_def monad_inv)
  have "evolves t_ID t_Version (w_tenants past) (w_tenants w)" using assms(2) by (simp add: later_def)
  from tenants.update_read(1) [OF u this assms(3)] assms(4,5) show ?thesis by simp
qed

lemma update_link_hits:
  assumes "update_link ev k x w = Inr (y, w')" "later past w" "r0 \<in> set (w_links past)" "same_link x r0"
  shows "r0 \<in> set (w_links w)"
proof -
  from assms(1) obtain n ls where u: "update_versioned link_key l_VersionNo (set_link (ev_db ev) x)
      (\<lambda>_ new. first_error [endpoint_trigger (w_versions w) new, link_checks new]) link_uniques x (w_links w) = Inr (n, ls)" "n \<noteq> 0"
    by (auto simp: update_link_def repo_UpdateLink_def monad_inv)
  have "evolves link_key l_VersionNo (w_links past) (w_links w)" using assms(2) by (simp add: later_def)
  from links.update_read(1) [OF u this assms(3)] assms(4) show ?thesis by (simp add: same_link_def)
qed

lemma UpdateDraft_current:
  assumes "graph_inv w" "\<And>k. later (ev_read ev k) w" "\<not> isl (fst (UpdateDraft ev t p aid n body vno actor w))"
  shows "UpdateDraft (reading w ev) t p aid n body vno actor w = UpdateDraft ev t p aid n body vno actor w"
proof -
  obtain v0 v1 y w1 where s: "get_version ev (graph_scope t p actor) 0 t p aid n = Inr v0"
      "SetContent (ev_now ev 1) v0 body = (None, v1)" "update_version ev 0 v1 w = Inr (y, w1)"
    using in_tx_success [OF assms(3) [unfolded UpdateDraft_def Let_def]]
    by (auto simp: monad_inv)
  note i = SetContent_None [OF s(2)]
  have "v0 \<in> set (w_versions w)"
    using update_version_hits [OF s(3) assms(2) get_version_Inr(1) [OF s(1)]] i(2) same_identity_key [OF i(1)] by simp
  then have "get_version (reading w ev) (graph_scope t p actor) 0 t p aid n = get_version ev (graph_scope t p actor) 0 t p aid n"
    using get_version_current [OF assms(1) s(1)] s(1) by simp
  then show ?thesis unfolding UpdateDraft_def Let_def reading_fields reading_statements reading_records by simp
qed

lemma AcceptLink_current:
  assumes "graph_inv w" "\<And>k. later (ev_read ev k) w" "graph_inv (ev_read ev 0)" "\<not> isl (fst (AcceptLink ev t p lid d actor w))"
  shows "AcceptLink (reading w ev) t p lid d actor w = AcceptLink ev t p lid d actor w"
proof -
  have req: "Require (ev_policy ev) (ev_now ev 0) actor LinkAccept (graph_resource t p ''link'' lid) = None"
    using assms(4) by (auto simp: AcceptLink_def split: option.splits)
  obtain l0 l1 y w1 where s: "get_link ev (graph_scope t p actor) 0 t p lid = Inr l0"
      "Accept (ev_now ev 1) l0 d (pr_ID actor) = (None, l1)" "update_link ev 0 l1 w = Inr (y, w1)"
    using in_tx_success [OF assms(4) [unfolded AcceptLink_def Let_def req option.case]]
    by (auto simp: monad_inv)
  have "l0 \<in> set (w_links w)"
    using update_link_hits [OF s(3) assms(2) get_link_Inr(1) [OF s(1)]] Accept_row [OF s(2) link_disposed [OF assms(3) get_link_Inr(1) [OF s(1)]]]
    by blast
  then have "get_link (reading w ev) (graph_scope t p actor) 0 t p lid = get_link ev (graph_scope t p actor) 0 t p lid"
    using get_link_current [OF assms(1) s(1)] s(1) by simp
  then show ?thesis unfolding AcceptLink_def Let_def reading_fields reading_statements reading_records req option.case by simp
qed

lemma RejectLink_current:
  assumes "graph_inv w" "\<And>k. later (ev_read ev k) w" "\<not> isl (fst (RejectLink ev t p lid why actor w))"
  shows "RejectLink (reading w ev) t p lid why actor w = RejectLink ev t p lid why actor w"
proof -
  have req: "Require (ev_policy ev) (ev_now ev 0) actor LinkReject (graph_resource t p ''link'' lid) = None"
    using assms(3) by (auto simp: RejectLink_def split: option.splits)
  obtain l0 l1 y w1 where s: "get_link ev (graph_scope t p actor) 0 t p lid = Inr l0"
      "Reject (ev_now ev 1) l0 why (pr_ID actor) = (None, l1)" "update_link ev 0 l1 w = Inr (y, w1)"
    using in_tx_success [OF assms(3) [unfolded RejectLink_def Let_def req option.case]]
    by (auto simp: monad_inv)
  have "l0 \<in> set (w_links w)"
    using update_link_hits [OF s(3) assms(2) get_link_Inr(1) [OF s(1)]] Reject_row [OF s(2)] by blast
  then have "get_link (reading w ev) (graph_scope t p actor) 0 t p lid = get_link ev (graph_scope t p actor) 0 t p lid"
    using get_link_current [OF assms(1) s(1)] s(1) by simp
  then show ?thesis unfolding RejectLink_def Let_def reading_fields reading_statements reading_records req option.case by simp
qed

lemma transitionTenant_current:
  assumes "graph_inv w" "\<And>k. later (ev_read ev k) w" "\<not> isl (fst (transitionTenant ev t e reason actor w))"
  shows "transitionTenant (reading w ev) t e reason actor w = transitionTenant ev t e reason actor w"
proof -
  obtain t0 t1 t3 y w1 chk out t2 where s: "TenantRepo_GetByID (ev_rfault ev 0) t (w_tenants (ev_read ev 0)) = Inr t0"
      "t1 = (if reason \<noteq> '''' then t0\<lparr>t_StatusReason := reason\<rparr> else t0)" "Fire tenant_machine (t_Status t1) e t1 chk = (Inr out, t2)"
      "t3 = t2\<lparr>t_Status := out_To out, t_UpdatedAt := Now (ev_now ev 1)\<rparr>"
      "zoomT w_tenants put_tenants (TenantRepo_Update (ev_fault ev 0) (ev_db ev) t3) w = Inr (y, w1)"
    using in_tx_success [OF assms(3) [unfolded transitionTenant_def Let_def]]
    by (fastforce simp: monad_inv simp del: zoomT_Inr)
  have t0: "t0 \<in> set (w_tenants (ev_read ev 0))" using s(1) by (auto simp: TenantRepo_GetByID_def monad_inv dest: find_Some_D)
  have "t0 \<in> set (w_tenants w)"
    using update_tenant_hits [OF s(5) assms(2) t0] s(2,4) tenant_fire(1) [OF s(3)] by simp
  then have "TenantRepo_GetByID (ev_rfault ev 0) t (w_tenants w) = TenantRepo_GetByID (ev_rfault ev 0) t (w_tenants (ev_read ev 0))"
    using get_tenant_current [OF assms(1) s(1)] s(1) by simp
  then show ?thesis unfolding transitionTenant_def Let_def reading_fields reading_statements transition_check_def by simp
qed

lemma UpdateSettings_current:
  assumes "graph_inv w" "\<And>k. later (ev_read ev k) w" "\<not> isl (fst (UpdateSettings ev t settings actor w))"
  shows "UpdateSettings (reading w ev) t settings actor w = UpdateSettings ev t settings actor w"
proof -
  have req: "Require (ev_policy ev) (ev_now ev 0) actor TenantUpdate (tenant_resource t) = None"
    using assms(3) by (auto simp: UpdateSettings_def split: option.splits)
  obtain t0 t1 y w1 where s: "TenantRepo_GetByID (ev_rfault ev 0) t (w_tenants (ev_read ev 0)) = Inr t0"
      "Tenant_UpdateSettings (ev_now ev 1) t0 settings = (None, t1)"
      "zoomT w_tenants put_tenants (TenantRepo_Update (ev_fault ev 0) (ev_db ev) t1) w = Inr (y, w1)"
    using in_tx_success [OF assms(3) [unfolded UpdateSettings_def Let_def req option.case]]
    by (fastforce simp: monad_inv simp del: zoomT_Inr)
  have t0: "t0 \<in> set (w_tenants (ev_read ev 0))" using s(1) by (auto simp: TenantRepo_GetByID_def monad_inv dest: find_Some_D)
  have "t_ID t1 = t_ID t0" "t_Version t1 = t_Version t0" using s(2) by (auto simp: Tenant_UpdateSettings_def split: option.splits)
  then have "t0 \<in> set (w_tenants w)" using update_tenant_hits [OF s(3) assms(2) t0] by simp
  then have "TenantRepo_GetByID (ev_rfault ev 0) t (w_tenants w) = TenantRepo_GetByID (ev_rfault ev 0) t (w_tenants (ev_read ev 0))"
    using get_tenant_current [OF assms(1) s(1)] s(1) by simp
  then show ?thesis unfolding UpdateSettings_def Let_def reading_fields reading_statements req option.case by simp
qed

section \<open>Calls on stale state\<close>

text \<open>The requests that read one row and update it.\<close>

fun optimistic :: "request \<Rightarrow> bool" where
  "optimistic (Req_TenantEvent t e reason actor) = True"
| "optimistic (Req_UpdateSettings t settings actor) = True"
| "optimistic (Req_UpdateDraft t p aid n body vno actor) = True"
| "optimistic (Req_AcceptLink t p lid d actor) = True"
| "optimistic (Req_RejectLink t p lid why actor) = True"
| "optimistic _ = False"

text \<open>C5: A call that edits a draft, accepts or rejects a link, or changes a tenant is atomic although
  it reads outside its transaction: whatever committed state of the past each of its reads saw, if it
  succeeds then its outcome and the database it leaves are those of the same call with every read
  on the current state.\<close>

theorem stale_reads_are_refused:
  assumes "hist (w # past)" "range (ev_read ev) \<subseteq> set (w # past)" "optimistic req" "fst (serve ev req w) = None"
  shows "serve (ev\<lparr>ev_read := \<lambda>_. w\<rparr>) req w = serve ev req w"
proof -
  have r: "graph_inv w" "graph_inv (ev_read ev k)" "later (ev_read ev k) w" for k
  proof -
    have "ev_read ev k \<in> set (w # past)" using assms(2) by blast
    then show "graph_inv w" "graph_inv (ev_read ev k)" "later (ev_read ev k) w"
      using hist_inv [OF assms(1)] hist_later [OF assms(1)] by auto
  qed
  show ?thesis
    using assms(3,4) transitionTenant_current [OF r(1,3)] UpdateSettings_current [OF r(1,3)] UpdateDraft_current [OF r(1,3)]
      AcceptLink_current [OF r(1,3,2)] RejectLink_current [OF r(1,3)]
    by (cases req) simp_all
qed

lemma stale_reads_are_refused_witness:
  "fst (serve ((call_env desk)\<lparr>ev_read := \<lambda>_. desk\<rparr>) provision desk) = None"
proof -
  have "serve ((call_env desk)\<lparr>ev_read := \<lambda>_. desk\<rparr>) provision desk = serve (call_env desk) provision desk"
    by (rule stale_reads_are_refused [OF hist.start [OF desk_inv] _ _ provision_served(1)])
      (auto simp: call_env_simps provision_def)
  then show ?thesis by (simp add: provision_served(1))
qed

end
