(* ===== verification/Approval.thy ===== *)
theory Approval
  imports Serial
begin

text \<open>
  Approval, the use case that crosses all the parts: the gates, the authorization, the object store,
  the version table and its triggers. What a successful approval went through, and what it leaves:
  a sealed row with the reviewed content, and evidence that stays readable until its retention ends.
\<close>

section \<open>The steps of a successful approval\<close>

lemma Approve_Inr:
  assumes "Approve ev buckets inp actor w = (Inr v, w')"
  obtains cur gates cbytes evidence s where
    "approve_checks ev inp actor = Inr (cur, gates, cbytes)"
    "store_evidence ev buckets inp actor (cur, gates, cbytes) (w_objects w) = (Inr evidence, s)"
    "seal_body ev inp actor evidence (w\<lparr>w_objects := s\<rparr>) = Inr (v, w')"
  using assms
  by (cases "approve_checks ev inp actor")
    (auto simp: Approve_def in_tx_Inr split: prod.splits sum.splits)

lemma case_wrapped_Inr: "(case r of Inl e \<Rightarrow> Inl (f e) | Inr x \<Rightarrow> Inr (g x)) = Inr y \<longleftrightarrow> (\<exists>x. r = Inr x \<and> g x = y)"
  by (cases r) auto

text \<open>What the gates are asked about.\<close>

definition gate_subject :: "ApproveInput \<Rightarrow> Principal \<Rightarrow> Version \<Rightarrow> GateSubject" where
  "gate_subject inp actor cur = \<lparr>gs_TenantID = ai_TenantID inp, gs_ProjectID = ai_ProjectID inp, gs_ArtifactID = ai_ArtifactID inp,
     gs_ArtifactType = v_Type cur, gs_Version = ai_Version inp, gs_Actor = pr_ID actor\<rparr>"

lemma approve_checks_Inr:
  assumes "approve_checks ev inp actor = Inr (cur, gates, cbytes)"
  obtains contributors out where "get_version ev (graph_scope (ai_TenantID inp) (ai_ProjectID inp) actor) 0 (ai_TenantID inp) (ai_ProjectID inp) (ai_ArtifactID inp)
       (ai_Version inp) = Inr cur"
    "v_Status cur = StatusUserReview" "Evaluate ev 1 (gate_subject inp actor cur) = Inr gates"
    "repo_Contributors (ev_rfault ev 3) (v_TenantID cur) (ai_ProjectID inp) (v_ArtifactID cur) (w_versions (ev_read ev 3)) = Inr contributors"
    "Fire artifact_machine StatusUserReview EventApprove cur (if pr_Kind actor = KindSystem then None
       else Some (fire_check ev actor ((artifact_resource (v_TenantID cur) (ai_ProjectID inp) (v_ArtifactID cur) (v_CreatedBy cur) (v_Type cur))
         \<lparr>res_Contributors := contributors\<rparr>))) = (Inr out, cur)"
    "CanonicalizeJSON (v_Content cur) = Inr cbytes"
proof -
  note c = assms [unfolded approve_checks_def Let_def bindR_Inr checkR_Inr]
  obtain out where s: "get_version ev (graph_scope (ai_TenantID inp) (ai_ProjectID inp) actor) 0 (ai_TenantID inp) (ai_ProjectID inp)
      (ai_ArtifactID inp) (ai_Version inp) = Inr cur" "v_Status cur = StatusUserReview"
      "Evaluate ev 1 (gate_subject inp actor cur) = Inr gates"
      "fire ev (graph_scope (ai_TenantID inp) (ai_ProjectID inp) actor) 3 actor cur EventApprove (ai_ProjectID inp) = Inr out"
      "CanonicalizeJSON (v_Content cur) = Inr cbytes"
    using c unfolding case_wrapped_Inr prod.inject gate_subject_def by blast
  obtain o' v' where o: "out = (o', v')" by (cases out)
  from s(4) obtain cs where c: "ReadOnly ev (graph_scope (ai_TenantID inp) (ai_ProjectID inp) actor) 3
      (\<lambda>w. repo_Contributors (ev_rfault ev 3) (v_TenantID cur) (ai_ProjectID inp) (v_ArtifactID cur) (w_versions w)) = Inr cs"
      "Fire artifact_machine (v_Status cur) EventApprove cur (if pr_Kind actor = KindSystem then None
       else Some (fire_check ev actor ((artifact_resource (v_TenantID cur) (ai_ProjectID inp) (v_ArtifactID cur) (v_CreatedBy cur) (v_Type cur))
         \<lparr>res_Contributors := cs\<rparr>))) = (Inr o', v')"
    unfolding fire_def Let_def o fire_outcome bindR_Inr by blast
  from c(1) have "repo_Contributors (ev_rfault ev 3) (v_TenantID cur) (ai_ProjectID inp) (v_ArtifactID cur) (w_versions (ev_read ev 3)) = Inr cs"
    by (simp add: ReadOnly_Inr)
  then show thesis using that s(1,2,3,5) c(2) artifact_fire(1) [OF c(2)] by (simp add: s(2))
qed

text \<open>The only approving move asks for \<^verbatim>\<open>artifact:approve\<close>.\<close>

lemma approve_permission:
  assumes "Fire artifact_machine StatusUserReview EventApprove v chk = (Inr out, v')"
  shows "check_permission chk ''artifact:approve'' = None"
  using artifact_fire(5,6) [OF assms] by (auto simp: artifact_moves_def status_defs event_defs)

lemma parse_approve: "ParsePermission ''artifact:approve'' = Inr ArtifactApprove"
proof -
  have "Permission_String ArtifactApprove = ''artifact:approve''" by code_simp
  moreover have "known ArtifactApprove" by code_simp
  ultimately show ?thesis using Parse_String by metis
qed

section \<open>What the transaction did\<close>

lemma evolves_between:
  assumes "evolves key ver a b" "evolves key ver b c" "r \<in> set a" "r \<in> set c"
  shows "r \<in> set b"
proof -
  obtain q where q: "q \<in> set b" "key q = key r" "ver r \<le> ver q" "ver q = ver r \<longrightarrow> q = r"
    using evolves_row [OF assms(1,3)] by blast
  obtain s where s: "s \<in> set c" "key s = key q" "ver q \<le> ver s" using evolves_row [OF assms(2) q(1)] by blast
  have "inj_on key (set c)" using assms(2) by (simp add: evolves_def distinct_map)
  then have "s = r" using s(1,2) q(2) assms(4) by (auto dest: inj_onD)
  then show ?thesis using q s(3) by simp
qed

lemma versions_frame:
  "update_artifact ev k a w = Inr (x, w') \<Longrightarrow> w_versions w' = w_versions w"
  "bump_graph ev k t p w = Inr (n, w') \<Longrightarrow> w_versions w' = w_versions w"
  "appendAudit ev k actor v action sev attrs w = Inr (u, w') \<Longrightarrow> w_versions w' = w_versions w"
  "emit ev k actor v ty payload w = Inr (u, w') \<Longrightarrow> w_versions w' = w_versions w"
  by (auto simp: update_artifact_def bump_graph_def appendAudit_def emit_def monad_inv put_defs tables_eq
      dest!: audit_append_frame emit_event_frame)

lemma seal_body_Inr:
  assumes "seal_body ev inp actor evidence w = Inr (v, w')"
  obtains v0 v1 w1 w2 where
    "get_version ev (graph_scope (ai_TenantID inp) (ai_ProjectID inp) actor) 4 (ai_TenantID inp) (ai_ProjectID inp) (ai_ArtifactID inp)
       (ai_Version inp) = Inr v0"
    "v_Status v0 = StatusUserReview" "supersede_prior ev inp actor w = Inr ((), w1)"
    "SealApproval v0 (pr_ID actor) (ai_Comment inp) evidence (Now (ev_now ev 1)) = (None, v1)"
    "update_version ev 1 v1 w1 = Inr (v, w2)" "w_versions w' = w_versions w2"
  using assms [unfolded seal_body_def Let_def]
  by (auto simp: monad_inv dest!: versions_frame)

lemma supersede_prior_later:
  assumes "graph_inv w" "\<And>k. later (ev_read ev k) w" "graph_inv (ev_read ev 5)" "supersede_prior ev inp actor w = Inr (u, w')"
  shows "later w w'"
  using supersede_prior_grows [OF assms(3), of inp actor] assms(1,2,4) by (auto simp: grows_def)

text \<open>The row that is sealed is the current one: it was in review, and it keeps its content.\<close>

lemma seal_body_seals:
  assumes "graph_inv w" "\<And>k. later (ev_read ev k) w" "\<And>k. graph_inv (ev_read ev k)"
    and "seal_body ev inp actor evidence w = Inr (v, w')"
  obtains u r where "u \<in> set (w_versions w)" "r \<in> set (w_versions w')"
    "version_key u = (ai_TenantID inp, ai_ProjectID inp, ai_ArtifactID inp, ai_Version inp)" "version_key r = version_key u"
    "v_Status u = StatusUserReview" "v_Status r = StatusApproved" "v_Content r = v_Content u" "v_ContentHash r = v_ContentHash u"
    "v_ApprovedBy r = Some (pr_ID actor)" "v_ApprovalComment r = ai_Comment inp" "v_ApprovalEvidence r = Some evidence"
    "TrimSpace (ai_Comment inp) \<noteq> ''''"
proof (rule seal_body_Inr [OF assms(4)])
  fix v0 v1 w1 w2
  assume g: "get_version ev (graph_scope (ai_TenantID inp) (ai_ProjectID inp) actor) 4 (ai_TenantID inp) (ai_ProjectID inp)
      (ai_ArtifactID inp) (ai_Version inp) = Inr v0" "v_Status v0 = StatusUserReview"
    and s: "supersede_prior ev inp actor w = Inr ((), w1)"
    and seal: "SealApproval v0 (pr_ID actor) (ai_Comment inp) evidence (Now (ev_now ev 1)) = (None, v1)"
    and up: "update_version ev 1 v1 w1 = Inr (v, w2)" and w': "w_versions w' = w_versions w2"
  note r0 = get_version_Inr [OF g(1)] and sealed = SealApproval_None [OF seal] and same = SealApproval_identity [OF seal]
  have l: "later w w1" by (rule supersede_prior_later [OF assms(1,2) assms(3) s])
  then have p: "later (ev_read ev 4) w1" using later_trans [OF assms(2)] by blast
  note u = update_version_later [OF later_inv [OF l] up p r0(1) same sealed(10,2)]
  have "v0 \<in> set (w_versions w)"
    using evolves_between [of version_key v_VersionNo _ _ "w_versions w1" v0] assms(2) [of 4] l r0(1) u(2) by (auto simp: later_def)
  moreover have "v_ContentHash v0 \<noteq> ''''"
    using r0(3) by (auto simp: Version_Verify_None ContentHash_Valid_def dest: ComputeHash_valid)
  moreover define r where "r = set_version (ev_db ev) v1 v0"
  moreover have "version_key r = version_key v0" "v_Status r = v_Status v1" "v_Content r = v_Content v1" "v_ContentHash r = v_ContentHash v1"
      "v_ApprovedBy r = v_ApprovedBy v1" "v_ApprovalComment r = v_ApprovalComment v1" "v_ApprovalEvidence r = v_ApprovalEvidence v1"
    by (simp_all add: r_def set_version_def version_key_def)
  moreover have "v_Content v1 = v_Content v0" using sealed(1) by (simp add: same_hashed_def)
  moreover have "r \<in> set (w_versions w')" using u(3) by (simp add: r_def w')
  ultimately show thesis using that [of v0 r] g(2) r0(2) sealed(4,5,7,9,12,14) by simp
qed

text \<open>The authorization of an approval: the actor may approve, or is the system itself.\<close>

lemma approve_checks_authorized:
  assumes "approve_checks ev inp actor = Inr (cur, gates, cbytes)"
  obtains contributors where
    "cur \<in> set (w_versions (ev_read ev 0))"
    "version_key cur = (ai_TenantID inp, ai_ProjectID inp, ai_ArtifactID inp, ai_Version inp)" "v_Status cur = StatusUserReview"
    "Evaluate ev 1 (gate_subject inp actor cur) = Inr gates"
    "repo_Contributors (ev_rfault ev 3) (ai_TenantID inp) (ai_ProjectID inp) (ai_ArtifactID inp) (w_versions (ev_read ev 3)) = Inr contributors"
    "pr_Kind actor = KindSystem \<or> Require (ev_policy ev) (ev_now ev 0) actor ArtifactApprove
       ((artifact_resource (ai_TenantID inp) (ai_ProjectID inp) (ai_ArtifactID inp) (v_CreatedBy cur) (v_Type cur))
         \<lparr>res_Contributors := contributors\<rparr>) = None"
proof (rule approve_checks_Inr [OF assms])
  fix contributors out
  assume g: "get_version ev (graph_scope (ai_TenantID inp) (ai_ProjectID inp) actor) 0 (ai_TenantID inp) (ai_ProjectID inp)
      (ai_ArtifactID inp) (ai_Version inp) = Inr cur"
    and c: "repo_Contributors (ev_rfault ev 3) (v_TenantID cur) (ai_ProjectID inp) (v_ArtifactID cur) (w_versions (ev_read ev 3)) =
      Inr contributors"
    and s: "v_Status cur = StatusUserReview" "Evaluate ev 1 (gate_subject inp actor cur) = Inr gates"
    and f: "Fire artifact_machine StatusUserReview EventApprove cur (if pr_Kind actor = KindSystem then None
      else Some (fire_check ev actor ((artifact_resource (v_TenantID cur) (ai_ProjectID inp) (v_ArtifactID cur) (v_CreatedBy cur) (v_Type cur))
        \<lparr>res_Contributors := contributors\<rparr>))) = (Inr out, cur)"
  note k = get_version_Inr(2) [OF g]
  then have t: "v_TenantID cur = ai_TenantID inp" "v_ArtifactID cur = ai_ArtifactID inp" by (simp_all add: version_key_def)
  show thesis
    by (rule that [of contributors])
      (use get_version_Inr(1) [OF g] c s k approve_permission [OF f] in
        \<open>auto simp: t check_permission_def fire_check_def parse_approve split: if_splits\<close>)
qed

section \<open>The evidence is in the store\<close>

lemma store_evidence_Inr:
  assumes "store_evidence ev buckets inp actor checked s = (Inr evidence, s')"
  obtains s1 bytes obj where
    "s1 = snd (store_PutAt (ev_sfault ev 0) (ev_now ev 2) (bk_Content buckets)
       (ContentKey (ai_TenantID inp) (Some (ai_ProjectID inp)) (ContentOfBytes (snd (snd checked)))) (snd (snd checked)) (content_options inp) s)"
    "store_PutAt (ev_sfault ev 1) (ev_now ev 3) (bk_Evidence buckets)
       (TenantKey (ai_TenantID inp) (Some (ai_ProjectID inp)) (''evidence/'' @ StorageKey (ContentOfBytes bytes))) bytes
       (evidence_options inp actor (Now (ev_now ev 1))) s1 = (Inr obj, s')"
    "Canonicalize (evidence_doc inp actor (fst checked) (fst (snd checked))
       (ContentKey (ai_TenantID inp) (Some (ai_ProjectID inp)) (ContentOfBytes (snd (snd checked)))) (''EVD-'' @ ev_id ev 9)
       (Now (ev_now ev 1))) = Inr bytes"
    "ev_Digest evidence = ContentOfBytes bytes" "ev_StorageRef evidence = so_Key obj" "ev_GateDecisions evidence = fst (snd checked)"
    "ev_EvidenceID evidence = ''EVD-'' @ ev_id ev 9"
  using assms by (cases checked) (auto simp: store_evidence_def Let_def simp del: store_PutAt.simps split: prod.splits sum.splits)

lemma store_evidence_held:
  assumes "store_sound s" "store_evidence ev buckets inp actor (cur, gates, cbytes) s = (Inr evidence, s')"
  obtains contentKey bytes body obj where
    "Canonicalize (evidence_doc inp actor cur gates contentKey (ev_EvidenceID evidence) (Now (ev_now ev 1))) = Inr bytes"
    "ev_Digest evidence = ContentOfBytes bytes" "ev_GateDecisions evidence = gates"
    "GetVerified (store_Get (bk_Evidence buckets) (ev_StorageRef evidence) s') (ev_Digest evidence) = Inr (body, obj)"
    "ContentOfBytes body = ContentOfBytes bytes"
proof (rule store_evidence_Inr [OF assms(2), unfolded fst_conv snd_conv])
  fix s1 bytes obj
  assume s1: "s1 = snd (store_PutAt (ev_sfault ev 0) (ev_now ev 2) (bk_Content buckets)
       (ContentKey (ai_TenantID inp) (Some (ai_ProjectID inp)) (ContentOfBytes cbytes)) cbytes (content_options inp) s)"
    and put: "store_PutAt (ev_sfault ev 1) (ev_now ev 3) (bk_Evidence buckets)
       (TenantKey (ai_TenantID inp) (Some (ai_ProjectID inp)) (''evidence/'' @ StorageKey (ContentOfBytes bytes))) bytes
       (evidence_options inp actor (Now (ev_now ev 1))) s1 = (Inr obj, s')"
    and doc: "Canonicalize (evidence_doc inp actor cur gates (ContentKey (ai_TenantID inp) (Some (ai_ProjectID inp)) (ContentOfBytes cbytes))
       (''EVD-'' @ ev_id ev 9) (Now (ev_now ev 1))) = Inr bytes"
    and e: "ev_Digest evidence = ContentOfBytes bytes" "ev_StorageRef evidence = so_Key obj" "ev_GateDecisions evidence = gates"
      "ev_EvidenceID evidence = ''EVD-'' @ ev_id ev 9"
  have sound: "store_sound s1" unfolding s1 by (rule store.sound_put [OF assms(1)])
  have lock: "po_Lock (evidence_options inp actor (Now (ev_now ev 1)))" by (simp add: evidence_options_def)
  obtain body obj' where "GetVerified (store_Get (bk_Evidence buckets) (so_Key obj) s') (ContentOfBytes bytes) = Inr (body, obj')"
      "ContentOfBytes body = ContentOfBytes bytes"
    using store.locked_readable [OF sound put lock, of "[]"] by auto
  with that doc e show thesis by metis
qed

text \<open>The transaction does not touch the store.\<close>

lemma append_objects:
  "audit_append ev k r w = Inr (u, w') \<Longrightarrow> w_objects w' = w_objects w"
  "emit_event ev k ty t p agg actor payload wrap w = Inr (u, w') \<Longrightarrow> w_objects w' = w_objects w"
  by (auto simp: audit_append_def emit_event_def outbox_append_def put_defs monad_inv split: sum.splits)

lemma objects_frame:
  "update_artifact ev k a w = Inr (x, w') \<Longrightarrow> w_objects w' = w_objects w"
  "update_version ev k v w = Inr (y, w') \<Longrightarrow> w_objects w' = w_objects w"
  "bump_graph ev k t p w = Inr (n, w') \<Longrightarrow> w_objects w' = w_objects w"
  "appendAudit ev k actor v action sev attrs w = Inr (u, w') \<Longrightarrow> w_objects w' = w_objects w"
  "emit ev k actor v ty payload w = Inr (u, w') \<Longrightarrow> w_objects w' = w_objects w"
  by (auto simp: update_artifact_def update_version_def bump_graph_def appendAudit_def emit_def monad_inv put_defs
      dest!: append_objects)

lemma supersede_prior_objects: "supersede_prior ev inp actor w = Inr (u, w') \<Longrightarrow> w_objects w' = w_objects w"
  by (auto simp: supersede_prior_def Let_def monad_inv split: sum.splits if_splits dest!: objects_frame)

lemma seal_body_objects: "seal_body ev inp actor evidence w = Inr (v, w') \<Longrightarrow> w_objects w' = w_objects w"
  by (auto simp: seal_body_def Let_def monad_inv split: sum.splits if_splits option.splits prod.splits
      dest!: objects_frame supersede_prior_objects)

text \<open>C3: An approval either fails and leaves the database as it was, or seals the current row of the
  version it names: the row was in review, keeps its content and hash, and records the approver, a
  comment that is not blank, and the evidence. The approval had read that very version, in
  review, and its author and type are those the policy allowed \<^verbatim>\<open>artifact:approve\<close> for, with
  all the contributors the database had; only the system itself approves without that. The gates let it pass, the
  evidence holds their decisions, and the document about this version, approver and decisions is in
  the evidence store under the place and the digest that the sealed row records: reading it there
  gives bytes that verify against them.\<close>

theorem approval_outcome:
  assumes "hist (w # past)" "range (ev_read ev) \<subseteq> set (w # past)"
  shows "case Approve ev buckets inp actor w of
      (Inl err, w') \<Rightarrow> w'\<lparr>w_objects := w_objects w\<rparr> = w
    | (Inr v, w') \<Rightarrow> (\<exists>u r cur contributors evidence contentKey bytes body obj.
        u \<in> set (w_versions w) \<and> r \<in> set (w_versions w') \<and> version_key r = version_key u \<and>
        version_key u = (ai_TenantID inp, ai_ProjectID inp, ai_ArtifactID inp, ai_Version inp) \<and>
        v_Status u = StatusUserReview \<and> v_Status r = StatusApproved \<and> v_Content r = v_Content u \<and> v_ContentHash r = v_ContentHash u \<and>
        v_ApprovedBy r = Some (pr_ID actor) \<and> v_ApprovalComment r = ai_Comment inp \<and> TrimSpace (ai_Comment inp) \<noteq> '''' \<and>
        v_ApprovalEvidence r = Some evidence \<and>
        cur \<in> set (w_versions (ev_read ev 0)) \<and> version_key cur = version_key u \<and> v_Status cur = StatusUserReview \<and>
        repo_Contributors (ev_rfault ev 3) (ai_TenantID inp) (ai_ProjectID inp) (ai_ArtifactID inp) (w_versions (ev_read ev 3)) =
          Inr contributors \<and>
        (pr_Kind actor = KindSystem \<or> Require (ev_policy ev) (ev_now ev 0) actor ArtifactApprove
           ((artifact_resource (ai_TenantID inp) (ai_ProjectID inp) (ai_ArtifactID inp) (v_CreatedBy cur) (v_Type cur))
             \<lparr>res_Contributors := contributors\<rparr>) = None) \<and>
        Evaluate ev 1 (gate_subject inp actor cur) = Inr (ev_GateDecisions evidence) \<and>
        Canonicalize (evidence_doc inp actor cur (ev_GateDecisions evidence) contentKey (ev_EvidenceID evidence) (Now (ev_now ev 1))) =
          Inr bytes \<and>
        ev_Digest evidence = ContentOfBytes bytes \<and>
        GetVerified (store_Get (bk_Evidence buckets) (ev_StorageRef evidence) (w_objects w')) (ev_Digest evidence) = Inr (body, obj) \<and>
        ContentOfBytes body = ContentOfBytes bytes)"
proof (cases "Approve ev buckets inp actor w")
  case (Pair res w')
  have r: "graph_inv w" "graph_inv (ev_read ev k)" "later (ev_read ev k) w" for k
  proof -
    have "ev_read ev k \<in> set (w # past)" using assms(2) by blast
    then show "graph_inv w" "graph_inv (ev_read ev k)" "later (ev_read ev k) w"
      using hist_inv [OF assms(1)] hist_later [OF assms(1)] by auto
  qed
  show ?thesis
  proof (cases res)
    case (Inl err)
    then show ?thesis using Approve_undone [of ev buckets inp actor w] Pair by auto
  next
    case (Inr v)
    then obtain cur gates cbytes evidence s where a: "approve_checks ev inp actor = Inr (cur, gates, cbytes)"
        "store_evidence ev buckets inp actor (cur, gates, cbytes) (w_objects w) = (Inr evidence, s)"
        "seal_body ev inp actor evidence (w\<lparr>w_objects := s\<rparr>) = Inr (v, w')"
      using Approve_Inr [of ev buckets inp actor w v w'] Pair by metis
    have sound: "store_sound (w_objects w)" using r(1) by (simp add: graph_inv_def)
    then have "store_sound s" using store_evidence_sound [of "w_objects w"] a(2) by (metis snd_conv)
    then have l: "later w (w\<lparr>w_objects := s\<rparr>)" by (rule later_objects [OF r(1)])
    have p: "later (ev_read ev k) (w\<lparr>w_objects := s\<rparr>)" for k using later_trans [OF r(3) l] .
    have e: "w_versions (w\<lparr>w_objects := s\<rparr>) = w_versions w" by simp
    have o: "w_objects w' = s" using seal_body_objects [OF a(3)] by simp
    obtain u x where sealed: "u \<in> set (w_versions w)" "x \<in> set (w_versions w')"
        "version_key u = (ai_TenantID inp, ai_ProjectID inp, ai_ArtifactID inp, ai_Version inp)" "version_key x = version_key u"
        "v_Status u = StatusUserReview" "v_Status x = StatusApproved" "v_Content x = v_Content u" "v_ContentHash x = v_ContentHash u"
        "v_ApprovedBy x = Some (pr_ID actor)" "v_ApprovalComment x = ai_Comment inp" "v_ApprovalEvidence x = Some evidence"
        "TrimSpace (ai_Comment inp) \<noteq> ''''"
      by (rule seal_body_seals [OF later_inv [OF l] p r(2) a(3), unfolded e])
    obtain contributors where read: "cur \<in> set (w_versions (ev_read ev 0))"
        "version_key cur = (ai_TenantID inp, ai_ProjectID inp, ai_ArtifactID inp, ai_Version inp)" "v_Status cur = StatusUserReview"
        "Evaluate ev 1 (gate_subject inp actor cur) = Inr gates"
        "repo_Contributors (ev_rfault ev 3) (ai_TenantID inp) (ai_ProjectID inp) (ai_ArtifactID inp) (w_versions (ev_read ev 3)) = Inr contributors"
        "pr_Kind actor = KindSystem \<or> Require (ev_policy ev) (ev_now ev 0) actor ArtifactApprove
          ((artifact_resource (ai_TenantID inp) (ai_ProjectID inp) (ai_ArtifactID inp) (v_CreatedBy cur) (v_Type cur))
            \<lparr>res_Contributors := contributors\<rparr>) = None"
      by (rule approve_checks_authorized [OF a(1)])
    obtain contentKey bytes body obj where stored:
        "Canonicalize (evidence_doc inp actor cur gates contentKey (ev_EvidenceID evidence) (Now (ev_now ev 1))) = Inr bytes"
        "ev_Digest evidence = ContentOfBytes bytes" "ev_GateDecisions evidence = gates"
        "GetVerified (store_Get (bk_Evidence buckets) (ev_StorageRef evidence) s) (ev_Digest evidence) = Inr (body, obj)"
        "ContentOfBytes body = ContentOfBytes bytes"
      by (rule store_evidence_held [OF sound a(2)])
    show ?thesis unfolding Pair Inr prod.case sum.case o stored(3)
      by (rule exI [of _ u], rule exI [of _ x], rule exI [of _ cur], rule exI [of _ contributors], rule exI [of _ evidence],
          rule exI [of _ contentKey], rule exI [of _ bytes], rule exI [of _ body], rule exI [of _ obj])
        (use sealed read stored in \<open>simp only: simp_thms\<close>)
  qed
qed

definition approve_spec :: ApproveInput where
  "approve_spec = \<lparr>ai_TenantID = ''t1'', ai_ProjectID = ''j1'', ai_ArtifactID = ''SPEC-001'', ai_Version = 1, ai_Comment = ''ok''\<rparr>"

lemma approval_outcome_witness:
  "case Approve (call_env desk) \<lparr>bk_Content = ''c'', bk_Evidence = ''e''\<rparr> approve_spec (system_principal ''t1'') desk of
     (Inl err, w') \<Rightarrow> err = Precondition ''artifactgraph.Approve'' ''artifact.not_in_review'' \<and> w'\<lparr>w_objects := PgStore []\<rparr> = desk
   | (Inr v, w') \<Rightarrow> False"
proof -
  have "repo_GetVersion None ''t1'' ''j1'' ''SPEC-001'' 1 (w_versions desk) = Inr v_spec"
    using desk_versions(1,4) by (simp add: repo_GetVersion_def read_version_def desk_def monad_inv)
  then have "get_version (call_env desk) (graph_scope ''t1'' ''j1'' (system_principal ''t1'')) 0 ''t1'' ''j1'' ''SPEC-001'' 1 = Inr v_spec"
    by (simp add: get_version_def monad_inv call_env_simps graph_scope_def scope_def)
  then have "Approve (call_env desk) \<lparr>bk_Content = ''c'', bk_Evidence = ''e''\<rparr> approve_spec (system_principal ''t1'') desk =
      (Inl (Precondition ''artifactgraph.Approve'' ''artifact.not_in_review''), desk)"
    using desk_versions(3) by (simp add: Approve_def approve_checks_def approve_spec_def bindR_def checkR_def status_defs)
  moreover have "hist [desk]" by (rule hist.start [OF desk_inv])
  moreover have "range (ev_read (call_env desk)) \<subseteq> set [desk]" by (auto simp: call_env_simps)
  ultimately show ?thesis
    using approval_outcome [where w = desk and past = "[]" and ev = "call_env desk" and inp = approve_spec
        and buckets = "\<lparr>bk_Content = ''c'', bk_Evidence = ''e''\<rparr>" and actor = "system_principal ''t1''"]
    by (simp add: desk_def)
qed

section \<open>The evidence stays\<close>

lemma PG_PutAt_retains:
  assumes "PG_PutAt f t b k d opts rows = (Inr obj, rows')" "po_Lock opts"
  shows "po_RetainUntil opts \<le> so_RetainUntil obj"
proof (rule PG_PutAt_Inr [OF assms(1)])
  fix x r assume u: "upsert_object t x rows = Inr (r, rows')"
    and x: "or_retain_until x = (if po_Lock opts then Some (po_RetainUntil opts) else None)"
    and o: "so_RetainUntil obj = (case or_retain_until r of Some u \<Rightarrow> u | None \<Rightarrow> 0)"
  show ?thesis using upsert_cases [OF u] x o assms(2)
    by (auto simp: greatest_def split: option.splits)
qed

lemma stored_evidence_readable:
  assumes "pg_sound rows" "list_all (\<lambda>op. op_time op < AddYears 7 (Now (ev_now ev 1))) ops"
    and "store_evidence ev buckets inp actor checked (PgStore rows) = (Inr evidence, s')"
  shows "\<exists>body obj. GetVerified (store_Get (bk_Evidence buckets) (ev_StorageRef evidence)
      (fold (run_op store_PutAt store_Delete) ops s')) (ev_Digest evidence) = Inr (body, obj)"
proof (rule store_evidence_Inr [OF assms(3)])
  fix s1 bytes obj
  assume s1: "s1 = snd (store_PutAt (ev_sfault ev 0) (ev_now ev 2) (bk_Content buckets)
       (ContentKey (ai_TenantID inp) (Some (ai_ProjectID inp)) (ContentOfBytes (snd (snd checked)))) (snd (snd checked)) (content_options inp)
       (PgStore rows))"
    and put: "store_PutAt (ev_sfault ev 1) (ev_now ev 3) (bk_Evidence buckets)
       (TenantKey (ai_TenantID inp) (Some (ai_ProjectID inp)) (''evidence/'' @ StorageKey (ContentOfBytes bytes))) bytes
       (evidence_options inp actor (Now (ev_now ev 1))) s1 = (Inr obj, s')"
    and e: "ev_Digest evidence = ContentOfBytes bytes" "ev_StorageRef evidence = so_Key obj"
  have sound: "store_sound s1" unfolding s1 by (rule store.sound_put) (simp add: assms(1))
  have lock: "po_Lock (evidence_options inp actor (Now (ev_now ev 1)))" by (simp add: evidence_options_def)
  obtain rows1 where rows1: "s1 = PgStore rows1" using s1 by simp
  obtain rows' where "PG_PutAt (fst (ev_sfault ev 1)) (ev_now ev 3) (bk_Evidence buckets)
       (TenantKey (ai_TenantID inp) (Some (ai_ProjectID inp)) (''evidence/'' @ StorageKey (ContentOfBytes bytes))) bytes
       (evidence_options inp actor (Now (ev_now ev 1))) rows1 = (Inr obj, rows')"
    using put by (auto simp: rows1 apsnd_def map_prod_def split: prod.splits)
  from PG_PutAt_retains [OF this lock] have "AddYears 7 (Now (ev_now ev 1)) \<le> so_RetainUntil obj" by (simp add: evidence_options_def)
  then have "\<forall>op \<in> set ops. op_time op < so_RetainUntil obj" using assms(2) by (auto simp: list_all_iff)
  from store.locked_readable [OF sound put lock this] show ?thesis by (auto simp: e)
qed

text \<open>C4: What was put aside for an approval is there for seven years. When \<^verbatim>\<open>store_evidence\<close> has
  reported where it put the evidence of an approval in the database store, then after any puts and
  deletes that run less than seven years after the approval, on this or any other key, the evidence
  is readable at that place and verifies against the digest that the approved version records.\<close>

theorem approval_evidence_retained:
  assumes "pg_sound rows" "list_all (\<lambda>op. op_time op < AddYears 7 (Now (ev_now ev 1))) ops"
  shows "case store_evidence ev buckets inp actor checked (PgStore rows) of
      (Inl err, s') \<Rightarrow> True
    | (Inr evidence, s') \<Rightarrow> \<exists>body obj. GetVerified (store_Get (bk_Evidence buckets) (ev_StorageRef evidence)
        (fold (run_op store_PutAt store_Delete) ops s')) (ev_Digest evidence) = Inr (body, obj)"
proof -
  have "\<exists>body obj. GetVerified (store_Get (bk_Evidence buckets) (ev_StorageRef evidence)
        (fold (run_op store_PutAt store_Delete) ops s')) (ev_Digest evidence) = Inr (body, obj)"
    if "store_evidence ev buckets inp actor checked (PgStore rows) = (Inr evidence, s')" for evidence s'
    using assms that by (rule stored_evidence_readable)
  then show ?thesis by (auto split: prod.split sum.split)
qed

lemma approval_evidence_retained_witness:
  "case store_evidence (call_env desk) \<lparr>bk_Content = ''c'', bk_Evidence = ''e''\<rparr> approve_spec (system_principal ''t1'') (v_req, [], ''{}'') (PgStore []) of
     (Inl err, s') \<Rightarrow> True
   | (Inr evidence, s') \<Rightarrow> \<exists>body obj. GetVerified (store_Get ''e'' (ev_StorageRef evidence)
        (fold (run_op store_PutAt store_Delete) [Op_delete (None, None) 6000 ''e'' ''k''] s')) (ev_Digest evidence) = Inr (body, obj)"
proof -
  have c: "civil 0 = (1, 1, 1)" "day_of_civil 8 1 1 = 2556" by code_simp+
  have "Now 5000 = 5000" by (simp add: Now_def NormalizeTime_def Microsecond_def)
  moreover have "5000 div nanos_per_day = 0" "5000 mod nanos_per_day = 5000" "0 < nanos_per_day"
    by (simp_all add: nanos_per_day_def Second_def)
  ultimately have "AddYears 7 (Now 5000) = 2556 * nanos_per_day + 5000" by (simp add: AddYears_def c)
  moreover have "1000 < nanos_per_day" by (simp add: nanos_per_day_def Second_def)
  ultimately have "6000 < AddYears 7 (Now (ev_now (call_env desk) 1))" by (simp add: call_env_simps)
  then show ?thesis
    using approval_evidence_retained [where rows = "[]" and ev = "call_env desk" and inp = approve_spec
        and buckets = "\<lparr>bk_Content = ''c'', bk_Evidence = ''e''\<rparr>" and actor = "system_principal ''t1''"
        and checked = "(v_req, [], ''{}'')" and ops = "[Op_delete (None, None) 6000 ''e'' ''k'']", unfolded Buckets.select_convs]
    by (simp add: pg_sound_def del: fold_simps store_Delete.simps)
qed

end
