(* ===== verification/Idempotency.thy ===== *)
theory Idempotency
  imports Sql Hash
begin

text \<open>
  \<^verbatim>\<open>internal/platform/idempotency/idempotency.go\<close> and the wrapper of the mutating handlers in
  \<^verbatim>\<open>internal/server/middleware.go\<close>: a key is claimed with the hash of the request, the handler runs, and its
  response is stored for the repetitions of the same request. Requests interleave; the steps of the
  system are the claim, the end of a handler, its crash, and the sweep of expired records.
\<close>

section \<open>The store\<close>

(*src internal/platform/idempotency/idempotency.go#TTL*)
definition TTL :: duration where "TTL = 24 * Hour"

(*src internal/platform/idempotency/idempotency.go#Record*)
record IdemRecord =
  ir_Key :: string
  ir_RequestHash :: string
  ir_Status :: string
  ir_HTTPStatus :: int
  ir_Body :: string
  ir_CompletedAt :: "time option"

(*src migrations/0003_audit_outbox.sql:128-140#idempotency_keys*)
record idem_row =
  ik_tenant_id :: TenantID
  ik_key :: string
  ik_request_hash :: string
  ik_status :: string
  ik_http_status :: "int option"
  ik_response_body :: string
  ik_principal_id :: PrincipalID
  ik_completed_at :: "time option"
  ik_expires_at :: time

text \<open>The readings of the clock and the faults of the statements, in their order; \<open>ie_missed\<close> says that the
  row the insert collides with was committed after the query looked for it. \<open>ie_conn 0\<close> is the connection of \<^verbatim>\<open>Begin\<close>, \<open>ie_conn 1\<close> that of
  \<^verbatim>\<open>Complete\<close> or \<^verbatim>\<open>Abandon\<close>.\<close>

record idem_env =
  ie_now :: "nat \<Rightarrow> time"
  ie_db :: time
  ie_fault :: "nat \<Rightarrow> sql_error option"
  ie_missed :: bool
  ie_conn :: "nat \<Rightarrow> db_conn"

definition idem_uniques :: "idem_row list \<Rightarrow> sql_error option" where
  "idem_uniques = unique_index ''idempotency_keys_pkey'' (\<lambda>_. True) (\<lambda>r. (ik_tenant_id r, ik_key r))"

definition of_key :: "TenantID \<Rightarrow> string \<Rightarrow> idem_row \<Rightarrow> bool" where
  "of_key t key r \<longleftrightarrow> ik_tenant_id r = t \<and> ik_key r = key"

definition deleteT ::
  "sql_error option \<Rightarrow> (sql_error \<Rightarrow> go_error) \<Rightarrow> ('r \<Rightarrow> bool) \<Rightarrow> (go_error, 'r list, unit) tx" where
  "deleteT fault tr p = execT fault tr (\<lambda>rows. Inr ((), filter (\<lambda>r. \<not> p r) rows))"

(*src internal/platform/idempotency/idempotency.go#HashRequest*)
definition HashRequest :: "string \<Rightarrow> string \<Rightarrow> string \<Rightarrow> string" where
  "HashRequest verb path body = EncodeToString (Sum256 (verb @ [CHR 0x00] @ path @ [CHR 0x00] @ body))"

(*src internal/platform/idempotency/idempotency.go:84-123#Store.Begin*)
definition find_live :: "idem_env \<Rightarrow> TenantID \<Rightarrow> string \<Rightarrow> (go_error, idem_row list, idem_row option) tx" where
  "find_live e t key = (let op = ''idempotency.Begin'' in
     bindT (readT (\<lambda>rows. case query_row (ie_fault e 0) (\<lambda>r. of_key t key r \<and> \<not> ie_missed e) rows of
         Inr r \<Rightarrow> Inr (Some r)
       | Inl err \<Rightarrow> if IsNoRows err then Inr None
           else Inl (Wrap (driver_error err) op KindUnavailable ''idempotency.read_failed''))) (\<lambda>found.
     case found of
       None \<Rightarrow> returnT None
     | Some r \<Rightarrow>
         if ie_now e 0 > ik_expires_at r then
           bindT (deleteT (ie_fault e 1) (\<lambda>err. Wrap (driver_error err) op KindUnavailable ''idempotency.write_failed'') (of_key t key))
             (\<lambda>_. returnT None)
         else returnT (Some r)))"

definition claimed :: "idem_env \<Rightarrow> TenantContext \<Rightarrow> string \<Rightarrow> string \<Rightarrow> idem_row" where
  "claimed e tc key requestHash = \<lparr>ik_tenant_id = tc_TenantID tc, ik_key = key, ik_request_hash = requestHash, ik_status = ''IN_PROGRESS'',
     ik_http_status = None, ik_response_body = '''',
     ik_principal_id = (if tc_PrincipalID tc = '''' then ''00000000-0000-4000-8000-000000000000'' else tc_PrincipalID tc),
     ik_completed_at = None, ik_expires_at = ie_now e 1 + TTL\<rparr>"

(*src internal/platform/idempotency/idempotency.go:124-161#Store.Begin*)
definition claim_key ::
  "idem_env \<Rightarrow> TenantContext \<Rightarrow> string \<Rightarrow> string \<Rightarrow> idem_row option \<Rightarrow> (go_error, idem_row list, IdemRecord \<times> bool) tx" where
  "claim_key e tc key requestHash found = (let op = ''idempotency.Begin'' in
     case found of
       Some r \<Rightarrow>
         checkT (ik_request_hash r \<noteq> requestHash) (Conflict op ''idempotency.key_reuse'') (
         checkT (ik_status r = ''IN_PROGRESS'') (Conflict op ''idempotency.in_progress'') (
         returnT (\<lparr>ir_Key = key, ir_RequestHash = ik_request_hash r, ir_Status = ik_status r,
           ir_HTTPStatus = (case ik_http_status r of Some s \<Rightarrow> s | None \<Rightarrow> 0), ir_Body = ik_response_body r,
           ir_CompletedAt = ik_completed_at r\<rparr>, True)))
     | None \<Rightarrow>
         bindT (insertT (ie_fault e 2) (\<lambda>err. if IsUniqueViolation err then Conflict op ''idempotency.in_progress''
             else Wrap (driver_error err) op KindUnavailable ''idempotency.write_failed'')
           (insert_row (\<lambda>_. None) idem_uniques (\<lambda>_. None) (claimed e tc key requestHash))) (\<lambda>_.
         returnT (\<lparr>ir_Key = key, ir_RequestHash = requestHash, ir_Status = ''IN_PROGRESS'', ir_HTTPStatus = 0, ir_Body = '''',
           ir_CompletedAt = None\<rparr>, False)))"

(*src internal/platform/idempotency/idempotency.go#Store.Begin*)
definition Begin ::
  "idem_env \<Rightarrow> db_ctx \<Rightarrow> string \<Rightarrow> string \<Rightarrow> idem_row list \<Rightarrow> (IdemRecord \<times> bool) result \<times> idem_row list" where
  "Begin e ctx key requestHash rows = (case MustTenant ctx of Inl err \<Rightarrow> (Inl err, rows) | Inr tc \<Rightarrow>
     TxWith (ie_conn e 0) default_options ctx (\<lambda>_. bindT (find_live e (tc_TenantID tc) key) (claim_key e tc key requestHash)) rows)"

definition MaxStoredBody :: nat where "MaxStoredBody = 256 * 1024"

(*src internal/platform/idempotency/idempotency.go#Store.Complete*)
definition Complete ::
  "idem_env \<Rightarrow> db_ctx \<Rightarrow> string \<Rightarrow> int \<Rightarrow> string \<Rightarrow> idem_row list \<Rightarrow> unit result \<times> idem_row list" where
  "Complete e ctx key status body rows = (case MustTenant ctx of Inl err \<Rightarrow> (Inl err, rows) | Inr tc \<Rightarrow>
     let stored = (if length body > MaxStoredBody then '''' else body) in
     TxWith (ie_conn e 1) default_options ctx (\<lambda>_.
       bindT (execT (ie_fault e 3) (\<lambda>err. Wrap (driver_error err) ''idempotency.Complete'' KindUnavailable ''idempotency.write_failed'')
         (update_where (of_key (tc_TenantID tc) key)
           (\<lambda>r. r\<lparr>ik_status := ''COMPLETED'', ik_http_status := Some status, ik_response_body := stored, ik_completed_at := Some (ie_db e)\<rparr>)
           (\<lambda>_ _. if - (2 ^ 31) \<le> status \<and> status < 2 ^ 31 then None else Some (ServerError ''22003'' '''')) (\<lambda>_. None)))
         (\<lambda>_. returnT ())) rows)"

(*src internal/platform/idempotency/idempotency.go#Store.Abandon*)
definition Abandon :: "idem_env \<Rightarrow> db_ctx \<Rightarrow> string \<Rightarrow> idem_row list \<Rightarrow> unit result \<times> idem_row list" where
  "Abandon e ctx key rows = (case MustTenant ctx of Inl err \<Rightarrow> (Inl err, rows) | Inr tc \<Rightarrow>
     TxWith (ie_conn e 1) default_options ctx
       (\<lambda>_. deleteT (ie_fault e 3) driver_error (\<lambda>r. of_key (tc_TenantID tc) key r \<and> ik_status r = ''IN_PROGRESS'')) rows)"

text \<open>The sweep runs through the pool, in no tenant's session: under the policy of the table it sees rows
  only as a role that bypasses row-level security.\<close>

(*src internal/platform/idempotency/idempotency.go#Store.GC*)
definition GC :: "bool \<Rightarrow> sql_error option \<Rightarrow> time \<Rightarrow> idem_row list \<Rightarrow> int result \<times> idem_row list" where
  "GC bypass fault now rows = (case fault of Some err \<Rightarrow> (Inl (driver_error err), rows)
     | None \<Rightarrow> let gone = (\<lambda>r. bypass \<and> ik_expires_at r < now)
         in (Inr (int (length (filter gone rows))), filter (\<lambda>r. \<not> gone r) rows))"

section \<open>Handlers\<close>

(*src internal/platform/idempotency/idempotency.go:192-223#Middleware*)
definition Middleware :: "bool \<Rightarrow> string \<Rightarrow> string \<Rightarrow> go_error option" where
  "Middleware required verb key = (let op = ''idempotency.Middleware'' in
     if verb = ''GET'' \<or> verb = ''HEAD'' \<or> verb = ''OPTIONS'' then None
     else if key = '''' then (if required then Some (Invalid op ''idempotency.key_required'') else None)
     else if length key > 255 then Some (Invalid op ''idempotency.key_too_long'') else None)"

datatype 'r response = Resp_ok int "'r option" | Resp_replayed int string | Resp_problem go_error

(*src internal/server/middleware.go#jsonBytes*)
definition jsonBytes :: "('r \<Rightarrow> string result) \<Rightarrow> 'r option \<Rightarrow> string result" where
  "jsonBytes marshal v = (case v of None \<Rightarrow> Inr '''' | Some r \<Rightarrow> marshal r)"

text \<open>What follows the handler, and the whole wrapper when nothing happens in between.\<close>

(*src internal/server/middleware.go:254-267#Server.idempotent*)
definition finish ::
  "idem_env \<Rightarrow> db_ctx \<Rightarrow> ('r \<Rightarrow> string result) \<Rightarrow> string \<Rightarrow> (int \<times> 'r option) result \<Rightarrow> idem_row list \<Rightarrow> 'r response \<times> idem_row list" where
  "finish e ctx marshal key outcome rows = (case outcome of
       Inl err \<Rightarrow> (Resp_problem err, snd (Abandon e ctx key rows))
     | Inr (status, resp) \<Rightarrow> (Resp_ok status resp,
         (case jsonBytes marshal resp of Inl _ \<Rightarrow> rows | Inr encoded \<Rightarrow> snd (Complete e ctx key status encoded rows))))"

(*src internal/server/middleware.go#Server.idempotent*)
definition idempotent ::
  "idem_env \<Rightarrow> db_ctx \<Rightarrow> ('r \<Rightarrow> string result) \<Rightarrow> string \<Rightarrow> string \<Rightarrow> string \<Rightarrow> string \<Rightarrow>
   ('w \<Rightarrow> (int \<times> 'r option) result \<times> 'w) \<Rightarrow> idem_row list \<times> 'w \<Rightarrow> 'r response \<times> idem_row list \<times> 'w" where
  "idempotent e ctx marshal verb path body key fn = (\<lambda>(rows, w).
     if key = '''' then
       (case fn w of (Inl err, w') \<Rightarrow> (Resp_problem err, rows, w') | (Inr (status, resp), w') \<Rightarrow> (Resp_ok status resp, rows, w'))
     else (case Begin e ctx key (HashRequest verb path body) rows of
         (Inl err, rows1) \<Rightarrow> (Resp_problem err, rows1, w)
       | (Inr (rec, replay), rows1) \<Rightarrow>
           if replay then (Resp_replayed (if ir_HTTPStatus rec = 0 then 200 else ir_HTTPStatus rec) (ir_Body rec), rows1, w)
           else (let (outcome, w') = fn w; (resp, rows2) = finish e ctx marshal key outcome rows1 in (resp, rows2, w'))))"

section \<open>What a statement of the store does\<close>

lemma TxWith_tenant: "MustTenant ctx = Inr tc \<Longrightarrow> TxWith conn opts ctx fn s =
    runT (on_connection conn opts tc (isRelaySession ctx) fn) s"
  by (simp add: TxWith_def Let_def)

lemma TxWith_snd: "MustTenant ctx = Inr tc \<Longrightarrow> snd (TxWith conn opts ctx (\<lambda>_. body) s) = s \<or>
    snd (TxWith conn opts ctx (\<lambda>_. body) s) = snd (runT body s)"
  by (auto simp: TxWith_tenant runT_def on_connection_def Let_def split: sum.splits option.splits)

lemma runT_snd: "snd (runT m s) = s \<or> (\<exists>x. m s = Inr (x, snd (runT m s)))"
  by (auto simp: runT_def split: sum.splits)

lemma deleteT_Inr [monad_inv]: "deleteT fault tr p rows = Inr (u, rows') \<longleftrightarrow> fault = None \<and> rows' = filter (\<lambda>r. \<not> p r) rows"
  by (auto simp: deleteT_def monad_inv)

lemma find_live_Inr:
  assumes "find_live e t key rows = Inr (found, rows')"
  shows "(rows' = rows \<and> found = None) \<or>
    (\<exists>r. find (of_key t key) rows = Some r \<and> ie_now e 0 \<le> ik_expires_at r \<and> found = Some r \<and> rows' = rows) \<or>
    (\<exists>r. find (of_key t key) rows = Some r \<and> ik_expires_at r < ie_now e 0 \<and> found = None \<and> rows' = filter (\<lambda>r. \<not> of_key t key r) rows)"
proof -
  have f: "find (\<lambda>r. of_key t key r \<and> \<not> ie_missed e) rows = Some r \<Longrightarrow> find (of_key t key) rows = Some r" for r
    by (cases "ie_missed e") (auto dest: find_Some_D)
  show ?thesis using assms f unfolding find_live_def Let_def query_row_def
    by (auto simp: monad_inv IsNoRows_def split: option.splits sum.splits if_splits)
qed

lemma claim_key_Inr:
  "claim_key e tc key h (Some r) rows = Inr ((rec, replay), rows') \<Longrightarrow> replay \<and> rows' = rows \<and> ik_request_hash r = h \<and>
     ik_status r \<noteq> ''IN_PROGRESS'' \<and> ir_HTTPStatus rec = (case ik_http_status r of Some s \<Rightarrow> s | None \<Rightarrow> 0) \<and> ir_Body rec = ik_response_body r"
  "claim_key e tc key h None rows = Inr ((rec, replay), rows') \<Longrightarrow> \<not> replay \<and> rows' = rows @ [claimed e tc key h] \<and>
     distinct (map (\<lambda>r. (ik_tenant_id r, ik_key r)) rows')"
  by (auto simp: claim_key_def Let_def monad_inv idem_uniques_def)

lemma Begin_cases:
  assumes "Begin e ctx key h rows = (res, rows')"
  obtains (refused) err where "res = Inl err" "rows' = rows"
    | (replayed) tc r rec where "res = Inr (rec, True)" "rows' = rows" "MustTenant ctx = Inr tc"
        "find (of_key (tc_TenantID tc) key) rows = Some r" "ik_request_hash r = h" "ik_status r \<noteq> ''IN_PROGRESS''"
        "ir_HTTPStatus rec = (case ik_http_status r of Some s \<Rightarrow> s | None \<Rightarrow> 0)" "ir_Body rec = ik_response_body r"
    | (claimed) tc rec rows1 where "res = Inr (rec, False)" "MustTenant ctx = Inr tc" "rows' = rows1 @ [claimed e tc key h]"
        "distinct (map (\<lambda>r. (ik_tenant_id r, ik_key r)) rows')"
        "rows1 = rows \<or> (\<exists>r. find (of_key (tc_TenantID tc) key) rows = Some r \<and> ik_expires_at r < ie_now e 0 \<and>
           rows1 = filter (\<lambda>r. \<not> of_key (tc_TenantID tc) key r) rows)"
proof (cases "MustTenant ctx")
  case (Inl err)
  then show thesis using assms refused [of err] by (simp add: Begin_def)
next
  case (Inr tc)
  show thesis
  proof (cases res)
    case (Inl err)
    then have "rows' = rows" using assms Inr by (auto simp: Begin_def dest: TxWith_Inl)
    then show thesis using refused Inl by simp
  next
    case res: (Inr y)
    obtain rec replay where y: "y = (rec, replay)" by (cases y)
    note b = assms [unfolded Begin_def Let_def Inr sum.case TxWith_tenant [OF Inr] res y]
    obtain found rows1 where f: "find_live e (tc_TenantID tc) key rows = Inr (found, rows1)"
        "claim_key e tc key h found rows1 = Inr ((rec, replay), rows')"
      using b unfolding runT_Inr on_connection_Inr bindT_Inr by blast
    show thesis
    proof (cases found)
      case (Some r)
      then show thesis using claim_key_Inr(1) f(2) find_live_Inr [OF f(1)] res y Inr by (fastforce intro: replayed)
    next
      case None
      note c = claim_key_Inr(2) [OF f(2) [unfolded None]]
      show thesis using find_live_Inr [OF f(1)] res y c None by (intro claimed [of rec tc rows1] Inr) auto
    qed
  qed
qed

section \<open>Requests that interleave\<close>

record idem_request =
  iq_ctx :: db_ctx
  iq_key :: string
  iq_hash :: string

definition request_key :: "idem_request \<Rightarrow> TenantID \<times> string" where
  "request_key q = (case MustTenant (iq_ctx q) of Inr tc \<Rightarrow> tc_TenantID tc | Inl _ \<Rightarrow> '''', iq_key q)"

text \<open>The records, the handlers that run, the executions that succeeded with their response, and the
  responses that were replayed.\<close>

record 'r idem_sys =
  sy_rows :: "idem_row list"
  sy_running :: "idem_request list"
  sy_done :: "(idem_request \<times> int \<times> 'r option) list"
  sy_replayed :: "(idem_request \<times> int \<times> string) list"

definition replayed_status :: "int \<Rightarrow> int" where "replayed_status s = (if s = 0 then 200 else s)"

inductive idem_step :: "('r \<Rightarrow> string result) \<Rightarrow> time \<Rightarrow> time \<Rightarrow> 'r idem_sys \<Rightarrow> 'r idem_sys \<Rightarrow> bool" for marshal lo hi where
  claim: "(\<And>k. lo \<le> ie_now e k \<and> ie_now e k \<le> hi) \<Longrightarrow> Begin e (iq_ctx q) (iq_key q) (iq_hash q) (sy_rows s) = (Inr (rec, False), rows') \<Longrightarrow>
    idem_step marshal lo hi s (s\<lparr>sy_rows := rows', sy_running := q # sy_running s\<rparr>)"
| replay: "(\<And>k. lo \<le> ie_now e k \<and> ie_now e k \<le> hi) \<Longrightarrow> Begin e (iq_ctx q) (iq_key q) (iq_hash q) (sy_rows s) = (Inr (rec, True), rows') \<Longrightarrow>
    idem_step marshal lo hi s (s\<lparr>sy_rows := rows',
      sy_replayed := (q, replayed_status (ir_HTTPStatus rec), ir_Body rec) # sy_replayed s\<rparr>)"
| refuse: "(\<And>k. lo \<le> ie_now e k \<and> ie_now e k \<le> hi) \<Longrightarrow> Begin e (iq_ctx (q :: idem_request)) (iq_key q) (iq_hash q) (sy_rows s) = (Inl err, rows') \<Longrightarrow>
    idem_step marshal lo hi s (s\<lparr>sy_rows := rows'\<rparr>)"
| finish: "q \<in> set (sy_running s) \<Longrightarrow> finish e (iq_ctx q) marshal (iq_key q) outcome (sy_rows s) = (resp, rows') \<Longrightarrow>
    idem_step marshal lo hi s (s\<lparr>sy_rows := rows', sy_running := remove1 q (sy_running s),
      sy_done := (case outcome of Inl _ \<Rightarrow> [] | Inr (status, r) \<Rightarrow> [(q, status, r)]) @ sy_done s\<rparr>)"
| crash: "q \<in> set (sy_running s) \<Longrightarrow> idem_step marshal lo hi s (s\<lparr>sy_running := remove1 q (sy_running s)\<rparr>)"
| sweep: "lo \<le> now \<Longrightarrow> now \<le> hi \<Longrightarrow> GC bypass fault now (sy_rows s) = (n, rows') \<Longrightarrow> idem_step marshal lo hi s (s\<lparr>sy_rows := rows'\<rparr>)"

definition idle :: "idem_row list \<Rightarrow> 'r idem_sys" where
  "idle rows = \<lparr>sy_rows = rows, sy_running = [], sy_done = [], sy_replayed = []\<rparr>"

text \<open>What holds for one key while its record cannot expire: at most one handler runs or has succeeded, and
  the record says which.\<close>

definition stored_body :: "('r \<Rightarrow> string result) \<Rightarrow> 'r option \<Rightarrow> string option" where
  "stored_body marshal r = (case jsonBytes marshal r of Inl _ \<Rightarrow> None
     | Inr b \<Rightarrow> Some (if length b > MaxStoredBody then '''' else b))"

definition completes :: "('r \<Rightarrow> string result) \<Rightarrow> int \<Rightarrow> 'r option \<Rightarrow> idem_row \<Rightarrow> bool" where
  "completes marshal status r row \<longleftrightarrow> ik_status row = ''IN_PROGRESS'' \<or>
     (ik_http_status row = Some status \<and> Some (ik_response_body row) = stored_body marshal r)"

definition key_inv :: "('r \<Rightarrow> string result) \<Rightarrow> time \<Rightarrow> TenantID \<times> string \<Rightarrow> 'r idem_sys \<Rightarrow> bool" where
  "key_inv marshal hi k s \<longleftrightarrow>
     (let rows = filter (\<lambda>r. (ik_tenant_id r, ik_key r) = k) (sy_rows s); running = filter (\<lambda>q. request_key q = k) (sy_running s);
          finished = filter (\<lambda>d. request_key (fst d) = k) (sy_done s); again = filter (\<lambda>d. request_key (fst d) = k) (sy_replayed s)
      in list_all (\<lambda>r. hi \<le> ik_expires_at r) rows \<and>
         ((running = [] \<and> finished = [] \<and> again = [] \<and> (rows = [] \<or> (\<exists>r. rows = [r] \<and> ik_status r = ''IN_PROGRESS''))) \<or>
          (\<exists>q r. running = [q] \<and> finished = [] \<and> again = [] \<and> rows = [r] \<and> ik_status r = ''IN_PROGRESS'' \<and> ik_request_hash r = iq_hash q) \<or>
          (\<exists>q status resp r. running = [] \<and> finished = [(q, status, resp)] \<and> rows = [r] \<and> ik_request_hash r = iq_hash q \<and>
             completes marshal status resp r \<and>
             (\<forall>(q', s', b) \<in> set again. iq_hash q' = iq_hash q \<and> s' = replayed_status status \<and> Some b = stored_body marshal resp))))"

section \<open>One execution for a key\<close>

abbreviation rows_of :: "TenantID \<times> string \<Rightarrow> idem_row list \<Rightarrow> idem_row list" where
  "rows_of k \<equiv> filter (\<lambda>r. (ik_tenant_id r, ik_key r) = k)"

lemma of_key_pair: "of_key t key r \<longleftrightarrow> (ik_tenant_id r, ik_key r) = (t, key)"
  by (simp add: of_key_def)

lemma rows_of_find: "find (of_key t key) rows = Some r \<Longrightarrow> r \<in> set (rows_of (t, key) rows)"
  by (auto simp: of_key_pair dest: find_Some_D)

lemma request_key_tenant: "MustTenant (iq_ctx q) = Inr tc \<Longrightarrow> request_key q = (tc_TenantID tc, iq_key q)"
  by (simp add: request_key_def)

lemma Begin_claimed:
  assumes "Begin e ctx key h rows = (Inr (rec, False), rows')"
  obtains tc rows1 where "MustTenant ctx = Inr tc" "rows' = rows1 @ [claimed e tc key h]"
    "distinct (map (\<lambda>r. (ik_tenant_id r, ik_key r)) rows')"
    "rows1 = rows \<or> (\<exists>r. find (of_key (tc_TenantID tc) key) rows = Some r \<and> ik_expires_at r < ie_now e 0 \<and>
       rows1 = filter (\<lambda>r. \<not> of_key (tc_TenantID tc) key r) rows)"
  using assms by (cases rule: Begin_cases) (simp_all add: that)

lemma Begin_replayed:
  assumes "Begin e ctx key h rows = (Inr (rec, True), rows')"
  obtains tc r where "rows' = rows" "MustTenant ctx = Inr tc"
    "find (of_key (tc_TenantID tc) key) rows = Some r" "ik_request_hash r = h" "ik_status r \<noteq> ''IN_PROGRESS''"
    "ir_HTTPStatus rec = (case ik_http_status r of Some s \<Rightarrow> s | None \<Rightarrow> 0)" "ir_Body rec = ik_response_body r"
  using assms by (cases rule: Begin_cases) (simp_all add: that)

lemma claim_same:
  assumes "Begin e (iq_ctx q) (iq_key q) (iq_hash q) rows = (Inr (rec, False), rows')" "request_key q = k"
    and "list_all (\<lambda>r. hi \<le> ik_expires_at r) (rows_of k rows)" "ie_now e 0 \<le> hi" "hi \<le> ie_now e 1 + TTL"
  shows "rows_of k rows = []" "\<exists>r. rows_of k rows' = [r] \<and> ik_status r = ''IN_PROGRESS'' \<and> ik_request_hash r = iq_hash q \<and> hi \<le> ik_expires_at r"
proof -
  obtain tc rows1 where c: "MustTenant (iq_ctx q) = Inr tc"
      "rows' = rows1 @ [claimed e tc (iq_key q) (iq_hash q)]" "distinct (map (\<lambda>r. (ik_tenant_id r, ik_key r)) rows')"
      "rows1 = rows \<or> (\<exists>r. find (of_key (tc_TenantID tc) (iq_key q)) rows = Some r \<and> ik_expires_at r < ie_now e 0 \<and>
         rows1 = filter (\<lambda>r. \<not> of_key (tc_TenantID tc) (iq_key q) r) rows)" by (rule Begin_claimed [OF assms(1)])
  have k: "k = (tc_TenantID tc, iq_key q)" using request_key_tenant [OF c(1)] assms(2) by simp
  have r1: "rows1 = rows"
    using c(4) assms(3,4) rows_of_find [of "tc_TenantID tc" "iq_key q" rows] by (auto simp: k list_all_iff)
  have d: "k \<notin> (\<lambda>r. (ik_tenant_id r, ik_key r)) ` set rows"
    using c(2,3) by (simp add: r1 claimed_def k)
  then show e: "rows_of k rows = []" by (auto simp: filter_empty_conv)
  show "\<exists>r. rows_of k rows' = [r] \<and> ik_status r = ''IN_PROGRESS'' \<and> ik_request_hash r = iq_hash q \<and> hi \<le> ik_expires_at r"
    using e assms(5) by (simp add: c(2) r1 claimed_def k)
qed

lemma replay_same:
  assumes "Begin e (iq_ctx q) (iq_key q) (iq_hash q) rows = (Inr (rec, True), rows')" "request_key q = k"
  shows "rows' = rows" "list_ex (\<lambda>r. ik_request_hash r = iq_hash q \<and> ik_status r \<noteq> ''IN_PROGRESS'' \<and>
    ir_HTTPStatus rec = (case ik_http_status r of Some s \<Rightarrow> s | None \<Rightarrow> 0) \<and> ir_Body rec = ik_response_body r) (rows_of k rows)"
proof -
  obtain tc r where c: "rows' = rows" "MustTenant (iq_ctx q) = Inr tc"
      "find (of_key (tc_TenantID tc) (iq_key q)) rows = Some r" "ik_request_hash r = iq_hash q" "ik_status r \<noteq> ''IN_PROGRESS''"
      "ir_HTTPStatus rec = (case ik_http_status r of Some s \<Rightarrow> s | None \<Rightarrow> 0)" "ir_Body rec = ik_response_body r"
    by (rule Begin_replayed [OF assms(1)])
  then show "rows' = rows" by simp
  show "list_ex (\<lambda>r. ik_request_hash r = iq_hash q \<and> ik_status r \<noteq> ''IN_PROGRESS'' \<and>
    ir_HTTPStatus rec = (case ik_http_status r of Some s \<Rightarrow> s | None \<Rightarrow> 0) \<and> ir_Body rec = ik_response_body r) (rows_of k rows)"
    using c rows_of_find [OF c(3)] request_key_tenant [OF c(2)] assms(2) unfolding list_ex_iff by auto
qed

lemma Begin_other:
  assumes "Begin e (iq_ctx q) (iq_key q) (iq_hash q) rows = (res, rows')" "request_key q \<noteq> k"
  shows "rows_of k rows' = rows_of k rows"
  using assms(1)
proof (cases rule: Begin_cases)
  case (claimed tc rec rows1)
  have k: "(tc_TenantID tc, iq_key q) \<noteq> k" using request_key_tenant [OF claimed(2)] assms(2) by simp
  have "rows_of k (filter (\<lambda>r. \<not> of_key (tc_TenantID tc) (iq_key q) r) rows) = rows_of k rows"
    using k by (auto simp: of_key_def intro!: filter_cong)
  then have "rows_of k rows1 = rows_of k rows" using claimed(5) by auto
  then show ?thesis using k by (simp add: claimed(3) claimed_def)
qed simp_all

lemma Abandon_rows: "MustTenant ctx = Inr tc \<Longrightarrow> snd (Abandon e ctx key rows) = rows \<or>
    snd (Abandon e ctx key rows) = filter (\<lambda>r. \<not> (of_key (tc_TenantID tc) key r \<and> ik_status r = ''IN_PROGRESS'')) rows"
  using TxWith_snd [of ctx tc "ie_conn e 1" default_options
      "deleteT (ie_fault e 3) driver_error (\<lambda>r. of_key (tc_TenantID tc) key r \<and> ik_status r = ''IN_PROGRESS'')" rows]
  by (auto simp: Abandon_def runT_def deleteT_def execT_def split: option.splits)

definition completed :: "int \<Rightarrow> string \<Rightarrow> time \<Rightarrow> idem_row \<Rightarrow> idem_row" where
  "completed status b t r = r\<lparr>ik_status := ''COMPLETED'', ik_http_status := Some status, ik_response_body := b, ik_completed_at := Some t\<rparr>"

lemma completed_key [simp]: "ik_tenant_id (completed status b t r) = ik_tenant_id r" "ik_key (completed status b t r) = ik_key r"
  by (simp_all add: completed_def)

lemma update_stmt_rows:
  "snd (runT (bindT (execT f tr (update_where p g c u)) (\<lambda>_. returnT ())) rows) = rows \<or>
   snd (runT (bindT (execT f tr (update_where p g c u)) (\<lambda>_. returnT ())) rows) = map (\<lambda>r. if p r then g r else r) rows"
  using runT_snd [of "bindT (execT f tr (update_where p g c u)) (\<lambda>_. returnT ())" rows] by (auto simp: monad_inv)

lemma Complete_rows:
  assumes "MustTenant ctx = Inr tc"
  shows "snd (Complete e ctx key status body rows) = rows \<or>
    snd (Complete e ctx key status body rows) =
      map (\<lambda>r. if of_key (tc_TenantID tc) key r then completed status (if length body > MaxStoredBody then '''' else body) (ie_db e) r else r) rows"
proof -
  let ?g = "completed status (if length body > MaxStoredBody then '''' else body) (ie_db e)"
  let ?m = "bindT (execT (ie_fault e 3) (\<lambda>err. Wrap (driver_error err) ''idempotency.Complete'' KindUnavailable ''idempotency.write_failed'')
      (update_where (of_key (tc_TenantID tc) key) ?g
        (\<lambda>_ _. if - (2 ^ 31) \<le> status \<and> status < 2 ^ 31 then None else Some (ServerError ''22003'' '''')) (\<lambda>_. None))) (\<lambda>_. returnT ())"
  have c: "Complete e ctx key status body rows = TxWith (ie_conn e 1) default_options ctx (\<lambda>_. ?m) rows"
    by (simp add: Complete_def assms Let_def completed_def [abs_def])
  show ?thesis using TxWith_snd [OF assms, of "ie_conn e 1" default_options ?m rows] unfolding c
    by (elim disjE) (simp, simp only: update_stmt_rows)
qed

lemma finish_rows:
  assumes "finish e (iq_ctx q) marshal (iq_key q) outcome rows = (resp, rows')"
  shows "rows' = rows \<or>
    (isl outcome \<and> rows' = filter (\<lambda>r. \<not> ((ik_tenant_id r, ik_key r) = request_key q \<and> ik_status r = ''IN_PROGRESS'')) rows) \<or>
    (\<exists>status r b t. outcome = Inr (status, r) \<and> stored_body marshal r = Some b \<and>
       rows' = map (\<lambda>row. if (ik_tenant_id row, ik_key row) = request_key q then completed status b t row else row) rows)"
proof (cases "MustTenant (iq_ctx q)")
  case (Inl err)
  then show ?thesis using assms
    by (auto simp: finish_def Abandon_def Complete_def split: sum.splits prod.splits)
next
  case (Inr tc)
  note k = request_key_tenant [OF Inr] and p = of_key_pair [of "tc_TenantID tc" "iq_key q"]
  show ?thesis
  proof (cases outcome)
    case (Inl err)
    then show ?thesis using assms Abandon_rows [OF Inr, of e "iq_key q" rows] by (auto simp: finish_def k p)
  next
    case out: (Inr x)
    obtain status r where x: "x = (status, r)" by (cases x)
    show ?thesis
    proof (cases "jsonBytes marshal r")
      case (Inl err)
      then show ?thesis using assms by (simp add: finish_def out x)
    next
      case (Inr b)
      then have "rows' = snd (Complete e (iq_ctx q) (iq_key q) status b rows)" using assms by (simp add: finish_def out x)
      with Complete_rows [OF \<open>MustTenant (iq_ctx q) = Inr tc\<close>, of e "iq_key q" status b rows]
      have "rows' = rows \<or> rows' = map (\<lambda>row. if (ik_tenant_id row, ik_key row) = request_key q
          then completed status (if length b > MaxStoredBody then '''' else b) (ie_db e) row else row) rows"
        by (simp only: p k)
      moreover have "stored_body marshal r = Some (if length b > MaxStoredBody then '''' else b)" by (simp add: stored_body_def Inr)
      ultimately show ?thesis using out x by blast
    qed
  qed
qed

text \<open>Each step keeps what holds for a key.\<close>

lemma key_inv_other:
  assumes "key_inv marshal hi k s" "rows_of k (sy_rows s') = rows_of k (sy_rows s)"
    and "filter (\<lambda>q. request_key q = k) (sy_running s') = filter (\<lambda>q. request_key q = k) (sy_running s)"
    and "filter (\<lambda>d. request_key (fst d) = k) (sy_done s') = filter (\<lambda>d. request_key (fst d) = k) (sy_done s)"
    and "filter (\<lambda>d. request_key (fst d) = k) (sy_replayed s') = filter (\<lambda>d. request_key (fst d) = k) (sy_replayed s)"
  shows "key_inv marshal hi k s'"
  using assms by (simp add: key_inv_def)

lemma filter_remove1_other: "\<not> p q \<Longrightarrow> filter p (remove1 q xs) = filter p xs"
  by (induction xs) auto

lemma filter_remove1_same: "p q \<Longrightarrow> q \<in> set xs \<Longrightarrow> filter p (remove1 q xs) = remove1 q (filter p xs)"
  by (induction xs) auto

text \<open>A handler that runs is the only one of its key.\<close>

lemma running_alone:
  assumes "key_inv marshal hi (request_key q) s" "q \<in> set (sy_running s)"
  obtains r where "filter (\<lambda>q'. request_key q' = request_key q) (sy_running s) = [q]"
    "filter (\<lambda>q'. request_key q' = request_key q) (remove1 q (sy_running s)) = []"
    "filter (\<lambda>d. request_key (fst d) = request_key q) (sy_done s) = []"
    "filter (\<lambda>d. request_key (fst d) = request_key q) (sy_replayed s) = []"
    "rows_of (request_key q) (sy_rows s) = [r]" "ik_status r = ''IN_PROGRESS''" "ik_request_hash r = iq_hash q" "hi \<le> ik_expires_at r"
proof -
  have q: "q \<in> set (filter (\<lambda>q'. request_key q' = request_key q) (sy_running s))" using assms(2) by simp
  then have "filter (\<lambda>q'. request_key q' = request_key q) (sy_running s) \<noteq> []" by (metis list.set(1) empty_iff)
  then obtain q' r where i: "filter (\<lambda>q'. request_key q' = request_key q) (sy_running s) = [q']"
      "filter (\<lambda>d. request_key (fst d) = request_key q) (sy_done s) = []"
      "filter (\<lambda>d. request_key (fst d) = request_key q) (sy_replayed s) = []"
      "rows_of (request_key q) (sy_rows s) = [r]" "ik_status r = ''IN_PROGRESS''" "ik_request_hash r = iq_hash q'" "hi \<le> ik_expires_at r"
    using assms(1) by (auto simp: key_inv_def Let_def)
  with q have "q' = q" by simp
  moreover have "filter (\<lambda>q'. request_key q' = request_key q) (remove1 q (sy_running s)) = []"
    using filter_remove1_same [of "\<lambda>q'. request_key q' = request_key q" q, OF refl assms(2)] i(1) \<open>q' = q\<close> by simp
  ultimately show thesis using that i by simp
qed

lemma finish_other:
  assumes "finish e (iq_ctx q) marshal (iq_key q) outcome rows = (resp, rows')" "request_key q \<noteq> k"
  shows "rows_of k rows' = rows_of k rows"
  using finish_rows [OF assms(1)]
proof (elim disjE exE conjE)
  fix status r b t assume "rows' = map (\<lambda>row. if (ik_tenant_id row, ik_key row) = request_key q then completed status b t row else row) rows"
  then show ?thesis using assms(2) by (induction rows arbitrary: rows') auto
next
  assume "rows' = filter (\<lambda>r. \<not> ((ik_tenant_id r, ik_key r) = request_key q \<and> ik_status r = ''IN_PROGRESS'')) rows"
  then show ?thesis using assms(2) by (auto intro!: filter_cong)
qed simp

lemma rows_of_filter: "rows_of k (filter p rows) = filter p (rows_of k rows)"
  by (induction rows) auto

lemma rows_of_map: "rows_of k (map (\<lambda>row. if (ik_tenant_id row, ik_key row) = k then completed status b t row else row) rows) =
    map (completed status b t) (rows_of k rows)"
  by (induction rows) auto

lemma finish_same:
  assumes "finish e (iq_ctx q) marshal (iq_key q) outcome rows = (resp, rows')" "request_key q = k" "rows_of k rows = [r]"
    and "ik_status r = ''IN_PROGRESS''"
  shows "(isl outcome \<and> (rows_of k rows' = [] \<or> rows_of k rows' = [r])) \<or>
    (\<exists>status resp r'. outcome = Inr (status, resp) \<and> rows_of k rows' = [r'] \<and> completes marshal status resp r' \<and>
       ik_request_hash r' = ik_request_hash r \<and> ik_expires_at r' = ik_expires_at r)"
  using finish_rows [OF assms(1)]
proof (elim disjE exE conjE)
  assume "rows' = rows"
  then show ?thesis using assms(3,4) by (cases outcome) (auto simp: completes_def)
next
  fix status r' b t assume o: "outcome = Inr (status, r')" "stored_body marshal r' = Some b"
    and "rows' = map (\<lambda>row. if (ik_tenant_id row, ik_key row) = request_key q then completed status b t row else row) rows"
  then have "rows_of k rows' = [completed status b t r]" using assms(2,3) by (simp only: rows_of_map list.map)
  then show ?thesis using o by (auto simp: completes_def completed_def)
next
  assume "isl outcome" "rows' = filter (\<lambda>r. \<not> ((ik_tenant_id r, ik_key r) = request_key q \<and> ik_status r = ''IN_PROGRESS'')) rows"
  then have "rows_of k rows' = filter (\<lambda>r. \<not> ((ik_tenant_id r, ik_key r) = request_key q \<and> ik_status r = ''IN_PROGRESS'')) [r]"
    by (simp only: assms(3) rows_of_filter)
  then show ?thesis using \<open>isl outcome\<close> by (simp split: if_splits)
qed

lemma idem_step_inv:
  assumes "idem_step marshal lo (lo + TTL) s s'" "key_inv marshal (lo + TTL) k s"
  shows "key_inv marshal (lo + TTL) k s'"
  using assms
proof (induction rule: idem_step.induct)
  case (claim e q s rec rows')
  show ?case
  proof (cases "request_key q = k")
    case True
    have "list_all (\<lambda>r. lo + TTL \<le> ik_expires_at r) (rows_of k (sy_rows s))" using claim(3) by (simp add: key_inv_def Let_def)
    note c = claim_same [OF claim(2) True this] 
    have "ie_now e 0 \<le> lo + TTL" "lo + TTL \<le> ie_now e 1 + TTL" using claim(1) [of 0] claim(1) [of 1] by simp_all
    then show ?thesis using claim(3) c True by (auto simp: key_inv_def Let_def)
  next
    case False
    show ?thesis by (rule key_inv_other [OF claim(3)]) (use Begin_other [OF claim(2) False] False in simp_all)
  qed
next
  case (replay e q s rec rows')
  show ?case
  proof (cases "request_key q = k")
    case True
    note c = replay_same [OF replay(2) True]
    then show ?thesis using replay(3) True
      by (auto simp: key_inv_def Let_def completes_def)
  next
    case False
    show ?thesis by (rule key_inv_other [OF replay(3)]) (use Begin_other [OF replay(2) False] False in simp_all)
  qed
next
  case (refuse e q s err rows')
  have "rows' = sy_rows s" using refuse(2) by (cases rule: Begin_cases) simp_all
  then show ?case using refuse(3) by simp
next
  case (finish q s e outcome resp rows')
  show ?case
  proof (cases "request_key q = k")
    case True
    obtain r where i: "filter (\<lambda>q'. request_key q' = k) (sy_running s) = [q]"
        "filter (\<lambda>q'. request_key q' = k) (remove1 q (sy_running s)) = []"
        "filter (\<lambda>d. request_key (fst d) = k) (sy_done s) = []" "filter (\<lambda>d. request_key (fst d) = k) (sy_replayed s) = []"
        "rows_of k (sy_rows s) = [r]" "ik_status r = ''IN_PROGRESS''" "ik_request_hash r = iq_hash q" "lo + TTL \<le> ik_expires_at r"
      by (rule running_alone [OF finish(3) [folded True] finish(1), unfolded True])
    show ?thesis using finish_same [OF finish(2) True i(5,6)]
    proof (elim disjE exE conjE)
      assume "isl outcome" "rows_of k rows' = []"
      then show ?thesis using i by (cases outcome) (auto simp: key_inv_def Let_def)
    next
      assume "isl outcome" "rows_of k rows' = [r]"
      then show ?thesis using i by (cases outcome) (auto simp: key_inv_def Let_def)
    next
      fix status resp r' assume "outcome = Inr (status, resp)" "rows_of k rows' = [r']" "completes marshal status resp r'"
        "ik_request_hash r' = ik_request_hash r" "ik_expires_at r' = ik_expires_at r"
      then show ?thesis using i True by (auto simp: key_inv_def Let_def)
    qed
  next
    case False
    have d: "filter (\<lambda>d. request_key (fst d) = k) ((case outcome of Inl _ \<Rightarrow> [] | Inr (status, r) \<Rightarrow> [(q, status, r)]) @ sy_done s) =
        filter (\<lambda>d. request_key (fst d) = k) (sy_done s)" using False by (simp split: sum.split prod.split)
    show ?thesis by (rule key_inv_other [OF finish(3)])
      (use finish_other [OF finish(2) False] d filter_remove1_other [of "\<lambda>q. request_key q = k" q] False in simp_all)
  qed
next
  case (crash q s)
  show ?case
  proof (cases "request_key q = k")
    case True
    show ?thesis
      by (rule running_alone [OF crash(2) [folded True] crash(1), unfolded True]) (simp add: key_inv_def)
  next
    case False
    show ?thesis by (rule key_inv_other [OF crash(2)]) (use filter_remove1_other [of "\<lambda>q. request_key q = k" q] False in simp_all)
  qed
next
  case (sweep now bypass fault s n rows')
  have "list_all (\<lambda>r. lo + TTL \<le> ik_expires_at r) (rows_of k (sy_rows s))" using sweep(4) by (simp add: key_inv_def Let_def)
  then have keep: "rows_of k (filter p (sy_rows s)) = rows_of k (sy_rows s)" if "\<And>r. lo + TTL \<le> ik_expires_at r \<Longrightarrow> p r" for p
    unfolding rows_of_filter by (intro filter_True) (use that in \<open>auto simp: list_all_iff\<close>)
  obtain gone where "rows' = sy_rows s \<or> rows' = filter (\<lambda>r. \<not> (bypass \<and> ik_expires_at r < now)) (sy_rows s)"
    using sweep(3) by (auto simp: GC_def Let_def split: option.splits)
  then have "rows_of k rows' = rows_of k (sy_rows s)" using keep sweep(2) by auto
  then show ?case by (intro key_inv_other [OF sweep(4)]) simp_all
qed

lemma idem_reach_inv:
  "rtranclp (idem_step marshal lo (lo + TTL)) s s' \<Longrightarrow> key_inv marshal (lo + TTL) k s \<Longrightarrow> key_inv marshal (lo + TTL) k s'"
  by (induction rule: rtranclp_induct) (auto intro: idem_step_inv)

section \<open>Properties\<close>

text \<open>C17: A retried request runs at most once. In any interleaving of requests, crashes, statement
  failures and sweeps that lasts no longer than the 24 hours of the records, starting with no record
  of a key, at most one execution under the key succeeds; every replay under the key is for a request
  with the same fingerprint as the one that succeeded, and carries the status it returned and the
  body that was stored for it.\<close>

theorem key_runs_at_most_once:
  assumes "rtranclp (idem_step marshal lo (lo + TTL)) (idle rows) s" "list_all (\<lambda>r. (ik_tenant_id r, ik_key r) \<noteq> k) rows"
  shows "length (filter (\<lambda>d. request_key (fst d) = k) (sy_done s)) \<le> 1 \<and>
    list_all (\<lambda>(q, status, body). request_key q \<noteq> k \<or>
      list_ex (\<lambda>(q', status', resp). request_key q' = k \<and> iq_hash q' = iq_hash q \<and>
        status = replayed_status status' \<and> stored_body marshal resp = Some body) (sy_done s)) (sy_replayed s)"
proof -
  have "rows_of k rows = []" using assms(2) by (simp add: list_all_iff filter_empty_conv)
  then have "key_inv marshal (lo + TTL) k (idle rows)" by (simp add: key_inv_def idle_def)
  from idem_reach_inv [OF assms(1) this] have inv: "key_inv marshal (lo + TTL) k s" .
  define again where "again = filter (\<lambda>d. request_key (fst d) = k) (sy_replayed s)"
  consider (nothing) "again = []" "length (filter (\<lambda>d. request_key (fst d) = k) (sy_done s)) \<le> 1"
    | (once) q status resp where "filter (\<lambda>d. request_key (fst d) = k) (sy_done s) = [(q, status, resp)]"
      "\<forall>(q', s', b) \<in> set again. iq_hash q' = iq_hash q \<and> s' = replayed_status status \<and> Some b = stored_body marshal resp"
    using inv unfolding key_inv_def Let_def again_def by fastforce
  then show ?thesis
  proof cases
    case nothing
    then show ?thesis by (auto simp: list_all_iff again_def filter_empty_conv)
  next
    case once
    have "(q, status, resp) \<in> set (filter (\<lambda>d. request_key (fst d) = k) (sy_done s))" using once(1) by simp
    then have "(q, status, resp) \<in> set (sy_done s)" "request_key q = k" by auto
    then show ?thesis using once by (auto simp: list_all_iff list_ex_iff again_def intro!: bexI [of _ "(q, status, resp)"])
  qed
qed

definition sample_request :: idem_request where
  "sample_request = \<lparr>iq_ctx = sample_ctx, iq_key = ''k-1'', iq_hash = HashRequest ''POST'' ''/x'' ''{}''\<rparr>"

definition sample_idem :: idem_env where
  "sample_idem = \<lparr>ie_now = (\<lambda>_. 0), ie_db = 0, ie_fault = (\<lambda>_. None), ie_missed = False, ie_conn = (\<lambda>_. healthy 0)\<rparr>"

abbreviation sample_tc :: TenantContext where "sample_tc \<equiv> no_tenant\<lparr>tc_TenantID := ''t1''\<rparr>"

lemma sample_claimant: "MustTenant sample_ctx = Inr sample_tc"
  by (simp add: MustTenant_def TenantFrom_def sample_ctx_def Empty_def)

lemma sample_claim: "\<exists>rec. Begin sample_idem sample_ctx key h [] = (Inr (rec, False), [claimed sample_idem sample_tc key h])"
  by (simp add: Begin_def sample_claimant TxWith_tenant on_connection_healthy runT_def bindT_def find_live_def readT_def query_row_def IsNoRows_def returnT_def
      claim_key_def insertT_def execT_def insert_row_def sample_idem_def idem_uniques_def unique_index_def Let_def)

lemma sample_finish:
  "finish sample_idem sample_ctx Inr key (Inr (201, Some ''done'')) [claimed sample_idem sample_tc key h] =
     (Resp_ok 201 (Some ''done''), [completed 201 ''done'' 0 (claimed sample_idem sample_tc key h)])"
  by (simp add: finish_def jsonBytes_def Complete_def sample_claimant TxWith_tenant on_connection_healthy runT_def bindT_def execT_def update_where_def
      returnT_def sample_idem_def of_key_def claimed_def completed_def MaxStoredBody_def Let_def)

lemma sample_replay:
  "\<exists>rec. Begin sample_idem sample_ctx key h [completed 201 ''done'' 0 (claimed sample_idem sample_tc key h)] =
     (Inr (rec, True), [completed 201 ''done'' 0 (claimed sample_idem sample_tc key h)]) \<and> ir_HTTPStatus rec = 201 \<and> ir_Body rec = ''done''"
  by (simp add: Begin_def sample_claimant TxWith_tenant on_connection_healthy runT_def bindT_def find_live_def readT_def query_row_def returnT_def
      claim_key_def checkT_def sample_idem_def of_key_def claimed_def completed_def TTL_def duration_defs Let_def)

lemma key_runs_at_most_once_witness:
  "\<exists>s :: string idem_sys. sy_replayed s = [(sample_request, 201, ''done'')] \<and> sy_done s = [(sample_request, 201, Some ''done'')] \<and>
     length (filter (\<lambda>d. request_key (fst d) = request_key sample_request) (sy_done s)) \<le> 1"
proof -
  let ?q = sample_request and ?c = "claimed sample_idem sample_tc ''k-1'' (iq_hash sample_request)"
  let ?s1 = "(idle [])\<lparr>sy_rows := [?c], sy_running := [?q]\<rparr> :: string idem_sys"
  let ?s2 = "?s1\<lparr>sy_rows := [completed 201 ''done'' 0 ?c], sy_running := [], sy_done := [(?q, 201, Some ''done'')]\<rparr>"
  let ?s3 = "?s2\<lparr>sy_replayed := [(?q, 201, ''done'')]\<rparr>"
  have t: "0 \<le> ie_now sample_idem k \<and> ie_now sample_idem k \<le> 0 + TTL" for k by (simp add: sample_idem_def TTL_def duration_defs)
  have q: "iq_ctx ?q = sample_ctx" "iq_key ?q = ''k-1''" by (simp_all add: sample_request_def)
  obtain rec where b: "Begin sample_idem sample_ctx ''k-1'' (iq_hash ?q) [] = (Inr (rec, False), [?c])" using sample_claim by blast
  have st1: "idem_step Inr 0 (0 + TTL) (idle []) ?s1"
    using idem_step.claim [where marshal = Inr and lo = 0 and hi = "0 + TTL" and e = sample_idem and q = ?q and s = "idle []" and rec = rec
        and rows' = "[?c]", OF t] b by (simp add: q idle_def)
  have st2: "idem_step Inr 0 (0 + TTL) ?s1 ?s2"
    using idem_step.finish [where marshal = Inr and q = ?q and s = ?s1 and e = sample_idem and outcome = "Inr (201, Some ''done'')"] sample_finish by (simp add: q idle_def)
  obtain rec' where r: "Begin sample_idem sample_ctx ''k-1'' (iq_hash ?q) [completed 201 ''done'' 0 ?c] =
      (Inr (rec', True), [completed 201 ''done'' 0 ?c])" "ir_HTTPStatus rec' = 201" "ir_Body rec' = ''done''"
    using sample_replay by blast
  have st3: "idem_step Inr 0 (0 + TTL) ?s2 ?s3"
    using idem_step.replay [where marshal = Inr and lo = 0 and hi = "0 + TTL" and e = sample_idem and q = ?q and s = ?s2 and rec = rec'
        and rows' = "[completed 201 ''done'' 0 ?c]", OF t] r by (simp add: q idle_def replayed_status_def)
  have "rtranclp (idem_step Inr 0 (0 + TTL)) (idle []) ?s3"
    by (rule rtranclp.rtrancl_into_rtrancl, rule rtranclp.rtrancl_into_rtrancl, rule rtranclp.rtrancl_into_rtrancl,
        rule rtranclp.rtrancl_refl, rule st1, rule st2, rule st3)
  from key_runs_at_most_once [OF this, of "request_key ?q"]
  have "length (filter (\<lambda>d. request_key (fst d) = request_key ?q) (sy_done ?s3)) \<le> 1" by simp
  then show ?thesis by (intro exI [of _ ?s3]) (simp add: idle_def)
qed

end
