(* ===== verification/Cache.thy ===== *)
theory Cache
  imports Types "HOL-Library.AList"
begin

text \<open>
  \<^verbatim>\<open>internal/platform/cache/cache.go\<close>: the keys of the cache, in a namespace per tenant, and the in-memory
  adapter. The readings of the clock are arguments; the order in which a Go map is iterated when the
  cache evicts is one too. The metrics it counts are not modelled, nor is the Redis adapter.
\<close>

section \<open>Keys\<close>

definition escape_colons :: "string \<Rightarrow> string" where
  "escape_colons p = concat (map (\<lambda>c. if c = CHR '':'' then ''%3A'' else [c]) p)"

(*src internal/platform/cache/cache.go#Key*)
definition cache_Key :: "TenantID \<Rightarrow> string list \<Rightarrow> string" where
  "cache_Key t parts = ''sf:'' @ t @ concat (map (\<lambda>p. CHR '':'' # escape_colons p) parts)"

(*src internal/platform/cache/cache.go#TenantPrefix*)
definition TenantPrefix :: "TenantID \<Rightarrow> string" where "TenantPrefix t = ''sf:'' @ t @ '':''"

section \<open>The in-memory adapter\<close>

(*src internal/platform/cache/cache.go#entry*)
record cache_entry =
  ce_value :: string
  ce_expiresAt :: time

(*src internal/platform/cache/cache.go#Memory*)
record Memory =
  mc_data :: "(string \<times> cache_entry) list"
  mc_maxKeys :: nat

(*src internal/platform/cache/cache.go#NewMemory*)
definition NewMemory :: "int \<Rightarrow> Memory" where
  "NewMemory maxKeys = \<lparr>mc_data = [], mc_maxKeys = nat (if maxKeys \<le> 0 then 100000 else maxKeys)\<rparr>"

definition expired :: "time \<Rightarrow> cache_entry \<Rightarrow> bool" where
  "expired now e \<longleftrightarrow> ce_expiresAt e \<noteq> 0 \<and> now > ce_expiresAt e"

(*src internal/platform/cache/cache.go:84-102#Memory.janitor*)
definition janitor :: "time \<Rightarrow> Memory \<Rightarrow> Memory" where
  "janitor now m = m\<lparr>mc_data := filter (\<lambda>(k, e). \<not> expired now e) (mc_data m)\<rparr>"

(*src internal/platform/cache/cache.go#Memory.Get*)
definition Memory_Get :: "time \<Rightarrow> string \<Rightarrow> Memory \<Rightarrow> string option" where
  "Memory_Get now key m = (case map_of (mc_data m) key of
       None \<Rightarrow> None | Some e \<Rightarrow> if expired now e then None else Some (ce_value e))"

text \<open>The loop that drops entries ends when its counter is used up, after the first entry at the latest
  when a tenth of the bound is zero.\<close>

fun evict_some :: "int \<Rightarrow> string list \<Rightarrow> (string \<times> cache_entry) list \<Rightarrow> (string \<times> cache_entry) list" where
  "evict_some target [] data = data"
| "evict_some target (k # order) data =
     (let data' = AList.delete k data in if target - 1 \<le> 0 then data' else evict_some (target - 1) order data')"

(*src internal/platform/cache/cache.go#Memory.evictLocked*)
definition evictLocked :: "time \<Rightarrow> (string list \<Rightarrow> string list) \<Rightarrow> Memory \<Rightarrow> Memory" where
  "evictLocked now order m = (let live = filter (\<lambda>(k, e). \<not> expired now e) (mc_data m) in
     if length live < mc_maxKeys m then m\<lparr>mc_data := live\<rparr>
     else m\<lparr>mc_data := evict_some (int (mc_maxKeys m div 10)) (order (map fst live)) live\<rparr>)"

(*src internal/platform/cache/cache.go#Memory.Set*)
definition Memory_Set :: "time \<Rightarrow> (string list \<Rightarrow> string list) \<Rightarrow> string \<Rightarrow> string \<Rightarrow> duration \<Rightarrow> Memory \<Rightarrow> Memory" where
  "Memory_Set now order key v ttl m =
     (let m1 = (if length (mc_data m) \<ge> mc_maxKeys m then evictLocked now order m else m)
      in m1\<lparr>mc_data := AList.update key \<lparr>ce_value = v, ce_expiresAt = (if ttl > 0 then now + ttl else 0)\<rparr> (mc_data m1)\<rparr>)"

(*src internal/platform/cache/cache.go#Memory.Delete*)
definition Memory_Delete :: "string list \<Rightarrow> Memory \<Rightarrow> Memory" where
  "Memory_Delete keys m = m\<lparr>mc_data := fold AList.delete keys (mc_data m)\<rparr>"

(*src internal/platform/cache/cache.go#Memory.DeletePrefix*)
definition Memory_DeletePrefix :: "string \<Rightarrow> Memory \<Rightarrow> Memory" where
  "Memory_DeletePrefix prefix m = m\<lparr>mc_data := filter (\<lambda>(k, e). \<not> HasPrefix k prefix) (mc_data m)\<rparr>"

text \<open>The counters are decimal strings; the arithmetic is that of a 64-bit integer.\<close>

definition wrap64 :: "int \<Rightarrow> int" where "wrap64 n = (n + 2 ^ 63) mod 2 ^ 64 - 2 ^ 63"

fun parse_digits :: "int \<Rightarrow> string \<Rightarrow> int" where
  "parse_digits n [] = n"
| "parse_digits n (c # cs) = (if \<not> is_digit c then n else parse_digits (wrap64 (n * 10 + int (digit_value c))) cs)"

(*src internal/platform/cache/cache.go#parseInt*)
definition cache_parseInt :: "string \<Rightarrow> int" where "cache_parseInt b = parse_digits 0 b"

text \<open>A negative number leaves the loop at once, so its digits are the empty string.\<close>

(*src internal/platform/cache/cache.go#formatInt*)
definition cache_formatInt :: "int \<Rightarrow> string" where
  "cache_formatInt n = (if n = 0 then ''0'' else if n < 0 then '''' else nat_digits (nat n))"

(*src internal/platform/cache/cache.go#Memory.Incr*)
definition Memory_Incr :: "time \<Rightarrow> string \<Rightarrow> duration \<Rightarrow> Memory \<Rightarrow> int \<times> Memory" where
  "Memory_Incr now key ttl m = (case map_of (mc_data m) key of
       Some e \<Rightarrow>
         if expired now e then
           (1, m\<lparr>mc_data := AList.update key \<lparr>ce_value = ''1'', ce_expiresAt = (if ttl > 0 then now + ttl else 0)\<rparr> (mc_data m)\<rparr>)
         else let n = wrap64 (cache_parseInt (ce_value e) + 1)
              in (n, m\<lparr>mc_data := AList.update key (e\<lparr>ce_value := cache_formatInt n\<rparr>) (mc_data m)\<rparr>)
     | None \<Rightarrow>
         (1, m\<lparr>mc_data := AList.update key \<lparr>ce_value = ''1'', ce_expiresAt = (if ttl > 0 then now + ttl else 0)\<rparr> (mc_data m)\<rparr>))"

section \<open>Namespaces\<close>

lemma escape_colons_free: "CHR '':'' \<notin> set (escape_colons p)"
  by (induction p) (auto simp: escape_colons_def)

text \<open>What follows a field without a colon determines the field.\<close>

lemma field_split:
  assumes "c \<notin> set xs" "c \<notin> set ys" "xs @ rest = ys @ rest'" "rest = [] \<or> hd rest = c" "rest' = [] \<or> hd rest' = c"
  shows "xs = ys" "rest = rest'"
proof -
  have "takeWhile (\<lambda>x. x \<noteq> c) (xs @ rest) = xs" if "c \<notin> set xs" "rest = [] \<or> hd rest = c" for xs rest :: "'a list"
    using that by (induction xs) (cases rest; auto)+
  from this [OF assms(1,4)] this [OF assms(2,5)] assms(3) show "xs = ys" by simp
  with assms(3) show "rest = rest'" by simp
qed

lemma parts_split:
  "concat (map (\<lambda>p. CHR '':'' # escape_colons p) ps) = concat (map (\<lambda>p. CHR '':'' # escape_colons p) qs) \<Longrightarrow>
   map escape_colons ps = map escape_colons qs"
proof (induction ps arbitrary: qs)
  case Nil
  then show ?case by (cases qs) auto
next
  case (Cons p ps)
  then obtain q qs' where q: "qs = q # qs'" by (cases qs) auto
  have h: "concat (map (\<lambda>p. CHR '':'' # escape_colons p) rs) = [] \<or> hd (concat (map (\<lambda>p. CHR '':'' # escape_colons p) rs)) = CHR '':''" for rs
    by (cases rs) auto
  have "escape_colons p @ concat (map (\<lambda>p. CHR '':'' # escape_colons p) ps) = escape_colons q @ concat (map (\<lambda>p. CHR '':'' # escape_colons p) qs')"
    using Cons.prems q by simp
  note f = field_split [OF escape_colons_free escape_colons_free this h h]
  then show ?case using Cons.IH [OF f(2)] q by simp
qed

text \<open>C20: A cache key belongs to one tenant. For tenant identifiers without a colon, as UUIDs are, equal keys
  have the same tenant and the same escaped parts, whatever the parts contain, and the prefix by which
  a tenant's entries are invalidated matches the keys of that tenant only.\<close>

theorem cache_keys_isolated:
  assumes "CHR '':'' \<notin> set t" "CHR '':'' \<notin> set t'"
  shows "(cache_Key t ps \<noteq> cache_Key t' qs \<or> (t = t' \<and> map escape_colons ps = map escape_colons qs)) \<and>
    (HasPrefix (cache_Key t' qs) (TenantPrefix t) \<longleftrightarrow> t' = t \<and> qs \<noteq> [])"
proof -
  have h: "concat (map (\<lambda>p. CHR '':'' # escape_colons p) rs) = [] \<or> hd (concat (map (\<lambda>p. CHR '':'' # escape_colons p) rs)) = CHR '':''" for rs
    by (cases rs) auto
  have "t = t' \<and> map escape_colons ps = map escape_colons qs" if "cache_Key t ps = cache_Key t' qs"
    using field_split [OF assms _ h h, of ps qs] parts_split [of ps qs] that by (simp add: cache_Key_def)
  moreover have "HasPrefix (cache_Key t' qs) (TenantPrefix t) \<longleftrightarrow> t' = t \<and> qs \<noteq> []"
  proof
    assume "HasPrefix (cache_Key t' qs) (TenantPrefix t)"
    then obtain rest where "cache_Key t' qs = TenantPrefix t @ rest"
      unfolding HasPrefix_def by (metis append_take_drop_id)
    then have e: "t' @ concat (map (\<lambda>p. CHR '':'' # escape_colons p) qs) = t @ CHR '':'' # rest"
      by (simp add: cache_Key_def TenantPrefix_def)
    from field_split [OF assms(2,1) e h] show "t' = t \<and> qs \<noteq> []" by (cases qs) auto
  next
    assume "t' = t \<and> qs \<noteq> []"
    then show "HasPrefix (cache_Key t' qs) (TenantPrefix t)"
      by (cases qs) (simp_all add: cache_Key_def TenantPrefix_def HasPrefix_def)
  qed
  ultimately show ?thesis by blast
qed

lemma cache_keys_isolated_witness:
  "cache_Key ''t1'' [''grants'', ''a:t2''] \<noteq> cache_Key ''t2'' [''grants'', ''a''] \<and> HasPrefix (cache_Key ''t1'' [''rl'']) (TenantPrefix ''t1'')"
  using cache_keys_isolated [of "''t1''" "''t2''" "[''grants'', ''a:t2'']" "[''grants'', ''a'']"]
    cache_keys_isolated [of "''t1''" "''t1''" "[''rl'']" "[''rl'']"] by simp

end
