(* ===== verification/RateLimit.thy ===== *)
theory RateLimit
  imports Cache Errors "HOL-Library.Signed_Division"
begin

text \<open>
  \<^verbatim>\<open>internal/platform/ratelimit/ratelimit.go\<close>: the counter of a window in the cache, the decision it
  gives, and the middleware that asks for both dimensions. Windows are aligned to the clock.
\<close>

section \<open>The limiter\<close>

(*src internal/platform/ratelimit/ratelimit.go#Limit*)
record Limit =
  lm_Requests :: int
  lm_Window :: duration
  lm_Burst :: int

(*src internal/platform/ratelimit/ratelimit.go#Decision*)
record Decision =
  de_Allowed :: bool
  de_Limit :: int
  de_Remaining :: int
  de_ResetAfter :: duration

text \<open>\<^verbatim>\<open>Time.UnixNano\<close>: an \<^verbatim>\<open>int64\<close>, counted from 1970.\<close>

definition unix_epoch :: time where "unix_epoch = 62135596800 * Second"
definition UnixNano :: "time \<Rightarrow> int" where "UnixNano t = wrap64 (t - unix_epoch)"

definition window_bucket :: "time \<Rightarrow> duration \<Rightarrow> int" where "window_bucket t window = UnixNano t sdiv window"

definition effective_limit :: "Limit \<Rightarrow> int" where
  "effective_limit lim = (if lm_Burst lim > lm_Requests lim then lm_Burst lim else lm_Requests lim)"

definition limit_key :: "TenantID \<Rightarrow> string \<Rightarrow> string \<Rightarrow> int \<Rightarrow> string" where
  "limit_key t dimension subject bucket = cache_Key t [''rl'', dimension, subject, Itoa bucket]"

text \<open>The three readings of the clock: for the window, in the cache, and for the reset.\<close>

(*src internal/platform/ratelimit/ratelimit.go#Limiter.Allow*)
definition Allow ::
  "bool \<Rightarrow> go_error option \<Rightarrow> time \<times> time \<times> time \<Rightarrow> TenantID \<Rightarrow> string \<Rightarrow> string \<Rightarrow> Limit \<Rightarrow> Memory \<Rightarrow> Decision result \<times> Memory" where
  "Allow failOpen fault = (\<lambda>(t0, t1, t2) t dimension subject lim m.
     if lm_Requests lim \<le> 0 \<or> lm_Window lim \<le> 0
     then (Inr \<lparr>de_Allowed = True, de_Limit = 0, de_Remaining = 0, de_ResetAfter = 0\<rparr>, m)
     else let effective = effective_limit lim; bucket = window_bucket t0 (lm_Window lim) in
       case fault of
         Some err \<Rightarrow> if failOpen
           then (Inr \<lparr>de_Allowed = True, de_Limit = effective, de_Remaining = effective, de_ResetAfter = 0\<rparr>, m) else (Inl err, m)
       | None \<Rightarrow>
           (let (n, m') = Memory_Incr t1 (limit_key t dimension subject bucket) (lm_Window lim * 2) m;
                reset = wrap64 ((bucket + 1) * lm_Window lim - UnixNano t2); remaining = effective - n
            in (Inr \<lparr>de_Allowed = (n \<le> effective), de_Limit = effective, de_Remaining = (if remaining < 0 then 0 else remaining),
                  de_ResetAfter = (if reset < 0 then 0 else reset)\<rparr>, m')))"

section \<open>The middleware\<close>

(*src internal/platform/ratelimit/ratelimit.go#Config*)
record LimitConfig =
  lc_PerPrincipal :: Limit
  lc_PerTenant :: Limit

(*src internal/platform/ratelimit/ratelimit.go#writeHeaders*)
definition writeHeaders :: "Decision \<Rightarrow> (string \<times> string) list" where
  "writeHeaders d = [(''RateLimit-Limit'', Itoa (de_Limit d)), (''RateLimit-Remaining'', Itoa (de_Remaining d)),
     (''RateLimit-Reset'', Itoa (de_ResetAfter d div Second + 1))]"

text \<open>The request goes on, or is refused with the headers and the error of the dimension.\<close>

datatype limit_outcome = Passed "(string \<times> string) list" | Rejected "(string \<times> string) list" string go_error

(*src internal/platform/ratelimit/ratelimit.go#reject*)
definition reject :: "(string \<times> string) list \<Rightarrow> Decision \<Rightarrow> string \<Rightarrow> limit_outcome" where
  "reject headers d dimension = Rejected (headers @ [(''Retry-After'', Itoa (de_ResetAfter d div Second + 1))]) dimension
     (Exhausted ''ratelimit.Middleware'' ''ratelimit.exceeded'')"

text \<open>The readings and the faults of the two calls of the limiter.\<close>

(*src internal/platform/ratelimit/ratelimit.go#Limiter.Middleware*)
definition limit_middleware ::
  "(nat \<Rightarrow> go_error option) \<Rightarrow> (nat \<Rightarrow> time \<times> time \<times> time) \<Rightarrow> LimitConfig \<Rightarrow> (TenantID \<times> string) option \<Rightarrow> Memory \<Rightarrow> limit_outcome \<times> Memory" where
  "limit_middleware fault clock cfg who m = (case who of
       None \<Rightarrow> (Passed [], m)
     | Some (t, pid) \<Rightarrow>
         (let (first, m1) = (if pid \<noteq> '''' \<and> lm_Requests (lc_PerPrincipal cfg) > 0 then
                (case Allow True (fault 0) (clock 0) t ''principal'' pid (lc_PerPrincipal cfg) m of
                   (Inl _, m1) \<Rightarrow> (Passed [], m1)
                 | (Inr d, m1) \<Rightarrow> (if \<not> de_Allowed d then reject (writeHeaders d) d ''principal'' else Passed (writeHeaders d), m1))
              else (Passed [], m))
          in case first of
               Rejected _ _ _ \<Rightarrow> (first, m1)
             | Passed headers \<Rightarrow>
                 if lm_Requests (lc_PerTenant cfg) > 0 then
                   (case Allow True (fault 1) (clock 1) t ''tenant'' t (lc_PerTenant cfg) m1 of
                      (Inl _, m2) \<Rightarrow> (Passed headers, m2)
                    | (Inr d, m2) \<Rightarrow> (if \<not> de_Allowed d then reject (writeHeaders d) d ''tenant'' else Passed headers, m2))
                 else (Passed headers, m1)))"

section \<open>The counter of a window\<close>

lemma wrap64_id: "- (2 ^ 63) \<le> n \<Longrightarrow> n < 2 ^ 63 \<Longrightarrow> wrap64 n = n"
  by (simp add: wrap64_def)

lemma foldl_digits_ge: "n \<le> foldl (\<lambda>n c. 10 * n + digit_value c) n s"
proof (induction s arbitrary: n)
  case (Cons c s)
  have "n \<le> 10 * n + digit_value c" by simp
  also have "\<dots> \<le> foldl (\<lambda>n c. 10 * n + digit_value c) (10 * n + digit_value c) s" by (rule Cons.IH)
  finally show ?case by simp
qed simp

lemma parse_digits_value:
  "list_all is_digit s \<Longrightarrow> int (foldl (\<lambda>n c. 10 * n + digit_value c) n s) < 2 ^ 63 \<Longrightarrow>
   parse_digits (int n) s = int (foldl (\<lambda>n c. 10 * n + digit_value c) n s)"
proof (induction s arbitrary: n)
  case (Cons c s)
  have "int (10 * n + digit_value c) < 2 ^ 63"
    using foldl_digits_ge [of "10 * n + digit_value c" s] Cons.prems(2) by simp
  then have "wrap64 (int n * 10 + int (digit_value c)) = int (10 * n + digit_value c)" by (subst wrap64_id) simp_all
  then have "parse_digits (int n) (c # s) = parse_digits (int (10 * n + digit_value c)) s" using Cons.prems(1) by simp
  also have "\<dots> = int (foldl (\<lambda>n c. 10 * n + digit_value c) (10 * n + digit_value c) s)"
    by (rule Cons.IH) (use Cons.prems in simp_all)
  finally show ?case by simp
qed simp

lemma counter_roundtrip: "n < 2 ^ 63 \<Longrightarrow> cache_parseInt (cache_formatInt (int n)) = int n"
  using parse_digits_value [of "nat_digits n" 0] nat_digits_all [of n] digits_value_nat_digits [of n]
  by (cases "n = 0") (simp_all add: cache_parseInt_def cache_formatInt_def digits_value_def is_digit_def digit_value_def wrap64_def)

text \<open>A call of the limiter, and the calls one after another.\<close>

record limit_call =
  ca_clock :: "time \<times> time \<times> time"
  ca_tenant :: TenantID
  ca_dimension :: string
  ca_subject :: string
  ca_limit :: Limit

definition call_key :: "limit_call \<Rightarrow> string" where
  "call_key c = limit_key (ca_tenant c) (ca_dimension c) (ca_subject c) (window_bucket (fst (ca_clock c)) (lm_Window (ca_limit c)))"

fun run_calls :: "limit_call list \<Rightarrow> Memory \<Rightarrow> (limit_call \<times> bool) list \<times> Memory" where
  "run_calls [] m = ([], m)"
| "run_calls (c # cs) m =
     (let (r, m1) = Allow True None (ca_clock c) (ca_tenant c) (ca_dimension c) (ca_subject c) (ca_limit c) m;
          (rs, m2) = run_calls cs m1
      in ((c, case r of Inr d \<Rightarrow> de_Allowed d | Inl _ \<Rightarrow> True) # rs, m2))"

definition allowed_calls :: "string \<Rightarrow> (limit_call \<times> bool) list \<Rightarrow> nat" where
  "allowed_calls key rs = length (filter (\<lambda>(c, ok). call_key c = key \<and> ok) rs)"

text \<open>A call that reads the clock twice within a window of each other.\<close>

definition prompt :: "limit_call \<Rightarrow> bool" where
  "prompt c \<longleftrightarrow> (case ca_clock c of (t0, t1, t2) \<Rightarrow>
     unix_epoch \<le> t0 \<and> t0 - unix_epoch < 2 ^ 63 \<and> t0 \<le> t1 \<and> t1 \<le> t0 + lm_Window (ca_limit c))"

definition counts :: "nat \<Rightarrow> string \<Rightarrow> Limit \<Rightarrow> int \<Rightarrow> Memory \<Rightarrow> bool" where
  "counts k key lim bucket m \<longleftrightarrow> (if k = 0 then map_of (mc_data m) key = None
     else \<exists>e. map_of (mc_data m) key = Some e \<and> ce_value e = cache_formatInt (int k) \<and>
       unix_epoch + bucket * lm_Window lim + lm_Window lim * 2 \<le> ce_expiresAt e)"

lemma Incr_other: "key' \<noteq> key \<Longrightarrow> map_of (mc_data (snd (Memory_Incr now key ttl m))) key' = map_of (mc_data m) key'"
  by (auto simp: Memory_Incr_def Let_def update_conv' split: option.splits)

lemma window_bounds:
  assumes "prompt c" "window_bucket (fst (ca_clock c)) (lm_Window (ca_limit c)) = bucket" "0 < lm_Window (ca_limit c)"
  shows "unix_epoch + bucket * lm_Window (ca_limit c) \<le> fst (snd (ca_clock c))"
    "fst (snd (ca_clock c)) < unix_epoch + bucket * lm_Window (ca_limit c) + lm_Window (ca_limit c) * 2"
proof -
  obtain t0 t1 t2 where c: "ca_clock c = (t0, t1, t2)" by (cases "ca_clock c")
  let ?w = "lm_Window (ca_limit c)"
  have t: "unix_epoch \<le> t0" "t0 - unix_epoch < 2 ^ 63" "t0 \<le> t1" "t1 \<le> t0 + ?w" using assms(1) by (auto simp: prompt_def c)
  then have "UnixNano t0 = t0 - unix_epoch" by (simp add: UnixNano_def wrap64_id)
  then have b: "bucket = (t0 - unix_epoch) div ?w"
    using assms(2,3) t(1) by (cases "t0 = unix_epoch") (auto simp: window_bucket_def c signed_divide_int_def)
  have "bucket * ?w \<le> t0 - unix_epoch" "t0 - unix_epoch < bucket * ?w + ?w"
    using assms(3) div_mult_mod_eq [of "t0 - unix_epoch" ?w] pos_mod_bound [of ?w "t0 - unix_epoch"] pos_mod_sign [of ?w "t0 - unix_epoch"]
    unfolding b by linarith+
  then show "unix_epoch + bucket * ?w \<le> fst (snd (ca_clock c))" "fst (snd (ca_clock c)) < unix_epoch + bucket * ?w + ?w * 2"
    using t by (simp_all add: c)
qed

lemma counted_call:
  assumes "prompt c" "call_key c = key" "ca_limit c = lim" "window_bucket (fst (ca_clock c)) (lm_Window lim) = bucket"
    and "0 < lm_Requests lim" "0 < lm_Window lim" "counts k key lim bucket m" "k + 1 < 2 ^ 63"
    and "Allow True None (ca_clock c) (ca_tenant c) (ca_dimension c) (ca_subject c) lim m = (r, m')"
  shows "(\<exists>d. r = Inr d \<and> de_Allowed d = (int k < effective_limit lim)) \<and> counts (k + 1) key lim bucket m'"
proof -
  obtain t0 t1 t2 where c: "ca_clock c = (t0, t1, t2)" by (cases "ca_clock c")
  note w = window_bounds [OF assms(1), unfolded assms(3), OF assms(4,6), unfolded c]
  have unix: "0 < unix_epoch + bucket * lm_Window lim + lm_Window lim * 2"
    using assms(1) w(2) by (simp add: prompt_def c unix_epoch_def Second_def)
  have key: "limit_key (ca_tenant c) (ca_dimension c) (ca_subject c) bucket = key"
    using assms(2) by (simp add: call_key_def assms(3,4))
  have n: "Memory_Incr t1 key (lm_Window lim * 2) m = (int k + 1, snd (Memory_Incr t1 key (lm_Window lim * 2) m)) \<and>
      counts (k + 1) key lim bucket (snd (Memory_Incr t1 key (lm_Window lim * 2) m))"
  proof (cases "k = 0")
    case True
    then have "map_of (mc_data m) key = None" using assms(7) by (simp add: counts_def)
    moreover have "cache_formatInt 1 = ''1''" by code_simp
    ultimately show ?thesis using True w(1) assms(6) by (simp add: Memory_Incr_def counts_def update_conv')
  next
    case False
    then obtain e where e: "map_of (mc_data m) key = Some e" "ce_value e = cache_formatInt (int k)"
        "unix_epoch + bucket * lm_Window lim + lm_Window lim * 2 \<le> ce_expiresAt e"
      using assms(7) by (auto simp: counts_def)
    have "\<not> expired t1 e" using e(3) w(2) by (simp add: expired_def)
    moreover have "wrap64 (cache_parseInt (ce_value e) + 1) = int k + 1"
      using counter_roundtrip [of k] assms(8) by (simp add: e(2) wrap64_id)
    ultimately show ?thesis using e by (simp add: Memory_Incr_def Let_def counts_def update_conv' add.commute)
  qed
  then obtain m1 where m1: "Memory_Incr t1 key (lm_Window lim * 2) m = (int k + 1, m1)" "counts (k + 1) key lim bucket m1" by blast
  have b: "window_bucket t0 (lm_Window lim) = bucket" using assms(4) by (simp add: c)
  show ?thesis using assms(5,6,9) m1 by (auto simp: Allow_def Let_def c b key)
qed

lemma uncounted_call:
  assumes "call_key c \<noteq> key" "counts k key lim bucket m"
    and "Allow True None (ca_clock c) (ca_tenant c) (ca_dimension c) (ca_subject c) (ca_limit c) m = (r, m')"
  shows "counts k key lim bucket m'"
proof -
  obtain t0 t1 t2 where c: "ca_clock c = (t0, t1, t2)" by (cases "ca_clock c")
  have "m' = m \<or> m' = snd (Memory_Incr t1 (call_key c) (lm_Window (ca_limit c) * 2) m)"
    using assms(3) by (auto simp: Allow_def c call_key_def Let_def split: if_splits prod.splits)
  then have "map_of (mc_data m') key = map_of (mc_data m) key" using Incr_other [OF assms(1) [symmetric]] by auto
  then show ?thesis using assms(2) by (simp add: counts_def)
qed

lemma run_calls_count:
  assumes "list_all prompt cs" "0 < lm_Requests lim" "0 < lm_Window lim"
    and "list_all (\<lambda>c. call_key c \<noteq> key \<or> (ca_limit c = lim \<and> window_bucket (fst (ca_clock c)) (lm_Window lim) = bucket)) cs"
    and "counts k key lim bucket m" "int k + int (length cs) < 2 ^ 63"
  shows "allowed_calls key (fst (run_calls cs m)) = min (length (filter (\<lambda>c. call_key c = key) cs)) (nat (effective_limit lim) - k)"
  using assms(1,4-6)
proof (induction cs arbitrary: k m)
  case (Cons c cs)
  obtain r m1 where a: "Allow True None (ca_clock c) (ca_tenant c) (ca_dimension c) (ca_subject c) (ca_limit c) m = (r, m1)" by fastforce
  obtain rs m2 where rest: "run_calls cs m1 = (rs, m2)" by fastforce
  have run: "fst (run_calls (c # cs) m) = (c, case r of Inr d \<Rightarrow> de_Allowed d | Inl _ \<Rightarrow> True) # rs" by (simp add: a rest)
  show ?case
  proof (cases "call_key c = key")
    case True
    then have lim: "ca_limit c = lim" "window_bucket (fst (ca_clock c)) (lm_Window lim) = bucket" using Cons.prems(2) by simp_all
    from counted_call [OF _ True lim assms(2,3) Cons.prems(3) _ a [unfolded lim]] Cons.prems(1,4)
    obtain d where d: "r = Inr d" "de_Allowed d = (int k < effective_limit lim)" "counts (k + 1) key lim bucket m1" by auto
    have "allowed_calls key rs = min (length (filter (\<lambda>c. call_key c = key) cs)) (nat (effective_limit lim) - (k + 1))"
      using Cons.IH [OF _ _ d(3)] Cons.prems(1,2,4) rest by simp
    then show ?thesis using True unfolding run allowed_calls_def by (auto simp: d(1,2))
  next
    case False
    have "allowed_calls key rs = min (length (filter (\<lambda>c. call_key c = key) cs)) (nat (effective_limit lim) - k)"
      using Cons.IH [OF _ _ uncounted_call [OF False Cons.prems(3) a]] Cons.prems(1,2,4) rest by simp
    then show ?thesis using False unfolding run allowed_calls_def by simp
  qed
qed (simp add: allowed_calls_def)

text \<open>C19: A window admits exactly its allowance. Whatever calls of the limiter are made, for this and other
  subjects, of those that fall into one window of a subject as many are allowed as there are, up to
  the larger of the rate and the burst, and the rest are refused, as long as the counter is not
  evicted and each call reads the clock twice within one window.\<close>

theorem windows_are_bounded:
  assumes "list_all prompt cs" "0 < lm_Requests lim" "0 < lm_Window lim" "map_of (mc_data m) key = None" "int (length cs) < 2 ^ 63"
    and "list_all (\<lambda>c. call_key c \<noteq> key \<or> (ca_limit c = lim \<and> window_bucket (fst (ca_clock c)) (lm_Window lim) = bucket)) cs"
  shows "allowed_calls key (fst (run_calls cs m)) = min (length (filter (\<lambda>c. call_key c = key) cs)) (nat (effective_limit lim))"
  using run_calls_count [OF assms(1-3,6), of 0 m] assms(4,5) by (simp add: counts_def)

definition sample_call :: "string \<Rightarrow> limit_call" where
  "sample_call subject = \<lparr>ca_clock = (unix_epoch, unix_epoch, unix_epoch), ca_tenant = ''t1'', ca_dimension = ''principal'',
     ca_subject = subject, ca_limit = \<lparr>lm_Requests = 1, lm_Window = Second, lm_Burst = 2\<rparr>\<rparr>"

lemma sample_call_keys: "call_key (sample_call ''u'') \<noteq> call_key (sample_call ''v'')"
  by (simp add: call_key_def limit_key_def sample_call_def cache_Key_def escape_colons_def)

lemma windows_are_bounded_witness:
  "allowed_calls (call_key (sample_call ''u'')) (fst (run_calls [sample_call ''u'', sample_call ''v'', sample_call ''u'', sample_call ''u''] (NewMemory 0))) = 2"
proof -
  have "UnixNano unix_epoch = 0" by (simp add: UnixNano_def wrap64_def)
  then have "list_all prompt [sample_call ''u'', sample_call ''v'', sample_call ''u'', sample_call ''u'']"
      "window_bucket (fst (ca_clock (sample_call ''u''))) Second = 0"
    by (simp_all add: prompt_def sample_call_def Second_def window_bucket_def)
  then show ?thesis
    using windows_are_bounded [of "[sample_call ''u'', sample_call ''v'', sample_call ''u'', sample_call ''u'']"
        "\<lparr>lm_Requests = 1, lm_Window = Second, lm_Burst = 2\<rparr>" "NewMemory 0" "call_key (sample_call ''u'')" 0] sample_call_keys
    by (simp add: NewMemory_def Second_def effective_limit_def sample_call_def)
qed

end
