(* ===== verification/Base64.thy ===== *)
theory Base64
  imports Prelude
begin

text \<open>
  \<^verbatim>\<open>base64.RawURLEncoding\<close> of Go's library, which tokens, keys and cursors use: the alphabet of RFC 4648
  with \<^verbatim>\<open>-\<close> and \<^verbatim>\<open>_\<close>, no padding. The decoder skips line ends and ignores the unused bits of a last
  group, as the library's does.
\<close>

definition b64_char :: "nat \<Rightarrow> char" where
  "b64_char n = (if n < 26 then char_of (n + 65) else if n < 52 then char_of (n + 71) else if n < 62 then char_of (n - 4)
     else if n = 62 then CHR ''-'' else CHR ''_'')"

definition b64_val :: "char \<Rightarrow> nat option" where
  "b64_val c = (let n = of_char c :: nat in
     if 65 \<le> n \<and> n \<le> 90 then Some (n - 65) else if 97 \<le> n \<and> n \<le> 122 then Some (n - 71)
     else if 48 \<le> n \<and> n \<le> 57 then Some (n + 4) else if n = 45 then Some 62 else if n = 95 then Some 63 else None)"

fun b64_encode :: "string \<Rightarrow> string" where
  "b64_encode [] = []"
| "b64_encode [a] = (let n = of_char a * 16 in [b64_char (n div 64), b64_char (n mod 64)])"
| "b64_encode [a, b] = (let n = (of_char a * 256 + of_char b) * 4 in
     [b64_char (n div 4096), b64_char (n div 64 mod 64), b64_char (n mod 64)])"
| "b64_encode (a # b # c # s) = (let n = (of_char a * 256 + of_char b) * 256 + of_char c in
     [b64_char (n div 262144), b64_char (n div 4096 mod 64), b64_char (n div 64 mod 64), b64_char (n mod 64)] @ b64_encode s)"

fun b64_groups :: "nat list \<Rightarrow> string option" where
  "b64_groups [] = Some []"
| "b64_groups [a] = None"
| "b64_groups [a, b] = Some [char_of ((a * 64 + b) div 16)]"
| "b64_groups [a, b, c] = (let n = ((a * 64 + b) * 64 + c) div 4 in Some [char_of (n div 256), char_of (n mod 256)])"
| "b64_groups (a # b # c # d # s) = (let n = ((a * 64 + b) * 64 + c) * 64 + d in
     map_option (\<lambda>r. [char_of (n div 65536), char_of (n div 256 mod 256), char_of (n mod 256)] @ r) (b64_groups s))"

definition b64_decode :: "string \<Rightarrow> string option" where
  "b64_decode s = (let vs = map b64_val (filter (\<lambda>c. c \<noteq> CHR 0x0A \<and> c \<noteq> CHR 0x0D) s) in
     if None \<in> set vs then None else b64_groups (map the vs))"

lemma char_eq_iff_code: "c = d \<longleftrightarrow> (of_char c :: nat) = of_char d"
  by (metis char_of_char)

lemma b64_char_val: "n < 64 \<Longrightarrow> b64_val (b64_char n) = Some n \<and> b64_char n \<noteq> CHR 0x0A \<and> b64_char n \<noteq> CHR 0x0D"
  by (auto simp: b64_char_def b64_val_def char_eq_iff_code Let_def)

fun b64_values :: "string \<Rightarrow> nat list" where
  "b64_values [] = []"
| "b64_values [a] = (let n = of_char a * 16 in [n div 64, n mod 64])"
| "b64_values [a, b] = (let n = (of_char a * 256 + of_char b) * 4 in [n div 4096, n div 64 mod 64, n mod 64])"
| "b64_values (a # b # c # s) = (let n = (of_char a * 256 + of_char b) * 256 + of_char c in
     [n div 262144, n div 4096 mod 64, n div 64 mod 64, n mod 64] @ b64_values s)"

lemma b64_encode_values: "b64_encode s = map b64_char (b64_values s)"
  by (induction s rule: b64_encode.induct) (simp_all add: Let_def)

lemma char_bound: "(of_char c :: nat) < 256"
  by (metis nat_of_char_less_256)

lemma char_le: "(of_char c :: nat) \<le> 255"
  by (rule less_Suc_eq_le [THEN iffD1]) simp

lemma group_bounds:
  fixes a b c :: nat
  shows "a \<le> 255 \<Longrightarrow> b \<le> 255 \<Longrightarrow> (a * 256 + b) * 4 < 64 * 4096"
    "a \<le> 255 \<Longrightarrow> b \<le> 255 \<Longrightarrow> c \<le> 255 \<Longrightarrow> (a * 256 + b) * 256 + c < 64 * 262144"
  by simp_all

lemma split_byte: "(c :: nat) < 256 \<Longrightarrow> (a * 256 + c) div 256 = a \<and> (a * 256 + c) mod 256 = c"
  by simp

lemma b64_values_bound: "list_all (\<lambda>n. n < 64) (b64_values s)"
proof (induction s rule: b64_values.induct)
  case (2 a)
  have "of_char a * 16 < (64 * 64 :: nat)" using char_bound [of a] by simp
  then show ?case unfolding b64_values.simps Let_def list.pred_inject by (simp add: less_mult_imp_div_less)
next
  case (3 a b)
  have "(of_char a * 256 + of_char b) * 4 < (64 * 4096 :: nat)" by (rule group_bounds) (rule char_le)+
  then show ?case unfolding b64_values.simps Let_def list.pred_inject by (simp add: less_mult_imp_div_less)
next
  case (4 a b c s)
  have "(of_char a * 256 + of_char b) * 256 + of_char c < (64 * 262144 :: nat)"
    by (rule group_bounds) (rule char_le)+
  with 4 show ?case unfolding b64_values.simps Let_def list.pred_inject append_Cons by (simp add: less_mult_imp_div_less)
qed simp

lemma regroup:
  fixes n :: nat
  shows "n div 64 * 64 + n mod 64 = n" "n div 4096 * 64 + n div 64 mod 64 = n div 64" "n div 262144 * 64 + n div 4096 mod 64 = n div 4096"
proof -
  have "n div 4096 = n div 64 div 64" "n div 262144 = n div 4096 div 64" by (simp_all add: div_mult2_eq [symmetric])
  then show "n div 64 * 64 + n mod 64 = n" "n div 4096 * 64 + n div 64 mod 64 = n div 64"
    "n div 262144 * 64 + n div 4096 mod 64 = n div 4096" by (simp_all add: div_mult_mod_eq)
qed

lemma b64_groups_values: "b64_groups (b64_values s) = Some s"
proof (induction s rule: b64_values.induct)
  case (2 a)
  then show ?case unfolding b64_values.simps Let_def b64_groups.simps regroup by simp
next
  case (3 a b)
  let ?n = "(of_char a * 256 + of_char b) * 4 :: nat"
  have n: "?n div 4 = of_char a * 256 + of_char b" by simp
  show ?case unfolding b64_values.simps Let_def b64_groups.simps regroup n using char_bound [of b] by simp
next
  case (4 a b c s)
  let ?n = "(of_char a * 256 + of_char b) * 256 + of_char c :: nat"
  have "?n div 65536 = ?n div 256 div 256" by (simp only: div_mult2_eq [symmetric]) simp
  then have n: "?n div 65536 = of_char a" "?n div 256 mod 256 = of_char b" "?n mod 256 = of_char c"
    by (simp_all only: split_byte char_bound)
  show ?case unfolding b64_values.simps append_Cons append_Nil Let_def b64_groups.simps regroup n by (simp add: 4)
qed simp

text \<open>What is encoded decodes to itself.\<close>

theorem b64_roundtrip: "b64_decode (b64_encode s) = Some s"
proof -
  have b: "n < 64" if "n \<in> set (b64_values s)" for n using b64_values_bound [of s] that by (simp add: list_all_iff)
  have "filter (\<lambda>c. c \<noteq> CHR 0x0A \<and> c \<noteq> CHR 0x0D) (b64_encode s) = b64_encode s"
    unfolding b64_encode_values by (rule filter_True) (auto dest!: b b64_char_val)
  moreover have "map b64_val (b64_encode s) = map Some (b64_values s)"
    unfolding b64_encode_values by (simp add: b64_char_val b)
  ultimately show ?thesis by (simp add: b64_decode_def Let_def b64_groups_values comp_def)
qed

end
