(* ===== verification/Jwt.thy ===== *)
theory Jwt
  imports Base64 JcsCanonical JcsStruct RateLimit Sha256
begin

text \<open>
  \<^verbatim>\<open>internal/platform/authn/jwt.go\<close>: the parts of a token, its header and claims as \<^verbatim>\<open>json.Unmarshal\<close> reads
  them, the allowlist of algorithms, the dispatch of the signature and the checks of the claims. The
  RSA and ECDSA primitives, SHA-384 and SHA-512 of Go's library are parameters, collected in a record;
  so is the source of keys. Fields whose names differ only in case are taken in the order in
  which the decoder first met their names.
\<close>

section \<open>Reading JSON into a struct\<close>

text \<open>\<^verbatim>\<open>json.Unmarshal\<close>: one value and nothing but white space after it.\<close>

definition Unmarshal :: "string \<Rightarrow> json option" where
  "Unmarshal raw = (case Decode raw of Some (v, rest) \<Rightarrow> if skip_ws rest = [] then Some v else None | None \<Rightarrow> None)"

text \<open>Names match when they are equal after case folding; two letters fold to an ASCII one.\<close>

fun fold_name :: "string \<Rightarrow> string" where
  "fold_name [] = []"
| "fold_name (c # s) =
     (if HasPrefix (c # s) [CHR 0xC5, CHR 0xBF] then CHR ''S'' # fold_name (drop 1 s)
      else if HasPrefix (c # s) [CHR 0xE2, CHR 0x84, CHR 0xAA] then CHR ''K'' # fold_name (drop 2 s)
      else ascii_upper c # fold_name s)"

definition matching :: "string \<Rightarrow> (string \<times> json) list \<Rightarrow> json list" where
  "matching name ms = map snd (filter (\<lambda>(k, v). fold_name k = fold_name name) ms)"

definition int64_literal :: "string \<Rightarrow> int option" where
  "int64_literal lit = (let (neg, ds) = (if HasPrefix lit ''-'' then (True, drop 1 lit) else (False, lit));
       n = (if neg then - int (digits_value ds) else int (digits_value ds))
     in if ds \<noteq> [] \<and> list_all is_digit ds \<and> - (2 ^ 63) \<le> n \<and> n < 2 ^ 63 then Some n else None)"

fun set_string :: "string option \<Rightarrow> json \<Rightarrow> string option" where
  "set_string None v = None"
| "set_string (Some s) (JString t) = Some t"
| "set_string (Some s) JNull = Some s"
| "set_string (Some s) v = None"

fun set_int64 :: "int option \<Rightarrow> json \<Rightarrow> int option" where
  "set_int64 None v = None"
| "set_int64 (Some n) (JNumber lit) = int64_literal lit"
| "set_int64 (Some n) JNull = Some n"
| "set_int64 (Some n) v = None"

definition strings_of :: "json list \<Rightarrow> string list option" where
  "strings_of vs = (if list_all (\<lambda>v. (case v of JString _ \<Rightarrow> True | JNull \<Rightarrow> True | _ \<Rightarrow> False)) vs
     then Some (map (\<lambda>v. case v of JString s \<Rightarrow> s | _ \<Rightarrow> '''') vs) else None)"

fun set_strings :: "string list option \<Rightarrow> json \<Rightarrow> string list option" where
  "set_strings None v = None"
| "set_strings (Some s) (JArray vs) = strings_of vs"
| "set_strings (Some s) JNull = Some []"
| "set_strings (Some s) v = None"

text \<open>\<^verbatim>\<open>null\<close> unmarshals into the string, as the empty one.\<close>

(*src internal/platform/authn/jwt.go#Audience.UnmarshalJSON*)
definition Audience_UnmarshalJSON :: "json \<Rightarrow> string list option" where
  "Audience_UnmarshalJSON v = (case v of JString s \<Rightarrow> Some [s] | JNull \<Rightarrow> Some [''''] | JArray vs \<Rightarrow> strings_of vs | _ \<Rightarrow> None)"

fun set_audience :: "string list option \<Rightarrow> json \<Rightarrow> string list option" where
  "set_audience None v = None"
| "set_audience (Some s) v = Audience_UnmarshalJSON v"

definition field :: "('a option \<Rightarrow> json \<Rightarrow> 'a option) \<Rightarrow> 'a \<Rightarrow> string \<Rightarrow> (string \<times> json) list \<Rightarrow> 'a option" where
  "field set_it zero name ms = foldl set_it (Some zero) (matching name ms)"

section \<open>Headers and claims\<close>

(*src internal/platform/authn/jwt.go#Header*)
record Header =
  hd_Alg :: string
  hd_Typ :: string
  hd_Kid :: string

(*src internal/platform/authn/jwt.go#Claims*)
record Claims =
  cl_Issuer :: string
  cl_Subject :: string
  cl_Audience :: "string list"
  cl_ExpiresAt :: int
  cl_NotBefore :: int
  cl_IssuedAt :: int
  cl_ID :: string
  cl_AuthTime :: int
  cl_Nonce :: string
  cl_AMR :: "string list"
  cl_ACR :: string
  cl_Email :: string
  cl_Name :: string
  cl_Extra :: "(string \<times> json) list"

definition members_of :: "json \<Rightarrow> (string \<times> json) list option" where
  "members_of v = (case v of JObject ms \<Rightarrow> Some ms | JNull \<Rightarrow> Some [] | _ \<Rightarrow> None)"

definition decode_header :: "json \<Rightarrow> Header option" where
  "decode_header v = Option.bind (members_of v) (\<lambda>ms.
     Option.bind (field set_string '''' ''alg'' ms) (\<lambda>alg.
     Option.bind (field set_string '''' ''typ'' ms) (\<lambda>ty.
     Option.bind (field set_string '''' ''kid'' ms) (\<lambda>kid.
     Some \<lparr>hd_Alg = alg, hd_Typ = ty, hd_Kid = kid\<rparr>))))"

definition decode_claims :: "json \<Rightarrow> Claims option" where
  "decode_claims v = Option.bind (members_of v) (\<lambda>ms.
     Option.bind (field set_string '''' ''iss'' ms) (\<lambda>iss.
     Option.bind (field set_string '''' ''sub'' ms) (\<lambda>sb.
     Option.bind (field set_audience [] ''aud'' ms) (\<lambda>aud.
     Option.bind (field set_int64 0 ''exp'' ms) (\<lambda>expiry.
     Option.bind (field set_int64 0 ''nbf'' ms) (\<lambda>nbf.
     Option.bind (field set_int64 0 ''iat'' ms) (\<lambda>iat.
     Option.bind (field set_string '''' ''jti'' ms) (\<lambda>jti.
     Option.bind (field set_int64 0 ''auth_time'' ms) (\<lambda>auth_time.
     Option.bind (field set_string '''' ''nonce'' ms) (\<lambda>nonce.
     Option.bind (field set_strings [] ''amr'' ms) (\<lambda>amr.
     Option.bind (field set_string '''' ''acr'' ms) (\<lambda>acr.
     Option.bind (field set_string '''' ''email'' ms) (\<lambda>email.
     Option.bind (field set_string '''' ''name'' ms) (\<lambda>name.
     Some \<lparr>cl_Issuer = iss, cl_Subject = sb, cl_Audience = aud, cl_ExpiresAt = expiry, cl_NotBefore = nbf, cl_IssuedAt = iat,
       cl_ID = jti, cl_AuthTime = auth_time, cl_Nonce = nonce, cl_AMR = amr, cl_ACR = acr, cl_Email = email, cl_Name = name, cl_Extra = ms\<rparr>))))))))))))))"

text \<open>The second reading, into \<^verbatim>\<open>map[string]any\<close>, needs numbers that a \<^verbatim>\<open>float64\<close> can hold.\<close>

definition decode_extra :: "json \<Rightarrow> Claims option" where
  "decode_extra v = (if all_nums representable v then decode_claims v else None)"

(*src internal/platform/authn/jwt.go#Audience.Contains*)
definition Audience_Contains :: "string list \<Rightarrow> string \<Rightarrow> bool" where
  "Audience_Contains a v = list_ex (\<lambda>s. s = v) a"

(*src internal/platform/authn/jwt.go#Claims.String*)
definition Claims_String :: "Claims \<Rightarrow> string \<Rightarrow> string" where
  "Claims_String c name = (case map_of (cl_Extra c) name of Some (JString s) \<Rightarrow> s | _ \<Rightarrow> '''')"

text \<open>\<open>None\<close> is the nil slice.\<close>

(*src internal/platform/authn/jwt.go#Claims.StringSlice*)
definition Claims_StringSlice :: "Claims \<Rightarrow> string \<Rightarrow> string list option" where
  "Claims_StringSlice c name = (case map_of (cl_Extra c) name of
       Some (JString v) \<Rightarrow> if v = [] then None else Some [v]
     | Some (JArray vs) \<Rightarrow> Some (concat (map (\<lambda>v. case v of JString s \<Rightarrow> [s] | _ \<Rightarrow> []) vs))
     | _ \<Rightarrow> None)"

text \<open>\<^verbatim>\<open>time.Unix\<close> and \<^verbatim>\<open>Time.Add\<close>: the seconds are 64-bit, the sum stops at their ends.\<close>

definition UnixTime :: "int \<Rightarrow> time" where "UnixTime s = wrap64 (s + 62135596800) * Second"

definition AddTime :: "time \<Rightarrow> duration \<Rightarrow> time" where
  "AddTime t d = (let s = (t + d) div Second; ns = (t + d) mod Second in max (- (2 ^ 63 - 1)) (min (2 ^ 63 - 1) s) * Second + ns)"

(*src internal/platform/authn/jwt.go#Claims.AuthTimeOrIssued*)
definition AuthTimeOrIssued :: "Claims \<Rightarrow> time" where
  "AuthTimeOrIssued c = UnixTime (if cl_AuthTime c > 0 then cl_AuthTime c else cl_IssuedAt c)"

section \<open>Signatures\<close>

datatype crypto_hash = SHA256 | SHA384 | SHA512

(*src internal/platform/authn/jwt.go#supportedAlgorithms*)
definition supportedAlgorithms :: "(string \<times> crypto_hash) list" where
  "supportedAlgorithms = [(''RS256'', SHA256), (''RS384'', SHA384), (''RS512'', SHA512), (''PS256'', SHA256), (''PS384'', SHA384),
     (''PS512'', SHA512), (''ES256'', SHA256), (''ES384'', SHA384), (''ES512'', SHA512)]"

text \<open>A key, with the bit size of its curve; the primitives of the library.\<close>

datatype ('r, 'e) public_key = RSAKey 'r | ECDSAKey nat 'e

record ('r, 'e) crypto =
  cr_PKCS1v15 :: "'r \<Rightarrow> crypto_hash \<Rightarrow> string \<Rightarrow> string \<Rightarrow> bool"
  cr_PSS :: "'r \<Rightarrow> crypto_hash \<Rightarrow> string \<Rightarrow> string \<Rightarrow> bool"
  cr_ECDSA :: "'e \<Rightarrow> string \<Rightarrow> nat \<Rightarrow> nat \<Rightarrow> bool"
  cr_Sum384 :: "string \<Rightarrow> string"
  cr_Sum512 :: "string \<Rightarrow> string"

(*src internal/platform/authn/jwt.go#digestFor*)
definition digestFor :: "('r, 'e) crypto \<Rightarrow> crypto_hash \<Rightarrow> string \<Rightarrow> string" where
  "digestFor cr h input = (case h of SHA256 \<Rightarrow> Sum256 input | SHA384 \<Rightarrow> cr_Sum384 cr input | SHA512 \<Rightarrow> cr_Sum512 cr input)"

definition big_int :: "string \<Rightarrow> nat" where "big_int b = foldl (\<lambda>n c. n * 256 + of_char c) 0 b"

(*src internal/platform/authn/jwt.go#verifySignature*)
definition verifySignature ::
  "('r, 'e) crypto \<Rightarrow> ('r, 'e) public_key \<Rightarrow> string \<Rightarrow> crypto_hash \<Rightarrow> string \<Rightarrow> string \<Rightarrow> bool" where
  "verifySignature cr pub alg h input sig = (let digest = digestFor cr h input in
     if HasPrefix alg ''RS'' then (case pub of RSAKey k \<Rightarrow> cr_PKCS1v15 cr k h digest sig | _ \<Rightarrow> False)
     else if HasPrefix alg ''PS'' then (case pub of RSAKey k \<Rightarrow> cr_PSS cr k h digest sig | _ \<Rightarrow> False)
     else if HasPrefix alg ''ES'' then (case pub of
         ECDSAKey bits k \<Rightarrow> (let n = (bits + 7) div 8 in
           length sig = 2 * n \<and> cr_ECDSA cr k digest (big_int (take n sig)) (big_int (drop n sig)))
       | _ \<Rightarrow> False)
     else False)"

section \<open>Verification\<close>

(*src internal/platform/authn/jwt.go#VerifyOptions*)
record VerifyOptions =
  vo_Issuer :: string
  vo_Audience :: string
  vo_ClockSkew :: duration
  vo_RequireNonce :: bool
  vo_ExpectNonce :: string

(*src internal/platform/authn/jwt.go#validateClaims*)
definition validateClaims :: "time \<Rightarrow> Claims \<Rightarrow> VerifyOptions \<Rightarrow> go_error option" where
  "validateClaims t c opts = (let fail = (\<lambda>code. Some (Unauthorized ''authn.Verify'' code));
       skew = (if vo_ClockSkew opts \<le> 0 then 60 * Second else vo_ClockSkew opts)
     in if vo_Issuer opts \<noteq> '''' \<and> cl_Issuer c \<noteq> vo_Issuer opts then fail ''auth.token_issuer_mismatch''
     else if vo_Audience opts \<noteq> '''' \<and> \<not> Audience_Contains (cl_Audience c) (vo_Audience opts) then fail ''auth.token_audience_mismatch''
     else if cl_ExpiresAt c = 0 then fail ''auth.token_no_expiry''
     else if t > AddTime (UnixTime (cl_ExpiresAt c)) skew then fail ''auth.token_expired''
     else if cl_NotBefore c \<noteq> 0 \<and> t < AddTime (UnixTime (cl_NotBefore c)) (- skew) then fail ''auth.token_not_yet_valid''
     else if cl_IssuedAt c \<noteq> 0 \<and> t < AddTime (UnixTime (cl_IssuedAt c)) (- skew) then fail ''auth.token_issued_in_future''
     else if cl_Subject c = '''' then fail ''auth.token_no_subject''
     else if vo_RequireNonce opts \<and> cl_Nonce c = '''' then fail ''auth.token_no_nonce''
     else if vo_RequireNonce opts \<and> vo_ExpectNonce opts \<noteq> '''' \<and> cl_Nonce c \<noteq> vo_ExpectNonce opts then fail ''auth.token_nonce_mismatch''
     else None)"

definition or_malformed :: "string \<Rightarrow> 'a option \<Rightarrow> ('a \<Rightarrow> 'b result) \<Rightarrow> 'b result" where
  "or_malformed code x f = (case x of None \<Rightarrow> Inl (Unauthorized ''authn.Verify'' code) | Some y \<Rightarrow> f y)"

lemma or_malformed_Inr [monad_inv]: "or_malformed code x f = Inr y \<longleftrightarrow> (\<exists>z. x = Some z \<and> f z = Inr y)"
  by (simp add: or_malformed_def split: option.split)

(*src internal/platform/authn/jwt.go#Verify*)
definition Verify ::
  "('r, 'e) crypto \<Rightarrow> time \<Rightarrow> string \<Rightarrow> (string \<Rightarrow> string \<Rightarrow> ('r, 'e) public_key option) \<Rightarrow> VerifyOptions \<Rightarrow> Claims result" where
  "Verify cr now token keys opts = (case Split token CHR ''.'' of
       [p0, p1, p2] \<Rightarrow>
         or_malformed ''auth.token_malformed'' (Option.bind (b64_decode p0) (\<lambda>raw. Option.bind (Unmarshal raw) decode_header)) (\<lambda>h.
         or_malformed ''auth.token_alg_unsupported'' (map_of supportedAlgorithms (hd_Alg h)) (\<lambda>hashAlg.
         or_malformed ''auth.token_malformed'' (b64_decode p1) (\<lambda>payload.
         or_malformed ''auth.token_malformed'' (b64_decode p2) (\<lambda>sig.
         or_malformed ''auth.token_key_unknown'' (keys (hd_Kid h) (hd_Alg h)) (\<lambda>pub.
         checkR (\<not> verifySignature cr pub (hd_Alg h) hashAlg (p0 @ ''.'' @ p1) sig)
           (Unauthorized ''authn.Verify'' ''auth.token_signature_invalid'') (
         or_malformed ''auth.token_malformed'' (Option.bind (Unmarshal payload) decode_extra) (\<lambda>c.
         failR (validateClaims now c opts) (Inr c))))))))
     | _ \<Rightarrow> Inl (Unauthorized ''authn.Verify'' ''auth.token_malformed''))"

text \<open>Read without a check of the signature, to choose the keys.\<close>

(*src internal/platform/authn/jwt.go#UnsafeDecodeClaims*)
definition UnsafeDecodeClaims :: "string \<Rightarrow> Claims result" where
  "UnsafeDecodeClaims token = (case Split token CHR ''.'' of
       [p0, p1, p2] \<Rightarrow> (case b64_decode p1 of None \<Rightarrow> Inl (PlainError ''authn: decoding payload'')
         | Some raw \<Rightarrow> (case Option.bind (Unmarshal raw) decode_claims of
             None \<Rightarrow> Inl (PlainError ''authn: parsing payload'') | Some c \<Rightarrow> Inr c))
     | _ \<Rightarrow> Inl (PlainError ''authn: not a JWT''))"

section \<open>What a verified token says\<close>

lemma validateClaims_None:
  "validateClaims t c opts = None \<longleftrightarrow>
     (let skew = (if vo_ClockSkew opts \<le> 0 then 60 * Second else vo_ClockSkew opts) in
      (vo_Issuer opts = '''' \<or> cl_Issuer c = vo_Issuer opts) \<and>
      (vo_Audience opts = '''' \<or> vo_Audience opts \<in> set (cl_Audience c)) \<and>
      cl_ExpiresAt c \<noteq> 0 \<and> t \<le> AddTime (UnixTime (cl_ExpiresAt c)) skew \<and>
      (cl_NotBefore c = 0 \<or> AddTime (UnixTime (cl_NotBefore c)) (- skew) \<le> t) \<and>
      (cl_IssuedAt c = 0 \<or> AddTime (UnixTime (cl_IssuedAt c)) (- skew) \<le> t) \<and>
      cl_Subject c \<noteq> '''' \<and>
      (\<not> vo_RequireNonce opts \<or> (cl_Nonce c \<noteq> '''' \<and> (vo_ExpectNonce opts = '''' \<or> cl_Nonce c = vo_ExpectNonce opts))))"
  by (simp add: validateClaims_def Let_def Audience_Contains_def list_ex_iff not_less)

lemma Verify_Inr:
  assumes "Verify cr now token keys opts = Inr c"
  obtains p0 p1 p2 raw h hashAlg sig pub payload v where
    "Split token CHR ''.'' = [p0, p1, p2]" "b64_decode p0 = Some raw" "Option.bind (Unmarshal raw) decode_header = Some h"
    "map_of supportedAlgorithms (hd_Alg h) = Some hashAlg" "b64_decode p1 = Some payload" "b64_decode p2 = Some sig"
    "keys (hd_Kid h) (hd_Alg h) = Some pub" "verifySignature cr pub (hd_Alg h) hashAlg (p0 @ ''.'' @ p1) sig"
    "Unmarshal payload = Some v" "decode_extra v = Some c" "validateClaims now c opts = None"
proof -
  obtain p0 p1 p2 where s: "Split token CHR ''.'' = [p0, p1, p2]"
    using assms by (auto simp: Verify_def split: list.splits)
  note v = assms [unfolded Verify_def s list.case or_malformed_Inr checkR_Inr failR_Inr]
  show thesis using v by (auto simp: bind_eq_Some_conv intro: that [OF s])
qed

lemma Split_concat: "Split s c = p # ps \<Longrightarrow> s = p @ concat (map (\<lambda>q. c # q) ps)"
proof (induction s arbitrary: p ps)
  case (Cons x s)
  obtain q qs where q: "Split s c = q # qs" by (cases "Split s c") simp_all
  have s: "s = q @ concat (map (\<lambda>q. c # q) qs)" by (rule Cons.IH [OF q])
  show ?case
  proof (cases "x = c")
    case True
    then have "p = []" "ps = q # qs" using Cons.prems q by simp_all
    then show ?thesis using True by (simp add: s [symmetric])
  next
    case False
    then have "p = x # q" "ps = qs" using Cons.prems q by simp_all
    then show ?thesis by (simp add: s [symmetric])
  qed
qed simp

lemma Split_joins: "Split s c = [a, b, d] \<Longrightarrow> s = a @ c # b @ c # d"
  using Split_concat [of s c a "[b, d]"] by simp

lemma supported_family: "map_of supportedAlgorithms alg = Some h \<Longrightarrow>
    alg \<noteq> ''none'' \<and> \<not> HasPrefix alg ''HS'' \<and> (HasPrefix alg ''RS'' \<or> HasPrefix alg ''PS'' \<or> HasPrefix alg ''ES'')"
  by (auto simp: supportedAlgorithms_def HasPrefix_def split: if_splits dest!: map_of_SomeD)

text \<open>C18: A token is accepted only if the issuer signed it and its claims hold now. Whatever the token, it
  has three parts; the algorithm its decoded header names is on the allowlist, which has neither
  \<^verbatim>\<open>none\<close> nor an HMAC; the key that the source has for the key identifier and the algorithm of that
  header verifies the third part over exactly the bytes of the first two; the claims are those of the
  second part; and issuer and audience are the ones configured, if any, the token has an expiry and a
  subject, the expiry has not passed, the times it declares for not-before and issued-at have come, all
  within the skew, and a required nonce is there and is the expected one. (The issuer, the
  audience and the other times are not required unless configured or declared, although the comment on
  the package and the document on authorization list them as required.)\<close>

theorem Verify_sound:
  assumes "Verify cr now token keys opts = Inr c"
  shows "\<exists>p0 p1 p2 raw h hashAlg pub sig payload.
    Split token CHR ''.'' = [p0, p1, p2] \<and> token = p0 @ ''.'' @ p1 @ ''.'' @ p2 \<and>
    b64_decode p0 = Some raw \<and> Option.bind (Unmarshal raw) decode_header = Some h \<and>
    (hd_Alg h, hashAlg) \<in> set supportedAlgorithms \<and> hd_Alg h \<noteq> ''none'' \<and> \<not> HasPrefix (hd_Alg h) ''HS'' \<and>
    keys (hd_Kid h) (hd_Alg h) = Some pub \<and> b64_decode p2 = Some sig \<and>
    verifySignature cr pub (hd_Alg h) hashAlg (p0 @ ''.'' @ p1) sig \<and>
    b64_decode p1 = Some payload \<and> Option.bind (Unmarshal payload) decode_claims = Some c \<and>
    (vo_Issuer opts = '''' \<or> cl_Issuer c = vo_Issuer opts) \<and> (vo_Audience opts = '''' \<or> vo_Audience opts \<in> set (cl_Audience c)) \<and>
    (let skew = (if vo_ClockSkew opts \<le> 0 then 60 * Second else vo_ClockSkew opts) in
       cl_ExpiresAt c \<noteq> 0 \<and> now \<le> AddTime (UnixTime (cl_ExpiresAt c)) skew \<and>
       (cl_NotBefore c = 0 \<or> AddTime (UnixTime (cl_NotBefore c)) (- skew) \<le> now) \<and>
       (cl_IssuedAt c = 0 \<or> AddTime (UnixTime (cl_IssuedAt c)) (- skew) \<le> now)) \<and>
    cl_Subject c \<noteq> '''' \<and>
    (vo_RequireNonce opts \<longrightarrow> cl_Nonce c \<noteq> '''' \<and> (vo_ExpectNonce opts = '''' \<or> cl_Nonce c = vo_ExpectNonce opts))"
proof (rule Verify_Inr [OF assms])
  fix p0 p1 p2 raw h hashAlg sig pub payload v
  assume v: "Split token CHR ''.'' = [p0, p1, p2]" "map_of supportedAlgorithms (hd_Alg h) = Some hashAlg" "b64_decode p1 = Some payload"
    "b64_decode p2 = Some sig" "keys (hd_Kid h) (hd_Alg h) = Some pub"
    "verifySignature cr pub (hd_Alg h) hashAlg (p0 @ ''.'' @ p1) sig" "Unmarshal payload = Some v" "decode_extra v = Some c"
    "validateClaims now c opts = None" "b64_decode p0 = Some raw" "Option.bind (Unmarshal raw) decode_header = Some h"
  have c: "Option.bind (Unmarshal payload) decode_claims = Some c" using v(7,8) by (simp add: decode_extra_def split: if_splits)
  have t: "token = p0 @ ''.'' @ p1 @ ''.'' @ p2" using Split_joins [OF v(1)] by simp
  note a = supported_family [OF v(2)] and m = map_of_SomeD [OF v(2)] and k = v(9) [unfolded validateClaims_None Let_def]
  show ?thesis unfolding Let_def
    by (rule exI [of _ p0], rule exI [of _ p1], rule exI [of _ p2], rule exI [of _ raw], rule exI [of _ h],
        rule exI [of _ hashAlg], rule exI [of _ pub], rule exI [of _ sig], rule exI [of _ payload])
      (intro conjI t m v(1,3-6,10,11) c conjunct1 [OF a] conjunct1 [OF conjunct2 [OF a]]; use k in blast)
qed

definition sample_crypto :: "(unit, unit) crypto" where
  "sample_crypto = \<lparr>cr_PKCS1v15 = (\<lambda>_ _ _ _. False), cr_PSS = (\<lambda>_ _ _ _. False), cr_ECDSA = (\<lambda>_ _ r s. r = 0 \<and> s = 0),
     cr_Sum384 = id, cr_Sum512 = id\<rparr>"

definition sample_options :: VerifyOptions where
  "sample_options = \<lparr>vo_Issuer = '''', vo_Audience = '''', vo_ClockSkew = 0, vo_RequireNonce = False, vo_ExpectNonce = ''''\<rparr>"

definition sample_token :: string where
  "sample_token = ''eyJhbGciOiJFUzI1NiJ9'' @ ''.'' @ ''eyJzdWIiOiJ1IiwiZXhwIjo5fQ'' @ ''.''"

definition sample_claims :: Claims where
  "sample_claims = \<lparr>cl_Issuer = '''', cl_Subject = ''u'', cl_Audience = [], cl_ExpiresAt = 9, cl_NotBefore = 0, cl_IssuedAt = 0,
     cl_ID = '''', cl_AuthTime = 0, cl_Nonce = '''', cl_AMR = [], cl_ACR = '''', cl_Email = '''', cl_Name = '''',
     cl_Extra = [(''sub'', JString ''u''), (''exp'', JNumber ''9'')]\<rparr>"

definition sample_header_json :: string where
  "sample_header_json = CHR ''{'' # CHR 0x22 # ''alg'' @ CHR 0x22 # CHR '':'' # CHR 0x22 # ''ES256'' @ [CHR 0x22, CHR ''}'']"

definition sample_payload_json :: string where
  "sample_payload_json = CHR ''{'' # CHR 0x22 # ''sub'' @ CHR 0x22 # CHR '':'' # CHR 0x22 # ''u'' @ CHR 0x22 # CHR '','' #
     CHR 0x22 # ''exp'' @ [CHR 0x22, CHR '':'', CHR ''9'', CHR ''}'']"

lemma sample_b64:
  "b64_decode ''eyJhbGciOiJFUzI1NiJ9'' = Some sample_header_json"
  "b64_decode ''eyJzdWIiOiJ1IiwiZXhwIjo5fQ'' = Some sample_payload_json"
  by (simp_all add: b64_decode_def b64_val_def Let_def sample_header_json_def sample_payload_json_def char_eq_iff_code)

lemma sample_json:
  "Unmarshal sample_header_json = Some (JObject [(''alg'', JString ''ES256'')])"
  "Unmarshal sample_payload_json = Some (JObject [(''sub'', JString ''u''), (''exp'', JNumber ''9'')])"
  by (simp_all add: Unmarshal_def json_eval lex_number_def lex_int_def lex_digits1_def lex_frac_def lex_exp_def is_digit_def
      sample_header_json_def sample_payload_json_def)

lemma sample_accepted:
  "Verify sample_crypto 0 sample_token (\<lambda>_ _. Some (ECDSAKey 0 ())) sample_options = Inr sample_claims"
proof -
  have s: "Split sample_token CHR ''.'' = [''eyJhbGciOiJFUzI1NiJ9'', ''eyJzdWIiOiJ1IiwiZXhwIjo5fQ'', []]"
    by (simp add: sample_token_def)
  have h: "decode_header (JObject [(''alg'', JString ''ES256'')]) = Some \<lparr>hd_Alg = ''ES256'', hd_Typ = '''', hd_Kid = ''''\<rparr>"
    by code_simp
  have c: "decode_claims (JObject [(''sub'', JString ''u''), (''exp'', JNumber ''9'')]) = Some sample_claims"
    by code_simp
  have nine: "Itoa 9 = ''9''" by code_simp
  have x: "decode_extra (JObject [(''sub'', JString ''u''), (''exp'', JNumber ''9'')]) = Some sample_claims"
    using representable_int [of 9] nine by (simp add: decode_extra_def c)
  have a: "map_of supportedAlgorithms ''ES256'' = Some SHA256" by code_simp
  have n: "b64_decode [] = Some []" by code_simp
  have g: "verifySignature sample_crypto (ECDSAKey 0 ()) ''ES256'' SHA256 m []" for m
    by (simp add: verifySignature_def sample_crypto_def HasPrefix_def Let_def big_int_def)
  have v: "validateClaims 0 sample_claims sample_options = None" by code_simp
  show ?thesis
    by (simp add: Verify_def s sample_b64 sample_json h a n g x v or_malformed_def checkR_def failR_def)
qed

theorem Verify_sound_witness:
  "\<exists>p0 p1 p2 (h :: Header) hashAlg pub sig payload.
    sample_token = p0 @ ''.'' @ p1 @ ''.'' @ p2 \<and> (hd_Alg h, hashAlg) \<in> set supportedAlgorithms \<and>
    verifySignature sample_crypto pub (hd_Alg h) hashAlg (p0 @ ''.'' @ p1) sig \<and> b64_decode p2 = Some sig \<and>
    b64_decode p1 = Some payload \<and> Option.bind (Unmarshal payload) decode_claims = Some sample_claims"
  using Verify_sound [OF sample_accepted] by (elim exE conjE) (intro exI conjI, assumption+)

end
