(* ===== verification/Identity.thy ===== *)
theory Identity
  imports Abac Hash Base64 GoTime
begin

text \<open>
  \<^verbatim>\<open>internal/identity/domain/principal.go\<close>: accounts, role assignments, API keys and the mapping of the
  identity provider's groups. Random bytes, the clock and the generated identifiers are arguments.
  \<^verbatim>\<open>strings.ToLower\<close> goes beyond ASCII by the tables of Unicode here, so it is the argument \<open>lower\<close>.
\<close>

section \<open>Accounts and grants\<close>

(*src internal/identity/domain/principal.go#Principal*)
record Account =
  ip_ID :: PrincipalID
  ip_TenantID :: TenantID
  ip_Kind :: PrincipalKind
  ip_Issuer :: string
  ip_Subject :: string
  ip_Email :: string
  ip_DisplayName :: string
  ip_Status :: string
  ip_Attributes :: "(string \<times> json) list"
  ip_LastLoginAt :: "time option"
  ip_CreatedAt :: time
  ip_UpdatedAt :: time
  ip_Version :: int

(*src internal/identity/domain/principal.go#Principal.Active*)
definition Account_Active :: "Account \<Rightarrow> bool" where "Account_Active p \<longleftrightarrow> ip_Status p = ''ACTIVE''"

(*src internal/identity/domain/principal.go#NewPrincipal*)
definition NewPrincipal ::
  "time \<Rightarrow> PrincipalID \<Rightarrow> TenantID \<Rightarrow> PrincipalKind \<Rightarrow> string \<Rightarrow> string \<Rightarrow> string \<Rightarrow> string \<Rightarrow> Account result" where
  "NewPrincipal clock pid t kind issuer subject email display =
     (if issuer = '''' \<or> subject = '''' then Inl (Invalid ''identity.NewPrincipal'' ''principal.identity_required'')
      else let now = Now clock in Inr
        \<lparr>ip_ID = pid, ip_TenantID = t, ip_Kind = kind, ip_Issuer = issuer, ip_Subject = subject, ip_Email = email,
         ip_DisplayName = display, ip_Status = ''ACTIVE'', ip_Attributes = [], ip_LastLoginAt = None, ip_CreatedAt = now,
         ip_UpdatedAt = now, ip_Version = 1\<rparr>)"

(*src internal/identity/domain/principal.go#RoleAssignment*)
record RoleAssignment =
  ra_ID :: string
  ra_TenantID :: TenantID
  ra_PrincipalID :: PrincipalID
  ra_ProjectID :: string
  ra_Role :: Role
  ra_GrantedBy :: PrincipalID
  ra_GrantedAt :: time
  ra_ExpiresAt :: "time option"

(*src internal/identity/domain/principal.go#RoleAssignment.Active*)
definition Assignment_Active :: "RoleAssignment \<Rightarrow> time \<Rightarrow> bool" where
  "Assignment_Active r now = (case ra_ExpiresAt r of None \<Rightarrow> True | Some t \<Rightarrow> now < t)"

section \<open>API keys\<close>

(*src internal/identity/domain/principal.go#APIKey*)
record APIKey =
  ak_ID :: string
  ak_TenantID :: TenantID
  ak_KeyID :: string
  ak_PrincipalID :: PrincipalID
  ak_Name :: string
  ak_SecretHash :: string
  ak_Permissions :: "string list"
  ak_ProjectID :: string
  ak_CreatedBy :: PrincipalID
  ak_CreatedAt :: time
  ak_ExpiresAt :: "time option"
  ak_RevokedAt :: "time option"
  ak_LastUsedAt :: "time option"

(*src internal/identity/domain/principal.go#keyPrefix*)
definition keyPrefix :: string where "keyPrefix = ''sf''"

(*src internal/identity/domain/principal.go#hashSecret*)
definition hashSecret :: "string \<Rightarrow> string" where
  "hashSecret secret = ''sha256:'' @ EncodeToString (Sum256 (''specforge/apikey/v1|'' @ secret))"

text \<open>The random bytes are an argument; the encoding has no padding to trim.\<close>

(*src internal/identity/domain/principal.go#randomToken*)
definition randomToken :: "string \<Rightarrow> string" where
  "randomToken b = rev (dropWhile (\<lambda>c. c = CHR ''='') (rev (b64_encode b)))"

definition key_text :: "string \<Rightarrow> string \<Rightarrow> string \<Rightarrow> string" where
  "key_text env keyID secret = keyPrefix @ ''_'' @ env @ ''_'' @ keyID @ ''_'' @ secret"

text \<open>The two random strings have 6 and 24 bytes.\<close>

(*src internal/identity/domain/principal.go#NewAPIKey*)
definition NewAPIKey ::
  "time \<Rightarrow> string \<times> string \<Rightarrow> string \<Rightarrow> TenantID \<Rightarrow> PrincipalID \<Rightarrow> string \<Rightarrow> string \<Rightarrow> string \<Rightarrow> string list \<Rightarrow> PrincipalID \<Rightarrow>
   time option \<Rightarrow> (APIKey \<times> string) result" where
  "NewAPIKey clock rnd kid t owner name env projectID permissions by' expiresAt = (let op = ''identity.NewAPIKey'' in
     if name = '''' then Inl (Invalid op ''apikey.name_required'')
     else case FromNames permissions of
       Inl _ \<Rightarrow> Inl (Invalid op ''apikey.permissions_invalid'')
     | Inr held \<Rightarrow>
         if list_ex (\<lambda>n. case ParsePermission n of Inr p \<Rightarrow> Has held p | Inl _ \<Rightarrow> False) ApprovalPermissionNames
         then Inl (Forbidden op ''sod.violation'')
         else (case expiresAt of
             None \<Rightarrow> Inl (Invalid op ''apikey.expiry_required'')
           | Some expiry \<Rightarrow>
               if expiry > AddYears 1 clock then Inl (Invalid op ''apikey.expiry_too_far'')
               else let keyID = randomToken (fst rnd); secret = randomToken (snd rnd) in Inr
                 (\<lparr>ak_ID = kid, ak_TenantID = t, ak_KeyID = keyID, ak_PrincipalID = owner, ak_Name = name,
                   ak_SecretHash = hashSecret secret, ak_Permissions = permissions, ak_ProjectID = projectID, ak_CreatedBy = by',
                   ak_CreatedAt = Now clock, ak_ExpiresAt = Some expiry, ak_RevokedAt = None, ak_LastUsedAt = None\<rparr>,
                  key_text env keyID secret)))"

(*src internal/identity/domain/principal.go#ParseAPIKey*)
definition ParseAPIKey :: "string \<Rightarrow> (string \<times> string) option" where
  "ParseAPIKey presented = (case Split presented CHR ''_'' of
       [prefix, env, keyID, secret] \<Rightarrow> if prefix \<noteq> keyPrefix then None else Some (keyID, secret)
     | _ \<Rightarrow> None)"

(*src internal/identity/domain/principal.go#APIKey.Verify*)
definition APIKey_Verify :: "APIKey \<Rightarrow> string \<Rightarrow> time \<Rightarrow> go_error option" where
  "APIKey_Verify k secret now = (let op = ''identity.VerifyAPIKey'' in
     if hashSecret secret \<noteq> ak_SecretHash k then Some (Unauthorized op ''auth.api_key_invalid'')
     else if ak_RevokedAt k \<noteq> None then Some (Unauthorized op ''auth.api_key_revoked'')
     else case ak_ExpiresAt k of
       None \<Rightarrow> None
     | Some t \<Rightarrow> if now > t then Some (Unauthorized op ''auth.api_key_expired'') else None)"

section \<open>Groups of the identity provider\<close>

(*src internal/identity/domain/principal.go#IdPRoleMapping*)
record IdPRoleMapping =
  im_ID :: string
  im_TenantID :: TenantID
  im_IdPGroup :: string
  im_Role :: Role
  im_ProjectKey :: string
  im_MappingVersion :: int
  im_CreatedBy :: PrincipalID
  im_CreatedAt :: time

definition grant_of :: "IdPRoleMapping \<Rightarrow> Grant" where
  "grant_of m = \<lparr>gr_Role = im_Role m, gr_ProjectID = im_ProjectKey m\<rparr>"

definition grant_key :: "IdPRoleMapping \<Rightarrow> string" where "grant_key m = im_Role m @ ''|'' @ im_ProjectKey m"

fun add_grants :: "IdPRoleMapping list \<Rightarrow> string list \<times> Grant list \<Rightarrow> string list \<times> Grant list" where
  "add_grants [] acc = acc"
| "add_grants (m # ms) (seen, grants) =
     (if grant_key m \<in> set seen then add_grants ms (seen, grants)
      else add_grants ms (grant_key m # seen, grants @ [grant_of m]))"

(*src internal/identity/domain/principal.go#MapGroups*)
definition MapGroups :: "(string \<Rightarrow> string) \<Rightarrow> string list \<Rightarrow> IdPRoleMapping list \<Rightarrow> Grant list" where
  "MapGroups lower groups mappings =
     snd (foldl (\<lambda>acc g. add_grants (filter (\<lambda>m. lower (im_IdPGroup m) = lower g) mappings) acc) ([], []) groups)"

section \<open>What the groups of a user grant\<close>

definition key_of_grant :: "Grant \<Rightarrow> string" where "key_of_grant g = gr_Role g @ ''|'' @ gr_ProjectID g"

lemma key_of_grant_of: "key_of_grant (grant_of m) = grant_key m"
  by (simp add: key_of_grant_def grant_of_def grant_key_def)

text \<open>\<open>M\<close> are the mappings that were looked at so far.\<close>

definition listed :: "string list \<times> Grant list \<Rightarrow> IdPRoleMapping set \<Rightarrow> bool" where
  "listed = (\<lambda>(seen, grants) M. set seen = key_of_grant ` set grants \<and> distinct (map key_of_grant grants) \<and>
     set grants \<subseteq> grant_of ` M \<and> grant_key ` M \<subseteq> set seen)"

lemma listed_add: "listed acc M \<Longrightarrow> listed (add_grants ms acc) (M \<union> set ms)"
proof (induction ms acc arbitrary: M rule: add_grants.induct)
  case (2 m ms seen grants)
  show ?case
  proof (cases "grant_key m \<in> set seen")
    case True
    then have "listed (seen, grants) (insert m M)" using 2(3) by (auto simp: listed_def)
    from 2(1) [OF True this] show ?thesis using True by simp
  next
    case False
    then have "listed (grant_key m # seen, grants @ [grant_of m]) (insert m M)"
      using 2(3) by (auto simp: listed_def key_of_grant_of)
    from 2(2) [OF False this] show ?thesis using False by simp
  qed
qed simp

lemma listed_groups: "listed acc M \<Longrightarrow>
    listed (foldl (\<lambda>acc g. add_grants (filter (\<lambda>m. lower (im_IdPGroup m) = lower g) ms) acc) acc gs)
      (M \<union> {m \<in> set ms. \<exists>g \<in> set gs. lower (im_IdPGroup m) = lower g})"
proof (induction gs arbitrary: acc M)
  case (Cons g gs)
  have "M \<union> {m \<in> set ms. \<exists>g \<in> set (g # gs). lower (im_IdPGroup m) = lower g} =
      M \<union> set (filter (\<lambda>m. lower (im_IdPGroup m) = lower g) ms) \<union> {m \<in> set ms. \<exists>g \<in> set gs. lower (im_IdPGroup m) = lower g}"
    by auto
  then show ?case using Cons.IH [OF listed_add [OF Cons.prems, of "filter (\<lambda>m. lower (im_IdPGroup m) = lower g) ms"]] by simp
qed simp

lemma grant_key_inj: "CHR ''|'' \<notin> set (im_Role m) \<Longrightarrow> CHR ''|'' \<notin> set (im_Role m') \<Longrightarrow>
    grant_key m = grant_key m' \<Longrightarrow> grant_of m = grant_of m'"
proof -
  assume a: "CHR ''|'' \<notin> set (im_Role m)" "CHR ''|'' \<notin> set (im_Role m')" "grant_key m = grant_key m'"
  have t: "takeWhile (\<lambda>c. c \<noteq> CHR ''|'') (r @ CHR ''|'' # k) = r \<and> dropWhile (\<lambda>c. c \<noteq> CHR ''|'') (r @ CHR ''|'' # k) = CHR ''|'' # k"
    if "CHR ''|'' \<notin> set r" for r k :: string
    using that by (induction r) auto
  have e: "im_Role m @ CHR ''|'' # im_ProjectKey m = im_Role m' @ CHR ''|'' # im_ProjectKey m'"
    using a(3) by (simp add: grant_key_def)
  have "im_Role m = im_Role m'" "CHR ''|'' # im_ProjectKey m = CHR ''|'' # im_ProjectKey m'"
    using t [OF a(1), of "im_ProjectKey m", unfolded e] t [OF a(2), of "im_ProjectKey m'"] by (iprover intro: trans sym)+
  then show ?thesis by (simp add: grant_of_def)
qed

lemma role_no_bar: "Role_Valid r \<Longrightarrow> CHR ''|'' \<notin> set r"
proof -
  have "list_all (\<lambda>(r, ps). CHR ''|'' \<notin> set r) rolePermissions"
    by (simp add: rolePermissions_def role_defs)
  then show "Role_Valid r \<Longrightarrow> CHR ''|'' \<notin> set r"
    by (auto simp: Role_Valid_def list_all_iff dest!: map_of_SomeD)
qed

text \<open>C15: The groups of a user grant exactly the roles their mappings name, each role and scope once, in
  whatever case the groups are spelled; a group nobody mapped grants nothing.\<close>

theorem MapGroups_exact:
  assumes "list_all (\<lambda>m. Role_Valid (im_Role m)) mappings"
  shows "set (MapGroups lower groups mappings) =
      {\<lparr>gr_Role = im_Role m, gr_ProjectID = im_ProjectKey m\<rparr> | m g. m \<in> set mappings \<and> g \<in> set groups \<and> lower (im_IdPGroup m) = lower g} \<and>
    distinct (MapGroups lower groups mappings)"
proof -
  let ?M = "{m \<in> set mappings. \<exists>g \<in> set groups. lower (im_IdPGroup m) = lower g}"
  obtain seen grants where f: "foldl (\<lambda>acc g. add_grants (filter (\<lambda>m. lower (im_IdPGroup m) = lower g) mappings) acc) ([], []) groups = (seen, grants)"
    by fastforce
  then have r: "MapGroups lower groups mappings = grants" by (simp add: MapGroups_def)
  have "listed ([], []) {}" by (simp add: listed_def)
  then have "listed (seen, grants) ?M" using listed_groups [of "([], [])" "{}" lower mappings groups] f by simp
  then have m: "set seen = key_of_grant ` set grants" "distinct (map key_of_grant grants)" "set grants \<subseteq> grant_of ` ?M" "grant_key ` ?M \<subseteq> set seen"
    unfolding listed_def prod.case by blast+
  have "grant_of ` ?M \<subseteq> set grants"
  proof safe
    fix m g assume a: "m \<in> set mappings" "g \<in> set groups" "lower (im_IdPGroup m) = lower g"
    then have "grant_key m \<in> key_of_grant ` set grants" using m(1,4) by blast
    then obtain x where x: "x \<in> set grants" "grant_key m = key_of_grant x" by blast
    then obtain m' where "m' \<in> ?M" "x = grant_of m'" using m(3) by blast
    then have m': "m' \<in> ?M" "grant_of m' \<in> set grants" "grant_key m = grant_key m'" using x by (simp_all add: key_of_grant_of)
    then have "grant_of m = grant_of m'"
      using assms a(1) by (intro grant_key_inj role_no_bar) (auto simp: list_all_iff)
    then show "grant_of m \<in> set grants" using m'(2) by simp
  qed
  then have "set (MapGroups lower groups mappings) =
      {\<lparr>gr_Role = im_Role m, gr_ProjectID = im_ProjectKey m\<rparr> | m g. m \<in> set mappings \<and> g \<in> set groups \<and> lower (im_IdPGroup m) = lower g}"
    using m(3) unfolding r by (auto simp: grant_of_def)
  moreover have "distinct (MapGroups lower groups mappings)" unfolding r using m(2) by (simp add: distinct_map)
  ultimately show ?thesis by blast
qed

section \<open>Minted keys\<close>

lemma Split_length: "length (Split s c) = Suc (count_list s c)"
proof (induction s)
  case (Cons x s)
  obtain p ps where "Split s c = p # ps" by (cases "Split s c") simp_all
  then show ?case using Cons by simp
qed simp

lemma Split_part: "c \<notin> set a \<Longrightarrow> Split (a @ c # s) c = a # Split s c"
  by (induction a) auto

lemma Split_alone: "c \<notin> set a \<Longrightarrow> Split a c = [a]"
  by (induction a) auto

lemma Parse_key_text: "ParseAPIKey (key_text env keyID secret) =
    (if CHR ''_'' \<in> set (env @ keyID @ secret) then None else Some (keyID, secret))"
proof (cases "CHR ''_'' \<in> set (env @ keyID @ secret)")
  case True
  then have "count_list (env @ keyID @ secret) CHR ''_'' \<noteq> 0" by (simp add: count_list_0_iff)
  then have "length (Split (key_text env keyID secret) CHR ''_'') > 4"
    by (auto simp: Split_length key_text_def keyPrefix_def)
  then show ?thesis using True by (auto simp: ParseAPIKey_def split: list.splits)
next
  case False
  then have "Split (key_text env keyID secret) CHR ''_'' = [keyPrefix, env, keyID, secret]"
    by (simp add: key_text_def Split_part Split_alone keyPrefix_def)
  then show ?thesis using False by (simp add: ParseAPIKey_def)
qed

lemma ApprovalPermissionNames_all:
  "(\<exists>n \<in> set ApprovalPermissionNames. case ParsePermission n of Inr p \<Rightarrow> Has held p | Inl _ \<Rightarrow> False) \<longleftrightarrow>
   (\<exists>p. IsApprovalPermission p \<and> Has held p)"
proof -
  have "set ApprovalPermissionNames = Permission_String ` {p. IsApprovalPermission p}"
    by (auto simp: ApprovalPermissionNames_def Names_def set_all_permissions IsApprovalPermission_def Has_bit)
  then show ?thesis by (auto simp: Parse_String IsApprovalPermission_def Has_bit split: sum.splits)
qed

text \<open>C14: What a key can be minted with. It holds no permission to approve anything, expires within a year,
  and its secret opens it until then; but the text handed out is read back only when neither the environment
  nor the two random parts have an underscore, which their alphabet has.\<close>

theorem minted_key:
  assumes "NewAPIKey clock rnd kid t owner name env projectID permissions by' expiresAt = Inr (k, presented)"
  shows "\<exists>held expiry. FromNames permissions = Inr held \<and> \<not> (\<exists>p. IsApprovalPermission p \<and> Has held p) \<and>
    ak_ExpiresAt k = Some expiry \<and> expiry \<le> AddYears 1 clock \<and> ak_Permissions k = permissions \<and>
    (\<forall>now. APIKey_Verify k (randomToken (snd rnd)) now = None \<longleftrightarrow> now \<le> expiry) \<and>
    ParseAPIKey presented = (if CHR ''_'' \<in> set (env @ ak_KeyID k @ randomToken (snd rnd)) then None
      else Some (ak_KeyID k, randomToken (snd rnd)))"
proof -
  obtain held where h: "FromNames permissions = Inr held"
      "\<not> list_ex (\<lambda>n. case ParsePermission n of Inr p \<Rightarrow> Has held p | Inl _ \<Rightarrow> False) ApprovalPermissionNames"
    using assms by (auto simp: NewAPIKey_def Let_def split: sum.splits if_splits)
  obtain expiry where e: "expiresAt = Some expiry" "expiry \<le> AddYears 1 clock"
    using assms h by (auto simp: NewAPIKey_def Let_def split: option.splits if_splits)
  note f = assms [unfolded NewAPIKey_def Let_def h(1) e(1) sum.case option.case]
  show ?thesis
    using f h e ApprovalPermissionNames_all [of held]
    by (intro exI [of _ held] exI [of _ expiry])
      (auto simp: list_ex_iff APIKey_Verify_def Parse_key_text split: if_splits)
qed

section \<open>Sample inputs\<close>

definition sample_random :: "string \<times> string" where
  "sample_random = ([CHR 0xFF, CHR 0xFF, CHR 0xFF, CHR 0xFF, CHR 0xFF, CHR 0xFF], replicate 24 CHR ''a'')"

definition sample_key :: APIKey where
  "sample_key = \<lparr>ak_ID = ''k'', ak_TenantID = ''t'', ak_KeyID = ''________'', ak_PrincipalID = ''p'', ak_Name = ''ci'',
     ak_SecretHash = hashSecret (randomToken (snd sample_random)), ak_Permissions = [''artifact:read''], ak_ProjectID = '''',
     ak_CreatedBy = ''u'', ak_CreatedAt = Now 0, ak_ExpiresAt = Some 0, ak_RevokedAt = None, ak_LastUsedAt = None\<rparr>"

lemma sample_minted: "NewAPIKey 0 sample_random ''k'' ''t'' ''p'' ''ci'' ''prod'' '''' [''artifact:read''] ''u'' (Some 0) =
    Inr (sample_key, key_text ''prod'' ''________'' (randomToken (snd sample_random)))"
proof -
  have f: "FromNames [''artifact:read''] = Inr (add zeroSet ArtifactRead)" by code_simp
  have z: "wf_set zeroSet" by (simp add: wf_set_def zeroSet_def)
  have "\<not> IsApprovalPermission ArtifactRead"
    by (simp add: IsApprovalPermission_iff approvalList_def permission_defs)
  then have "\<not> (\<exists>p. IsApprovalPermission p \<and> Has (add zeroSet ArtifactRead) p)"
    by (auto simp: Has_add [OF z] Has_zero)
  then have n: "\<not> list_ex (\<lambda>n. case ParsePermission n of Inr p \<Rightarrow> Has (add zeroSet ArtifactRead) p | Inl _ \<Rightarrow> False) ApprovalPermissionNames"
    using ApprovalPermissionNames_all [of "add zeroSet ArtifactRead"] by (simp add: list_ex_iff)
  have y: "\<not> 0 > AddYears 1 0" by code_simp
  have r: "randomToken (fst sample_random) = ''________''"
    by (simp add: sample_random_def randomToken_def b64_char_def Let_def)
  show ?thesis by (simp add: NewAPIKey_def f n y r sample_key_def Let_def)
qed

theorem minted_key_witness:
  "\<exists>held. FromNames [''artifact:read''] = Inr held \<and> \<not> (\<exists>p. IsApprovalPermission p \<and> Has held p) \<and>
    (\<forall>now. APIKey_Verify sample_key (randomToken (snd sample_random)) now = None \<longleftrightarrow> now \<le> 0) \<and>
    ParseAPIKey (key_text ''prod'' ''________'' (randomToken (snd sample_random))) = None"
  using minted_key [OF sample_minted] by (auto simp: sample_key_def)

definition sample_mapping :: "string \<Rightarrow> Role \<Rightarrow> IdPRoleMapping" where
  "sample_mapping g r = \<lparr>im_ID = '''', im_TenantID = ''t'', im_IdPGroup = g, im_Role = r, im_ProjectKey = '''', im_MappingVersion = 1,
     im_CreatedBy = '''', im_CreatedAt = 0\<rparr>"

definition sample_mappings :: "IdPRoleMapping list" where
  "sample_mappings = [sample_mapping ''qa-team'' RoleQA, sample_mapping ''ops'' RoleDevOps]"

theorem MapGroups_exact_witness:
  "MapGroups ToLower [''QA-Team'', ''staff''] sample_mappings = [\<lparr>gr_Role = RoleQA, gr_ProjectID = []\<rparr>] \<and>
   set (MapGroups ToLower [''QA-Team'', ''staff''] sample_mappings) =
     {\<lparr>gr_Role = im_Role m, gr_ProjectID = im_ProjectKey m\<rparr> | m g. m \<in> set sample_mappings \<and>
        g \<in> set [''QA-Team'', ''staff''] \<and> ToLower (im_IdPGroup m) = ToLower g}"
proof
  show "MapGroups ToLower [''QA-Team'', ''staff''] sample_mappings = [\<lparr>gr_Role = RoleQA, gr_ProjectID = []\<rparr>]"
    by code_simp
  have "list_all (\<lambda>m. Role_Valid (im_Role m)) sample_mappings" by code_simp
  from MapGroups_exact [OF this] show "set (MapGroups ToLower [''QA-Team'', ''staff''] sample_mappings) =
     {\<lparr>gr_Role = im_Role m, gr_ProjectID = im_ProjectKey m\<rparr> | m g. m \<in> set sample_mappings \<and>
        g \<in> set [''QA-Team'', ''staff''] \<and> ToLower (im_IdPGroup m) = ToLower g}" by blast
qed

end
