(* ===== verification/IdentityRepo.thy ===== *)
theory IdentityRepo
  imports Identity Sql
begin

text \<open>
  \<^verbatim>\<open>internal/identity/infra/postgres.go\<close> on the tables \<^verbatim>\<open>principals\<close>, \<^verbatim>\<open>role_assignments\<close>,
  \<^verbatim>\<open>api_keys\<close> and \<^verbatim>\<open>idp_role_mappings\<close> of the first migration, with their constraints. Every one of
  them has a policy that shows and accepts the rows of the session's tenant only: a session says
  which tenant that is, none for a statement that goes through the pool, and whether the role it runs as
  bypasses the policies and owns the tables. A column of type \<^verbatim>\<open>uuid\<close> takes what the server's input
  function makes of the text, the argument \<open>uuid\<close>; instants are stored to the microsecond.
\<close>

definition pg_time :: "time \<Rightarrow> time" where "pg_time t = t - t mod Microsecond"

definition found :: "go_error \<Rightarrow> (sql_error \<Rightarrow> go_error) \<Rightarrow> sql_error + 'a \<Rightarrow> 'a result" where
  "found missing tr = row_result (\<lambda>err. if IsNoRows err then missing else tr err)"

lemma found_Inr [monad_inv]: "found missing tr q = Inr x \<longleftrightarrow> q = Inr x"
  by (simp add: found_def row_result_Inr)

lemma found_missing: "found missing tr (Inl NoRows) = Inl missing"
  by (simp add: found_def row_result_def IsNoRows_def)

definition unavailable :: "string \<Rightarrow> string \<Rightarrow> sql_error \<Rightarrow> go_error" where
  "unavailable op code err = Wrap (driver_error err) op KindUnavailable code"

section \<open>Accounts\<close>

(*src migrations/0001_platform_foundation.sql:109-124#principals*)
definition account_checks :: "pg_session \<Rightarrow> Account \<Rightarrow> sql_error option" where
  "account_checks sn p = first_error
     [policy sn (ip_TenantID p),
      check_constraint ''principals_kind_check'' (ip_Kind p \<in> {KindUser, KindServiceAccount, KindSystem}),
      check_constraint ''principals_status_check'' (ip_Status p \<in> {''ACTIVE'', ''DISABLED''})]"

definition account_uniques :: "Account list \<Rightarrow> sql_error option" where
  "account_uniques rows = first_error
     [unique_index ''principals_pkey'' (\<lambda>_. True) ip_ID rows,
      unique_index ''principals_issuer_subject'' (\<lambda>_. True) (\<lambda>p. (ip_Issuer p, ip_Subject p)) rows]"

definition tenant_fk :: "string \<Rightarrow> (TenantID \<Rightarrow> bool) \<Rightarrow> TenantID \<Rightarrow> sql_error option" where
  "tenant_fk table tenant_exists t = foreign_key (table @ ''_tenant_id_fkey'') (tenant_exists t)"

(*src internal/identity/infra/postgres.go#Postgres.CreatePrincipal*)
definition CreatePrincipal ::
  "pg_session \<Rightarrow> sql_error option \<Rightarrow> (TenantID \<Rightarrow> bool) \<Rightarrow> Account \<Rightarrow> (go_error, Account list, unit) tx" where
  "CreatePrincipal sn fault tenant_exists p = insertT fault
     (\<lambda>err. if IsUniqueViolation err then Conflict ''identity.CreatePrincipal'' ''principal.already_exists''
        else unavailable ''identity.CreatePrincipal'' ''principal.create_failed'' err)
     (insert_row (account_checks sn) account_uniques (\<lambda>p. tenant_fk ''principals'' tenant_exists (ip_TenantID p))
       (p\<lparr>ip_LastLoginAt := None, ip_CreatedAt := pg_time (ip_CreatedAt p), ip_UpdatedAt := pg_time (ip_UpdatedAt p)\<rparr>))"

(*src internal/identity/infra/postgres.go:99-105#Postgres.UpdatePrincipal*)
definition set_account :: "time \<Rightarrow> Account \<Rightarrow> Account \<Rightarrow> Account" where
  "set_account now x r = r\<lparr>ip_Email := ip_Email x, ip_DisplayName := ip_DisplayName x, ip_Status := ip_Status x,
     ip_Attributes := ip_Attributes x, ip_LastLoginAt := map_option pg_time (ip_LastLoginAt x), ip_UpdatedAt := now,
     ip_Version := ip_Version r + 1\<rparr>"

(*src internal/identity/infra/postgres.go#Postgres.UpdatePrincipal*)
definition UpdatePrincipal :: "pg_session \<Rightarrow> sql_error option \<Rightarrow> time \<Rightarrow> Account \<Rightarrow> (go_error, Account list, Account) tx" where
  "UpdatePrincipal sn fault now p = bindT
     (updateT fault (unavailable ''identity.UpdatePrincipal'' ''principal.update_failed'')
       (Conflict ''identity.UpdatePrincipal'' ''concurrency.stale_version'')
       (update_where (\<lambda>r. sees sn (ip_TenantID r) \<and> current ip_ID ip_Version p r) (set_account now p)
         (\<lambda>_. account_checks sn) account_uniques))
     (\<lambda>_. returnT (p\<lparr>ip_Version := ip_Version p + 1\<rparr>))"

interpretation accounts: versioned_table ip_ID ip_Version set_account
  by unfold_locales (simp_all add: set_account_def)

(*src internal/identity/infra/postgres.go#Postgres.GetPrincipal*)
definition GetPrincipal :: "pg_session \<Rightarrow> sql_error option \<Rightarrow> TenantID \<Rightarrow> PrincipalID \<Rightarrow> Account list \<Rightarrow> Account result" where
  "GetPrincipal sn fault t pid rows = found (NotFound ''identity.GetPrincipal'' ''principal.not_found'')
     (unavailable ''identity.GetPrincipal'' ''principal.read_failed'')
     (query_row fault (\<lambda>p. sees sn (ip_TenantID p) \<and> ip_TenantID p = t \<and> ip_ID p = pid) rows)"

text \<open>Through the pool, in no tenant's session.\<close>

(*src internal/identity/infra/postgres.go#Postgres.FindPrincipalBySubject*)
definition FindPrincipalBySubject :: "bool \<Rightarrow> sql_error option \<Rightarrow> string \<Rightarrow> string \<Rightarrow> Account list \<Rightarrow> Account result" where
  "FindPrincipalBySubject bypass fault issuer subject rows =
     found (NotFound ''identity.FindPrincipalBySubject'' ''principal.not_found'')
       (unavailable ''identity.FindPrincipalBySubject'' ''principal.read_failed'')
       (query_row fault (\<lambda>p. sees (pool bypass) (ip_TenantID p) \<and> ip_Issuer p = issuer \<and> ip_Subject p = subject) rows)"

text \<open>Accounts created at the same instant come in the order of the table.\<close>

(*src internal/identity/infra/postgres.go#Postgres.ListPrincipals*)
definition repo_ListPrincipals :: "pg_session \<Rightarrow> sql_error option \<Rightarrow> TenantID \<Rightarrow> int \<Rightarrow> Account list \<Rightarrow> Account list result" where
  "repo_ListPrincipals sn fault t limit rows = row_result (unavailable ''identity.ListPrincipals'' ''principal.read_failed'')
     (map_sum id (\<lambda>rs. take (nat (if limit \<le> 0 \<or> limit > 500 then 200 else limit)) (sort_key (\<lambda>p. - ip_CreatedAt p) rs))
       (query_rows fault (\<lambda>p. sees sn (ip_TenantID p) \<and> ip_TenantID p = t) rows))"

section \<open>Role assignments\<close>

text \<open>The roles the column accepts.\<close>

(*src migrations/0001_platform_foundation.sql:140-142#role_assignments*)
definition column_roles :: "string list" where
  "column_roles = [''platform_admin'', ''tenant_admin'', ''product_owner'', ''business_analyst'', ''architect'',
     ''developer'', ''qa'', ''devops'', ''security'', ''compliance'', ''auditor'', ''viewer'']"

(*src migrations/0001_platform_foundation.sql:135-150#role_assignments*)
definition assignment_checks :: "pg_session \<Rightarrow> RoleAssignment \<Rightarrow> sql_error option" where
  "assignment_checks sn a = first_error
     [policy sn (ra_TenantID a), check_constraint ''role_assignments_role_check'' (ra_Role a \<in> set column_roles)]"

definition assignment_uniques :: "RoleAssignment list \<Rightarrow> sql_error option" where
  "assignment_uniques rows = first_error
     [unique_index ''role_assignments_pkey'' (\<lambda>_. True) (\<lambda>a. (ra_TenantID a, ra_ID a)) rows,
      unique_index ''role_assignments_unique'' (\<lambda>_. True)
        (\<lambda>a. (ra_TenantID a, ra_PrincipalID a, ra_ProjectID a, ra_Role a)) rows]"

text \<open>The empty project stands for \<^verbatim>\<open>NULL\<close>.\<close>

definition uuid_column :: "(string \<Rightarrow> string option) \<Rightarrow> string \<Rightarrow> sql_error + string" where
  "uuid_column uuid s = (if s = '''' then Inr '''' else case uuid s of Some u \<Rightarrow> Inr u | None \<Rightarrow> Inl (ServerError ''22P02'' ''''))"

(*src internal/identity/infra/postgres.go#Postgres.CreateRoleAssignment*)
definition CreateRoleAssignment ::
  "pg_session \<Rightarrow> sql_error option \<Rightarrow> (string \<Rightarrow> string option) \<Rightarrow> (TenantID \<Rightarrow> bool) \<Rightarrow> RoleAssignment \<Rightarrow>
   (go_error, RoleAssignment list, unit) tx" where
  "CreateRoleAssignment sn fault uuid tenant_exists a = insertT fault
     (\<lambda>err. if IsUniqueViolation err then Conflict ''identity.CreateRoleAssignment'' ''role.already_granted''
        else unavailable ''identity.CreateRoleAssignment'' ''role.grant_failed'' err)
     (\<lambda>rows. case uuid_column uuid (ra_ProjectID a) of Inl err \<Rightarrow> Inl err
       | Inr project \<Rightarrow> insert_row (assignment_checks sn) assignment_uniques
           (\<lambda>a. tenant_fk ''role_assignments'' tenant_exists (ra_TenantID a))
           (a\<lparr>ra_ProjectID := project, ra_GrantedAt := pg_time (ra_GrantedAt a),
             ra_ExpiresAt := map_option pg_time (ra_ExpiresAt a)\<rparr>) rows)"

(*src internal/identity/infra/postgres.go#Postgres.DeleteRoleAssignment*)
definition DeleteRoleAssignment ::
  "pg_session \<Rightarrow> sql_error option \<Rightarrow> TenantID \<Rightarrow> string \<Rightarrow> (go_error, RoleAssignment list, unit) tx" where
  "DeleteRoleAssignment sn fault t rid = execT fault (unavailable ''identity.DeleteRoleAssignment'' ''role.revoke_failed'')
     (\<lambda>rows. Inr ((), filter (\<lambda>a. \<not> (sees sn (ra_TenantID a) \<and> ra_TenantID a = t \<and> ra_ID a = rid)) rows))"

(*src internal/identity/infra/postgres.go#Postgres.ListRoleAssignments*)
definition ListRoleAssignments ::
  "pg_session \<Rightarrow> sql_error option \<Rightarrow> TenantID \<Rightarrow> PrincipalID \<Rightarrow> RoleAssignment list \<Rightarrow> RoleAssignment list result" where
  "ListRoleAssignments sn fault t pid rows = row_result (unavailable ''identity.ListRoleAssignments'' ''role.read_failed'')
     (query_rows fault (\<lambda>a. sees sn (ra_TenantID a) \<and> ra_TenantID a = t \<and> ra_PrincipalID a = pid) rows)"

fun create_assignments ::
  "pg_session \<Rightarrow> sql_error option list \<Rightarrow> (string \<Rightarrow> string option) \<Rightarrow> (TenantID \<Rightarrow> bool) \<Rightarrow> RoleAssignment list \<Rightarrow>
   (go_error, RoleAssignment list, unit) tx" where
  "create_assignments sn faults uuid tenant_exists [] = returnT ()"
| "create_assignments sn faults uuid tenant_exists (a # grants) =
     bindT (CreateRoleAssignment sn (case faults of [] \<Rightarrow> None | f # _ \<Rightarrow> f) uuid tenant_exists a)
       (\<lambda>_. create_assignments sn (drop 1 faults) uuid tenant_exists grants)"

(*src internal/identity/infra/postgres.go#Postgres.ReplaceRoleAssignments*)
definition ReplaceRoleAssignments ::
  "pg_session \<Rightarrow> sql_error option \<Rightarrow> sql_error option list \<Rightarrow> (string \<Rightarrow> string option) \<Rightarrow> (TenantID \<Rightarrow> bool) \<Rightarrow>
   TenantID \<Rightarrow> PrincipalID \<Rightarrow> RoleAssignment list \<Rightarrow> (go_error, RoleAssignment list, unit) tx" where
  "ReplaceRoleAssignments sn fault faults uuid tenant_exists t pid grants =
     bindT (execT fault (unavailable ''identity.ReplaceRoleAssignments'' ''role.replace_failed'')
       (\<lambda>rows. Inr ((), filter (\<lambda>a. \<not> (sees sn (ra_TenantID a) \<and> ra_TenantID a = t \<and> ra_PrincipalID a = pid)) rows)))
       (\<lambda>_. create_assignments sn faults uuid tenant_exists grants)"

section \<open>API keys\<close>

(*src migrations/0001_platform_foundation.sql:175-180#api_keys*)
definition refused_permissions :: "string list" where
  "refused_permissions = [''artifact:approve'', ''prd:approve'', ''spec:approve'', ''exception:grant'', ''designauthority:decide'',
     ''gate:override'', ''deployment:approve'', ''proposal:approve'', ''finding:suppress'']"

(*src migrations/0001_platform_foundation.sql:160-181#api_keys*)
definition key_checks :: "pg_session \<Rightarrow> APIKey \<Rightarrow> sql_error option" where
  "key_checks sn k = first_error
     [policy sn (ak_TenantID k),
      check_constraint ''api_keys_no_approval_permissions'' (set (ak_Permissions k) \<inter> set refused_permissions = {})]"

definition key_uniques :: "APIKey list \<Rightarrow> sql_error option" where
  "key_uniques rows = first_error
     [unique_index ''api_keys_pkey'' (\<lambda>_. True) (\<lambda>k. (ak_TenantID k, ak_ID k)) rows,
      unique_index ''api_keys_key_id_key'' (\<lambda>_. True) ak_KeyID rows]"

(*src internal/identity/infra/postgres.go#Postgres.CreateAPIKey*)
definition CreateAPIKey ::
  "pg_session \<Rightarrow> sql_error option \<Rightarrow> (string \<Rightarrow> string option) \<Rightarrow> (TenantID \<Rightarrow> bool) \<Rightarrow> APIKey \<Rightarrow> (go_error, APIKey list, unit) tx" where
  "CreateAPIKey sn fault uuid tenant_exists k = insertT fault
     (\<lambda>err. if IsCheckViolation err then Forbidden ''identity.CreateAPIKey'' ''sod.violation''
        else if IsUniqueViolation err then Conflict ''identity.CreateAPIKey'' ''apikey.duplicate''
        else unavailable ''identity.CreateAPIKey'' ''apikey.create_failed'' err)
     (\<lambda>rows. case uuid_column uuid (ak_ProjectID k) of Inl err \<Rightarrow> Inl err
       | Inr project \<Rightarrow> insert_row (key_checks sn) key_uniques (\<lambda>k. tenant_fk ''api_keys'' tenant_exists (ak_TenantID k))
           (k\<lparr>ak_ProjectID := project, ak_CreatedAt := pg_time (ak_CreatedAt k),
             ak_ExpiresAt := map_option pg_time (ak_ExpiresAt k), ak_RevokedAt := None, ak_LastUsedAt := None\<rparr>) rows)"

(*src internal/identity/infra/postgres.go#Postgres.FindAPIKey*)
definition FindAPIKey :: "bool \<Rightarrow> sql_error option \<Rightarrow> string \<Rightarrow> APIKey list \<Rightarrow> APIKey result" where
  "FindAPIKey bypass fault keyID rows = found (NotFound ''identity.FindAPIKey'' ''apikey.not_found'')
     (unavailable ''identity.FindAPIKey'' ''apikey.read_failed'')
     (query_row fault (\<lambda>k. sees (pool bypass) (ak_TenantID k) \<and> ak_KeyID k = keyID) rows)"

definition update_keys ::
  "(APIKey \<Rightarrow> bool) \<Rightarrow> (APIKey \<Rightarrow> APIKey) \<Rightarrow> APIKey list \<Rightarrow> sql_error + unit \<times> APIKey list" where
  "update_keys p f rows = Inr ((), map (\<lambda>k. if p k then f k else k) rows)"

(*src internal/identity/infra/postgres.go#Postgres.RevokeAPIKey*)
definition RevokeAPIKey :: "pg_session \<Rightarrow> sql_error option \<Rightarrow> time \<Rightarrow> TenantID \<Rightarrow> string \<Rightarrow> (go_error, APIKey list, unit) tx" where
  "RevokeAPIKey sn fault now t keyID = execT fault (unavailable ''identity.RevokeAPIKey'' ''apikey.revoke_failed'')
     (update_keys (\<lambda>k. sees sn (ak_TenantID k) \<and> ak_TenantID k = t \<and> ak_KeyID k = keyID) (\<lambda>k. k\<lparr>ak_RevokedAt := Some now\<rparr>))"

(*src internal/identity/infra/postgres.go#Postgres.TouchAPIKey*)
definition TouchAPIKey :: "bool \<Rightarrow> sql_error option \<Rightarrow> time \<Rightarrow> string \<Rightarrow> (go_error, APIKey list, unit) tx" where
  "TouchAPIKey bypass fault now keyID = execT fault driver_error
     (update_keys (\<lambda>k. sees (pool bypass) (ak_TenantID k) \<and> ak_KeyID k = keyID) (\<lambda>k. k\<lparr>ak_LastUsedAt := Some now\<rparr>))"

section \<open>Mappings\<close>

definition mapping_uniques :: "IdPRoleMapping list \<Rightarrow> sql_error option" where
  "mapping_uniques rows = first_error
     [unique_index ''idp_role_mappings_pkey'' (\<lambda>_. True) (\<lambda>m. (im_TenantID m, im_ID m)) rows,
      unique_index ''idp_role_mappings_unique'' (\<lambda>_. True)
        (\<lambda>m. (im_TenantID m, im_IdPGroup m, im_Role m, im_ProjectKey m)) rows]"

(*src internal/identity/infra/postgres.go#Postgres.ListIdPMappings*)
definition ListIdPMappings ::
  "pg_session \<Rightarrow> (string \<Rightarrow> string) \<Rightarrow> sql_error option \<Rightarrow> TenantID \<Rightarrow> IdPRoleMapping list \<Rightarrow> IdPRoleMapping list result" where
  "ListIdPMappings sn lower fault t rows = row_result (unavailable ''identity.ListIdPMappings'' ''idpmapping.read_failed'')
     (map_sum id (map (\<lambda>m. m\<lparr>im_Role := lower (im_Role m)\<rparr>))
       (query_rows fault (\<lambda>m. sees sn (im_TenantID m) \<and> im_TenantID m = t) rows))"

fun insert_mappings ::
  "pg_session \<Rightarrow> sql_error option list \<Rightarrow> (TenantID \<Rightarrow> bool) \<Rightarrow> IdPRoleMapping list \<Rightarrow> (go_error, IdPRoleMapping list, unit) tx" where
  "insert_mappings sn faults tenant_exists [] = returnT ()"
| "insert_mappings sn faults tenant_exists (m # ms) =
     bindT (insertT (case faults of [] \<Rightarrow> None | f # _ \<Rightarrow> f) (unavailable ''identity.ReplaceIdPMappings'' ''idpmapping.replace_failed'')
       (insert_row (\<lambda>m. if - (2 ^ 31) \<le> im_MappingVersion m \<and> im_MappingVersion m < 2 ^ 31 then policy sn (im_TenantID m)
            else Some (ServerError ''22003'' '''')) mapping_uniques
         (\<lambda>m. tenant_fk ''idp_role_mappings'' tenant_exists (im_TenantID m)) (m\<lparr>im_CreatedAt := pg_time (im_CreatedAt m)\<rparr>)))
       (\<lambda>_. insert_mappings sn (drop 1 faults) tenant_exists ms)"

text \<open>The application's role has no privilege to delete from this table.\<close>

(*src internal/identity/infra/postgres.go#Postgres.ReplaceIdPMappings*)
definition ReplaceIdPMappings ::
  "pg_session \<Rightarrow> sql_error option \<Rightarrow> sql_error option list \<Rightarrow> (TenantID \<Rightarrow> bool) \<Rightarrow> TenantID \<Rightarrow> IdPRoleMapping list \<Rightarrow>
   (go_error, IdPRoleMapping list, unit) tx" where
  "ReplaceIdPMappings sn fault faults tenant_exists t ms =
     bindT (execT (if se_bypass sn then fault else Some (ServerError ''42501'' ''''))
         (unavailable ''identity.ReplaceIdPMappings'' ''idpmapping.replace_failed'')
         (\<lambda>rows. Inr ((), filter (\<lambda>m. im_TenantID m \<noteq> t) rows)))
       (\<lambda>_. insert_mappings sn faults tenant_exists ms)"

end
