(* ===== verification/IdentityService.thy ===== *)
theory IdentityService
  imports World IdentityRepo Jwt Cache
begin

text \<open>
  \<^verbatim>\<open>internal/identity/app/service.go\<close>: who a request comes from. The accounts and their grants are tables
  beside those of \<open>World\<close>; grants are cached in the process, outside any transaction. As there, the
  \<open>k\<close>-th read of a call sees the committed state \<open>iv_read k\<close>. \<open>iv_bypass\<close> says whether the role the
  service connects as bypasses the row policies.
\<close>

section \<open>State\<close>

record realm =
  rl_world :: world
  rl_accounts :: "Account list"
  rl_roles :: "RoleAssignment list"
  rl_keys :: "APIKey list"
  rl_mappings :: "IdPRoleMapping list"

record id_env =
  iv_bypass :: bool
  iv_lower :: "string \<Rightarrow> string"
  iv_uuid :: "string \<Rightarrow> string option"
  iv_read :: "nat \<Rightarrow> realm"
  iv_order :: "string list \<Rightarrow> string list"
  iv_ttl :: duration
  iv_designAuthority :: "TenantID \<Rightarrow> PrincipalID \<Rightarrow> bool"

type_synonym 'a rtx = "(go_error, realm, 'a) tx"

definition put_world :: "world \<Rightarrow> realm \<Rightarrow> realm" where "put_world s r = r\<lparr>rl_world := s\<rparr>"
definition put_accounts :: "Account list \<Rightarrow> realm \<Rightarrow> realm" where "put_accounts s r = r\<lparr>rl_accounts := s\<rparr>"
definition put_roles :: "RoleAssignment list \<Rightarrow> realm \<Rightarrow> realm" where "put_roles s r = r\<lparr>rl_roles := s\<rparr>"
definition put_keys :: "APIKey list \<Rightarrow> realm \<Rightarrow> realm" where "put_keys s r = r\<lparr>rl_keys := s\<rparr>"
definition put_mappings :: "IdPRoleMapping list \<Rightarrow> realm \<Rightarrow> realm" where "put_mappings s r = r\<lparr>rl_mappings := s\<rparr>"

lemmas realm_put_defs = put_world_def put_accounts_def put_roles_def put_keys_def put_mappings_def

interpretation wrl: component rl_world put_world by unfold_locales (simp_all add: realm_put_defs)
interpretation acc: component rl_accounts put_accounts by unfold_locales (simp_all add: realm_put_defs)
interpretation rol: component rl_roles put_roles by unfold_locales (simp_all add: realm_put_defs)
interpretation kys: component rl_keys put_keys by unfold_locales (simp_all add: realm_put_defs)
interpretation mps: component rl_mappings put_mappings by unfold_locales (simp_all add: realm_put_defs)

(*src internal/platform/db/db.go#DB.Tx*)
definition in_realm :: "env \<Rightarrow> TenantContext \<Rightarrow> 'a rtx \<Rightarrow> realm \<Rightarrow> 'a result \<times> realm" where
  "in_realm ev tc body = TxWith (ev_conn ev 0) default_options (WithTenant (ev_ctx ev) tc) (\<lambda>_. body)"

(*src internal/platform/db/db.go#DB.ReadOnly*)
definition realm_read :: "env \<Rightarrow> id_env \<Rightarrow> TenantContext \<Rightarrow> nat \<Rightarrow> (realm \<Rightarrow> 'a result) \<Rightarrow> 'a result" where
  "realm_read ev iv tc k q =
     fst (TxWith (ev_conn ev (Suc k)) read_options (WithTenant (ev_ctx ev) tc) (\<lambda>_. readT q) (iv_read iv k))"

definition session_of :: "id_env \<Rightarrow> TenantID \<Rightarrow> pg_session" where
  "session_of iv t = \<lparr>se_bypass = iv_bypass iv, se_tenant = t\<rparr>"

definition tenant_known :: "realm \<Rightarrow> TenantID \<Rightarrow> bool" where
  "tenant_known r t = list_ex (\<lambda>x. t_ID x = t) (w_tenants (rl_world r))"

lemma in_realm_Inr [monad_inv]: "in_realm ev tc body r = (Inr x, r') \<longleftrightarrow> opens ev 0 tc \<and> body r = Inr (x, r')"
  by (simp add: in_realm_def TxWith_opens)

lemma in_realm_Inl: "in_realm ev tc body r = (Inl e, r') \<Longrightarrow> r' = r"
  unfolding in_realm_def by (rule TxWith_Inl)

lemma realm_read_Inr [monad_inv]: "realm_read ev iv tc k q = Inr x \<longleftrightarrow> opens ev (Suc k) tc \<and> q (iv_read iv k) = Inr x"
proof -
  obtain r w where r: "TxWith (ev_conn ev (Suc k)) read_options (WithTenant (ev_ctx ev) tc) (\<lambda>_. readT q) (iv_read iv k) = (r, w)"
    by fastforce
  then show ?thesis using TxWith_opens [of ev "Suc k" read_options tc "readT q" "iv_read iv k" x]
    by (cases r) (auto simp: realm_read_def readT_Inr)
qed

section \<open>Cached grants\<close>

(*src internal/identity/app/service.go#encodeGrants*)
definition encodeGrants :: "Grant list \<Rightarrow> string" where
  "encodeGrants grants = Join (map (\<lambda>g. gr_Role g @ ''|'' @ gr_ProjectID g) grants) [CHR 0x0A]"

definition decode_line :: "string \<Rightarrow> Grant result" where
  "decode_line line = (let role = takeWhile (\<lambda>c. c \<noteq> CHR ''|'') line; rest = dropWhile (\<lambda>c. c \<noteq> CHR ''|'') line in
     checkR (rest = []) (PlainError ''identity: malformed cached grant'') (
     bindR (ParseRole role) (\<lambda>r. Inr \<lparr>gr_Role = r, gr_ProjectID = tl rest\<rparr>)))"

fun decode_lines :: "string list \<Rightarrow> Grant list result" where
  "decode_lines [] = Inr []"
| "decode_lines (l # ls) = bindR (decode_line l) (\<lambda>g. bindR (decode_lines ls) (\<lambda>gs. Inr (g # gs)))"

(*src internal/identity/app/service.go#decodeGrants*)
definition decodeGrants :: "string \<Rightarrow> Grant list result" where
  "decodeGrants raw = (if raw = [] then Inr [] else decode_lines (Split raw CHR 0x0A))"

definition grants_key :: "TenantID \<Rightarrow> PrincipalID \<Rightarrow> string" where
  "grants_key t pid = cache_Key t [''grants'', pid]"

text \<open>The clock is read for the cache, for the expiry of the assignments, and for the cache again.\<close>

(*src internal/identity/app/service.go#Service.grantsFor*)
definition grantsFor ::
  "env \<Rightarrow> id_env \<Rightarrow> nat \<Rightarrow> TenantID \<Rightarrow> PrincipalID \<Rightarrow> Memory \<Rightarrow> Grant list result \<times> Memory" where
  "grantsFor ev iv k t pid m = (let key = grants_key t pid;
       cached = (case Memory_Get (ev_now ev k) key m of Some raw \<Rightarrow> decodeGrants raw | None \<Rightarrow> Inl (PlainError ''miss''))
     in case cached of
       Inr grants \<Rightarrow> (Inr grants, m)
     | Inl _ \<Rightarrow> (case realm_read ev iv (scope t None '''') k
           (\<lambda>r. ListRoleAssignments (session_of iv t) (ev_rfault ev k) t pid (rl_roles r)) of
         Inl err \<Rightarrow> (Inl err, m)
       | Inr assignments \<Rightarrow>
           let grants = map (\<lambda>a. \<lparr>gr_Role = ra_Role a, gr_ProjectID = ra_ProjectID a\<rparr>)
                 (filter (\<lambda>a. Assignment_Active a (ev_now ev (k + 1))) assignments)
           in (Inr grants, Memory_Set (ev_now ev (k + 2)) (iv_order iv) key (encodeGrants grants) (iv_ttl iv) m)))"

(*src internal/identity/app/service.go#Service.InvalidateGrants*)
definition InvalidateGrants :: "TenantID \<Rightarrow> PrincipalID \<Rightarrow> Memory \<Rightarrow> Memory" where
  "InvalidateGrants t pid m = Memory_Delete [grants_key t pid] m"

section \<open>Users\<close>

(*src internal/identity/app/service.go#roleNames*)
definition roleNames :: "Grant list \<Rightarrow> string list" where "roleNames grants = map gr_Role grants"

definition no_correlation :: Correlation where
  "no_correlation = \<lparr>co_TraceID = '''', co_SpanID = '''', co_RequestID = '''', co_CausationID = '''', co_IdempotencyKey = ''''\<rparr>"

definition record_in_realm ::
  "env \<Rightarrow> nat \<Rightarrow> TenantID \<Rightarrow> string \<Rightarrow> Severity \<Rightarrow> Actor \<Rightarrow> Target \<Rightarrow> (string \<times> json) list \<Rightarrow> unit rtx" where
  "record_in_realm ev k t action severity actor target attrs = zoomT rl_world put_world (audit_append ev k (with_attrs attrs
     (NewRecord (ev_now ev k) t None action OutcomeSuccess severity actor target)))"

definition emit_in_realm ::
  "env \<Rightarrow> nat \<Rightarrow> string \<Rightarrow> TenantID \<Rightarrow> PrincipalID \<Rightarrow> OutboxActor \<Rightarrow> json \<Rightarrow> (go_error \<Rightarrow> go_error) \<Rightarrow> unit rtx" where
  "emit_in_realm ev k ty t pid actor payload wrap = zoomT rl_world put_world
     (emit_event (ev\<lparr>ev_corr := no_correlation\<rparr>) k ty t None \<lparr>ag_Type = ''Principal'', ag_ID = pid, ag_Version = 0\<rparr> actor payload wrap)"

definition id_target :: "string \<Rightarrow> string \<Rightarrow> Target" where
  "id_target ty i = \<lparr>tg_Type = ty, tg_ID = i, tg_Version = 0, tg_ProjectID = '''', tg_ContentHash = ''''\<rparr>"

definition id_actor :: "string \<Rightarrow> PrincipalID \<Rightarrow> OutboxActor" where
  "id_actor kind pid = \<lparr>oa_Kind = kind, oa_PrincipalID = pid, oa_Display = '''', oa_OnBehalfOf = ''''\<rparr>"

definition json_strings :: "string list option \<Rightarrow> json" where
  "json_strings ss = (case ss of None \<Rightarrow> JNull | Some xs \<Rightarrow> JArray (map JString xs))"

definition provisioned_grant :: "env \<Rightarrow> TenantID \<Rightarrow> PrincipalID \<Rightarrow> nat \<Rightarrow> Grant \<Rightarrow> RoleAssignment" where
  "provisioned_grant ev t pid i g = \<lparr>ra_ID = ev_id ev (3 + i), ra_TenantID = t, ra_PrincipalID = pid, ra_ProjectID = gr_ProjectID g,
     ra_Role = gr_Role g, ra_GrantedBy = pid, ra_GrantedAt = Now (ev_now ev (3 + i)), ra_ExpiresAt = None\<rparr>"

text \<open>The statements are numbered from 0: the account, the removal of old assignments, the new ones.\<close>

(*src internal/identity/app/service.go#Service.provision*)
definition provision ::
  "env \<Rightarrow> id_env \<Rightarrow> TenantID \<Rightarrow> Claims \<Rightarrow> string list option \<Rightarrow> realm \<Rightarrow> Account result \<times> realm" where
  "provision ev iv t claims groups r = (let op = ''identity.provision''; pid = ev_id ev 0; sn = session_of iv t;
       display = (if cl_Name claims = '''' then cl_Email claims else cl_Name claims)
     in case NewPrincipal (ev_now ev 0) pid t KindUser (cl_Issuer claims) (cl_Subject claims) (cl_Email claims) display of
       Inl err \<Rightarrow> (Inl err, r)
     | Inr p \<Rightarrow> in_realm ev (scope t None '''')
         (bindT (\<lambda>r. zoomT rl_accounts put_accounts (CreatePrincipal sn (ev_fault ev 0) (tenant_known r) p) r) (\<lambda>_.
          bindT (liftT (realm_read ev iv (scope t None '''') 1
            (\<lambda>r. ListIdPMappings sn (iv_lower iv) (ev_rfault ev 1) t (rl_mappings r)))) (\<lambda>mappings.
          let mapped = MapGroups (iv_lower iv) (case groups of None \<Rightarrow> [] | Some gs \<Rightarrow> gs) mappings;
              assignments = map (\<lambda>(i, g). provisioned_grant ev t pid i g) (enumerate 0 mapped);
              roles = JArray (map JString (roleNames mapped))
          in bindT (if assignments = [] then returnT () else
              (\<lambda>r. zoomT rl_roles put_roles (ReplaceRoleAssignments sn (ev_fault ev 1)
                (map (\<lambda>i. ev_fault ev (2 + i)) [0 ..< length assignments]) (iv_uuid iv) (tenant_known r) t pid assignments) r)) (\<lambda>_.
          bindT (record_in_realm ev 1 t ''principal.provision'' SeverityNotice
              \<lparr>ac_Kind = KindSystem, ac_PrincipalID = pid, ac_Display = '''', ac_Subject = cl_Subject claims,
               ac_Issuer = cl_Issuer claims, ac_OnBehalfOf = '''', ac_BreakGlass = False, ac_IPHash = '''', ac_UserAgent = ''''\<rparr>
              (id_target ''Principal'' pid)
              [(''issuer'', JString (cl_Issuer claims)), (''groups'', json_strings groups), (''mapped_roles'', roles)]) (\<lambda>_.
          bindT (emit_in_realm ev 2 ''principal.provisioned'' t pid (id_actor KindSystem pid)
              (JObject [(''principal_id'', JString pid), (''issuer'', JString (cl_Issuer claims)), (''roles'', roles)])
              (\<lambda>err. Wrap err op KindInternal ''principal.event_failed'')) (\<lambda>_.
          returnT p)))))) r)"

definition principal_of :: "id_env \<Rightarrow> TenantID \<Rightarrow> Claims \<Rightarrow> Account \<Rightarrow> Grant list \<Rightarrow> Principal" where
  "principal_of iv t claims p grants = \<lparr>pr_ID = ip_ID p, pr_Kind = ip_Kind p, pr_TenantID = t, pr_Subject = ip_Subject p,
     pr_Issuer = ip_Issuer p, pr_Display = ip_DisplayName p, pr_Email = ip_Email p, pr_Grants = grants,
     pr_Permissions = Resolve grants '''', pr_AuthTime = AuthTimeOrIssued claims, pr_AMR = cl_AMR claims,
     pr_BreakGlass = False, pr_OnBehalfOf = None, pr_DesignAuthority = iv_designAuthority iv t (ip_ID p)\<rparr>"

definition find_account :: "env \<Rightarrow> id_env \<Rightarrow> nat \<Rightarrow> Claims \<Rightarrow> Account result" where
  "find_account ev iv k claims = FindPrincipalBySubject (iv_bypass iv) (ev_rfault ev k) (cl_Issuer claims) (cl_Subject claims)
     (rl_accounts (iv_read iv k))"

text \<open>The account of the claims: found, or provisioned, or found after losing the race to provision it.\<close>

(*src internal/identity/app/service.go:122-158#Service.ResolveFromClaims*)
definition sign_in :: "env \<Rightarrow> id_env \<Rightarrow> TenantID \<Rightarrow> Claims \<Rightarrow> string list option \<Rightarrow> realm \<Rightarrow> Account result \<times> realm" where
  "sign_in ev iv t claims groups r = (case find_account ev iv 0 claims of
       Inr p \<Rightarrow> (if ip_TenantID p \<noteq> t then (Inl (Forbidden ''identity.ResolveFromClaims'' ''authz.tenant_mismatch''), r) else (Inr p, r))
     | Inl err \<Rightarrow> if KindOf (Some err) \<noteq> Some KindNotFound then (Inl err, r)
         else (case provision ev iv t claims groups r of
             (Inr p, r') \<Rightarrow> (Inr p, r')
           | (Inl err, r') \<Rightarrow> if KindOf (Some err) = Some KindConflict then (find_account ev iv 2 claims, r') else (Inl err, r')))"

(*src internal/identity/app/service.go#Service.ResolveFromClaims*)
definition ResolveFromClaims ::
  "env \<Rightarrow> id_env \<Rightarrow> Claims \<Rightarrow> string \<Rightarrow> string \<Rightarrow> realm \<Rightarrow> Memory \<Rightarrow> Principal result \<times> realm \<times> Memory" where
  "ResolveFromClaims ev iv claims tenantClaim rolesClaim r m = (let op = ''identity.ResolveFromClaims'' in
     if Claims_String claims tenantClaim = '''' then (Inl (Unauthorized op ''auth.tenant_claim_missing''), r, m)
     else case ParseTenantID (Claims_String claims tenantClaim) of
       Inl _ \<Rightarrow> (Inl (Unauthorized op ''auth.tenant_claim_invalid''), r, m)
     | Inr t \<Rightarrow>
         let groups = (case Claims_StringSlice claims rolesClaim of Some (g # gs) \<Rightarrow> Some (g # gs)
               | _ \<Rightarrow> Claims_StringSlice claims ''groups'')
         in case sign_in ev iv t claims groups r of
           (Inl err, r') \<Rightarrow> (Inl err, r', m)
         | (Inr p, r') \<Rightarrow>
             if \<not> Account_Active p then (Inl (Forbidden op ''auth.principal_disabled''), r', m)
             else (case grantsFor ev iv 4 t (ip_ID p) m of
                 (Inl err, m') \<Rightarrow> (Inl err, r', m')
               | (Inr grants, m') \<Rightarrow> (Inr (principal_of iv t claims p grants), r', m')))"

section \<open>Roles\<close>

(*src internal/identity/app/service.go#auditActor*)
definition id_auditActor :: "Principal \<Rightarrow> Actor" where
  "id_auditActor p = \<lparr>ac_Kind = pr_Kind p, ac_PrincipalID = pr_ID p, ac_Display = pr_Display p, ac_Subject = pr_Subject p,
     ac_Issuer = pr_Issuer p, ac_OnBehalfOf = '''', ac_BreakGlass = pr_BreakGlass p, ac_IPHash = '''', ac_UserAgent = ''''\<rparr>"

definition id_resource :: "string \<Rightarrow> TenantID \<Rightarrow> string \<Rightarrow> Resource" where
  "id_resource ty t p = \<lparr>res_Type = ty, res_ID = '''', res_TenantID = t, res_ProjectID = p, res_CreatedBy = '''',
     res_Contributors = [], res_RequestedBy = '''', res_ArtifactType = '''', res_Attributes = (\<lambda>_. None)\<rparr>"

(*src internal/identity/app/service.go#Service.AssignRole*)
definition AssignRole ::
  "env \<Rightarrow> id_env \<Rightarrow> TenantID \<Rightarrow> PrincipalID \<Rightarrow> Role \<Rightarrow> string \<Rightarrow> time option \<Rightarrow> Principal \<Rightarrow> realm \<Rightarrow> Memory \<Rightarrow>
   RoleAssignment result \<times> realm \<times> Memory" where
  "AssignRole ev iv t pid role projectID expiresAt actor r m = (let op = ''identity.AssignRole'' in
     case Require (ev_policy ev) (ev_now ev 0) actor RoleAssign (id_resource ''role_assignment'' t projectID) of
       Some err \<Rightarrow> (Inl err, r, m)
     | None \<Rightarrow> if \<not> Role_Valid role then (Inl (Invalid op ''role.invalid''), r, m)
         else let a = \<lparr>ra_ID = ev_id ev 0, ra_TenantID = t, ra_PrincipalID = pid, ra_ProjectID = projectID, ra_Role = role,
                ra_GrantedBy = pr_ID actor, ra_GrantedAt = Now (ev_now ev 1), ra_ExpiresAt = expiresAt\<rparr>
           in case in_realm ev (scope t None (pr_ID actor))
               (bindT (\<lambda>r. zoomT rl_roles put_roles (CreateRoleAssignment (session_of iv t) (ev_fault ev 0) (iv_uuid iv) (tenant_known r) a) r) (\<lambda>_.
                bindT (record_in_realm ev 2 t ''role.assign'' SeverityWarning (id_auditActor actor) (id_target ''RoleAssignment'' (ra_ID a))
                    [(''principal_id'', JString pid), (''role'', JString role), (''project_id'', JString projectID)]) (\<lambda>_.
                bindT (emit_in_realm ev 3 ''role.assignment.changed'' t pid (id_actor (pr_Kind actor) (pr_ID actor))
                    (JObject [(''principal_id'', JString pid), (''added'', JArray [JString role]), (''project_id'', JString projectID)])
                    (\<lambda>err. Wrap err op KindInternal ''role.event_failed'')) (\<lambda>_.
                returnT a)))) r of
             (Inl err, r') \<Rightarrow> (Inl err, r', m)
           | (Inr a, r') \<Rightarrow> (Inr a, r', InvalidateGrants t pid m))"

section \<open>Service accounts\<close>

text \<open>The last use of the key is noted later, by a statement of its own (\<open>TouchAPIKey\<close>).\<close>

(*src internal/identity/app/service.go#Service.AuthenticateAPIKey*)
definition AuthenticateAPIKey :: "env \<Rightarrow> id_env \<Rightarrow> string \<Rightarrow> Principal result" where
  "AuthenticateAPIKey ev iv presented = (let op = ''identity.AuthenticateAPIKey'' in
     case ParseAPIKey presented of
       None \<Rightarrow> Inl (Unauthorized op ''auth.api_key_malformed'')
     | Some (keyID, secret) \<Rightarrow>
         (case FindAPIKey (iv_bypass iv) (ev_rfault ev 0) keyID (rl_keys (iv_read iv 0)) of
            Inl _ \<Rightarrow> Inl (Unauthorized op ''auth.api_key_invalid'')
          | Inr key \<Rightarrow>
              failR (APIKey_Verify key secret (ev_now ev 0)) (
              bindR (realm_read ev iv (scope (ak_TenantID key) None '''') 1
                (\<lambda>r. GetPrincipal (session_of iv (ak_TenantID key)) (ev_rfault ev 1) (ak_TenantID key) (ak_PrincipalID key) (rl_accounts r))) (\<lambda>p.
              checkR (\<not> Account_Active p) (Forbidden op ''auth.principal_disabled'') (
              case FromNames (ak_Permissions key) of
                Inl _ \<Rightarrow> Inl (Internal op ''apikey.permissions_invalid'')
              | Inr held \<Rightarrow> Inr \<lparr>pr_ID = ip_ID p, pr_Kind = KindServiceAccount, pr_TenantID = ak_TenantID key,
                  pr_Subject = ip_Subject p, pr_Issuer = ''specforge:apikey'', pr_Display = ak_Name key, pr_Email = '''',
                  pr_Grants = [], pr_Permissions = ServiceAccountSet held, pr_AuthTime = ev_now ev 1, pr_AMR = [],
                  pr_BreakGlass = False, pr_OnBehalfOf = None, pr_DesignAuthority = False\<rparr>)))))"

(*src internal/identity/app/service.go#Service.ListPrincipals*)
definition ListPrincipals :: "env \<Rightarrow> id_env \<Rightarrow> TenantID \<Rightarrow> Principal \<Rightarrow> Account list result" where
  "ListPrincipals ev iv t actor =
     failR (Require (ev_policy ev) (ev_now ev 0) actor PrincipalRead (id_resource ''principal'' t ''''))
       (realm_read ev iv (scope t None (pr_ID actor)) 0
         (\<lambda>r. repo_ListPrincipals (session_of iv t) (ev_rfault ev 0) t 200 (rl_accounts r)))"

(*src internal/identity/app/service.go#Service.SeedIdPMappings*)
definition SeedIdPMappings :: "env \<Rightarrow> id_env \<Rightarrow> TenantID \<Rightarrow> PrincipalID \<Rightarrow> unit rtx" where
  "SeedIdPMappings ev iv t by' = (\<lambda>r. zoomT rl_mappings put_mappings
     (ReplaceIdPMappings (session_of iv t) (ev_fault ev 0) (map (\<lambda>i. ev_fault ev (1 + i)) [0 ..< length AllRoles]) (tenant_known r) t
       (map (\<lambda>(i, role). \<lparr>im_ID = ev_id ev i, im_TenantID = t, im_IdPGroup = role, im_Role = role, im_ProjectKey = '''',
          im_MappingVersion = 1, im_CreatedBy = by', im_CreatedAt = Now (ev_now ev i)\<rparr>) (enumerate 0 AllRoles))) r)"

section \<open>The cache of grants\<close>

lemma ParseRole_valid: "Role_Valid r \<Longrightarrow> ParseRole r = Inr r"
proof -
  have "list_all (\<lambda>(r, ps). r \<noteq> [] \<and> graphic (hd r) \<and> graphic (last r) \<and> ToLower r = r) rolePermissions"
    by (simp add: rolePermissions_def role_defs graphic_def HasPrefix_def ascii_lower_def)
  then have "Role_Valid r \<Longrightarrow> ToLower (TrimSpace r) = r"
    by (auto simp: Role_Valid_def list_all_iff TrimSpace_id dest!: map_of_SomeD)
  then show "Role_Valid r \<Longrightarrow> ParseRole r = Inr r" by (simp add: ParseRole_def Let_def checkR_def)
qed

lemma cut_bar: "CHR ''|'' \<notin> set r \<Longrightarrow>
    takeWhile (\<lambda>c. c \<noteq> CHR ''|'') (r @ CHR ''|'' # k) = r \<and> dropWhile (\<lambda>c. c \<noteq> CHR ''|'') (r @ CHR ''|'' # k) = CHR ''|'' # k"
  by (induction r) auto

lemma decode_line_encode: "Role_Valid (gr_Role g) \<Longrightarrow> decode_line (gr_Role g @ ''|'' @ gr_ProjectID g) = Inr g"
  using cut_bar [of "gr_Role g" "gr_ProjectID g"] role_no_bar [of "gr_Role g"] by (simp add: decode_line_def ParseRole_valid)

lemma Split_Join: "xs \<noteq> [] \<Longrightarrow> list_all (\<lambda>x. c \<notin> set x) xs \<Longrightarrow> Split (Join xs [c]) c = xs"
  by (induction xs rule: induct_list012) (simp_all add: Split_part Split_alone)

definition cacheable :: "Grant \<Rightarrow> bool" where
  "cacheable g \<longleftrightarrow> Role_Valid (gr_Role g) \<and> CHR 0x0A \<notin> set (gr_Role g) \<and> CHR 0x0A \<notin> set (gr_ProjectID g)"

lemma decode_lines_encode: "list_all cacheable gs \<Longrightarrow>
    decode_lines (map (\<lambda>g. gr_Role g @ ''|'' @ gr_ProjectID g) gs) = Inr gs"
  by (induction gs) (simp_all add: decode_line_encode [simplified] cacheable_def)

text \<open>C16: The cache gives back the grants it was given: role and scope of each, in their order, with the empty
  list as the empty text.\<close>

theorem grants_roundtrip:
  assumes "list_all cacheable grants"
  shows "decodeGrants (encodeGrants grants) = Inr grants"
proof (cases grants)
  case (Cons g gs)
  let ?lines = "map (\<lambda>g. gr_Role g @ ''|'' @ gr_ProjectID g) grants"
  have "list_all (\<lambda>x. CHR 0x0A \<notin> set x) ?lines" using assms by (auto simp: list_all_iff cacheable_def)
  then have "Split (encodeGrants grants) CHR 0x0A = ?lines"
    unfolding encodeGrants_def by (intro Split_Join) (simp add: Cons)
  moreover have "encodeGrants grants \<noteq> []" by (cases gs) (simp_all add: encodeGrants_def Cons)
  ultimately show ?thesis using decode_lines_encode [OF assms] by (simp add: decodeGrants_def)
qed (simp add: encodeGrants_def decodeGrants_def)

theorem grants_roundtrip_witness:
  "decodeGrants (encodeGrants [\<lparr>gr_Role = RoleQA, gr_ProjectID = ''p1''\<rparr>, \<lparr>gr_Role = RoleViewer, gr_ProjectID = ''''\<rparr>]) =
    Inr [\<lparr>gr_Role = RoleQA, gr_ProjectID = ''p1''\<rparr>, \<lparr>gr_Role = RoleViewer, gr_ProjectID = ''''\<rparr>]"
  by (rule grants_roundtrip) code_simp

section \<open>Service accounts approve nothing\<close>

lemma from_names_wf: "wf_set (fst acc) \<Longrightarrow> wf_set (fst (from_names ns acc))"
  by (induction ns acc rule: from_names.induct) (auto simp: pset.invar_ins split: sum.splits)

lemma FromNames_wf: "FromNames ns = Inr held \<Longrightarrow> wf_set held"
  using from_names_wf [of "(zeroSet, [])" ns] by (auto simp: FromNames_def pset.invar_empty checkR_Inr split: prod.splits)

end
