(* ===== verification/SignIn.thy ===== *)
theory SignIn
  imports IdentityService Desk
begin

text \<open>
  What the two ways of authenticating promise, on the definitions of \<open>IdentityService\<close>: what a
  principal's identity, tenant and grants rest on, and what becomes of both ways when the service runs as
  the role the migrations create for it, which row-level security applies to.
\<close>

section \<open>API keys\<close>

text \<open>C12: What an API key lets in. The key is stored, the secret presented hashes to the stored verifier, it is
  neither revoked nor expired, and its account is an active one of the same tenant; the principal is a service
  account of that tenant, with some of the permissions the key names and none that approves anything,
  whatever is stored.\<close>

theorem AuthenticateAPIKey_sound:
  assumes "AuthenticateAPIKey ev iv presented = Inr p"
  shows "\<exists>key account secret held. key \<in> set (rl_keys (iv_read iv 0)) \<and> account \<in> set (rl_accounts (iv_read iv 1)) \<and>
    ParseAPIKey presented = Some (ak_KeyID key, secret) \<and> hashSecret secret = ak_SecretHash key \<and> ak_RevokedAt key = None \<and>
    (case ak_ExpiresAt key of None \<Rightarrow> True | Some t \<Rightarrow> ev_now ev 0 \<le> t) \<and>
    ip_ID account = ak_PrincipalID key \<and> ip_TenantID account = ak_TenantID key \<and> Account_Active account \<and>
    pr_ID p = ip_ID account \<and> pr_TenantID p = ak_TenantID key \<and> pr_Kind p = KindServiceAccount \<and>
    FromNames (ak_Permissions key) = Inr held \<and>
    \<not> (\<exists>perm. Has (pr_Permissions p) perm \<and> (IsApprovalPermission perm \<or> \<not> Has held perm))"
proof -
  obtain keyID secret where k: "ParseAPIKey presented = Some (keyID, secret)"
    using assms by (auto simp: AuthenticateAPIKey_def Let_def split: option.splits)
  obtain key where f: "FindAPIKey (iv_bypass iv) (ev_rfault ev 0) keyID (rl_keys (iv_read iv 0)) = Inr key"
    using assms by (auto simp: AuthenticateAPIKey_def Let_def k split: sum.splits)
  note a = assms [unfolded AuthenticateAPIKey_def Let_def k option.case prod.case f sum.case failR_Inr bindR_Inr checkR_Inr realm_read_Inr]
  then obtain account where g: "GetPrincipal (session_of iv (ak_TenantID key)) (ev_rfault ev 1) (ak_TenantID key)
        (ak_PrincipalID key) (rl_accounts (iv_read iv 1)) = Inr account" "Account_Active account"
      and v: "APIKey_Verify key secret (ev_now ev 0) = None"
    by auto
  obtain held where h: "FromNames (ak_Permissions key) = Inr held"
    using a g by (auto split: sum.splits)
  have wf: "wf_set held" using h FromNames_wf by blast
  have row: "key \<in> set (rl_keys (iv_read iv 0))" "ak_KeyID key = keyID"
    using f by (auto simp: FindAPIKey_def monad_inv dest: find_Some_D)
  have acc: "account \<in> set (rl_accounts (iv_read iv 1))" "ip_ID account = ak_PrincipalID key" "ip_TenantID account = ak_TenantID key"
    using g(1) by (auto simp: GetPrincipal_def monad_inv dest: find_Some_D)
  have ver: "hashSecret secret = ak_SecretHash key" "ak_RevokedAt key = None"
      "case ak_ExpiresAt key of None \<Rightarrow> True | Some t \<Rightarrow> ev_now ev 0 \<le> t"
    using v by (auto simp: APIKey_Verify_def Let_def split: if_splits option.splits)
  have p: "pr_ID p = ip_ID account" "pr_TenantID p = ak_TenantID key" "pr_Kind p = KindServiceAccount"
      "pr_Permissions p = ServiceAccountSet held"
    using a g(1) by (auto simp: h)
  show ?thesis
    by (rule exI [of _ key], rule exI [of _ account], rule exI [of _ secret], rule exI [of _ held])
      (simp add: k row acc acc(1) [unfolded One_nat_def] ver p g(2) h Has_ServiceAccountSet [OF wf])
qed

definition sample_tid :: TenantID where "sample_tid = ''00000000-0000-4000-8000-00000000000a''"
definition other_tid :: TenantID where "other_tid = ''00000000-0000-4000-8000-00000000000b''"

definition sample_account :: "TenantID \<Rightarrow> Account" where
  "sample_account t = \<lparr>ip_ID = ''p1'', ip_TenantID = t, ip_Kind = KindUser, ip_Issuer = ''https://idp'', ip_Subject = ''u'',
     ip_Email = '''', ip_DisplayName = '''', ip_Status = ''ACTIVE'', ip_Attributes = [], ip_LastLoginAt = None, ip_CreatedAt = 0,
     ip_UpdatedAt = 0, ip_Version = 1\<rparr>"

definition stored_key :: APIKey where
  "stored_key = \<lparr>ak_ID = ''k1'', ak_TenantID = sample_tid, ak_KeyID = ''k'', ak_PrincipalID = ''p1'', ak_Name = ''ci'',
     ak_SecretHash = hashSecret ''s'', ak_Permissions = [''artifact:read''], ak_ProjectID = '''', ak_CreatedBy = ''u'',
     ak_CreatedAt = 0, ak_ExpiresAt = Some 9000, ak_RevokedAt = None, ak_LastUsedAt = None\<rparr>"

definition sample_realm :: "Account list \<Rightarrow> realm" where
  "sample_realm accounts = \<lparr>rl_world = desk, rl_accounts = accounts, rl_roles = [], rl_keys = [stored_key], rl_mappings = []\<rparr>"

definition sample_iv :: "bool \<Rightarrow> (nat \<Rightarrow> realm) \<Rightarrow> id_env" where
  "sample_iv bypass reads = \<lparr>iv_bypass = bypass, iv_lower = ToLower, iv_uuid = Some, iv_read = reads, iv_order = id,
     iv_ttl = 60 * Second, iv_designAuthority = (\<lambda>_ _. False)\<rparr>"

lemma sample_authenticated:
  "\<exists>p. AuthenticateAPIKey (call_env desk) (sample_iv True (\<lambda>_. sample_realm [sample_account sample_tid])) ''sf_prod_k_s'' = Inr p"
proof -
  have k: "ParseAPIKey ''sf_prod_k_s'' = Some (''k'', ''s'')" by code_simp
  have f: "FromNames [''artifact:read''] = Inr (add zeroSet ArtifactRead)" by code_simp
  show ?thesis
    by (simp add: AuthenticateAPIKey_def k FindAPIKey_def query_row_def found_def row_result_def sample_iv_def sample_realm_def
        sees_def pool_def stored_key_def call_env_def APIKey_Verify_def realm_read_def in_realm_def TxWith_def on_connection_healthy runT_def readT_def
        WithTenant_def MustTenant_def TenantFrom_def Empty_def scope_def GetPrincipal_def session_of_def sample_account_def
        Account_Active_def f sample_tid_def Let_def isRelaySession_def)
qed

theorem AuthenticateAPIKey_sound_witness:
  "\<exists>p key account. AuthenticateAPIKey (call_env desk) (sample_iv True (\<lambda>_. sample_realm [sample_account sample_tid])) ''sf_prod_k_s'' = Inr p \<and>
     key \<in> set (rl_keys (sample_realm [sample_account sample_tid])) \<and> account \<in> set [sample_account sample_tid] \<and>
     pr_TenantID p = ak_TenantID key \<and> ip_TenantID account = ak_TenantID key \<and> pr_Kind p = KindServiceAccount"
proof -
  obtain p where p: "AuthenticateAPIKey (call_env desk) (sample_iv True (\<lambda>_. sample_realm [sample_account sample_tid])) ''sf_prod_k_s'' = Inr p"
    using sample_authenticated by blast
  show ?thesis using AuthenticateAPIKey_sound [OF p] p by (auto simp: sample_iv_def sample_realm_def)
qed

section \<open>Users\<close>

lemma find_account_Inr: "find_account ev iv k claims = Inr p \<Longrightarrow> p \<in> set (rl_accounts (iv_read iv k)) \<and>
    ip_Issuer p = cl_Issuer claims \<and> ip_Subject p = cl_Subject claims \<and> sees (pool (iv_bypass iv)) (ip_TenantID p)"
  by (auto simp: find_account_def FindPrincipalBySubject_def monad_inv dest: find_Some_D)

lemma NewPrincipal_Inr: "NewPrincipal clock pid t kind issuer subject email display = Inr p \<Longrightarrow>
    ip_ID p = pid \<and> ip_TenantID p = t \<and> ip_Kind p = kind \<and> ip_Issuer p = issuer \<and> ip_Subject p = subject \<and> ip_Status p = ''ACTIVE''"
  by (auto simp: NewPrincipal_def Let_def split: if_splits)

lemma provision_Inr:
  assumes "provision ev iv t claims groups r = (Inr p, r')"
  shows "ip_TenantID p = t \<and> ip_Issuer p = cl_Issuer claims \<and> ip_Subject p = cl_Subject claims \<and> Account_Active p"
proof -
  obtain q display where q: "NewPrincipal (ev_now ev 0) (ev_id ev 0) t KindUser (cl_Issuer claims) (cl_Subject claims) (cl_Email claims) display = Inr q"
      "q = p"
    using assms by (auto simp: provision_def Let_def monad_inv split: sum.splits)
  then show ?thesis using NewPrincipal_Inr [OF q(1)] by (simp add: Account_Active_def)
qed

text \<open>A provisioned account is a row of the table, and the only change to it.\<close>

definition stored_account :: "Account \<Rightarrow> Account" where
  "stored_account p = p\<lparr>ip_LastLoginAt := None, ip_CreatedAt := pg_time (ip_CreatedAt p), ip_UpdatedAt := pg_time (ip_UpdatedAt p)\<rparr>"

lemma realm_frames:
  "record_in_realm ev k t action sev actor target attrs r = Inr (u, r') \<Longrightarrow> rl_accounts r' = rl_accounts r"
  "emit_in_realm ev k ty t pid act payload wrap r = Inr (u, r') \<Longrightarrow> rl_accounts r' = rl_accounts r"
  "zoomT rl_roles put_roles m r = Inr (u, r') \<Longrightarrow> rl_accounts r' = rl_accounts r"
  by (auto simp: record_in_realm_def emit_in_realm_def zoomT_Inr realm_put_defs)

lemma provision_stores:
  assumes "provision ev iv t claims groups r = (Inr p, r')"
  shows "rl_accounts r' = rl_accounts r @ [stored_account p]"
proof -
  obtain r1 where s: "zoomT rl_accounts put_accounts (CreatePrincipal (session_of iv t) (ev_fault ev 0) (tenant_known r) p) r = Inr ((), r1)"
      "rl_accounts r' = rl_accounts r1"
    using assms by (auto simp: provision_def Let_def in_realm_Inr bindT_Inr returnT_Inr liftT_Inr
        split: sum.splits if_splits dest!: realm_frames)
  then show ?thesis by (auto simp: zoomT_Inr CreatePrincipal_def realm_put_defs stored_account_def monad_inv)
qed

lemma provision_Inl: "provision ev iv t claims groups r = (Inl err, r') \<Longrightarrow> r' = r"
  by (auto simp: provision_def Let_def split: sum.splits dest: in_realm_Inl)

text \<open>The grants of a principal: cached, or read from the assignments in force.\<close>

definition granted :: "env \<Rightarrow> id_env \<Rightarrow> nat \<Rightarrow> TenantID \<Rightarrow> PrincipalID \<Rightarrow> Memory \<Rightarrow> Grant list \<Rightarrow> bool" where
  "granted ev iv k t pid m grants \<longleftrightarrow>
     (\<exists>raw. Memory_Get (ev_now ev k) (grants_key t pid) m = Some raw \<and> decodeGrants raw = Inr grants) \<or>
     (\<forall>g. g \<in> set grants \<longleftrightarrow> (\<exists>a \<in> set (rl_roles (iv_read iv k)). ra_TenantID a = t \<and> ra_PrincipalID a = pid \<and>
        sees (session_of iv t) (ra_TenantID a) \<and> Assignment_Active a (ev_now ev (k + 1)) \<and>
        g = \<lparr>gr_Role = ra_Role a, gr_ProjectID = ra_ProjectID a\<rparr>))"

lemma grantsFor_Inr: "grantsFor ev iv k t pid m = (Inr grants, m') \<Longrightarrow> granted ev iv k t pid m grants"
  by (auto simp: grantsFor_def Let_def granted_def ListRoleAssignments_def monad_inv split: sum.splits option.splits)

text \<open>Where the account of a sign-in comes from: a row found first, a row the request inserted, or a row
  found after the insertion ran into another one.\<close>

definition signs_in :: "env \<Rightarrow> id_env \<Rightarrow> TenantID \<Rightarrow> Claims \<Rightarrow> realm \<Rightarrow> realm \<Rightarrow> Account \<Rightarrow> bool" where
  "signs_in ev iv t claims r r' account \<longleftrightarrow> ip_Issuer account = cl_Issuer claims \<and> ip_Subject account = cl_Subject claims \<and>
    (account \<in> set (rl_accounts (iv_read iv 0)) \<and> ip_TenantID account = t \<and> r' = r \<or>
     (\<exists>err. find_account ev iv 0 claims = Inl err \<and> KindOf (Some err) = Some KindNotFound) \<and>
       (rl_accounts r' = rl_accounts r @ [account] \<and> ip_TenantID account = t \<or> account \<in> set (rl_accounts (iv_read iv 2)) \<and> r' = r))"

lemma sign_in_Inr:
  assumes "sign_in ev iv t claims groups r = (Inr p, r')"
  shows "\<exists>account. signs_in ev iv t claims r r' account \<and> ip_ID account = ip_ID p \<and> ip_Kind account = ip_Kind p \<and>
    Account_Active account = Account_Active p"
proof (cases "find_account ev iv 0 claims")
  case (Inr q)
  then show ?thesis using assms find_account_Inr [OF Inr]
    by (intro exI [of _ p]) (auto simp: sign_in_def signs_in_def split: if_splits)
next
  case (Inl err)
  then have k: "(\<exists>err. find_account ev iv 0 claims = Inl err \<and> KindOf (Some err) = Some KindNotFound)"
    using assms by (auto simp: sign_in_def split: if_splits)
  obtain res r1 where pr: "provision ev iv t claims groups r = (res, r1)" by fastforce
  show ?thesis
  proof (cases res)
    case (Inr q)
    then have "p = q" "r1 = r'" using assms Inl pr by (auto simp: sign_in_def split: if_splits)
    then have "provision ev iv t claims groups r = (Inr p, r')" using pr Inr by simp
    from provision_Inr [OF this] provision_stores [OF this] k show ?thesis
      by (intro exI [of _ "stored_account p"]) (auto simp: signs_in_def stored_account_def Account_Active_def)
  next
    case e: (Inl err2)
    then have "find_account ev iv 2 claims = Inr p" "r' = r1" using assms Inl pr by (auto simp: sign_in_def split: if_splits)
    with find_account_Inr [of ev iv 2 claims p] provision_Inl [of ev iv t claims groups r err2 r1] pr e k show ?thesis
      by (intro exI [of _ p]) (auto simp: signs_in_def)
  qed
qed

text \<open>C11: Who a verified token signs in. The principal has the tenant the token names, the identifier and the
  kind of an active account of the token's issuer and subject, the permissions of its grants and no others,
  and its grants are the assignments in force in that tenant or what the cache holds of them. That
  account is a row of the accounts table: one the first read found, in the tenant of the token; or, when
  that read found none, the one the request inserted, in that tenant and with no other change to the table;
  or, when the insertion ran into another one, a row that a second read found, whose tenant the code
  does not compare with the token's.\<close>

theorem sign_in_sound:
  assumes "ResolveFromClaims ev iv claims tenantClaim rolesClaim r m = (Inr p, r', m')"
  shows "pr_TenantID p = Claims_String claims tenantClaim \<and> uuidRE (pr_TenantID p) \<and>
    pr_Permissions p = Resolve (pr_Grants p) '''' \<and> granted ev iv 4 (pr_TenantID p) (pr_ID p) m (pr_Grants p) \<and>
    (\<exists>account. ip_Issuer account = cl_Issuer claims \<and> ip_Subject account = cl_Subject claims \<and> Account_Active account \<and>
       pr_ID p = ip_ID account \<and> pr_Kind p = ip_Kind account \<and>
       (account \<in> set (rl_accounts (iv_read iv 0)) \<and> ip_TenantID account = pr_TenantID p \<and> r' = r \<or>
        (\<exists>err. find_account ev iv 0 claims = Inl err \<and> KindOf (Some err) = Some KindNotFound) \<and>
          (rl_accounts r' = rl_accounts r @ [account] \<and> ip_TenantID account = pr_TenantID p \<or>
           account \<in> set (rl_accounts (iv_read iv 2)) \<and> r' = r)))"
proof -
  obtain t where t: "Claims_String claims tenantClaim = t" "uuidRE t" "ParseTenantID t = Inr t"
    using assms by (auto simp: ResolveFromClaims_def Let_def ParseTenantID_def checkR_Inr split: if_splits sum.splits)
  let ?groups = "case Claims_StringSlice claims rolesClaim of Some (g # gs) \<Rightarrow> Some (g # gs) | _ \<Rightarrow> Claims_StringSlice claims ''groups''"
  obtain q s where a: "sign_in ev iv t claims ?groups r = (Inr q, s)"
    using assms t by (auto simp: ResolveFromClaims_def Let_def split: if_splits sum.splits prod.splits)
  have act: "Account_Active q"
    using assms t a by (auto simp: ResolveFromClaims_def Let_def split: if_splits)
  have s: "s = r'"
    using assms t a act by (auto simp: ResolveFromClaims_def Let_def split: if_splits sum.splits prod.splits)
  obtain grants m1 where g: "grantsFor ev iv 4 t (ip_ID q) m = (Inr grants, m1)" "p = principal_of iv t claims q grants"
    using assms t a act by (auto simp: ResolveFromClaims_def Let_def split: if_splits sum.splits prod.splits)
  obtain account where acc: "signs_in ev iv t claims r r' account" "ip_ID account = ip_ID q" "ip_Kind account = ip_Kind q" "Account_Active account"
    using sign_in_Inr [OF a] act s by blast
  have p: "pr_TenantID p = t" "pr_ID p = ip_ID account" "pr_Kind p = ip_Kind account" "pr_Permissions p = Resolve (pr_Grants p) ''''"
      "pr_Grants p = grants"
    by (simp_all add: g(2) principal_of_def acc(2,3))
  show ?thesis unfolding p(1) using acc(1,2,4) p t grantsFor_Inr [OF g(1)] unfolding signs_in_def by metis
qed

section \<open>Under the policies\<close>

lemma find_account_pool:
  assumes "\<not> iv_bypass iv" "list_all (\<lambda>p. ip_TenantID p \<noteq> '''') (rl_accounts (iv_read iv k))"
  shows "\<exists>err. find_account ev iv k claims = Inl err"
proof (cases "find_account ev iv k claims")
  case (Inr p)
  then show ?thesis using find_account_Inr [OF Inr] assms by (auto simp: sees_def pool_def list_all_iff)
qed simp

lemma provision_known:
  assumes "a \<in> set (rl_accounts r)" "ip_Issuer a = cl_Issuer claims" "ip_Subject a = cl_Subject claims"
  shows "\<exists>err. provision ev iv t claims groups r = (Inl err, r)"
proof (cases "provision ev iv t claims groups r")
  case (Pair res r')
  show ?thesis
  proof (cases res)
    case (Inl err)
    then show ?thesis using provision_Inl Pair by blast
  next
    case (Inr p)
    then obtain display q rows where q: "NewPrincipal (ev_now ev 0) (ev_id ev 0) t KindUser (cl_Issuer claims) (cl_Subject claims) (cl_Email claims) display = Inr q"
        and c: "CreatePrincipal (session_of iv t) (ev_fault ev 0) (tenant_known r) q (rl_accounts r) = Inr ((), rows)"
      using Pair by (auto simp: provision_def Let_def monad_inv split: sum.splits)
    have "account_uniques (rl_accounts r @ [q\<lparr>ip_LastLoginAt := None, ip_CreatedAt := pg_time (ip_CreatedAt q), ip_UpdatedAt := pg_time (ip_UpdatedAt q)\<rparr>]) = None"
      using c by (auto simp: CreatePrincipal_def monad_inv)
    then have "(cl_Issuer claims, cl_Subject claims) \<notin> (\<lambda>p. (ip_Issuer p, ip_Subject p)) ` set (rl_accounts r)"
      using NewPrincipal_Inr [OF q] by (auto simp: account_uniques_def monad_inv)
    then show ?thesis using assms by force
  qed
qed

text \<open>C13: Connected as a role that row-level security applies to, which is how the migrations and the
  documentation say the service connects, no one signs in twice and no API key works: both look their
  row up through the pool, in no tenant's session, where the policies show none.\<close>

theorem row_policies_lock_out:
  assumes "\<not> iv_bypass iv" "list_all (\<lambda>p. ip_TenantID p \<noteq> '''') (rl_accounts (iv_read iv 0) @ rl_accounts (iv_read iv 2))"
    and "list_all (\<lambda>k. ak_TenantID k \<noteq> '''') (rl_keys (iv_read iv 0))"
    and "a \<in> set (rl_accounts r)" "ip_Issuer a = cl_Issuer claims" "ip_Subject a = cl_Subject claims"
  shows "(\<exists>err. ResolveFromClaims ev iv claims tenantClaim rolesClaim r m = (Inl err, r, m)) \<and>
    (\<exists>err. AuthenticateAPIKey ev iv presented = Inl err)"
proof
  obtain e0 e2 where f: "find_account ev iv 0 claims = Inl e0" "find_account ev iv 2 claims = Inl e2"
    using find_account_pool [OF assms(1)] assms(2) by fastforce
  have s: "\<exists>err. sign_in ev iv t claims groups r = (Inl err, r)" for t groups
  proof -
    obtain err where "provision ev iv t claims groups r = (Inl err, r)" using provision_known [OF assms(4-6)] by blast
    then show ?thesis by (simp add: sign_in_def f)
  qed
  show "\<exists>err. ResolveFromClaims ev iv claims tenantClaim rolesClaim r m = (Inl err, r, m)"
  proof (cases "ParseTenantID (Claims_String claims tenantClaim)")
    case (Inr t)
    obtain err where "sign_in ev iv t claims (case Claims_StringSlice claims rolesClaim of Some (g # gs) \<Rightarrow> Some (g # gs)
        | _ \<Rightarrow> Claims_StringSlice claims ''groups'') r = (Inl err, r)" using s by blast
    then show ?thesis by (simp add: ResolveFromClaims_def Inr Let_def)
  qed (simp add: ResolveFromClaims_def Let_def)
  show "\<exists>err. AuthenticateAPIKey ev iv presented = Inl err"
  proof (cases "AuthenticateAPIKey ev iv presented")
    case (Inr p)
    then obtain keyID key where "FindAPIKey (iv_bypass iv) (ev_rfault ev 0) keyID (rl_keys (iv_read iv 0)) = Inr key"
      by (auto simp: AuthenticateAPIKey_def Let_def split: option.splits sum.splits)
    then have "key \<in> set (rl_keys (iv_read iv 0)) \<and> sees (pool (iv_bypass iv)) (ak_TenantID key)"
      by (auto simp: FindAPIKey_def monad_inv dest: find_Some_D)
    then show ?thesis using assms(1,3) by (auto simp: sees_def pool_def list_all_iff)
  qed simp
qed

section \<open>Sample sign-ins\<close>

definition user_claims :: Claims where
  "user_claims = \<lparr>cl_Issuer = ''https://idp'', cl_Subject = ''u'', cl_Audience = [], cl_ExpiresAt = 9, cl_NotBefore = 0,
     cl_IssuedAt = 0, cl_ID = '''', cl_AuthTime = 0, cl_Nonce = '''', cl_AMR = [], cl_ACR = '''', cl_Email = '''', cl_Name = '''',
     cl_Extra = [(''tenant'', JString sample_tid)]\<rparr>"

text \<open>Between the two reads of this call the subject has signed in to another tenant.\<close>

definition raced :: "nat \<Rightarrow> realm" where
  "raced k = sample_realm (if k = 2 then [sample_account other_tid] else [])"

lemma raced_provision:
  "provision (call_env desk) (sample_iv True raced) sample_tid user_claims groups (sample_realm [sample_account other_tid]) =
     (Inl (Conflict ''identity.CreatePrincipal'' ''principal.already_exists''), sample_realm [sample_account other_tid])"
proof -
  let ?ev = "call_env desk" and ?r = "sample_realm [sample_account other_tid]"
  obtain q where q: "NewPrincipal 5000 ''id-1'' sample_tid KindUser ''https://idp'' ''u'' '''' '''' = Inr q" "ip_TenantID q = sample_tid"
      "ip_Kind q = KindUser" "ip_Status q = ''ACTIVE''" "ip_Issuer q = ''https://idp''" "ip_Subject q = ''u''" "ip_ID q = ''id-1''"
    by (simp add: NewPrincipal_def Let_def)
  have c: "CreatePrincipal (session_of (sample_iv True raced) sample_tid) None (tenant_known ?r) q [sample_account other_tid] =
      Inl (Conflict ''identity.CreatePrincipal'' ''principal.already_exists'')"
    using q(2-7) by (simp add: CreatePrincipal_def insertT_def execT_def insert_row_def account_checks_def policy_def sees_def session_of_def
        sample_iv_def check_constraint_def account_uniques_def unique_index_def sample_account_def IsUniqueViolation_def SQLState_def)
  have t: "sample_tid \<noteq> ''''" by (simp add: sample_tid_def)
  show ?thesis
    by (simp add: provision_def Let_def q(1) in_realm_def TxWith_def on_connection_healthy runT_def bindT_def zoomT_def call_env_def user_claims_def scope_def
        WithTenant_def MustTenant_def TenantFrom_def Empty_def t isRelaySession_def c [unfolded sample_realm_def] sample_realm_def)
qed

lemma raced_sign_in:
  "\<exists>p m'. ResolveFromClaims (call_env desk) (sample_iv True raced) user_claims ''tenant'' ''roles'' (sample_realm [sample_account other_tid])
     (NewMemory 0) = (Inr p, sample_realm [sample_account other_tid], m') \<and> pr_TenantID p = sample_tid \<and> pr_ID p = ip_ID (sample_account other_tid)"
proof -
  have f: "find_account (call_env desk) (sample_iv True raced) 0 user_claims = Inl (NotFound ''identity.FindPrincipalBySubject'' ''principal.not_found'')"
    "find_account (call_env desk) (sample_iv True raced) 2 user_claims = Inr (sample_account other_tid)"
    by (simp_all add: find_account_def FindPrincipalBySubject_def query_row_def found_def row_result_def IsNoRows_def sample_iv_def raced_def
        sample_realm_def call_env_def sample_account_def user_claims_def sees_def pool_def)
  have s: "sign_in (call_env desk) (sample_iv True raced) sample_tid user_claims groups (sample_realm [sample_account other_tid]) =
      (Inr (sample_account other_tid), sample_realm [sample_account other_tid])" for groups
    by (simp add: sign_in_def f raced_provision error_defs)
  have t: "Claims_String user_claims ''tenant'' = sample_tid" by (simp add: Claims_String_def user_claims_def)
  have u: "ParseTenantID sample_tid = Inr sample_tid" "sample_tid \<noteq> ''''" by code_simp+
  have g: "\<exists>m'. grantsFor (call_env desk) (sample_iv True raced) 4 sample_tid ''p1'' (NewMemory 0) = (Inr [], m')"
    by (simp add: grantsFor_def Let_def Memory_Get_def NewMemory_def realm_read_def in_realm_def TxWith_def on_connection_healthy runT_def readT_def call_env_def
        scope_def WithTenant_def MustTenant_def TenantFrom_def Empty_def u isRelaySession_def ListRoleAssignments_def query_rows_def row_result_def
        sample_iv_def raced_def sample_realm_def)
  then obtain m' where g: "grantsFor (call_env desk) (sample_iv True raced) 4 sample_tid (ip_ID (sample_account other_tid)) (NewMemory 0) = (Inr [], m')"
    by (auto simp: sample_account_def)
  have a: "Account_Active (sample_account other_tid)" by (simp add: Account_Active_def sample_account_def)
  show ?thesis
    by (simp add: ResolveFromClaims_def t u s a g Let_def) (simp add: principal_of_def)
qed

theorem sign_in_sound_witness:
  "\<exists>(p :: Principal) (account :: Account). pr_TenantID p = sample_tid \<and> pr_ID p = ip_ID (sample_account other_tid) \<and> pr_Permissions p = Resolve (pr_Grants p) '''' \<and>
     granted (call_env desk) (sample_iv True raced) 4 sample_tid (pr_ID p) (NewMemory 0) (pr_Grants p) \<and>
     ip_Issuer account = ''https://idp'' \<and> ip_Subject account = ''u'' \<and> pr_ID p = ip_ID account"
proof -
  obtain p m' where p: "ResolveFromClaims (call_env desk) (sample_iv True raced) user_claims ''tenant'' ''roles''
      (sample_realm [sample_account other_tid]) (NewMemory 0) = (Inr p, sample_realm [sample_account other_tid], m')"
      "pr_TenantID p = sample_tid" "pr_ID p = ip_ID (sample_account other_tid)"
    using raced_sign_in by blast
  have c: "cl_Issuer user_claims = ''https://idp''" "cl_Subject user_claims = ''u''" by (simp_all add: user_claims_def)
  note s = sign_in_sound [OF p(1), unfolded p(2) c]
  then obtain account :: Account where "ip_Issuer account = ''https://idp''" "ip_Subject account = ''u''" "pr_ID p = ip_ID account" by blast
  with s p(2,3) show ?thesis by (intro exI [of _ p] exI [of _ account]) simp
qed

theorem row_policies_lock_out_witness:
  "(\<exists>err. ResolveFromClaims (call_env desk) (sample_iv False (\<lambda>_. sample_realm [sample_account sample_tid])) user_claims ''tenant'' ''roles''
      (sample_realm [sample_account sample_tid]) (NewMemory 0) = (Inl err, sample_realm [sample_account sample_tid], NewMemory 0)) \<and>
   (\<exists>err. AuthenticateAPIKey (call_env desk) (sample_iv False (\<lambda>_. sample_realm [sample_account sample_tid])) ''sf_prod_k_s'' = Inl err)"
proof (rule row_policies_lock_out)
  show "sample_account sample_tid \<in> set (rl_accounts (sample_realm [sample_account sample_tid]))" by (simp add: sample_realm_def)
qed (simp_all add: sample_iv_def sample_realm_def sample_account_def stored_key_def sample_tid_def user_claims_def)

end
