(* ===== verification/Rfc3339.thy ===== *)
theory Rfc3339
  imports GoTime Jcs "HOL-Library.Monad_Syntax"
begin

text \<open>
  \<^verbatim>\<open>time.Parse(time.RFC3339Nano, s)\<close>, what the list cursors are read with: the general parser of the
  package for that layout, whose fast path accepts a part of what it does with the same result. Its
  leniences are kept: an hour may have one digit, the fraction may follow a comma, digits of the
  fraction after the ninth are dropped, and a zone may be 24:60. The theorem is the round trip with
  \<^verbatim>\<open>Format\<close>, which rests on the one between days and civil dates.
\<close>

section \<open>Days and dates\<close>

definition is_leap :: "int \<Rightarrow> bool" where
  "is_leap y \<longleftrightarrow> y mod 4 = 0 \<and> (y mod 100 \<noteq> 0 \<or> y mod 400 = 0)"

definition daysIn :: "int \<Rightarrow> int \<Rightarrow> int" where
  "daysIn m y = (if m = 2 then if is_leap y then 29 else 28 else if m \<in> {4, 6, 9, 11} then 30 else 31)"

text \<open>The days of an era before its year \<open>y\<close>, counted from March.\<close>

definition year_start :: "int \<Rightarrow> int" where "year_start y = 365 * y + y div 4 - y div 100"

definition year_days :: "int \<Rightarrow> int" where
  "year_days doe = doe - doe div 1460 + doe div 36524 - doe div 146096"

lemma div_step: "0 < k \<Longrightarrow> (d + 1) div k = d div k + (if k dvd d + 1 then 1 else 0)" for d k :: int
proof -
  assume k: "0 < k"
  define q r where d: "q = d div k" "r = d mod k"
  have e: "d = k * q + r" "0 \<le> r" "r < k" using k by (simp_all add: d)
  show ?thesis
  proof (cases "r + 1 = k")
    case True
    then have "d + 1 = k * (q + 1)" using e by (simp add: algebra_simps)
    then show ?thesis using k by (simp add: d)
  next
    case False
    then have "(d + 1) div k = q" "(d + 1) mod k = r + 1"
      using e by (auto intro!: int_div_pos_eq [of _ _ _ "r + 1"] int_mod_pos_eq [of _ _ q])
    then show ?thesis using e by (auto simp: d(1) [symmetric] dvd_eq_mod_eq_0)
  qed
qed

lemma year_days_next:
  "year_days (d + 1) = year_days d + 1 - (if 1460 dvd d + 1 then 1 else 0) + (if 36524 dvd d + 1 then 1 else 0)
     - (if 146096 dvd d + 1 then 1 else 0)"
  by (simp add: year_days_def div_step)

lemma dvd_146096: "146096 dvd c \<Longrightarrow> 36524 dvd c" for c :: int
  by (rule dvd_trans [of _ 146096]) simp_all

lemma year_days_step: "year_days d \<le> year_days (d + 1)"
  using dvd_146096 [of "d + 1"] by (auto simp: year_days_next)

lemma year_days_mono: "a \<le> b \<Longrightarrow> year_days a \<le> year_days b"
proof (induction b rule: int_ge_induct)
  case (step b)
  then show ?case using year_days_step [of b] by simp
qed simp

lemma era_year:
  assumes "0 \<le> y" "y < 400"
  shows "year_days (year_start y) = 365 * y" "y \<noteq> 0 \<Longrightarrow> \<not> 1460 dvd year_start y"
proof -
  define a r c t where d: "a = y div 4" "r = y mod 4" "c = y div 100" "t = y mod 100"
  have y: "y = 4 * a + r" "y = 100 * c + t" "0 \<le> r" "r < 4" "0 \<le> t" "t < 100" by (simp_all add: d)
  have a: "y div 4 = a" "y div 100 = c" by (simp_all add: d)
  have s: "year_start y = 1460 * a + (365 * r + a - c)" "year_start y = 36524 * c + (365 * t + t div 4)"
  proof -
    show "year_start y = 1460 * a + (365 * r + a - c)" using y(1) unfolding year_start_def a by simp
    have "y div 4 = 25 * c + t div 4" using y(2) div_mult_self4 [of 4 "25 * c" t] by (simp add: mult.commute)
    then show "year_start y = 36524 * c + (365 * t + t div 4)" using y(2) a unfolding year_start_def by simp
  qed
  have b: "0 \<le> a" "a < 100" "0 \<le> c" "25 * c \<le> a" "c < 4" using y assms by linarith+
  have "year_start y div 1460 = a" by (rule int_div_pos_eq [OF s(1)]) (use b y in linarith)+
  moreover have "year_start y div 36524 = c" by (rule int_div_pos_eq [OF s(2)]) (use y in linarith)+
  moreover have "year_start y div 146096 = 0" by (rule div_pos_pos_trivial) (use s(1) b y in linarith)+
  ultimately show "year_days (year_start y) = 365 * y" using s(1) y by (simp add: year_days_def)
  assume "y \<noteq> 0"
  have "year_start y mod 1460 = 365 * r + a - c" by (rule int_mod_pos_eq [OF s(1)]) (use b y in linarith)+
  moreover have "365 * r + a - c \<noteq> 0" using b y \<open>y \<noteq> 0\<close> by linarith
  ultimately show "\<not> 1460 dvd year_start y" by (simp add: dvd_eq_mod_eq_0)
qed

text \<open>The year of the era is the one whose days contain the day.\<close>

lemma era_year_of_day:
  assumes "0 \<le> doe" "doe < 146097"
  defines "yoe \<equiv> year_days doe div 365"
  shows "0 \<le> yoe" "yoe < 400" "year_start yoe \<le> doe" "doe < year_start (yoe + 1) + (if yoe = 399 then 1 else 0)"
proof -
  have e: "year_days 0 = 0" "year_days 146096 = 145999" by (simp_all add: year_days_def)
  have r: "0 \<le> year_days doe" "year_days doe \<le> 145999"
    using year_days_mono [of 0 doe] year_days_mono [of doe 146096] e assms by simp_all
  then show y: "0 \<le> yoe" "yoe < 400" unfolding yoe_def by linarith+
  have q: "365 * yoe \<le> year_days doe" "year_days doe < 365 * (yoe + 1)"
    using mult_div_mod_eq [of 365 "year_days doe"] pos_mod_sign [of 365 "year_days doe"] pos_mod_bound [of 365 "year_days doe"]
    by (simp_all add: yoe_def)
  show "year_start yoe \<le> doe"
  proof (rule ccontr)
    assume "\<not> year_start yoe \<le> doe"
    then have l: "doe + 1 \<le> year_start yoe" by simp
    then have "yoe \<noteq> 0" using assms by (auto simp: year_start_def)
    then have "year_days (year_start yoe) = year_days (year_start yoe - 1) + 1 +
        (if 36524 dvd year_start yoe then 1 else 0) - (if 146096 dvd year_start yoe then 1 else 0)"
      using year_days_next [of "year_start yoe - 1"] era_year(2) [OF y] by simp
    moreover have "year_days doe \<le> year_days (year_start yoe - 1)" using l by (intro year_days_mono) simp
    ultimately have "year_days doe < year_days (year_start yoe)"
      using dvd_146096 [of "year_start yoe"] by (simp split: if_splits)
    then show False using era_year(1) [OF y] q by simp
  qed
  show "doe < year_start (yoe + 1) + (if yoe = 399 then 1 else 0)"
  proof (cases "yoe = 399")
    case True
    then show ?thesis using assms by (simp add: year_start_def)
  next
    case False
    have "\<not> year_start (yoe + 1) \<le> doe"
      using year_days_mono [of "year_start (yoe + 1)" doe] era_year(1) [of "yoe + 1"] y False q by auto
    then show ?thesis using False by simp
  qed
qed

text \<open>A day and its date.\<close>

definition month_of :: "int \<Rightarrow> int \<times> int" where
  "month_of doy = (let mp = (5 * doy + 2) div 153 in
     (if mp < 10 then mp + 3 else mp - 9, doy - (153 * mp + 2) div 5 + 1))"

lemma month_table: "list_all (\<lambda>doy. let (m, d) = month_of doy; mp = (if m > 2 then m - 3 else m + 9) in
    1 \<le> m \<and> m \<le> 12 \<and> 1 \<le> d \<and> (153 * mp + 2) div 5 + d - 1 = doy \<and> (m \<le> 2 \<longleftrightarrow> 306 \<le> doy) \<and>
    (if m = 2 then d \<le> 29 \<and> (d = 29 \<longleftrightarrow> doy = 365) else d \<le> daysIn m 1)) [0..365]"
  by code_simp

lemma leap_year_days:
  assumes "0 \<le> yoe" "yoe < 400" "year_start yoe + 365 < year_start (yoe + 1) + (if yoe = 399 then 1 else 0)"
  shows "is_leap (yoe + 1 + era * 400)"
proof -
  have "(yoe + 1) div 4 = yoe div 4 + (if 4 dvd yoe + 1 then 1 else 0)" "(yoe + 1) div 100 = yoe div 100 + (if 100 dvd yoe + 1 then 1 else 0)"
    by (rule div_step, simp)+
  then have "4 dvd yoe + 1 \<and> (\<not> 100 dvd yoe + 1 \<or> yoe = 399)"
    using assms dvd_trans [of 4 100 "yoe + 1"] by (auto simp: year_start_def split: if_splits)
  moreover have "400 dvd yoe + 1 \<Longrightarrow> yoe = 399" using zdvd_imp_le [of 400 "yoe + 1"] assms by simp
  moreover have "4 dvd era * 400" "100 dvd era * 400" "400 dvd era * 400" by simp_all
  ultimately show ?thesis unfolding is_leap_def mod_eq_0_iff_dvd by (auto simp: dvd_add_left_iff)
qed

lemma civil_day:
  assumes "civil day = (y, m, d)"
  shows "day_of_civil y m d = day \<and> 1 \<le> m \<and> m \<le> 12 \<and> 1 \<le> d \<and> d \<le> daysIn m y \<and>
    (0 \<le> day \<and> day < 3652059 \<longrightarrow> 1 \<le> y \<and> y \<le> 9999)"
proof -
  define era doe where e: "era = (day + 306) div 146097" "doe = (day + 306) mod 146097"
  define yoe doy where yd: "yoe = year_days doe div 365" "doy = doe - year_start yoe"
  have doe: "0 \<le> doe" "doe < 146097" by (simp_all add: e)
  note yoe = era_year_of_day [OF doe, folded yd(1)]
  have "civil day = (yoe + era * 400 + (if fst (month_of doy) \<le> 2 then 1 else 0), fst (month_of doy), snd (month_of doy))"
    unfolding civil_def month_of_def Let_def year_start_def year_days_def e yd fst_conv snd_conv by (rule refl)
  then have c: "month_of doy = (m, d)" "y = yoe + era * 400 + (if m \<le> 2 then 1 else 0)"
    unfolding assms prod.inject by (simp_all only: prod_eq_iff fst_conv snd_conv)
  have len: "year_start (yoe + 1) \<le> year_start yoe + 365 + (if yoe = 399 then 0 else 1)"
    unfolding year_start_def by (cases "yoe = 399") (simp_all add: div_step)
  then have doy: "0 \<le> doy" "doy \<le> 365" using yoe(3,4) unfolding yd by (auto split: if_splits)
  have t: "1 \<le> m" "m \<le> 12" "1 \<le> d" "(153 * (if m > 2 then m - 3 else m + 9) + 2) div 5 + d - 1 = doy"
      "m \<le> 2 \<longleftrightarrow> 306 \<le> doy" "if m = 2 then d \<le> 29 \<and> (d = 29 \<longleftrightarrow> doy = 365) else d \<le> daysIn m 1"
    using month_table doy c(1) by (auto simp: list_all_iff Let_def dest!: bspec [of _ _ doy])
  have y: "(if m \<le> 2 then y - 1 else y) = yoe + era * 400" using c(2) by simp
  have "day_of_civil y m d = era * 146097 + year_start yoe + doy - 306"
    unfolding day_of_civil_def Let_def y year_start_def using t(4) yoe(1,2) by simp
  moreover have day: "era * 146097 + doe = day + 306" unfolding e by simp
  moreover have "1 \<le> y \<and> y \<le> 9999" if "0 \<le> day" "day < 3652059"
  proof -
    have "0 \<le> era" "era \<le> 24" using day doe that by linarith+
    moreover have "era < 24 \<or> yoe < 399 \<or> doy < 306" using day that yd(2) yoe(2) \<open>era \<le> 24\<close>
      by (cases "era = 24 \<and> yoe = 399") (auto simp: year_start_def)
    moreover have "0 < era \<or> 0 < yoe \<or> 306 \<le> doy" using day that yd(2) yoe(1) \<open>0 \<le> era\<close>
      by (cases "era = 0 \<and> yoe = 0") (auto simp: year_start_def)
    ultimately show ?thesis using yoe(1,2) unfolding c(2) t(5) by (auto split: if_splits)
  qed
  ultimately have "day_of_civil y m d = day" "0 \<le> day \<and> day < 3652059 \<longrightarrow> 1 \<le> y \<and> y \<le> 9999" by (simp_all add: yd(2))
  moreover have "d \<le> daysIn m y"
  proof (cases "m = 2")
    case True
    then have "doy = 365 \<Longrightarrow> is_leap y"
      using leap_year_days [OF yoe(1,2), of era] yoe(4) c(2) unfolding yd(2) by (simp add: algebra_simps)
    then show ?thesis using t(6) True by (auto simp: daysIn_def)
  next
    case False
    then show ?thesis using t(6) by (simp add: daysIn_def)
  qed
  ultimately show ?thesis using t(1-3) by blast
qed

section \<open>The parser\<close>

definition fixed_digits :: "nat \<Rightarrow> string \<Rightarrow> (int \<times> string) option" where
  "fixed_digits k s = (if k \<le> length s \<and> list_all is_digit (take k s) then Some (int (digits_value (take k s)), drop k s) else None)"

text \<open>\<^verbatim>\<open>getnum(value, false)\<close>: one digit or two.\<close>

definition short_digits :: "string \<Rightarrow> (int \<times> string) option" where
  "short_digits s = (case fixed_digits 2 s of None \<Rightarrow> fixed_digits 1 s | r \<Rightarrow> r)"

definition skip_char :: "char \<Rightarrow> string \<Rightarrow> string option" where
  "skip_char c s = (case s of [] \<Rightarrow> None | d # r \<Rightarrow> if d = c then Some r else None)"

definition parse_fraction :: "string \<Rightarrow> int \<times> string" where
  "parse_fraction s = (case s of [] \<Rightarrow> (0, []) | c # r \<Rightarrow>
     if (c = CHR ''.'' \<or> c = CHR '','') \<and> r \<noteq> [] \<and> is_digit (hd r) then
       (let ds = take 9 (takeWhile is_digit r) in (int (digits_value ds) * 10 ^ (9 - length ds), dropWhile is_digit r))
     else (0, s))"

definition parse_zone :: "string \<Rightarrow> (int \<times> string) option" where
  "parse_zone s = (case s of [] \<Rightarrow> None | c # r \<Rightarrow>
     if c = CHR ''Z'' then Some (0, r)
     else if c \<noteq> CHR ''+'' \<and> c \<noteq> CHR ''-'' then None
     else do { (h, r) \<leftarrow> fixed_digits 2 r; r \<leftarrow> skip_char CHR '':'' r; (m, r) \<leftarrow> fixed_digits 2 r;
       if h > 24 \<or> m > 60 then None
       else Some ((if c = CHR ''-'' then - 1 else 1) * (h * 60 + m) * 60, r) })"

definition ParseRFC3339Nano :: "string \<Rightarrow> time option" where
  "ParseRFC3339Nano s = do {
     (y, s) \<leftarrow> fixed_digits 4 s; s \<leftarrow> skip_char CHR ''-'' s; (m, s) \<leftarrow> fixed_digits 2 s; s \<leftarrow> skip_char CHR ''-'' s;
     (d, s) \<leftarrow> fixed_digits 2 s; s \<leftarrow> skip_char CHR ''T'' s; (hour, s) \<leftarrow> short_digits s; s \<leftarrow> skip_char CHR '':'' s;
     (minute, s) \<leftarrow> fixed_digits 2 s; s \<leftarrow> skip_char CHR '':'' s; (sec, s) \<leftarrow> fixed_digits 2 s;
     (offset, rest) \<leftarrow> parse_zone (snd (parse_fraction s));
     if m < 1 \<or> m > 12 \<or> d < 1 \<or> d > daysIn m y \<or> hour > 23 \<or> minute > 59 \<or> sec > 59 \<or> rest \<noteq> [] then None
     else Some (day_of_civil y m d * nanos_per_day + (hour * 3600 + minute * 60 + sec) * Second + fst (parse_fraction s) - offset * Second) }"

section \<open>The round trip\<close>

lemma nat_digits_length: "n < 10 ^ w \<Longrightarrow> 0 < w \<Longrightarrow> length (nat_digits n) \<le> w"
proof (induction n arbitrary: w rule: nat_digits.induct)
  case (1 n)
  show ?case
  proof (cases "n < 10")
    case False
    then obtain v where v: "w = Suc v" "0 < v" using 1(2,3) by (cases w; cases "w - 1") auto
    then have "n div 10 < 10 ^ v" using 1(2) by (simp add: less_mult_imp_div_less mult.commute)
    then show ?thesis using 1(1) [OF False _ v(2)] False v by (subst nat_digits.simps) simp
  qed (use 1(3) in \<open>subst nat_digits.simps, simp\<close>)
qed

lemma pad_digits:
  assumes "0 \<le> n" "n < 10 ^ w" "0 < w"
  shows "length (pad w n) = w" "list_all is_digit (pad w n)" "int (digits_value (pad w n)) = n"
proof -
  have p: "pad w n = replicate (w - length (nat_digits (nat n))) CHR ''0'' @ nat_digits (nat n)" using assms by (simp add: pad_def Let_def)
  have "nat n < 10 ^ w" using assms by (simp add: nat_less_iff)
  then show "length (pad w n) = w" using nat_digits_length [of "nat n" w] assms p by simp
  show "list_all is_digit (pad w n)" using p nat_digits_all [of "nat n"] by (auto simp: list_all_iff is_digit_def)
  show "int (digits_value (pad w n)) = n" using p assms by (simp add: digits_value_append)
qed

lemma fixed_pad: "0 \<le> n \<Longrightarrow> n < 10 ^ w \<Longrightarrow> 0 < w \<Longrightarrow> fixed_digits w (pad w n @ r) = Some (n, r)"
  by (simp add: fixed_digits_def pad_digits)

lemma short_pad: "0 \<le> n \<Longrightarrow> n < 100 \<Longrightarrow> short_digits (pad 2 n @ r) = Some (n, r)"
  using fixed_pad [of n 2 r] by (simp add: short_digits_def)

lemma skip_char_Cons [simp]: "skip_char c (c # r) = Some r"
  by (simp add: skip_char_def)

lemma drop_zeros: "\<exists>k. s = rev (dropWhile (\<lambda>c. c = CHR ''0'') (rev s)) @ replicate k CHR ''0''"
proof -
  have "takeWhile (\<lambda>c. c = CHR ''0'') (rev s) = replicate (length (takeWhile (\<lambda>c. c = CHR ''0'') (rev s))) CHR ''0''"
    by (intro replicate_eqI) (auto dest: set_takeWhileD)
  then have "rev (takeWhile (\<lambda>c. c = CHR ''0'') (rev s)) = replicate (length (takeWhile (\<lambda>c. c = CHR ''0'') (rev s))) CHR ''0''"
    by (metis rev_replicate)
  moreover have "s = rev (dropWhile (\<lambda>c. c = CHR ''0'') (rev s)) @ rev (takeWhile (\<lambda>c. c = CHR ''0'') (rev s))"
    by (metis rev_append rev_rev_ident takeWhile_dropWhile_id)
  ultimately show ?thesis by metis
qed

lemma parse_fraction_of: "0 \<le> ns \<Longrightarrow> ns < 10 ^ 9 \<Longrightarrow> parse_fraction (fraction ns @ ''Z'') = (ns, ''Z'')"
proof (cases "ns = 0")
  case False
  assume r: "0 \<le> ns" "ns < 10 ^ 9"
  note p = pad_digits [OF r, simplified]
  define ds where ds: "ds = rev (dropWhile (\<lambda>c. c = CHR ''0'') (rev (pad 9 ns)))"
  obtain k where k: "pad 9 ns = ds @ replicate k CHR ''0''" using drop_zeros [of "pad 9 ns"] ds by blast
  have len: "length ds + k = 9" using arg_cong [OF k, of length] p(1) by simp
  have v: "int (digits_value ds) * 10 ^ k = ns" using arg_cong [OF k, of digits_value] p(3) by (simp add: digits_value_append)
  have d: "\<forall>c \<in> set ds. is_digit c" using p(2) by (simp add: k list_all_iff)
  have ne: "ds \<noteq> []" using v False by (cases ds) auto
  then have h: "is_digit (hd (ds @ ''Z''))" using d by (cases ds) auto
  have z: "\<not> is_digit CHR ''Z''" by (simp add: is_digit_def)
  have w: "takeWhile is_digit (ds @ ''Z'') = ds" "dropWhile is_digit (ds @ ''Z'') = ''Z''"
    using cut_at [where P = is_digit, OF d z, of "[]"] by simp_all
  have l: "take 9 ds = ds" "9 - length ds = k" using len by simp_all
  have "parse_fraction (fraction ns @ ''Z'') = parse_fraction (CHR ''.'' # ds @ ''Z'')" using False by (simp add: fraction_def ds)
  also have "\<dots> = (ns, ''Z'')" unfolding parse_fraction_def using h w l v by (simp add: Let_def)
  finally show ?thesis .
qed (simp add: fraction_def parse_fraction_def)

text \<open>The first instant that is written with a year of five digits.\<close>

definition year_10000 :: time where "year_10000 = 3652059 * nanos_per_day"

lemma clock_parts: "s div 3600 * 3600 + s div 60 mod 60 * 60 + s mod 60 = s" for s :: int
proof -
  define q a b where q: "q = s div 60" "a = q div 60" "b = q mod 60"
  have "s div 3600 = a" using zdiv_zmult2_eq [of 60 s 60] by (simp add: q)
  moreover have "q = a * 60 + b" "s = q * 60 + s mod 60" by (simp_all add: q)
  ultimately show ?thesis unfolding q(1,3) [symmetric] by linarith
qed

theorem ParseRFC3339Nano_Format:
  assumes "0 \<le> t" "t < year_10000"
  shows "ParseRFC3339Nano (FormatRFC3339Nano t) = Some t"
proof -
  define day ns where dn: "day = t div nanos_per_day" "ns = t mod nanos_per_day"
  obtain y m d where c: "civil day = (y, m, d)" by (cases "civil day") auto
  have n: "nanos_per_day = 86400 * Second" "Second = 10 ^ 9" by (simp_all add: nanos_per_day_def Second_def)
  have day: "0 \<le> day" "day < 3652059" using assms unfolding dn n year_10000_def by simp_all
  have ns: "0 \<le> ns" "ns < 86400 * 10 ^ 9" unfolding dn n by simp_all
  note cd = civil_day [OF c]
  have y: "0 \<le> y" "y < 10 ^ 4" "0 \<le> m" "m < 100" "0 \<le> d" "d < 100"
    using cd day by (auto simp: daysIn_def split: if_splits)
  define hh mi ss fr where p: "hh = ns div Second div 3600" "mi = ns div Second div 60 mod 60" "ss = ns div Second mod 60" "fr = ns mod Second"
  have r: "0 \<le> hh" "hh \<le> 23" "0 \<le> mi" "mi \<le> 59" "0 \<le> ss" "ss \<le> 59"
    using ns pos_mod_bound [of 60 "ns div Second div 60"] pos_mod_bound [of 60 "ns div Second"] unfolding p n by simp_all
  have f: "parse_fraction (fraction fr @ ''Z'') = (fr, ''Z'')" by (rule parse_fraction_of) (simp_all add: n p)
  have z: "parse_zone ''Z'' = Some (0, [])" by (simp add: parse_zone_def)
  have "FormatRFC3339Nano t = pad 4 y @ ''-'' @ pad 2 m @ ''-'' @ pad 2 d @ ''T'' @ pad 2 hh @ '':'' @ pad 2 mi @ '':'' @ pad 2 ss @ fraction fr @ ''Z''"
    unfolding FormatRFC3339Nano_def dn [symmetric] Let_def c prod.case p ..
  also have "ParseRFC3339Nano \<dots> = Some (day_of_civil y m d * nanos_per_day + (hh * 3600 + mi * 60 + ss) * Second + fr)"
    unfolding ParseRFC3339Nano_def using y r cd by (simp add: fixed_pad short_pad f z)
  also have "hh * 3600 + mi * 60 + ss = ns div Second" unfolding p by (rule clock_parts)
  finally show ?thesis using cd dn by (simp add: p)
qed

end
