(* ===== verification/Listing.thy ===== *)
theory Listing
  imports Rfc3339 Base64 TenancyService ArtifactService
begin

text \<open>
  The lists that come page by page: tenants, projects and artifacts by the time they were created,
  audit records by their sequence number. A page ends with a cursor that carries the key of its last
  row, and the next page asks for the rows before it. The rows that an \<^verbatim>\<open>ORDER BY\<close> leaves equal come in
  the order of the table. The locale \<open>keyset\<close> is the contract of such a list; what it gives is that
  following the cursors enumerates the rows exactly once, newest first, while the table grows.
\<close>

section \<open>Numbers in text\<close>

text \<open>\<^verbatim>\<open>strconv.ParseInt(s, 10, 64)\<close>, and \<^verbatim>\<open>Atoi\<close> on a 64-bit machine.\<close>

definition ParseInt :: "string \<Rightarrow> int option" where
  "ParseInt s = (let neg = HasPrefix s ''-''; ds = (if neg \<or> HasPrefix s ''+'' then drop 1 s else s);
       n = (if neg then - int (digits_value ds) else int (digits_value ds))
     in if ds = [] \<or> \<not> list_all is_digit ds \<or> n < - (2 ^ 63) \<or> 2 ^ 63 \<le> n then None else Some n)"

lemma nat_digits_sign: "\<not> HasPrefix (nat_digits n) ''-''" "\<not> HasPrefix (nat_digits n) ''+''"
  using nat_digits_all [of n] by (auto simp: HasPrefix_def list_all_iff is_digit_def take_Suc_conv_app_nth
      dest!: arg_cong [where f = hd] split: list.splits) (cases "nat_digits n"; auto)+

lemma ParseInt_Itoa: "- (2 ^ 63) \<le> n \<Longrightarrow> n < 2 ^ 63 \<Longrightarrow> ParseInt (Itoa n) = Some n"
  using nat_digits_all [of "nat n"] nat_digits_all [of "nat (- n)"]
  by (cases "n < 0") (simp_all add: ParseInt_def Itoa_def Let_def nat_digits_sign HasPrefix_def [of "_ # _"])

section \<open>Pages\<close>

text \<open>The limit of a list, \<^verbatim>\<open>limit <= 0 || limit > 200\<close>, and what the repositories make of the rows: one
  more than the limit is fetched to see whether there is a next page.\<close>

(*src internal/tenancy/infra/postgres.go:194-197#TenantRepo.List*)
definition page_limit :: "int \<Rightarrow> nat" where
  "page_limit n = nat (if n \<le> 0 \<or> n > 200 then 50 else n)"

(*src internal/tenancy/infra/postgres.go:225-230#TenantRepo.List*)
definition cut_page :: "('r \<Rightarrow> int) \<Rightarrow> (int \<Rightarrow> string) \<Rightarrow> nat \<Rightarrow> 'r list \<Rightarrow> 'r list \<times> string" where
  "cut_page idx enc limit fetched = (if length fetched > limit
     then (take limit fetched, enc (idx (last (take limit fetched)))) else (fetched, ''''))"

definition newest_first :: "('r \<Rightarrow> int) \<Rightarrow> 'r list \<Rightarrow> 'r list" where
  "newest_first idx = sort_key (\<lambda>r. - idx r)"

definition before :: "('r \<Rightarrow> int) \<Rightarrow> int option \<Rightarrow> 'r \<Rightarrow> bool" where
  "before idx c r \<longleftrightarrow> (case c of None \<Rightarrow> True | Some k \<Rightarrow> idx r < k)"

text \<open>\<^verbatim>\<open>SELECT ... WHERE p AND idx < cursor ORDER BY idx DESC LIMIT limit + 1\<close>.\<close>

definition select_page ::
  "sql_error option \<Rightarrow> ('r \<Rightarrow> int) \<Rightarrow> ('r \<Rightarrow> bool) \<Rightarrow> int option \<Rightarrow> nat \<Rightarrow> 'r list \<Rightarrow> sql_error + 'r list" where
  "select_page fault idx p c limit rows = map_sum id (\<lambda>rs. take (limit + 1) (newest_first idx rs))
     (query_rows fault (\<lambda>r. p r \<and> before idx c r) rows)"

text \<open>The cursor of a request: no cursor, or one that has to decode.\<close>

definition read_cursor :: "(string \<Rightarrow> int option) \<Rightarrow> go_error \<Rightarrow> string \<Rightarrow> int option result" where
  "read_cursor dec err c = (if c = '''' then Inr None else case dec c of None \<Rightarrow> Inl err | Some k \<Rightarrow> Inr (Some k))"

definition keyset_list ::
  "('r \<Rightarrow> int) \<Rightarrow> (int \<Rightarrow> string) \<Rightarrow> (string \<Rightarrow> int option) \<Rightarrow> go_error \<Rightarrow> (sql_error \<Rightarrow> go_error) \<Rightarrow> sql_error option \<Rightarrow>
   ('r \<Rightarrow> bool) \<Rightarrow> string \<Rightarrow> int \<Rightarrow> 'r list \<Rightarrow> ('r list \<times> string) result" where
  "keyset_list idx enc dec bad tr fault p cursor limit rows = bindR (read_cursor dec bad cursor) (\<lambda>c.
     bindR (row_result tr (select_page fault idx p c (page_limit limit) rows)) (\<lambda>rs.
     Inr (cut_page idx enc (page_limit limit) rs)))"

text \<open>A client that follows the cursors: \<open>page k c\<close> is the answer to its \<open>k\<close>-th request. \<open>None\<close> is a client
  that has not seen the end after the given number of requests.\<close>

fun follow :: "nat \<Rightarrow> (nat \<Rightarrow> string \<Rightarrow> ('r list \<times> string) result) \<Rightarrow> nat \<Rightarrow> string \<Rightarrow> 'r list result option" where
  "follow 0 page k c = None"
| "follow (Suc fuel) page k c = (case page k c of
     Inl e \<Rightarrow> Some (Inl e)
   | Inr (rs, next) \<Rightarrow> if next = '''' then Some (Inr rs)
       else map_option (map_sum id (\<lambda>more. rs @ more)) (follow fuel page (Suc k) next))"

section \<open>Following the cursors\<close>

lemma page_limit_pos: "0 < page_limit n"
  by (simp add: page_limit_def)

lemma newest_first_perm [simp]: "mset (newest_first idx rs) = mset rs" "set (newest_first idx rs) = set rs"
  by (simp_all add: newest_first_def)

lemma newest_first_filter: "newest_first idx (filter p rs) = filter p (newest_first idx rs)"
  by (simp add: newest_first_def filter_sort)

lemma newest_first_decreasing:
  assumes "distinct (map idx rs)"
  shows "sorted_wrt (\<lambda>a b. idx b < idx a) (newest_first idx rs)"
proof -
  let ?s = "newest_first idx rs"
  have "distinct (map idx ?s)" using assms mset_eq_imp_distinct_iff [of "map idx ?s" "map idx rs"] by simp
  then have "distinct (map (\<lambda>r. - idx r) ?s)" by (simp add: distinct_map inj_on_def)
  moreover have "sorted (map (\<lambda>r. - idx r) ?s)" by (simp add: newest_first_def)
  ultimately have "sorted_wrt (<) (map (\<lambda>r. - idx r) ?s)" unfolding strict_sorted_iff by blast
  then show ?thesis unfolding sorted_wrt_map by simp
qed

lemma after_page:
  fixes idx :: "'r \<Rightarrow> int"
  assumes "sorted_wrt (\<lambda>a b. idx b < idx a) rs" "0 < n" "n < length rs"
  shows "filter (\<lambda>r. idx r < idx (last (take n rs))) rs = drop n rs"
proof -
  have l: "last (take n rs) = rs ! (n - 1)" using assms(2,3) last_conv_nth [of "take n rs"] by (cases rs) (auto simp: min_def)
  have "idx (rs ! (n - 1)) \<le> idx r" if r: "r \<in> set (take n rs)" for r
  proof -
    obtain i where "i < length (take n rs)" "take n rs ! i = r" using r unfolding in_set_conv_nth by blast
    then have i: "i < n" "r = rs ! i" by simp_all
    show ?thesis
    proof (cases "i = n - 1")
      case False
      then have "i < n - 1" "n - 1 < length rs" using i assms(3) by linarith+
      then show ?thesis using sorted_wrt_nth_less [OF assms(1)] unfolding i(2) by (intro less_imp_le) blast
    qed (simp add: i)
  qed
  then have "filter (\<lambda>r. idx r < idx (last (take n rs))) (take n rs) = []" by (fastforce simp: filter_empty_conv l)
  moreover have "idx r < idx (rs ! (n - 1))" if r: "r \<in> set (drop n rs)" for r
  proof -
    obtain i where "i < length (drop n rs)" "drop n rs ! i = r" using r unfolding in_set_conv_nth by blast
    then have i: "i < length rs - n" "r = rs ! (n + i)" using assms(3) by simp_all
    then show ?thesis using sorted_wrt_nth_less [OF assms(1), of "n - 1" "n + i"] assms by simp
  qed
  then have "filter (\<lambda>r. idx r < idx (last (take n rs))) (drop n rs) = drop n rs" by (simp add: filter_id_conv l)
  ultimately show ?thesis by (metis append_Nil append_take_drop_id filter_append)
qed

text \<open>Whatever the cursor, a page holds matching rows of the table, and no more than the limit.\<close>

lemma keyset_list_rows:
  assumes "keyset_list idx enc dec bad tr fault p c limit rows = Inr (rs, next)"
  shows "set rs \<subseteq> {r \<in> set rows. p r} \<and> length rs \<le> page_limit limit"
proof -
  obtain k where "cut_page idx enc (page_limit limit)
      (take (page_limit limit + 1) (newest_first idx (filter (\<lambda>r. p r \<and> before idx k r) rows))) = (rs, next)"
    using assms by (auto simp: keyset_list_def select_page_def query_rows_def row_result_def monad_inv split: option.splits sum.splits)
  then show ?thesis by (auto simp: cut_page_def min_def split: if_splits dest!: in_set_takeD)
qed

lemma page_limit_bound: "page_limit n \<le> 200"
  by (simp add: page_limit_def nat_le_iff)

locale keyset =
  fixes idx :: "'r \<Rightarrow> int" and enc :: "int \<Rightarrow> string" and dec :: "string \<Rightarrow> int option" and valid :: "int \<Rightarrow> bool"
  assumes roundtrip: "valid k \<Longrightarrow> dec (enc k) = Some k"
    and cursor [simp]: "enc k \<noteq> ''''"
begin

lemma cut_page_last: "length rs \<le> n \<Longrightarrow> cut_page idx enc n rs = (rs, '''')"
  by (simp add: cut_page_def)

lemma cut_page_next: "n < length rs \<Longrightarrow> cut_page idx enc n (take (n + 1) rs) = (take n rs, enc (idx (last (take n rs))))"
  by (simp add: cut_page_def min_def)

text \<open>A client at cursor \<open>c\<close>, while the rows before the cursor stay what they were.\<close>

lemma follow_from:
  assumes "sorted_wrt (\<lambda>a b. idx b < idx a) base" "\<forall>r \<in> set base. valid (idx r)" "0 < n"
    and pages: "\<And>k r. r \<in> set base \<Longrightarrow> page (Suc k) (enc (idx r)) = Inr (cut_page idx enc n (take (n + 1) (filter (\<lambda>x. idx x < idx r) base)))"
    and start: "page k c = Inr (cut_page idx enc n (take (n + 1) rs))" "filter p base = rs"
    and closed: "\<And>r x. r \<in> set rs \<Longrightarrow> x \<in> set base \<Longrightarrow> idx x < idx r \<Longrightarrow> p x"
    and fuel: "length rs < fuel"
  shows "follow fuel page k c = Some (Inr rs)"
  using start closed fuel
proof (induction fuel arbitrary: k c rs p)
  case (Suc fuel)
  show ?case
  proof (cases "length rs \<le> n")
    case True
    then show ?thesis using Suc.prems(1) by (simp add: cut_page_def)
  next
    case False
    then have n: "n < length rs" by simp
    have rs: "sorted_wrt (\<lambda>a b. idx b < idx a) rs" using assms(1) Suc.prems(2) sorted_wrt_filter by blast
    let ?l = "last (take n rs)"
    have "take n rs \<noteq> []" using assms(3) n by auto
    then have l: "?l \<in> set rs" "?l \<in> set base" using last_in_set [of "take n rs"] in_set_takeD Suc.prems(2) by fastforce+
    have d: "filter (\<lambda>x. idx x < idx ?l) base = drop n rs"
    proof -
      have "filter (\<lambda>x. idx x < idx ?l) base = filter (\<lambda>x. p x \<and> idx x < idx ?l) base"
        using Suc.prems(3) [OF l(1)] by (intro filter_cong refl) blast
      also have "\<dots> = filter (\<lambda>x. idx x < idx ?l) rs" unfolding Suc.prems(2) [symmetric] filter_filter by (simp only: conj_commute)
      finally have "filter (\<lambda>x. idx x < idx ?l) base = filter (\<lambda>x. idx x < idx ?l) rs" .
      then show ?thesis using after_page [OF rs assms(3) n] by simp
    qed
    have "follow fuel page (Suc k) (enc (idx ?l)) = Some (Inr (drop n rs))"
    proof (rule Suc.IH)
      show "page (Suc k) (enc (idx ?l)) = Inr (cut_page idx enc n (take (n + 1) (drop n rs)))" using pages [OF l(2)] d by simp
      show "filter (\<lambda>x. idx x < idx ?l) base = drop n rs" by (rule d)
      show "length (drop n rs) < fuel" using Suc.prems(4) n assms(3) by simp
      fix r x assume "r \<in> set (drop n rs)" "idx x < idx r"
      moreover from this have "r \<in> set (filter (\<lambda>x. idx x < idx ?l) base)" unfolding d by blast
      ultimately show "idx x < idx ?l" by (simp only: set_filter mem_Collect_eq) linarith
    qed
    then show ?thesis using Suc.prems(1) cut_page_next [OF n] by simp
  qed
qed simp

lemma follow_all:
  assumes "sorted_wrt (\<lambda>a b. idx b < idx a) base" "\<forall>r \<in> set base. valid (idx r)" "0 < n"
    and "page 0 '''' = Inr (cut_page idx enc n (take (n + 1) base))"
    and "\<And>k r. r \<in> set base \<Longrightarrow> page (Suc k) (enc (idx r)) = Inr (cut_page idx enc n (take (n + 1) (filter (\<lambda>x. idx x < idx r) base)))"
  shows "follow (Suc (length base)) page 0 '''' = Some (Inr base)"
  by (rule follow_from [OF assms(1-3) assms(5) assms(4), where p = "\<lambda>_. True"]) simp_all

lemma keyset_list_first: "keyset_list idx enc dec bad tr None p '''' limit rows =
    Inr (cut_page idx enc (page_limit limit) (take (page_limit limit + 1) (newest_first idx (filter p rows))))"
  by (simp add: keyset_list_def read_cursor_def select_page_def query_rows_def row_result_def before_def)

lemma keyset_list_next: "valid k \<Longrightarrow> keyset_list idx enc dec bad tr None p (enc k) limit rows =
    Inr (cut_page idx enc (page_limit limit) (take (page_limit limit + 1) (newest_first idx (filter (\<lambda>r. p r \<and> idx r < k) rows))))"
  by (simp add: keyset_list_def read_cursor_def select_page_def query_rows_def row_result_def before_def roundtrip)

text \<open>The list is complete: the pages are the rows of the first request, whatever is added after them.\<close>

lemma lists_complete:
  assumes "distinct (map idx (filter p (tbl 0)))" "\<And>r. r \<in> set (tbl 0) \<Longrightarrow> p r \<Longrightarrow> valid (idx r)"
    and "\<And>k r. r \<in> set (tbl 0) \<Longrightarrow> p r \<Longrightarrow> filter (\<lambda>x. p x \<and> idx x < idx r) (tbl k) = filter (\<lambda>x. p x \<and> idx x < idx r) (tbl 0)"
  shows "follow (Suc (length (filter p (tbl 0)))) (\<lambda>k c. keyset_list idx enc dec bad tr None p c limit (tbl k)) 0 '''' =
    Some (Inr (newest_first idx (filter p (tbl 0))))"
proof -
  let ?base = "newest_first idx (filter p (tbl 0))"
  have "follow (Suc (length ?base)) (\<lambda>k c. keyset_list idx enc dec bad tr None p c limit (tbl k)) 0 '''' = Some (Inr ?base)"
  proof (rule follow_all [OF newest_first_decreasing [OF assms(1)]])
    show "0 < page_limit limit" by (rule page_limit_pos)
    show "keyset_list idx enc dec bad tr None p '''' limit (tbl 0) =
        Inr (cut_page idx enc (page_limit limit) (take (page_limit limit + 1) ?base))" by (rule keyset_list_first)
    show "\<forall>r \<in> set ?base. valid (idx r)" using assms(2) by auto
    fix k r assume "r \<in> set ?base"
    then have r: "r \<in> set (tbl 0)" "p r" by auto
    have "newest_first idx (filter (\<lambda>x. p x \<and> idx x < idx r) (tbl (Suc k))) = filter (\<lambda>x. idx x < idx r) ?base"
      unfolding assms(3) [OF r, of "Suc k"] newest_first_filter filter_filter by (simp only: conj_commute)
    then show "keyset_list idx enc dec bad tr None p (enc (idx r)) limit (tbl (Suc k)) =
        Inr (cut_page idx enc (page_limit limit) (take (page_limit limit + 1) (filter (\<lambda>x. idx x < idx r) ?base)))"
      using keyset_list_next [OF assms(2) [OF r]] by simp
  qed
  moreover have "length ?base = length (filter p (tbl 0))" by (simp add: newest_first_def)
  ultimately show ?thesis by simp
qed

end

section \<open>Cursors\<close>

(*src internal/tenancy/infra/postgres.go#encodeTimeCursor*)
definition encodeTimeCursor :: "time \<Rightarrow> string" where
  "encodeTimeCursor t = b64_encode (''t'' @ FormatRFC3339Nano t)"

(*src internal/tenancy/infra/postgres.go#decodeTimeCursor*)
definition decodeTimeCursor :: "string \<Rightarrow> time option" where
  "decodeTimeCursor c = (case b64_decode c of None \<Rightarrow> None | Some raw \<Rightarrow>
     if length raw < 2 \<or> hd raw \<noteq> CHR ''t'' then None else ParseRFC3339Nano (tl raw))"

(*src internal/artifactgraph/infra/postgres.go#encodeCursor*)
definition encodeCursor :: "time \<Rightarrow> string" where
  "encodeCursor t = b64_encode (''t'' @ FormatRFC3339Nano t)"

(*src internal/artifactgraph/infra/postgres.go#decodeCursor*)
definition decodeCursor :: "string \<Rightarrow> time option" where
  "decodeCursor c = (case b64_decode c of None \<Rightarrow> None | Some raw \<Rightarrow>
     if length raw < 2 \<or> hd raw \<noteq> CHR ''t'' then None else ParseRFC3339Nano (tl raw))"

(*src internal/audit/infra/postgres.go#encodeCursor*)
definition encodeSequence :: "int \<Rightarrow> string" where "encodeSequence n = b64_encode (''s'' @ Itoa n)"

(*src internal/audit/infra/postgres.go#decodeCursor*)
definition decodeSequence :: "string \<Rightarrow> int option" where
  "decodeSequence c = (case b64_decode c of None \<Rightarrow> None | Some raw \<Rightarrow>
     if length raw < 2 \<or> hd raw \<noteq> CHR ''s'' then None else ParseInt (tl raw))"

definition cursor_time :: "time \<Rightarrow> bool" where "cursor_time t \<longleftrightarrow> 0 \<le> t \<and> t < year_10000"

lemma b64_encode_nonempty: "b64_encode (a # s) \<noteq> ''''"
  by (cases s; cases "tl s") (auto simp: Let_def)

lemma Format_nonempty: "FormatRFC3339Nano t \<noteq> ''''"
  by (simp add: FormatRFC3339Nano_def Let_def split: prod.split)

lemma Itoa_nonempty: "Itoa n \<noteq> ''''"
  by (simp add: Itoa_def)

interpretation by_time: keyset idx encodeTimeCursor decodeTimeCursor cursor_time for idx :: "'r \<Rightarrow> time"
  by unfold_locales (auto simp: encodeTimeCursor_def decodeTimeCursor_def b64_encode_nonempty b64_roundtrip [of "_ # _"] cursor_time_def
      ParseRFC3339Nano_Format Format_nonempty Suc_le_eq not_less)

interpretation by_creation: keyset idx encodeCursor decodeCursor cursor_time for idx :: "'r \<Rightarrow> time"
  by unfold_locales (auto simp: encodeCursor_def decodeCursor_def b64_encode_nonempty b64_roundtrip [of "_ # _"] cursor_time_def
      ParseRFC3339Nano_Format Format_nonempty Suc_le_eq not_less)

interpretation by_sequence: keyset idx encodeSequence decodeSequence "\<lambda>n. - (2 ^ 63) \<le> n \<and> n < 2 ^ 63" for idx :: "'r \<Rightarrow> int"
  by unfold_locales (auto simp: encodeSequence_def decodeSequence_def b64_encode_nonempty b64_roundtrip [of "_ # _"]
      ParseInt_Itoa Itoa_nonempty Suc_le_eq not_less)

section \<open>Tenants and projects\<close>

(*src internal/tenancy/app/service.go#TenantFilter*)
record TenantFilter =
  tf_Status :: State
  tf_Slug :: string
  tf_Cursor :: string
  tf_Limit :: int
  tf_Scope :: "TenantID list"

definition tenant_matches :: "TenantFilter \<Rightarrow> Tenant \<Rightarrow> bool" where
  "tenant_matches f t \<longleftrightarrow> (tf_Status f = '''' \<or> t_Status t = tf_Status f) \<and> (tf_Slug f = '''' \<or> t_Slug t = ToLower (tf_Slug f)) \<and>
     (tf_Scope f = [] \<or> t_ID t \<in> set (tf_Scope f))"

(*src internal/tenancy/infra/postgres.go#TenantRepo.List*)
definition TenantRepo_List :: "sql_error option \<Rightarrow> TenantFilter \<Rightarrow> Tenant list \<Rightarrow> (Tenant list \<times> string) result" where
  "TenantRepo_List fault f rows = (let op = ''tenancy.ListTenants'' in
     keyset_list t_CreatedAt encodeTimeCursor decodeTimeCursor (Invalid op ''tenant.invalid_cursor'')
       (\<lambda>err. Wrap (driver_error err) op KindUnavailable ''tenant.read_failed'')
       fault (tenant_matches f) (tf_Cursor f) (tf_Limit f) rows)"

(*src internal/tenancy/app/service.go#Service.ListTenants*)
definition ListTenants :: "env \<Rightarrow> TenantFilter \<Rightarrow> Principal \<Rightarrow> (Tenant list \<times> string) result" where
  "ListTenants ev f actor =
     (if \<not> Has (pr_Permissions actor) TenantRead then Inl (Forbidden ''tenancy.ListTenants'' ''authz.denied'')
      else let f1 = (if pr_Kind actor \<noteq> KindSystem \<and> \<not> Has (pr_Permissions actor) TenantCreate
          then f\<lparr>tf_Scope := [pr_TenantID actor]\<rparr> else f)
        in TenantRepo_List (ev_rfault ev 0) f1 (w_tenants (ev_read ev 0)))"

(*src internal/tenancy/app/service.go#ProjectFilter*)
record ProjectFilter =
  pf_TenantID :: TenantID
  pf_Status :: State
  pf_Phase :: PDLCPhase
  pf_Cursor :: string
  pf_Limit :: int

definition project_matches :: "ProjectFilter \<Rightarrow> Project \<Rightarrow> bool" where
  "project_matches f p \<longleftrightarrow> pj_TenantID p = pf_TenantID f \<and> (pf_Status f = '''' \<or> pj_Status p = pf_Status f) \<and>
     (pf_Phase f = '''' \<or> pj_Phase p = pf_Phase f)"

(*src internal/tenancy/infra/postgres.go#ProjectRepo.List*)
definition ProjectRepo_List :: "sql_error option \<Rightarrow> ProjectFilter \<Rightarrow> Project list \<Rightarrow> (Project list \<times> string) result" where
  "ProjectRepo_List fault f rows = (let op = ''tenancy.ListProjects'' in
     keyset_list pj_CreatedAt encodeTimeCursor decodeTimeCursor (Invalid op ''project.invalid_cursor'')
       (\<lambda>err. Wrap (driver_error err) op KindUnavailable ''project.read_failed'')
       fault (project_matches f) (pf_Cursor f) (pf_Limit f) rows)"

(*src internal/tenancy/app/service.go#Service.ListProjects*)
definition ListProjects :: "env \<Rightarrow> ProjectFilter \<Rightarrow> Principal \<Rightarrow> (Project list \<times> string) result" where
  "ListProjects ev f actor = (let t = pf_TenantID f in
     failR (Require (ev_policy ev) (ev_now ev 0) actor ProjectRead ((tenant_resource t)\<lparr>res_Type := ''project'', res_ID := ''''\<rparr>))
       (ReadOnly ev (scope t None (pr_ID actor)) 0 (\<lambda>w. ProjectRepo_List (ev_rfault ev 0) f (w_projects w))))"

section \<open>Artifacts\<close>

(*src internal/artifactgraph/app/service.go#ArtifactFilter*)
record ArtifactFilter =
  af_TenantID :: TenantID
  af_ProjectID :: ProjectID
  af_Type :: ArtifactType
  af_Status :: State
  af_Label :: "string \<times> string"
  af_Cursor :: string
  af_Limit :: int

definition artifact_matches :: "ArtifactFilter \<Rightarrow> Artifact \<Rightarrow> bool" where
  "artifact_matches f a \<longleftrightarrow> a_TenantID a = af_TenantID f \<and> a_ProjectID a = af_ProjectID f \<and>
     (af_Type f = '''' \<or> a_Type a = af_Type f) \<and> (af_Status f = '''' \<or> a_Status a = af_Status f) \<and>
     (fst (af_Label f) = '''' \<or> map_of (a_Labels a) (fst (af_Label f)) = Some (snd (af_Label f)))"

(*src internal/artifactgraph/infra/postgres.go#Postgres.ListArtifacts*)
definition repo_ListArtifacts :: "sql_error option \<Rightarrow> ArtifactFilter \<Rightarrow> Artifact list \<Rightarrow> (Artifact list \<times> string) result" where
  "repo_ListArtifacts fault f rows = (let op = ''artifactgraph.ListArtifacts'' in
     keyset_list a_CreatedAt encodeCursor decodeCursor (Invalid op ''artifact.invalid_cursor'')
       (\<lambda>err. Wrap (driver_error err) op KindUnavailable ''artifact.read_failed'')
       fault (artifact_matches f) (af_Cursor f) (af_Limit f) rows)"

(*src internal/artifactgraph/app/service.go#Service.List*)
definition ListArtifacts :: "env \<Rightarrow> ArtifactFilter \<Rightarrow> Principal \<Rightarrow> (Artifact list \<times> string) result" where
  "ListArtifacts ev f actor = (let t = af_TenantID f; p = af_ProjectID f in
     failR (Require (ev_policy ev) (ev_now ev 0) actor ArtifactRead (graph_resource t p ''artifact'' ''''))
       (ReadOnly ev (graph_scope t p actor) 0 (\<lambda>w. repo_ListArtifacts (ev_rfault ev 0) f (w_artifacts w))))"

section \<open>The audit trail\<close>

(*src internal/audit/app/writer.go#Filter*)
record AuditFilter =
  uf_TenantID :: TenantID
  uf_ProjectID :: "ProjectID option"
  uf_Action :: string
  uf_Actor :: PrincipalID
  uf_Outcome :: string
  uf_Severity :: string
  uf_From :: time
  uf_To :: time
  uf_Cursor :: string
  uf_Limit :: int

text \<open>\<^verbatim>\<open>LIKE\<close>: a backslash takes the next character as it is, an underscore stands for one character (a
  byte and the bytes that continue it) and a percent sign for any text. The filter does not quote
  what the caller put before the star.\<close>

definition continues :: "char \<Rightarrow> bool" where "continues c \<longleftrightarrow> 128 \<le> (of_char c :: nat) \<and> (of_char c :: nat) < 192"

fun like :: "string \<Rightarrow> string \<Rightarrow> bool" where
  "like [] s \<longleftrightarrow> s = []"
| "like (p # ps) s \<longleftrightarrow>
     (if p = CHR 0x5C \<and> ps \<noteq> [] then (case s of [] \<Rightarrow> False | c # cs \<Rightarrow> c = hd ps \<and> like (tl ps) cs)
      else if p = CHR ''%'' then list_ex (\<lambda>k. like ps (drop k s)) [0..<Suc (length s)]
      else if p = CHR ''_'' then (case s of [] \<Rightarrow> False | c # cs \<Rightarrow> like ps (dropWhile continues cs))
      else (case s of [] \<Rightarrow> False | c # cs \<Rightarrow> c = p \<and> like ps cs))"

(*src internal/audit/infra/postgres.go:296-302#Postgres.List*)
definition action_matches :: "string \<Rightarrow> string \<Rightarrow> bool" where
  "action_matches pattern action \<longleftrightarrow> pattern = '''' \<or>
     (if HasSuffix pattern ''*'' then like (butlast pattern @ ''%'') action else action = pattern)"

(*src internal/audit/infra/postgres.go:285-322#Postgres.List*)
definition audit_matches :: "AuditFilter \<Rightarrow> Record \<Rightarrow> bool" where
  "audit_matches f r \<longleftrightarrow> r_TenantID r = uf_TenantID f \<and>
     (case uf_ProjectID f of None \<Rightarrow> True | Some p \<Rightarrow> r_ProjectID r = Some p) \<and>
     action_matches (uf_Action f) (r_Action r) \<and> (uf_Actor f = '''' \<or> ac_PrincipalID (r_Actor r) = uf_Actor f) \<and>
     (uf_Outcome f = '''' \<or> r_Outcome r = uf_Outcome f) \<and> (uf_Severity f = '''' \<or> r_Severity r = uf_Severity f) \<and>
     (uf_From f = 0 \<or> uf_From f \<le> r_OccurredAt r) \<and> (uf_To f = 0 \<or> r_OccurredAt r \<le> uf_To f)"

(*src internal/audit/infra/postgres.go#Postgres.List*)
definition audit_repo_List :: "sql_error option \<Rightarrow> AuditFilter \<Rightarrow> Record list \<Rightarrow> (Record list \<times> string) result" where
  "audit_repo_List fault f rows = (let op = ''audit.List'' in
     keyset_list r_Sequence encodeSequence decodeSequence (Invalid op ''audit.invalid_cursor'')
       (\<lambda>err. Wrap (driver_error err) op KindUnavailable ''audit.read_failed'')
       fault (audit_matches f) (uf_Cursor f) (uf_Limit f) rows)"

(*src internal/audit/app/writer.go#Service.List*)
definition Audit_List :: "sql_error option \<Rightarrow> audit_db \<Rightarrow> AuditFilter \<Rightarrow> (Record list \<times> string) result" where
  "Audit_List fault s f = audit_repo_List fault (if uf_Limit f \<le> 0 \<or> uf_Limit f > 200 then f\<lparr>uf_Limit := 50\<rparr> else f) (as_records s)"

end
