(* ===== verification/Pages.thy ===== *)
theory Pages
  imports Listing Serve
begin

text \<open>
  What the lists of the service give: the audit trail read page by page while requests go on is the
  trail as it was at the first page, a list of tenants stays within the caller's tenant, and a list by
  creation time loses rows that were created at the same instant.
\<close>

section \<open>The audit trail\<close>

lemma audit_inv_sequences:
  assumes "audit_inv s"
  shows "sorted_wrt (\<lambda>a b. r_Sequence a < r_Sequence b) (tenant_log s t)"
    "r \<in> set (tenant_log s t) \<Longrightarrow> 1 \<le> r_Sequence r \<and> r_Sequence r \<le> int (length (as_records s))"
proof -
  have l: "linked ZeroChainHash 1 (tenant_log s t)" using assms by (simp add: audit_inv_def log_ok_def)
  then show "sorted_wrt (\<lambda>a b. r_Sequence a < r_Sequence b) (tenant_log s t)"
    by (simp add: sorted_wrt_iff_nth_less linked_sequence_nth)
  have "length (tenant_log s t) \<le> length (as_records s)" by (simp add: tenant_log_def)
  then show "r \<in> set (tenant_log s t) \<Longrightarrow> 1 \<le> r_Sequence r \<and> r_Sequence r \<le> int (length (as_records s))"
    by (auto simp: in_set_conv_nth linked_sequence_nth [OF l])
qed

lemma insort_last: "\<forall>y \<in> set ys. f y < f x \<Longrightarrow> insort_key f x ys = ys @ [x]"
  by (induction ys) auto

lemma increasing_newest_first: "sorted_wrt (\<lambda>a b. idx a < idx b) rs \<Longrightarrow> newest_first idx rs = rev rs" for idx :: "'r \<Rightarrow> int"
  by (induction rs) (simp_all add: newest_first_def insort_last)

lemma audit_matches_log: "filter (audit_matches f) (as_records s) = filter (audit_matches f) (tenant_log s (uf_TenantID f))"
  by (auto simp: tenant_log_def audit_matches_def intro!: filter_cong)

lemma Audit_List_keyset: "Audit_List None s (f\<lparr>uf_Cursor := c\<rparr>) = keyset_list r_Sequence encodeSequence decodeSequence
    (Invalid ''audit.List'' ''audit.invalid_cursor'') (\<lambda>err. Wrap (driver_error err) ''audit.List'' KindUnavailable ''audit.read_failed'')
    None (audit_matches f) c (if uf_Limit f \<le> 0 \<or> uf_Limit f > 200 then 50 else uf_Limit f) (as_records s)"
proof -
  have "audit_matches (f\<lparr>uf_Cursor := c\<rparr>) = audit_matches f" "audit_matches (f\<lparr>uf_Cursor := c, uf_Limit := n\<rparr>) = audit_matches f" for n
    by (auto simp: audit_matches_def fun_eq_iff)
  then show ?thesis by (simp add: Audit_List_def audit_repo_List_def Let_def)
qed

text \<open>C27: The audit trail read page by page is complete and stable: while requests go on between the pages
  (the \<open>k\<close>-th page is read from any later state of the database), a client that follows the cursors
  from the first page reaches the end and has then seen every matching record that was there when it
  began, each exactly once, newest first, and none that came after.\<close>

theorem audit_pages_complete:
  assumes "hist (w # past)" "\<And>k. later w (seen k)" "seen 0 = w" "int (length (as_records (w_audit w))) < 2 ^ 63"
  shows "follow (Suc (length (filter (audit_matches f) (as_records (w_audit w)))))
      (\<lambda>k c. Audit_List None (w_audit (seen k)) (f\<lparr>uf_Cursor := c\<rparr>)) 0 '''' =
    Some (Inr (rev (filter (audit_matches f) (as_records (w_audit w)))))"
proof -
  let ?t = "uf_TenantID f" and ?s = "\<lambda>k. w_audit (seen k)"
  have inv: "audit_inv (?s k)" for k using later_inv [OF assms(2)] by (simp add: graph_inv_def)
  have log: "sorted_wrt (\<lambda>a b. r_Sequence a < r_Sequence b) (filter (audit_matches f) (as_records (?s 0)))"
    unfolding audit_matches_log using audit_inv_sequences(1) [OF inv] sorted_wrt_filter by blast
  have seqs: "1 \<le> r_Sequence r \<and> r_Sequence r < 2 ^ 63" if "r \<in> set (as_records (?s 0))" "audit_matches f r" for r
    using audit_inv_sequences(2) [OF inv, of r 0 ?t] that assms(3,4) by (auto simp: tenant_log_def audit_matches_def)
  have grow: "filter (\<lambda>x. audit_matches f x \<and> r_Sequence x < r_Sequence r) (as_records (?s k)) =
      filter (\<lambda>x. audit_matches f x \<and> r_Sequence x < r_Sequence r) (as_records (?s 0))"
    if r: "r \<in> set (as_records (?s 0))" "audit_matches f r" for k r
  proof -
    obtain rs where rs: "as_records (?s k) = as_records (?s 0) @ rs" using assms(2) [of k] assms(3) by (auto simp: later_def)
    have "tenant_log (?s k) ?t = tenant_log (?s 0) ?t @ filter (\<lambda>r. r_TenantID r = ?t) rs" by (simp add: tenant_log_def rs)
    then have lt: "\<forall>a \<in> set (tenant_log (?s 0) ?t). \<forall>b \<in> set (filter (\<lambda>r. r_TenantID r = ?t) rs). r_Sequence a < r_Sequence b"
      using audit_inv_sequences(1) [OF inv, of k ?t] unfolding sorted_wrt_append by (metis sorted_wrt_append)
    have "r \<in> set (tenant_log (?s 0) ?t)" using r by (simp add: tenant_log_def audit_matches_def)
    then have "\<not> (audit_matches f x \<and> r_Sequence x < r_Sequence r)" if "x \<in> set rs" for x
      using bspec [OF bspec [OF lt], of r x] that by (auto simp: audit_matches_def)
    then show ?thesis by (simp add: rs filter_empty_conv)
  qed
  have "distinct (map r_Sequence (filter (audit_matches f) (as_records (?s 0))))" 
    using log strict_sorted_iff [of "map r_Sequence (filter (audit_matches f) (as_records (?s 0)))"] by (simp add: sorted_wrt_map)
  note c = by_sequence.lists_complete [where tbl = "\<lambda>k. as_records (?s k)" and p = "audit_matches f", OF this _ grow]
  have "follow (Suc (length (filter (audit_matches f) (as_records (?s 0)))))
      (\<lambda>k c. Audit_List None (?s k) (f\<lparr>uf_Cursor := c\<rparr>)) 0 '''' =
    Some (Inr (newest_first r_Sequence (filter (audit_matches f) (as_records (?s 0)))))"
    unfolding Audit_List_keyset by (rule c) (use seqs in force)+
  then show ?thesis by (simp add: assms(3) increasing_newest_first [OF log, simplified assms(3)])
qed

lemma after_desk_log: "\<exists>r. as_records (w_audit after_desk) = [r] \<and> r_TenantID r = ''t1''"
proof -
  have "accounted ''t1'' desk (snd (transitionTenant (call_env desk) ''t1'' EventProvisioned [] (system_principal ''t1'') desk))"
    by (rule recordedD [OF tenancy_recorded(2)]) (use provision_served(1) in \<open>simp add: provision_def\<close>)
  then show ?thesis by (auto simp: accounted_def after_desk_def provision_def desk_def empty_log_def)
qed

definition all_of :: "TenantID \<Rightarrow> AuditFilter" where
  "all_of t = \<lparr>uf_TenantID = t, uf_ProjectID = None, uf_Action = '''', uf_Actor = '''', uf_Outcome = '''', uf_Severity = '''',
     uf_From = 0, uf_To = 0, uf_Cursor = '''', uf_Limit = 1\<rparr>"

lemma audit_pages_complete_witness:
  "\<exists>r. as_records (w_audit after_desk) = [r] \<and>
     follow 2 (\<lambda>k c. Audit_List None (w_audit after_desk) (all_of ''t1''\<lparr>uf_Cursor := c\<rparr>)) 0 '''' = Some (Inr [r])"
proof -
  obtain r where r: "as_records (w_audit after_desk) = [r]" "r_TenantID r = ''t1''" using after_desk_log by blast
  have m: "filter (audit_matches (all_of ''t1'')) [r] = [r]" using r(2) by (simp add: audit_matches_def action_matches_def all_of_def)
  have "later after_desk after_desk" using later_refl hist_inv [OF after_desk_hist] by blast
  from audit_pages_complete [OF after_desk_hist this refl, of "all_of ''t1''", unfolded r(1) m] show ?thesis
    using r(1) by (simp add: numeral_2_eq_2 del: follow.simps)
qed

section \<open>Lists of tenants and projects\<close>

text \<open>A caller who is neither the system nor allowed to create tenants lists only its own tenant,
  whatever the request asks for.\<close>

theorem ListTenants_own:
  assumes "ListTenants ev f actor = Inr (ts, next)" "pr_Kind actor \<noteq> KindSystem" "\<not> Has (pr_Permissions actor) TenantCreate"
  shows "Has (pr_Permissions actor) TenantRead \<and> (\<forall>t \<in> set ts. t_ID t = pr_TenantID actor) \<and> length ts \<le> 200"
proof -
  have h: "Has (pr_Permissions actor) TenantRead" using assms(1) by (auto simp: ListTenants_def split: if_splits)
  then have "TenantRepo_List (ev_rfault ev 0) (f\<lparr>tf_Scope := [pr_TenantID actor]\<rparr>) (w_tenants (ev_read ev 0)) = Inr (ts, next)"
    using assms by (simp add: ListTenants_def)
  from keyset_list_rows [OF this [unfolded TenantRepo_List_def Let_def]] show ?thesis
    using h page_limit_bound [of "tf_Limit f"] by (auto simp: tenant_matches_def)
qed

section \<open>Rows created at the same instant\<close>

text \<open>A list by creation time is complete when the times differ.\<close>

theorem artifact_pages_complete:
  assumes "distinct (map a_CreatedAt (filter (artifact_matches f) rows))" "\<forall>a \<in> set rows. cursor_time (a_CreatedAt a)"
  shows "follow (Suc (length (filter (artifact_matches f) rows)))
      (\<lambda>_ c. repo_ListArtifacts None (f\<lparr>af_Cursor := c\<rparr>) rows) 0 '''' =
    Some (Inr (newest_first a_CreatedAt (filter (artifact_matches f) rows)))"
proof -
  have "artifact_matches (f\<lparr>af_Cursor := c\<rparr>) = artifact_matches f" for c by (simp add: artifact_matches_def fun_eq_iff)
  then have "repo_ListArtifacts None (f\<lparr>af_Cursor := c\<rparr>) rows = keyset_list a_CreatedAt encodeCursor decodeCursor
      (Invalid ''artifactgraph.ListArtifacts'' ''artifact.invalid_cursor'')
      (\<lambda>err. Wrap (driver_error err) ''artifactgraph.ListArtifacts'' KindUnavailable ''artifact.read_failed'')
      None (artifact_matches f) c (af_Limit f) rows" for c
    by (simp add: repo_ListArtifacts_def Let_def)
  then show ?thesis using by_creation.lists_complete [where tbl = "\<lambda>_. rows", OF assms(1)] assms(2) by simp
qed

text \<open>It is not when two of them were created at the same instant and a page ends between the two: the
  cursor asks for the rows before that instant, and the second one is on no page.\<close>

theorem ties_are_skipped:
  assumes "a_CreatedAt a = a_CreatedAt b" "cursor_time (a_CreatedAt a)" "artifact_matches f a" "artifact_matches f b"
  shows "follow 3 (\<lambda>_ c. repo_ListArtifacts None (f\<lparr>af_Cursor := c, af_Limit := 1\<rparr>) [a, b]) 0 '''' = Some (Inr [a])"
proof -
  have m: "artifact_matches (f\<lparr>af_Cursor := c, af_Limit := n\<rparr>) = artifact_matches f" for c n by (simp add: artifact_matches_def fun_eq_iff)
  have n: "newest_first a_CreatedAt [a, b] = [a, b]" using assms(1) by (simp add: newest_first_def)
  have l: "page_limit 1 = 1" by (simp add: page_limit_def)
  have "\<not> a_CreatedAt x < a_CreatedAt a" if "x \<in> {a, b}" for x using that assms(1) by auto
  then have f: "filter (\<lambda>r. artifact_matches f r \<and> a_CreatedAt r < a_CreatedAt a) [a, b] = []" by (auto simp: filter_empty_conv)
  let ?page = "\<lambda>c. repo_ListArtifacts None (f\<lparr>af_Cursor := c, af_Limit := 1\<rparr>) [a, b]"
  have k: "?page c = keyset_list a_CreatedAt encodeCursor decodeCursor (Invalid ''artifactgraph.ListArtifacts'' ''artifact.invalid_cursor'')
      (\<lambda>err. Wrap (driver_error err) ''artifactgraph.ListArtifacts'' KindUnavailable ''artifact.read_failed'')
      None (artifact_matches f) c 1 [a, b]" for c
    by (simp add: repo_ListArtifacts_def Let_def m)
  have "filter (artifact_matches f) [a, b] = [a, b]" using assms(3,4) by simp
  then have "?page '''' = Inr ([a], encodeCursor (a_CreatedAt a))"
    unfolding k by_creation.keyset_list_first by (simp add: n l cut_page_def)
  moreover have "?page (encodeCursor (a_CreatedAt a)) = Inr ([], '''')"
    unfolding k by_creation.keyset_list_next [OF assms(2), of a_CreatedAt] f l by (simp add: newest_first_def cut_page_def)
  ultimately show ?thesis by (simp add: numeral_3_eq_3)
qed

end
