(* ===== verification/Http.thy ===== *)
theory Http
  imports Listing Idempotency
begin

text \<open>
  The HTTP side of the service, \<^verbatim>\<open>internal/platform/httpx\<close> and what it uses of \<^verbatim>\<open>net/http\<close>: a request with the
  path as the multiplexer takes it apart, the patterns of routes, problem responses, the decoding of
  a JSON body into the fields a handler declares, and the middleware that looks at nothing but the
  request. A path is taken when \<^verbatim>\<open>net/http\<close> has found it clean; any other is redirected before a
  handler runs.
\<close>

section \<open>Requests\<close>

text \<open>\<open>rq_Segments\<close> are the segments of the path, each unescaped on its own as the multiplexer does; the
  \<^verbatim>\<open>URL.Path\<close> the middleware looks at joins them, and cannot tell a slash that was escaped. A body is
  read to its end; a chunked one has the content length -1.\<close>

record http_request =
  rq_Method :: string
  rq_Segments :: "string list"
  rq_Header :: "string \<Rightarrow> string"
  rq_Query :: "string \<Rightarrow> string"
  rq_Body :: string
  rq_ContentLength :: int

definition URL_Path :: "http_request \<Rightarrow> string" where
  "URL_Path r = concat (map (\<lambda>s. CHR ''/'' # s) (rq_Segments r))"

section \<open>Patterns\<close>

datatype pattern_segment = Literal string | Wildcard string

definition parse_segment :: "string \<Rightarrow> pattern_segment" where
  "parse_segment s = (if HasPrefix s ''{'' then Wildcard (butlast (tl s)) else Literal s)"

definition parse_pattern :: "string \<Rightarrow> pattern_segment list" where
  "parse_pattern p = map parse_segment (tl (Split p CHR ''/''))"

text \<open>A wildcard matches one segment that is not empty; the values it matched are the path values.\<close>

fun match_segments :: "pattern_segment list \<Rightarrow> string list \<Rightarrow> (string \<times> string) list option" where
  "match_segments [] [] = Some []"
| "match_segments (Literal l # ps) (s # ss) = (if s = l then match_segments ps ss else None)"
| "match_segments (Wildcard x # ps) (s # ss) = (if s = '''' then None else map_option (Cons (x, s)) (match_segments ps ss))"
| "match_segments _ _ = None"

text \<open>\<^verbatim>\<open>GET\<close> patterns serve \<^verbatim>\<open>HEAD\<close> too.\<close>

definition match_method :: "string \<Rightarrow> string \<Rightarrow> bool" where
  "match_method m verb \<longleftrightarrow> verb = m \<or> (m = ''GET'' \<and> verb = ''HEAD'')"

definition PathValue :: "(string \<times> string) list \<Rightarrow> string \<Rightarrow> string" where
  "PathValue vals x = (case map_of vals x of Some v \<Rightarrow> v | None \<Rightarrow> '''')"

section \<open>Responses\<close>

datatype reply_body = Body_none | Body_json json | Body_bytes string string | Body_problem go_error

record reply =
  re_Status :: int
  re_Headers :: "(string \<times> string) list"
  re_Body :: reply_body

text \<open>\<^verbatim>\<open>Problem\<close>: the status, the code and the type of a problem come from the error; its text and details
  are not modelled.\<close>

(*src internal/platform/httpx/problem.go:82-86#WriteProblem*)
definition problem_type :: "go_error \<Rightarrow> string" where
  "problem_type err = ''https://specforge.io/problems/'' @ map (\<lambda>c. if c = CHR ''.'' \<or> c = CHR ''_'' then CHR ''-'' else c) (CodeOf (Some err))"

(*src internal/platform/httpx/problem.go#WriteProblem*)
definition WriteProblem :: "go_error \<Rightarrow> reply" where
  "WriteProblem err = (let status = HTTPStatus (Some err) in
     \<lparr>re_Status = status,
      re_Headers = (if status = 401 then
          [(''WWW-Authenticate'', if CodeOf (Some err) = ''auth.step_up_required''
             then ''Bearer error=\"insufficient_user_authentication\", acr_values=\"mfa\"'' else ''Bearer realm=\"specforge\"'')] else []) @
        [(''Content-Type'', ''application/problem+json; charset=utf-8''), (''Cache-Control'', ''no-store'')],
      re_Body = Body_problem err\<rparr>)"

(*src internal/platform/httpx/problem.go#WriteJSON*)
definition WriteJSON :: "int \<Rightarrow> json option \<Rightarrow> reply" where
  "WriteJSON status v = \<lparr>re_Status = status, re_Headers = [(''Content-Type'', ''application/json; charset=utf-8'')],
     re_Body = (case v of None \<Rightarrow> Body_none | Some j \<Rightarrow> Body_json j)\<rparr>"

lemma problem_status: "re_Status (WriteProblem err) = HTTPStatus (Some err)"
  by (simp add: WriteProblem_def Let_def)

lemma problem_refuses: "400 \<le> re_Status (WriteProblem err)"
  by (auto simp: problem_status HTTPStatus_def split: option.split kind.split)

section \<open>Bodies\<close>

text \<open>The members of the object a text holds, each with the text of its value, in their order. The text
  has been read by \<^verbatim>\<open>Decode\<close> before.\<close>

function scan_members :: "nat \<Rightarrow> string \<Rightarrow> (string \<times> string \<times> json) list" where
  "scan_members d s =
     (case skip_ws s of [] \<Rightarrow> []
      | q # t \<Rightarrow> if q \<noteq> CHR 0x22 then [] else
        (case parse_chars t of None \<Rightarrow> []
         | Some (k, r) \<Rightarrow> (case skip_ws r of [] \<Rightarrow> []
           | c # u \<Rightarrow> (case parse_value d u of None \<Rightarrow> []
             | Some (v, w) \<Rightarrow> if length w < length s then
                 (let start = skip_ws u; member = (k, take (length start - length w) start, v) in
                  case skip_ws w of [] \<Rightarrow> [member]
                  | e # x \<Rightarrow> member # (if e = CHR '','' then scan_members d x else []))
               else []))))"
  by pat_completeness auto
termination
  by (relation "measure (\<lambda>(d, s). length s)") (auto dest!: skip_ws_Cons)

declare scan_members.simps [simp del]

definition members :: "nat \<Rightarrow> string \<Rightarrow> (string \<times> string \<times> json) list" where
  "members d s = (case skip_ws s of [] \<Rightarrow> [] | c # t \<Rightarrow> if c = CHR ''{'' then scan_members (d + 1) t else [])"

text \<open>The types of the fields of request structs. A struct field is a pointer or not; the structs inside a
  request hold no structs themselves.\<close>

datatype scalar_kind = K_string | K_int | K_float | K_bool | K_raw | K_strings | K_map | K_time

datatype field_kind = Scalar scalar_kind | Struct bool "(string \<times> scalar_kind) list"

datatype field_value =
    V_string string
  | V_int int
  | V_float "bool \<times> f64"
  | V_bool bool
  | V_raw string
  | V_strings "string list"
  | V_map "(string \<times> string) list"
  | V_time time
  | V_struct "(string \<times> field_value) list"

type_synonym fields = "(string \<times> field_value) list"

definition decode_error :: "string \<Rightarrow> go_error" where "decode_error code = Invalid ''httpx.DecodeJSON'' code"

definition type_error :: go_error where "type_error = decode_error ''request.invalid_field_type''"

fun text_of :: "json \<Rightarrow> string option" where
  "text_of (JString s) = Some s"
| "text_of JNull = Some ''''"
| "text_of _ = None"

text \<open>\<^verbatim>\<open>time.Time\<close> unmarshals the text between the quotes, stricter than \<^verbatim>\<open>time.Parse\<close>.\<close>

definition ParseStrict :: "string \<Rightarrow> time option" where
  "ParseStrict s = (case ParseRFC3339Nano s of None \<Rightarrow> None
     | Some t \<Rightarrow> if s ! 12 = CHR '':'' \<or> s ! 19 = CHR '','' \<or>
           (last s \<noteq> CHR ''Z'' \<and> (digits_value (take 2 (drop (length s - 5) s)) \<ge> 24 \<or> digits_value (drop (length s - 2) s) \<ge> 60))
         then None else Some t)"

text \<open>A value into a field: \<open>None\<close> is a field left or set to nil. The literal \<^verbatim>\<open>null\<close> sets a pointer, a map or a
  slice to nil and leaves other fields alone, except raw ones, which keep the text.\<close>

definition decode_scalar :: "scalar_kind \<Rightarrow> string \<Rightarrow> json \<Rightarrow> field_value option \<Rightarrow> field_value option result" where
  "decode_scalar k raw v old =
     (if k = K_raw then Inr (Some (V_raw raw))
      else if v = JNull then Inr (if k = K_time \<or> k = K_map \<or> k = K_strings then None else old)
      else case (k, v) of
          (K_string, JString s) \<Rightarrow> Inr (Some (V_string s))
        | (K_int, JNumber l) \<Rightarrow> (case ParseInt l of Some n \<Rightarrow> Inr (Some (V_int n)) | None \<Rightarrow> Inl type_error)
        | (K_float, JNumber l) \<Rightarrow> (case ParseFloat l of Some x \<Rightarrow> Inr (Some (V_float x)) | None \<Rightarrow> Inl type_error)
        | (K_bool, JBool b) \<Rightarrow> Inr (Some (V_bool b))
        | (K_strings, JArray vs) \<Rightarrow>
            (if list_all (\<lambda>x. text_of x \<noteq> None) vs then Inr (Some (V_strings (map (the \<circ> text_of) vs))) else Inl type_error)
        | (K_map, JObject ms) \<Rightarrow>
            (if list_all (\<lambda>(n, x). text_of x \<noteq> None) ms
             then Inr (Some (V_map (fold (\<lambda>(n, x). upsert n (the (text_of x))) ms (case old of Some (V_map m) \<Rightarrow> m | _ \<Rightarrow> []))))
             else Inl type_error)
        | (K_time, JString _) \<Rightarrow> (case ParseStrict (butlast (tl raw)) of Some t \<Rightarrow> Inr (Some (V_time t))
            | None \<Rightarrow> Inl (decode_error ''request.malformed_json''))
        | (K_time, _) \<Rightarrow> Inl (decode_error ''request.malformed_json'')
        | _ \<Rightarrow> Inl type_error)"

text \<open>The field of a member: the one of that name, else one that differs only by case. Beside ASCII only
  the long s and the Kelvin sign fold to a letter of a field's name.\<close>

fun fold_name :: "string \<Rightarrow> string" where
  "fold_name [] = []"
| "fold_name (a # s) =
     (if a = CHR 0xC5 \<and> HasPrefix s [CHR 0xBF] then CHR ''S'' # fold_name (drop 1 s)
      else if a = CHR 0xE2 \<and> HasPrefix s [CHR 0x84, CHR 0xAA] then CHR ''K'' # fold_name (drop 2 s)
      else ascii_upper a # fold_name s)"

definition field_named :: "(string \<times> 'k) list \<Rightarrow> string \<Rightarrow> (string \<times> 'k) option" where
  "field_named fs key = (case find (\<lambda>(n, _). n = key) fs of Some f \<Rightarrow> Some f | None \<Rightarrow> find (\<lambda>(n, _). fold_name n = fold_name key) fs)"

definition set_field :: "string \<Rightarrow> field_value option \<Rightarrow> fields \<Rightarrow> fields" where
  "set_field name new fs = (case new of None \<Rightarrow> AList.delete name fs | Some x \<Rightarrow> AList.update name x fs)"

fun decode_members ::
  "('k \<Rightarrow> string \<Rightarrow> json \<Rightarrow> field_value option \<Rightarrow> field_value option result) \<Rightarrow> (string \<times> 'k) list \<Rightarrow>
   (string \<times> string \<times> json) list \<Rightarrow> fields \<Rightarrow> fields result" where
  "decode_members dec decl [] acc = Inr acc"
| "decode_members dec decl ((key, raw, v) # ms) acc = (case field_named decl key of
     None \<Rightarrow> Inl (decode_error ''request.unknown_field'')
   | Some (name, k) \<Rightarrow> bindR (dec k raw v (map_of acc name)) (\<lambda>new. decode_members dec decl ms (set_field name new acc)))"

definition decode_field :: "field_kind \<Rightarrow> string \<Rightarrow> json \<Rightarrow> field_value option \<Rightarrow> field_value option result" where
  "decode_field k raw v old = (case k of
     Scalar sk \<Rightarrow> decode_scalar sk raw v old
   | Struct pointer decl \<Rightarrow> (case v of
       JObject _ \<Rightarrow> bindR (decode_members decode_scalar decl (members 1 raw) (case old of Some (V_struct fs) \<Rightarrow> fs | _ \<Rightarrow> []))
         (\<lambda>fs. Inr (Some (V_struct fs)))
     | JNull \<Rightarrow> Inr (if pointer then None else old)
     | _ \<Rightarrow> Inl type_error))"

text \<open>A body within the limit is read to its end. Of a longer one the decoder sees the bytes up to the limit
  and then an error, which matters only if the document has not ended before.\<close>

(*src internal/platform/httpx/problem.go:143-150#DecodeJSON*)
definition wrong_media_type :: "string \<Rightarrow> bool" where
  "wrong_media_type contentType \<longleftrightarrow>
     contentType \<noteq> '''' \<and> TrimSpace (takeWhile (\<lambda>c. c \<noteq> CHR '';'') contentType) \<noteq> ''application/json''"

(*src internal/platform/httpx/problem.go#DecodeJSON*)
definition DecodeJSON :: "(string \<times> field_kind) list \<Rightarrow> string \<Rightarrow> int \<Rightarrow> string \<Rightarrow> fields result" where
  "DecodeJSON decl contentType maxBytes body = (let limit = nat (if maxBytes \<le> 0 then 2 ^ 20 else maxBytes) in
     checkR (wrong_media_type contentType) (decode_error ''request.unsupported_media_type'') (
     case Decode (take limit body) of
       None \<Rightarrow> Inl (decode_error (if length body > limit then ''request.body_too_large''
         else if list_all ws body then ''request.empty_body'' else ''request.malformed_json''))
     | Some (v, rest) \<Rightarrow>
         bindR (case v of JObject _ \<Rightarrow> decode_members decode_field decl (members 0 body) []
            | JNull \<Rightarrow> Inr [] | _ \<Rightarrow> Inl type_error) (\<lambda>fs.
         checkR (case Decode rest of Some (JObject [], _) \<Rightarrow> True | Some (JNull, _) \<Rightarrow> True | _ \<Rightarrow> False)
           (decode_error ''request.multiple_documents'') (Inr fs))))"

text \<open>The zero values of the fields that are not there.\<close>

definition string_field :: "fields \<Rightarrow> string \<Rightarrow> string" where
  "string_field fs n = (case map_of fs n of Some (V_string s) \<Rightarrow> s | _ \<Rightarrow> '''')"
definition int_field :: "fields \<Rightarrow> string \<Rightarrow> int" where
  "int_field fs n = (case map_of fs n of Some (V_int i) \<Rightarrow> i | _ \<Rightarrow> 0)"
definition float_field :: "fields \<Rightarrow> string \<Rightarrow> bool \<times> f64" where
  "float_field fs n = (case map_of fs n of Some (V_float x) \<Rightarrow> x | _ \<Rightarrow> (False, 0, 0))"
definition bool_field :: "fields \<Rightarrow> string \<Rightarrow> bool" where
  "bool_field fs n = (case map_of fs n of Some (V_bool b) \<Rightarrow> b | _ \<Rightarrow> False)"
definition raw_field :: "fields \<Rightarrow> string \<Rightarrow> string" where
  "raw_field fs n = (case map_of fs n of Some (V_raw s) \<Rightarrow> s | _ \<Rightarrow> '''')"
definition strings_field :: "fields \<Rightarrow> string \<Rightarrow> string list" where
  "strings_field fs n = (case map_of fs n of Some (V_strings ss) \<Rightarrow> ss | _ \<Rightarrow> [])"
definition map_field :: "fields \<Rightarrow> string \<Rightarrow> (string \<times> string) list" where
  "map_field fs n = (case map_of fs n of Some (V_map m) \<Rightarrow> m | _ \<Rightarrow> [])"
definition time_field :: "fields \<Rightarrow> string \<Rightarrow> time option" where
  "time_field fs n = (case map_of fs n of Some (V_time t) \<Rightarrow> Some t | _ \<Rightarrow> None)"
definition struct_field :: "fields \<Rightarrow> string \<Rightarrow> fields option" where
  "struct_field fs n = (case map_of fs n of Some (V_struct s) \<Rightarrow> Some s | _ \<Rightarrow> None)"

(*src internal/server/middleware.go#readBody*)
definition readBody :: "int \<Rightarrow> http_request \<Rightarrow> string option" where
  "readBody maxBytes r = (if int (length (rq_Body r)) > max 0 maxBytes then None else Some (rq_Body r))"

end
