(* ===== verification/Dto.thy ===== *)
theory Dto
  imports Http LinkService Identity
begin

text \<open>
  The bodies of responses, \<^verbatim>\<open>internal/server/dto.go\<close> and the JSON forms of what the handlers return as it
  is: as JSON values, the members of a Go map in the order of their names. A map without entries is
  taken as nil. What a client gets of a version is enough to recompute its hash.
\<close>

section \<open>Values\<close>

text \<open>\<^verbatim>\<open>map[string]any\<close> is written in the order of the keys.\<close>

definition go_map :: "(string \<times> json option) list \<Rightarrow> json" where
  "go_map fs = JObject (sort_key fst (struct_members fs))"

definition json_time :: "time \<Rightarrow> json" where "json_time t = JString (FormatRFC3339Nano t)"

definition json_labels :: "(string \<times> string) list \<Rightarrow> json" where
  "json_labels m = (if m = [] then JNull else go_map (map (\<lambda>(k, v). (k, str v)) m))"

definition json_bool :: "bool \<Rightarrow> json option" where "json_bool b = Some (JBool b)"
definition json_num :: "int \<Rightarrow> json option" where "json_num n = Some (json_int n)"
definition json_num_opt :: "int \<Rightarrow> json option" where "json_num_opt n = (if n = 0 then None else Some (json_int n))"

(*src internal/tenancy/domain/tenant.go#Settings*)
definition json_settings :: "Settings \<Rightarrow> json" where
  "json_settings s = struct
     [(''four_eyes'', json_bool (st_FourEyes s)), (''architect_can_approve_prd'', json_bool (st_ArchitectCanApprovePRD s)),
      (''step_up_max_age'', json_num (st_StepUpMaxAge s)), (''evidence_retention'', json_num (st_EvidenceRetention s)),
      (''link_auto_accept_threshold'', Some (json_float (st_LinkAutoAcceptMin s))),
      (''max_proposals_per_sweep'', json_num (st_MaxProposalsPerSweep s)), (''max_exception_days'', json_num (st_MaxExceptionDays s)),
      (''data_residency'', str_opt (st_DataResidency s)),
      (''allowed_ai_providers'', if st_AllowedAIProviders s = [] then None else Some (JArray (map JString (st_AllowedAIProviders s)))),
      (''guardrail_chain'', str_opt (st_GuardrailChain s)), (''monthly_token_budget'', json_num_opt (st_MonthlyTokenBudget s)),
      (''policy_set'', str_opt (st_PolicySet s))]"

section \<open>Entities\<close>

(*src internal/server/dto.go#tenantDTO*)
definition tenantDTO :: "Tenant \<Rightarrow> json" where
  "tenantDTO t = go_map
     [(''tenant_id'', str (t_ID t)), (''slug'', str (t_Slug t)), (''name'', str (t_Name t)), (''status'', str (t_Status t)),
      (''isolation_mode'', str (t_IsolationMode t)), (''region'', str (t_Region t)), (''settings'', Some (json_settings (t_Settings t))),
      (''created_at'', Some (json_time (t_CreatedAt t))), (''updated_at'', Some (json_time (t_UpdatedAt t))),
      (''version_no'', json_num (t_Version t))]"

(*src internal/server/dto.go#projectDTO*)
definition projectDTO :: "Project \<Rightarrow> json" where
  "projectDTO p = go_map
     [(''project_id'', str (pj_ID p)), (''tenant_id'', str (pj_TenantID p)), (''key'', str (pj_Key p)), (''name'', str (pj_Name p)),
      (''description'', str (pj_Description p)), (''status'', str (pj_Status p)), (''pdlc_phase'', str (pj_Phase p)),
      (''graph_version'', json_num (pj_GraphVersion p)), (''created_at'', Some (json_time (pj_CreatedAt p))),
      (''updated_at'', Some (json_time (pj_UpdatedAt p))), (''version_no'', json_num (pj_Version p))]"

(*src internal/server/dto.go#artifactDTO*)
definition artifactDTO :: "Artifact \<Rightarrow> json" where
  "artifactDTO a = go_map
     [(''artifact_id'', str (a_ID a)), (''artifact_type'', str (a_Type a)), (''title'', str (a_Title a)),
      (''current_version'', json_num (a_CurrentVersion a)), (''status'', str (a_Status a)), (''labels'', Some (json_labels (a_Labels a))),
      (''created_by'', str (a_CreatedBy a)), (''created_at'', Some (json_time (a_CreatedAt a))),
      (''updated_at'', Some (json_time (a_UpdatedAt a)))]"

(*src internal/artifactgraph/domain/artifact.go#ApprovalEvidence*)
definition json_evidence :: "ApprovalEvidence \<Rightarrow> json" where
  "json_evidence e = struct
     [(''evidence_id'', str (ev_EvidenceID e)), (''digest'', str (ev_Digest e)), (''media_type'', str (ev_MediaType e)),
      (''storage_ref'', str (ev_StorageRef e)),
      (''gate_decisions'', if ev_GateDecisions e = [] then None else Some (JArray (map json_gate (ev_GateDecisions e)))),
      (''policy_set_version'', str_opt (ev_PolicySetVersion e)), (''approver_auth_time'', Some (json_time (ev_ApproverAuthTime e))),
      (''approver_token_id'', str_opt (ev_ApproverTokenID e))]"

definition version_members :: "Version \<Rightarrow> json \<Rightarrow> (string \<times> json option) list" where
  "version_members v content =
     [(''artifact_id'', str (v_ArtifactID v)), (''artifact_type'', str (v_Type v)), (''version'', json_num (v_Version v)),
      (''status'', str (v_Status v)), (''content_schema'', str (v_ContentSchema v)), (''content'', Some content),
      (''content_hash'', str (v_ContentHash v)), (''change_summary'', str (v_ChangeSummary v)),
      (''generator'', Some (json_generator (v_Generator v))), (''created_by'', str (v_CreatedBy v)),
      (''created_at'', Some (json_time (v_CreatedAt v))), (''updated_at'', Some (json_time (v_UpdatedAt v))),
      (''version_no'', json_num (v_VersionNo v)), (''sealed'', json_bool (Sealed v)), (''content_ref'', str_opt (v_ContentRef v)),
      (''previous_version'', map_option json_int (v_PreviousVersion v)), (''parent_artifact'', map_option json_ref (v_ParentArtifact v)),
      (''source_artifact'', map_option json_ref (v_SourceArtifact v)), (''approved_by'', map_option JString (v_ApprovedBy v)),
      (''approved_at'', map_option json_time (v_ApprovedAt v)), (''approval_comment'', str_opt (v_ApprovalComment v)),
      (''approval_evidence'', map_option json_evidence (v_ApprovalEvidence v)), (''sealed_at'', map_option json_time (v_SealedAt v))]"

text \<open>Marshalling fails on content that is not JSON.\<close>

(*src internal/server/dto.go#versionDTO*)
definition versionDTO :: "Version \<Rightarrow> json result" where
  "versionDTO v = bindR (raw_value (v_Content v)) (\<lambda>content. Inr (go_map (version_members v content)))"

(*src internal/server/dto.go#auditDTO*)
definition auditDTO :: "Record \<Rightarrow> json" where
  "auditDTO r = go_map
     [(''sequence'', json_num (r_Sequence r)), (''id'', str (r_ID r)), (''action'', str (r_Action r)), (''outcome'', str (r_Outcome r)),
      (''severity'', str (r_Severity r)), (''actor'', Some (json_actor (r_Actor r))), (''target'', Some (json_target (r_Target r))),
      (''attributes'', Some (if r_Attributes r = [] then JNull else go_map (map (\<lambda>(k, v). (k, Some v)) (r_Attributes r)))),
      (''request_id'', str (r_RequestID r)), (''trace_id'', str (r_TraceID r)), (''occurred_at'', Some (json_time (r_OccurredAt r))),
      (''prev_hash'', str (r_PrevHash r)), (''record_hash'', str (r_RecordHash r)), (''project_id'', map_option JString (r_ProjectID r))]"

(*src internal/server/graph_handlers.go#linkDTO*)
definition linkDTO :: "TraceLink \<Rightarrow> json" where
  "linkDTO l = go_map
     [(''link_id'', str (l_LinkID l)), (''from'', Some (json_ref (l_From l))), (''to'', Some (json_ref (l_To l))),
      (''link_type'', str (l_Type l)), (''origin'', str (l_Origin l)), (''confidence'', Some (json_float (l_Confidence l))),
      (''status'', str (l_Status l)), (''rationale'', str (l_Rationale l)), (''created_by'', str (l_CreatedBy l)),
      (''created_at'', Some (json_time (l_CreatedAt l))), (''disposition_id'', map_option JString (l_DispositionID l))]"

(*src internal/server/handlers.go:314-322#Server.handleListPrincipals*)
definition principalDTO :: "Account \<Rightarrow> json" where
  "principalDTO p = go_map
     [(''principal_id'', str (ip_ID p)), (''kind'', str (ip_Kind p)), (''display'', str (ip_DisplayName p)), (''email'', str (ip_Email p)),
      (''status'', str (ip_Status p)), (''created_at'', Some (json_time (ip_CreatedAt p)))]"

section \<open>Traversals\<close>

(*src internal/artifactgraph/domain/tracelink.go#Hop*)
definition json_hop :: "Hop \<Rightarrow> json" where
  "json_hop h = struct
     [(''from'', Some (json_ref (h_From h))), (''to'', Some (json_ref (h_To h))), (''link_type'', str (h_LinkType h)),
      (''origin'', str (h_Origin h)), (''confidence'', Some (json_float (h_Confidence h))), (''status'', str (h_Status h))]"

(*src internal/artifactgraph/domain/tracelink.go#Path*)
definition json_path :: "Path \<Rightarrow> json" where
  "json_path p = struct
     [(''target'', Some (json_ref (p_Target p))), (''artifact_type'', str (p_Type p)), (''title'', str_opt (p_Title p)),
      (''status'', str_opt (p_Status p)), (''hops'', Some (json_slice json_hop (p_Hops p))), (''depth'', json_num (p_Depth p))]"

(*src internal/artifactgraph/domain/tracelink.go#Paths*)
definition json_paths :: "Paths \<Rightarrow> json" where
  "json_paths p = struct
     [(''start'', Some (json_ref (ps_Start p))), (''direction'', str (ps_Direction p)),
      (''paths'', Some (json_slice json_path (ps_Paths p))), (''truncated'', json_bool (ps_Truncated p))]"

(*src internal/artifactgraph/domain/tracelink.go#ImpactSeverity*)
fun impact_name :: "ImpactSeverity \<Rightarrow> string" where
  "impact_name ImpactInfo = ''INFO''"
| "impact_name ImpactLow = ''LOW''"
| "impact_name ImpactMedium = ''MEDIUM''"
| "impact_name ImpactHigh = ''HIGH''"
| "impact_name ImpactCritical = ''CRITICAL''"

(*src internal/artifactgraph/domain/tracelink.go#Impacted*)
definition json_impacted :: "Impacted \<Rightarrow> json" where
  "json_impacted i = struct
     [(''target'', Some (json_ref (im_Target i))), (''artifact_type'', str (im_Type i)), (''status'', str (im_Status i)),
      (''distance'', json_num (im_Distance i)), (''severity'', str (impact_name (im_Severity i))), (''reason'', str (im_Reason i)),
      (''path'', Some (json_slice json_hop (im_Path i)))]"

(*src internal/artifactgraph/domain/tracelink.go#ImpactSet*)
definition json_impact_set :: "ImpactSet \<Rightarrow> json" where
  "json_impact_set s = struct
     [(''subject'', Some (json_ref (is_Subject s))), (''impacted'', Some (json_slice json_impacted (is_Impacted s))),
      (''truncated'', json_bool (is_Truncated s)), (''blast_radius'', json_num (is_BlastRadius s))]"

section \<open>What a client can verify\<close>

lemma map_of_sort_key:
  assumes "distinct (map fst ms)"
  shows "map_of (sort_key fst ms) k = map_of ms k"
proof -
  have d: "distinct (map fst (sort_key fst ms))" using assms mset_eq_imp_distinct_iff [of "map fst (sort_key fst ms)" "map fst ms"] by simp
  show ?thesis
  proof (cases "map_of ms k")
    case None
    then have "map_of (sort_key fst ms) k = None" unfolding map_of_eq_None_iff by simp
    then show ?thesis using None by simp
  next
    case (Some v)
    then have "map_of (sort_key fst ms) k = Some v" unfolding map_of_eq_Some_iff [OF assms] map_of_eq_Some_iff [OF d] by simp
    then show ?thesis using Some by simp
  qed
qed

lemma go_map_members:
  assumes "go_map fs = go_map gs" "distinct (map fst fs)" "distinct (map fst gs)"
  shows "Option.bind (map_of fs k) (\<lambda>v. v) = Option.bind (map_of gs k) (\<lambda>v. v)"
  using assms map_of_sort_key [of "struct_members fs" k] map_of_sort_key [of "struct_members gs" k]
  by (simp add: go_map_def struct_members_distinct map_of_struct)

lemma option_injections:
  "map_option json_int a = map_option json_int b \<longleftrightarrow> a = b" "str_opt x = str_opt y \<longleftrightarrow> x = y"
  by (cases a; cases b) (auto simp: json_int_def str_opt_def)

text \<open>C29: A client can verify what it is given, as the API promises: the response that describes a version,
  together with the tenant and the project of its path, determines the version's content hash. Two
  versions of a project that are answered with the same document have the same hash, so nothing that
  is hashed is left out of the response or replaced in it.\<close>

theorem versionDTO_verifiable:
  assumes "versionDTO v = Inr j" "versionDTO u = Inr j" "v_TenantID v = v_TenantID u" "v_ProjectID v = v_ProjectID u"
  shows "ComputeHash v = ComputeHash u \<and> v_ContentHash v = v_ContentHash u"
proof -
  obtain c where c: "raw_value (v_Content v) = Inr c" "j = go_map (version_members v c)"
    using assms(1) by (auto simp: versionDTO_def bindR_Inr)
  obtain c' where c': "raw_value (v_Content u) = Inr c'" "j = go_map (version_members u c')"
    using assms(2) by (auto simp: versionDTO_def bindR_Inr)
  have d: "distinct (map fst (version_members x y))" for x y by (simp add: version_members_def)
  note m = go_map_members [OF trans [OF c(2) [symmetric] c'(2)] d d, unfolded version_members_def]
  have "c = c'" "v_ArtifactID v = v_ArtifactID u" "v_Type v = v_Type u" "json_int (v_Version v) = json_int (v_Version u)"
      "v_ContentSchema v = v_ContentSchema u" "v_ChangeSummary v = v_ChangeSummary u" "v_CreatedBy v = v_CreatedBy u"
      "v_ContentHash v = v_ContentHash u"
    using m [of "''content''"] m [of "''artifact_id''"] m [of "''artifact_type''"] m [of "''version''"] m [of "''content_schema''"]
      m [of "''change_summary''"] m [of "''created_by''"] m [of "''content_hash''"]
    by (simp_all add: str_def json_num_def)
  moreover have "json_generator (v_Generator v) = json_generator (v_Generator u)" "json_time (v_CreatedAt v) = json_time (v_CreatedAt u)"
      "str_opt (v_ContentRef v) = str_opt (v_ContentRef u)"
      "map_option json_int (v_PreviousVersion v) = map_option json_int (v_PreviousVersion u)"
      "map_option json_ref (v_ParentArtifact v) = map_option json_ref (v_ParentArtifact u)"
      "map_option json_ref (v_SourceArtifact v) = map_option json_ref (v_SourceArtifact u)"
    using m [of "''generator''"] m [of "''created_at''"] m [of "''content_ref''"] m [of "''previous_version''"]
      m [of "''parent_artifact''"] m [of "''source_artifact''"]
    by simp_all
  ultimately have "envelope_fields v c = envelope_fields u c'"
    using assms(3,4) by (simp add: envelope_fields_def json_time_def)
  then show ?thesis using c(1) c'(1) \<open>v_ContentHash v = v_ContentHash u\<close> by (simp add: ComputeHash_def CanonicalEnvelope_def)
qed

definition served_version :: Version where "served_version = zero_version\<lparr>v_Type := ArtifactPRD, v_Content := ''{}''\<rparr>"

lemma versionDTO_verifiable_witness:
  "\<exists>j. versionDTO served_version = Inr j \<and> ComputeHash served_version = ComputeHash (served_version\<lparr>v_UpdatedAt := 0\<rparr>)"
proof -
  have "raw_value ''{}'' = Inr (JObject [])" by code_simp
  then obtain j where j: "versionDTO served_version = Inr j" by (simp add: versionDTO_def served_version_def bindR_def)
  have "served_version\<lparr>v_UpdatedAt := 0\<rparr> = served_version" by (simp add: served_version_def zero_version_def)
  then have "versionDTO (served_version\<lparr>v_UpdatedAt := 0\<rparr>) = Inr j" using j by simp
  from versionDTO_verifiable [OF j this] show ?thesis using j by simp
qed

end
