(* ===== verification/Handlers.thy ===== *)
theory Handlers
  imports Dto IdentityService RateLimit
begin

text \<open>
  The handlers of \<^verbatim>\<open>internal/server\<close> (\<^verbatim>\<open>handlers.go\<close>, \<^verbatim>\<open>graph_handlers.go\<close>): what each makes of the path, the query and
  the body, which operation of a service it calls and what it answers. A handler is a function of the
  server it belongs to, of the request with the principal the middleware found, and of the state of
  the platform; no reply is a traversal that does not return.
\<close>

section \<open>The server and its state\<close>

text \<open>The state: the database with its identity tables, the rows of idempotency keys, and the cache of the
  process, which holds the counters of the rate limits beside the grants.\<close>

record platform =
  pl_realm :: realm
  pl_idem :: "idem_row list"
  pl_memory :: Memory

definition the_world :: "platform \<Rightarrow> world" where "the_world s = rl_world (pl_realm s)"
definition set_world :: "world \<Rightarrow> platform \<Rightarrow> platform" where "set_world w s = s\<lparr>pl_realm := put_world w (pl_realm s)\<rparr>"

interpretation plw: component the_world set_world
  by unfold_locales (simp_all add: the_world_def set_world_def put_world_def)

text \<open>The configuration as far as the handlers read it, and what a request gets from outside: the
  environment of the handler's calls and that of the sign-in before it, the health of the database
  and the cache, the text of the metrics, the build information, the bytes \<^verbatim>\<open>json.Marshal\<close> makes of a
  value, the order of identifiers in the database's collation, the faults and the clock of the rate
  limiter, a fresh request identifier and trace.\<close>

record server_config =
  sc_ServiceName :: string
  sc_Version :: string
  sc_Env :: string
  sc_MaxBodyBytes :: int
  sc_AllowedOrigins :: "string list"
  sc_DefaultPageSize :: int
  sc_MaxGraphDepth :: int
  sc_RPSPerPrincipal :: int
  sc_RPSPerTenant :: int
  sc_BurstMultiplier :: int
  sc_Buckets :: Buckets
  sc_Verify :: VerifyOptions
  sc_TenantClaim :: string
  sc_RolesClaim :: string

record server =
  sv_cfg :: server_config
  sv_env :: env
  sv_identity :: id_env
  sv_idem :: idem_env
  sv_collate :: "ArtifactID \<Rightarrow> nat"
  sv_marshal :: "json \<Rightarrow> string result"
  sv_dbHealth :: "string option"
  sv_cacheHealth :: "string option option"
  sv_ready :: bool
  sv_metrics :: string
  sv_build :: "(string \<times> string) list"
  sv_authEnv :: env
  sv_authIdentity :: id_env
  sv_limitFault :: "nat \<Rightarrow> go_error option"
  sv_limitClock :: "nat \<Rightarrow> time \<times> time \<times> time"
  sv_requestID :: string
  sv_traceparent :: string

record incoming =
  in_principal :: "Principal option"
  in_values :: "(string \<times> string) list"
  in_request :: http_request

type_synonym handled = "platform \<Rightarrow> reply option \<times> platform"

abbreviation query :: "incoming \<Rightarrow> string \<Rightarrow> string" where "query c \<equiv> rq_Query (in_request c)"
abbreviation path_value :: "incoming \<Rightarrow> string \<Rightarrow> string" where "path_value c \<equiv> PathValue (in_values c)"

section \<open>What handlers share\<close>

(*src internal/server/middleware.go#Server.fail*)
definition fail_with :: "go_error \<Rightarrow> handled" where "fail_with err = (\<lambda>s. (Some (WriteProblem err), s))"

text \<open>A body that cannot be marshalled is left out: the status has gone out by then.\<close>

(*src internal/server/middleware.go#Server.ok*)
definition ok :: "int \<Rightarrow> json result \<Rightarrow> handled" where
  "ok status body = (\<lambda>s. (Some (WriteJSON status (case body of Inr j \<Rightarrow> Some j | Inl _ \<Rightarrow> None)), s))"

definition or_fail :: "'a result \<Rightarrow> ('a \<Rightarrow> handled) \<Rightarrow> handled" where
  "or_fail r k = (case r of Inl err \<Rightarrow> fail_with err | Inr x \<Rightarrow> k x)"

definition calling :: "(world \<Rightarrow> 'a result \<times> world) \<Rightarrow> ('a \<Rightarrow> handled) \<Rightarrow> handled" where
  "calling op k = (\<lambda>s. let (r, w) = op (the_world s) in or_fail r k (set_world w s))"

(*src internal/server/middleware.go#Server.principalOf*)
definition principalOf :: "incoming \<Rightarrow> Principal result" where
  "principalOf c = (case in_principal c of None \<Rightarrow> Inl (Unauthorized ''server'' ''auth.credentials_required'') | Some p \<Rightarrow> Inr p)"

(*src internal/server/handlers.go:209-214#Server.handleGetTenant*)
definition path_tenant :: "incoming \<Rightarrow> TenantID result" where
  "path_tenant c = (case ParseTenantID (path_value c ''tenantID'') of
     Inl _ \<Rightarrow> Inl (Invalid ''server'' ''request.invalid_tenant_id'') | Inr t \<Rightarrow> Inr t)"

(*src internal/server/handlers.go#Server.scope*)
definition path_scope :: "incoming \<Rightarrow> (TenantID \<times> ProjectID) result" where
  "path_scope c = (case ParseTenantID (path_value c ''tenantID'') of
     Inl _ \<Rightarrow> Inl (Invalid ''server.scope'' ''request.invalid_tenant_id'')
   | Inr t \<Rightarrow> (case ParseProjectID (path_value c ''projectID'') of
       Inl _ \<Rightarrow> Inl (Invalid ''server.scope'' ''request.invalid_project_id'') | Inr p \<Rightarrow> Inr (t, p)))"

(*src internal/server/handlers.go:634-639#Server.handleGetVersion*)
definition path_version :: "incoming \<Rightarrow> int result" where
  "path_version c = (case ParseInt (path_value c ''version'') of
     None \<Rightarrow> Inl (Invalid ''server'' ''request.invalid_version'') | Some n \<Rightarrow> Inr n)"

(*src internal/server/handlers.go#intParam*)
definition intParam :: "incoming \<Rightarrow> string \<Rightarrow> int \<Rightarrow> int" where
  "intParam c name def = (if query c name = '''' then def else case ParseInt (query c name) of Some n \<Rightarrow> n | None \<Rightarrow> def)"

definition with_tenant :: "incoming \<Rightarrow> (Principal \<Rightarrow> TenantID \<Rightarrow> handled) \<Rightarrow> handled" where
  "with_tenant c k = or_fail (principalOf c) (\<lambda>actor. or_fail (path_tenant c) (k actor))"

definition with_scope :: "incoming \<Rightarrow> (Principal \<Rightarrow> TenantID \<Rightarrow> ProjectID \<Rightarrow> handled) \<Rightarrow> handled" where
  "with_scope c k = or_fail (principalOf c) (\<lambda>actor. or_fail (path_scope c) (\<lambda>(t, p). k actor t p))"

definition page_limit_of :: "server \<Rightarrow> incoming \<Rightarrow> int" where
  "page_limit_of v c = intParam c ''limit'' (sc_DefaultPageSize (sv_cfg v))"

text \<open>The body as a handler decodes it: from the request itself, or from what \<^verbatim>\<open>readBody\<close> put back. When that
  read failed the error stays with the reader, and the decoder meets it before anything else.\<close>

definition decoded :: "server \<Rightarrow> incoming \<Rightarrow> (string \<times> field_kind) list \<Rightarrow> fields result" where
  "decoded v c decl = DecodeJSON decl (rq_Header (in_request c) ''Content-Type'') (sc_MaxBodyBytes (sv_cfg v)) (rq_Body (in_request c))"

definition decoded_again :: "server \<Rightarrow> incoming \<Rightarrow> (string \<times> field_kind) list \<Rightarrow> fields result" where
  "decoded_again v c decl = (case readBody (sc_MaxBodyBytes (sv_cfg v)) (in_request c) of
     Some _ \<Rightarrow> decoded v c decl
   | None \<Rightarrow> checkR (wrong_media_type (rq_Header (in_request c) ''Content-Type'')) (decode_error ''request.unsupported_media_type'')
       (Inl (decode_error ''request.body_too_large'')))"

definition decoded_if_any :: "server \<Rightarrow> incoming \<Rightarrow> (string \<times> field_kind) list \<Rightarrow> fields result" where
  "decoded_if_any v c decl = (if rq_ContentLength (in_request c) > 0 then decoded v c decl else Inr [])"

fun collect :: "'a result list \<Rightarrow> 'a list result" where
  "collect [] = Inr []"
| "collect (r # rs) = bindR r (\<lambda>x. bindR (collect rs) (\<lambda>xs. Inr (x # xs)))"

definition items :: "('a \<Rightarrow> json) \<Rightarrow> 'a list \<Rightarrow> string \<Rightarrow> json result" where
  "items dto xs next = Inr (go_map [(''items'', Some (JArray (map dto xs))), (''next_cursor'', str next)])"

definition status_json :: "string \<Rightarrow> json result" where "status_json st = Inr (go_map [(''status'', str st)])"

section \<open>Replays\<close>

definition replayed :: "int \<Rightarrow> string \<Rightarrow> reply" where
  "replayed status body = \<lparr>re_Status = status,
     re_Headers = [(''Idempotency-Replayed'', ''true''), (''Content-Type'', ''application/json; charset=utf-8'')],
     re_Body = Body_bytes ''application/json; charset=utf-8'' body\<rparr>"

definition reply_of :: "json result response \<Rightarrow> handled" where
  "reply_of r = (case r of
     Resp_ok status body \<Rightarrow> ok status (case body of Some b \<Rightarrow> b | None \<Rightarrow> Inr JNull)
   | Resp_replayed status body \<Rightarrow> (\<lambda>s. (Some (replayed status body), s))
   | Resp_problem err \<Rightarrow> fail_with err)"

text \<open>A mutation of the database behind an idempotency key. The key is hashed with the bytes the handler
  read, which are none when the read failed.\<close>

(*src internal/server/middleware.go#Server.idempotent*)
definition idempotently ::
  "server \<Rightarrow> incoming \<Rightarrow> int \<Rightarrow> ('a \<Rightarrow> json result) \<Rightarrow> (world \<Rightarrow> 'a result \<times> world) \<Rightarrow> handled" where
  "idempotently v c status dto op = (\<lambda>s.
     let r = in_request c; body = (case readBody (sc_MaxBodyBytes (sv_cfg v)) r of Some b \<Rightarrow> b | None \<Rightarrow> '''');
         fn = (\<lambda>w. let (res, w') = op w in (map_sum id (\<lambda>x. (status, Some (dto x))) res, w'));
         (resp, rows, w) = idempotent (sv_idem v) (ev_ctx (sv_env v)) (\<lambda>j. bindR j (sv_marshal v)) (rq_Method r) (URL_Path r) body
           (rq_Header r ''Idempotency-Key'') fn (pl_idem s, the_world s)
     in reply_of resp ((set_world w s)\<lparr>pl_idem := rows\<rparr>))"

section \<open>Health and discovery\<close>

(*src internal/server/handlers.go#Server.handleHealthz*)
definition handleHealthz :: "server \<Rightarrow> incoming \<Rightarrow> handled" where "handleHealthz v c = ok 200 (status_json ''ok'')"

(*src internal/server/handlers.go#Server.handleReadyz*)
definition handleReadyz :: "server \<Rightarrow> incoming \<Rightarrow> handled" where
  "handleReadyz v c = (let said = (\<lambda>h. str (case h of None \<Rightarrow> ''ok'' | Some err \<Rightarrow> err));
       healthy = (sv_dbHealth v = None \<and> (case sv_cacheHealth v of Some (Some _) \<Rightarrow> False | _ \<Rightarrow> True) \<and> sv_ready v)
     in ok (if healthy then 200 else 503) (Inr (go_map [(''ready'', json_bool healthy), (''checks'', Some (go_map
          [(''database'', said (sv_dbHealth v)), (''cache'', Option.bind (sv_cacheHealth v) said),
           (''server'', str (if sv_ready v then ''ok'' else ''starting''))]))])))"

(*src internal/server/handlers.go#Server.handleMetrics*)
definition handleMetrics :: "server \<Rightarrow> incoming \<Rightarrow> handled" where
  "handleMetrics v c = (\<lambda>s. (Some \<lparr>re_Status = 200, re_Headers = [(''Content-Type'', ''text/plain; version=0.0.4; charset=utf-8'')],
     re_Body = Body_bytes ''text/plain; version=0.0.4; charset=utf-8'' (sv_metrics v)\<rparr>, s))"

(*src internal/server/handlers.go#Server.handleVersion*)
definition handleVersion :: "server \<Rightarrow> incoming \<Rightarrow> handled" where
  "handleVersion v c = ok 200 (Inr (go_map (map (\<lambda>(k, x). (k, str x)) (sv_build v) @
     [(''service'', str (sc_ServiceName (sv_cfg v))), (''version'', str (sc_Version (sv_cfg v))), (''env'', str (sc_Env (sv_cfg v)))])))"

(*src internal/server/server.go#RouteSpec*)
record RouteSpec =
  rs_Method :: string
  rs_Pattern :: string
  rs_Permission :: string
  rs_Public :: bool

(*src internal/server/handlers.go#Server.handleOpenAPI*)
definition handleOpenAPI :: "RouteSpec list \<Rightarrow> server \<Rightarrow> incoming \<Rightarrow> handled" where
  "handleOpenAPI routes v c = ok 200 (Inr (go_map
     [(''service'', str (sc_ServiceName (sv_cfg v))), (''version'', str ''v1''),
      (''routes'', Some (JArray (map (\<lambda>rt. go_map [(''method'', str (rs_Method rt)), (''path'', str (rs_Pattern rt)),
          if rs_Public rt then (''auth'', str ''public'') else (''permission'', str (rs_Permission rt))]) routes))),
      (''note'', str ''The full OpenAPI 3.1 document is served from api/openapi/specforge.v1.yaml.'')]))"

(*src internal/server/handlers.go#Server.handleMe*)
definition handleMe :: "server \<Rightarrow> incoming \<Rightarrow> handled" where
  "handleMe v c = or_fail (principalOf c) (\<lambda>p. ok 200 (Inr (go_map
     [(''principal_id'', str (pr_ID p)), (''kind'', str (pr_Kind p)), (''tenant_id'', str (pr_TenantID p)),
      (''display'', str (pr_Display p)), (''email'', str (pr_Email p)),
      (''roles'', Some (JArray (map (\<lambda>g. go_map [(''role'', str (gr_Role g)), (''project_id'', str (gr_ProjectID g))]) (pr_Grants p)))),
      (''permissions'', Some (json_slice JString (Names (pr_Permissions p)))), (''auth_time'', Some (json_time (pr_AuthTime p))),
      (''mfa'', json_bool (HasMFA p)), (''design_authority'', json_bool (pr_DesignAuthority p))])))"

section \<open>Tenants\<close>

(*src internal/server/handlers.go#createTenantRequest*)
definition createTenantRequest :: "(string \<times> field_kind) list" where
  "createTenantRequest = map (\<lambda>n. (n, Scalar K_string)) [''slug'', ''name'', ''isolation_mode'', ''region'']"

(*src internal/server/handlers.go#Server.handleCreateTenant*)
definition handleCreateTenant :: "server \<Rightarrow> incoming \<Rightarrow> handled" where
  "handleCreateTenant v c = or_fail (principalOf c) (\<lambda>actor.
     if readBody (sc_MaxBodyBytes (sv_cfg v)) (in_request c) = None then fail_with (Invalid ''server'' ''request.body_too_large'')
     else or_fail (decoded v c createTenantRequest) (\<lambda>req.
       let mode = string_field req ''isolation_mode'' in
       idempotently v c 201 (\<lambda>t. Inr (tenantDTO t)) (CreateTenant (sv_env v)
         \<lparr>ct_Slug = string_field req ''slug'', ct_Name = string_field req ''name'',
          ct_IsolationMode = (if mode = '''' then ''shared'' else mode), ct_Region = string_field req ''region''\<rparr> actor)))"

(*src internal/server/handlers.go#Server.handleListTenants*)
definition handleListTenants :: "server \<Rightarrow> incoming \<Rightarrow> handled" where
  "handleListTenants v c = or_fail (principalOf c) (\<lambda>actor.
     or_fail (ListTenants (sv_env v) \<lparr>tf_Status = '''', tf_Slug = '''', tf_Cursor = query c ''cursor'', tf_Limit = page_limit_of v c,
         tf_Scope = []\<rparr> actor) (\<lambda>(tenants, next). ok 200 (items tenantDTO tenants next)))"

(*src internal/server/handlers.go#Server.handleGetTenant*)
definition handleGetTenant :: "server \<Rightarrow> incoming \<Rightarrow> handled" where
  "handleGetTenant v c = with_tenant c (\<lambda>actor t.
     or_fail (GetTenant (sv_env v) t actor) (\<lambda>tenant. ok 200 (Inr (tenantDTO tenant))))"

definition settings_decl :: "(string \<times> field_kind) list" where
  "settings_decl = [(''four_eyes'', Scalar K_bool), (''architect_can_approve_prd'', Scalar K_bool), (''step_up_max_age'', Scalar K_int),
     (''evidence_retention'', Scalar K_int), (''link_auto_accept_threshold'', Scalar K_float), (''max_proposals_per_sweep'', Scalar K_int),
     (''max_exception_days'', Scalar K_int), (''data_residency'', Scalar K_string), (''allowed_ai_providers'', Scalar K_strings),
     (''guardrail_chain'', Scalar K_string), (''monthly_token_budget'', Scalar K_int), (''policy_set'', Scalar K_string)]"

definition settings_of :: "fields \<Rightarrow> Settings" where
  "settings_of fs = \<lparr>st_FourEyes = bool_field fs ''four_eyes'', st_ArchitectCanApprovePRD = bool_field fs ''architect_can_approve_prd'',
     st_StepUpMaxAge = int_field fs ''step_up_max_age'', st_EvidenceRetention = int_field fs ''evidence_retention'',
     st_LinkAutoAcceptMin = float_field fs ''link_auto_accept_threshold'',
     st_MaxProposalsPerSweep = int_field fs ''max_proposals_per_sweep'', st_MaxExceptionDays = int_field fs ''max_exception_days'',
     st_DataResidency = string_field fs ''data_residency'', st_AllowedAIProviders = strings_field fs ''allowed_ai_providers'',
     st_GuardrailChain = string_field fs ''guardrail_chain'', st_MonthlyTokenBudget = int_field fs ''monthly_token_budget'',
     st_PolicySet = string_field fs ''policy_set''\<rparr>"

(*src internal/server/handlers.go#Server.handleUpdateSettings*)
definition handleUpdateSettings :: "server \<Rightarrow> incoming \<Rightarrow> handled" where
  "handleUpdateSettings v c = with_tenant c (\<lambda>actor t. or_fail (decoded v c settings_decl) (\<lambda>fs.
     calling (UpdateSettings (sv_env v) t (settings_of fs) actor) (\<lambda>tenant. ok 200 (Inr (tenantDTO tenant)))))"

(*src internal/server/handlers.go#reasonRequest*)
definition reasonRequest :: "(string \<times> field_kind) list" where "reasonRequest = [(''reason'', Scalar K_string)]"

(*src internal/server/handlers.go#Server.handleSuspendTenant*)
definition handleSuspendTenant :: "server \<Rightarrow> incoming \<Rightarrow> handled" where
  "handleSuspendTenant v c = with_tenant c (\<lambda>actor t. or_fail (decoded v c reasonRequest) (\<lambda>req.
     calling (Suspend (sv_env v) t (string_field req ''reason'') actor) (\<lambda>_. ok 200 (status_json ''SUSPENDED''))))"

(*src internal/server/handlers.go#Server.handleReinstateTenant*)
definition handleReinstateTenant :: "server \<Rightarrow> incoming \<Rightarrow> handled" where
  "handleReinstateTenant v c = with_tenant c (\<lambda>actor t.
     calling (Reinstate (sv_env v) t actor) (\<lambda>_. ok 200 (status_json ''ACTIVE'')))"

section \<open>Principals and roles\<close>

(*src internal/server/handlers.go#Server.handleListPrincipals*)
definition handleListPrincipals :: "server \<Rightarrow> incoming \<Rightarrow> handled" where
  "handleListPrincipals v c = with_tenant c (\<lambda>actor t. or_fail (ListPrincipals (sv_env v) (sv_identity v) t actor) (\<lambda>ps.
     ok 200 (Inr (go_map [(''items'', Some (JArray (map principalDTO ps)))]))))"

(*src internal/server/handlers.go#assignRoleRequest*)
definition assignRoleRequest :: "(string \<times> field_kind) list" where
  "assignRoleRequest = [(''role'', Scalar K_string), (''project_id'', Scalar K_string), (''expires_at'', Scalar K_time)]"

(*src internal/server/handlers.go#Server.handleAssignRole*)
definition handleAssignRole :: "server \<Rightarrow> incoming \<Rightarrow> handled" where
  "handleAssignRole v c = with_tenant c (\<lambda>actor t.
     or_fail (case ParsePrincipalID (path_value c ''principalID'') of
         Inl _ \<Rightarrow> Inl (Invalid ''server'' ''request.invalid_principal_id'') | Inr pid \<Rightarrow> Inr pid) (\<lambda>pid.
     or_fail (decoded v c assignRoleRequest) (\<lambda>req.
     or_fail (case ParseRole (string_field req ''role'') of Inl _ \<Rightarrow> Inl (Invalid ''server'' ''role.invalid'') | Inr role \<Rightarrow> Inr role) (\<lambda>role.
     (\<lambda>s. let (res, r, m) = AssignRole (sv_env v) (sv_identity v) t pid role (string_field req ''project_id'') (time_field req ''expires_at'')
            actor (pl_realm s) (pl_memory s)
        in or_fail res (\<lambda>a. ok 201 (Inr (go_map [(''id'', str (ra_ID a)), (''role'', str (ra_Role a)), (''project_id'', str (ra_ProjectID a)),
              (''granted_at'', Some (json_time (ra_GrantedAt a)))]))) (s\<lparr>pl_realm := r, pl_memory := m\<rparr>))))))"

section \<open>Projects\<close>

(*src internal/server/handlers.go#createProjectRequest*)
definition createProjectRequest :: "(string \<times> field_kind) list" where
  "createProjectRequest = map (\<lambda>n. (n, Scalar K_string)) [''key'', ''name'', ''description'']"

(*src internal/server/handlers.go#Server.handleCreateProject*)
definition handleCreateProject :: "server \<Rightarrow> incoming \<Rightarrow> handled" where
  "handleCreateProject v c = with_tenant c (\<lambda>actor t. or_fail (decoded_again v c createProjectRequest) (\<lambda>req.
     idempotently v c 201 (\<lambda>p. Inr (projectDTO p)) (CreateProject (sv_env v) \<lparr>cp_TenantID = t, cp_Key = string_field req ''key'',
       cp_Name = string_field req ''name'', cp_Description = string_field req ''description''\<rparr> actor)))"

(*src internal/server/handlers.go#Server.handleListProjects*)
definition handleListProjects :: "server \<Rightarrow> incoming \<Rightarrow> handled" where
  "handleListProjects v c = with_tenant c (\<lambda>actor t.
     or_fail (ListProjects (sv_env v) \<lparr>pf_TenantID = t, pf_Status = query c ''status'', pf_Phase = '''', pf_Cursor = query c ''cursor'',
         pf_Limit = page_limit_of v c\<rparr> actor) (\<lambda>(ps, next). ok 200 (items projectDTO ps next)))"

(*src internal/server/handlers.go#Server.handleGetProject*)
definition handleGetProject :: "server \<Rightarrow> incoming \<Rightarrow> handled" where
  "handleGetProject v c = with_scope c (\<lambda>actor t p. or_fail (GetProject (sv_env v) t p actor) (\<lambda>x. ok 200 (Inr (projectDTO x))))"

(*src internal/server/handlers.go#Server.handleArchiveProject*)
definition handleArchiveProject :: "server \<Rightarrow> incoming \<Rightarrow> handled" where
  "handleArchiveProject v c = with_scope c (\<lambda>actor t p.
     calling (ArchiveProject (sv_env v) t p actor) (\<lambda>_. ok 200 (status_json ''ARCHIVED'')))"

section \<open>Artifacts\<close>

(*src internal/server/handlers.go#artifactRefDTO*)
definition artifactRefDTO :: "(string \<times> scalar_kind) list" where
  "artifactRefDTO = [(''artifact_id'', K_string), (''version'', K_int)]"

(*src internal/server/handlers.go#generatorDTO*)
definition generatorDTO :: "(string \<times> scalar_kind) list" where
  "generatorDTO = map (\<lambda>n. (n, K_string)) [''kind'', ''prompt_version'', ''model'', ''provider'', ''guardrail_chain_version'',
     ''inference_id'', ''analyzer'', ''analyzer_version'']"

(*src internal/server/handlers.go#createArtifactRequest*)
definition createArtifactRequest :: "(string \<times> field_kind) list" where
  "createArtifactRequest = [(''artifact_id'', Scalar K_string), (''area'', Scalar K_string), (''type'', Scalar K_string),
     (''title'', Scalar K_string), (''content_schema'', Scalar K_string), (''content'', Scalar K_raw), (''labels'', Scalar K_map),
     (''source'', Struct True artifactRefDTO), (''parent'', Struct True artifactRefDTO), (''generator'', Struct True generatorDTO)]"

(*src internal/server/handlers.go#generatorDTO.toDomain*)
definition generator_toDomain :: "fields option \<Rightarrow> Generator" where
  "generator_toDomain g = (let get = (case g of None \<Rightarrow> (\<lambda>_. '''') | Some fs \<Rightarrow> string_field fs) in
     \<lparr>g_Kind = (if g = None then GeneratedByUser else get ''kind''), g_Analyzer = get ''analyzer'',
      g_AnalyzerVersion = get ''analyzer_version'', g_PromptVersion = get ''prompt_version'', g_Model = get ''model'',
      g_Provider = get ''provider'', g_Temperature = (False, 0, 0), g_GuardrailChainVersion = get ''guardrail_chain_version'',
      g_InferenceID = get ''inference_id'', g_InputArtifacts = [], g_SourceSystem = '''', g_SourceRef = ''''\<rparr>)"

definition ref_of :: "fields \<Rightarrow> ArtifactRef" where
  "ref_of fs = \<lparr>ref_ArtifactID = string_field fs ''artifact_id'', ref_Version = int_field fs ''version''\<rparr>"

(*src internal/server/handlers.go#artifactRefDTO.toDomain*)
definition ref_toDomain :: "fields option \<Rightarrow> ArtifactRef option" where "ref_toDomain = map_option ref_of"

(*src internal/server/handlers.go#Server.handleCreateArtifact*)
definition handleCreateArtifact :: "server \<Rightarrow> incoming \<Rightarrow> handled" where
  "handleCreateArtifact v c = with_scope c (\<lambda>actor t p. or_fail (decoded_again v c createArtifactRequest) (\<lambda>req.
     or_fail (case ParseArtifactType (string_field req ''type'') of
         Inl _ \<Rightarrow> Inl (Invalid ''server'' ''artifact.type_invalid'') | Inr ty \<Rightarrow> Inr ty) (\<lambda>ty.
     idempotently v c 201 versionDTO (Create (sv_env v) \<lparr>ci_TenantID = t, ci_ProjectID = p, ci_ArtifactID = string_field req ''artifact_id'',
       ci_Area = ToUpper (string_field req ''area''), ci_Type = ty, ci_Title = string_field req ''title'',
       ci_ContentSchema = string_field req ''content_schema'', ci_Content = raw_field req ''content'',
       ci_Generator = generator_toDomain (struct_field req ''generator''), ci_Labels = map_field req ''labels'',
       ci_Parent = ref_toDomain (struct_field req ''parent''), ci_Source = ref_toDomain (struct_field req ''source'')\<rparr> actor))))"

(*src internal/server/handlers.go#Server.handleListArtifacts*)
definition handleListArtifacts :: "server \<Rightarrow> incoming \<Rightarrow> handled" where
  "handleListArtifacts v c = with_scope c (\<lambda>actor t p.
     or_fail (ListArtifacts (sv_env v) \<lparr>af_TenantID = t, af_ProjectID = p, af_Type = query c ''type'', af_Status = query c ''status'',
         af_Label = ('''', ''''), af_Cursor = query c ''cursor'', af_Limit = page_limit_of v c\<rparr> actor)
       (\<lambda>(xs, next). ok 200 (items artifactDTO xs next)))"

(*src internal/server/handlers.go#Server.handleGetArtifact*)
definition handleGetArtifact :: "server \<Rightarrow> incoming \<Rightarrow> handled" where
  "handleGetArtifact v c = with_scope c (\<lambda>actor t p.
     or_fail (GetArtifact (sv_env v) t p (path_value c ''artifactID'') actor) (\<lambda>(a, versions).
     ok 200 (bindR (collect (map versionDTO versions)) (\<lambda>history.
       Inr (go_map [(''artifact'', Some (artifactDTO a)), (''versions'', Some (JArray history))])))))"

(*src internal/server/handlers.go#Server.handleGetVersion*)
definition handleGetVersion :: "server \<Rightarrow> incoming \<Rightarrow> handled" where
  "handleGetVersion v c = with_scope c (\<lambda>actor t p. or_fail (path_version c) (\<lambda>n.
     or_fail (GetVersion (sv_env v) t p (path_value c ''artifactID'') n actor) (\<lambda>x. ok 200 (versionDTO x))))"

(*src internal/server/handlers.go#updateDraftRequest*)
definition updateDraftRequest :: "(string \<times> field_kind) list" where
  "updateDraftRequest = [(''content'', Scalar K_raw), (''version_no'', Scalar K_int)]"

definition TrimChar :: "char \<Rightarrow> string \<Rightarrow> string" where
  "TrimChar x s = rev (dropWhile (\<lambda>c. c = x) (rev (dropWhile (\<lambda>c. c = x) s)))"

text \<open>The version the client edited: from the body, else from the header, else 0.\<close>

(*src internal/server/handlers.go:676-681#Server.handleUpdateDraft*)
definition expected_version :: "incoming \<Rightarrow> fields \<Rightarrow> int" where
  "expected_version c req = (let n = int_field req ''version_no''; im = rq_Header (in_request c) ''If-Match'' in
     if im \<noteq> '''' \<and> n = 0 then (case ParseInt (TrimChar CHR 0x22 im) of Some m \<Rightarrow> m | None \<Rightarrow> n) else n)"

(*src internal/server/handlers.go#Server.handleUpdateDraft*)
definition handleUpdateDraft :: "server \<Rightarrow> incoming \<Rightarrow> handled" where
  "handleUpdateDraft v c = with_scope c (\<lambda>actor t p. or_fail (path_version c) (\<lambda>n. or_fail (decoded v c updateDraftRequest) (\<lambda>req.
     calling (UpdateDraft (sv_env v) t p (path_value c ''artifactID'') n (raw_field req ''content'') (expected_version c req) actor)
       (\<lambda>x. ok 200 (versionDTO x)))))"

(*src internal/server/handlers.go#commentRequest*)
definition commentRequest :: "(string \<times> field_kind) list" where "commentRequest = [(''comment'', Scalar K_string)]"

(*src internal/server/handlers.go#Server.transition*)
definition handle_transition :: "Event \<Rightarrow> server \<Rightarrow> incoming \<Rightarrow> handled" where
  "handle_transition e v c = with_scope c (\<lambda>actor t p. or_fail (path_version c) (\<lambda>n. or_fail (decoded_if_any v c commentRequest) (\<lambda>req.
     calling (ArtifactService.Transition (sv_env v) t p (path_value c ''artifactID'') n e (string_field req ''comment'') actor)
       (\<lambda>x. ok 200 (versionDTO x)))))"

(*src internal/server/handlers.go#Server.handleSubmit*)
definition handleSubmit where "handleSubmit = handle_transition EventSubmitForReview"
(*src internal/server/handlers.go#Server.handleRequestChanges*)
definition handleRequestChanges where "handleRequestChanges = handle_transition EventRequestChanges"
(*src internal/server/handlers.go#Server.handleFreeze*)
definition handleFreeze where "handleFreeze = handle_transition EventFreeze"

(*src internal/server/handlers.go#Server.handleApprove*)
definition handleApprove :: "server \<Rightarrow> incoming \<Rightarrow> handled" where
  "handleApprove v c = with_scope c (\<lambda>actor t p. or_fail (path_version c) (\<lambda>n. or_fail (decoded_again v c commentRequest) (\<lambda>req.
     idempotently v c 200 versionDTO (Approve (sv_env v) (sc_Buckets (sv_cfg v)) \<lparr>ai_TenantID = t, ai_ProjectID = p,
       ai_ArtifactID = path_value c ''artifactID'', ai_Version = n, ai_Comment = string_field req ''comment''\<rparr> actor))))"

(*src internal/server/handlers.go#reviseRequest*)
definition reviseRequest :: "(string \<times> field_kind) list" where "reviseRequest = [(''change_summary'', Scalar K_string)]"

(*src internal/server/handlers.go#Server.handleRevise*)
definition handleRevise :: "server \<Rightarrow> incoming \<Rightarrow> handled" where
  "handleRevise v c = with_scope c (\<lambda>actor t p. or_fail (decoded_again v c reviseRequest) (\<lambda>req.
     idempotently v c 201 versionDTO
       (Revise (sv_env v) t p (path_value c ''artifactID'') (string_field req ''change_summary'') actor)))"

(*src internal/server/handlers.go#Server.handleEvidence*)
definition handleEvidence :: "server \<Rightarrow> incoming \<Rightarrow> handled" where
  "handleEvidence v c = with_scope c (\<lambda>actor t p. or_fail (path_version c) (\<lambda>n. (\<lambda>s.
     or_fail (Evidence (sv_env v) (sc_Buckets (sv_cfg v)) t p (path_value c ''artifactID'') n actor (w_objects (the_world s))) (\<lambda>body s.
       (Some \<lparr>re_Status = 200, re_Headers = [(''Content-Type'', evidence_type)], re_Body = Body_bytes evidence_type body\<rparr>, s)) s)))"

section \<open>Links and traversals\<close>

(*src internal/server/graph_handlers.go#createLinkRequest*)
definition createLinkRequest :: "(string \<times> field_kind) list" where
  "createLinkRequest = [(''from'', Struct False artifactRefDTO), (''to'', Struct False artifactRefDTO), (''link_type'', Scalar K_string),
     (''origin'', Scalar K_string), (''confidence'', Scalar K_float), (''rationale'', Scalar K_string)]"

definition ref_field :: "fields \<Rightarrow> string \<Rightarrow> ArtifactRef" where
  "ref_field req n = ref_of (case struct_field req n of Some fs \<Rightarrow> fs | None \<Rightarrow> [])"

(*src internal/server/graph_handlers.go:40-57#Server.handleCreateLink*)
definition link_origin :: "fields \<Rightarrow> (LinkType \<times> LinkOrigin \<times> (bool \<times> f64)) result" where
  "link_origin req = (case ParseLinkType (string_field req ''link_type'') of
     Inl _ \<Rightarrow> Inl (Invalid ''server'' ''link.type_invalid'')
   | Inr ty \<Rightarrow> let given = ToUpper (string_field req ''origin''); origin = (if given = '''' then OriginHuman else given);
         confidence = float_field req ''confidence'' in
       checkR (\<not> LinkOrigin_Valid origin) (Invalid ''server'' ''link.origin_invalid'')
         (Inr (ty, origin, if f64_units confidence = 0 \<and> origin = OriginHuman then (False, 2 ^ 52, 1022) else confidence)))"

(*src internal/server/graph_handlers.go#Server.handleCreateLink*)
definition handleCreateLink :: "server \<Rightarrow> incoming \<Rightarrow> handled" where
  "handleCreateLink v c = with_scope c (\<lambda>actor t p. or_fail (decoded_again v c createLinkRequest) (\<lambda>req.
     or_fail (link_origin req) (\<lambda>(ty, origin, confidence).
     idempotently v c 201 (\<lambda>l. Inr (linkDTO l)) (CreateLink (sv_env v) \<lparr>li_TenantID = t, li_ProjectID = p, li_From = ref_field req ''from'',
       li_To = ref_field req ''to'', li_Type = ty, li_Origin = origin, li_Confidence = confidence,
       li_Rationale = string_field req ''rationale''\<rparr> actor))))"

(*src internal/server/graph_handlers.go#Server.handleListLinks*)
definition handleListLinks :: "server \<Rightarrow> incoming \<Rightarrow> handled" where
  "handleListLinks v c = with_scope c (\<lambda>actor t p. let given = (\<lambda>x. if query c x = '''' then None else Some (query c x)) in
     or_fail (ListLinks (sv_env v) \<lparr>lf_TenantID = t, lf_ProjectID = p, lf_From = given ''from'', lf_To = given ''to'',
         lf_Type = query c ''link_type'', lf_Status = query c ''status'', lf_Limit = intParam c ''limit'' 200\<rparr> actor) (\<lambda>ls.
     ok 200 (Inr (go_map [(''items'', Some (JArray (map linkDTO ls)))]))))"

(*src internal/server/graph_handlers.go#acceptLinkRequest*)
definition acceptLinkRequest :: "(string \<times> field_kind) list" where "acceptLinkRequest = [(''disposition_id'', Scalar K_string)]"

(*src internal/server/graph_handlers.go#Server.handleAcceptLink*)
definition handleAcceptLink :: "server \<Rightarrow> incoming \<Rightarrow> handled" where
  "handleAcceptLink v c = with_scope c (\<lambda>actor t p. or_fail (decoded_if_any v c acceptLinkRequest) (\<lambda>req.
     calling (AcceptLink (sv_env v) t p (path_value c ''linkID'') (string_field req ''disposition_id'') actor) (\<lambda>l. ok 200 (Inr (linkDTO l)))))"

(*src internal/server/graph_handlers.go#rejectLinkRequest*)
definition rejectLinkRequest :: "(string \<times> field_kind) list" where "rejectLinkRequest = [(''rationale'', Scalar K_string)]"

(*src internal/server/graph_handlers.go#Server.handleRejectLink*)
definition handleRejectLink :: "server \<Rightarrow> incoming \<Rightarrow> handled" where
  "handleRejectLink v c = with_scope c (\<lambda>actor t p. or_fail (decoded v c rejectLinkRequest) (\<lambda>req.
     calling (RejectLink (sv_env v) t p (path_value c ''linkID'') (string_field req ''rationale'') actor) (\<lambda>l. ok 200 (Inr (linkDTO l)))))"

(*src internal/server/graph_handlers.go#parseArtifactRef*)
definition parseArtifactRef :: "incoming \<Rightarrow> ArtifactRef result" where
  "parseArtifactRef c = (let op = ''server.parseArtifactRef''; aid = query c ''artifact''; n = query c ''version'' in
     checkR (aid = '''') (Invalid op ''request.artifact_required'') (
     if n = '''' then Inr \<lparr>ref_ArtifactID = aid, ref_Version = 1\<rparr>
     else case ParseInt n of None \<Rightarrow> Inl (Invalid op ''request.invalid_version'') | Some k \<Rightarrow> Inr \<lparr>ref_ArtifactID = aid, ref_Version = k\<rparr>))"

(*src internal/server/graph_handlers.go:198-208#Server.traceQuery*)
definition type_filter :: "incoming \<Rightarrow> ArtifactType list result" where
  "type_filter c = (if query c ''types'' = '''' then Inr [] else
     (case collect (map (\<lambda>part. ParseArtifactType (TrimSpace part)) (Split (query c ''types'') CHR '','')) of
        Inl _ \<Rightarrow> Inl (Invalid ''server'' ''artifact.type_invalid'') | Inr ts \<Rightarrow> Inr ts))"

definition if_it_returns :: "'a result option \<Rightarrow> ('a \<Rightarrow> handled) \<Rightarrow> handled" where
  "if_it_returns r k = (case r of None \<Rightarrow> (\<lambda>s. (None, s)) | Some x \<Rightarrow> or_fail x k)"

(*src internal/server/graph_handlers.go#Server.traceQuery*)
definition traceQuery :: "Direction \<Rightarrow> server \<Rightarrow> incoming \<Rightarrow> handled" where
  "traceQuery dir v c = with_scope c (\<lambda>actor t p. or_fail (parseArtifactRef c) (\<lambda>start. or_fail (type_filter c) (\<lambda>ts.
     if_it_returns ((if dir = Upstream then svc_Upstream else svc_Downstream) (sv_env v) (sv_collate v) (sc_MaxGraphDepth (sv_cfg v)) t p start ts actor)
       (\<lambda>paths. ok 200 (Inr (json_paths paths))))))"

(*src internal/server/graph_handlers.go#Server.handleUpstream*)
definition handleUpstream where "handleUpstream = traceQuery Upstream"
(*src internal/server/graph_handlers.go#Server.handleDownstream*)
definition handleDownstream where "handleDownstream = traceQuery Downstream"

(*src internal/server/graph_handlers.go#Server.handleImpact*)
definition handleImpact :: "server \<Rightarrow> incoming \<Rightarrow> handled" where
  "handleImpact v c = with_scope c (\<lambda>actor t p. or_fail (parseArtifactRef c) (\<lambda>subject.
     if_it_returns (Impact (sv_env v) (sv_collate v) (sc_MaxGraphDepth (sv_cfg v)) t p subject actor)
       (\<lambda>is. ok 200 (Inr (json_impact_set is)))))"

section \<open>The audit trail\<close>

definition audit_resource :: "TenantID \<Rightarrow> Resource" where
  "audit_resource t = (tenant_resource t)\<lparr>res_Type := ''audit'', res_ID := ''''\<rparr>"

definition with_audit :: "server \<Rightarrow> Permission \<Rightarrow> incoming \<Rightarrow> (TenantID \<Rightarrow> handled) \<Rightarrow> handled" where
  "with_audit v perm c k = with_tenant c (\<lambda>actor t.
     case Require (ev_policy (sv_env v)) (ev_now (sv_env v) 0) actor perm (audit_resource t) of
       Some err \<Rightarrow> fail_with err | None \<Rightarrow> k t)"

(*src internal/server/handlers.go#Server.handleListAudit*)
definition handleListAudit :: "server \<Rightarrow> incoming \<Rightarrow> handled" where
  "handleListAudit v c = with_audit v AuditRead c (\<lambda>t.
     or_fail (Audit_List (ev_rfault (sv_env v) 0) (w_audit (ev_read (sv_env v) 0)) \<lparr>uf_TenantID = t, uf_ProjectID = None,
         uf_Action = query c ''action'', uf_Actor = query c ''actor'', uf_Outcome = query c ''outcome'', uf_Severity = query c ''severity'',
         uf_From = 0, uf_To = 0, uf_Cursor = query c ''cursor'', uf_Limit = page_limit_of v c\<rparr>)
       (\<lambda>(rs, next). ok 200 (items auditDTO rs next)))"

(*src internal/server/handlers.go#Server.handleGetAudit*)
definition handleGetAudit :: "server \<Rightarrow> incoming \<Rightarrow> handled" where
  "handleGetAudit v c = with_audit v AuditRead c (\<lambda>t.
     or_fail (case ParseInt (path_value c ''sequence'') of None \<Rightarrow> Inl (Invalid ''server'' ''request.invalid_sequence'') | Some n \<Rightarrow> Inr n) (\<lambda>n.
     or_fail (Get_record (w_audit (ev_read (sv_env v) 0)) t n) (\<lambda>r. ok 200 (Inr (auditDTO r)))))"

(*src internal/server/handlers.go#verifyAuditRequest*)
definition verifyAuditRequest :: "(string \<times> field_kind) list" where
  "verifyAuditRequest = [(''from'', Scalar K_int), (''to'', Scalar K_int)]"

(*src internal/server/handlers.go#Server.handleVerifyAudit*)
definition handleVerifyAudit :: "server \<Rightarrow> incoming \<Rightarrow> handled" where
  "handleVerifyAudit v c = with_audit v AuditRead c (\<lambda>t. or_fail (decoded_if_any v c verifyAuditRequest) (\<lambda>req.
     or_fail (Audit_Verify (w_audit (ev_read (sv_env v) 0)) t (int_field req ''from'') (int_field req ''to'')) (\<lambda>rep.
     ok 200 (Inr (go_map [(''tenant_id'', str (vr_TenantID rep)), (''from'', json_num (vr_From rep)), (''to'', json_num (vr_To rep)),
       (''records_checked'', json_num (vr_RecordsChecked rep)), (''valid'', json_bool (vr_Valid rep)),
       (''failed_at'', json_num (vr_FailedAt rep)), (''reason'', str (vr_Reason rep))])))))"

text \<open>\<open>Service.Anchor\<close> on the whole database: the document of the anchor goes to the evidence store, locked
  for seven years, and stays there when the row that refers to it is not written.\<close>

definition anchor_options :: "time \<Rightarrow> Anchor \<Rightarrow> PutOptions" where
  "anchor_options now a = \<lparr>po_MediaType = ''application/vnd.specforge.audit-anchor+json'',
     po_Metadata = [(''tenant_id'', an_TenantID a), (''sequence'', Itoa (an_Sequence a))], po_Lock = True, po_RetainUntil = AddYears 7 now\<rparr>"

(*src internal/audit/app/writer.go#Service.Anchor*)
definition publish_anchor :: "server \<Rightarrow> TenantID \<Rightarrow> world \<Rightarrow> Anchor option result \<times> world" where
  "publish_anchor v t w = (let ev = sv_env v; (seq, head) = Head (w_audit (ev_read ev 0)) t in
     if seq = 0 then (Inr None, w)
     else let a = \<lparr>an_TenantID = t, an_AnchoredAt = Now (ev_now ev 1), an_Sequence = seq, an_HeadHash = head, an_StorageRef = ''''\<rparr>;
              key = TenantKey t None (''audit-anchors/'' @ FormatCompact (an_AnchoredAt a) @ ''-'' @ Itoa seq @ ''.json'') in
       case sv_marshal v (json_anchor a) of
         Inl err \<Rightarrow> (Inl (Wrap err ''audit.Anchor'' KindInternal ''audit.anchor_encode_failed''), w)
       | Inr body \<Rightarrow>
           (case store_PutAt (ev_sfault ev 0) (ev_now ev 3) (bk_Evidence (sc_Buckets (sv_cfg v))) key body
               (anchor_options (ev_now ev 2) a) (w_objects w) of
              (Inl err, objs) \<Rightarrow> (Inl err, w\<lparr>w_objects := objs\<rparr>)
            | (Inr obj, objs) \<Rightarrow> let a1 = a\<lparr>an_StorageRef := so_Key obj\<rparr> in
                in_tx ev (scope t None '''') (\<lambda>w1. bindT (zoomT w_audit put_audit (SaveAnchor (ev_audit ev 0) (tenant_exists w1) a1))
                   (\<lambda>_. returnT (Some a1)) w1) (w\<lparr>w_objects := objs\<rparr>)))"

(*src internal/server/handlers.go#Server.handleAnchorAudit*)
definition handleAnchorAudit :: "server \<Rightarrow> incoming \<Rightarrow> handled" where
  "handleAnchorAudit v c = with_audit v AuditExport c (\<lambda>t. calling (publish_anchor v t) (\<lambda>a. case a of
     None \<Rightarrow> ok 200 (status_json ''nothing_to_anchor'') | Some anchor \<Rightarrow> ok 201 (Inr (json_anchor anchor))))"

text \<open>Publishing an anchor is not recorded: the records of the log and the events stay as they were.\<close>

lemma publish_anchor_unrecorded:
  "as_records (w_audit (snd (publish_anchor v t w))) = as_records (w_audit w) \<and> w_outbox (snd (publish_anchor v t w)) = w_outbox w"
proof -
  have s: "SaveAnchor f k a s = Inr (u, s') \<Longrightarrow> as_records s' = as_records s" for f k a u s s'
    by (auto simp: SaveAnchor_def monad_inv split: if_splits)
  have "as_records (w_audit w') = as_records (w_audit w) \<and> w_outbox w' = w_outbox w"
    if "in_tx ev tc (\<lambda>w1. bindT (zoomT w_audit put_audit (SaveAnchor (q w1) (known w1) a)) (\<lambda>_. returnT z) w1) w = (r, w')"
    for ev tc q known a and z :: "Anchor option" and r w w'
  proof (cases r)
    case (Inl e)
    then show ?thesis using in_tx_Inl that by blast
  next
    case (Inr x)
    show ?thesis using that unfolding Inr by (auto simp: monad_inv dest: s)
  qed
  then have "as_records (w_audit (snd (in_tx ev tc (\<lambda>w1. bindT (zoomT w_audit put_audit (SaveAnchor (q w1) (known w1) a)) (\<lambda>_. returnT z) w1) w))) =
        as_records (w_audit w)"
      "w_outbox (snd (in_tx ev tc (\<lambda>w1. bindT (zoomT w_audit put_audit (SaveAnchor (q w1) (known w1) a)) (\<lambda>_. returnT z) w1) w)) = w_outbox w"
    for ev tc q known a and z :: "Anchor option" and w
    using surjective_pairing by blast+
  then show ?thesis by (simp add: publish_anchor_def Let_def split: prod.split sum.split)
qed

end
