(* ===== verification/Server.thy ===== *)
theory Server
  imports Handlers
begin

text \<open>
  The server as a whole, \<^verbatim>\<open>internal/server\<close> (\<^verbatim>\<open>routes.go\<close>, \<^verbatim>\<open>server.go\<close>, \<^verbatim>\<open>middleware.go\<close>) and the middleware of
  \<^verbatim>\<open>internal/platform/httpx\<close>: the table of routes with the permission each declares, the multiplexer,
  and the chain a request passes before it, from the request identifier to the rate limit.
\<close>

section \<open>Routes\<close>

text \<open>The discovery document lists the routes, so a handler is given the list.\<close>

record route =
  ro_Method :: string
  ro_Pattern :: string
  ro_Permission :: "Permission option"
  ro_Handler :: "RouteSpec list \<Rightarrow> server \<Rightarrow> incoming \<Rightarrow> handled"

(*src internal/server/server.go#Server.Route*)
definition Route :: "string \<Rightarrow> string \<Rightarrow> Permission \<Rightarrow> (server \<Rightarrow> incoming \<Rightarrow> handled) \<Rightarrow> route" where
  "Route m p perm h = \<lparr>ro_Method = m, ro_Pattern = p, ro_Permission = Some perm, ro_Handler = (\<lambda>_. h)\<rparr>"

(*src internal/server/server.go#Server.PublicRoute*)
definition PublicRoute :: "string \<Rightarrow> string \<Rightarrow> (RouteSpec list \<Rightarrow> server \<Rightarrow> incoming \<Rightarrow> handled) \<Rightarrow> route" where
  "PublicRoute m p h = \<lparr>ro_Method = m, ro_Pattern = p, ro_Permission = None, ro_Handler = h\<rparr>"

definition tenants_base :: string where "tenants_base = ''/api/v1/tenants''"
definition tenant_base :: string where "tenant_base = tenants_base @ ''/{tenantID}''"
definition graph_base :: string where "graph_base = tenant_base @ ''/projects/{projectID}''"
definition artifact_base :: string where "artifact_base = graph_base @ ''/artifacts''"
definition version_base :: string where "version_base = artifact_base @ ''/{artifactID}/versions/{version}''"

lemmas base_defs = version_base_def artifact_base_def graph_base_def tenant_base_def tenants_base_def

(*src internal/server/routes.go:15-20#Server.registerRoutes*)
definition public_routes :: "route list" where
  "public_routes =
     [PublicRoute ''GET'' ''/healthz'' (\<lambda>_. handleHealthz),
      PublicRoute ''GET'' ''/readyz'' (\<lambda>_. handleReadyz),
      PublicRoute ''GET'' ''/metrics'' (\<lambda>_. handleMetrics),
      PublicRoute ''GET'' ''/api/v1/version'' (\<lambda>_. handleVersion),
      PublicRoute ''GET'' ''/api/v1/openapi.json'' handleOpenAPI]"

(*src internal/server/routes.go:22-27#Server.registerRoutes*)
definition session_routes :: "route list" where
  "session_routes =
     [Route ''GET'' ''/api/v1/auth/me'' TenantRead handleMe,
      Route ''POST'' tenants_base TenantCreate handleCreateTenant,
      Route ''GET'' tenants_base TenantRead handleListTenants]"

(*src internal/server/routes.go:28-47#Server.registerRoutes*)
definition tenant_routes :: "route list" where
  "tenant_routes =
     [Route ''GET'' tenant_base TenantRead handleGetTenant,
      Route ''PUT'' (tenant_base @ ''/settings'') TenantUpdate handleUpdateSettings,
      Route ''POST'' (tenant_base @ ''/suspend'') TenantSuspend handleSuspendTenant,
      Route ''POST'' (tenant_base @ ''/reinstate'') TenantSuspend handleReinstateTenant,
      Route ''GET'' (tenant_base @ ''/principals'') PrincipalRead handleListPrincipals,
      Route ''POST'' (tenant_base @ ''/principals/{principalID}/roles'') RoleAssign handleAssignRole,
      Route ''POST'' (tenant_base @ ''/projects'') ProjectCreate handleCreateProject,
      Route ''GET'' (tenant_base @ ''/projects'') ProjectRead handleListProjects,
      Route ''GET'' graph_base ProjectRead handleGetProject,
      Route ''POST'' (graph_base @ ''/archive'') ProjectArchive handleArchiveProject]"

(*src internal/server/routes.go:49-69#Server.registerRoutes*)
definition artifact_routes :: "route list" where
  "artifact_routes =
     [Route ''POST'' artifact_base ArtifactCreate handleCreateArtifact,
      Route ''GET'' artifact_base ArtifactRead handleListArtifacts,
      Route ''GET'' (artifact_base @ ''/{artifactID}'') ArtifactRead handleGetArtifact,
      Route ''GET'' version_base ArtifactRead handleGetVersion,
      Route ''PUT'' version_base ArtifactEdit handleUpdateDraft,
      Route ''POST'' (version_base @ ''/submit'') ArtifactSubmit handleSubmit,
      Route ''POST'' (version_base @ ''/request-changes'') ArtifactReview handleRequestChanges,
      Route ''POST'' (version_base @ ''/approve'') ArtifactApprove handleApprove,
      Route ''POST'' (version_base @ ''/freeze'') ArtifactFreeze handleFreeze,
      Route ''POST'' (artifact_base @ ''/{artifactID}/revise'') ArtifactEdit handleRevise,
      Route ''GET'' (version_base @ ''/evidence'') ArtifactRead handleEvidence]"

(*src internal/server/routes.go:71-79#Server.registerRoutes*)
definition graph_routes :: "route list" where
  "graph_routes =
     [Route ''POST'' (graph_base @ ''/links'') LinkCreate handleCreateLink,
      Route ''GET'' (graph_base @ ''/links'') LinkRead handleListLinks,
      Route ''POST'' (graph_base @ ''/links/{linkID}/accept'') LinkAccept handleAcceptLink,
      Route ''POST'' (graph_base @ ''/links/{linkID}/reject'') LinkReject handleRejectLink,
      Route ''GET'' (graph_base @ ''/trace/upstream'') ArtifactRead handleUpstream,
      Route ''GET'' (graph_base @ ''/trace/downstream'') ArtifactRead handleDownstream,
      Route ''GET'' (graph_base @ ''/trace/impact'') ArtifactRead handleImpact]"

(*src internal/server/routes.go:81-88#Server.registerRoutes*)
definition audit_routes :: "route list" where
  "audit_routes =
     [Route ''GET'' (tenant_base @ ''/audit'') AuditRead handleListAudit,
      Route ''GET'' (tenant_base @ ''/audit/{sequence}'') AuditRead handleGetAudit,
      Route ''POST'' (tenant_base @ ''/audit/verify'') AuditRead handleVerifyAudit,
      Route ''POST'' (tenant_base @ ''/audit/anchor'') AuditExport handleAnchorAudit]"

(*src internal/server/routes.go#Server.registerRoutes*)
definition registerRoutes :: "route list" where
  "registerRoutes = public_routes @ session_routes @ tenant_routes @ artifact_routes @ graph_routes @ audit_routes"

definition route_spec :: "route \<Rightarrow> RouteSpec" where
  "route_spec r = \<lparr>rs_Method = ro_Method r, rs_Pattern = ro_Pattern r,
     rs_Permission = (case ro_Permission r of Some p \<Rightarrow> Permission_String p | None \<Rightarrow> ''''), rs_Public = (ro_Permission r = None)\<rparr>"

(*src internal/server/server.go#Server.Routes*)
definition Routes :: "RouteSpec list" where
  "Routes = sort_key rs_Pattern (sort_key rs_Method (map route_spec registerRoutes))"

(*src internal/server/server.go#Server.LintRoutes*)
definition LintRoutes :: "RouteSpec list \<Rightarrow> string list" where
  "LintRoutes rs = map (\<lambda>r. rs_Method r @ '' '' @ rs_Pattern r @ '' declares no permission'')
     (filter (\<lambda>r. \<not> rs_Public r \<and> (rs_Permission r = '''' \<or> HasPrefix (rs_Permission r) ''permission('')) rs)"

section \<open>The multiplexer\<close>

definition takes :: "route \<Rightarrow> http_request \<Rightarrow> (string \<times> string) list option" where
  "takes rt r = match_segments (parse_pattern (ro_Pattern rt)) (rq_Segments r)"

definition find_route :: "http_request \<Rightarrow> (route \<times> (string \<times> string) list) option" where
  "find_route r = (case filter (\<lambda>rt. match_method (ro_Method rt) (rq_Method r) \<and> takes rt r \<noteq> None) registerRoutes of
     [] \<Rightarrow> None | rt # _ \<Rightarrow> Some (rt, the (takes rt r)))"

text \<open>The methods other routes would take the path with, as \<^verbatim>\<open>ServeMux\<close> lists them.\<close>

definition allowed_methods :: "http_request \<Rightarrow> string list" where
  "allowed_methods r = (let ms = map ro_Method (filter (\<lambda>rt. takes rt r \<noteq> None) registerRoutes) in
     sort (remdups (if ''GET'' \<in> set ms then ''HEAD'' # ms else ms)))"

definition plain_error :: "int \<Rightarrow> (string \<times> string) list \<Rightarrow> string \<Rightarrow> reply" where
  "plain_error status hs body = \<lparr>re_Status = status,
     re_Headers = hs @ [(''Content-Type'', ''text/plain; charset=utf-8''), (''X-Content-Type-Options'', ''nosniff'')],
     re_Body = Body_bytes ''text/plain; charset=utf-8'' (body @ [CHR 0x0A])\<rparr>"

definition serve_mux :: "server \<Rightarrow> Principal option \<Rightarrow> http_request \<Rightarrow> handled" where
  "serve_mux v who r = (case find_route r of
     Some (rt, vals) \<Rightarrow> ro_Handler rt Routes v \<lparr>in_principal = who, in_values = vals, in_request = r\<rparr>
   | None \<Rightarrow> (\<lambda>s. (Some (if allowed_methods r = [] then plain_error 404 [] ''404 page not found''
       else plain_error 405 [(''Allow'', Join (allowed_methods r) '', '')] ''Method Not Allowed''), s)))"

section \<open>Who is asking\<close>

(*src internal/server/middleware.go#publicPrefixes*)
definition publicPrefixes :: "string list" where
  "publicPrefixes = [''/healthz'', ''/readyz'', ''/metrics'', ''/api/v1/version'', ''/api/v1/openapi.json'',
     ''/api/v1/auth/login'', ''/api/v1/auth/callback'']"

(*src internal/server/middleware.go#isPublic*)
definition isPublic :: "string \<Rightarrow> bool" where
  "isPublic path \<longleftrightarrow> (\<exists>p \<in> set publicPrefixes. path = p \<or> HasPrefix path (p @ ''/''))"

(*src internal/server/middleware.go#bearerToken*)
definition bearerToken :: "http_request \<Rightarrow> string" where
  "bearerToken r = (let h = rq_Header r ''Authorization'' in
     if length h > 7 \<and> EqualFold (take 7 h) ''bearer '' then TrimSpace (drop 7 h) else '''')"

text \<open>The keys and the primitives of the signatures are the verifier's. No principal is a public path.\<close>

(*src internal/server/middleware.go#Server.authenticate*)
definition authenticate ::
  "('r, 'e) crypto \<Rightarrow> (string \<Rightarrow> string \<Rightarrow> ('r, 'e) public_key option) \<Rightarrow> server \<Rightarrow> http_request \<Rightarrow> platform \<Rightarrow>
   Principal option result \<times> platform" where
  "authenticate cr keys v r s = (let key = rq_Header r ''X-Api-Key''; ev = sv_authEnv v; iv = sv_authIdentity v in
     if isPublic (URL_Path r) then (Inr None, s)
     else if key \<noteq> '''' then (map_sum id Some (AuthenticateAPIKey ev iv key), s)
     else if bearerToken r = '''' then (Inl (Unauthorized ''server.authenticate'' ''auth.credentials_required''), s)
     else case Verify cr (ev_now ev 0) (bearerToken r) keys (sc_Verify (sv_cfg v)) of
       Inl err \<Rightarrow> (Inl err, s)
     | Inr claims \<Rightarrow> (let (p, rl, m) = ResolveFromClaims ev iv claims (sc_TenantClaim (sv_cfg v)) (sc_RolesClaim (sv_cfg v)) (pl_realm s) (pl_memory s)
         in (map_sum id Some p, s\<lparr>pl_realm := rl, pl_memory := m\<rparr>)))"

text \<open>The scope of the request. It runs before the multiplexer, when the request has no path values yet.\<close>

(*src internal/server/middleware.go#Server.resolveTenant*)
definition resolveTenant :: "incoming \<Rightarrow> TenantContext option result" where
  "resolveTenant c =
     (if isPublic (URL_Path (in_request c)) then Inr None
      else case in_principal c of
        None \<Rightarrow> Inl (Unauthorized ''server.resolveTenant'' ''auth.credentials_required'')
      | Some p \<Rightarrow> let t = path_value c ''tenantID''; pid = path_value c ''projectID'';
            tc = \<lparr>tc_TenantID = pr_TenantID p, tc_ProjectID = None, tc_PrincipalID = pr_ID p, tc_IsolationMode = '''',
              tc_BreakGlass = pr_BreakGlass p\<rparr> in
          checkR (t \<noteq> '''' \<and> t \<noteq> pr_TenantID p) (Forbidden ''server.resolveTenant'' ''authz.tenant_mismatch'') (
          if pid = '''' then Inr (Some tc)
          else case ParseProjectID pid of
            Inl _ \<Rightarrow> Inl (Invalid ''server.resolveTenant'' ''request.invalid_project_id'')
          | Inr proj \<Rightarrow> Inr (Some (tc\<lparr>tc_ProjectID := Some proj\<rparr>))))"

definition scoped_server :: "TenantContext option \<Rightarrow> server \<Rightarrow> server" where
  "scoped_server tc v = (case tc of None \<Rightarrow> v | Some x \<Rightarrow> v\<lparr>sv_env := (sv_env v)\<lparr>ev_ctx := WithTenant (ev_ctx (sv_env v)) x\<rparr>\<rparr>)"

(*src internal/server/middleware.go:169-178#Server.rateLimit*)
definition limit_config :: "server_config \<Rightarrow> LimitConfig" where
  "limit_config cfg = (let lim = (\<lambda>rps. \<lparr>lm_Requests = rps, lm_Window = Second, lm_Burst = wrap64 (rps * sc_BurstMultiplier cfg)\<rparr>) in
     \<lparr>lc_PerPrincipal = lim (sc_RPSPerPrincipal cfg), lc_PerTenant = lim (sc_RPSPerTenant cfg)\<rparr>)"

(*src internal/server/middleware.go#Server.rateLimit*)
definition rateLimit :: "server \<Rightarrow> Principal option \<Rightarrow> Memory \<Rightarrow> limit_outcome \<times> Memory" where
  "rateLimit v who = limit_middleware (sv_limitFault v) (sv_limitClock v) (limit_config (sv_cfg v))
     (map_option (\<lambda>p. (pr_TenantID p, pr_ID p)) who)"

section \<open>The outer middleware\<close>

(*src internal/platform/httpx/middleware.go#isPrintableASCII*)
definition isPrintableASCII :: "string \<Rightarrow> bool" where
  "isPrintableASCII = list_all (\<lambda>c. 0x20 \<le> (of_char c :: nat) \<and> (of_char c :: nat) \<le> 0x7e)"

(*src internal/platform/httpx/middleware.go#RequestID*)
definition RequestID :: "string \<Rightarrow> http_request \<Rightarrow> string" where
  "RequestID fresh r = (let rid = rq_Header r ''X-Request-Id'' in
     if rid = '''' \<or> length rid > 128 \<or> \<not> isPrintableASCII rid then fresh else rid)"

(*src internal/platform/httpx/middleware.go#SecurityHeaders*)
definition SecurityHeaders :: "bool \<Rightarrow> (string \<times> string) list" where
  "SecurityHeaders production =
     [(''X-Content-Type-Options'', ''nosniff''), (''X-Frame-Options'', ''DENY''), (''Referrer-Policy'', ''strict-origin-when-cross-origin''),
      (''Cross-Origin-Opener-Policy'', ''same-origin''), (''Cross-Origin-Resource-Policy'', ''same-origin''),
      (''Permissions-Policy'', ''geolocation=(), microphone=(), camera=(), payment=()''),
      (''Content-Security-Policy'', ''default-src 'none'; frame-ancestors 'none'; base-uri 'none'; form-action 'none'' @ [CHR 0x27])] @
     (if production then [(''Strict-Transport-Security'', ''max-age=63072000; includeSubDomains; preload'')] else [])"

definition TrimRightChar :: "char \<Rightarrow> string \<Rightarrow> string" where
  "TrimRightChar x s = rev (dropWhile (\<lambda>c. c = x) (rev s))"

text \<open>The headers of a listed origin, and the reply when a preflight ends here.\<close>

(*src internal/platform/httpx/middleware.go#CORS*)
definition CORS :: "string list \<Rightarrow> http_request \<Rightarrow> (string \<times> string) list \<times> reply option" where
  "CORS origins r = (let origin = TrimRightChar CHR ''/'' (rq_Header r ''Origin''); preflight = (rq_Method r = ''OPTIONS'');
       empty = (\<lambda>status. \<lparr>re_Status = status, re_Headers = [], re_Body = Body_none\<rparr>) in
     if origin \<noteq> '''' \<and> origin \<in> set (map (TrimRightChar CHR ''/'') origins) then
       ([(''Access-Control-Allow-Origin'', origin), (''Access-Control-Allow-Credentials'', ''true''), (''Vary'', ''Origin''),
         (''Access-Control-Expose-Headers'', ''X-Request-Id, traceparent, RateLimit-Limit, RateLimit-Remaining, RateLimit-Reset'')] @
        (if preflight then [(''Access-Control-Allow-Methods'', ''GET, POST, PUT, PATCH, DELETE, OPTIONS''),
           (''Access-Control-Allow-Headers'', ''Authorization, Content-Type, X-Request-Id, Idempotency-Key, If-Match, traceparent''),
           (''Access-Control-Max-Age'', ''600'')] else []),
        if preflight then Some (empty 204) else None)
     else ([], if preflight \<and> origin \<noteq> '''' then Some (empty 403) else None))"

definition add_headers :: "(string \<times> string) list \<Rightarrow> reply option \<times> platform \<Rightarrow> reply option \<times> platform" where
  "add_headers hs = apfst (map_option (\<lambda>x. x\<lparr>re_Headers := hs @ re_Headers x\<rparr>))"

section \<open>A request\<close>

definition limited :: "server \<Rightarrow> Principal option \<Rightarrow> http_request \<Rightarrow> handled" where
  "limited v who r s = (let (outcome, m) = rateLimit v who (pl_memory s); s1 = s\<lparr>pl_memory := m\<rparr> in
     case outcome of
       Rejected hs _ err \<Rightarrow> add_headers hs (fail_with err s1)
     | Passed hs \<Rightarrow> add_headers hs (serve_mux v who r s1))"

definition authenticated ::
  "('r, 'e) crypto \<Rightarrow> (string \<Rightarrow> string \<Rightarrow> ('r, 'e) public_key option) \<Rightarrow> server \<Rightarrow> http_request \<Rightarrow> handled" where
  "authenticated cr keys v r s = (let (who, s1) = authenticate cr keys v r s in
     or_fail who (\<lambda>p. or_fail (resolveTenant \<lparr>in_principal = p, in_values = [], in_request = r\<rparr>)
       (\<lambda>tc. limited (scoped_server tc v) p r)) s1)"

(*src internal/server/server.go#Server.Handler*)
definition Handler ::
  "('r, 'e) crypto \<Rightarrow> (string \<Rightarrow> string \<Rightarrow> ('r, 'e) public_key option) \<Rightarrow> server \<Rightarrow> http_request \<Rightarrow> handled" where
  "Handler cr keys v r s = (let rid = RequestID (sv_requestID v) r; (cors, early) = CORS (sc_AllowedOrigins (sv_cfg v)) r in
     add_headers ([(''X-Request-Id'', rid), (''traceparent'', sv_traceparent v)] @ SecurityHeaders (sc_Env (sv_cfg v) = ''production'') @ cors)
       (case early of Some x \<Rightarrow> (Some x, s) | None \<Rightarrow> authenticated cr keys v r s))"

end
