(* ===== verification/Table.thy ===== *)
theory Table
  imports Server
begin

text \<open>
  The table of routes, taken apart: every route with its method, its permission and the segments of
  its pattern. No two routes take the same request, every route that is not public declares a
  permission, and the paths that skip authentication are exactly those of the public routes.
\<close>

section \<open>The routes with their patterns taken apart\<close>

definition shape :: "route \<Rightarrow> string \<times> Permission option \<times> pattern_segment list" where
  "shape rt = (ro_Method rt, ro_Permission rt, parse_pattern (ro_Pattern rt))"

definition shapes :: "(string \<times> Permission option \<times> pattern_segment list) list" where
  "shapes =
     [(''GET'', None, [Literal ''healthz'']),
      (''GET'', None, [Literal ''readyz'']),
      (''GET'', None, [Literal ''metrics'']),
      (''GET'', None, [Literal ''api'', Literal ''v1'', Literal ''version'']),
      (''GET'', None, [Literal ''api'', Literal ''v1'', Literal ''openapi.json'']),
      (''GET'', Some TenantRead, [Literal ''api'', Literal ''v1'', Literal ''auth'', Literal ''me'']),
      (''POST'', Some TenantCreate, [Literal ''api'', Literal ''v1'', Literal ''tenants'']),
      (''GET'', Some TenantRead, [Literal ''api'', Literal ''v1'', Literal ''tenants'']),
      (''GET'', Some TenantRead, [Literal ''api'', Literal ''v1'', Literal ''tenants'', Wildcard ''tenantID'']),
      (''PUT'', Some TenantUpdate, [Literal ''api'', Literal ''v1'', Literal ''tenants'', Wildcard ''tenantID'', Literal ''settings'']),
      (''POST'', Some TenantSuspend, [Literal ''api'', Literal ''v1'', Literal ''tenants'', Wildcard ''tenantID'', Literal ''suspend'']),
      (''POST'', Some TenantSuspend, [Literal ''api'', Literal ''v1'', Literal ''tenants'', Wildcard ''tenantID'', Literal ''reinstate'']),
      (''GET'', Some PrincipalRead, [Literal ''api'', Literal ''v1'', Literal ''tenants'', Wildcard ''tenantID'', Literal ''principals'']),
      (''POST'', Some RoleAssign, [Literal ''api'', Literal ''v1'', Literal ''tenants'', Wildcard ''tenantID'', Literal ''principals'', Wildcard ''principalID'', Literal ''roles'']),
      (''POST'', Some ProjectCreate, [Literal ''api'', Literal ''v1'', Literal ''tenants'', Wildcard ''tenantID'', Literal ''projects'']),
      (''GET'', Some ProjectRead, [Literal ''api'', Literal ''v1'', Literal ''tenants'', Wildcard ''tenantID'', Literal ''projects'']),
      (''GET'', Some ProjectRead, [Literal ''api'', Literal ''v1'', Literal ''tenants'', Wildcard ''tenantID'', Literal ''projects'', Wildcard ''projectID'']),
      (''POST'', Some ProjectArchive, [Literal ''api'', Literal ''v1'', Literal ''tenants'', Wildcard ''tenantID'', Literal ''projects'', Wildcard ''projectID'', Literal ''archive'']),
      (''POST'', Some ArtifactCreate, [Literal ''api'', Literal ''v1'', Literal ''tenants'', Wildcard ''tenantID'', Literal ''projects'', Wildcard ''projectID'', Literal ''artifacts'']),
      (''GET'', Some ArtifactRead, [Literal ''api'', Literal ''v1'', Literal ''tenants'', Wildcard ''tenantID'', Literal ''projects'', Wildcard ''projectID'', Literal ''artifacts'']),
      (''GET'', Some ArtifactRead, [Literal ''api'', Literal ''v1'', Literal ''tenants'', Wildcard ''tenantID'', Literal ''projects'', Wildcard ''projectID'', Literal ''artifacts'', Wildcard ''artifactID'']),
      (''GET'', Some ArtifactRead, [Literal ''api'', Literal ''v1'', Literal ''tenants'', Wildcard ''tenantID'', Literal ''projects'', Wildcard ''projectID'', Literal ''artifacts'', Wildcard ''artifactID'', Literal ''versions'', Wildcard ''version'']),
      (''PUT'', Some ArtifactEdit, [Literal ''api'', Literal ''v1'', Literal ''tenants'', Wildcard ''tenantID'', Literal ''projects'', Wildcard ''projectID'', Literal ''artifacts'', Wildcard ''artifactID'', Literal ''versions'', Wildcard ''version'']),
      (''POST'', Some ArtifactSubmit, [Literal ''api'', Literal ''v1'', Literal ''tenants'', Wildcard ''tenantID'', Literal ''projects'', Wildcard ''projectID'', Literal ''artifacts'', Wildcard ''artifactID'', Literal ''versions'', Wildcard ''version'', Literal ''submit'']),
      (''POST'', Some ArtifactReview, [Literal ''api'', Literal ''v1'', Literal ''tenants'', Wildcard ''tenantID'', Literal ''projects'', Wildcard ''projectID'', Literal ''artifacts'', Wildcard ''artifactID'', Literal ''versions'', Wildcard ''version'', Literal ''request-changes'']),
      (''POST'', Some ArtifactApprove, [Literal ''api'', Literal ''v1'', Literal ''tenants'', Wildcard ''tenantID'', Literal ''projects'', Wildcard ''projectID'', Literal ''artifacts'', Wildcard ''artifactID'', Literal ''versions'', Wildcard ''version'', Literal ''approve'']),
      (''POST'', Some ArtifactFreeze, [Literal ''api'', Literal ''v1'', Literal ''tenants'', Wildcard ''tenantID'', Literal ''projects'', Wildcard ''projectID'', Literal ''artifacts'', Wildcard ''artifactID'', Literal ''versions'', Wildcard ''version'', Literal ''freeze'']),
      (''POST'', Some ArtifactEdit, [Literal ''api'', Literal ''v1'', Literal ''tenants'', Wildcard ''tenantID'', Literal ''projects'', Wildcard ''projectID'', Literal ''artifacts'', Wildcard ''artifactID'', Literal ''revise'']),
      (''GET'', Some ArtifactRead, [Literal ''api'', Literal ''v1'', Literal ''tenants'', Wildcard ''tenantID'', Literal ''projects'', Wildcard ''projectID'', Literal ''artifacts'', Wildcard ''artifactID'', Literal ''versions'', Wildcard ''version'', Literal ''evidence'']),
      (''POST'', Some LinkCreate, [Literal ''api'', Literal ''v1'', Literal ''tenants'', Wildcard ''tenantID'', Literal ''projects'', Wildcard ''projectID'', Literal ''links'']),
      (''GET'', Some LinkRead, [Literal ''api'', Literal ''v1'', Literal ''tenants'', Wildcard ''tenantID'', Literal ''projects'', Wildcard ''projectID'', Literal ''links'']),
      (''POST'', Some LinkAccept, [Literal ''api'', Literal ''v1'', Literal ''tenants'', Wildcard ''tenantID'', Literal ''projects'', Wildcard ''projectID'', Literal ''links'', Wildcard ''linkID'', Literal ''accept'']),
      (''POST'', Some LinkReject, [Literal ''api'', Literal ''v1'', Literal ''tenants'', Wildcard ''tenantID'', Literal ''projects'', Wildcard ''projectID'', Literal ''links'', Wildcard ''linkID'', Literal ''reject'']),
      (''GET'', Some ArtifactRead, [Literal ''api'', Literal ''v1'', Literal ''tenants'', Wildcard ''tenantID'', Literal ''projects'', Wildcard ''projectID'', Literal ''trace'', Literal ''upstream'']),
      (''GET'', Some ArtifactRead, [Literal ''api'', Literal ''v1'', Literal ''tenants'', Wildcard ''tenantID'', Literal ''projects'', Wildcard ''projectID'', Literal ''trace'', Literal ''downstream'']),
      (''GET'', Some ArtifactRead, [Literal ''api'', Literal ''v1'', Literal ''tenants'', Wildcard ''tenantID'', Literal ''projects'', Wildcard ''projectID'', Literal ''trace'', Literal ''impact'']),
      (''GET'', Some AuditRead, [Literal ''api'', Literal ''v1'', Literal ''tenants'', Wildcard ''tenantID'', Literal ''audit'']),
      (''GET'', Some AuditRead, [Literal ''api'', Literal ''v1'', Literal ''tenants'', Wildcard ''tenantID'', Literal ''audit'', Wildcard ''sequence'']),
      (''POST'', Some AuditRead, [Literal ''api'', Literal ''v1'', Literal ''tenants'', Wildcard ''tenantID'', Literal ''audit'', Literal ''verify'']),
      (''POST'', Some AuditExport, [Literal ''api'', Literal ''v1'', Literal ''tenants'', Wildcard ''tenantID'', Literal ''audit'', Literal ''anchor''])]"

lemmas routes_def = registerRoutes_def public_routes_def session_routes_def tenant_routes_def artifact_routes_def graph_routes_def audit_routes_def

lemma route_patterns: "map (\<lambda>rt. (ro_Method rt, ro_Permission rt, ro_Pattern rt)) registerRoutes = map (\<lambda>(m, perm, ps). (m, perm,
    concat (map (\<lambda>x. CHR ''/'' # (case x of Literal l \<Rightarrow> l | Wildcard w \<Rightarrow> ''{'' @ w @ ''}'')) ps))) shapes"
  by (simp add: routes_def shapes_def Route_def PublicRoute_def base_defs)

lemma shapes_parse: "list_all (\<lambda>(m, perm, ps). parse_pattern (concat (map (\<lambda>x. CHR ''/'' # (case x of Literal l \<Rightarrow> l | Wildcard w \<Rightarrow> ''{'' @ w @ ''}'')) ps)) = ps) shapes"
  by code_simp

lemma route_shapes: "map shape registerRoutes = shapes"
proof -
  have "map shape registerRoutes = map (\<lambda>(m, perm, p). (m, perm, parse_pattern p)) (map (\<lambda>rt. (ro_Method rt, ro_Permission rt, ro_Pattern rt)) registerRoutes)"
    by (simp add: shape_def)
  also have "\<dots> = shapes"
    unfolding route_patterns map_map using shapes_parse by (intro map_idI) (auto simp: list_all_iff)
  finally show ?thesis .
qed

lemma route_shape: "rt \<in> set registerRoutes \<Longrightarrow> shape rt \<in> set shapes"
  unfolding route_shapes [symmetric] by simp

section \<open>One route at most\<close>

fun overlap :: "pattern_segment list \<Rightarrow> pattern_segment list \<Rightarrow> bool" where
  "overlap [] [] = True"
| "overlap (Literal a # ps) (Literal b # qs) = (a = b \<and> overlap ps qs)"
| "overlap (_ # ps) (_ # qs) = overlap ps qs"
| "overlap _ _ = False"

lemma match_overlap: "match_segments ps ss = Some u \<Longrightarrow> match_segments qs ss = Some v \<Longrightarrow> overlap ps qs"
proof (induction ss arbitrary: ps qs u v)
  case Nil
  have "ps = []" if "match_segments ps [] = Some u" for ps u using that by (cases "(ps, []::string list)" rule: match_segments.cases) auto
  from this [OF Nil(1)] this [OF Nil(2)] show ?case by simp
next
  case (Cons s ss)
  obtain p ps' where p: "ps = p # ps'" using Cons.prems(1) by (cases ps) auto
  obtain q qs' where q: "qs = q # qs'" using Cons.prems(2) by (cases qs) auto
  show ?case using Cons.prems by (cases p; cases q) (auto simp: p q split: if_splits dest: Cons.IH)
qed

lemma shapes_disjoint: "sorted_wrt (\<lambda>(m, _, ps) (m', _, qs). \<not> (m = m' \<and> overlap ps qs)) shapes"
  by code_simp

lemma shapes_methods: "list_all (\<lambda>(m, _). m \<in> {''GET'', ''POST'', ''PUT''}) shapes"
  by code_simp

definition accepts :: "http_request \<Rightarrow> route \<Rightarrow> bool" where
  "accepts r rt \<longleftrightarrow> match_method (ro_Method rt) (rq_Method r) \<and> takes rt r \<noteq> None"

lemma sorted_wrt_one: "sorted_wrt (\<lambda>a b. \<not> (P a \<and> P b)) xs \<Longrightarrow> length (filter P xs) \<le> 1"
proof (induction xs)
  case (Cons x xs)
  show ?case
  proof (cases "P x")
    case True
    then have "filter P xs = []" using Cons.prems by (auto simp: filter_empty_conv)
    then show ?thesis by simp
  qed (use Cons in simp)
qed simp

lemma route_methods: "rt \<in> set registerRoutes \<Longrightarrow> ro_Method rt \<in> {''GET'', ''POST'', ''PUT''}"
  using route_shape shapes_methods by (fastforce simp: shape_def list_all_iff)

lemma same_method: "rt \<in> set registerRoutes \<Longrightarrow> rt' \<in> set registerRoutes \<Longrightarrow> match_method (ro_Method rt) m \<Longrightarrow>
    match_method (ro_Method rt') m \<Longrightarrow> ro_Method rt = ro_Method rt'"
  using route_methods [of rt] route_methods [of rt'] by (auto simp: match_method_def)

lemma one_route: "length (filter (accepts r) registerRoutes) \<le> 1"
proof (rule sorted_wrt_one)
  have "sorted_wrt (\<lambda>a b. case (shape a, shape b) of ((m, _, ps), (m', _, qs)) \<Rightarrow> \<not> (m = m' \<and> overlap ps qs)) registerRoutes"
    using shapes_disjoint unfolding route_shapes [symmetric] sorted_wrt_map by (simp add: case_prod_beta)
  then show "sorted_wrt (\<lambda>a b. \<not> (accepts r a \<and> accepts r b)) registerRoutes"
  proof (rule sorted_wrt_mono_rel [rotated])
    fix a b
    assume ab: "a \<in> set registerRoutes" "b \<in> set registerRoutes"
      and d: "case (shape a, shape b) of ((m, _, ps), (m', _, qs)) \<Rightarrow> \<not> (m = m' \<and> overlap ps qs)"
    show "\<not> (accepts r a \<and> accepts r b)"
    proof
      assume acc: "accepts r a \<and> accepts r b"
      then obtain u v where "takes a r = Some u" "takes b r = Some v" by (auto simp: accepts_def)
      then have "overlap (parse_pattern (ro_Pattern a)) (parse_pattern (ro_Pattern b))" unfolding takes_def by (rule match_overlap)
      moreover have "ro_Method a = ro_Method b" using acc by (auto simp: accepts_def intro: same_method [OF ab])
      ultimately show False using d by (simp add: shape_def)
    qed
  qed
qed

lemma find_route_Some:
  assumes "find_route r = Some (rt, vals)"
  shows "rt \<in> set registerRoutes" "match_method (ro_Method rt) (rq_Method r)" "takes rt r = Some vals" "rq_Method r \<noteq> ''OPTIONS''"
proof -
  let ?fs = "filter (\<lambda>rt. match_method (ro_Method rt) (rq_Method r) \<and> takes rt r \<noteq> None) registerRoutes"
  obtain rest where "?fs = rt # rest" "vals = the (takes rt r)" using assms by (auto simp: find_route_def split: list.splits)
  then have "rt \<in> set ?fs" by simp
  then show "rt \<in> set registerRoutes" and m: "match_method (ro_Method rt) (rq_Method r)" and "takes rt r = Some vals"
    using \<open>vals = _\<close> by auto
  then show "rq_Method r \<noteq> ''OPTIONS''" using route_methods [of rt] by (auto simp: match_method_def)
qed

section \<open>The paths that skip authentication\<close>

definition tenants_prefix :: "pattern_segment list" where "tenants_prefix = [Literal ''api'', Literal ''v1'', Literal ''tenants'']"

lemma shapes_paths: "list_all (\<lambda>(_, perm, ps). if perm = None
      then ps \<in> {[Literal ''healthz''], [Literal ''readyz''], [Literal ''metrics''], [Literal ''api'', Literal ''v1'', Literal ''version''],
        [Literal ''api'', Literal ''v1'', Literal ''openapi.json'']}
      else ps = [Literal ''api'', Literal ''v1'', Literal ''auth'', Literal ''me''] \<or> take 3 ps = tenants_prefix) shapes"
  by code_simp

lemma match_literals: "match_segments (map Literal ls @ ps) ss = Some u \<Longrightarrow>
    \<exists>ss'. ss = ls @ ss' \<and> match_segments ps ss' = Some u"
proof (induction ls arbitrary: ss)
  case (Cons l ls)
  then show ?case by (cases ss) (auto split: if_splits)
qed simp

lemma tenants_not_public: "\<not> isPublic (''/api/v1/tenants'' @ s)"
  by (simp add: isPublic_def publicPrefixes_def HasPrefix_def)

lemma public_exact:
  assumes "find_route r = Some (rt, vals)"
  shows "(ro_Permission rt = None) = isPublic (URL_Path r)"
proof -
  let ?ps = "parse_pattern (ro_Pattern rt)"
  have m: "match_segments ?ps (rq_Segments r) = Some vals" using find_route_Some(3) [OF assms] by (simp add: takes_def)
  have sh: "if ro_Permission rt = None
      then ?ps \<in> {[Literal ''healthz''], [Literal ''readyz''], [Literal ''metrics''], [Literal ''api'', Literal ''v1'', Literal ''version''],
        [Literal ''api'', Literal ''v1'', Literal ''openapi.json'']}
      else ?ps = [Literal ''api'', Literal ''v1'', Literal ''auth'', Literal ''me''] \<or> take 3 ?ps = tenants_prefix"
    using bspec [OF shapes_paths [unfolded list_all_iff] route_shape [OF find_route_Some(1) [OF assms]]] by (simp only: shape_def case_prod_conv)
  have lit: "rq_Segments r = ls" if eq: "?ps = map Literal ls" for ls
  proof -
    obtain ss' where "rq_Segments r = ls @ ss'" "match_segments [] ss' = Some vals"
      using match_literals [of ls "[]" "rq_Segments r" vals] m eq by auto
    then show ?thesis by (cases ss') auto
  qed
  show ?thesis
  proof (cases "ro_Permission rt = None")
    case True
    with sh consider "?ps = map Literal [''healthz'']" | "?ps = map Literal [''readyz'']" | "?ps = map Literal [''metrics'']"
      | "?ps = map Literal [''api'', ''v1'', ''version'']" | "?ps = map Literal [''api'', ''v1'', ''openapi.json'']" by auto
    then have "isPublic (URL_Path r)" by cases (drule lit; simp add: URL_Path_def isPublic_def publicPrefixes_def)+
    with True show ?thesis by simp
  next
    case False
    with sh consider "?ps = map Literal [''api'', ''v1'', ''auth'', ''me'']" | "take 3 ?ps = tenants_prefix" by auto
    then have "\<not> isPublic (URL_Path r)"
    proof cases
      case 1
      from lit [OF this] show ?thesis by (simp add: URL_Path_def isPublic_def publicPrefixes_def HasPrefix_def)
    next
      case 2
      then have "?ps = map Literal [''api'', ''v1'', ''tenants''] @ drop 3 ?ps"
        using append_take_drop_id [of 3 ?ps] by (simp add: tenants_prefix_def)
      then have "match_segments (map Literal [''api'', ''v1'', ''tenants''] @ drop 3 ?ps) (rq_Segments r) = Some vals" using m by simp
      from match_literals [OF this] obtain ss' where "rq_Segments r = [''api'', ''v1'', ''tenants''] @ ss'" by blast
      then have "URL_Path r = ''/api/v1/tenants'' @ concat (map (\<lambda>s. CHR ''/'' # s) ss')" by (simp add: URL_Path_def)
      then show ?thesis using tenants_not_public by simp
    qed
    with False show ?thesis by simp
  qed
qed

section \<open>Every route is guarded\<close>

lemma shapes_permissions: "list_all (\<lambda>(_, perm, _). case perm of None \<Rightarrow> True
    | Some p \<Rightarrow> Permission_String p \<noteq> '''' \<and> \<not> HasPrefix (Permission_String p) ''permission('') shapes"
  by code_simp

lemma lint_clean: "LintRoutes Routes = []"
proof -
  have "rs_Public (route_spec rt) \<or> (rs_Permission (route_spec rt) \<noteq> '''' \<and> \<not> HasPrefix (rs_Permission (route_spec rt)) ''permission('')"
    if "rt \<in> set registerRoutes" for rt
    using bspec [OF shapes_permissions [unfolded list_all_iff] route_shape [OF that]] by (auto simp: shape_def route_spec_def split: option.splits)
  then show ?thesis by (auto simp: LintRoutes_def Routes_def filter_empty_conv)
qed

text \<open>C10: The table of routes is sound. The lint finds no route without a permission; a request matches
  one route at most, so the permission that guards it does not depend on an order; and a request that
  has a route skips authentication exactly when the route is public: no protected route can be reached
  through a path the middleware takes for public, however its segments are escaped.\<close>

theorem routes_guarded:
  "LintRoutes Routes = [] \<and> length (filter (\<lambda>rt. match_method (ro_Method rt) (rq_Method r) \<and> takes rt r \<noteq> None) registerRoutes) \<le> 1 \<and>
   (case find_route r of None \<Rightarrow> True | Some (rt, _) \<Rightarrow> (ro_Permission rt = None) = isPublic (URL_Path r))"
  using lint_clean one_route [of r, unfolded accepts_def] public_exact [of r] by (simp split: option.split)

end
