(* ===== verification/Access.thy ===== *)
theory Access
  imports Table SignIn Approval
begin

text \<open>
  What a protected request has passed when the server answers it with success: on every route below
  a tenant the evaluator allowed the permission the route declares, in the tenant and the project of
  the path; the listing of tenants asks for the declared permission alone; and the two remaining
  protected routes, the creation of a tenant and the caller's own profile, ask for nothing beyond
  authentication although they declare a permission.
\<close>

section \<open>The operations check their permission\<close>

text \<open>The system's own principal is exempt in the lifecycles of artifacts and tenants.\<close>

definition lifecycle_permissions :: "Permission list" where
  "lifecycle_permissions = [ArtifactSubmit, ArtifactReview, ArtifactApprove, ArtifactFreeze, TenantSuspend]"

definition allowed :: "env \<Rightarrow> Principal \<Rightarrow> Permission \<Rightarrow> TenantID \<Rightarrow> string \<Rightarrow> bool" where
  "allowed ev actor perm t p \<longleftrightarrow> pr_Kind actor = KindSystem \<and> perm \<in> set lifecycle_permissions \<or>
     (\<exists>res. res_TenantID res = t \<and> res_ProjectID res = p \<and> Require (ev_policy ev) (ev_now ev 0) actor perm res = None)"

named_theorems allowed_ops

lemma allowedI: "Require (ev_policy ev) (ev_now ev 0) actor perm res = None \<Longrightarrow> res_TenantID res = t \<Longrightarrow> res_ProjectID res = p \<Longrightarrow>
    allowed ev actor perm t p"
  by (auto simp: allowed_def)

lemmas resource_defs = tenant_resource_def project_resource_def graph_resource_def artifact_resource_def id_resource_def audit_resource_def

lemma failR_allowed: "failR (Require (ev_policy ev) (ev_now ev 0) actor perm res) r = Inr x \<Longrightarrow>
    allowed ev actor perm (res_TenantID res) (res_ProjectID res)"
  by (auto simp: failR_Inr intro: allowedI)

lemma GetTenant_allowed [allowed_ops]: "GetTenant ev t actor = Inr x \<Longrightarrow> allowed ev actor TenantRead t ''''"
  unfolding GetTenant_def by (drule failR_allowed) (simp add: resource_defs)

lemma GetProject_allowed [allowed_ops]: "GetProject ev t p actor = Inr x \<Longrightarrow> allowed ev actor ProjectRead t p"
  unfolding GetProject_def by (drule failR_allowed) (simp add: resource_defs)

lemma ListProjects_allowed [allowed_ops]: "ListProjects ev f actor = Inr x \<Longrightarrow> allowed ev actor ProjectRead (pf_TenantID f) ''''"
  unfolding ListProjects_def Let_def by (drule failR_allowed) (simp add: resource_defs)

lemma ListPrincipals_allowed [allowed_ops]: "ListPrincipals ev iv t actor = Inr x \<Longrightarrow> allowed ev actor PrincipalRead t ''''"
  unfolding ListPrincipals_def by (drule failR_allowed) (simp add: resource_defs)

lemma ListArtifacts_allowed [allowed_ops]:
  "ListArtifacts ev f actor = Inr x \<Longrightarrow> allowed ev actor ArtifactRead (af_TenantID f) (af_ProjectID f)"
  unfolding ListArtifacts_def Let_def by (drule failR_allowed) (simp add: resource_defs)

lemma GetArtifact_allowed [allowed_ops]: "GetArtifact ev t p aid actor = Inr x \<Longrightarrow> allowed ev actor ArtifactRead t p"
  unfolding GetArtifact_def by (drule failR_allowed) (simp add: resource_defs)

lemma GetVersion_allowed [allowed_ops]: "GetVersion ev t p aid n actor = Inr x \<Longrightarrow> allowed ev actor ArtifactRead t p"
  unfolding GetVersion_def by (drule failR_allowed) (simp add: resource_defs)

lemma Evidence_allowed [allowed_ops]: "Evidence ev b t p aid n actor s = Inr x \<Longrightarrow> allowed ev actor ArtifactRead t p"
  by (auto simp: Evidence_def bindR_Inr dest: GetVersion_allowed)

lemma ListLinks_allowed [allowed_ops]: "ListLinks ev f actor = Inr x \<Longrightarrow> allowed ev actor LinkRead (lf_TenantID f) (lf_ProjectID f)"
  unfolding ListLinks_def Let_def by (drule failR_allowed) (simp add: resource_defs)

lemma traverse_allowed: "traverse ev collate n t p start dir ts actor = Some (Inr x) \<Longrightarrow> allowed ev actor ArtifactRead t p"
  by (auto simp: traverse_def resource_defs split: option.splits intro!: allowedI)

lemma trace_allowed [allowed_ops]:
  "svc_Upstream ev collate n t p start ts actor = Some (Inr x) \<Longrightarrow> allowed ev actor ArtifactRead t p"
  "svc_Downstream ev collate n t p start ts actor = Some (Inr x) \<Longrightarrow> allowed ev actor ArtifactRead t p"
  by (auto simp: svc_Upstream_def svc_Downstream_def dest: traverse_allowed)

lemma Impact_allowed [allowed_ops]: "Impact ev collate n t p subject actor = Some (Inr x) \<Longrightarrow> allowed ev actor ArtifactRead t p"
  by (auto simp: Impact_def bindR_Inr dest: trace_allowed)

lemma AssignRole_allowed [allowed_ops]:
  "AssignRole ev iv t pid role proj exp actor r m = (Inr x, r', m') \<Longrightarrow> allowed ev actor RoleAssign t proj"
  by (auto simp: AssignRole_def Let_def resource_defs split: option.splits intro!: allowedI)

lemma UpdateSettings_allowed [allowed_ops]:
  "UpdateSettings ev t settings actor w = (Inr x, w') \<Longrightarrow> allowed ev actor TenantUpdate t ''''"
  by (auto simp: UpdateSettings_def Let_def resource_defs split: option.splits intro!: allowedI)

lemma CreateProject_allowed [allowed_ops]:
  "CreateProject ev inp actor w = (Inr x, w') \<Longrightarrow> allowed ev actor ProjectCreate (cp_TenantID inp) ''''"
  by (auto simp: CreateProject_def Let_def resource_defs split: option.splits intro!: allowedI)

lemma Create_allowed [allowed_ops]:
  "Create ev inp actor w = (Inr x, w') \<Longrightarrow> allowed ev actor ArtifactCreate (ci_TenantID inp) (ci_ProjectID inp)"
  by (auto simp: Create_def Let_def resource_defs split: option.splits intro!: allowedI)

lemma link_ops_allowed [allowed_ops]:
  "CreateLink ev inp actor w = (Inr l, w') \<Longrightarrow> allowed ev actor LinkCreate (li_TenantID inp) (li_ProjectID inp)"
  "AcceptLink ev t p lid d actor w = (Inr l, w') \<Longrightarrow> allowed ev actor LinkAccept t p"
  "RejectLink ev t p lid why actor w = (Inr l, w') \<Longrightarrow> allowed ev actor LinkReject t p"
  by (auto simp: CreateLink_def AcceptLink_def RejectLink_def Let_def resource_defs split: option.splits intro!: allowedI)

lemma UpdateDraft_allowed [allowed_ops]:
  "UpdateDraft ev t p aid n body vno actor w = (Inr x, w') \<Longrightarrow> allowed ev actor ArtifactEdit t p"
  by (auto simp: UpdateDraft_def Let_def resource_defs monad_inv split: option.splits intro!: allowedI)

lemma Revise_allowed [allowed_ops]:
  "Revise ev t p aid summary actor w = (Inr x, w') \<Longrightarrow> allowed ev actor ArtifactEdit t p"
  by (auto simp: Revise_def Let_def resource_defs monad_inv split: option.splits intro!: allowedI)

section \<open>The lifecycles check the permission of their moves\<close>

lemma parse_permissions:
  "ParsePermission ''artifact:submit'' = Inr ArtifactSubmit" "ParsePermission ''artifact:review'' = Inr ArtifactReview"
  "ParsePermission ''artifact:freeze'' = Inr ArtifactFreeze" "ParsePermission ''tenant:suspend'' = Inr TenantSuspend"
  "ParsePermission ''project:archive'' = Inr ProjectArchive"
proof -
  have "Permission_String ArtifactSubmit = ''artifact:submit''" "Permission_String ArtifactReview = ''artifact:review''"
    "Permission_String ArtifactFreeze = ''artifact:freeze''" "Permission_String TenantSuspend = ''tenant:suspend''"
    "Permission_String ProjectArchive = ''project:archive''" by code_simp+
  moreover have "known ArtifactSubmit" "known ArtifactReview" "known ArtifactFreeze" "known TenantSuspend" "known ProjectArchive"
    by code_simp+
  ultimately show "ParsePermission ''artifact:submit'' = Inr ArtifactSubmit" "ParsePermission ''artifact:review'' = Inr ArtifactReview"
    "ParsePermission ''artifact:freeze'' = Inr ArtifactFreeze" "ParsePermission ''tenant:suspend'' = Inr TenantSuspend"
    "ParsePermission ''project:archive'' = Inr ProjectArchive" using Parse_String by metis+
qed

definition event_permission :: "Event \<Rightarrow> string" where
  "event_permission e = (if e = EventSubmitForReview then ''artifact:submit'' else if e = EventRequestChanges then ''artifact:review''
     else if e = EventFreeze then ''artifact:freeze'' else '''')"

lemma Transition_allowed:
  assumes "ArtifactService.Transition ev t p aid n e comment actor w = (Inr x, w')"
    and "event_permission e \<noteq> ''''" "ParsePermission (event_permission e) = Inr perm" "perm \<in> set lifecycle_permissions"
  shows "allowed ev actor perm t p"
proof -
  obtain v0 out v1 where g: "get_version ev (graph_scope t p actor) 0 t p aid n = Inr v0"
      and f: "fire ev (graph_scope t p actor) 1 actor v0 e p = Inr (out, v1)"
    using assms(1) by (auto simp: Transition_def Let_def monad_inv split: if_splits)
  obtain cs where fi: "Fire artifact_machine (v_Status v0) e v0 (if pr_Kind actor = KindSystem then None else Some (fire_check ev actor
      ((artifact_resource (v_TenantID v0) p (v_ArtifactID v0) (v_CreatedBy v0) (v_Type v0))\<lparr>res_Contributors := cs\<rparr>))) = (Inr out, v1)"
    using f unfolding fire_def Let_def fire_outcome bindR_Inr by blast
  define res where "res = (artifact_resource (v_TenantID v0) p (v_ArtifactID v0) (v_CreatedBy v0) (v_Type v0))\<lparr>res_Contributors := cs\<rparr>"
  note fi = fi [folded res_def]
  have res: "res_TenantID res = v_TenantID v0" "res_ProjectID res = p" by (simp_all add: res_def artifact_resource_def)
  have "out_Permission out = event_permission e"
    using artifact_fire(5) [OF fi] assms(2) by (auto simp: artifact_moves_def event_permission_def event_defs split: if_splits)
  then have "pr_Kind actor = KindSystem \<or> Require (ev_policy ev) (ev_now ev 0) actor perm res = None"
    using artifact_fire(6) [OF fi] assms(2,3) by (auto simp: check_permission_def fire_check_def split: if_splits)
  then show ?thesis using res get_version_Inr(2) [OF g] assms(4) by (auto simp: allowed_def version_key_def)
qed

lemmas event_permissions = event_permission_def parse_permissions event_defs

lemma Transition_events_allowed [allowed_ops]:
  "ArtifactService.Transition ev t p aid n EventSubmitForReview comment actor w = (Inr x, w') \<Longrightarrow> allowed ev actor ArtifactSubmit t p"
  "ArtifactService.Transition ev t p aid n EventRequestChanges comment actor w = (Inr x, w') \<Longrightarrow> allowed ev actor ArtifactReview t p"
  "ArtifactService.Transition ev t p aid n EventFreeze comment actor w = (Inr x, w') \<Longrightarrow> allowed ev actor ArtifactFreeze t p"
  by (erule Transition_allowed; simp add: event_permissions lifecycle_permissions_def)+

lemma Approve_allowed [allowed_ops]:
  assumes "Approve ev b inp actor w = (Inr x, w')"
  shows "allowed ev actor ArtifactApprove (ai_TenantID inp) (ai_ProjectID inp)"
proof -
  obtain cur gates cbytes where "approve_checks ev inp actor = Inr (cur, gates, cbytes)" using assms by (auto simp: Approve_def split: sum.splits)
  then show ?thesis by (rule approve_checks_authorized) (auto simp: artifact_resource_def intro: allowedI, auto simp: allowed_def lifecycle_permissions_def)
qed

lemma tenant_events_allowed:
  assumes "transitionTenant ev t e reason actor w = (Inr x, w')" "e \<in> {EventSuspend, EventReinstate}"
  shows "allowed ev actor TenantSuspend t ''''"
proof -
  obtain s t1 out t2 where f: "Fire tenant_machine s e t1 (if pr_Kind actor = KindSystem then None
      else Some (transition_check ''tenancy.transitionTenant'' ev actor (tenant_resource t))) = (Inr out, t2)"
    using assms(1) by (auto simp: transitionTenant_def Let_def monad_inv split: prod.splits sum.splits)
  from tenant_fire(5) [OF f] obtain perm where "check_permission (if pr_Kind actor = KindSystem then None
      else Some (transition_check ''tenancy.transitionTenant'' ev actor (tenant_resource t))) perm = None" "perm = ''tenant:suspend''"
    using assms(2) by (auto simp: tenant_moves_def tenant_constants)
  then show ?thesis
    by (auto simp: allowed_def lifecycle_permissions_def check_permission_def transition_check_def parse_permissions tenant_resource_def split: if_splits
        intro!: exI [of _ "tenant_resource t"])
qed

lemma suspension_allowed [allowed_ops]:
  "Suspend ev t reason actor w = (Inr x, w') \<Longrightarrow> allowed ev actor TenantSuspend t ''''"
  "Reinstate ev t actor w = (Inr x, w') \<Longrightarrow> allowed ev actor TenantSuspend t ''''"
  by (auto simp: Suspend_def Reinstate_def elim!: tenant_events_allowed)

lemma ArchiveProject_allowed [allowed_ops]:
  assumes "ArchiveProject ev t p actor w = (Inr x, w')"
  shows "allowed ev actor ProjectArchive t p"
proof -
  let ?res = "\<lambda>p0. (project_resource t p)\<lparr>res_CreatedBy := pj_CreatedBy p0\<rparr>"
  obtain p0 p1 out where f: "Fire project_machine (pj_Status p0) EventArchive p0
      (Some (transition_check ''tenancy.transitionProject'' ev actor (?res p0))) = (Inr out, p1)"
    using assms by (auto simp: ArchiveProject_def transitionProject_def Let_def monad_inv split: prod.splits sum.splits)
  then obtain tr where "tr \<in> set (def_Transitions project_def)" "tr_Event tr = EventArchive"
      "check_permission (Some (transition_check ''tenancy.transitionProject'' ev actor (?res p0))) (tr_Permission tr) = None"
    unfolding prj.fire_ok_iff by blast
  then have "Require (ev_policy ev) (ev_now ev 0) actor ProjectArchive (?res p0) = None"
    by (auto simp: project_def_def plain_transition_def tenant_constants transition_check_def check_permission_def parse_permissions
        EventPurge_def EventArchive_def EventRestore_def)
  then show ?thesis by (rule allowedI) (simp_all add: resource_defs)
qed

section \<open>What a served request passed\<close>

text \<open>A request is served when it is answered, with success, and not from the store of earlier responses.\<close>

definition delivers :: "handled \<Rightarrow> platform \<Rightarrow> bool" where
  "delivers h s \<longleftrightarrow> (\<exists>x s'. h s = (Some x, s') \<and> re_Status x < 400 \<and> (''Idempotency-Replayed'', ''true'') \<notin> set (re_Headers x))"

named_theorems delivered

lemma fail_delivers [simp]: "\<not> delivers (fail_with err) s"
  using problem_refuses [of err] by (auto simp: delivers_def fail_with_def)

lemma or_fail_delivers [delivered]: "delivers (or_fail r k) s \<longleftrightarrow> (\<exists>x. r = Inr x \<and> delivers (k x) s)"
  by (auto simp: or_fail_def split: sum.splits)

lemma calling_delivers [delivered]: "delivers (calling op k) s \<longleftrightarrow> (\<exists>x w. op (the_world s) = (Inr x, w) \<and> delivers (k x) (set_world w s))"
proof -
  obtain r w where "op (the_world s) = (r, w)" by fastforce
  then have "calling op k s = or_fail r k (set_world w s)" by (simp add: calling_def)
  then have "delivers (calling op k) s \<longleftrightarrow> delivers (or_fail r k) (set_world w s)" by (simp add: delivers_def)
  then show ?thesis using \<open>op (the_world s) = (r, w)\<close> by (auto simp: or_fail_delivers)
qed

lemma principalOf_Inr [delivered]: "principalOf c = Inr p \<longleftrightarrow> in_principal c = Some p"
  by (simp add: principalOf_def split: option.split)

lemma path_tenant_Inr [delivered]: "path_tenant c = Inr t \<longleftrightarrow> ParseTenantID (path_value c ''tenantID'') = Inr t"
  by (simp add: path_tenant_def split: sum.split)

lemma path_scope_Inr [delivered]: "path_scope c = Inr (t, p) \<longleftrightarrow>
    ParseTenantID (path_value c ''tenantID'') = Inr t \<and> ParseProjectID (path_value c ''projectID'') = Inr p"
  by (auto simp: path_scope_def split: sum.splits)

lemma with_tenant_delivers [delivered]: "delivers (with_tenant c k) s \<longleftrightarrow>
    (\<exists>a t. in_principal c = Some a \<and> ParseTenantID (path_value c ''tenantID'') = Inr t \<and> delivers (k a t) s)"
  by (auto simp: with_tenant_def delivered)

lemma with_scope_delivers [delivered]: "delivers (with_scope c k) s \<longleftrightarrow>
    (\<exists>a t p. in_principal c = Some a \<and> ParseTenantID (path_value c ''tenantID'') = Inr t \<and>
       ParseProjectID (path_value c ''projectID'') = Inr p \<and> delivers (k a t p) s)"
  by (auto simp: with_scope_def delivered)

lemma if_it_returns_delivers [delivered]: "delivers (if_it_returns r k) s \<longleftrightarrow> (\<exists>x. r = Some (Inr x) \<and> delivers (k x) s)"
  by (cases r) (auto simp: if_it_returns_def delivered, simp add: delivers_def)

lemma replayed_marked: "(''Idempotency-Replayed'', ''true'') \<in> set (re_Headers (replayed status body))"
  by (simp add: replayed_def)

lemma idempotently_delivers [delivered]:
  assumes "delivers (idempotently v c status dto op) s"
  shows "\<exists>x w. op (the_world s) = (Inr x, w)"
proof (rule ccontr)
  assume none: "\<not> ?thesis"
  obtain r w1 where op: "op (the_world s) = (r, w1)" by fastforce
  with none obtain err where r: "r = Inl err" by (cases r) auto
  let ?fn = "\<lambda>w. let (res, w') = op w in (map_sum id (\<lambda>x. (status, Some (dto x))) res, w')"
  have fn: "?fn (the_world s) = (Inl err, w1)" by (simp add: op r)
  define q where "q = in_request c"
  define body where "body = (case readBody (sc_MaxBodyBytes (sv_cfg v)) q of Some b \<Rightarrow> b | None \<Rightarrow> '''')"
  obtain resp rows w where i: "idempotent (sv_idem v) (ev_ctx (sv_env v)) (\<lambda>j. bindR j (sv_marshal v)) (rq_Method q) (URL_Path q) body
      (rq_Header q ''Idempotency-Key'') ?fn (pl_idem s, the_world s) = (resp, rows, w)" by (metis prod_cases3)
  have "idempotently v c status dto op s = reply_of resp ((set_world w s)\<lparr>pl_idem := rows\<rparr>)"
    using i by (simp add: idempotently_def q_def body_def)
  then have d: "delivers (reply_of resp) ((set_world w s)\<lparr>pl_idem := rows\<rparr>)" using assms by (simp add: delivers_def)
  have "\<not> (\<exists>st b. resp = Resp_ok st b)"
    using i fn by (auto simp: idempotent_def finish_def Let_def split: if_splits sum.splits prod.splits)
  then show False
    using d replayed_marked by (cases resp) (auto simp: reply_of_def, auto simp: delivers_def)
qed

definition entitled :: "server \<Rightarrow> incoming \<Rightarrow> Permission \<Rightarrow> bool \<Rightarrow> bool" where
  "entitled v c perm project \<longleftrightarrow> (\<exists>actor t p. in_principal c = Some actor \<and> ParseTenantID (path_value c ''tenantID'') = Inr t \<and>
     (project \<longrightarrow> ParseProjectID (path_value c ''projectID'') = Inr p) \<and> allowed (sv_env v) actor perm t p)"

lemma entitledI:
  assumes "in_principal c = Some actor" "ParseTenantID (path_value c ''tenantID'') = Inr t" "allowed (sv_env v) actor perm t p"
    "project \<Longrightarrow> ParseProjectID (path_value c ''projectID'') = Inr p"
  shows "entitled v c perm project"
  using assms by (auto simp: entitled_def)

named_theorems handlers

lemma read_handlers [handlers]:
  "delivers (handleGetTenant v c) s \<Longrightarrow> entitled v c TenantRead False"
  "delivers (handleListPrincipals v c) s \<Longrightarrow> entitled v c PrincipalRead False"
  "delivers (handleListProjects v c) s \<Longrightarrow> entitled v c ProjectRead False"
  "delivers (handleGetProject v c) s \<Longrightarrow> entitled v c ProjectRead True"
  "delivers (handleListArtifacts v c) s \<Longrightarrow> entitled v c ArtifactRead True"
  "delivers (handleGetArtifact v c) s \<Longrightarrow> entitled v c ArtifactRead True"
  "delivers (handleGetVersion v c) s \<Longrightarrow> entitled v c ArtifactRead True"
  "delivers (handleListLinks v c) s \<Longrightarrow> entitled v c LinkRead True"
  by (auto simp: handleGetTenant_def handleListPrincipals_def handleListProjects_def handleGetProject_def handleListArtifacts_def
      handleGetArtifact_def handleGetVersion_def handleListLinks_def Let_def delivered dest!: allowed_ops intro!: entitledI)

lemma trace_handlers [handlers]:
  "delivers (handleUpstream v c) s \<Longrightarrow> entitled v c ArtifactRead True"
  "delivers (handleDownstream v c) s \<Longrightarrow> entitled v c ArtifactRead True"
  "delivers (handleImpact v c) s \<Longrightarrow> entitled v c ArtifactRead True"
  by (auto simp: handleUpstream_def handleDownstream_def traceQuery_def handleImpact_def delivered split: if_splits
      dest!: allowed_ops intro!: entitledI)

lemma handleEvidence_entitled [handlers]: "delivers (handleEvidence v c) s \<Longrightarrow> entitled v c ArtifactRead True"
proof -
  assume "delivers (handleEvidence v c) s"
  then obtain actor t p n where "in_principal c = Some actor" "ParseTenantID (path_value c ''tenantID'') = Inr t"
      "ParseProjectID (path_value c ''projectID'') = Inr p"
      and d: "delivers (\<lambda>s. or_fail (Evidence (sv_env v) (sc_Buckets (sv_cfg v)) t p (path_value c ''artifactID'') n actor (w_objects (the_world s)))
        (\<lambda>body s. (Some \<lparr>re_Status = 200, re_Headers = [(''Content-Type'', evidence_type)], re_Body = Body_bytes evidence_type body\<rparr>, s)) s) s"
    by (auto simp: handleEvidence_def delivered)
  moreover obtain body where "Evidence (sv_env v) (sc_Buckets (sv_cfg v)) t p (path_value c ''artifactID'') n actor (w_objects (the_world s)) = Inr body"
    using d or_fail_delivers [of "Evidence (sv_env v) (sc_Buckets (sv_cfg v)) t p (path_value c ''artifactID'') n actor (w_objects (the_world s))"]
    unfolding delivers_def by blast
  ultimately show ?thesis by (auto dest!: allowed_ops intro!: entitledI)
qed

lemma write_handlers [handlers]:
  "delivers (handleUpdateSettings v c) s \<Longrightarrow> entitled v c TenantUpdate False"
  "delivers (handleSuspendTenant v c) s \<Longrightarrow> entitled v c TenantSuspend False"
  "delivers (handleReinstateTenant v c) s \<Longrightarrow> entitled v c TenantSuspend False"
  "delivers (handleArchiveProject v c) s \<Longrightarrow> entitled v c ProjectArchive True"
  "delivers (handleUpdateDraft v c) s \<Longrightarrow> entitled v c ArtifactEdit True"
  "delivers (handleAcceptLink v c) s \<Longrightarrow> entitled v c LinkAccept True"
  "delivers (handleRejectLink v c) s \<Longrightarrow> entitled v c LinkReject True"
  by (auto simp: handleUpdateSettings_def handleSuspendTenant_def handleReinstateTenant_def handleArchiveProject_def handleUpdateDraft_def
      handleAcceptLink_def handleRejectLink_def delivered dest!: allowed_ops intro!: entitledI)

lemma transition_handlers [handlers]:
  "delivers (handleSubmit v c) s \<Longrightarrow> entitled v c ArtifactSubmit True"
  "delivers (handleRequestChanges v c) s \<Longrightarrow> entitled v c ArtifactReview True"
  "delivers (handleFreeze v c) s \<Longrightarrow> entitled v c ArtifactFreeze True"
  by (auto simp: handleSubmit_def handleRequestChanges_def handleFreeze_def handle_transition_def delivered dest!: allowed_ops intro!: entitledI)

lemma idempotent_handlers [handlers]:
  "delivers (handleCreateProject v c) s \<Longrightarrow> entitled v c ProjectCreate False"
  "delivers (handleCreateArtifact v c) s \<Longrightarrow> entitled v c ArtifactCreate True"
  "delivers (handleApprove v c) s \<Longrightarrow> entitled v c ArtifactApprove True"
  "delivers (handleRevise v c) s \<Longrightarrow> entitled v c ArtifactEdit True"
  "delivers (handleCreateLink v c) s \<Longrightarrow> entitled v c LinkCreate True"
  by (auto simp: handleCreateProject_def handleCreateArtifact_def handleApprove_def handleRevise_def handleCreateLink_def
      or_fail_delivers with_tenant_delivers with_scope_delivers dest!: idempotently_delivers allowed_ops intro!: entitledI)

lemma handleAssignRole_entitled [handlers]: "delivers (handleAssignRole v c) s \<Longrightarrow> entitled v c RoleAssign False"
proof -
  assume "delivers (handleAssignRole v c) s"
  then obtain actor t pid role req where c: "in_principal c = Some actor" "ParseTenantID (path_value c ''tenantID'') = Inr t"
      and d: "delivers (\<lambda>s. let (res, r, m) = AssignRole (sv_env v) (sv_identity v) t pid role (string_field req ''project_id'')
            (time_field req ''expires_at'') actor (pl_realm s) (pl_memory s)
          in or_fail res (\<lambda>a. ok 201 (Inr (go_map [(''id'', str (ra_ID a)), (''role'', str (ra_Role a)), (''project_id'', str (ra_ProjectID a)),
              (''granted_at'', Some (json_time (ra_GrantedAt a)))]))) (s\<lparr>pl_realm := r, pl_memory := m\<rparr>)) s"
    unfolding handleAssignRole_def with_tenant_delivers or_fail_delivers by blast
  obtain res r m where a: "AssignRole (sv_env v) (sv_identity v) t pid role (string_field req ''project_id'') (time_field req ''expires_at'')
      actor (pl_realm s) (pl_memory s) = (res, r, m)" by (metis prod_cases3)
  then have "delivers (or_fail res (\<lambda>a. ok 201 (Inr (go_map [(''id'', str (ra_ID a)), (''role'', str (ra_Role a)), (''project_id'', str (ra_ProjectID a)),
      (''granted_at'', Some (json_time (ra_GrantedAt a)))])))) (s\<lparr>pl_realm := r, pl_memory := m\<rparr>)"
    using d by (simp add: delivers_def)
  then obtain x where "res = Inr x" by (auto simp: or_fail_delivers)
  then show ?thesis using c AssignRole_allowed [OF a [unfolded \<open>res = Inr x\<close>]] by (auto intro: entitledI)
qed

lemma with_audit_entitled: "delivers (with_audit v perm c k) s \<Longrightarrow> entitled v c perm False"
  by (auto simp: with_audit_def delivered resource_defs split: option.splits intro!: entitledI allowedI)

lemma audit_handlers [handlers]:
  "delivers (handleListAudit v c) s \<Longrightarrow> entitled v c AuditRead False"
  "delivers (handleGetAudit v c) s \<Longrightarrow> entitled v c AuditRead False"
  "delivers (handleVerifyAudit v c) s \<Longrightarrow> entitled v c AuditRead False"
  "delivers (handleAnchorAudit v c) s \<Longrightarrow> entitled v c AuditExport False"
  by (auto simp: handleListAudit_def handleGetAudit_def handleVerifyAudit_def handleAnchorAudit_def dest: with_audit_entitled)

section \<open>The table of routes\<close>

lemmas pattern_defs = parse_pattern_def parse_segment_def base_defs HasPrefix_def

lemma routes_entitled:
  assumes "rt \<in> set registerRoutes" "ro_Permission rt = Some perm" "Wildcard ''tenantID'' \<in> set (parse_pattern (ro_Pattern rt))"
    and "delivers (ro_Handler rt Routes v c) s"
  shows "entitled v c perm (Wildcard ''projectID'' \<in> set (parse_pattern (ro_Pattern rt)))"
  using assms by (simp add: routes_def) (elim disjE; simp add: Route_def PublicRoute_def pattern_defs handlers)

text \<open>The protected routes that name no tenant: one asks for its permission, the others only for a caller.\<close>

definition unasked_routes :: "(string \<times> string) list" where
  "unasked_routes = [(''POST'', ''/api/v1/tenants''), (''GET'', ''/api/v1/auth/me'')]"

lemma session_handlers:
  "delivers (handleMe v c) s \<Longrightarrow> \<exists>actor. in_principal c = Some actor"
  "delivers (handleCreateTenant v c) s \<Longrightarrow> \<exists>actor. in_principal c = Some actor"
  "delivers (handleListTenants v c) s \<Longrightarrow> \<exists>actor. in_principal c = Some actor \<and> Has (pr_Permissions actor) TenantRead"
  by (auto simp: handleMe_def handleCreateTenant_def handleListTenants_def ListTenants_def delivered split: if_splits)

lemma session_entitled:
  assumes "rt \<in> set registerRoutes" "ro_Permission rt = Some perm" "Wildcard ''tenantID'' \<notin> set (parse_pattern (ro_Pattern rt))"
    and "delivers (ro_Handler rt Routes v c) s"
  shows "\<exists>actor. in_principal c = Some actor \<and>
    ((ro_Method rt, ro_Pattern rt) \<in> set unasked_routes \<or> Has (pr_Permissions actor) perm)"
  using assms
  by (simp add: routes_def)
    (elim disjE; simp add: Route_def PublicRoute_def pattern_defs; (drule session_handlers)?; auto simp: unasked_routes_def base_defs)

section \<open>Served requests\<close>

lemma add_headers_delivers: "add_headers hs (y, s1) = (Some x, s') \<Longrightarrow> \<exists>x0. y = Some x0 \<and> s1 = s' \<and> re_Status x0 = re_Status x \<and>
    set (re_Headers x0) \<subseteq> set (re_Headers x)"
  by (cases y) (auto simp: add_headers_def)

lemma limited_delivers: "delivers (limited v who r) s \<Longrightarrow> \<exists>s1. delivers (serve_mux v who r) s1"
proof -
  assume d: "delivers (limited v who r) s"
  obtain outcome m where o: "rateLimit v who (pl_memory s) = (outcome, m)" by fastforce
  obtain x s' where x: "limited v who r s = (Some x, s')" "re_Status x < 400" "(''Idempotency-Replayed'', ''true'') \<notin> set (re_Headers x)"
    using d by (auto simp: delivers_def)
  show ?thesis
  proof (cases outcome)
    case (Passed hs)
    obtain y s2 where y: "serve_mux v who r (s\<lparr>pl_memory := m\<rparr>) = (y, s2)" by fastforce
    then have "add_headers hs (y, s2) = (Some x, s')" using x(1) by (simp add: limited_def o Passed)
    from add_headers_delivers [OF this] obtain x0 where "y = Some x0" "re_Status x0 = re_Status x" "set (re_Headers x0) \<subseteq> set (re_Headers x)"
      by blast
    then have "delivers (serve_mux v who r) (s\<lparr>pl_memory := m\<rparr>)" using y x(2,3) by (auto simp: delivers_def)
    then show ?thesis by blast
  next
    case (Rejected hs dim err)
    then have "add_headers hs (fail_with err (s\<lparr>pl_memory := m\<rparr>)) = (Some x, s')" using x(1) by (simp add: limited_def o)
    then have "add_headers hs (Some (WriteProblem err), s\<lparr>pl_memory := m\<rparr>) = (Some x, s')" by (simp add: fail_with_def)
    from add_headers_delivers [OF this] x(2) problem_refuses [of err] show ?thesis by auto
  qed
qed

lemma authenticated_delivers:
  assumes "delivers (authenticated cr keys v r) s"
  shows "\<exists>who tc s1 s2. authenticate cr keys v r s = (Inr who, s1) \<and> delivers (serve_mux (scoped_server tc v) who r) s2"
proof -
  obtain res s1 where a: "authenticate cr keys v r s = (res, s1)" by fastforce
  then have "delivers (or_fail res (\<lambda>p. or_fail (resolveTenant \<lparr>in_principal = p, in_values = [], in_request = r\<rparr>)
      (\<lambda>tc. limited (scoped_server tc v) p r))) s1"
    using assms by (simp add: authenticated_def delivers_def)
  then obtain who tc where "res = Inr who" "delivers (limited (scoped_server tc v) who r) s1" by (auto simp: or_fail_delivers)
  then show ?thesis using a limited_delivers by blast
qed

lemma Handler_delivers:
  assumes "delivers (Handler cr keys v r) s" "find_route r = Some route"
  shows "delivers (authenticated cr keys v r) s"
proof -
  have m: "rq_Method r \<noteq> ''OPTIONS''" using find_route_Some(4) assms(2) by (cases route) auto
  then have "snd (CORS (sc_AllowedOrigins (sv_cfg v)) r) = None" by (simp add: CORS_def Let_def)
  then obtain cors where "CORS (sc_AllowedOrigins (sv_cfg v)) r = (cors, None)" by (metis prod.collapse)
  then obtain hs where h: "Handler cr keys v r s = add_headers hs (authenticated cr keys v r s)"
    by (simp add: Handler_def)
  obtain y s2 where y: "authenticated cr keys v r s = (y, s2)" by fastforce
  obtain x s' where "add_headers hs (y, s2) = (Some x, s')" "re_Status x < 400" "(''Idempotency-Replayed'', ''true'') \<notin> set (re_Headers x)"
    using assms(1) h y by (auto simp: delivers_def)
  then show ?thesis using add_headers_delivers [of hs y s2 x s'] y by (auto simp: delivers_def)
qed

lemma scoped_server_same: "ev_policy (sv_env (scoped_server tc v)) = ev_policy (sv_env v)"
  "ev_now (sv_env (scoped_server tc v)) = ev_now (sv_env v)"
  by (simp_all add: scoped_server_def split: option.split)

lemma allowed_tenant:
  assumes "allowed ev actor perm t p" "t \<noteq> ''''"
  shows "pr_Kind actor = KindSystem \<and> perm \<in> set lifecycle_permissions \<or> pr_TenantID actor = t \<and> (\<exists>res. res_TenantID res = t \<and> res_ProjectID res = p \<and>
      d_Allowed (Authorize (ev_policy ev) (ev_now ev 0) actor perm res))"
proof -
  have "pr_TenantID actor = t" if "d_Allowed (Authorize (ev_policy ev) (ev_now ev 0) actor perm res)" "res_TenantID res = t" for res
    using that assms(2) unfolding Authorize_Allowed by simp
  then show ?thesis using assms(1) unfolding allowed_def Require_None by blast
qed

text \<open>C9: What a protected request has passed when the server answers it with success, other than by
  replaying a stored response. On every route the caller has been authenticated. On the routes below
  a tenant the path names the caller's own tenant and the evaluator allowed the permission of the
  route on a resource of that tenant, and of that project when the path names one; the system
  principal alone is exempt, for the permissions of the lifecycles. Of the three protected routes that
  name no tenant the listing of tenants requires the declared permission among those the caller
  holds, and \<^verbatim>\<open>POST /api/v1/tenants\<close> and \<^verbatim>\<open>GET /api/v1/auth/me\<close> are the two that declare a permission
  which nothing asks for. A replay is answered without the operation and its checks.\<close>

theorem served_requests_authorized:
  assumes "Handler cr keys v r s = (Some x, s')" "re_Status x < 400" "(''Idempotency-Replayed'', ''true'') \<notin> set (re_Headers x)"
    and "find_route r = Some (rt, vals)" "ro_Permission rt = Some perm"
  shows "\<exists>actor s1. authenticate cr keys v r s = (Inr (Some actor), s1) \<and>
    (if Wildcard ''tenantID'' \<in> set (parse_pattern (ro_Pattern rt))
     then \<exists>t p. ParseTenantID (PathValue vals ''tenantID'') = Inr t \<and>
       (Wildcard ''projectID'' \<in> set (parse_pattern (ro_Pattern rt)) \<longrightarrow> ParseProjectID (PathValue vals ''projectID'') = Inr p) \<and>
       (pr_Kind actor = KindSystem \<and>
          perm \<in> {ArtifactSubmit, ArtifactReview, ArtifactApprove, ArtifactFreeze, TenantSuspend} \<or>
        pr_TenantID actor = t \<and> (\<exists>res. res_TenantID res = t \<and> res_ProjectID res = p \<and>
          d_Allowed (Authorize (ev_policy (sv_env v)) (ev_now (sv_env v) 0) actor perm res)))
     else (ro_Method rt, ro_Pattern rt) \<in> {(''POST'', ''/api/v1/tenants''), (''GET'', ''/api/v1/auth/me'')} \<or>
       Has (pr_Permissions actor) perm)"
proof -
  have "delivers (Handler cr keys v r) s" using assms(1-3) by (auto simp: delivers_def)
  from authenticated_delivers [OF Handler_delivers [OF this assms(4)]] obtain who tc s1 s2
    where a: "authenticate cr keys v r s = (Inr who, s1)" and d: "delivers (serve_mux (scoped_server tc v) who r) s2" by blast
  let ?c = "\<lparr>in_principal = who, in_values = vals, in_request = r\<rparr>"
  have d: "delivers (ro_Handler rt Routes (scoped_server tc v) ?c) s2" using d assms(4) by (simp add: serve_mux_def)
  note route = find_route_Some(1) [OF assms(4)] assms(5)
  show ?thesis
  proof (cases "Wildcard ''tenantID'' \<in> set (parse_pattern (ro_Pattern rt))")
    case True
    from routes_entitled [OF route True d]
    obtain actor t p where e: "who = Some actor" "ParseTenantID (PathValue vals ''tenantID'') = Inr t"
        "Wildcard ''projectID'' \<in> set (parse_pattern (ro_Pattern rt)) \<longrightarrow> ParseProjectID (PathValue vals ''projectID'') = Inr p"
        "allowed (sv_env (scoped_server tc v)) actor perm t p"
      by (auto simp: entitled_def)
    have "t \<noteq> ''''" using e(2) unfolding ParseTenantID_def checkR_Inr by (auto simp: uuidRE_def)
    from allowed_tenant [OF e(4) this] show ?thesis
      using a e(1-3) True unfolding scoped_server_same lifecycle_permissions_def list.set by auto
  next
    case False
    from session_entitled [OF route False d] show ?thesis using a False by (auto simp: unasked_routes_def)
  qed
qed

section \<open>A request on the sample database\<close>

definition sample_robot :: Principal where
  "sample_robot = \<lparr>pr_ID = ''p1'', pr_Kind = KindServiceAccount, pr_TenantID = sample_tid, pr_Subject = ''u'',
     pr_Issuer = ''specforge:apikey'', pr_Display = ''ci'', pr_Email = '''', pr_Grants = [],
     pr_Permissions = ServiceAccountSet (add zeroSet ArtifactRead), pr_AuthTime = 5000, pr_AMR = [], pr_BreakGlass = False,
     pr_OnBehalfOf = None, pr_DesignAuthority = False\<rparr>"

definition sample_server :: server where
  "sample_server = \<lparr>sv_cfg = \<lparr>sc_ServiceName = '''', sc_Version = '''', sc_Env = '''', sc_MaxBodyBytes = 1024, sc_AllowedOrigins = [],
       sc_DefaultPageSize = 50, sc_MaxGraphDepth = 12, sc_RPSPerPrincipal = 0, sc_RPSPerTenant = 0, sc_BurstMultiplier = 1,
       sc_Buckets = \<lparr>bk_Content = ''c'', bk_Evidence = ''e''\<rparr>,
       sc_Verify = \<lparr>vo_Issuer = '''', vo_Audience = '''', vo_ClockSkew = 0, vo_RequireNonce = False, vo_ExpectNonce = ''''\<rparr>,
       sc_TenantClaim = ''tenant'', sc_RolesClaim = ''roles''\<rparr>,
     sv_env = call_env desk, sv_identity = sample_iv True (\<lambda>_. sample_realm [sample_account sample_tid]),
     sv_idem = \<lparr>ie_now = (\<lambda>_. 0), ie_db = 0, ie_fault = (\<lambda>_. None), ie_missed = False, ie_conn = (\<lambda>_. healthy 0)\<rparr>,
     sv_collate = (\<lambda>_. 0), sv_marshal = (\<lambda>_. Inr ''''), sv_dbHealth = None, sv_cacheHealth = None, sv_ready = True, sv_metrics = '''',
     sv_build = [], sv_authEnv = call_env desk, sv_authIdentity = sample_iv True (\<lambda>_. sample_realm [sample_account sample_tid]),
     sv_limitFault = (\<lambda>_. None), sv_limitClock = (\<lambda>_. (0, 0, 0)), sv_requestID = ''r1'', sv_traceparent = ''''\<rparr>"

definition listing_request :: http_request where
  "listing_request = \<lparr>rq_Method = ''GET'', rq_Segments = [''api'', ''v1'', ''tenants'', sample_tid, ''projects'', sample_tid, ''artifacts''],
     rq_Header = (\<lambda>h. if h = ''X-Api-Key'' then ''sf_prod_k_s'' else ''''), rq_Query = (\<lambda>_. ''''), rq_Body = '''', rq_ContentLength = 0\<rparr>"

definition sample_platform :: platform where
  "sample_platform = \<lparr>pl_realm = sample_realm [sample_account sample_tid], pl_idem = [], pl_memory = NewMemory 0\<rparr>"

abbreviation no_keys :: "string \<Rightarrow> string \<Rightarrow> (unit, unit) public_key option" where "no_keys \<equiv> \<lambda>_ _. None"

lemma sample_key: "AuthenticateAPIKey (call_env desk) (sample_iv True (\<lambda>_. sample_realm [sample_account sample_tid])) ''sf_prod_k_s'' = Inr sample_robot"
proof -
  have k: "ParseAPIKey ''sf_prod_k_s'' = Some (''k'', ''s'')" by code_simp
  have f: "FromNames [''artifact:read''] = Inr (add zeroSet ArtifactRead)" by code_simp
  show ?thesis
    by (simp add: AuthenticateAPIKey_def k FindAPIKey_def query_row_def found_def row_result_def sample_iv_def sample_realm_def
        sees_def pool_def stored_key_def call_env_def APIKey_Verify_def realm_read_def in_realm_def TxWith_def on_connection_healthy runT_def readT_def
        WithTenant_def MustTenant_def TenantFrom_def Empty_def scope_def GetPrincipal_def session_of_def sample_account_def
        Account_Active_def f sample_tid_def Let_def isRelaySession_def sample_robot_def)
qed

lemma sample_parse: "ParseTenantID sample_tid = Inr sample_tid" "ParseProjectID sample_tid = Inr sample_tid" by code_simp+

definition artifacts_route :: route where "artifacts_route = Route ''GET'' artifact_base ArtifactRead handleListArtifacts"

lemma artifacts_pattern: "parse_pattern artifact_base = [Literal ''api'', Literal ''v1'', Literal ''tenants'', Wildcard ''tenantID'',
    Literal ''projects'', Wildcard ''projectID'', Literal ''artifacts'']"
  by code_simp

lemma sample_takes: "takes artifacts_route listing_request = Some [(''tenantID'', sample_tid), (''projectID'', sample_tid)]"
  by (simp add: takes_def artifacts_route_def Route_def artifacts_pattern listing_request_def sample_tid_def)

lemma sample_route: "find_route listing_request = Some (artifacts_route, [(''tenantID'', sample_tid), (''projectID'', sample_tid)])"
proof -
  have "artifacts_route \<in> set (filter (accepts listing_request) registerRoutes)"
    using sample_takes by (simp add: accepts_def match_method_def listing_request_def)
      (simp add: routes_def artifacts_route_def Route_def)
  then have "filter (accepts listing_request) registerRoutes = [artifacts_route]"
    using one_route [of listing_request] by (cases "filter (accepts listing_request) registerRoutes") auto
  then show ?thesis by (simp add: find_route_def accepts_def [abs_def] sample_takes)
qed

lemma sample_private: "\<not> isPublic (URL_Path listing_request)"
  using public_exact [OF sample_route] by (simp add: artifacts_route_def Route_def)

lemma sample_signed_in: "authenticate sample_crypto no_keys sample_server listing_request sample_platform = (Inr (Some sample_robot), sample_platform)"
  by (simp add: authenticate_def sample_private) (simp add: listing_request_def sample_server_def sample_key)

lemma sample_scoped:
  "ev_policy (sv_env (scoped_server tc sample_server)) = DefaultPolicy" "ev_now (sv_env (scoped_server tc sample_server)) = (\<lambda>_. 5000)"
  "ev_conn (sv_env (scoped_server tc sample_server)) k = healthy 0"
  "ev_rfault (sv_env (scoped_server tc sample_server)) = (\<lambda>_. None)" "ev_read (sv_env (scoped_server tc sample_server)) = (\<lambda>_. desk)"
  by (simp_all add: scoped_server_def sample_server_def call_env_def split: option.split)

lemma sample_lists:
  "handleListArtifacts (scoped_server tc sample_server)
      \<lparr>in_principal = Some sample_robot, in_values = [(''tenantID'', sample_tid), (''projectID'', sample_tid)], in_request = listing_request\<rparr> s =
    (Some (WriteJSON 200 (Some (go_map [(''items'', Some (JArray [])), (''next_cursor'', str '''')]))), s)"
proof -
  have r: "Require DefaultPolicy 5000 sample_robot ArtifactRead (graph_resource sample_tid sample_tid ''artifact'' '''') = None" by code_simp
  have ne: "sample_tid \<noteq> ''''" by (simp add: sample_tid_def)
  have l: "ListArtifacts (sv_env (scoped_server tc sample_server)) \<lparr>af_TenantID = sample_tid, af_ProjectID = sample_tid, af_Type = '''',
      af_Status = '''', af_Label = ('''', ''''), af_Cursor = '''', af_Limit = n\<rparr> sample_robot = Inr ([], '''')" for n
    by (simp add: ListArtifacts_def Let_def sample_scoped r failR_Inr ReadOnly_Inr graph_scope_def scope_def ne
        repo_ListArtifacts_def keyset_list_def read_cursor_def select_page_def query_rows_def row_result_def cut_page_def newest_first_def
        desk_def bindR_Inr)
  have q: "rq_Query listing_request x = ''''" for x by (simp add: listing_request_def)
  show ?thesis
    by (simp add: handleListArtifacts_def with_scope_def principalOf_def or_fail_def path_scope_def PathValue_def sample_parse q l ok_def items_def)
qed

lemma sample_served: "\<exists>x. Handler sample_crypto no_keys sample_server listing_request sample_platform = (Some x, sample_platform) \<and>
    re_Status x = 200 \<and> (''Idempotency-Replayed'', ''true'') \<notin> set (re_Headers x)"
proof -
  have c: "CORS (sc_AllowedOrigins (sv_cfg sample_server)) listing_request = ([], None)"
    by (simp add: CORS_def Let_def sample_server_def listing_request_def TrimRightChar_def)
  have t: "\<exists>tc. resolveTenant \<lparr>in_principal = Some sample_robot, in_values = [], in_request = listing_request\<rparr> = Inr tc"
    by (simp add: resolveTenant_def sample_private PathValue_def)
  then obtain tc where t: "resolveTenant \<lparr>in_principal = Some sample_robot, in_values = [], in_request = listing_request\<rparr> = Inr tc" by blast
  have l: "rateLimit (scoped_server tc sample_server) (Some sample_robot) (pl_memory sample_platform) = (Passed [], pl_memory sample_platform)"
    by (simp add: rateLimit_def limit_middleware_def limit_config_def Let_def scoped_server_def sample_server_def split: option.split)
  have m: "serve_mux (scoped_server tc sample_server) (Some sample_robot) listing_request sample_platform =
      (Some (WriteJSON 200 (Some (go_map [(''items'', Some (JArray [])), (''next_cursor'', str '''')]))), sample_platform)"
    by (simp add: serve_mux_def sample_route sample_lists) (simp add: artifacts_route_def Route_def sample_lists)
  have "limited (scoped_server tc sample_server) (Some sample_robot) listing_request sample_platform =
      (Some (WriteJSON 200 (Some (go_map [(''items'', Some (JArray [])), (''next_cursor'', str '''')]))), sample_platform)"
    using m by (simp add: limited_def l add_headers_def WriteJSON_def)
  then have "authenticated sample_crypto no_keys sample_server listing_request sample_platform =
      (Some (WriteJSON 200 (Some (go_map [(''items'', Some (JArray [])), (''next_cursor'', str '''')]))), sample_platform)"
    by (simp add: authenticated_def sample_signed_in or_fail_def t)
  then show ?thesis by (simp add: Handler_def c add_headers_def WriteJSON_def SecurityHeaders_def)
qed

text \<open>The sample caller is not the system, so the theorem says that it was allowed to read artifacts of its own tenant.\<close>

lemma served_requests_authorized_witness:
  "\<exists>x s1 res. Handler sample_crypto no_keys sample_server listing_request sample_platform = (Some x, sample_platform) \<and> re_Status x = 200 \<and>
     authenticate sample_crypto no_keys sample_server listing_request sample_platform = (Inr (Some sample_robot), s1) \<and>
     pr_TenantID sample_robot = sample_tid \<and> res_TenantID res = sample_tid \<and> res_ProjectID res = sample_tid \<and>
     d_Allowed (Authorize DefaultPolicy 5000 sample_robot ArtifactRead res)"
proof -
  obtain x where x: "Handler sample_crypto no_keys sample_server listing_request sample_platform = (Some x, sample_platform)" "re_Status x = 200"
      "(''Idempotency-Replayed'', ''true'') \<notin> set (re_Headers x)"
    using sample_served by blast
  have w: "Wildcard ''tenantID'' \<in> set (parse_pattern (ro_Pattern artifacts_route))" "Wildcard ''projectID'' \<in> set (parse_pattern (ro_Pattern artifacts_route))"
      "ro_Permission artifacts_route = Some ArtifactRead"
    by (simp_all add: artifacts_route_def Route_def artifacts_pattern)
  have k: "pr_Kind sample_robot \<noteq> KindSystem" by (simp add: sample_robot_def KindSystem_def KindServiceAccount_def)
  have e: "ev_policy (sv_env sample_server) = DefaultPolicy" "ev_now (sv_env sample_server) 0 = 5000" by (simp_all add: sample_server_def call_env_def)
  from served_requests_authorized [OF x(1) _ x(3) sample_route w(3)] obtain res where
      "res_TenantID res = sample_tid" "res_ProjectID res = sample_tid" "d_Allowed (Authorize DefaultPolicy 5000 sample_robot ArtifactRead res)"
    using k w(1,2) x(2) by (auto simp: sample_signed_in PathValue_def sample_parse e)
  then show ?thesis using x(1,2) sample_signed_in by (auto simp: sample_robot_def)
qed

text \<open>What the exception for replays leaves open: a stored response is given to whoever repeats the request
  under its key, and the operation with its checks is not run.\<close>

lemma replay_is_unchecked:
  assumes "readBody (sc_MaxBodyBytes (sv_cfg v)) (in_request c) = Some body" "rq_Header (in_request c) ''Idempotency-Key'' = key" "key \<noteq> ''''"
    and "Begin (sv_idem v) (ev_ctx (sv_env v)) key (HashRequest (rq_Method (in_request c)) (URL_Path (in_request c)) body) (pl_idem s) =
      (Inr (rec, True), pl_idem s)"
  shows "idempotently v c status dto op s =
    (Some (replayed (if ir_HTTPStatus rec = 0 then 200 else ir_HTTPStatus rec) (ir_Body rec)), s)"
  using assms by (simp add: idempotently_def idempotent_def reply_of_def plw.put_get [unfolded set_world_def the_world_def] set_world_def the_world_def
      Let_def put_world_def)

text \<open>The route of tenant creation declares a permission that nothing asks for: the service does the same
  whatever the caller holds.\<close>

lemma CreateTenant_unchecked:
  "CreateTenant ev inp (actor\<lparr>pr_Permissions := held, pr_Grants := grants\<rparr>) w = CreateTenant ev inp actor w"
proof -
  have "actorOf (actor\<lparr>pr_Permissions := held, pr_Grants := grants\<rparr>) = actorOf actor"
      "outboxActor (actor\<lparr>pr_Permissions := held, pr_Grants := grants\<rparr>) = outboxActor actor"
      "pr_ID (actor\<lparr>pr_Permissions := held, pr_Grants := grants\<rparr>) = pr_ID actor"
    by (simp_all add: actorOf_def auditActor_def outboxActor_def)
  then show ?thesis unfolding CreateTenant_def Let_def by presburger
qed

text \<open>Before the multiplexer a request has no path values, so the comparison of the path's tenant with the
  caller's refuses nobody. The checks of the operations are what keeps tenants apart.\<close>

lemma resolveTenant_unchecked:
  "\<exists>tc. resolveTenant \<lparr>in_principal = Some p, in_values = [], in_request = r\<rparr> = Inr tc"
  by (simp add: resolveTenant_def PathValue_def)

end
