(* ===== verification/Spec2Isabelle.thy ===== *)
theory Spec2Isabelle
  imports Fsm Roles Abac Jcs JcsCanonical Hash Artifact TraceLink Db AuditLog Outbox Tenancy Sql ObjStore
    World TenancyService LinkService Traverse Serve Serial Approval
    Idempotency RateLimit Jwt SignIn Pages Dto Access
begin

text \<open>
  A verification library of SpecForge, the control plane that keeps specifications, requirements and
  the links between them under governance. It models the Go code under \<^verbatim>\<open>src/internal\<close>; this theory only
  gathers the others.

  \<^bold>\<open>The program.\<close> A request enters the chain of middleware of \<^verbatim>\<open>internal/server\<close>: it is authenticated by a
  bearer token or an API key (\<^verbatim>\<open>platform/authn\<close>, \<^verbatim>\<open>identity\<close>), counted against the rate limits
  (\<^verbatim>\<open>platform/ratelimit\<close> over \<^verbatim>\<open>platform/cache\<close>), matched with a route and decoded by a handler, under an
  idempotency key where it writes (\<^verbatim>\<open>platform/idempotency\<close>). The handler calls a service: \<^verbatim>\<open>tenancy/app\<close>,
  \<^verbatim>\<open>identity/app\<close>, \<^verbatim>\<open>artifactgraph/app\<close> or \<^verbatim>\<open>audit/app\<close>. A service asks the evaluator of \<^verbatim>\<open>platform/authz\<close>,
  reads rows through its repository, applies the rules of its domain (the lifecycles run on
  \<^verbatim>\<open>platform/fsm\<close>), and writes in one transaction of \<^verbatim>\<open>platform/db\<close> the rows, an audit record chained by
  hashes (\<^verbatim>\<open>audit\<close>, \<^verbatim>\<open>platform/hash\<close> over \<^verbatim>\<open>platform/jcs\<close>) and an event for the relay (\<^verbatim>\<open>platform/outbox\<close>). An
  approval also leaves evidence in the object store (\<^verbatim>\<open>platform/objstore\<close>).

  \<^bold>\<open>Conventions.\<close> A Go string or byte slice is a list of bytes; an enumeration of strings stays a string with
  its constants and its \<open>Valid\<close> test; an instant or a duration is an \<open>int\<close> of nanoseconds, the instants from
  Go's zero time; integers whose overflow can be reached are wrapped (\<open>wrap64\<close>) or words (permission sets,
  SHA-256). A fallible function returns \<open>'a result\<close>, the sum of \<open>go_error\<close> and its value; one that returns only
  an error, \<open>go_error option\<close>; a method with a pointer receiver, the changed value beside its error. A
  nil and an empty slice are one list, a nil pointer is \<open>None\<close>. A table is the list of its rows; a transaction
  is a function of the state that either fails, and then the state is as before, or returns a value and the
  new state (\<open>returnT\<close>, \<open>bindT\<close>, \<open>runT\<close> in \<open>Prelude\<close>). What Go takes from outside a function is an argument: the
  readings of the clock, generated identifiers and random bytes, the connection of a transaction (\<open>db_conn\<close>: the
  errors of its beginning, its session statements and its commit), the faults of statements and stores, each
  by its position in the call (\<open>env\<close> in \<open>World\<close>, \<open>id_env\<close> in \<open>IdentityService\<close>, \<open>idem_env\<close> in \<open>Idempotency\<close>, \<open>relay_env\<close> in
  \<open>Outbox\<close>, \<open>server\<close> in \<open>Handlers\<close>).

  \<^bold>\<open>Concurrency.\<close> The repositories read through connections of their own, outside the transaction that
  follows. So the \<open>k\<close>-th read of a call sees a state \<open>ev_read k\<close> that is an argument, and a history (\<open>hist\<close> in
  \<open>History\<close>) is a sequence of calls each of which may have read any earlier state, while its transaction acts on
  the current one. The statements of one transaction are one step: the rows they are conditioned on stay
  locked until it commits. Requests under one idempotency key and calls of the rate limiter interleave step
  by step in their own theories.

  \<^bold>\<open>The theories\<close>, in the order of the imports:
  \<^item> Ground: \<open>Prelude\<close> (strings, results, transactions, generic lemmas), \<open>Errors\<close> (\<^verbatim>\<open>platform/errors\<close>), \<open>GoTime\<close>,
    \<open>Rfc3339\<close>, \<open>Base64\<close>, \<open>Utf8\<close>, \<open>F64\<close>, \<open>Sha256\<close>, \<open>Json\<close> (what the sources use of Go's library).
  \<^item> Platform: \<open>Fsm\<close> (building and firing a transition table), \<open>Permissions\<close>, \<open>Roles\<close>, \<open>Abac\<close> (\<^verbatim>\<open>platform/authz\<close>),
    \<open>Types\<close>, \<open>Hash\<close>, \<open>Jcs\<close> with \<open>JcsCanonical\<close> and \<open>JcsStruct\<close> (canonical JSON and what it determines), \<open>Db\<close>, \<open>Sql\<close>
    (statements with the constraints and triggers of the migrations), \<open>ObjStore\<close>, \<open>Outbox\<close>, \<open>Cache\<close>, \<open>RateLimit\<close>,
    \<open>Jwt\<close>, \<open>Idempotency\<close>.
  \<^item> Domains and their tables: \<open>Tenancy\<close>, \<open>TenancyRepo\<close>, \<open>TenancyService\<close>; \<open>Artifact\<close>, \<open>ArtifactRepo\<close>, \<open>ArtifactService\<close>;
    \<open>TraceLink\<close>, \<open>LinkRepo\<close>, \<open>LinkService\<close>, \<open>Traverse\<close>; \<open>AuditLog\<close>; \<open>Identity\<close>, \<open>IdentityRepo\<close>, \<open>IdentityService\<close>, \<open>SignIn\<close>.
    \<open>World\<close> joins the tables into the database, by the locale \<open>component\<close>.
  \<^item> Histories: \<open>Graph\<close> (the invariant of the database and its growth, statement by statement), \<open>History\<close>, \<open>Desk\<close> (a
    sample database), \<open>Serve\<close> (every request), \<open>Serial\<close> (stale reads), \<open>Approval\<close>.
  \<^item> The server: \<open>Listing\<close> and \<open>Pages\<close> (lists with cursors), \<open>Http\<close> (requests, problems, the decoding of bodies),
    \<open>Dto\<close> (response bodies), \<open>Handlers\<close> (one function per handler), \<open>Server\<close> (routes, multiplexer, middleware),
    \<open>Table\<close> and \<open>Access\<close>.

  \<^bold>\<open>Interfaces.\<close> The contracts are locales, each interpreted on the model's own definitions: \<open>lifecycle\<close> (a table
  that builds, for artifacts, tenants and projects), \<open>perm_set\<close> (the permission bitset), \<open>chain_hash\<close> (the audit
  chain), \<open>write_once\<close> (both object stores), \<open>versioned_table\<close> (optimistic concurrency), \<open>component\<close> (a part of the database),
  \<open>keyset\<close> (a list by cursors).

  \<^bold>\<open>What is shown.\<close>
  \<^item> Whatever requests have been served in whatever order with whatever stale reads, every stored version and
    link is well formed, sealed versions do not change, the audit trail verifies, a rewritten trail does
    not match its anchor; a failed request leaves the database as it was, a served one its audit record and
    its event (\<open>Serve\<close>, \<open>Serial\<close>, \<open>AuditLog\<close>).
  \<^item> An approval goes through its gates, authorization and evidence, and the evidence stays readable until its
    retention ends (\<open>Approval\<close>, \<open>ObjStore\<close>). An active link a model proposed has a disposition (\<open>TraceLink\<close>).
  \<^item> The evaluator, the roles and the state machine engine are exactly their declarative readings (\<open>Abac\<close>, \<open>Roles\<close>,
    \<open>Fsm\<close>); the recursive query returns exactly the shortest chains, and always returns (\<open>Traverse\<close>).
  \<^item> Tokens, API keys and the mapping of groups give the principal they say (\<open>Jwt\<close>, \<open>SignIn\<close>, \<open>Identity\<close>); a key of the
    idempotency store runs its request once (\<open>Idempotency\<close>); a window lets no more than its limit through
    (\<open>RateLimit\<close>); cache keys of two tenants never meet (\<open>Cache\<close>).
  \<^item> Canonical JSON is idempotent and determines the value, so a content hash pins a version up to a SHA-256
    collision, which the proofs exhibit and never assume away (\<open>JcsCanonical\<close>, \<open>Artifact\<close>).
  \<^item> The relay loses and changes no event, marks one published only when its publisher took it, and gets nowhere
    while the publisher refuses or the row policy of the outbox applies to its role (\<open>Outbox\<close>).
  \<^item> At the boundary: no protected path skips authentication; every route below a tenant enforces the permission
    it declares, and so does the listing of tenants, while the creation of a tenant and \<^verbatim>\<open>auth/me\<close> declare one
    that nothing asks for; a response carries what its content hash is made of, and the audit trail can be read to
    its end page by page while it grows (\<open>Access\<close>, \<open>Table\<close>, \<open>Dto\<close>, \<open>Pages\<close>).

  \<^bold>\<open>Bounds and fuel.\<close> Recursion follows the data wherever it can. The JSON reader takes its depth from Go's
  limit of 10000 nested values; SHA-256 has its 64 rounds; the recursive query runs until a round is empty
  (\<open>partial_function\<close>, so that a query that does not return is \<open>None\<close>) and is shown to return; the relay runs for
  a list of ticks, with a theorem that says how many drain the outbox; a client that follows cursors has
  as many requests as the list has rows and one more, which is enough.

  \<^bold>\<open>Not modelled.\<close>
  \<^item> \<^verbatim>\<open>cmd\<close>, \<^verbatim>\<open>tools\<close>, \<^verbatim>\<open>platform/config\<close>, \<^verbatim>\<open>platform/log\<close>, \<^verbatim>\<open>platform/obs\<close>, \<^verbatim>\<open>buildinfo\<close>: start-up, flags, log lines, counters and
    spans. No result of a request depends on them; configuration values are arguments.
  \<^item> \<^verbatim>\<open>platform/db/pgwire\<close>, \<^verbatim>\<open>cache/redis.go\<close>, \<^verbatim>\<open>eventbus\<close>, \<^verbatim>\<open>authn/oidc.go\<close>, \<^verbatim>\<open>jwks.go\<close>, \<^verbatim>\<open>devidp.go\<close>: clients of network protocols.
    Their answers are arguments: what a statement returns or the error it fails with, whether a publication
    succeeded, the keys a token is verified with. The scanning of columns is taken to return what was stored,
    times to the microsecond, confidences to three decimals.
  \<^item> \<^verbatim>\<open>db/migrate\<close> runs files; the constraints and triggers those files create are part of the tables' models,
    and so are the row policies of the tables that the code also reaches without a tenant's session (identity,
    idempotency keys, outbox). On the other tables a refusal by the policy is one of a statement's faults. \<^verbatim>\<open>platform/id\<close> generates identifiers, which are arguments.
  \<^item> \<^verbatim>\<open>aiplatform\<close> declares ports and simulates a provider; no modelled component calls it.
  \<^item> RSA, ECDSA, SHA-384 and SHA-512, Unicode lower case beyond ASCII, the database's collation and the bytes
    \<^verbatim>\<open>json.Marshal\<close> writes for a response are parameters.
  \<^item> The texts of error messages, the details of problems, panics and their recovery, timeouts other than as a
    fault of a statement, and the process's start and shutdown.
  \<^item> The web client and the deployment files are in other languages.
\<close>

end
